(* ===== verification/XHub_Prelude.thy ===== *)
theory XHub_Prelude
  imports Complex_Main
begin

section \<open>Prelude: results, tables, strings\<close>

text \<open>
  What every component of the back end shares: the exceptions of NestJS as values, database
  tables as lists of rows in insertion order with the Prisma calls the services make
  (find first, filter, update where, append), the JavaScript string functions the sources
  call, and the collections of rewrite rules that the component proofs use.
\<close>

named_theorems table_simps \<open>rewriting of table operations\<close>
named_theorems step_defs \<open>definitions of the operations of the component at hand\<close>

subsection \<open>Errors as values\<close>

text \<open>
  The HTTP exceptions a handler throws. The text is the static part of the message (or the
  machine readable code, where the source has one). \<open>UniqueViolation\<close> is Prisma's P2002,
  \<open>TypeErr\<close> an exception of the language runtime (answered as a 500).
\<close>

datatype error =
    BadRequest string
  | NotFound string
  | Forbidden string
  | Conflict string
  | Unauthorized string
  | UniqueViolation
  | TypeErr

type_synonym 'a res = "error + 'a"

text \<open>
  A handler runs inside one database transaction (\<open>withTenant\<close> of prisma.service.ts), so an
  exception rolls every write back: an operation of the model returns \<open>Inl e\<close> and no state,
  or \<open>Inr\<close> of its response and the new state.
\<close>

definition is_ok :: "'a res \<Rightarrow> bool" where
  "is_ok r = (case r of Inl _ \<Rightarrow> False | Inr _ \<Rightarrow> True)"

lemma is_ok_simps [simp]: "is_ok (Inr x)" "\<not> is_ok (Inl e)"
  by (simp_all add: is_ok_def)

lemma ok_pair: "is_ok r \<Longrightarrow> r = Inr (fst (projr r), snd (projr r))"
  by (cases r) simp_all

lemma ok_projr: "is_ok r \<Longrightarrow> r = Inr (projr r)"
  by (cases r) simp_all

lemma run_ok:
  "(case r of Inl _ \<Rightarrow> False | Inr (w, s) \<Rightarrow> P w s) \<Longrightarrow> r = Inr (fst (projr r), snd (projr r)) \<and> P (fst (projr r)) (snd (projr r))"
  by (cases r) auto

lemma run_okD:
  "(case r of Inl _ \<Rightarrow> False | Inr (w, s) \<Rightarrow> P w s) \<Longrightarrow> is_ok r"
  "(case r of Inl _ \<Rightarrow> False | Inr (w, s) \<Rightarrow> P w s) \<Longrightarrow> P (fst (projr r)) (snd (projr r))"
  by (cases r; auto)+

lemma case_sum_Inr_eq:
  "(case r of Inl e \<Rightarrow> Inl e | Inr x \<Rightarrow> f x) = Inr y \<longleftrightarrow> (\<exists>x. r = Inr x \<and> f x = Inr y)"
  by (cases r) auto

subsection \<open>Tables\<close>

definition tfind :: "('r \<Rightarrow> bool) \<Rightarrow> 'r list \<Rightarrow> 'r option" where
  "tfind P t = find P t"

definition tupd :: "('r \<Rightarrow> bool) \<Rightarrow> ('r \<Rightarrow> 'r) \<Rightarrow> 'r list \<Rightarrow> 'r list" where
  "tupd P f t = map (\<lambda>r. if P r then f r else r) t"

lemma tfind_SomeD: "tfind P t = Some r \<Longrightarrow> r \<in> set t \<and> P r"
  by (auto simp: tfind_def find_Some_iff)

lemma tfind_None_iff: "tfind P t = None \<longleftrightarrow> (\<forall>r \<in> set t. \<not> P r)"
  by (auto simp: tfind_def find_None_iff)

lemma tfind_append [table_simps]:
  "tfind P (t @ u) = (case tfind P t of None \<Rightarrow> tfind P u | Some r \<Rightarrow> Some r)"
  by (induction t) (auto simp: tfind_def)

lemma tfind_Nil [simp]: "tfind P [] = None"
  by (simp add: tfind_def)

lemma tfind_Cons [table_simps]: "tfind P (r # t) = (if P r then Some r else tfind P t)"
  by (simp add: tfind_def)

lemma tupd_Nil [simp]: "tupd P f [] = []"
  by (simp add: tupd_def)

lemma tupd_Cons [table_simps]: "tupd P f (r # t) = (if P r then f r else r) # tupd P f t"
  by (simp add: tupd_def)

lemma tupd_append [table_simps]: "tupd P f (t @ u) = tupd P f t @ tupd P f u"
  by (simp add: tupd_def)

lemma length_tupd [simp]: "length (tupd P f t) = length t"
  by (simp add: tupd_def)

lemma set_tupd: "set (tupd P f t) = (\<lambda>r. if P r then f r else r) ` set t"
  by (simp add: tupd_def)

lemma in_set_tupdE:
  assumes "r \<in> set (tupd P f t)"
  obtains (new) r0 where "r0 \<in> set t" "P r0" "r = f r0"
        | (old) "r \<in> set t" "\<not> P r"
  using assms by (auto simp: set_tupd split: if_splits)

lemma map_tupd_frame:
  "(\<And>r. P r \<Longrightarrow> g (f r) = g r) \<Longrightarrow> map g (tupd P f t) = map g t"
  by (simp add: tupd_def)

lemma filter_tupd_frame:
  assumes "\<And>r. P r \<Longrightarrow> Q (f r) = Q r" and "\<And>r. P r \<Longrightarrow> \<not> Q r"
  shows "filter Q (tupd P f t) = filter Q t"
  using assms by (induction t) (auto simp: table_simps)

text \<open>A column with distinct values picks out at most one row.\<close>

lemma distinct_column_unique:
  "distinct (map k t) \<Longrightarrow> r \<in> set t \<Longrightarrow> r' \<in> set t \<Longrightarrow> k r = k r' \<Longrightarrow> r = r'"
  by (auto simp: distinct_map inj_on_def)

lemma tfind_column:
  "distinct (map k t) \<Longrightarrow> r \<in> set t \<Longrightarrow> tfind (\<lambda>x. k x = k r) t = Some r"
  by (induction t) (auto simp: table_simps)

text \<open>A JavaScript \<open>Set\<close> built from a list keeps the first of equal elements.\<close>

definition to_set :: "'a list \<Rightarrow> 'a list" where
  "to_set xs = rev (remdups (rev xs))"

lemma set_to_set [simp]: "set (to_set xs) = set xs"
  by (simp add: to_set_def)

lemma distinct_to_set [simp]: "distinct (to_set xs)"
  by (simp add: to_set_def)

lemma to_set_empty_iff [simp]: "to_set xs = [] \<longleftrightarrow> xs = []"
  by (simp add: to_set_def)

subsection \<open>Options: null coalescing\<close>

text \<open>\<open>a ?? b\<close> for an optional \<open>a\<close>; \<open>null\<close> and \<open>undefined\<close> are both \<open>None\<close>.\<close>

definition coalesce :: "'a option \<Rightarrow> 'a \<Rightarrow> 'a" where
  "coalesce a b = (case a of None \<Rightarrow> b | Some x \<Rightarrow> x)"

definition coalesce_opt :: "'a option \<Rightarrow> 'a option \<Rightarrow> 'a option" where
  "coalesce_opt a b = (case a of None \<Rightarrow> b | Some x \<Rightarrow> Some x)"

lemma coalesce_simps [simp]: "coalesce None b = b" "coalesce (Some a) b = a"
  by (simp_all add: coalesce_def)

lemma coalesce_opt_simps [simp]: "coalesce_opt None b = b" "coalesce_opt (Some a) b = Some a"
  by (simp_all add: coalesce_opt_def)

text \<open>An optional string is truthy when it is present and not empty.\<close>

definition truthy_str :: "string option \<Rightarrow> bool" where
  "truthy_str s = (case s of None \<Rightarrow> False | Some t \<Rightarrow> t \<noteq> [])"

lemma truthy_str_simps [simp]: "\<not> truthy_str None" "truthy_str (Some s) = (s \<noteq> [])"
  by (simp_all add: truthy_str_def)

lemma truthy_strE: "truthy_str s \<Longrightarrow> (\<And>t. s = Some t \<Longrightarrow> t \<noteq> [] \<Longrightarrow> P) \<Longrightarrow> P"
  by (cases s) auto

subsection \<open>Strings\<close>

text \<open>
  Strings are lists of bytes (the UTF-8 form of the source's strings). Case mapping touches
  the ASCII letters only: the constants the code compares with are ASCII.
\<close>

definition upper_char :: "char \<Rightarrow> char" where
  "upper_char c = (let n = of_char c :: nat in if 97 \<le> n \<and> n \<le> 122 then char_of (n - 32) else c)"

definition lower_char :: "char \<Rightarrow> char" where
  "lower_char c = (let n = of_char c :: nat in if 65 \<le> n \<and> n \<le> 90 then char_of (n + 32) else c)"

definition to_upper :: "string \<Rightarrow> string" where
  "to_upper = map upper_char"

definition to_lower :: "string \<Rightarrow> string" where
  "to_lower = map lower_char"

text \<open>\<open>trim\<close>: the ASCII white space of ECMAScript (tab, line feed, vertical tab, form feed,
  carriage return, space).\<close>

definition is_space :: "char \<Rightarrow> bool" where
  "is_space c = (let n = of_char c :: nat in n = 32 \<or> (9 \<le> n \<and> n \<le> 13))"

definition trim :: "string \<Rightarrow> string" where
  "trim s = rev (dropWhile is_space (rev (dropWhile is_space s)))"

definition starts_with :: "string \<Rightarrow> string \<Rightarrow> bool" where
  "starts_with p s = (take (length p) s = p)"

definition ends_with :: "string \<Rightarrow> string \<Rightarrow> bool" where
  "ends_with p s = starts_with (rev p) (rev s)"

fun includes_str :: "string \<Rightarrow> string \<Rightarrow> bool" where
  "includes_str p [] = (p = [])"
| "includes_str p (c # cs) = (starts_with p (c # cs) \<or> includes_str p cs)"

lemma starts_with_append [simp]: "starts_with p (p @ s)"
  by (simp add: starts_with_def)

lemma starts_with_iff: "starts_with p s \<longleftrightarrow> (\<exists>t. s = p @ t)"
  by (metis append_take_drop_id append_eq_conv_conj starts_with_def)

lemma ends_with_iff: "ends_with p s \<longleftrightarrow> (\<exists>t. s = t @ p)"
  by (metis ends_with_def rev_append rev_rev_ident starts_with_iff)

lemma includes_strI: "includes_str p (a @ p @ b)"
proof (induction a)
  case Nil
  show ?case
  proof (cases "p @ b")
    case Nil
    then show ?thesis by simp
  next
    case (Cons c cs)
    then have "starts_with p (c # cs)" by (metis starts_with_append)
    with Cons show ?thesis by simp
  qed
qed simp

lemma includes_strD: "includes_str p s \<Longrightarrow> \<exists>a b. s = a @ p @ b"
proof (induction s)
  case (Cons c cs)
  show ?case
  proof (cases "starts_with p (c # cs)")
    case True
    then obtain b where "c # cs = [] @ p @ b" by (auto simp: starts_with_iff)
    then show ?thesis by blast
  next
    case False
    with Cons obtain a b where "cs = a @ p @ b" by auto
    then have "c # cs = (c # a) @ p @ b" by simp
    then show ?thesis by blast
  qed
qed simp

lemma includes_str_iff: "includes_str p s \<longleftrightarrow> (\<exists>a b. s = a @ p @ b)"
  using includes_strD includes_strI by blast

lemma trim_empty_iff: "trim s = [] \<longleftrightarrow> (\<forall>c \<in> set s. is_space c)"
proof -
  have "trim s = [] \<longleftrightarrow> (\<forall>c \<in> set (dropWhile is_space s). is_space c)"
    by (simp add: trim_def dropWhile_eq_Nil_conv)
  also have "\<dots> \<longleftrightarrow> (\<forall>c \<in> set s. is_space c)"
    by (induction s) auto
  finally show ?thesis .
qed

text \<open>Decimal and base 36 rendering of numbers, and \<open>padStart\<close>.\<close>

definition digit36 :: "nat \<Rightarrow> char" where
  "digit36 d = (if d < 10 then char_of (48 + d) else char_of (55 + d))"

fun show_base :: "nat \<Rightarrow> nat \<Rightarrow> string" where
  "show_base b n =
     (if b < 2 \<or> n < b then [digit36 n] else show_base b (n div b) @ [digit36 (n mod b)])"

declare show_base.simps [simp del]

definition show_nat :: "nat \<Rightarrow> string" where
  "show_nat n = show_base 10 n"

definition pad_start :: "nat \<Rightarrow> char \<Rightarrow> string \<Rightarrow> string" where
  "pad_start n c s = replicate (n - length s) c @ s"

fun split_on :: "char \<Rightarrow> string \<Rightarrow> string list" where
  "split_on c [] = [[]]"
| "split_on c (x # xs) =
     (if x = c then [] # split_on c xs
      else (case split_on c xs of [] \<Rightarrow> [[x]] | w # ws \<Rightarrow> (x # w) # ws))"

lemma split_on_not_Nil [simp]: "split_on c s \<noteq> []"
  by (induction s) (auto split: list.splits)

text \<open>\<open>xs.join(sep)\<close>.\<close>

fun join_str :: "string \<Rightarrow> string list \<Rightarrow> string" where
  "join_str sep [] = []"
| "join_str sep [x] = x"
| "join_str sep (x # y # ys) = x @ sep @ join_str sep (y # ys)"

subsection \<open>Numbers\<close>

text \<open>\<open>Math.round\<close>: to the nearest integer, halves upwards.\<close>

definition js_round :: "rat \<Rightarrow> int" where
  "js_round x = \<lfloor>x + 1 / 2\<rfloor>"

lemma js_round_of_int [simp]: "js_round (of_int n) = n"
  by (simp add: js_round_def floor_eq_iff)

lemma js_round_mono: "x \<le> y \<Longrightarrow> js_round x \<le> js_round y"
  by (simp add: js_round_def floor_mono)

lemma js_round_between: "of_int a \<le> x \<Longrightarrow> x \<le> of_int b \<Longrightarrow> a \<le> js_round x \<and> js_round x \<le> b"
  using js_round_mono [of "of_int a" x] js_round_mono [of x "of_int b"] by simp

subsection \<open>Dates in requests\<close>

text \<open>
  A date of a request body after \<open>new Date(...)\<close>: not given (or empty), not a date, or an
  instant in milliseconds.
\<close>

datatype date_in = Absent | Invalid | At int

definition date_opt :: "date_in \<Rightarrow> int option" where
  "date_opt d = (case d of At t \<Rightarrow> Some t | _ \<Rightarrow> None)"

lemma date_opt_simps [simp]:
  "date_opt Absent = None" "date_opt Invalid = None" "date_opt (At t) = Some t"
  by (simp_all add: date_opt_def)

text \<open>\<open>String(x ?? '').trim()\<close> of an optional string.\<close>

definition trim_in :: "string option \<Rightarrow> string" where
  "trim_in x = trim (coalesce x '''')"

subsection \<open>The runtime a handler reads\<close>

text \<open>
  Values that come from outside the program: the clock (\<open>Date.now()\<close>, milliseconds), the
  identifiers the database issues (\<open>cuid i\<close> is the \<open>i\<close>-th one; a state counts how many it has
  used), the random identifiers of \<open>node:crypto\<close> and \<open>Math.floor(Math.random() * 1000)\<close>.
\<close>

record env =
  now :: int
  cuid :: "nat \<Rightarrow> string"
  uuid :: "nat \<Rightarrow> string"
  rnd :: "nat \<Rightarrow> nat"

text \<open>
  \<open>`${prefix}-${Date.now().toString(36).toUpperCase()}-${random.padStart(3, '0')}`\<close>, the code
  every module gives a new record when the caller names none.
\<close>

definition stamp :: "env \<Rightarrow> string" where
  "stamp v = show_base 36 (nat (now v))"

definition gen_code :: "env \<Rightarrow> string \<Rightarrow> nat \<Rightarrow> string" where
  "gen_code v prefix i =
     prefix @ ''-'' @ stamp v @ ''-'' @ pad_start 3 (CHR ''0'') (show_nat (rnd v i))"

text \<open>A concrete runtime for the examples.\<close>

definition demo_env :: env where
  "demo_env = \<lparr>now = 50, cuid = (\<lambda>n. ''id'' @ show_nat n), uuid = (\<lambda>n. ''u'' @ show_nat n), rnd = (\<lambda>n. n)\<rparr>"

end
