(* ===== verification/Fsm.thy ===== *)
theory Fsm
  imports XHub_Prelude
begin

section \<open>Transition tables\<close>

text \<open>
  The modules of the electronic office keep one explicit transition table each
  (\<open>*.fsm.ts\<close>): an action has a list of source states and one target state, and any other
  pair is illegal. This theory holds the lookup every module repeats (\<open>xxxNext\<close>,
  \<open>xxxLegalActions\<close>), the interface \<open>transition_table\<close> with the facts that follow from its
  laws, and, per module, the table itself with the interpretation of the interface.
  The second form of table in the source (\<open>from \<mapsto> list of targets\<close>: work items, leave,
  overtime, attendance corrections, initiatives) has the interface \<open>target_table\<close>.
\<close>

type_synonym 'a ttable = "'a \<Rightarrow> string list \<times> string"

subsection \<open>The generic lookup\<close>

definition table_next :: "'a ttable \<Rightarrow> 'a \<Rightarrow> string \<Rightarrow> string option" where
  "table_next tr a s = (if s \<in> set (fst (tr a)) then Some (snd (tr a)) else None)"

definition table_legal :: "'a ttable \<Rightarrow> 'a list \<Rightarrow> string \<Rightarrow> 'a list" where
  "table_legal tr acts s = filter (\<lambda>a. s \<in> set (fst (tr a))) acts"

text \<open>Running a sequence of actions: \<open>None\<close> when one of them is rejected.\<close>

fun table_run :: "'a ttable \<Rightarrow> string \<Rightarrow> 'a list \<Rightarrow> string option" where
  "table_run tr s [] = Some s"
| "table_run tr s (a # as) =
     (case table_next tr a s of None \<Rightarrow> None | Some t \<Rightarrow> table_run tr t as)"

lemma table_run_append:
  "table_run tr s (as @ bs) =
     (case table_run tr s as of None \<Rightarrow> None | Some t \<Rightarrow> table_run tr t bs)"
  by (induction tr s as rule: table_run.induct) (auto split: option.splits)

lemma table_next_Some_iff:
  "table_next tr a s = Some t \<longleftrightarrow> s \<in> set (fst (tr a)) \<and> t = snd (tr a)"
  by (auto simp: table_next_def)

subsection \<open>The interface: an action table with terminal states\<close>

locale transition_table =
  fixes tr :: "'a ttable" and acts :: "'a list" and terminal :: "string list"
  assumes all_actions: "set acts = UNIV"
    and distinct_actions: "distinct acts"
    and no_exit: "s \<in> set terminal \<Longrightarrow> s \<notin> set (fst (tr a))"
begin

lemma legal_iff_next: "a \<in> set (table_legal tr acts s) \<longleftrightarrow> table_next tr a s \<noteq> None"
  by (simp add: table_legal_def table_next_def all_actions)

lemma distinct_legal: "distinct (table_legal tr acts s)"
  by (simp add: table_legal_def distinct_actions)

lemma terminal_no_action: "s \<in> set terminal \<Longrightarrow> table_legal tr acts s = []"
  by (simp add: table_legal_def no_exit)

lemma terminal_stuck: "s \<in> set terminal \<Longrightarrow> table_next tr a s = None"
  by (simp add: table_next_def no_exit)

lemma terminal_run:
  "s \<in> set terminal \<Longrightarrow> table_run tr s as = Some t \<Longrightarrow> as = [] \<and> t = s"
  by (cases as) (auto simp: terminal_stuck)

lemma run_target:
  "table_run tr s as = Some t \<Longrightarrow> as \<noteq> [] \<Longrightarrow> t = snd (tr (last as))"
proof (induction as arbitrary: s)
  case (Cons a as)
  from Cons.prems obtain u where u: "table_next tr a s = Some u" "table_run tr u as = Some t"
    by (auto split: option.splits)
  show ?case
  proof (cases "as = []")
    case True
    with u show ?thesis by (simp add: table_next_Some_iff)
  next
    case False
    with u Cons.IH show ?thesis by simp
  qed
qed simp

text \<open>A state no action leads to is only seen at the start of a run.\<close>

lemma run_never_enters:
  assumes "\<And>a. snd (tr a) \<noteq> t" "table_run tr s as = Some t"
  shows "as = [] \<and> s = t"
  using assms run_target by fastforce

end

text \<open>An invariant of one step of a table is an invariant of its runs.\<close>

lemma table_run_invariant:
  assumes step: "\<And>s a t. P s \<Longrightarrow> table_next tr a s = Some t \<Longrightarrow> P t"
    and run: "table_run tr s as = Some t" and start: "P s"
  shows "P t"
  using run start
proof (induction as arbitrary: s)
  case (Cons a as)
  then show ?case by (auto split: option.splits dest: step)
qed simp

subsection \<open>Tickets\<close>

text \<open>xhub-api/src/tickets/tickets.fsm.ts\<close>

datatype ticket_action =
  T_triage | T_assign | T_claim | T_start | T_pending | T_resume | T_resolve | T_close | T_cancel

fun TICKET_TRANSITIONS :: "ticket_action ttable" where
  "TICKET_TRANSITIONS T_triage = ([''NEW''], ''TRIAGED'')"
| "TICKET_TRANSITIONS T_assign = ([''NEW'', ''TRIAGED'', ''ASSIGNED'', ''IN_PROGRESS''], ''ASSIGNED'')"
| "TICKET_TRANSITIONS T_claim = ([''NEW'', ''TRIAGED'', ''ASSIGNED''], ''ASSIGNED'')"
| "TICKET_TRANSITIONS T_start = ([''ASSIGNED'', ''PENDING_REQUESTER''], ''IN_PROGRESS'')"
| "TICKET_TRANSITIONS T_pending = ([''IN_PROGRESS''], ''PENDING_REQUESTER'')"
| "TICKET_TRANSITIONS T_resume = ([''PENDING_REQUESTER''], ''IN_PROGRESS'')"
| "TICKET_TRANSITIONS T_resolve = ([''IN_PROGRESS'', ''PENDING_REQUESTER''], ''RESOLVED'')"
| "TICKET_TRANSITIONS T_close = ([''RESOLVED''], ''CLOSED'')"
| "TICKET_TRANSITIONS T_cancel =
     ([''NEW'', ''TRIAGED'', ''ASSIGNED'', ''IN_PROGRESS'', ''PENDING_REQUESTER''], ''CANCELLED'')"

definition ticket_actions :: "ticket_action list" where
  "ticket_actions =
     [T_triage, T_assign, T_claim, T_start, T_pending, T_resume, T_resolve, T_close, T_cancel]"

definition TICKET_TERMINAL :: "string list" where
  "TICKET_TERMINAL = [''CLOSED'', ''CANCELLED'']"

definition ticketNext :: "ticket_action \<Rightarrow> string \<Rightarrow> string option" where
  "ticketNext = table_next TICKET_TRANSITIONS"

definition ticketLegalActions :: "string \<Rightarrow> ticket_action list" where
  "ticketLegalActions = table_legal TICKET_TRANSITIONS ticket_actions"

interpretation ticket: transition_table TICKET_TRANSITIONS ticket_actions TICKET_TERMINAL
proof unfold_locales
  show "set ticket_actions = UNIV"
    by (auto simp: ticket_actions_def) (metis ticket_action.exhaust)
  show "s \<in> set TICKET_TERMINAL \<Longrightarrow> s \<notin> set (fst (TICKET_TRANSITIONS a))" for s a
    by (cases a) (auto simp: TICKET_TERMINAL_def)
qed (simp add: ticket_actions_def)

text \<open>\<open>isOverdue\<close>: the due time has passed and the state is not final. \<open>None\<close> is a row
  without a due time.\<close>

definition overdue_unless :: "string list \<Rightarrow> int \<Rightarrow> int option \<Rightarrow> string \<Rightarrow> bool" where
  "overdue_unless final t due s =
     (case due of None \<Rightarrow> False | Some d \<Rightarrow> s \<notin> set final \<and> d < t)"

definition ticket_isOverdue :: "int \<Rightarrow> int option \<Rightarrow> string \<Rightarrow> bool" where
  "ticket_isOverdue = overdue_unless TICKET_TERMINAL"

subsection \<open>Requests\<close>

text \<open>xhub-api/src/requests/requests.fsm.ts: \<open>REVIEWABLE\<close> is shared by several rows.\<close>

definition REVIEWABLE :: "string list" where
  "REVIEWABLE = [''SUBMITTED'', ''RESUBMITTED'', ''IN_REVIEW'']"

subsection \<open>Request table\<close>

text \<open>The request lifecycle proper.\<close>

datatype request_action =
  R_submit | R_request_supplement | R_resubmit | R_approve | R_reject | R_withdraw | R_cancel | R_execute | R_evidence

fun REQUEST_TRANSITIONS :: "request_action ttable" where
  "REQUEST_TRANSITIONS R_submit =
     ([''DRAFT''], ''SUBMITTED'')"
| "REQUEST_TRANSITIONS R_request_supplement =
     (REVIEWABLE, ''WAITING_SUPPLEMENT'')"
| "REQUEST_TRANSITIONS R_resubmit =
     ([''WAITING_SUPPLEMENT''], ''RESUBMITTED'')"
| "REQUEST_TRANSITIONS R_approve =
     (REVIEWABLE, ''APPROVED'')"
| "REQUEST_TRANSITIONS R_reject =
     (REVIEWABLE, ''REJECTED'')"
| "REQUEST_TRANSITIONS R_withdraw =
     (REVIEWABLE @ [''WAITING_SUPPLEMENT'', ''DRAFT''], ''WITHDRAWN'')"
| "REQUEST_TRANSITIONS R_cancel =
     (REVIEWABLE @ [''WAITING_SUPPLEMENT'', ''DRAFT''], ''CANCELLED'')"
| "REQUEST_TRANSITIONS R_execute =
     ([''APPROVED''], ''EXECUTING'')"
| "REQUEST_TRANSITIONS R_evidence =
     ([''EXECUTING''], ''DONE'')"

definition request_actions :: "request_action list" where
  "request_actions = [R_submit, R_request_supplement, R_resubmit, R_approve, R_reject, R_withdraw, R_cancel, R_execute, R_evidence]"

definition REQUEST_TERMINAL :: "string list" where
  "REQUEST_TERMINAL = [''DONE'', ''COMPLETED'', ''REJECTED'', ''WITHDRAWN'', ''CANCELLED'']"

definition nextState :: "request_action \<Rightarrow> string \<Rightarrow> string option" where
  "nextState = table_next REQUEST_TRANSITIONS"

definition legalActions :: "string \<Rightarrow> request_action list" where
  "legalActions = table_legal REQUEST_TRANSITIONS request_actions"

interpretation request: transition_table REQUEST_TRANSITIONS request_actions REQUEST_TERMINAL
proof unfold_locales
  show "set request_actions = UNIV"
    by (auto simp: request_actions_def) (metis request_action.exhaust)
  show "s \<in> set REQUEST_TERMINAL \<Longrightarrow> s \<notin> set (fst (REQUEST_TRANSITIONS a))" for s a
    by (cases a) (auto simp: REQUEST_TERMINAL_def REVIEWABLE_def)
qed (simp add: request_actions_def)

subsection \<open>Bookings\<close>

text \<open>xhub-api/src/bookings/bookings.fsm.ts\<close>

datatype booking_action =
  B_approve | B_reject | B_cancel | B_check_in | B_check_out | B_no_show

fun BOOKING_TRANSITIONS :: "booking_action ttable" where
  "BOOKING_TRANSITIONS B_approve =
     ([''REQUESTED''], ''APPROVED'')"
| "BOOKING_TRANSITIONS B_reject =
     ([''REQUESTED''], ''REJECTED'')"
| "BOOKING_TRANSITIONS B_cancel =
     ([''REQUESTED'', ''APPROVED'', ''CHECKED_IN''], ''CANCELLED'')"
| "BOOKING_TRANSITIONS B_check_in =
     ([''APPROVED''], ''CHECKED_IN'')"
| "BOOKING_TRANSITIONS B_check_out =
     ([''CHECKED_IN''], ''CHECKED_OUT'')"
| "BOOKING_TRANSITIONS B_no_show =
     ([''APPROVED''], ''NO_SHOW'')"

definition booking_actions :: "booking_action list" where
  "booking_actions = [B_approve, B_reject, B_cancel, B_check_in, B_check_out, B_no_show]"

definition BOOKING_TERMINAL :: "string list" where
  "BOOKING_TERMINAL = [''CHECKED_OUT'', ''NO_SHOW'', ''REJECTED'', ''CANCELLED'']"

definition bookingNext :: "booking_action \<Rightarrow> string \<Rightarrow> string option" where
  "bookingNext = table_next BOOKING_TRANSITIONS"

definition bookingLegalActions :: "string \<Rightarrow> booking_action list" where
  "bookingLegalActions = table_legal BOOKING_TRANSITIONS booking_actions"

interpretation booking: transition_table BOOKING_TRANSITIONS booking_actions BOOKING_TERMINAL
proof unfold_locales
  show "set booking_actions = UNIV"
    by (auto simp: booking_actions_def) (metis booking_action.exhaust)
  show "s \<in> set BOOKING_TERMINAL \<Longrightarrow> s \<notin> set (fst (BOOKING_TRANSITIONS a))" for s a
    by (cases a) (auto simp: BOOKING_TERMINAL_def)
qed (simp add: booking_actions_def)

text \<open>States that hold the slot, the overlap of half-open windows, and the overdue test.\<close>

definition BOOKING_ACTIVE :: "string list" where
  "BOOKING_ACTIVE = [''REQUESTED'', ''APPROVED'', ''CHECKED_IN'']"

definition overlaps :: "int \<Rightarrow> int \<Rightarrow> int \<Rightarrow> int \<Rightarrow> bool" where
  "overlaps aStart aEnd bStart bEnd = (aStart < bEnd \<and> bStart < aEnd)"

definition booking_isOverdue :: "int \<Rightarrow> int option \<Rightarrow> string \<Rightarrow> bool" where
  "booking_isOverdue t endAt s =
     (case endAt of None \<Rightarrow> False | Some e \<Rightarrow> s \<in> {''APPROVED'', ''CHECKED_IN''} \<and> e < t)"

subsection \<open>Announcements\<close>

text \<open>xhub-api/src/announcements/announcements.fsm.ts\<close>

datatype announcement_action =
  A_publish | A_archive | A_cancel

fun ANNOUNCEMENT_TRANSITIONS :: "announcement_action ttable" where
  "ANNOUNCEMENT_TRANSITIONS A_publish =
     ([''DRAFT''], ''PUBLISHED'')"
| "ANNOUNCEMENT_TRANSITIONS A_archive =
     ([''PUBLISHED''], ''ARCHIVED'')"
| "ANNOUNCEMENT_TRANSITIONS A_cancel =
     ([''DRAFT'', ''PUBLISHED''], ''CANCELLED'')"

definition announcement_actions :: "announcement_action list" where
  "announcement_actions = [A_publish, A_archive, A_cancel]"

definition ANNOUNCEMENT_TERMINAL :: "string list" where
  "ANNOUNCEMENT_TERMINAL = [''ARCHIVED'', ''CANCELLED'']"

definition announcementNext :: "announcement_action \<Rightarrow> string \<Rightarrow> string option" where
  "announcementNext = table_next ANNOUNCEMENT_TRANSITIONS"

definition announcementLegalActions :: "string \<Rightarrow> announcement_action list" where
  "announcementLegalActions = table_legal ANNOUNCEMENT_TRANSITIONS announcement_actions"

interpretation announcement: transition_table ANNOUNCEMENT_TRANSITIONS announcement_actions ANNOUNCEMENT_TERMINAL
proof unfold_locales
  show "set announcement_actions = UNIV"
    by (auto simp: announcement_actions_def) (metis announcement_action.exhaust)
  show "s \<in> set ANNOUNCEMENT_TERMINAL \<Longrightarrow> s \<notin> set (fst (ANNOUNCEMENT_TRANSITIONS a))" for s a
    by (cases a) (auto simp: ANNOUNCEMENT_TERMINAL_def)
qed (simp add: announcement_actions_def)

subsection \<open>Directives\<close>

text \<open>xhub-api/src/directives/directives.fsm.ts, directive level\<close>

datatype directive_action =
  D_issue | D_progress | D_complete | D_cancel

fun DIRECTIVE_TRANSITIONS :: "directive_action ttable" where
  "DIRECTIVE_TRANSITIONS D_issue =
     ([''DRAFT''], ''ISSUED'')"
| "DIRECTIVE_TRANSITIONS D_progress =
     ([''ISSUED''], ''IN_PROGRESS'')"
| "DIRECTIVE_TRANSITIONS D_complete =
     ([''ISSUED'', ''IN_PROGRESS''], ''COMPLETED'')"
| "DIRECTIVE_TRANSITIONS D_cancel =
     ([''DRAFT'', ''ISSUED'', ''IN_PROGRESS''], ''CANCELLED'')"

definition directive_actions :: "directive_action list" where
  "directive_actions = [D_issue, D_progress, D_complete, D_cancel]"

definition DIRECTIVE_TERMINAL :: "string list" where
  "DIRECTIVE_TERMINAL = [''COMPLETED'', ''CANCELLED'']"

definition directiveNext :: "directive_action \<Rightarrow> string \<Rightarrow> string option" where
  "directiveNext = table_next DIRECTIVE_TRANSITIONS"

definition directiveLegalActions :: "string \<Rightarrow> directive_action list" where
  "directiveLegalActions = table_legal DIRECTIVE_TRANSITIONS directive_actions"

interpretation directive: transition_table DIRECTIVE_TRANSITIONS directive_actions DIRECTIVE_TERMINAL
proof unfold_locales
  show "set directive_actions = UNIV"
    by (auto simp: directive_actions_def) (metis directive_action.exhaust)
  show "s \<in> set DIRECTIVE_TERMINAL \<Longrightarrow> s \<notin> set (fst (DIRECTIVE_TRANSITIONS a))" for s a
    by (cases a) (auto simp: DIRECTIVE_TERMINAL_def)
qed (simp add: directive_actions_def)

subsection \<open>Commitments\<close>

text \<open>xhub-api/src/directives/directives.fsm.ts, commitment of one assignee\<close>

datatype commitment_action =
  C_acknowledge | C_start | C_submit | C_accept | C_return

fun COMMITMENT_TRANSITIONS :: "commitment_action ttable" where
  "COMMITMENT_TRANSITIONS C_acknowledge =
     ([''ASSIGNED''], ''ACKNOWLEDGED'')"
| "COMMITMENT_TRANSITIONS C_start =
     ([''ACKNOWLEDGED'', ''RETURNED''], ''IN_PROGRESS'')"
| "COMMITMENT_TRANSITIONS C_submit =
     ([''IN_PROGRESS''], ''SUBMITTED'')"
| "COMMITMENT_TRANSITIONS C_accept =
     ([''SUBMITTED''], ''ACCEPTED'')"
| "COMMITMENT_TRANSITIONS C_return =
     ([''SUBMITTED''], ''RETURNED'')"

definition commitment_actions :: "commitment_action list" where
  "commitment_actions = [C_acknowledge, C_start, C_submit, C_accept, C_return]"

definition COMMITMENT_TERMINAL :: "string list" where
  "COMMITMENT_TERMINAL = [''ACCEPTED'']"

definition commitmentNext :: "commitment_action \<Rightarrow> string \<Rightarrow> string option" where
  "commitmentNext = table_next COMMITMENT_TRANSITIONS"

definition commitmentLegalActions :: "string \<Rightarrow> commitment_action list" where
  "commitmentLegalActions = table_legal COMMITMENT_TRANSITIONS commitment_actions"

interpretation commitment: transition_table COMMITMENT_TRANSITIONS commitment_actions COMMITMENT_TERMINAL
proof unfold_locales
  show "set commitment_actions = UNIV"
    by (auto simp: commitment_actions_def) (metis commitment_action.exhaust)
  show "s \<in> set COMMITMENT_TERMINAL \<Longrightarrow> s \<notin> set (fst (COMMITMENT_TRANSITIONS a))" for s a
    by (cases a) (auto simp: COMMITMENT_TERMINAL_def)
qed (simp add: commitment_actions_def)

definition directive_isOverdue :: "int \<Rightarrow> int option \<Rightarrow> string \<Rightarrow> string list \<Rightarrow> bool" where
  "directive_isOverdue t due s final = overdue_unless final t due s"

subsection \<open>Support cases\<close>

text \<open>xhub-api/src/support-cases/support-cases.fsm.ts\<close>

datatype support_action =
  S_triage | S_start | S_wait | S_resume | S_resolve | S_close | S_cancel

fun SUPPORT_CASE_TRANSITIONS :: "support_action ttable" where
  "SUPPORT_CASE_TRANSITIONS S_triage =
     ([''NEW''], ''TRIAGED'')"
| "SUPPORT_CASE_TRANSITIONS S_start =
     ([''TRIAGED'', ''WAITING_CUSTOMER''], ''IN_PROGRESS'')"
| "SUPPORT_CASE_TRANSITIONS S_wait =
     ([''IN_PROGRESS''], ''WAITING_CUSTOMER'')"
| "SUPPORT_CASE_TRANSITIONS S_resume =
     ([''WAITING_CUSTOMER''], ''IN_PROGRESS'')"
| "SUPPORT_CASE_TRANSITIONS S_resolve =
     ([''IN_PROGRESS'', ''WAITING_CUSTOMER''], ''RESOLVED'')"
| "SUPPORT_CASE_TRANSITIONS S_close =
     ([''RESOLVED''], ''CLOSED'')"
| "SUPPORT_CASE_TRANSITIONS S_cancel =
     ([''NEW'', ''TRIAGED'', ''IN_PROGRESS'', ''WAITING_CUSTOMER''], ''CANCELLED'')"

definition support_actions :: "support_action list" where
  "support_actions = [S_triage, S_start, S_wait, S_resume, S_resolve, S_close, S_cancel]"

definition SUPPORT_CASE_TERMINAL :: "string list" where
  "SUPPORT_CASE_TERMINAL = [''CLOSED'', ''CANCELLED'']"

definition supportCaseNext :: "support_action \<Rightarrow> string \<Rightarrow> string option" where
  "supportCaseNext = table_next SUPPORT_CASE_TRANSITIONS"

definition supportCaseLegalActions :: "string \<Rightarrow> support_action list" where
  "supportCaseLegalActions = table_legal SUPPORT_CASE_TRANSITIONS support_actions"

interpretation support_case: transition_table SUPPORT_CASE_TRANSITIONS support_actions SUPPORT_CASE_TERMINAL
proof unfold_locales
  show "set support_actions = UNIV"
    by (auto simp: support_actions_def) (metis support_action.exhaust)
  show "s \<in> set SUPPORT_CASE_TERMINAL \<Longrightarrow> s \<notin> set (fst (SUPPORT_CASE_TRANSITIONS a))" for s a
    by (cases a) (auto simp: SUPPORT_CASE_TERMINAL_def)
qed (simp add: support_actions_def)

definition SUPPORT_CASE_CHANNELS :: "string list" where
  "SUPPORT_CASE_CHANNELS = [''ZALO'', ''EMAIL'', ''PHONE'', ''PORTAL'', ''OTHER'']"

definition SUPPORT_CASE_CATEGORIES :: "string list" where
  "SUPPORT_CASE_CATEGORIES = [''OPERATION_SUPPORT'', ''DATA_FIX'', ''USAGE_QUESTION'', ''BUG_REPORT'',
     ''FEATURE_REQUEST'', ''OTHER'']"

definition SUPPORT_CASE_PRIORITIES :: "string list" where
  "SUPPORT_CASE_PRIORITIES = [''LOW'', ''MEDIUM'', ''HIGH'', ''URGENT'']"

subsection \<open>Engagements\<close>

text \<open>xhub-api/src/delivery/engagements.fsm.ts: the delivery pipeline; \<open>lose\<close> leaves from any presales stage.\<close>

definition STAGE_ORDER :: "string list" where
  "STAGE_ORDER = [''LEAD'', ''QUALIFIED'', ''SURVEY'', ''SOLUTION_DESIGN'', ''PROPOSAL'', ''WON'',
     ''IMPLEMENTATION'', ''MIGRATION'', ''UAT'', ''GO_LIVE'', ''HYPERCARE'', ''CUSTOMER_SUCCESS'']"

definition PRESALES :: "string list" where
  "PRESALES = [''LEAD'', ''QUALIFIED'', ''SURVEY'', ''SOLUTION_DESIGN'', ''PROPOSAL'']"

datatype engagement_action =
  E_qualify | E_survey | E_design | E_propose | E_win | E_implement | E_migrate | E_uat | E_golive | E_hypercare | E_success | E_lose

fun ENGAGEMENT_TRANSITIONS :: "engagement_action ttable" where
  "ENGAGEMENT_TRANSITIONS E_qualify =
     ([''LEAD''], ''QUALIFIED'')"
| "ENGAGEMENT_TRANSITIONS E_survey =
     ([''QUALIFIED''], ''SURVEY'')"
| "ENGAGEMENT_TRANSITIONS E_design =
     ([''SURVEY''], ''SOLUTION_DESIGN'')"
| "ENGAGEMENT_TRANSITIONS E_propose =
     ([''SOLUTION_DESIGN''], ''PROPOSAL'')"
| "ENGAGEMENT_TRANSITIONS E_win =
     ([''PROPOSAL''], ''WON'')"
| "ENGAGEMENT_TRANSITIONS E_implement =
     ([''WON''], ''IMPLEMENTATION'')"
| "ENGAGEMENT_TRANSITIONS E_migrate =
     ([''IMPLEMENTATION''], ''MIGRATION'')"
| "ENGAGEMENT_TRANSITIONS E_uat =
     ([''MIGRATION''], ''UAT'')"
| "ENGAGEMENT_TRANSITIONS E_golive =
     ([''UAT''], ''GO_LIVE'')"
| "ENGAGEMENT_TRANSITIONS E_hypercare =
     ([''GO_LIVE''], ''HYPERCARE'')"
| "ENGAGEMENT_TRANSITIONS E_success =
     ([''HYPERCARE''], ''CUSTOMER_SUCCESS'')"
| "ENGAGEMENT_TRANSITIONS E_lose =
     (PRESALES, ''LOST'')"

definition engagement_actions :: "engagement_action list" where
  "engagement_actions = [E_qualify, E_survey, E_design, E_propose, E_win, E_implement, E_migrate, E_uat, E_golive, E_hypercare, E_success, E_lose]"

definition ENGAGEMENT_TERMINAL :: "string list" where
  "ENGAGEMENT_TERMINAL = [''LOST'', ''CUSTOMER_SUCCESS'']"

definition engagementNext :: "engagement_action \<Rightarrow> string \<Rightarrow> string option" where
  "engagementNext = table_next ENGAGEMENT_TRANSITIONS"

definition engagementLegalActions :: "string \<Rightarrow> engagement_action list" where
  "engagementLegalActions = table_legal ENGAGEMENT_TRANSITIONS engagement_actions"

interpretation engagement: transition_table ENGAGEMENT_TRANSITIONS engagement_actions ENGAGEMENT_TERMINAL
proof unfold_locales
  show "set engagement_actions = UNIV"
    by (auto simp: engagement_actions_def) (metis engagement_action.exhaust)
  show "s \<in> set ENGAGEMENT_TERMINAL \<Longrightarrow> s \<notin> set (fst (ENGAGEMENT_TRANSITIONS a))" for s a
    by (cases a) (auto simp: ENGAGEMENT_TERMINAL_def PRESALES_def)
qed (simp add: engagement_actions_def)

definition statusForStage :: "string \<Rightarrow> string" where
  "statusForStage stage =
     (if stage = ''LOST'' then ''LOST''
      else if stage \<in> {''WON'', ''IMPLEMENTATION'', ''MIGRATION'', ''UAT''} then ''WON''
      else if stage \<in> {''GO_LIVE'', ''HYPERCARE'', ''CUSTOMER_SUCCESS''} then ''LIVE''
      else ''OPEN'')"

definition isLaunchReady :: "string \<Rightarrow> bool" where
  "isLaunchReady stage = (stage \<in> {''GO_LIVE'', ''HYPERCARE'', ''CUSTOMER_SUCCESS''})"

subsection \<open>Tables from a state to its targets\<close>

text \<open>
  The other form: a record from a state to the list of states it may change to, looked up
  with \<open>TABLE[from] ?? []\<close>.
\<close>

type_synonym target_map = "string \<Rightarrow> string list"

definition target_ok :: "target_map \<Rightarrow> string \<Rightarrow> string \<Rightarrow> bool" where
  "target_ok tt from to' = (to' \<in> set (tt from))"

fun target_run :: "target_map \<Rightarrow> string \<Rightarrow> string list \<Rightarrow> bool" where
  "target_run tt s [] = True"
| "target_run tt s (t # ts) = (target_ok tt s t \<and> target_run tt t ts)"

locale target_table =
  fixes tt :: target_map and states :: "string list" and terminal :: "string list"
  assumes closed: "t \<in> set (tt s) \<Longrightarrow> t \<in> set states"
    and domain: "s \<notin> set states \<Longrightarrow> tt s = []"
    and dead: "s \<in> set terminal \<Longrightarrow> tt s = []"
begin

lemma ok_states: "target_ok tt s t \<Longrightarrow> s \<in> set states \<and> t \<in> set states"
  by (cases "s \<in> set states") (auto simp: target_ok_def closed domain)

lemma terminal_not_ok: "s \<in> set terminal \<Longrightarrow> \<not> target_ok tt s t"
  by (simp add: target_ok_def dead)

lemma run_states: "target_run tt s ts \<Longrightarrow> t \<in> set ts \<Longrightarrow> t \<in> set states"
  by (induction ts arbitrary: s) (auto dest: ok_states)

lemma run_from_terminal: "s \<in> set terminal \<Longrightarrow> target_run tt s ts \<Longrightarrow> ts = []"
  by (cases ts) (auto simp: terminal_not_ok)

end

subsection \<open>Work items\<close>

text \<open>xhub-api/src/work/work.fsm.ts. Finished items may be reopened, so no status is final in the table; \<open>WORK_TERMINAL\<close> only switches the overdue test off.\<close>

definition WORK_TRANSITIONS :: target_map where
  "WORK_TRANSITIONS s =
     (if s = ''BACKLOG'' then [''TODO'', ''IN_PROGRESS'', ''CANCELLED'']
      else if s = ''TODO'' then [''IN_PROGRESS'', ''BLOCKED'', ''BACKLOG'', ''CANCELLED'']
      else if s = ''IN_PROGRESS'' then [''REVIEW'', ''BLOCKED'', ''DONE'', ''TODO'', ''CANCELLED'']
      else if s = ''REVIEW'' then [''DONE'', ''IN_PROGRESS'', ''BLOCKED'', ''CANCELLED'']
      else if s = ''BLOCKED'' then [''IN_PROGRESS'', ''TODO'', ''CANCELLED'']
      else if s = ''DONE'' then [''IN_PROGRESS'', ''TODO'']
      else if s = ''CANCELLED'' then [''TODO'', ''BACKLOG'']
      else [])"

definition work_states :: "string list" where
  "work_states = [''BACKLOG'', ''TODO'', ''IN_PROGRESS'', ''REVIEW'', ''BLOCKED'', ''DONE'', ''CANCELLED'']"

definition work_final :: "string list" where
  "work_final = []"

interpretation work: target_table WORK_TRANSITIONS work_states work_final
  by unfold_locales
    (auto simp: WORK_TRANSITIONS_def work_states_def work_final_def split: if_splits)

definition WORK_TERMINAL :: "string list" where
  "WORK_TERMINAL = [''DONE'', ''CANCELLED'']"

definition isLegalStatusChange :: "string \<Rightarrow> string \<Rightarrow> bool" where
  "isLegalStatusChange from to' = (if from = to' then False else target_ok WORK_TRANSITIONS from to')"

definition legalStatusTargets :: "string \<Rightarrow> string list" where
  "legalStatusTargets from = WORK_TRANSITIONS from"

definition work_isOverdue :: "int \<Rightarrow> int option \<Rightarrow> string \<Rightarrow> bool" where
  "work_isOverdue = overdue_unless WORK_TERMINAL"

subsection \<open>Leave requests\<close>

text \<open>xhub-api/src/people/people.constants.ts, \<open>LEAVE_TRANSITIONS\<close>\<close>

definition LEAVE_TRANSITIONS :: target_map where
  "LEAVE_TRANSITIONS s =
     (if s = ''DRAFT'' then [''SUBMITTED'', ''CANCELLED'']
      else if s = ''SUBMITTED'' then [''IN_REVIEW'', ''APPROVED'', ''REJECTED'', ''CHANGES_REQUESTED'', ''CANCELLED'']
      else if s = ''IN_REVIEW'' then [''APPROVED'', ''REJECTED'', ''CHANGES_REQUESTED'', ''CANCELLED'']
      else if s = ''CHANGES_REQUESTED'' then [''SUBMITTED'', ''CANCELLED'']
      else if s = ''APPROVED'' then [''CANCEL_REQUESTED'']
      else if s = ''CANCEL_REQUESTED'' then [''CANCELLED'', ''APPROVED'']
      else if s = ''REJECTED'' then []
      else if s = ''CANCELLED'' then []
      else [])"

definition leave_states :: "string list" where
  "leave_states = [''DRAFT'', ''SUBMITTED'', ''IN_REVIEW'', ''CHANGES_REQUESTED'', ''APPROVED'', ''CANCEL_REQUESTED'', ''REJECTED'', ''CANCELLED'']"

definition leave_final :: "string list" where
  "leave_final = [''REJECTED'', ''CANCELLED'']"

interpretation leave: target_table LEAVE_TRANSITIONS leave_states leave_final
  by unfold_locales
    (auto simp: LEAVE_TRANSITIONS_def leave_states_def leave_final_def split: if_splits)

subsection \<open>Overtime\<close>

text \<open>xhub-api/src/people/people.constants.ts, \<open>OT_TRANSITIONS\<close>\<close>

definition OT_TRANSITIONS :: target_map where
  "OT_TRANSITIONS s =
     (if s = ''DRAFT'' then [''SUBMITTED'', ''CANCELLED'']
      else if s = ''SUBMITTED'' then [''IN_REVIEW'', ''APPROVED'', ''REJECTED'']
      else if s = ''IN_REVIEW'' then [''APPROVED'', ''REJECTED'']
      else if s = ''APPROVED'' then [''CANCELLED'']
      else if s = ''REJECTED'' then []
      else if s = ''CANCELLED'' then []
      else [])"

definition overtime_states :: "string list" where
  "overtime_states = [''DRAFT'', ''SUBMITTED'', ''IN_REVIEW'', ''APPROVED'', ''REJECTED'', ''CANCELLED'']"

definition overtime_final :: "string list" where
  "overtime_final = [''REJECTED'', ''CANCELLED'']"

interpretation overtime: target_table OT_TRANSITIONS overtime_states overtime_final
  by unfold_locales
    (auto simp: OT_TRANSITIONS_def overtime_states_def overtime_final_def split: if_splits)

subsection \<open>Attendance corrections\<close>

text \<open>xhub-api/src/people/people.constants.ts, \<open>CORRECTION_TRANSITIONS\<close>\<close>

definition CORRECTION_TRANSITIONS :: target_map where
  "CORRECTION_TRANSITIONS s =
     (if s = ''SUBMITTED'' then [''APPROVED'', ''REJECTED'']
      else if s = ''APPROVED'' then []
      else if s = ''REJECTED'' then []
      else [])"

definition correction_states :: "string list" where
  "correction_states = [''SUBMITTED'', ''APPROVED'', ''REJECTED'']"

definition correction_final :: "string list" where
  "correction_final = [''APPROVED'', ''REJECTED'']"

interpretation correction: target_table CORRECTION_TRANSITIONS correction_states correction_final
  by unfold_locales
    (auto simp: CORRECTION_TRANSITIONS_def correction_states_def correction_final_def split: if_splits)

subsection \<open>Initiatives\<close>

text \<open>xhub-api/src/manage/manage.constants.ts, \<open>INITIATIVE_GATE_ORDER\<close>\<close>

definition INITIATIVE_GATE_ORDER :: target_map where
  "INITIATIVE_GATE_ORDER s =
     (if s = ''INTAKE'' then [''DISCOVERY'', ''STOPPED'']
      else if s = ''DISCOVERY'' then [''APPROVED'', ''STOPPED'']
      else if s = ''APPROVED'' then [''FUNDED'', ''STOPPED'']
      else if s = ''FUNDED'' then [''DELIVERY'', ''STOPPED'']
      else if s = ''DELIVERY'' then [''BENEFIT_REVIEW'', ''STOPPED'']
      else if s = ''BENEFIT_REVIEW'' then [''CLOSED'', ''STOPPED'']
      else if s = ''CLOSED'' then []
      else if s = ''STOPPED'' then []
      else [])"

definition initiative_states :: "string list" where
  "initiative_states = [''INTAKE'', ''DISCOVERY'', ''APPROVED'', ''FUNDED'', ''DELIVERY'', ''BENEFIT_REVIEW'', ''CLOSED'', ''STOPPED'']"

definition initiative_final :: "string list" where
  "initiative_final = [''CLOSED'', ''STOPPED'']"

interpretation initiative: target_table INITIATIVE_GATE_ORDER initiative_states initiative_final
  by unfold_locales
    (auto simp: INITIATIVE_GATE_ORDER_def initiative_states_def initiative_final_def split: if_splits)

end
