(* ===== verification/Json.thy ===== *)
theory Json
  imports XHub_Prelude
begin

section \<open>JavaScript values\<close>

text \<open>
  The JSON columns of the database (workflow definitions, instance variables, payloads) and
  the coercions of the language that the sources apply to them. A number is a rational: the
  model has no rounding, so it agrees with binary64 on the numbers that binary64 represents; \<open>JInf\<close> is an infinity (of the given
  sign), NaN is not a value a JSON column can hold.
  Objects are association lists with the keys in source order; property access sees own
  properties only (no prototype).
\<close>

datatype json =
    JUndef
  | JNull
  | JBool bool
  | JNum rat
  | JInf bool
  | JStr string
  | JArr "json list"
  | JObj "(string \<times> json) list"

lemma size_map_of: "map_of kvs k = Some v \<Longrightarrow> size v < size (JObj kvs)"
proof -
  assume "map_of kvs k = Some v"
  then have "(k, v) \<in> set kvs" by (rule map_of_SomeD)
  then have "size v \<le> size_list (size_prod (\<lambda>_. 0) size) kvs"
    by (induction kvs) auto
  then show ?thesis by simp
qed

lemma size_JArr_elem: "x \<in> set xs \<Longrightarrow> size x < size (JArr xs)"
  by (induction xs) auto

subsection \<open>Null tests, truthiness, property access\<close>

definition nullish :: "json \<Rightarrow> bool" where
  "nullish v = (v = JUndef \<or> v = JNull)"

fun truthy :: "json \<Rightarrow> bool" where
  "truthy JUndef = False"
| "truthy JNull = False"
| "truthy (JBool b) = b"
| "truthy (JNum n) = (n \<noteq> 0)"
| "truthy (JInf _) = True"
| "truthy (JStr s) = (s \<noteq> [])"
| "truthy (JArr _) = True"
| "truthy (JObj _) = True"

text \<open>\<open>xs[k]\<close> for a property name \<open>k\<close>: only the canonical decimal form of an index counts.\<close>

definition index_prop :: "'a list \<Rightarrow> string \<Rightarrow> 'a option" where
  "index_prop xs k = map_option snd (find (\<lambda>(i, _). show_nat i = k) (enumerate 0 xs))"

fun get_prop :: "json \<Rightarrow> string \<Rightarrow> json" where
  "get_prop (JObj kvs) k = (case map_of kvs k of None \<Rightarrow> JUndef | Some v \<Rightarrow> v)"
| "get_prop (JArr xs) k =
     (if k = ''length'' then JNum (of_nat (length xs))
      else (case index_prop xs k of None \<Rightarrow> JUndef | Some v \<Rightarrow> v))"
| "get_prop (JStr s) k =
     (if k = ''length'' then JNum (of_nat (length s))
      else (case index_prop s k of None \<Rightarrow> JUndef | Some c \<Rightarrow> JStr [c]))"
| "get_prop v k = JUndef"

text \<open>\<open>acc == null ? undefined : acc[k]\<close> over the parts of a dotted path.\<close>

fun walk_path :: "json \<Rightarrow> string list \<Rightarrow> json" where
  "walk_path v [] = v"
| "walk_path v (k # ks) = walk_path (if nullish v then JUndef else get_prop v k) ks"

lemma walk_path_undef [simp]: "walk_path JUndef ks = JUndef"
  by (induction ks) (auto simp: nullish_def)

text \<open>Objects with the keys a builder sets; \<open>None\<close> is a key left out.\<close>

definition jopt :: "string option \<Rightarrow> json" where
  "jopt s = (case s of None \<Rightarrow> JNull | Some t \<Rightarrow> JStr t)"

definition jstrs :: "string list \<Rightarrow> json" where
  "jstrs xs = JArr (map JStr xs)"

subsection \<open>Conversion to a string\<close>

fun frac_digits :: "nat \<Rightarrow> rat \<Rightarrow> string" where
  "frac_digits 0 r = []"
| "frac_digits (Suc n) r =
     (if r = 0 then []
      else digit36 (nat \<lfloor>r * 10\<rfloor>) # frac_digits n (r * 10 - of_int \<lfloor>r * 10\<rfloor>))"

text \<open>
  A number prints as its decimal expansion. Seventeen fractional digits are enough for every
  binary64 value of magnitude at least 1; beyond \<open>10^21\<close> and below \<open>10^-6\<close> JavaScript switches
  to the exponent form, which the model does not print.
\<close>

definition num_to_string :: "rat \<Rightarrow> string" where
  "num_to_string r =
     (let a = \<bar>r\<bar>; n = \<lfloor>a\<rfloor>; f = a - of_int n
      in (if r < 0 then ''-'' else []) @ show_nat (nat n) @
         (if f = 0 then [] else ''.'' @ frac_digits 17 f))"

fun to_str :: "json \<Rightarrow> string" where
  "to_str JUndef = ''undefined''"
| "to_str JNull = ''null''"
| "to_str (JBool b) = (if b then ''true'' else ''false'')"
| "to_str (JNum n) = num_to_string n"
| "to_str (JInf b) = (if b then ''Infinity'' else ''-Infinity'')"
| "to_str (JStr s) = s"
| "to_str (JArr xs) = join_str '','' (map (\<lambda>x. if nullish x then [] else to_str x) xs)"
| "to_str (JObj _) = ''[object Object]''"

subsection \<open>Conversion to a number\<close>

datatype num_val = NaN | NegInf | Fin rat | PosInf

definition digit_val :: "nat \<Rightarrow> char \<Rightarrow> nat option" where
  "digit_val b c =
     (let n = of_char c :: nat;
          d = (if 48 \<le> n \<and> n \<le> 57 then n - 48
               else if 65 \<le> n \<and> n \<le> 90 then n - 55
               else if 97 \<le> n \<and> n \<le> 122 then n - 87 else 99)
      in if d < b then Some d else None)"

fun digits_val :: "nat \<Rightarrow> nat \<Rightarrow> string \<Rightarrow> nat option" where
  "digits_val b acc [] = Some acc"
| "digits_val b acc (c # cs) =
     (case digit_val b c of None \<Rightarrow> None | Some d \<Rightarrow> digits_val b (acc * b + d) cs)"

text \<open>\<open>digits\<close>, \<open>digits.\<close>, \<open>digits.digits\<close> and \<open>.digits\<close>\<close>

definition parse_mantissa :: "string \<Rightarrow> rat option" where
  "parse_mantissa m =
     (case split_on CHR ''.'' m of
        [i] \<Rightarrow> if i = [] then None else map_option of_nat (digits_val 10 0 i)
      | [i, f] \<Rightarrow>
          if i = [] \<and> f = [] then None
          else (case digits_val 10 0 (i @ f) of
                  None \<Rightarrow> None
                | Some n \<Rightarrow> Some (of_nat n / 10 ^ length f))
      | _ \<Rightarrow> None)"

definition parse_exponent :: "string \<Rightarrow> int option" where
  "parse_exponent e =
     (case e of
        [] \<Rightarrow> None
      | c # cs \<Rightarrow>
          if c = CHR ''-'' then (if cs = [] then None else map_option (\<lambda>n. - int n) (digits_val 10 0 cs))
          else if c = CHR ''+'' then (if cs = [] then None else map_option int (digits_val 10 0 cs))
          else map_option int (digits_val 10 0 e))"

definition scale10 :: "rat \<Rightarrow> int \<Rightarrow> rat" where
  "scale10 m e = (if 0 \<le> e then m * 10 ^ nat e else m / 10 ^ nat (- e))"

definition parse_unsigned :: "string \<Rightarrow> num_val" where
  "parse_unsigned t =
     (if t = ''Infinity'' then PosInf
      else case split_on CHR ''e'' (map (\<lambda>c. if c = CHR ''E'' then CHR ''e'' else c) t) of
        [m] \<Rightarrow> (case parse_mantissa m of None \<Rightarrow> NaN | Some r \<Rightarrow> Fin r)
      | [m, e] \<Rightarrow>
          (case (parse_mantissa m, parse_exponent e) of
             (Some r, Some x) \<Rightarrow> Fin (scale10 r x)
           | _ \<Rightarrow> NaN)
      | _ \<Rightarrow> NaN)"

definition parse_radix :: "nat \<Rightarrow> string \<Rightarrow> num_val" where
  "parse_radix b t =
     (if t = [] then NaN
      else case digits_val b 0 t of None \<Rightarrow> NaN | Some n \<Rightarrow> Fin (of_nat n))"

fun neg_val :: "num_val \<Rightarrow> num_val" where
  "neg_val NaN = NaN"
| "neg_val NegInf = PosInf"
| "neg_val PosInf = NegInf"
| "neg_val (Fin r) = Fin (- r)"

definition str_to_num :: "string \<Rightarrow> num_val" where
  "str_to_num s =
     (let t = trim s; p = to_lower (take 2 t) in
      if t = [] then Fin 0
      else if p = ''0x'' then parse_radix 16 (drop 2 t)
      else if p = ''0o'' then parse_radix 8 (drop 2 t)
      else if p = ''0b'' then parse_radix 2 (drop 2 t)
      else if take 1 t = ''-'' then neg_val (parse_unsigned (drop 1 t))
      else if take 1 t = ''+'' then parse_unsigned (drop 1 t)
      else parse_unsigned t)"

text \<open>\<open>Number(v)\<close>: arrays and objects go through their string form.\<close>

fun to_num :: "json \<Rightarrow> num_val" where
  "to_num JUndef = NaN"
| "to_num JNull = Fin 0"
| "to_num (JBool b) = Fin (if b then 1 else 0)"
| "to_num (JNum n) = Fin n"
| "to_num (JInf b) = (if b then PosInf else NegInf)"
| "to_num (JStr s) = str_to_num s"
| "to_num (JArr xs) = str_to_num (to_str (JArr xs))"
| "to_num (JObj kvs) = NaN"

subsection \<open>Relational comparison\<close>

fun num_less :: "num_val \<Rightarrow> num_val \<Rightarrow> bool option" where
  "num_less NaN _ = None"
| "num_less _ NaN = None"
| "num_less PosInf _ = Some False"
| "num_less _ NegInf = Some False"
| "num_less NegInf _ = Some True"
| "num_less _ PosInf = Some True"
| "num_less (Fin a) (Fin b) = Some (a < b)"

fun str_less :: "string \<Rightarrow> string \<Rightarrow> bool" where
  "str_less _ [] = False"
| "str_less [] (_ # _) = True"
| "str_less (a # as) (b # bs) =
     ((of_char a :: nat) < of_char b \<or> (a = b \<and> str_less as bs))"

fun to_prim :: "json \<Rightarrow> json" where
  "to_prim (JArr xs) = JStr (to_str (JArr xs))"
| "to_prim (JObj kvs) = JStr (to_str (JObj kvs))"
| "to_prim v = v"

text \<open>The abstract operation IsLessThan: \<open>None\<close> is \<open>undefined\<close> (a NaN operand).\<close>

definition js_less :: "json \<Rightarrow> json \<Rightarrow> bool option" where
  "js_less a b =
     (case (to_prim a, to_prim b) of
        (JStr s, JStr t) \<Rightarrow> Some (str_less s t)
      | (x, y) \<Rightarrow> num_less (to_num x) (to_num y))"

definition js_lt :: "json \<Rightarrow> json \<Rightarrow> bool" where "js_lt a b = (js_less a b = Some True)"
definition js_gt :: "json \<Rightarrow> json \<Rightarrow> bool" where "js_gt a b = (js_less b a = Some True)"
definition js_ge :: "json \<Rightarrow> json \<Rightarrow> bool" where "js_ge a b = (js_less a b = Some False)"
definition js_le :: "json \<Rightarrow> json \<Rightarrow> bool" where "js_le a b = (js_less b a = Some False)"

lemma js_less_num [simp]: "js_less (JNum a) (JNum b) = Some (a < b)"
  by (simp add: js_less_def)

lemma js_cmp_exclusive: "\<not> (js_lt a b \<and> js_ge a b)" "\<not> (js_gt a b \<and> js_le a b)"
  by (auto simp: js_lt_def js_gt_def js_ge_def js_le_def)

subsection \<open>Building objects\<close>

text \<open>\<open>obj[k] = v\<close>: an existing key keeps its place, a new one goes last.\<close>

fun obj_set :: "(string \<times> json) list \<Rightarrow> string \<Rightarrow> json \<Rightarrow> (string \<times> json) list" where
  "obj_set [] k v = [(k, v)]"
| "obj_set ((a, b) # r) k v = (if a = k then (k, v) # r else (a, b) # obj_set r k v)"

lemma map_of_obj_set: "map_of (obj_set kvs k v) = (map_of kvs)(k \<mapsto> v)"
  by (induction kvs k v rule: obj_set.induct) (auto simp: fun_eq_iff)

text \<open>A string field of a JSON configuration; anything else counts as absent.\<close>

definition str_field :: "json \<Rightarrow> string \<Rightarrow> string option" where
  "str_field c k = (case get_prop c k of JStr s \<Rightarrow> Some s | _ \<Rightarrow> None)"

text \<open>\<open>encodeURIComponent\<close> on UTF-8 bytes.\<close>

definition uri_plain :: "char \<Rightarrow> bool" where
  "uri_plain c =
     (let n = of_char c :: nat in
      (48 \<le> n \<and> n \<le> 57) \<or> (65 \<le> n \<and> n \<le> 90) \<or> (97 \<le> n \<and> n \<le> 122) \<or>
      c \<in> set ''-_.!~*()'' \<or> n = 39)"

definition encodeURIComponent :: "string \<Rightarrow> string" where
  "encodeURIComponent s =
     concat (map (\<lambda>c. if uri_plain c then [c]
       else let n = of_char c :: nat in [CHR ''%'', digit36 (n div 16), digit36 (n mod 16)]) s)"

text \<open>\<open>a ?? b\<close> on JSON values.\<close>

definition jcoalesce :: "json \<Rightarrow> json \<Rightarrow> json" where
  "jcoalesce a b = (if nullish a then b else a)"

end
