(* ===== verification/Condition_Ast.thy ===== *)
theory Condition_Ast
  imports Json
begin

section \<open>The condition evaluator\<close>

text \<open>
  xhub-api/src/xoffice/condition-ast.ts: the expression engine that selects the branch of a
  \<open>condition\<close> node. Conditions are plain JSON trees. An evaluation that throws (a \<open>{var}\<close> whose
  path is not a string) is \<open>None\<close>.

  \<open>===\<close> compares arrays and objects by reference. A resolved operand therefore remembers where
  in the context it was found: \<open>RV v (Some path)\<close> is the context's own value at that path,
  \<open>RV v None\<close> a value of the condition itself and \<open>RArr\<close> the fresh array made from an array
  literal.
\<close>

datatype rv = RV json "string list option" | RArr "rv list"

fun rv_json :: "rv \<Rightarrow> json" where
  "rv_json (RV v _) = v"
| "rv_json (RArr rs) = JArr (map rv_json rs)"

fun strict_eq :: "rv \<Rightarrow> rv \<Rightarrow> bool" where
  "strict_eq (RV (JArr xs) p) (RV (JArr ys) q) = (p = q \<and> p \<noteq> None)"
| "strict_eq (RV (JObj xs) p) (RV (JObj ys) q) = (p = q \<and> p \<noteq> None)"
| "strict_eq (RV v _) (RV w _) = (v = w)"
| "strict_eq _ _ = False"

text \<open>The elements of an array operand, with their identities.\<close>

fun rv_elems :: "rv \<Rightarrow> rv list option" where
  "rv_elems (RArr rs) = Some rs"
| "rv_elems (RV (JArr xs) p) =
     Some (map (\<lambda>(i, x). RV x (map_option (\<lambda>q. q @ [show_nat i]) p)) (enumerate 0 xs))"
| "rv_elems _ = None"

subsection \<open>Variables and expressions\<close>

text \<open>\<open>resolveVar\<close> for a string path.\<close>

definition resolveVar :: "string \<Rightarrow> json \<Rightarrow> rv" where
  "resolveVar path ctx =
     (if path = [] then RV JUndef None
      else RV (walk_path ctx (split_on CHR ''.'' path)) (Some (split_on CHR ''.'' path)))"

text \<open>\<open>isVarRef\<close>: the value of the key \<open>var\<close> of an object that has one.\<close>

fun var_of :: "json \<Rightarrow> json option" where
  "var_of (JObj kvs) = map_of kvs ''var''"
| "var_of _ = None"

text \<open>\<open>isExpr\<close>: an object whose \<open>operator\<close> is a string; operands that are not an array count as
  none.\<close>

fun expr_of :: "json \<Rightarrow> (string \<times> json list) option" where
  "expr_of (JObj kvs) =
     (case map_of kvs ''operator'' of
        Some (JStr op) \<Rightarrow>
          Some (op, case map_of kvs ''operands'' of Some (JArr xs) \<Rightarrow> xs | _ \<Rightarrow> [])
      | _ \<Rightarrow> None)"
| "expr_of _ = None"

text \<open>\<open>ops[0]\<close> and \<open>ops[1]\<close>.\<close>

definition op0 :: "json list \<Rightarrow> json" where
  "op0 ops = (case ops of a # _ \<Rightarrow> a | [] \<Rightarrow> JUndef)"

definition op1 :: "json list \<Rightarrow> json" where
  "op1 ops = (case ops of _ # b # _ \<Rightarrow> b | _ \<Rightarrow> JUndef)"

text \<open>The \<open>{var}\<close> case of \<open>operandValue\<close>: a falsy path is \<open>undefined\<close>, a truthy path that is not
  a string has no \<open>split\<close> and throws.\<close>

fun resolve_ref :: "json \<Rightarrow> json \<Rightarrow> rv option" where
  "resolve_ref (JStr p) ctx = Some (resolveVar p ctx)"
| "resolve_ref v ctx = (if truthy v then None else Some (RV JUndef None))"

subsection \<open>Short-circuit traversals\<close>

fun every_opt :: "('a \<Rightarrow> bool option) \<Rightarrow> 'a list \<Rightarrow> bool option" where
  "every_opt f [] = Some True"
| "every_opt f (x # xs) =
     (case f x of None \<Rightarrow> None | Some b \<Rightarrow> if b then every_opt f xs else Some False)"

fun some_opt :: "('a \<Rightarrow> bool option) \<Rightarrow> 'a list \<Rightarrow> bool option" where
  "some_opt f [] = Some False"
| "some_opt f (x # xs) =
     (case f x of None \<Rightarrow> None | Some b \<Rightarrow> if b then Some True else some_opt f xs)"

fun map_opt :: "('a \<Rightarrow> 'b option) \<Rightarrow> 'a list \<Rightarrow> 'b list option" where
  "map_opt f [] = Some []"
| "map_opt f (x # xs) =
     (case f x of None \<Rightarrow> None
      | Some y \<Rightarrow> (case map_opt f xs of None \<Rightarrow> None | Some ys \<Rightarrow> Some (y # ys)))"

lemma every_opt_cong [fundef_cong]:
  "xs = ys \<Longrightarrow> (\<And>x. x \<in> set ys \<Longrightarrow> f x = g x) \<Longrightarrow> every_opt f xs = every_opt g ys"
  by (induction ys arbitrary: xs) (auto split: option.splits)

lemma some_opt_cong [fundef_cong]:
  "xs = ys \<Longrightarrow> (\<And>x. x \<in> set ys \<Longrightarrow> f x = g x) \<Longrightarrow> some_opt f xs = some_opt g ys"
  by (induction ys arbitrary: xs) (auto split: option.splits)

lemma map_opt_cong [fundef_cong]:
  "xs = ys \<Longrightarrow> (\<And>x. x \<in> set ys \<Longrightarrow> f x = g x) \<Longrightarrow> map_opt f xs = map_opt g ys"
  by (induction ys arbitrary: xs) (auto split: option.splits)

lemma opt_total:
  assumes "\<And>x. x \<in> set xs \<Longrightarrow> f x \<noteq> None"
  shows "every_opt f xs \<noteq> None" "some_opt f xs \<noteq> None"
  using assms by (induction xs) (auto split: option.splits)

lemma map_opt_total:
  assumes "\<And>x. x \<in> set xs \<Longrightarrow> f x \<noteq> None"
  shows "map_opt f xs \<noteq> None"
  using assms by (induction xs) (auto split: option.splits)

lemma every_opt_total_eq:
  "(\<And>x. x \<in> set xs \<Longrightarrow> f x = Some (g x)) \<Longrightarrow> every_opt f xs = Some (list_all g xs)"
  by (induction xs) auto

lemma some_opt_total_eq:
  "(\<And>x. x \<in> set xs \<Longrightarrow> f x = Some (g x)) \<Longrightarrow> some_opt f xs = Some (list_ex g xs)"
  by (induction xs) auto

subsection \<open>Binary operators on resolved operands\<close>

text \<open>\<open>in\<close> and \<open>contains\<close> test \<open>needle\<close> against an array by \<open>===\<close> and against a string by
  substring.\<close>

definition found_in :: "rv \<Rightarrow> rv \<Rightarrow> bool" where
  "found_in needle hay =
     (case rv_elems hay of
        Some rs \<Rightarrow> list_ex (\<lambda>h. strict_eq h needle) rs
      | None \<Rightarrow> (case rv_json hay of
                   JStr s \<Rightarrow> includes_str (to_str (rv_json needle)) s
                 | _ \<Rightarrow> False))"

definition compare_op :: "string \<Rightarrow> rv \<Rightarrow> rv \<Rightarrow> bool" where
  "compare_op op a b =
     (let x = rv_json a; y = rv_json b in
      if op = ''eq'' then strict_eq a b
      else if op = ''neq'' \<or> op = ''ne'' then \<not> strict_eq a b
      else if op = ''gt'' then js_gt x y
      else if op = ''gte'' then js_ge x y
      else if op = ''lt'' then js_lt x y
      else if op = ''lte'' then js_le x y
      else False)"

definition binary_op :: "string \<Rightarrow> rv \<Rightarrow> rv \<Rightarrow> bool" where
  "binary_op op a b =
     (if op = ''in'' then found_in a b
      else if op = ''notIn'' then \<not> found_in a b
      else if op = ''contains'' then found_in b a
      else compare_op op a b)"

lemma expr_of_size:
  assumes "expr_of v = Some (op, ops)" "x \<in> set ops"
  shows "size x < size v"
proof -
  from assms obtain kvs xs where v: "v = JObj kvs" "map_of kvs ''operands'' = Some (JArr xs)" "ops = xs"
    by (cases v) (auto split: option.splits json.splits)
  then have "size (JArr xs) < size v" using size_map_of by blast
  moreover have "size x < size (JArr xs)" using v assms(2) size_JArr_elem by blast
  ultimately show ?thesis by linarith
qed

lemma op0_size: "expr_of v = Some (op, ops) \<Longrightarrow> size (op0 ops) < size v \<or> op0 ops = JUndef"
  by (cases ops) (auto simp: op0_def dest: expr_of_size)

lemma op1_size: "expr_of v = Some (op, ops) \<Longrightarrow> size (op1 ops) < size v \<or> op1 ops = JUndef"
  by (auto simp: op1_def dest: expr_of_size split: list.splits)

lemma expr_of_JUndef [simp]: "expr_of JUndef = None"
  by simp

lemma expr_of_size_pos: "expr_of v = Some e \<Longrightarrow> size JUndef < size v"
  by (cases v) (auto split: option.splits)

lemma operand_sizes:
  assumes "expr_of v = Some (op, ops)"
  shows "size (op0 ops) < size v" "size (op1 ops) < size v"
  using op0_size [OF assms] op1_size [OF assms] expr_of_size_pos [OF assms] by auto

subsection \<open>The evaluator\<close>

text \<open>
  \<open>evaluateCondition\<close> and \<open>operandValue\<close> of the source, mutually recursive as there: a node that
  is not an expression is evaluated as an operand, an operand that is an expression as a
  condition. The measure counts a node three times, so that these changes of function on the
  same node decrease as well.
\<close>

definition cond_measure :: "json \<Rightarrow> nat" where
  "cond_measure v = (if expr_of v = None then 3 * size v + 2 else 3 * size v)"

lemma cond_measure_le: "cond_measure v \<le> 3 * size v + 2"
  by (simp add: cond_measure_def)

lemma cond_measure_sub:
  assumes "expr_of v = Some (op, ops)"
  shows "x \<in> set ops \<Longrightarrow> cond_measure x < cond_measure v"
    and "cond_measure (op0 ops) < cond_measure v"
    and "Suc (3 * size (op0 ops)) < cond_measure v"
    and "Suc (3 * size (op1 ops)) < cond_measure v"
proof -
  have v: "cond_measure v = 3 * size v" using assms by (simp add: cond_measure_def)
  show "x \<in> set ops \<Longrightarrow> cond_measure x < cond_measure v"
    using expr_of_size [OF assms, of x] cond_measure_le [of x] v by linarith
  show "cond_measure (op0 ops) < cond_measure v"
    using operand_sizes [OF assms] cond_measure_le [of "op0 ops"] v by linarith
  show "Suc (3 * size (op0 ops)) < cond_measure v" "Suc (3 * size (op1 ops)) < cond_measure v"
    using operand_sizes [OF assms] v by linarith+
qed

function evaluateCondition :: "json \<Rightarrow> json \<Rightarrow> bool option"
  and operandValue :: "json \<Rightarrow> json \<Rightarrow> rv option"
where
  "evaluateCondition ast ctx =
     (case expr_of ast of
        None \<Rightarrow> map_option (\<lambda>r. truthy (rv_json r)) (operandValue ast ctx)
      | Some (operator, ops) \<Rightarrow>
          if operator = ''and'' then every_opt (\<lambda>e. evaluateCondition e ctx) ops
          else if operator = ''or'' then some_opt (\<lambda>e. evaluateCondition e ctx) ops
          else if operator = ''not'' then map_option Not (evaluateCondition (op0 ops) ctx)
          else if operator = ''exists'' then
            map_option (\<lambda>r. \<not> nullish (rv_json r)) (operandValue (op0 ops) ctx)
          else
            (case operandValue (op0 ops) ctx of
               None \<Rightarrow> None
             | Some a \<Rightarrow>
                 (case operandValue (op1 ops) ctx of
                    None \<Rightarrow> None
                  | Some b \<Rightarrow> Some (binary_op operator a b))))"
| "operandValue node ctx =
     (case var_of node of
        Some v \<Rightarrow> resolve_ref v ctx
      | None \<Rightarrow>
          (if expr_of node \<noteq> None then
             map_option (\<lambda>b. RV (JBool b) None) (evaluateCondition node ctx)
           else
             (case node of
                JArr xs \<Rightarrow> map_option RArr (map_opt (\<lambda>e. operandValue e ctx) xs)
              | _ \<Rightarrow> Some (RV node None))))"
  by pat_completeness auto
termination
proof (relation "measure (\<lambda>s. case s of Inl (v, _) \<Rightarrow> cond_measure v | Inr (v, _) \<Rightarrow> 3 * size v + 1)",
    goal_cases)
  case (2 ast ctx)
  then show ?case by (simp add: cond_measure_def)
next
  case (9 node ctx)
  then show ?case by (auto simp: cond_measure_def)
next
  case (10 node ctx xs x)
  then show ?case using size_JArr_elem by fastforce
qed (auto simp: cond_measure_sub)

text \<open>One induction rule for both: \<open>P\<close> for a node as a condition, \<open>Q\<close> as an operand.\<close>

lemma cond_induct [case_names plain expr ref nested arr lit]:
  assumes plain: "\<And>v. expr_of v = None \<Longrightarrow> Q v \<Longrightarrow> P v"
    and expr: "\<And>v op ops. expr_of v = Some (op, ops) \<Longrightarrow> (\<And>x. x \<in> set ops \<Longrightarrow> P x) \<Longrightarrow>
      P (op0 ops) \<Longrightarrow> Q (op0 ops) \<Longrightarrow> Q (op1 ops) \<Longrightarrow> P v"
    and ref: "\<And>v r. var_of v = Some r \<Longrightarrow> Q v"
    and nested: "\<And>v. var_of v = None \<Longrightarrow> expr_of v \<noteq> None \<Longrightarrow> P v \<Longrightarrow> Q v"
    and arr: "\<And>xs. (\<And>x. x \<in> set xs \<Longrightarrow> Q x) \<Longrightarrow> Q (JArr xs)"
    and lit: "\<And>v. var_of v = None \<Longrightarrow> expr_of v = None \<Longrightarrow> \<not> (\<exists>xs. v = JArr xs) \<Longrightarrow> Q v"
  shows "P v" and "Q v"
proof -
  have "P v \<and> Q v"
  proof (induction "size v" arbitrary: v rule: less_induct)
    case less
    have P: "P v" if "expr_of v \<noteq> None"
    proof -
      from that obtain op ops where e: "expr_of v = Some (op, ops)" by auto
      show ?thesis
        by (rule expr [OF e]) (use less operand_sizes [OF e] expr_of_size [OF e] in auto)
    qed
    have Q: "Q v"
    proof (cases "var_of v = None \<and> expr_of v = None")
      case True
      then show ?thesis using arr lit less size_JArr_elem by metis
    next
      case False
      then show ?thesis using P ref nested by (cases "var_of v") simp_all
    qed
    with P plain show ?case by blast
  qed
  then show "P v" "Q v" by auto
qed

declare evaluateCondition.simps [simp del] operandValue.simps [simp del]

text \<open>The two functions on literals, references and expressions.\<close>

lemma operand_literal:
  "var_of v = None \<Longrightarrow> expr_of v = None \<Longrightarrow> \<not> (\<exists>xs. v = JArr xs) \<Longrightarrow> operandValue v ctx = Some (RV v None)"
  by (cases v) (simp_all add: operandValue.simps)

lemma operand_nested:
  "var_of v = None \<Longrightarrow> expr_of v \<noteq> None \<Longrightarrow>
    operandValue v ctx = map_option (\<lambda>b. RV (JBool b) None) (evaluateCondition v ctx)"
  by (simp add: operandValue.simps)

lemma operand_var: "var_of v = Some r \<Longrightarrow> operandValue v ctx = resolve_ref r ctx"
  by (simp add: operandValue.simps)

lemma operand_array: "operandValue (JArr xs) ctx = map_option RArr (map_opt (\<lambda>e. operandValue e ctx) xs)"
  by (simp add: operandValue.simps)

lemma evaluate_plain:
  "expr_of v = None \<Longrightarrow> evaluateCondition v ctx = map_option (\<lambda>r. truthy (rv_json r)) (operandValue v ctx)"
  by (subst evaluateCondition.simps) simp

lemma evaluate_binary:
  assumes "expr_of v = Some (op, ops)" "op \<notin> {''and'', ''or'', ''not'', ''exists''}"
  shows "evaluateCondition v ctx =
    (case operandValue (op0 ops) ctx of None \<Rightarrow> None
     | Some a \<Rightarrow> (case operandValue (op1 ops) ctx of None \<Rightarrow> None
                  | Some b \<Rightarrow> Some (binary_op op a b)))"
  using assms by (subst evaluateCondition.simps) simp

definition mk_expr :: "string \<Rightarrow> json list \<Rightarrow> json" where
  "mk_expr op ops = JObj [(''operator'', JStr op), (''operands'', JArr ops)]"

definition mk_var :: "string \<Rightarrow> json" where
  "mk_var p = JObj [(''var'', JStr p)]"

lemma mk_expr_simps [simp]:
  "expr_of (mk_expr op ops) = Some (op, ops)" "var_of (mk_expr op ops) = None"
  by (simp_all add: mk_expr_def)

lemma mk_var_simps [simp]:
  "expr_of (mk_var p) = None" "var_of (mk_var p) = Some (JStr p)"
  by (simp_all add: mk_var_def)

subsection \<open>Which conditions cannot throw\<close>

text \<open>
  Every \<open>{var}\<close> that is reached has a string path. This is the shape the type
  \<open>ConditionAst\<close> declares; the JSON column does not enforce it.
\<close>

function well_typed :: "json \<Rightarrow> bool" where
  "well_typed v =
     (case var_of v of
        Some r \<Rightarrow> (\<exists>p. r = JStr p) \<and> expr_of v = None
      | None \<Rightarrow>
          (case expr_of v of
             Some (_, ops) \<Rightarrow> list_all well_typed ops
           | None \<Rightarrow> (case v of JArr xs \<Rightarrow> list_all well_typed xs | _ \<Rightarrow> True)))"
  by pat_completeness auto
termination
  by (relation "measure size") (auto dest: expr_of_size size_JArr_elem)

declare well_typed.simps [simp del]

lemma well_typed_JUndef [simp]: "well_typed JUndef"
  by (subst well_typed.simps) simp

lemma well_typed_operands:
  assumes "well_typed v" "expr_of v = Some (op, ops)"
  shows "x \<in> set ops \<Longrightarrow> well_typed x" "well_typed (op0 ops)" "well_typed (op1 ops)"
proof -
  from assms have all: "list_all well_typed ops"
    by (subst (asm) well_typed.simps) (auto split: option.splits)
  then show "x \<in> set ops \<Longrightarrow> well_typed x" by (auto simp: list_all_iff)
  from all show "well_typed (op0 ops)" "well_typed (op1 ops)"
    by (auto simp: op0_def op1_def list_all_iff split: list.splits)
qed

lemma well_typed_elems: "well_typed (JArr xs) \<Longrightarrow> x \<in> set xs \<Longrightarrow> well_typed x"
  by (subst (asm) well_typed.simps) (auto simp: list_all_iff)

lemma well_typed_var: "well_typed v \<Longrightarrow> var_of v = Some r \<Longrightarrow> \<exists>p. r = JStr p"
  by (subst (asm) well_typed.simps) auto

lemma evaluate_expr:
  assumes "expr_of v = Some (op, ops)"
  shows "evaluateCondition v ctx =
    (if op = ''and'' then every_opt (\<lambda>e. evaluateCondition e ctx) ops
     else if op = ''or'' then some_opt (\<lambda>e. evaluateCondition e ctx) ops
     else if op = ''not'' then map_option Not (evaluateCondition (op0 ops) ctx)
     else if op = ''exists'' then map_option (\<lambda>r. \<not> nullish (rv_json r)) (operandValue (op0 ops) ctx)
     else (case operandValue (op0 ops) ctx of None \<Rightarrow> None
           | Some a \<Rightarrow> (case operandValue (op1 ops) ctx of None \<Rightarrow> None
                        | Some b \<Rightarrow> Some (binary_op op a b))))"
  using assms by (subst evaluateCondition.simps) simp

lemma evaluate_total:
  shows evaluateCondition_total: "well_typed v \<longrightarrow> evaluateCondition v ctx \<noteq> None"
    and operandValue_total: "well_typed v \<longrightarrow> operandValue v ctx \<noteq> None"
proof (induction v rule: cond_induct)
  case (plain v)
  then show ?case by (simp add: evaluate_plain)
next
  case (expr v op ops)
  show ?case
  proof
    assume wt: "well_typed v"
    note sub = well_typed_operands [OF wt expr(1)]
    have all: "\<And>x. x \<in> set ops \<Longrightarrow> evaluateCondition x ctx \<noteq> None"
      using expr(2) sub(1) by blast
    show "evaluateCondition v ctx \<noteq> None"
      using expr(3-5) sub(2,3) opt_total [where f = "\<lambda>e. evaluateCondition e ctx", OF all]
      by (auto simp: evaluate_expr [OF expr(1)])
  qed
next
  case (ref v r)
  then show ?case by (auto simp: operand_var dest: well_typed_var)
next
  case (nested v)
  then show ?case by (simp add: operand_nested)
next
  case (arr xs)
  then show ?case using map_opt_total [of xs "\<lambda>e. operandValue e ctx"] well_typed_elems
    by (auto simp: operand_array)
next
  case (lit v)
  then show ?case by (simp add: operand_literal)
qed

subsection \<open>What a condition reads\<close>

text \<open>The paths of the string references below a node.\<close>

function refs :: "json \<Rightarrow> string set" where
  "refs v =
     (case var_of v of Some (JStr p) \<Rightarrow> {p} | _ \<Rightarrow> {}) \<union>
     (case expr_of v of
        Some (_, ops) \<Rightarrow> \<Union> (refs ` set ops)
      | None \<Rightarrow> (case v of JArr xs \<Rightarrow> \<Union> (refs ` set xs) | _ \<Rightarrow> {}))"
  by pat_completeness auto
termination
  by (relation "measure size") (auto dest: expr_of_size size_JArr_elem)

declare refs.simps [simp del]

lemma refs_JUndef [simp]: "refs JUndef = {}"
  by (subst refs.simps) simp

lemma refs_operands:
  assumes "expr_of v = Some (op, ops)"
  shows "x \<in> set ops \<Longrightarrow> refs x \<subseteq> refs v" "refs (op0 ops) \<subseteq> refs v" "refs (op1 ops) \<subseteq> refs v"
proof -
  have all: "x \<in> set ops \<Longrightarrow> refs x \<subseteq> refs v" for x
    using assms by (subst (2) refs.simps) auto
  then show "x \<in> set ops \<Longrightarrow> refs x \<subseteq> refs v" .
  show "refs (op0 ops) \<subseteq> refs v" "refs (op1 ops) \<subseteq> refs v"
    using all by (auto simp: op0_def op1_def split: list.splits)
qed

lemma refs_elems: "x \<in> set xs \<Longrightarrow> refs x \<subseteq> refs (JArr xs)"
  by (subst (2) refs.simps) auto

lemma refs_var: "var_of v = Some (JStr p) \<Longrightarrow> p \<in> refs v"
  by (subst refs.simps) simp

definition same_on :: "string set \<Rightarrow> json \<Rightarrow> json \<Rightarrow> bool" where
  "same_on ps c d = (\<forall>p \<in> ps. resolveVar p c = resolveVar p d)"

lemma same_on_mono: "same_on ps c d \<Longrightarrow> qs \<subseteq> ps \<Longrightarrow> same_on qs c d"
  by (auto simp: same_on_def)

lemma evaluate_frame:
  shows "same_on (refs v) c d \<longrightarrow> evaluateCondition v c = evaluateCondition v d"
    and "same_on (refs v) c d \<longrightarrow> operandValue v c = operandValue v d"
proof (induction v rule: cond_induct)
  case (plain v)
  then show ?case by (simp add: evaluate_plain)
next
  case (expr v op ops)
  show ?case
  proof
    assume same: "same_on (refs v) c d"
    note sub = same_on_mono [OF same]
    have "\<And>x. x \<in> set ops \<Longrightarrow> evaluateCondition x c = evaluateCondition x d"
      using expr(2) sub refs_operands(1) [OF expr(1)] by blast
    moreover have "evaluateCondition (op0 ops) c = evaluateCondition (op0 ops) d"
      "operandValue (op0 ops) c = operandValue (op0 ops) d"
      "operandValue (op1 ops) c = operandValue (op1 ops) d"
      using expr(3-5) sub refs_operands(2,3) [OF expr(1)] by blast+
    ultimately show "evaluateCondition v c = evaluateCondition v d"
      by (simp add: evaluate_expr [OF expr(1)] cong: every_opt_cong some_opt_cong option.case_cong)
  qed
next
  case (ref v r)
  then show ?case
    by (cases r) (auto simp: operand_var same_on_def dest: refs_var)
next
  case (nested v)
  then show ?case by (simp add: operand_nested)
next
  case (arr xs)
  then show ?case
    using refs_elems same_on_mono by (simp add: operand_array cong: map_opt_cong)
next
  case (lit v)
  then show ?case by (simp add: operand_literal)
qed

subsection \<open>Properties\<close>

text \<open>
  A condition whose references all have string paths (the declared shape) always evaluates
  to a boolean: no branch of the evaluator throws, whatever the operators, the number of
  operands and the context.
\<close>
theorem condition_total: "well_typed v \<Longrightarrow> \<exists>b. evaluateCondition v ctx = Some b"
  using evaluateCondition_total by auto

lemma condition_total_witness:
  "\<exists>b. evaluateCondition (mk_expr ''gt'' [mk_var ''amount'', JNum 1000]) (JObj [(''amount'', JNum 1500)]) = Some b"
proof -
  have "well_typed (mk_expr ''gt'' [mk_var ''amount'', JNum 1000])"
    by (simp add: mk_expr_def mk_var_def well_typed.simps)
  then show ?thesis by (rule condition_total)
qed

text \<open>
  A condition reads nothing but its references: two contexts that agree on the paths it
  names give the same result, so evaluation has no hidden input.
\<close>
theorem condition_frame:
  "(\<forall>p \<in> refs v. resolveVar p c = resolveVar p d) \<Longrightarrow> evaluateCondition v c = evaluateCondition v d"
  using evaluate_frame(1) by (simp add: same_on_def)

lemma condition_frame_witness:
  "evaluateCondition (mk_var ''a.b'') (JObj [(''a'', JObj [(''b'', JBool True)])]) =
   evaluateCondition (mk_var ''a.b'') (JObj [(''x'', JNull), (''a'', JObj [(''b'', JBool True)])])"
  by (rule condition_frame)
    (simp add: mk_var_def refs.simps resolveVar_def nullish_def)

text \<open>
  The connectives over well-typed operands are the logical ones: \<open>and\<close> holds when every
  operand does (also for no operand), \<open>or\<close> when some operand does, \<open>not\<close> negates its first
  operand.
\<close>
theorem condition_connectives:
  assumes "list_all well_typed ops"
  shows "evaluateCondition (mk_expr ''and'' ops) ctx
           = Some (\<forall>e \<in> set ops. evaluateCondition e ctx = Some True)
       \<and> evaluateCondition (mk_expr ''or'' ops) ctx
           = Some (\<exists>e \<in> set ops. evaluateCondition e ctx = Some True)
       \<and> evaluateCondition (mk_expr ''not'' ops) ctx
           = Some (evaluateCondition (op0 ops) ctx \<noteq> Some True)"
proof -
  have tot: "evaluateCondition e ctx = Some (evaluateCondition e ctx = Some True)"
    if "well_typed e" for e
    using evaluateCondition_total [of e ctx] that by (cases "evaluateCondition e ctx") auto
  have each: "\<And>e. e \<in> set ops \<Longrightarrow>
      evaluateCondition e ctx = Some (evaluateCondition e ctx = Some True)"
    using tot assms by (auto simp: list_all_iff)
  have op0: "well_typed (op0 ops)"
    using assms by (auto simp: op0_def split: list.splits)
  show ?thesis
    using every_opt_total_eq [where f = "\<lambda>e. evaluateCondition e ctx", OF each]
      some_opt_total_eq [where f = "\<lambda>e. evaluateCondition e ctx", OF each] tot [OF op0]
    by (simp add: evaluate_expr [OF mk_expr_simps(1)] list_all_iff list_ex_iff)
qed

lemma condition_connectives_witness:
  "evaluateCondition (mk_expr ''and'' [JBool True, mk_var ''x'']) (JObj [(''x'', JNum 0)]) = Some False"
  using condition_connectives [of "[JBool True, mk_var ''x'']" "JObj [(''x'', JNum 0)]"]
  by (simp add: mk_var_def well_typed.simps evaluate_plain operand_var operand_literal
      resolveVar_def nullish_def)

text \<open>
  \<open>ne\<close>, \<open>neq\<close> and \<open>notIn\<close> are the exact complements of \<open>eq\<close> and \<open>in\<close>, and an operator the
  evaluator does not know is false.
\<close>
theorem condition_complements:
  "evaluateCondition (mk_expr ''ne'' [a, b]) ctx = map_option Not (evaluateCondition (mk_expr ''eq'' [a, b]) ctx)
   \<and> evaluateCondition (mk_expr ''neq'' [a, b]) ctx = evaluateCondition (mk_expr ''ne'' [a, b]) ctx
   \<and> evaluateCondition (mk_expr ''notIn'' [a, b]) ctx = map_option Not (evaluateCondition (mk_expr ''in'' [a, b]) ctx)
   \<and> evaluateCondition (mk_expr ''xor'' [JBool True, JBool True]) ctx = Some False"
  by (simp_all add: evaluate_binary binary_op_def compare_op_def Let_def op0_def op1_def
      operand_literal split: option.splits)

text \<open>
  The fail-safe is not complete: a reference with a numeric path throws, and \<open>not\<close> and
  \<open>notIn\<close> without operands are true, although malformed nodes are documented to be false.
\<close>
theorem condition_malformed:
  "evaluateCondition (JObj [(''var'', JNum 5)]) ctx = None
   \<and> evaluateCondition (mk_expr ''not'' []) ctx = Some True
   \<and> evaluateCondition (mk_expr ''notIn'' []) ctx = Some True"
  by (simp_all add: evaluate_plain operand_var evaluate_expr [OF mk_expr_simps(1)] op0_def op1_def
      operand_literal binary_op_def found_in_def)

end
