(* ===== verification/Workflow_Graph.thy ===== *)
theory Workflow_Graph
  imports Condition_Ast
begin

section \<open>Workflow definitions: validation, branching, simulation\<close>

text \<open>
  The graph part of xhub-api/src/xoffice/xoffice.service.ts over the types of
  xoffice.types.ts: \<open>validate\<close>, \<open>findCycles\<close>, \<open>evalExpr\<close>, \<open>nextEdge\<close>, and the lookups by
  node id. A node's \<open>config\<close> is JSON, as in the source. The messages of an issue are display
  text; the model keeps what they are about.
\<close>

subsection \<open>Types\<close>

datatype node_type =
    NStart | NApproval | NHumanTask | NForm | NCondition | NParallelSplit | NParallelJoin
  | NTimer | NNotification | NServiceCall | NSubflow | NAiAssist | NEnd

record wnode =
  n_id :: string
  n_type :: node_type
  n_name :: string
  n_config :: json

record wedge =
  e_id :: string
  e_source :: string
  e_target :: string
  e_label :: "string option"

record wdef =
  d_code :: string
  d_name :: string
  d_ownerRoleCode :: "string option"
  d_nodes :: "wnode list"
  d_edges :: "wedge list"

text \<open>\<open>STOP_TYPES\<close> and \<open>MAX_WALK\<close>.\<close>

definition stop_type :: "node_type \<Rightarrow> bool" where
  "stop_type t = (t = NApproval \<or> t = NHumanTask)"

definition MAX_WALK :: nat where
  "MAX_WALK = 60"

text \<open>
  \<open>nodes.find(n => n.id === i)\<close> takes the first node of an id, \<open>new Map(nodes.map(...)).get(i)\<close>
  the last; they agree when ids are distinct.
\<close>

definition find_node :: "wnode list \<Rightarrow> string \<Rightarrow> wnode option" where
  "find_node nodes i = tfind (\<lambda>n. n_id n = i) nodes"

definition by_id :: "wnode list \<Rightarrow> string \<Rightarrow> wnode option" where
  "by_id nodes i = tfind (\<lambda>n. n_id n = i) (rev nodes)"

definition outs_of :: "wedge list \<Rightarrow> string \<Rightarrow> wedge list" where
  "outs_of es i = filter (\<lambda>e. e_source e = i) es"

definition incoming :: "wedge list \<Rightarrow> string \<Rightarrow> nat" where
  "incoming es i = length (filter (\<lambda>e. e_target e = i) es)"

lemma find_node_Some: "find_node ns i = Some n \<Longrightarrow> n \<in> set ns \<and> n_id n = i"
  unfolding find_node_def by (drule tfind_SomeD) simp

lemma by_id_Some: "by_id ns i = Some n \<Longrightarrow> n \<in> set ns \<and> n_id n = i"
  unfolding by_id_def by (drule tfind_SomeD) simp

lemma by_id_None_iff: "by_id ns i = None \<longleftrightarrow> i \<notin> n_id ` set ns"
  by (auto simp: by_id_def tfind_None_iff)

lemma find_node_None_iff: "find_node ns i = None \<longleftrightarrow> i \<notin> n_id ` set ns"
  by (auto simp: find_node_def tfind_None_iff)

lemma find_node_by_id: "distinct (map n_id ns) \<Longrightarrow> find_node ns i = by_id ns i"
proof (cases "by_id ns i")
  case None
  then have "find_node ns i = None" using by_id_None_iff find_node_None_iff by metis
  with None show ?thesis by simp
next
  case (Some n)
  assume "distinct (map n_id ns)"
  with Some show ?thesis
    using by_id_Some tfind_column [of n_id ns n] by (force simp: find_node_def)
qed

subsection \<open>Branch conditions\<close>

text \<open>\<open>evalExpr\<close>: only objects (and arrays) are evaluated; a bare literal is false.\<close>

fun is_object :: "json \<Rightarrow> bool" where
  "is_object (JObj _) = True"
| "is_object (JArr _) = True"
| "is_object _ = False"

definition evalExpr :: "json \<Rightarrow> json \<Rightarrow> bool res" where
  "evalExpr expr vars =
     (if \<not> is_object expr then Inr False
      else case evaluateCondition expr vars of None \<Rightarrow> Inl TypeErr | Some b \<Rightarrow> Inr b)"

text \<open>
  The labels of the two branches: \<open>/^(c\'o|yes|true)$/i\<close> and \<open>/^(kh\^ong|no|false)$/i\<close>, written
  over UTF-8 bytes. The case mapping adds the two accented letters to the ASCII ones.
\<close>

fun fold_label :: "string \<Rightarrow> string" where
  "fold_label (a # b # s) =
     (if a = CHR 0xC3 \<and> (b = CHR 0x93 \<or> b = CHR 0xB3) then CHR 0xC3 # CHR 0xB3 # fold_label s
      else if a = CHR 0xC3 \<and> (b = CHR 0x94 \<or> b = CHR 0xB4) then CHR 0xC3 # CHR 0xB4 # fold_label s
      else lower_char a # fold_label (b # s))"
| "fold_label s = map lower_char s"

definition yes_label :: "string \<Rightarrow> bool" where
  "yes_label l = (fold_label l \<in> {''c'' @ [CHR 0xC3, CHR 0xB3], ''yes'', ''true''})"

definition no_label :: "string \<Rightarrow> bool" where
  "no_label l = (fold_label l \<in> {''kh'' @ [CHR 0xC3, CHR 0xB4] @ ''ng'', ''no'', ''false''})"

definition label_of :: "wedge \<Rightarrow> string" where
  "label_of e = coalesce (e_label e) ''''"

definition nextEdge :: "wnode \<Rightarrow> wedge list \<Rightarrow> json \<Rightarrow> wedge option res" where
  "nextEdge node edges vars =
     (let outs = outs_of edges (n_id node) in
      if outs = [] then Inr None
      else if n_type node = NCondition then
        (case evalExpr (get_prop (n_config node) ''expression'') vars of
           Inl e \<Rightarrow> Inl e
         | Inr True \<Rightarrow>
             Inr (Some (coalesce (tfind (\<lambda>e. yes_label (label_of e)) outs) (hd outs)))
         | Inr False \<Rightarrow>
             Inr (Some (coalesce (tfind (\<lambda>e. no_label (label_of e)) outs) (last outs))))
      else Inr (Some (hd outs)))"

lemma nextEdge_out:
  assumes "nextEdge n es vars = Inr (Some e)"
  shows "e \<in> set es \<and> e_source e = n_id n"
proof -
  let ?outs = "outs_of es (n_id n)"
  from assms have ne: "?outs \<noteq> []" by (auto simp: nextEdge_def)
  from ne have "coalesce (tfind P ?outs) (hd ?outs) \<in> set ?outs"
    "coalesce (tfind P ?outs) (last ?outs) \<in> set ?outs" for P
    by (cases "tfind P ?outs"; auto dest: tfind_SomeD)+
  with assms ne have "e \<in> set ?outs"
    by (auto simp: nextEdge_def Let_def split: if_splits sum.splits bool.splits)
  then show ?thesis by (simp add: outs_of_def)
qed

lemma nextEdge_None_iff: "nextEdge n es vars = Inr None \<longleftrightarrow> outs_of es (n_id n) = []"
  by (auto simp: nextEdge_def Let_def split: sum.splits bool.splits)

subsection \<open>Reachability from the start node\<close>

text \<open>
  The work list of \<open>validate\<close>: a stack, the top at the head of the list; the targets of a node
  are pushed in edge order, so the last one is popped first.
\<close>

definition targets :: "wedge list \<Rightarrow> string \<Rightarrow> string list" where
  "targets es u = map e_target (outs_of es u)"

definition arcs :: "wedge list \<Rightarrow> (string \<times> string) set" where
  "arcs es = (\<lambda>e. (e_source e, e_target e)) ` set es"

lemma in_targets_iff: "v \<in> set (targets es u) \<longleftrightarrow> (u, v) \<in> arcs es"
  by (auto simp: targets_def outs_of_def arcs_def)

definition sources :: "wedge list \<Rightarrow> string set" where
  "sources es = e_source ` set es"

lemma targets_no_source: "u \<notin> sources es \<Longrightarrow> targets es u = []"
  by (auto simp: targets_def outs_of_def sources_def filter_empty_conv)

function reach_from :: "wedge list \<Rightarrow> string list \<Rightarrow> string list \<Rightarrow> string list" where
  "reach_from es [] seen = seen"
| "reach_from es (cur # stack) seen =
     (if cur \<in> set seen then reach_from es stack seen
      else reach_from es (rev (targets es cur) @ stack) (cur # seen))"
  by pat_completeness auto
termination
proof (relation "inv_image (finite_psubset <*lex*> less_than)
    (\<lambda>(es, stack, seen). (sources es - set seen, length stack))", goal_cases)
  case (3 es cur stack seen)
  show ?case
  proof (cases "cur \<in> sources es")
    case True
    with 3 show ?thesis by (auto simp: finite_psubset_def sources_def)
  next
    case False
    then have "sources es - set (cur # seen) = sources es - set seen" by auto
    with False show ?thesis by (simp add: targets_no_source)
  qed
qed auto

text \<open>The result is exactly the nodes reachable from the stack (besides what was seen).\<close>

lemma reach_from_mono: "set seen \<union> set stack \<subseteq> set (reach_from es stack seen)"
  by (induction es stack seen rule: reach_from.induct) auto

lemma reach_from_sound:
  "set (reach_from es stack seen) \<subseteq> set seen \<union> (arcs es)\<^sup>* `` set stack"
proof (induction es stack seen rule: reach_from.induct)
  case (2 es cur stack seen)
  have step: "(arcs es)\<^sup>* `` set (targets es cur) \<subseteq> (arcs es)\<^sup>* `` {cur}"
    by (auto simp: in_targets_iff intro: converse_rtrancl_into_rtrancl)
  show ?case
  proof (cases "cur \<in> set seen")
    case True
    with 2 show ?thesis by (auto simp: Image_Un)
  next
    case False
    with 2 step show ?thesis by (fastforce simp: Image_Un)
  qed
qed simp

lemma reach_from_closed:
  "arcs es `` set seen \<subseteq> set seen \<union> set stack \<Longrightarrow>
   arcs es `` set (reach_from es stack seen) \<subseteq> set (reach_from es stack seen)"
proof (induction es stack seen rule: reach_from.induct)
  case (2 es cur stack seen)
  show ?case
  proof (cases "cur \<in> set seen")
    case True
    with 2 show ?thesis by (auto simp: insert_absorb)
  next
    case False
    have "arcs es `` set (cur # seen) \<subseteq> set (cur # seen) \<union> set (rev (targets es cur) @ stack)"
      using 2(3) by (auto simp: in_targets_iff)
    with 2(2) False show ?thesis by simp
  qed
qed simp

lemma reach_from_complete:
  "(arcs es)\<^sup>* `` set stack \<subseteq> set (reach_from es stack [])"
proof
  fix v assume "v \<in> (arcs es)\<^sup>* `` set stack"
  then obtain u where u: "u \<in> set stack" "(u, v) \<in> (arcs es)\<^sup>*" by blast
  from u(2) show "v \<in> set (reach_from es stack [])"
  proof (induction rule: rtrancl_induct)
    case base
    with u(1) reach_from_mono [of "[]" stack es] show ?case by auto
  next
    case (step y z)
    with reach_from_closed [of es "[]" stack] show ?case by auto
  qed
qed

lemma reach_from_eq: "set (reach_from es stack []) = (arcs es)\<^sup>* `` set stack"
  using reach_from_sound [of es stack "[]"] reach_from_complete [of es stack] by auto

subsection \<open>Cycle search\<close>

text \<open>
  \<open>findCycles\<close>: depth-first search with three colours (0 unseen, 1 on the stack, 2 done); an
  edge to a node on the stack reports the part of the stack from that node on. The mutable
  variables are the fields of \<open>dfs\<close>. The fuel bounds the depth of the recursion; every nested
  call colours a new node, so \<open>dfs_fuel\<close> is enough (\<open>findCycles_total\<close>).
\<close>

record dfs =
  col :: "string \<Rightarrow> nat"
  stk :: "string list"
  cyc :: "string list list"

definition dfs_enter :: "string \<Rightarrow> dfs \<Rightarrow> dfs" where
  "dfs_enter u s = s\<lparr>col := (col s)(u := 1), stk := stk s @ [u]\<rparr>"

definition dfs_leave :: "string \<Rightarrow> dfs \<Rightarrow> dfs" where
  "dfs_leave u s = s\<lparr>col := (col s)(u := 2), stk := butlast (stk s)\<rparr>"

definition dfs_back :: "string \<Rightarrow> dfs \<Rightarrow> dfs" where
  "dfs_back v s =
     (if v \<in> set (stk s) then s\<lparr>cyc := cyc s @ [dropWhile (\<lambda>x. x \<noteq> v) (stk s)]\<rparr> else s)"

fun visit :: "nat \<Rightarrow> wedge list \<Rightarrow> string \<Rightarrow> dfs \<Rightarrow> dfs option"
  and visit_all :: "nat \<Rightarrow> wedge list \<Rightarrow> string list \<Rightarrow> dfs \<Rightarrow> dfs option"
where
  "visit 0 es u s = None"
| "visit (Suc f) es u s = map_option (dfs_leave u) (visit_all f es (targets es u) (dfs_enter u s))"
| "visit_all f es [] s = Some s"
| "visit_all f es (v # vs) s =
     (if col s v = 0 then
        (case visit f es v s of None \<Rightarrow> None | Some s' \<Rightarrow> visit_all f es vs s')
      else if col s v = 1 then visit_all f es vs (dfs_back v s)
      else visit_all f es vs s)"

fun visit_roots :: "nat \<Rightarrow> wedge list \<Rightarrow> string list \<Rightarrow> dfs \<Rightarrow> dfs option" where
  "visit_roots f es [] s = Some s"
| "visit_roots f es (r # rs) s =
     (if col s r = 0 then
        (case visit f es r s of None \<Rightarrow> None | Some s' \<Rightarrow> visit_roots f es rs s')
      else visit_roots f es rs s)"

definition dfs_fuel :: "wnode list \<Rightarrow> wedge list \<Rightarrow> nat" where
  "dfs_fuel ns es = length ns + length es"

definition dfs_init :: dfs where
  "dfs_init = \<lparr>col = (\<lambda>_. 0), stk = [], cyc = []\<rparr>"

definition dfs_run :: "wnode list \<Rightarrow> wedge list \<Rightarrow> dfs option" where
  "dfs_run ns es = visit_roots (dfs_fuel ns es) es (map n_id ns) dfs_init"

definition findCycles :: "wnode list \<Rightarrow> wedge list \<Rightarrow> string list list" where
  "findCycles ns es = (case dfs_run ns es of None \<Rightarrow> [] | Some s \<Rightarrow> cyc s)"

subsubsection \<open>The fuel is enough\<close>

definition white :: "string set \<Rightarrow> dfs \<Rightarrow> string set" where
  "white U s = {x \<in> U. col s x = 0}"

lemma white_simps [simp]:
  "white U (dfs_leave u s) = white U s - {u}"
  "white U (dfs_back v s) = white U s"
  "white U (dfs_enter u s) = white U s - {u}"
  by (auto simp: white_def dfs_leave_def dfs_back_def dfs_enter_def)

lemma visit_terminates:
  assumes fin: "finite U"
  shows "(\<forall>u. set (targets es u) \<subseteq> U) \<Longrightarrow> u \<in> white U s \<Longrightarrow> card (white U s) \<le> f \<Longrightarrow>
      \<exists>s'. visit f es u s = Some s' \<and> white U s' \<subseteq> white U s"
    and "(\<forall>u. set (targets es u) \<subseteq> U) \<Longrightarrow> set vs \<subseteq> U \<Longrightarrow> card (white U s) \<le> f \<Longrightarrow>
      \<exists>s'. visit_all f es vs s = Some s' \<and> white U s' \<subseteq> white U s"
proof (induction f es u s and f es vs s rule: visit_visit_all.induct)
  case (1 es u s)
  have "finite (white U s)" using fin by (simp add: white_def)
  with 1 show ?case by auto
next
  case (2 f es u s)
  have "finite (white U s)" using fin by (simp add: white_def)
  with "2.prems" have "card (white U (dfs_enter u s)) \<le> f" by simp
  with "2.IH" "2.prems"(1) obtain s1
    where "visit_all f es (targets es u) (dfs_enter u s) = Some s1"
      "white U s1 \<subseteq> white U (dfs_enter u s)" by metis
  then show ?case by auto
next
  case (3 f es s)
  then show ?case by simp
next
  case (4 f es v vs s)
  show ?case
  proof (cases "col s v = 0")
    case True
    with "4.prems" have "v \<in> white U s" by (simp add: white_def)
    with True "4.IH"(1) "4.prems"(1,3) obtain s1
      where s1: "visit f es v s = Some s1" "white U s1 \<subseteq> white U s" by blast
    have "card (white U s1) \<le> f"
      using s1(2) "4.prems"(3) fin card_mono [of "white U s" "white U s1"] by (simp add: white_def)
    with "4.IH"(2) [OF True s1(1)] "4.prems"(1,2) s1 True show ?thesis by fastforce
  next
    case False
    with "4.IH"(3,4) "4.prems" show ?thesis by simp
  qed
qed

lemma visit_roots_terminates:
  assumes "finite U" "\<forall>u. set (targets es u) \<subseteq> U" "set rs \<subseteq> U" "card (white U s) \<le> f"
  shows "\<exists>s'. visit_roots f es rs s = Some s'"
  using assms(3,4)
proof (induction rs arbitrary: s)
  case (Cons r rs)
  show ?case
  proof (cases "col s r = 0")
    case True
    with Cons.prems have "r \<in> white U s" by (simp add: white_def)
    with visit_terminates(1) [OF assms(1,2)] Cons.prems(2) obtain s1
      where s1: "visit f es r s = Some s1" "white U s1 \<subseteq> white U s" by blast
    have "card (white U s1) \<le> f"
      using s1(2) Cons.prems(2) assms(1) card_mono [of "white U s" "white U s1"]
      by (simp add: white_def)
    with Cons s1 True show ?thesis by simp
  qed (use Cons in simp)
qed simp

lemma findCycles_total: "\<exists>s. dfs_run ns es = Some s"
proof -
  let ?U = "set (map n_id ns) \<union> set (map e_target es)"
  have "card ?U \<le> dfs_fuel ns es"
    using card_Un_le [of "set (map n_id ns)" "set (map e_target es)"]
      card_length [of "map n_id ns"] card_length [of "map e_target es"]
    by (simp add: dfs_fuel_def)
  moreover have "card (white ?U dfs_init) \<le> card ?U"
    by (rule card_mono) (auto simp: white_def)
  moreover have "\<forall>u. set (targets es u) \<subseteq> ?U"
    by (auto simp: targets_def outs_of_def)
  ultimately show ?thesis
    unfolding dfs_run_def by (intro visit_roots_terminates [of ?U]) auto
qed

subsubsection \<open>Every reported cycle is one\<close>

definition walk :: "wedge list \<Rightarrow> string list \<Rightarrow> bool" where
  "walk es p = successively (\<lambda>u v. (u, v) \<in> arcs es) p"

definition closed_walk :: "wedge list \<Rightarrow> string list \<Rightarrow> bool" where
  "closed_walk es p = (p \<noteq> [] \<and> walk es p \<and> (last p, hd p) \<in> arcs es)"

definition dfs_ok :: "wedge list \<Rightarrow> dfs \<Rightarrow> bool" where
  "dfs_ok es s = (walk es (stk s) \<and> (\<forall>p \<in> set (cyc s). closed_walk es p))"

lemma walk_snoc: "walk es (p @ [u]) \<longleftrightarrow> walk es p \<and> (p = [] \<or> (last p, u) \<in> arcs es)"
  by (auto simp: walk_def successively_append_iff)

lemma walk_suffix: "walk es (p @ q) \<Longrightarrow> walk es q"
  by (auto simp: walk_def successively_append_iff)

lemma dfs_back_ok:
  assumes "dfs_ok es s" "stk s = p @ [u]" "(u, v) \<in> arcs es"
  shows "dfs_ok es (dfs_back v s)"
proof (cases "v \<in> set (stk s)")
  case True
  let ?d = "dropWhile (\<lambda>x. x \<noteq> v) (stk s)"
  have split: "stk s = takeWhile (\<lambda>x. x \<noteq> v) (stk s) @ ?d" by simp
  from True have ne: "?d \<noteq> []" by (auto simp: dropWhile_eq_Nil_conv)
  have "hd ?d = v" using hd_dropWhile [OF ne] by simp
  moreover have "last ?d = u" using ne assms(2) by (metis last_appendR last_snoc split)
  moreover have "walk es ?d" using assms(1) walk_suffix split by (metis dfs_ok_def)
  ultimately have "closed_walk es ?d" using ne assms(3) by (simp add: closed_walk_def)
  with assms(1) True show ?thesis by (simp add: dfs_ok_def dfs_back_def)
qed (use assms in \<open>simp add: dfs_back_def\<close>)

lemma dfs_back_stk [simp]: "stk (dfs_back v s) = stk s"
  by (simp add: dfs_back_def)

lemma visit_ok:
  shows "visit f es u s = Some s' \<Longrightarrow> dfs_ok es s \<Longrightarrow> walk es (stk s @ [u]) \<Longrightarrow>
      dfs_ok es s' \<and> stk s' = stk s"
    and "visit_all f es vs s = Some s' \<Longrightarrow> dfs_ok es s \<Longrightarrow> stk s = p @ [u] \<Longrightarrow>
      (\<forall>v \<in> set vs. (u, v) \<in> arcs es) \<Longrightarrow> dfs_ok es s' \<and> stk s' = stk s"
proof (induction f es u s and f es vs s arbitrary: s' and s' p u rule: visit_visit_all.induct)
  case (2 f es u s)
  then obtain s1 where s1: "visit_all f es (targets es u) (dfs_enter u s) = Some s1"
      "s' = dfs_leave u s1" by auto
  have "dfs_ok es (dfs_enter u s)" using "2.prems" by (simp add: dfs_ok_def dfs_enter_def)
  with "2.IH" [OF s1(1), of "stk s" u] have "dfs_ok es s1 \<and> stk s1 = stk s @ [u]"
    by (simp add: dfs_enter_def in_targets_iff)
  with "2.prems"(2) s1(2) show ?case by (simp add: dfs_leave_def dfs_ok_def)
next
  case (4 f es v vs s)
  consider (new) "col s v = 0" | (on) "col s v = 1" | (old) "col s v \<noteq> 0" "col s v \<noteq> 1" by blast
  then show ?case
  proof cases
    case new
    with "4.prems"(1) obtain s1
      where s1: "visit f es v s = Some s1" "visit_all f es vs s1 = Some s'"
      by (auto split: option.splits)
    have "walk es (stk s @ [v])" 
      by (subst walk_snoc) (use "4.prems"(2-4) in \<open>auto simp: dfs_ok_def\<close>)
    with "4.IH"(1) [OF new s1(1)] "4.prems" have "dfs_ok es s1 \<and> stk s1 = stk s" by blast
    with "4.IH"(2) [OF new s1(1) s1(2)] "4.prems" show ?thesis by simp
  next
    case on
    with "4.prems" have "dfs_ok es (dfs_back v s)" by (auto intro: dfs_back_ok)
    with on "4.IH"(3) [of s' p u] "4.prems" show ?thesis by simp
  next
    case old
    with "4.IH"(4) [of s' p u] "4.prems" show ?thesis by simp
  qed
qed simp_all

lemma visit_roots_ok:
  "visit_roots f es rs s = Some s' \<Longrightarrow> dfs_ok es s \<Longrightarrow> stk s = [] \<Longrightarrow> dfs_ok es s'"
proof (induction rs arbitrary: s)
  case (Cons r rs)
  show ?case
  proof (cases "col s r = 0")
    case True
    with Cons.prems obtain s1 where s1: "visit f es r s = Some s1" "visit_roots f es rs s1 = Some s'"
      by (auto split: option.splits)
    have "walk es (stk s @ [r])" using Cons.prems(3) by (simp add: walk_def)
    with visit_ok(1) [OF s1(1)] Cons.prems s1(2) show ?thesis by (simp add: Cons.IH)
  qed (use Cons in simp)
qed simp

lemma findCycles_sound: "p \<in> set (findCycles ns es) \<Longrightarrow> closed_walk es p"
proof -
  obtain s where s: "dfs_run ns es = Some s" using findCycles_total by blast
  then have "dfs_ok es s"
    unfolding dfs_run_def
    by (rule visit_roots_ok) (simp_all add: dfs_ok_def dfs_init_def walk_def)
  then show "p \<in> set (findCycles ns es) \<Longrightarrow> closed_walk es p"
    by (simp add: findCycles_def s dfs_ok_def)
qed

subsubsection \<open>Every cycle is met\<close>

text \<open>
  The arcs that closed a reported cycle. Without them no cycle is left: the arcs that leave the done
  nodes lead to done nodes or are of this kind, and a node becomes done only when its arcs are.
\<close>

definition back_arcs :: "dfs \<Rightarrow> (string \<times> string) set" where
  "back_arcs s = (\<lambda>p. (last p, hd p)) ` set (cyc s)"

definition done_arcs :: "wedge list \<Rightarrow> dfs \<Rightarrow> (string \<times> string) set" where
  "done_arcs es s = {(x, y) \<in> arcs es - back_arcs s. col s x = 2}"

definition dfs_inv :: "wedge list \<Rightarrow> dfs \<Rightarrow> bool" where
  "dfs_inv es s \<longleftrightarrow> distinct (stk s) \<and> (\<forall>x. col s x = 1 \<longleftrightarrow> x \<in> set (stk s)) \<and> (\<forall>x. col s x \<le> 2) \<and>
     (\<forall>x y. (x, y) \<in> done_arcs es s \<longrightarrow> col s y = 2) \<and> acyclic (done_arcs es s)"

definition dfs_grows :: "dfs \<Rightarrow> dfs \<Rightarrow> bool" where
  "dfs_grows s s' \<longleftrightarrow> (\<forall>x. col s x = 2 \<longrightarrow> col s' x = 2) \<and> back_arcs s \<subseteq> back_arcs s'"

lemma dfs_grows_refl [simp]: "dfs_grows s s"
  by (simp add: dfs_grows_def)

lemma dfs_grows_trans: "dfs_grows s t \<Longrightarrow> dfs_grows t u \<Longrightarrow> dfs_grows s u"
  by (auto simp: dfs_grows_def)

lemma acyclic_source:
  assumes "acyclic {(x, y) \<in> r. x \<noteq> u}" "u \<notin> Range r"
  shows "acyclic r"
proof -
  have step: "(a, b) \<in> {(x, y) \<in> r. x \<noteq> u}\<^sup>+" if "(a, b) \<in> r\<^sup>+" "a \<noteq> u" for a b
    using that
  proof (induction rule: trancl_induct)
    case (step y z)
    have "y \<noteq> u" using step(1) assms(2) by (metis Range.intros tranclD2)
    with step show ?case by (auto intro: trancl_into_trancl)
  qed auto
  have "(x, x) \<notin> r\<^sup>+" for x
  proof
    assume loop: "(x, x) \<in> r\<^sup>+"
    then have "x \<noteq> u" using assms(2) by (metis Range.intros tranclD2)
    with step [OF loop] assms(1) show False by (simp add: acyclic_def)
  qed
  then show ?thesis by (simp add: acyclic_def)
qed

lemma dfs_inv_enter:
  assumes "dfs_inv es s" "col s u = 0"
  shows "dfs_inv es (dfs_enter u s)" "dfs_grows s (dfs_enter u s)"
proof -
  have same: "back_arcs (dfs_enter u s) = back_arcs s" by (simp add: back_arcs_def dfs_enter_def)
  have new: "col (dfs_enter u s) = (col s)(u := 1)" "stk (dfs_enter u s) = stk s @ [u]" by (simp_all add: dfs_enter_def)
  have arcs: "done_arcs es (dfs_enter u s) = done_arcs es s" using assms(2) unfolding done_arcs_def same new by (auto split: if_splits)
  have i: "distinct (stk s)" "\<And>x. col s x = 1 \<longleftrightarrow> x \<in> set (stk s)" "\<And>x. col s x \<le> 2"
    "\<And>x y. (x, y) \<in> done_arcs es s \<Longrightarrow> col s y = 2" "acyclic (done_arcs es s)" using assms(1) by (simp_all add: dfs_inv_def)
  have "u \<notin> set (stk s)" using i(2) [of u] assms(2) by simp
  then have "distinct (stk s @ [u])" using i(1) by simp
  moreover have "((col s)(u := 1)) x = 1 \<longleftrightarrow> x \<in> set (stk s @ [u])" "((col s)(u := 1)) x \<le> 2" for x using i(2,3) [of x] by auto
  moreover have "((col s)(u := 1)) y = 2" if "(x, y) \<in> done_arcs es s" for x y using i(4) [OF that] assms(2) by auto
  ultimately show "dfs_inv es (dfs_enter u s)" unfolding dfs_inv_def arcs new using i(5) by blast
  show "dfs_grows s (dfs_enter u s)" using assms(2) same new by (simp add: dfs_grows_def)
qed

lemma dfs_inv_back:
  assumes "dfs_inv es s" "stk s = p @ [u]" "col s v = 1"
  shows "dfs_inv es (dfs_back v s)" "dfs_grows s (dfs_back v s)" "(u, v) \<in> back_arcs (dfs_back v s)"
proof -
  let ?d = "dropWhile (\<lambda>x. x \<noteq> v) (stk s)"
  have on: "v \<in> set (stk s)" using assms(1,3) by (simp add: dfs_inv_def)
  then have ne: "?d \<noteq> []" by (auto simp: dropWhile_eq_Nil_conv)
  have "hd ?d = v" using hd_dropWhile [OF ne] by simp
  moreover have "last ?d = u" using ne assms(2) by (metis last_appendR last_snoc takeWhile_dropWhile_id)
  ultimately have new: "back_arcs (dfs_back v s) = insert (u, v) (back_arcs s)" using on by (simp add: back_arcs_def dfs_back_def)
  then show "(u, v) \<in> back_arcs (dfs_back v s)" "dfs_grows s (dfs_back v s)" using on by (simp_all add: dfs_grows_def dfs_back_def subset_insertI)
  have "done_arcs es (dfs_back v s) \<subseteq> done_arcs es s" using on new by (auto simp: done_arcs_def dfs_back_def)
  with assms(1) on acyclic_subset show "dfs_inv es (dfs_back v s)" by (auto simp: dfs_inv_def dfs_back_def)
qed

lemma dfs_inv_leave:
  assumes "dfs_inv es s" "stk s = q @ [u]" "\<And>v. (u, v) \<in> arcs es \<Longrightarrow> col s v = 2 \<or> (u, v) \<in> back_arcs s"
  shows "dfs_inv es (dfs_leave u s)" "dfs_grows s (dfs_leave u s)" "col (dfs_leave u s) u = 2"
proof -
  have u: "col s u = 1" using assms(1,2) by (simp add: dfs_inv_def)
  have same: "back_arcs (dfs_leave u s) = back_arcs s" by (simp add: back_arcs_def dfs_leave_def)
  show "dfs_grows s (dfs_leave u s)" using same by (simp add: dfs_grows_def dfs_leave_def)
  show "col (dfs_leave u s) u = 2" by (simp add: dfs_leave_def)
  have c: "col (dfs_leave u s) = (col s)(u := 2)" by (simp add: dfs_leave_def)
  have split: "done_arcs es (dfs_leave u s) = done_arcs es s \<union> {(x, y) \<in> arcs es - back_arcs s. x = u}"
    using u unfolding done_arcs_def same c by auto
  have i: "distinct (q @ [u])" "\<And>x. col s x = 1 \<longleftrightarrow> x \<in> set (q @ [u])" "\<And>x. col s x \<le> 2"
    "\<And>x y. (x, y) \<in> done_arcs es s \<Longrightarrow> col s y = 2" "acyclic (done_arcs es s)" using assms(1,2) by (simp_all add: dfs_inv_def)
  have to: "col s y = 2" if "(x, y) \<in> done_arcs es (dfs_leave u s)" for x y
    using that i(4) assms(3) unfolding split by blast
  have "{(x, y) \<in> done_arcs es (dfs_leave u s). x \<noteq> u} \<subseteq> done_arcs es s" unfolding split by auto
  then have "acyclic {(x, y) \<in> done_arcs es (dfs_leave u s). x \<noteq> u}" by (rule acyclic_subset [OF i(5)])
  moreover have "u \<notin> Range (done_arcs es (dfs_leave u s))" using to u by fastforce
  ultimately have acyc: "acyclic (done_arcs es (dfs_leave u s))" by (rule acyclic_source)
  have "stk (dfs_leave u s) = q" using assms(2) by (simp add: dfs_leave_def)
  then show "dfs_inv es (dfs_leave u s)" unfolding dfs_inv_def c using acyc to i(1-3) by (auto simp: fun_upd_def)
qed

lemma visit_inv:
  shows "visit f es u s = Some s' \<Longrightarrow> dfs_inv es s \<Longrightarrow> col s u = 0 \<Longrightarrow>
      dfs_inv es s' \<and> stk s' = stk s \<and> dfs_grows s s' \<and> col s' u = 2"
    and "visit_all f es vs s = Some s' \<Longrightarrow> dfs_inv es s \<Longrightarrow> stk s = p @ [u] \<Longrightarrow>
      dfs_inv es s' \<and> stk s' = stk s \<and> dfs_grows s s' \<and> (\<forall>v \<in> set vs. col s' v = 2 \<or> (u, v) \<in> back_arcs s')"
proof (induction f es u s and f es vs s arbitrary: s' and s' p u rule: visit_visit_all.induct)
  case (2 f es u s)
  then obtain s1 where s1: "visit_all f es (targets es u) (dfs_enter u s) = Some s1" "s' = dfs_leave u s1" by auto
  note enter = dfs_inv_enter [OF "2.prems"(2,3)]
  from "2.IH" [OF s1(1) enter(1), of "stk s" u]
  have all: "dfs_inv es s1" "stk s1 = stk s @ [u]" "dfs_grows (dfs_enter u s) s1"
    "\<forall>v \<in> set (targets es u). col s1 v = 2 \<or> (u, v) \<in> back_arcs s1" by (simp_all add: dfs_enter_def)
  note leave = dfs_inv_leave [OF all(1,2)]
  have out: "col s1 v = 2 \<or> (u, v) \<in> back_arcs s1" if "(u, v) \<in> arcs es" for v using all(4) that by (simp add: in_targets_iff)
  have "stk s' = stk s" using all(2) by (simp add: s1(2) dfs_leave_def)
  then show ?case
    using leave [OF out] dfs_grows_trans [OF dfs_grows_trans [OF enter(2) all(3)]] s1(2) by blast
next
  case (4 f es v vs s)
  consider (new) "col s v = 0" | (on) "col s v = 1" | (old) "col s v = 2"
    using "4.prems"(2) unfolding dfs_inv_def by (metis One_nat_def le_SucE le_zero_eq numeral_2_eq_2)
  then show ?case
  proof cases
    case new
    with "4.prems"(1) obtain s1 where s1: "visit f es v s = Some s1" "visit_all f es vs s1 = Some s'" by (auto split: option.splits)
    from "4.IH"(1) [OF new s1(1) "4.prems"(2) new] have v: "dfs_inv es s1" "stk s1 = stk s" "dfs_grows s s1" "col s1 v = 2" by blast+
    from "4.IH"(2) [OF new s1(1) s1(2) v(1), of p u] v(2) "4.prems"(3)
    have rest: "dfs_inv es s'" "stk s' = stk s" "dfs_grows s1 s'" "\<forall>v \<in> set vs. col s' v = 2 \<or> (u, v) \<in> back_arcs s'" by simp_all
    moreover have "col s' v = 2" using rest(3) v(4) by (simp add: dfs_grows_def)
    ultimately show ?thesis using dfs_grows_trans [OF v(3) rest(3)] by simp
  next
    case on
    note ret = dfs_inv_back [OF "4.prems"(2,3) on]
    from on "4.prems" "4.IH"(3) [of s' p u] ret(1)
    have rest: "dfs_inv es s'" "stk s' = stk s" "dfs_grows (dfs_back v s) s'" "\<forall>v \<in> set vs. col s' v = 2 \<or> (u, v) \<in> back_arcs s'" by simp_all
    moreover have "(u, v) \<in> back_arcs s'" using rest(3) ret(3) by (auto simp: dfs_grows_def)
    ultimately show ?thesis using dfs_grows_trans [OF ret(2) rest(3)] by simp
  next
    case old
    from old "4.prems" "4.IH"(4) [of s' p u]
    have rest: "dfs_inv es s'" "stk s' = stk s" "dfs_grows s s'" "\<forall>v \<in> set vs. col s' v = 2 \<or> (u, v) \<in> back_arcs s'" by simp_all
    with old show ?thesis by (simp add: dfs_grows_def)
  qed
qed simp_all

lemma visit_roots_inv:
  "visit_roots f es rs s = Some s' \<Longrightarrow> dfs_inv es s \<Longrightarrow> stk s = [] \<Longrightarrow>
   dfs_inv es s' \<and> stk s' = [] \<and> dfs_grows s s' \<and> (\<forall>r \<in> set rs. col s' r = 2)"
proof (induction rs arbitrary: s)
  case (Cons r rs)
  show ?case
  proof (cases "col s r = 0")
    case True
    with Cons.prems obtain s1 where s1: "visit f es r s = Some s1" "visit_roots f es rs s1 = Some s'" by (auto split: option.splits)
    from visit_inv(1) [OF s1(1) Cons.prems(2) True] Cons.prems(3) have r: "dfs_inv es s1" "stk s1 = []" "dfs_grows s s1" "col s1 r = 2" by auto
    from Cons.IH [OF s1(2) r(1,2)] have rest: "dfs_inv es s'" "stk s' = []" "dfs_grows s1 s'" "\<forall>r \<in> set rs. col s' r = 2" by blast+
    moreover have "col s' r = 2" using rest(3) r(4) by (simp add: dfs_grows_def)
    ultimately show ?thesis using dfs_grows_trans [OF r(3) rest(3)] by simp
  next
    case False
    with Cons.prems(2,3) have "col s r = 2" unfolding dfs_inv_def
      by (metis One_nat_def empty_iff le_SucE le_zero_eq list.set(1) numeral_2_eq_2)
    with False Cons show ?thesis by (auto simp: dfs_grows_def)
  qed
qed simp

text \<open>The arcs of a closed walk; the search meets every closed walk of a graph over its nodes.\<close>

definition walk_arcs :: "string list \<Rightarrow> (string \<times> string) set" where
  "walk_arcs p = set (zip p (rotate1 p))"

lemma closing_arc: "p \<noteq> [] \<Longrightarrow> (last p, hd p) \<in> walk_arcs p"
proof -
  assume "p \<noteq> []"
  then have "(p ! (length p - 1), rotate1 p ! (length p - 1)) \<in> walk_arcs p" by (auto simp: walk_arcs_def set_zip)
  with \<open>p \<noteq> []\<close> show ?thesis by (simp add: last_conv_nth nth_rotate1 hd_conv_nth)
qed

lemma walk_zip: "walk es (x # xs) \<longleftrightarrow> set (zip (x # xs) xs) \<subseteq> arcs es"
  by (induction xs arbitrary: x) (auto simp: walk_def)

lemma walk_arcs_Cons: "walk_arcs (x # xs) = insert (last (x # xs), x) (set (zip (x # xs) xs))"
proof -
  have "zip (x # xs) (xs @ [y]) = zip (x # xs) xs @ [(last (x # xs), y)]" for y
    by (induction xs arbitrary: x) auto
  then show ?thesis by (simp add: walk_arcs_def)
qed

lemma closed_walk_arcs: "closed_walk es p \<longleftrightarrow> p \<noteq> [] \<and> walk_arcs p \<subseteq> arcs es"
proof (cases p)
  case (Cons x xs)
  show ?thesis unfolding Cons closed_walk_def walk_arcs_Cons walk_zip by auto
qed (simp add: closed_walk_def)

lemma zip_path: "set (zip (x # xs) xs) \<subseteq> r \<Longrightarrow> (x, last (x # xs)) \<in> r\<^sup>*"
  by (induction xs arbitrary: x) (auto intro: converse_rtrancl_into_rtrancl)

lemma walk_arcs_cycle: "p \<noteq> [] \<Longrightarrow> walk_arcs p \<subseteq> r \<Longrightarrow> \<not> acyclic r"
proof (cases p)
  case (Cons x xs)
  assume "walk_arcs p \<subseteq> r"
  then have "(x, last (x # xs)) \<in> r\<^sup>*" "(last (x # xs), x) \<in> r" using zip_path [of x xs r] by (auto simp: Cons walk_arcs_Cons)
  then have "(x, x) \<in> r\<^sup>+" by (rule rtrancl_into_trancl1)
  then show ?thesis by (auto simp: acyclic_def)
qed simp

lemma cycle_walk:
  assumes "\<not> acyclic (arcs es)"
  shows "\<exists>p. closed_walk es p"
proof -
  from assms obtain x where "(x, x) \<in> (arcs es)\<^sup>+" by (auto simp: acyclic_def)
  then obtain y where y: "(x, y) \<in> (arcs es)\<^sup>*" "(y, x) \<in> arcs es" by (blast dest: tranclD2)
  from y(1) have "\<exists>xs. set (zip (x # xs) xs) \<subseteq> arcs es \<and> last (x # xs) = y"
  proof (induction rule: rtrancl_induct)
    case base
    show ?case by (rule exI [of _ "[]"]) simp
  next
    case (step y z)
    then obtain xs where xs: "walk es (x # xs)" "last (x # xs) = y" by (auto simp: walk_zip)
    with step(2) have "walk es (x # (xs @ [z]))" using walk_snoc [of es "x # xs" z] by simp
    then show ?case by (intro exI [of _ "xs @ [z]"]) (simp add: walk_zip)
  qed
  then obtain xs where "walk es (x # xs)" "last (x # xs) = y" by (auto simp: walk_zip)
  with y(2) show ?thesis by (intro exI [of _ "x # xs"]) (simp add: closed_walk_def)
qed

lemma findCycles_meets:
  assumes "e_source ` set es \<subseteq> n_id ` set ns" "closed_walk es p"
  shows "\<exists>q \<in> set (findCycles ns es). walk_arcs p \<inter> walk_arcs q \<noteq> {}"
proof -
  obtain s where s: "dfs_run ns es = Some s" using findCycles_total by blast
  have "dfs_inv es dfs_init" by (simp add: dfs_inv_def dfs_init_def done_arcs_def acyclic_def)
  with visit_roots_inv [of "dfs_fuel ns es" es "map n_id ns" dfs_init s] s
  have inv: "dfs_inv es s" and black: "\<forall>i \<in> n_id ` set ns. col s i = 2" by (auto simp: dfs_run_def dfs_init_def)
  have "col s x = 2" if "(x, y) \<in> arcs es" for x y using that assms(1) black by (auto simp: arcs_def)
  then have "done_arcs es s = arcs es - back_arcs s" by (auto simp: done_arcs_def)
  then have "acyclic (arcs es - back_arcs s)" using inv by (simp add: dfs_inv_def)
  then have "\<not> walk_arcs p \<subseteq> arcs es - back_arcs s" using walk_arcs_cycle assms(2) by (auto simp: closed_walk_arcs)
  then obtain a where a: "a \<in> walk_arcs p" "a \<in> back_arcs s" using assms(2) by (auto simp: closed_walk_arcs)
  then obtain q where q: "q \<in> set (findCycles ns es)" "a = (last q, hd q)" by (auto simp: back_arcs_def findCycles_def s)
  then have "q \<noteq> []" using findCycles_sound by (auto simp: closed_walk_def)
  with closing_arc [of q] a(1) q show ?thesis by blast
qed

subsection \<open>Validation\<close>

datatype issue_kind =
    NoStart
  | ManyStarts nat
  | NoEnd
  | BadSource string
  | BadTarget string
  | NoAssignment string
  | Unreachable string
  | EndlessLoop "string list"

record issue =
  i_error :: bool
  i_node :: "string option"
  i_kind :: issue_kind

definition mk_error :: "string option \<Rightarrow> issue_kind \<Rightarrow> issue" where
  "mk_error n k = \<lparr>i_error = True, i_node = n, i_kind = k\<rparr>"

definition mk_warning :: "string option \<Rightarrow> issue_kind \<Rightarrow> issue" where
  "mk_warning n k = \<lparr>i_error = False, i_node = n, i_kind = k\<rparr>"

definition starts_of :: "wdef \<Rightarrow> wnode list" where
  "starts_of d = filter (\<lambda>n. n_type n = NStart) (d_nodes d)"

definition ends_of :: "wdef \<Rightarrow> wnode list" where
  "ends_of d = filter (\<lambda>n. n_type n = NEnd) (d_nodes d)"

definition edge_issues :: "wnode list \<Rightarrow> wedge \<Rightarrow> issue list" where
  "edge_issues ns e =
     (if by_id ns (e_source e) = None then [mk_error (Some (e_source e)) (BadSource (e_id e))] else []) @
     (if by_id ns (e_target e) = None then [mk_error (Some (e_target e)) (BadTarget (e_id e))] else [])"

definition assignment_issues :: "wnode \<Rightarrow> issue list" where
  "assignment_issues n =
     (if n_type n = NApproval \<and> \<not> truthy (get_prop (n_config n) ''assignment'')
      then [mk_error (Some (n_id n)) (NoAssignment (n_name n))] else [])"

definition has_condition :: "wnode list \<Rightarrow> string list \<Rightarrow> bool" where
  "has_condition ns p =
     list_ex (\<lambda>i. case by_id ns i of None \<Rightarrow> False | Some n \<Rightarrow> n_type n = NCondition) p"

definition loop_issues :: "wnode list \<Rightarrow> wedge list \<Rightarrow> issue list" where
  "loop_issues ns es =
     map (\<lambda>p. mk_error (Some (hd p)) (EndlessLoop p))
       (filter (\<lambda>p. \<not> has_condition ns p) (findCycles ns es))"

definition reach_issues :: "wnode list \<Rightarrow> wedge list \<Rightarrow> string \<Rightarrow> issue list" where
  "reach_issues ns es start =
     (let seen = reach_from es [start] [] in
      map (\<lambda>n. mk_warning (Some (n_id n)) (Unreachable (n_name n)))
        (filter (\<lambda>n. n_id n \<notin> set seen) ns))"

definition validate :: "wdef \<Rightarrow> issue list" where
  "validate d =
     (let ns = d_nodes d; es = d_edges d; starts = starts_of d in
      (if starts = [] then [mk_error None NoStart] else []) @
      (if length starts > 1 then [mk_error None (ManyStarts (length starts))] else []) @
      (if ends_of d = [] then [mk_error None NoEnd] else []) @
      concat (map (edge_issues ns) es) @
      concat (map assignment_issues ns) @
      (case starts of
         [st] \<Rightarrow> reach_issues ns es (n_id st) @ loop_issues ns es
       | _ \<Rightarrow> []))"

definition errors_of :: "wdef \<Rightarrow> issue list" where
  "errors_of d = filter i_error (validate d)"

subsection \<open>What a clean validation means\<close>

text \<open>The structure a definition must have to be published without an error.\<close>

definition well_formed :: "wdef \<Rightarrow> bool" where
  "well_formed d =
     (length (starts_of d) = 1 \<and> ends_of d \<noteq> [] \<and>
      (\<forall>e \<in> set (d_edges d). e_source e \<in> n_id ` set (d_nodes d) \<and> e_target e \<in> n_id ` set (d_nodes d)) \<and>
      (\<forall>n \<in> set (d_nodes d). n_type n = NApproval \<longrightarrow> truthy (get_prop (n_config n) ''assignment'')))"

lemma filter_error_simps [simp]:
  "filter i_error (map (\<lambda>n. mk_warning (f n) (g n)) xs) = []"
  "filter i_error (map (\<lambda>n. mk_error (f n) (g n)) xs) = map (\<lambda>n. mk_error (f n) (g n)) xs"
  by (simp_all add: filter_empty_conv filter_id_conv mk_warning_def mk_error_def)

lemma edge_issues_errors: "filter i_error (edge_issues ns e) = edge_issues ns e"
  by (simp add: edge_issues_def mk_error_def)

lemma assignment_issues_errors: "filter i_error (assignment_issues n) = assignment_issues n"
  by (simp add: assignment_issues_def mk_error_def)

lemma errors_of_eq:
  "errors_of d =
     (if starts_of d = [] then [mk_error None NoStart] else []) @
     (if length (starts_of d) > 1 then [mk_error None (ManyStarts (length (starts_of d)))] else []) @
     (if ends_of d = [] then [mk_error None NoEnd] else []) @
     concat (map (edge_issues (d_nodes d)) (d_edges d)) @
     concat (map assignment_issues (d_nodes d)) @
     (if length (starts_of d) = 1 then loop_issues (d_nodes d) (d_edges d) else [])"
  by (auto simp: errors_of_def validate_def Let_def filter_concat edge_issues_errors comp_def
      assignment_issues_errors reach_issues_def loop_issues_def mk_error_def split: list.splits)

lemma errors_of_Nil:
  "errors_of d = [] \<longleftrightarrow> well_formed d \<and> (\<forall>p \<in> set (findCycles (d_nodes d) (d_edges d)). has_condition (d_nodes d) p)"
proof -
  have "edge_issues ns e = [] \<longleftrightarrow> e_source e \<in> n_id ` set ns \<and> e_target e \<in> n_id ` set ns" for ns e
    by (auto simp: edge_issues_def by_id_None_iff)
  moreover have "assignment_issues n = [] \<longleftrightarrow>
      (n_type n = NApproval \<longrightarrow> truthy (get_prop (n_config n) ''assignment''))" for n
    by (simp add: assignment_issues_def)
  ultimately show ?thesis
    by (cases "starts_of d"; cases "tl (starts_of d)")
      (auto simp: errors_of_eq well_formed_def loop_issues_def filter_empty_conv)
qed

lemma clean_meets:
  assumes "errors_of d = []" "closed_walk (d_edges d) p"
  shows "\<exists>q. closed_walk (d_edges d) q \<and> has_condition (d_nodes d) q \<and> walk_arcs p \<inter> walk_arcs q \<noteq> {}"
proof -
  from assms(1) have ok: "well_formed d" "\<forall>p \<in> set (findCycles (d_nodes d) (d_edges d)). has_condition (d_nodes d) p"
    by (simp_all add: errors_of_Nil)
  have "e_source ` set (d_edges d) \<subseteq> n_id ` set (d_nodes d)" using ok(1) by (auto simp: well_formed_def)
  from findCycles_meets [OF this assms(2)] ok(2) findCycles_sound show ?thesis by blast
qed

text \<open>
  C33. What \<open>validate\<close> decides: a definition with no error has one start node, some end node, edges that
  join existing nodes and approvals that have an assignment, and every closed walk of its graph runs
  over an edge of a closed walk that passes through a condition node; a definition with that shape in
  which every closed walk itself passes through a condition node has no error. For definitions
  without condition nodes the test is exact: no error if and only if that shape and no cycle.
\<close>
theorem validate_exact:
  "(errors_of d = [] \<longrightarrow> well_formed d \<and>
      (\<forall>p. closed_walk (d_edges d) p \<longrightarrow>
        (\<exists>q. closed_walk (d_edges d) q \<and> has_condition (d_nodes d) q \<and> walk_arcs p \<inter> walk_arcs q \<noteq> {}))) \<and>
   (well_formed d \<and> (\<forall>p. closed_walk (d_edges d) p \<longrightarrow> has_condition (d_nodes d) p) \<longrightarrow> errors_of d = []) \<and>
   ((\<forall>n \<in> set (d_nodes d). n_type n \<noteq> NCondition) \<longrightarrow> (errors_of d = [] \<longleftrightarrow> well_formed d \<and> acyclic (arcs (d_edges d))))"
proof (intro conjI impI allI)
  assume "errors_of d = []"
  then show "well_formed d" by (simp add: errors_of_Nil)
next
  fix p assume "errors_of d = []" "closed_walk (d_edges d) p"
  then show "\<exists>q. closed_walk (d_edges d) q \<and> has_condition (d_nodes d) q \<and> walk_arcs p \<inter> walk_arcs q \<noteq> {}" by (rule clean_meets)
next
  assume "well_formed d \<and> (\<forall>p. closed_walk (d_edges d) p \<longrightarrow> has_condition (d_nodes d) p)"
  then show "errors_of d = []" using findCycles_sound by (auto simp: errors_of_Nil)
next
  assume plain: "\<forall>n \<in> set (d_nodes d). n_type n \<noteq> NCondition"
  have no: "\<not> has_condition (d_nodes d) p" for p
    using plain by (auto simp: has_condition_def list_ex_iff by_id_def dest!: tfind_SomeD split: option.splits)
  have "\<not> closed_walk (d_edges d) p" if "acyclic (arcs (d_edges d))" for p
    using walk_arcs_cycle that by (auto simp: closed_walk_arcs)
  note walks = this
  show "errors_of d = [] \<longleftrightarrow> well_formed d \<and> acyclic (arcs (d_edges d))"
  proof
    assume clean: "errors_of d = []"
    with clean_meets [of d] no cycle_walk [of "d_edges d"] show "well_formed d \<and> acyclic (arcs (d_edges d))" by (auto simp: errors_of_Nil)
  next
    assume "well_formed d \<and> acyclic (arcs (d_edges d))"
    with walks findCycles_sound show "errors_of d = []" unfolding errors_of_Nil by blast
  qed
qed

text \<open>
  The reachability warnings are exact: with one start node, a node is reported as dangling
  precisely when no path of edges leads from the start to it.
\<close>
theorem validate_unreachable:
  assumes "starts_of d = [st]" "n \<in> set (d_nodes d)"
  shows "mk_warning (Some (n_id n)) (Unreachable (n_name n)) \<in> set (validate d) \<longleftrightarrow>
     (n_id st, n_id n) \<notin> (arcs (d_edges d))\<^sup>*"
  using assms
  by (auto simp: validate_def reach_issues_def loop_issues_def edge_issues_def assignment_issues_def
      reach_from_eq mk_warning_def mk_error_def Let_def image_iff simp del: reach_from.simps split: if_splits)

text \<open>
  A reported endless loop is real: its nodes form a closed walk of the graph, and no
  condition node lies on it.
\<close>
theorem validate_loop_sound:
  assumes "mk_error a (EndlessLoop p) \<in> set (validate d)"
  shows "closed_walk (d_edges d) p \<and> \<not> has_condition (d_nodes d) p \<and> a = Some (hd p)"
  using assms findCycles_sound
  by (auto simp: validate_def reach_issues_def loop_issues_def edge_issues_def assignment_issues_def
      mk_warning_def mk_error_def Let_def split: if_splits list.splits)

text \<open>
  A definition with a start, a split into a condition branch and a plain branch that both lead
  back to the split, and an end behind the condition: the plain branch is a loop without a
  condition.
\<close>

definition nd :: "string \<Rightarrow> node_type \<Rightarrow> wnode" where
  "nd i t = \<lparr>n_id = i, n_type = t, n_name = i, n_config = JObj []\<rparr>"

definition ed :: "string \<Rightarrow> string \<Rightarrow> wedge" where
  "ed a b = \<lparr>e_id = a @ ''-'' @ b, e_source = a, e_target = b, e_label = None\<rparr>"

definition hidden_loop :: wdef where
  "hidden_loop = \<lparr>d_code = ''W'', d_name = ''W'', d_ownerRoleCode = None,
     d_nodes = [nd ''s'' NStart, nd ''u'' NParallelSplit, nd ''c'' NCondition, nd ''v'' NForm, nd ''e'' NEnd],
     d_edges = [ed ''s'' ''u'', ed ''u'' ''c'', ed ''u'' ''v'', ed ''c'' ''v'', ed ''c'' ''e'', ed ''v'' ''u'']\<rparr>"

text \<open>
  Validation misses loops: a depth-first search sees one cycle per back edge, so the
  definition \<open>hidden_loop\<close> passes with no error although the closed walk u, v goes through no
  condition node.
\<close>
theorem validate_misses_loop:
  "errors_of hidden_loop = [] \<and> closed_walk (d_edges hidden_loop) [''u'', ''v''] \<and>
   \<not> has_condition (d_nodes hidden_loop) [''u'', ''v'']"
proof -
  have "errors_of hidden_loop = []"
    by code_simp
  moreover have "closed_walk (d_edges hidden_loop) [''u'', ''v'']"
    by (simp add: closed_walk_def walk_def arcs_def hidden_loop_def ed_def)
  moreover have "\<not> has_condition (d_nodes hidden_loop) [''u'', ''v'']"
    by (simp add: has_condition_def by_id_def tfind_def hidden_loop_def nd_def)
  ultimately show ?thesis by blast
qed

lemma validate_unreachable_witness:
  "mk_warning (Some ''e'') (Unreachable ''e'') \<in>
     set (validate (hidden_loop\<lparr>d_edges := [ed ''s'' ''u'']\<rparr>)) \<longleftrightarrow>
   (''s'', ''e'') \<notin> (arcs [ed ''s'' ''u''])\<^sup>*"
  using validate_unreachable [of "hidden_loop\<lparr>d_edges := [ed ''s'' ''u'']\<rparr>" "nd ''s'' NStart" "nd ''e'' NEnd"]
  by (simp add: hidden_loop_def nd_def starts_of_def)

definition plain_loop :: wdef where
  "plain_loop = hidden_loop\<lparr>d_edges := [ed ''s'' ''u'', ed ''u'' ''v'', ed ''v'' ''u'']\<rparr>"

definition straight :: wdef where
  "straight = \<lparr>d_code = ''W'', d_name = ''W'', d_ownerRoleCode = None, d_nodes = [nd ''s'' NStart, nd ''v'' NForm, nd ''e'' NEnd],
     d_edges = [ed ''s'' ''v'', ed ''v'' ''e'']\<rparr>"

lemma validate_exact_witness:
  "(\<exists>q. closed_walk (d_edges hidden_loop) q \<and> has_condition (d_nodes hidden_loop) q \<and> walk_arcs [''u'', ''v''] \<inter> walk_arcs q \<noteq> {}) \<and>
   acyclic (arcs (d_edges straight))"
proof -
  have clean: "errors_of hidden_loop = []" "errors_of straight = []" by code_simp+
  have "closed_walk (d_edges hidden_loop) [''u'', ''v'']"
    by (simp add: closed_walk_def walk_def arcs_def hidden_loop_def ed_def)
  moreover have "\<forall>n \<in> set (d_nodes straight). n_type n \<noteq> NCondition" by (simp add: straight_def nd_def)
  ultimately show ?thesis using validate_exact [of hidden_loop] validate_exact [of straight] clean by simp
qed

lemma validate_loop_sound_witness:
  "closed_walk (d_edges plain_loop) [''u'', ''v''] \<and> \<not> has_condition (d_nodes plain_loop) [''u'', ''v''] \<and>
   Some ''u'' = Some (hd [''u'', ''v''])"
proof (rule validate_loop_sound)
  show "mk_error (Some ''u'') (EndlessLoop [''u'', ''v'']) \<in> set (validate plain_loop)"
    by code_simp
qed

end
