(* ===== verification/Connector.thy ===== *)
theory Connector
  imports Workflow_Graph
begin

section \<open>Connectors of service call nodes\<close>

text \<open>
  The connector part of xhub-api/src/xoffice/xoffice.service.ts: the catalog lookup, the
  execution mode of a service call, the data-driven mapping of instance variables to a payload,
  the mock result of office-owned connectors and the references to records of other systems.
  The catalog and the role bindings are the JSON files read at start-up: parameters of the
  model, in the record \<open>cfg\<close>.
\<close>

subsection \<open>The catalog\<close>

record target_field =
  tf_key :: string
  tf_required :: bool

record conn_action =
  ca_code :: string
  ca_name :: string
  ca_eventOnComplete :: "string option"
  ca_targetFields :: "target_field list"

record connector =
  co_code :: string
  co_ownerSystem :: "string option"
  co_actions :: "conn_action list"

record seed_binding =
  sb_tenantSlug :: string
  sb_code :: string
  sb_userEmail :: "string option"
  sb_userId :: "string option"

record cfg =
  connectors :: "connector list"
  roleBindings :: "seed_binding list"

definition findAction :: "cfg \<Rightarrow> string \<Rightarrow> string \<Rightarrow> conn_action option" where
  "findAction c connectorCode actionCode =
     (case tfind (\<lambda>x. co_code x = connectorCode) (connectors c) of
        None \<Rightarrow> None
      | Some co \<Rightarrow> tfind (\<lambda>a. ca_code a = actionCode) (co_actions co))"

text \<open>\<open>resolveAssignee\<close>: the first binding of the role in the tenant, its e-mail or user id.\<close>

definition resolveAssignee :: "cfg \<Rightarrow> string \<Rightarrow> string \<Rightarrow> string option" where
  "resolveAssignee c slug roleCode =
     (case tfind (\<lambda>r. sb_tenantSlug r = slug \<and> sb_code r = roleCode) (roleBindings c) of
        None \<Rightarrow> None
      | Some b \<Rightarrow> coalesce_opt (sb_userEmail b) (sb_userId b))"

subsection \<open>The execution mode\<close>

datatype call_mode = AUTO | MANUAL_TASK | WAITING_FOR_CONNECTOR

definition EXTERNAL_NOT_LIVE :: "string list" where
  "EXTERNAL_NOT_LIVE = [''finerp'', ''frappe-hr'', ''hr'', ''esign'', ''e-sign'']"

definition connector_code :: "json \<Rightarrow> string" where
  "connector_code config = coalesce (str_field config ''connectorCode'') ''''"

definition action_code :: "json \<Rightarrow> string" where
  "action_code config = coalesce (str_field config ''actionCode'') ''''"

definition explicit_mode :: "json \<Rightarrow> call_mode option" where
  "explicit_mode config =
     (let m = str_field config ''executionMode'' in
      if m = Some ''AUTO'' then Some AUTO
      else if m = Some ''MANUAL_TASK'' then Some MANUAL_TASK
      else if m = Some ''WAITING_FOR_CONNECTOR'' then Some WAITING_FOR_CONNECTOR
      else None)"

definition serviceCallMode :: "cfg \<Rightarrow> json \<Rightarrow> call_mode" where
  "serviceCallMode c config =
     (case explicit_mode config of
        Some m \<Rightarrow> m
      | None \<Rightarrow>
          (let co = tfind (\<lambda>x. co_code x = connector_code config) (connectors c);
               owner = to_upper (case co of None \<Rightarrow> '''' | Some x \<Rightarrow> coalesce (co_ownerSystem x) '''') in
           if owner \<noteq> [] \<and> owner \<noteq> ''XOFFICE'' then MANUAL_TASK
           else if to_lower (connector_code config) \<in> set EXTERNAL_NOT_LIVE then MANUAL_TASK
           else AUTO))"

subsection \<open>The mapping resolver\<close>

record mapping =
  m_target :: string
  m_source :: string
  m_required :: bool
  m_transform :: "string option"
  m_constant :: json

definition mapping_of :: "json \<Rightarrow> mapping" where
  "mapping_of j = \<lparr>
     m_target = coalesce (str_field j ''target'') '''',
     m_source = coalesce (str_field j ''source'') '''',
     m_required = (get_prop j ''required'' = JBool True),
     m_transform = str_field j ''transform'',
     m_constant = get_prop j ''constant''\<rparr>"

definition mappings_of :: "json \<Rightarrow> mapping list" where
  "mappings_of config = (case get_prop config ''mappings'' of JArr xs \<Rightarrow> map mapping_of xs | _ \<Rightarrow> [])"

definition blank :: "json \<Rightarrow> bool" where
  "blank v = (v = JNull \<or> v = JUndef \<or> v = JStr '''')"

definition applyTransform :: "string option \<Rightarrow> json \<Rightarrow> json \<Rightarrow> json" where
  "applyTransform transform raw const =
     (if transform = Some ''constant'' then const
      else if transform = Some ''toNumber'' then
        (if blank raw then JUndef
         else case to_num raw of NaN \<Rightarrow> JUndef | Fin r \<Rightarrow> JNum r | PosInf \<Rightarrow> JInf True | NegInf \<Rightarrow> JInf False)
      else if transform = Some ''toString'' then (if nullish raw then JUndef else JStr (to_str raw))
      else if transform = Some ''join'' then
        (case raw of
           JArr xs \<Rightarrow> JStr (join_str '', '' (map (\<lambda>x. if nullish x then [] else to_str x) xs))
         | _ \<Rightarrow> raw)
      else raw)"

definition required_keys :: "cfg \<Rightarrow> json \<Rightarrow> string list" where
  "required_keys c config =
     (case findAction c (connector_code config) (action_code config) of
        None \<Rightarrow> []
      | Some a \<Rightarrow> to_set (map tf_key (filter tf_required (ca_targetFields a))))"

record resolved =
  r_payload :: "(string \<times> json) list"
  r_missing :: "string list"

definition map_step :: "string list \<Rightarrow> json \<Rightarrow> mapping \<Rightarrow> resolved \<Rightarrow> resolved" where
  "map_step req vars m r =
     (let raw = (if m_transform m = Some ''constant'' then JUndef
                 else walk_path vars (split_on CHR ''.'' (m_source m)));
          v = applyTransform (m_transform m) raw (m_constant m);
          r' = (if v \<noteq> JUndef then r\<lparr>r_payload := obj_set (r_payload r) (m_target m) v\<rparr> else r)
      in if (m_required m \<or> m_target m \<in> set req) \<and> blank v
         then r'\<lparr>r_missing := r_missing r' @ [m_target m]\<rparr> else r')"

definition uncovered :: "mapping list \<Rightarrow> string list \<Rightarrow> string list \<Rightarrow> string list" where
  "uncovered ms missing req =
     fold (\<lambda>k acc. if \<not> list_ex (\<lambda>m. m_target m = k) ms \<and> k \<notin> set acc then acc @ [k] else acc)
       req missing"

definition resolveConnectorPayload :: "cfg \<Rightarrow> json \<Rightarrow> json \<Rightarrow> resolved" where
  "resolveConnectorPayload c config vars =
     (let req = required_keys c config; ms = mappings_of config;
          r = fold (map_step req vars) ms \<lparr>r_payload = [], r_missing = []\<rparr>
      in r\<lparr>r_missing := uncovered ms (r_missing r) req\<rparr>)"

subsection \<open>Results and references\<close>

record source_ref =
  sr_tenantId :: string
  sr_sourceSystem :: string
  sr_sourceType :: string
  sr_sourceId :: string
  sr_deepLink :: string

definition sref_json :: "source_ref \<Rightarrow> json" where
  "sref_json r = JObj [(''tenantId'', JStr (sr_tenantId r)), (''sourceSystem'', JStr (sr_sourceSystem r)),
     (''sourceType'', JStr (sr_sourceType r)), (''sourceId'', JStr (sr_sourceId r)),
     (''deepLink'', JStr (sr_deepLink r))]"

definition external_link :: "string \<Rightarrow> string \<Rightarrow> string" where
  "external_link sys i = ''/external/'' @ to_lower sys @ ''/'' @ encodeURIComponent i"

text \<open>\<open>mockConnectorResult\<close>; \<open>u\<close> is the random UUID of which it takes six characters.\<close>

definition mockConnectorResult :: "string \<Rightarrow> string \<Rightarrow> string \<Rightarrow> (string \<times> json) list \<Rightarrow> (string \<times> json) list" where
  "mockConnectorResult u connectorCode actionCode payload =
     (let ref = to_upper (take 6 u);
          room = jcoalesce (get_prop (JObj payload) ''roomCode'') JNull in
      if actionCode = ''check_availability'' then
        [(''available'', JBool True), (''roomCode'', room), (''conflicts'', JArr [])]
      else if actionCode = ''create_reservation'' then
        [(''reservationId'', JStr (''RES-'' @ ref)), (''roomCode'', room), (''calendarSynced'', JBool True)]
      else
        [(''ok'', JBool True), (''connectorCode'', JStr connectorCode), (''actionCode'', JStr actionCode),
         (''ref'', JStr (''CMD-'' @ ref))])"

text \<open>\<open>buildManualSourceRef\<close>: the identifier is the reference code a person entered.\<close>

definition buildManualSourceRef ::
  "cfg \<Rightarrow> string \<Rightarrow> string \<Rightarrow> string \<Rightarrow> string \<Rightarrow> string option \<Rightarrow> source_ref" where
  "buildManualSourceRef c tenantId connectorCode actionCode referenceCode referenceSystem =
     (let given = trim (coalesce referenceSystem '''');
          sys = (if given \<noteq> [] then given
                 else if connectorCode = ''finerp'' then ''FINERP''
                 else if connectorCode = ''frappe-hr'' \<or> connectorCode = ''hr'' then ''FRAPPE_HR''
                 else to_upper connectorCode);
          ty = (if actionCode = ''create_material_request'' then ''Material Request''
                else case findAction c connectorCode actionCode of
                       None \<Rightarrow> actionCode | Some a \<Rightarrow> ca_name a)
      in \<lparr>sr_tenantId = tenantId, sr_sourceSystem = sys, sr_sourceType = ty,
          sr_sourceId = referenceCode, sr_deepLink = external_link sys referenceCode\<rparr>)"

text \<open>\<open>buildSourceRef\<close>: the reference to what an automatic connector returned.\<close>

definition buildSourceRef ::
  "string \<Rightarrow> string \<Rightarrow> string \<Rightarrow> (string \<times> json) list \<Rightarrow> source_ref" where
  "buildSourceRef tenantId connectorCode actionCode result =
     (let sys = (if connectorCode = ''finerp'' then ''FINERP''
                 else if connectorCode = ''xbooking'' then ''XBOOKING''
                 else to_upper connectorCode);
          field = (\<lambda>k. get_prop (JObj result) k);
          sid = to_str (jcoalesce (field ''ref'') (JStr (connectorCode @ ''-'' @ actionCode)));
          pick = (\<lambda>k. to_str (jcoalesce (field k) (JStr sid)));
          (ty, i) =
            (if actionCode = ''create_material_request'' then (''Material Request'', pick ''materialRequestId'')
             else if actionCode = ''create_reservation'' then (''Reservation'', pick ''reservationId'')
             else if actionCode = ''check_availability'' then (''Availability Check'', pick ''roomCode'')
             else (actionCode, sid))
      in \<lparr>sr_tenantId = tenantId, sr_sourceSystem = sys, sr_sourceType = ty,
          sr_sourceId = i, sr_deepLink = external_link sys i\<rparr>)"

subsection \<open>Lemmas\<close>

lemma set_uncovered:
  "set (uncovered ms missing req) =
     set missing \<union> {k \<in> set req. \<not> list_ex (\<lambda>m. m_target m = k) ms}"
  by (induction req arbitrary: missing) (auto simp: uncovered_def)

text \<open>
  After the mappings, a required target that some mapping names is either listed as missing or
  has a value in the payload; the invariant is over the mappings already taken.
\<close>

definition filled :: "resolved \<Rightarrow> string \<Rightarrow> bool" where
  "filled r k = (\<exists>v. map_of (r_payload r) k = Some v \<and> \<not> blank v)"

lemma map_step_missing: "set (r_missing r) \<subseteq> set (r_missing (map_step req vars m r))"
  by (auto simp: map_step_def Let_def)

lemma map_step_filled:
  assumes "k \<in> set req" "k \<notin> set (r_missing (map_step req vars m r))" "filled r k \<or> m_target m = k"
  shows "filled (map_step req vars m r) k"
  using assms
  by (auto simp: map_step_def filled_def map_of_obj_set blank_def Let_def split: if_splits)

lemma fold_map_step_missing: "set (r_missing r) \<subseteq> set (r_missing (fold (map_step req vars) ms r))"
  by (induction ms arbitrary: r) (auto dest: subsetD [OF map_step_missing])

lemma fold_map_step_filled:
  assumes "k \<in> set req" "k \<notin> set (r_missing (fold (map_step req vars) ms r))"
    "filled r k \<or> k \<in> m_target ` set ms"
  shows "filled (fold (map_step req vars) ms r) k"
  using assms(2,3)
proof (induction ms arbitrary: r)
  case (Cons m ms)
  have "k \<notin> set (r_missing (map_step req vars m r))"
    using Cons.prems(1) fold_map_step_missing by fastforce
  with Cons assms(1) map_step_filled [OF assms(1)] show ?case by auto
qed simp

subsection \<open>Properties\<close>

text \<open>
  A payload reported complete is complete: when no required field is listed as missing,
  every target field the catalog requires of the action has a value in the payload that is
  neither null nor the empty string.
\<close>
theorem payload_complete:
  assumes "r_missing (resolveConnectorPayload c config vars) = []" "k \<in> set (required_keys c config)"
  shows "\<exists>v. map_of (r_payload (resolveConnectorPayload c config vars)) k = Some v \<and> \<not> blank v"
proof -
  let ?r = "fold (map_step (required_keys c config) vars) (mappings_of config) \<lparr>r_payload = [], r_missing = []\<rparr>"
  have "set (uncovered (mappings_of config) (r_missing ?r) (required_keys c config)) = {}"
    using assms(1) by (simp add: resolveConnectorPayload_def Let_def)
  with assms(2) have "r_missing ?r = []" "k \<in> m_target ` set (mappings_of config)"
    by (auto simp: set_uncovered list_ex_iff)
  with fold_map_step_filled [OF assms(2)] have "filled ?r k" by simp
  then show ?thesis by (simp add: filled_def resolveConnectorPayload_def Let_def)
qed

text \<open>
  A connector of a system that is not live is never executed automatically unless the node
  says so: without an explicit mode, a code of the not-live list and any connector owned by
  another system are manual tasks.
\<close>
theorem external_is_manual:
  assumes "explicit_mode config = None"
    and "to_lower (connector_code config) \<in> set EXTERNAL_NOT_LIVE \<or>
      (\<exists>x own. tfind (\<lambda>x. co_code x = connector_code config) (connectors c) = Some x \<and>
        co_ownerSystem x = Some own \<and> own \<noteq> [] \<and> to_upper own \<noteq> ''XOFFICE'')"
  shows "serviceCallMode c config = MANUAL_TASK"
  using assms by (auto simp: serviceCallMode_def Let_def to_upper_def)

definition demo_cfg :: cfg where
  "demo_cfg = \<lparr>connectors = [\<lparr>co_code = ''finerp'', co_ownerSystem = Some ''FINERP'', co_actions =
       [\<lparr>ca_code = ''create_material_request'', ca_name = ''MR'', ca_eventOnComplete = None,
         ca_targetFields = [\<lparr>tf_key = ''amount'', tf_required = True\<rparr>]\<rparr>]\<rparr>],
     roleBindings = [\<lparr>sb_tenantSlug = ''xtech'', sb_code = ''ROLE_MANAGER'', sb_userEmail = Some ''m@x'',
       sb_userId = None\<rparr>]\<rparr>"

definition demo_call :: json where
  "demo_call = JObj [(''connectorCode'', JStr ''finerp''), (''actionCode'', JStr ''create_material_request''),
     (''mappings'', JArr [JObj [(''target'', JStr ''amount''), (''source'', JStr ''request.amount''),
        (''transform'', JStr ''toNumber'')]])]"

lemma payload_complete_witness:
  "\<exists>v. map_of (r_payload (resolveConnectorPayload demo_cfg demo_call
      (JObj [(''request'', JObj [(''amount'', JStr ''12'')])]))) ''amount'' = Some v \<and> \<not> blank v"
proof (rule payload_complete)
  show "r_missing (resolveConnectorPayload demo_cfg demo_call
      (JObj [(''request'', JObj [(''amount'', JStr ''12'')])])) = []"
    by code_simp
  show "''amount'' \<in> set (required_keys demo_cfg demo_call)"
    by code_simp
qed

lemma external_is_manual_witness: "serviceCallMode demo_cfg demo_call = MANUAL_TASK"
  by (rule external_is_manual, code_simp, rule disjI1, code_simp)

end
