(* ===== verification/Identity.thy ===== *)
theory Identity
  imports Json
begin

section \<open>Identity and organisation: permissions\<close>

text \<open>
  xhub-api/src/identity: the wildcard match of permission-match.ts and, from
  identity.service.ts, the person lookups, the roles a person holds, the effective permissions
  and the decision \<open>can\<close>. The state \<open>idb\<close> holds the rows that row level security lets the
  transaction see (one tenant), so the queries of this service, which name no tenant, range
  over exactly these lists. The organisation chart, role bindings, delegations and holder
  history that the same service maintains are in \<open>Org_Chart\<close> and \<open>Delegations\<close>.
\<close>

subsection \<open>Tables\<close>

record orgUnit =
  ou_id :: string
  ou_code :: string
  ou_name :: string
  ou_type :: string
  ou_parent :: "string option"

record person =
  p_id :: string
  p_fullName :: string
  p_email :: "string option"
  p_ext :: json

record position =
  po_id :: string
  po_code :: string
  po_title :: string
  po_orgUnit :: string
  po_holder :: "string option"
  po_reportsTo :: "string option"
  po_isHead :: bool

record org_group =
  g_id :: string
  g_members :: "string list"

record role_binding =
  rb_id :: string
  rb_subjectType :: string
  rb_subjectId :: string
  rb_roleCode :: string
  rb_scope :: json
  rb_from :: "int option"
  rb_to :: "int option"

record perm_policy =
  pp_roleCode :: string
  pp_permissions :: "string list"
  pp_condition :: json

record data_scope =
  ds_subjectType :: string
  ds_subjectId :: string
  ds_scope :: json

record delegation =
  dl_id :: string
  dl_tenant :: string
  dl_from :: string
  dl_to :: string
  dl_fromAt :: int
  dl_toAt :: int
  dl_reason :: "string option"

record pos_assignment =
  pa_id :: string
  pa_position :: string
  pa_person :: string
  pa_kind :: string
  pa_from :: int
  pa_to :: "int option"

text \<open>An audit row; its free-text detail is not modelled (the code never reads it).\<close>

record audit_row =
  au_tenant :: string
  au_code :: string
  au_actor :: string
  au_action :: string

record idb =
  orgUnits :: "orgUnit list"
  people :: "person list"
  positions :: "position list"
  groups :: "org_group list"
  bindings :: "role_binding list"
  policies :: "perm_policy list"
  scopes :: "data_scope list"
  delegations :: "delegation list"
  assignments :: "pos_assignment list"
  id_audit :: "audit_row list"
  id_seq :: nat

definition mk_audit :: "string \<Rightarrow> string \<Rightarrow> string \<Rightarrow> string \<Rightarrow> audit_row" where
  "mk_audit tenant actor code action =
     \<lparr>au_tenant = tenant, au_code = code, au_actor = actor, au_action = action\<rparr>"

text \<open>The service's \<open>audit\<close>: an empty actor is recorded as \<open>system\<close>.\<close>

definition add_audit :: "string \<Rightarrow> string \<Rightarrow> string \<Rightarrow> string \<Rightarrow> idb \<Rightarrow> idb" where
  "add_audit tenant actor code action s =
     s\<lparr>id_audit := id_audit s @ [mk_audit tenant (if actor = [] then ''system'' else actor) code action]\<rparr>"

text \<open>The identifier the database gives to the next new row.\<close>

definition fresh_id :: "env \<Rightarrow> idb \<Rightarrow> string" where
  "fresh_id v s = cuid v (id_seq s)"

subsection \<open>Wildcard permissions\<close>

definition grant_matches :: "string \<Rightarrow> string \<Rightarrow> bool" where
  "grant_matches g requested =
     (if g = ''*'' then True
      else if g = requested then True
      else if ends_with ''.*'' g then
        (let prefix = take (length g - 2) g in
         requested = prefix \<or> starts_with (prefix @ ''.'') requested)
      else False)"

definition permissionMatches :: "string list \<Rightarrow> string \<Rightarrow> bool" where
  "permissionMatches granted requested =
     (requested \<noteq> [] \<and> list_ex (\<lambda>g. grant_matches g requested) granted)"

lemma grant_matches_iff:
  "grant_matches g r \<longleftrightarrow>
     g = ''*'' \<or> g = r \<or> (\<exists>p. g = p @ ''.*'' \<and> (r = p \<or> (\<exists>t. r = p @ ''.'' @ t)))"
proof -
  have "(\<exists>p. g = p @ ''.*'' \<and> P p) \<longleftrightarrow> ends_with ''.*'' g \<and> P (take (length g - 2) g)" for P
    by (auto simp: ends_with_iff)
  then show ?thesis by (auto simp: grant_matches_def Let_def starts_with_iff)
qed

subsection \<open>Persons and roles\<close>

definition person_by_id :: "idb \<Rightarrow> string \<Rightarrow> person option" where
  "person_by_id s i = tfind (\<lambda>p. p_id p = i) (people s)"

text \<open>\<open>personForUserId\<close>: by the external user id, else by the person id itself.\<close>

definition personForUserId :: "idb \<Rightarrow> string \<Rightarrow> person option" where
  "personForUserId s userId =
     coalesce_opt (tfind (\<lambda>p. truthy (p_ext p) \<and> get_prop (p_ext p) ''userId'' = JStr userId) (people s))
       (tfind (\<lambda>p. p_id p = userId) (people s))"

definition userIdForPerson :: "idb \<Rightarrow> string \<Rightarrow> string option" where
  "userIdForPerson s personId =
     (case person_by_id s personId of
        None \<Rightarrow> None
      | Some p \<Rightarrow>
          Some (coalesce (coalesce_opt (str_field (p_ext p) ''userId'') (p_email p)) (p_id p)))"

text \<open>\<open>roleCodesForPerson\<close>: direct bindings, those of positions held and of groups.\<close>

definition binding_applies :: "idb \<Rightarrow> string \<Rightarrow> role_binding \<Rightarrow> bool" where
  "binding_applies s personId b =
     (if rb_subjectType b = ''USER'' \<and> rb_subjectId b = personId then True
      else if rb_subjectType b = ''POSITION'' \<and>
        list_ex (\<lambda>p. po_holder p = Some personId \<and> po_id p = rb_subjectId b) (positions s) then True
      else rb_subjectType b = ''GROUP'' \<and>
        list_ex (\<lambda>g. personId \<in> set (g_members g) \<and> g_id g = rb_subjectId b) (groups s))"

definition roleCodesForPerson :: "idb \<Rightarrow> string \<Rightarrow> role_binding list" where
  "roleCodesForPerson s personId = filter (binding_applies s personId) (bindings s)"

subsection \<open>Effective permissions and the decision\<close>

record effective =
  ef_personId :: "string option"
  ef_roles :: "string list"
  ef_permissions :: "string list"
  ef_conditions :: "(string \<times> json) list"
  ef_scopes :: "json list"

definition role_policies :: "idb \<Rightarrow> string list \<Rightarrow> perm_policy list" where
  "role_policies s roles =
     filter (\<lambda>p. pp_roleCode p \<in> set (if roles = [] then [''__none__''] else roles)) (policies s)"

definition policy_conditions :: "perm_policy list \<Rightarrow> (string \<times> json) list" where
  "policy_conditions ps =
     fold (\<lambda>p c. if truthy (pp_condition p) then obj_set c (pp_roleCode p) (pp_condition p) else c) ps []"

definition effectivePermissions :: "idb \<Rightarrow> string \<Rightarrow> effective" where
  "effectivePermissions s userId =
     (case personForUserId s userId of
        None \<Rightarrow> \<lparr>ef_personId = None, ef_roles = [], ef_permissions = [], ef_conditions = [], ef_scopes = []\<rparr>
      | Some p \<Rightarrow>
          (let roles = to_set (map rb_roleCode (roleCodesForPerson s (p_id p)));
               ps = role_policies s roles;
               held = map po_id (filter (\<lambda>q. po_holder q = Some (p_id p)) (positions s));
               ds = filter (\<lambda>d. ds_subjectType d = ''POSITION'' \<and>
                      ds_subjectId d \<in> set (if held = [] then [''__none__''] else held)) (scopes s)
           in \<lparr>ef_personId = Some (p_id p), ef_roles = roles,
               ef_permissions = to_set (concat (map pp_permissions ps)),
               ef_conditions = policy_conditions ps,
               ef_scopes = map ds_scope ds\<rparr>))"

definition ceilings :: "(string \<times> json) list \<Rightarrow> rat list" where
  "ceilings cs =
     List.map_filter (\<lambda>(_, c). case get_prop c ''maxAmount'' of JNum m \<Rightarrow> Some m | _ \<Rightarrow> None) cs"

datatype decision = Granted | DeniedRbac | DeniedCeiling

definition can :: "idb \<Rightarrow> string \<Rightarrow> string \<Rightarrow> rat option \<Rightarrow> decision" where
  "can s actorUserId permission amount =
     (let eff = effectivePermissions s actorUserId in
      if \<not> permissionMatches (ef_permissions eff) permission then DeniedRbac
      else case amount of
        None \<Rightarrow> Granted
      | Some a \<Rightarrow>
          (let cs = ceilings (ef_conditions eff) in
           if cs \<noteq> [] \<and> \<not> list_ex (\<lambda>c. a \<le> c) cs then DeniedCeiling else Granted))"

subsection \<open>Properties\<close>

text \<open>
  The wildcard match is exactly: some grant is \<open>*\<close>, equals the request, or is a pattern
  \<open>p.*\<close> whose prefix \<open>p\<close> is the request itself or ends in it at a dot. So \<open>tenant.*\<close> never
  grants \<open>tenants.x\<close>, and more grants never take a permission away.
\<close>
theorem permission_match_exact:
  "permissionMatches granted r \<longleftrightarrow> r \<noteq> [] \<and>
     (\<exists>g \<in> set granted. g = ''*'' \<or> g = r \<or>
        (\<exists>p. g = p @ ''.*'' \<and> (r = p \<or> (\<exists>t. r = p @ ''.'' @ t))))"
  by (simp add: permissionMatches_def list_ex_iff grant_matches_iff)

text \<open>
  A permission is granted only through a role the person holds: there is a policy row of a
  role bound to the person (directly, through a position held or a group) whose permissions
  contain a matching grant; and when an amount is given and the policies carry approval
  ceilings, some ceiling of the person's own policies reaches it. A user with no person
  profile is granted nothing. The hypothesis excludes the sentinel the query uses for
  \<open>no role\<close> as a role code.
\<close>
theorem can_needs_role:
  assumes "can s u perm amount = Granted"
    and "\<forall>pol \<in> set (policies s). pp_roleCode pol \<noteq> ''__none__''"
  shows "\<exists>p b pol g. personForUserId s u = Some p \<and> b \<in> set (bindings s) \<and>
     binding_applies s (p_id p) b \<and> pol \<in> set (policies s) \<and> pp_roleCode pol = rb_roleCode b \<and>
     g \<in> set (pp_permissions pol) \<and> grant_matches g perm \<and>
     (\<forall>a. amount = Some a \<longrightarrow> ceilings (ef_conditions (effectivePermissions s u)) = [] \<or>
        (\<exists>c \<in> set (ceilings (ef_conditions (effectivePermissions s u))). a \<le> c))"
proof -
  from assms(1) have m: "permissionMatches (ef_permissions (effectivePermissions s u)) perm"
    by (auto simp: can_def Let_def split: if_splits)
  from assms(1) have c: "amount = Some a \<Longrightarrow> ceilings (ef_conditions (effectivePermissions s u)) = [] \<or>
      (\<exists>c \<in> set (ceilings (ef_conditions (effectivePermissions s u))). a \<le> c)" for a
    by (auto simp: can_def Let_def list_ex_iff split: if_splits)
  from m obtain p where p: "personForUserId s u = Some p"
    by (cases "personForUserId s u") (auto simp: effectivePermissions_def permissionMatches_def)
  let ?roles = "to_set (map rb_roleCode (roleCodesForPerson s (p_id p)))"
  from m p obtain g pol where g: "g \<in> set (pp_permissions pol)" "grant_matches g perm"
      "pol \<in> set (role_policies s ?roles)"
    by (auto simp: effectivePermissions_def Let_def permissionMatches_def list_ex_iff)
  have "?roles \<noteq> []" using g(3) assms(2) by (auto simp: role_policies_def)
  with g obtain b where "b \<in> set (bindings s)" "binding_applies s (p_id p) b"
      "pp_roleCode pol = rb_roleCode b" "pol \<in> set (policies s)"
    by (auto simp: role_policies_def roleCodesForPerson_def)
  with g p c show ?thesis by blast
qed

text \<open>
  A role binding outside its effective window still confers its permissions: the decision
  reads neither \<open>effectiveFrom\<close> nor \<open>effectiveTo\<close>, although \<open>createRoleBinding\<close> stores both.
\<close>
theorem can_ignores_window:
  "can (s\<lparr>bindings := map (\<lambda>b. b\<lparr>rb_from := f b, rb_to := t b\<rparr>) (bindings s)\<rparr>) u perm amount = can s u perm amount"
proof -
  let ?s = "s\<lparr>bindings := map (\<lambda>b. b\<lparr>rb_from := f b, rb_to := t b\<rparr>) (bindings s)\<rparr>"
  have b: "binding_applies ?s p (x\<lparr>rb_from := g, rb_to := h\<rparr>) = binding_applies s p x" for p x g h
    by (simp add: binding_applies_def)
  have r: "map rb_roleCode (roleCodesForPerson ?s p) = map rb_roleCode (roleCodesForPerson s p)" for p
    by (simp add: roleCodesForPerson_def filter_map comp_def b)
  have "personForUserId ?s u = personForUserId s u" by (simp add: personForUserId_def)
  then have "effectivePermissions ?s u = effectivePermissions s u"
    by (simp add: effectivePermissions_def r role_policies_def cong: option.case_cong)
  then show ?thesis by (simp add: can_def)
qed

definition empty_idb :: idb where
  "empty_idb = \<lparr>orgUnits = [], people = [], positions = [], groups = [], bindings = [], policies = [],
     scopes = [], delegations = [], assignments = [], id_audit = [], id_seq = 0\<rparr>"

definition demo_idb :: idb where
  "demo_idb = empty_idb\<lparr>
     people := [\<lparr>p_id = ''p1'', p_fullName = ''An'', p_email = Some ''an@x'',
        p_ext = JObj [(''userId'', JStr ''an'')]\<rparr>],
     positions := [\<lparr>po_id = ''pos1'', po_code = ''CFO'', po_title = ''CFO'', po_orgUnit = ''u1'',
        po_holder = Some ''p1'', po_reportsTo = None, po_isHead = True\<rparr>],
     bindings := [\<lparr>rb_id = ''b1'', rb_subjectType = ''POSITION'', rb_subjectId = ''pos1'',
        rb_roleCode = ''ROLE_CFO'', rb_scope = JNull, rb_from = None, rb_to = None\<rparr>],
     policies := [\<lparr>pp_roleCode = ''ROLE_CFO'', pp_permissions = [''finance.*''],
        pp_condition = JObj [(''maxAmount'', JNum 100)]\<rparr>]\<rparr>"

lemma can_needs_role_witness:
  "\<exists>p b pol g. personForUserId demo_idb ''an'' = Some p \<and> b \<in> set (bindings demo_idb) \<and>
     binding_applies demo_idb (p_id p) b \<and> pol \<in> set (policies demo_idb) \<and>
     pp_roleCode pol = rb_roleCode b \<and> g \<in> set (pp_permissions pol) \<and> grant_matches g ''finance.pay'' \<and>
     (\<forall>a. Some 70 = Some a \<longrightarrow> ceilings (ef_conditions (effectivePermissions demo_idb ''an'')) = [] \<or>
        (\<exists>c \<in> set (ceilings (ef_conditions (effectivePermissions demo_idb ''an''))). a \<le> c))"
proof (rule can_needs_role)
  show "can demo_idb ''an'' ''finance.pay'' (Some 70) = Granted" by code_simp
  show "\<forall>pol \<in> set (policies demo_idb). pp_roleCode pol \<noteq> ''__none__''"
    by (simp add: demo_idb_def)
qed

end
