(* ===== verification/Org_Chart.thy ===== *)
theory Org_Chart
  imports Identity
begin

section \<open>The organisation chart\<close>

text \<open>
  The writes of identity.service.ts on org units and positions: re-parenting with its walk up
  the ancestors, editing, creating and deleting units, moving positions, and role bindings.
  The invariant is that the parent relation has no cycle and every parent exists.
\<close>

subsection \<open>The ancestor walk\<close>

definition unit_by_id :: "idb \<Rightarrow> string \<Rightarrow> orgUnit option" where
  "unit_by_id s i = tfind (\<lambda>u. ou_id u = i) (orgUnits s)"

text \<open>
  The \<open>while (cur)\<close> loop: climb from \<open>cur\<close>; \<open>True\<close> when the walk meets \<open>target\<close>. It stops at a
  root, at an unknown unit and when it meets a unit again, so it always ends.
\<close>

function climb :: "orgUnit list \<Rightarrow> string \<Rightarrow> string list \<Rightarrow> string \<Rightarrow> bool" where
  "climb rows target seen cur =
     (if cur = [] then False
      else if cur = target then True
      else if cur \<in> set seen then False
      else case tfind (\<lambda>u. ou_id u = cur) rows of
        None \<Rightarrow> False
      | Some u \<Rightarrow>
          (case ou_parent u of None \<Rightarrow> False | Some p \<Rightarrow> climb rows target (cur # seen) p))"
  by pat_completeness auto

termination
proof (relation "measure (\<lambda>(rows, _, seen, _). card (ou_id ` set rows - set seen))", goal_cases)
  case (2 rows target seen cur u p)
  then have "cur \<in> ou_id ` set rows - set seen" by (auto dest: tfind_SomeD)
  then have "card ((ou_id ` set rows - set seen) - {cur}) < card (ou_id ` set rows - set seen)"
    by (intro card_Diff1_less) auto
  moreover have "ou_id ` set rows - set (cur # seen) = (ou_id ` set rows - set seen) - {cur}" by auto
  ultimately show ?case by simp
qed simp

declare climb.simps [simp del]

subsection \<open>Units\<close>

text \<open>The guard that \<open>reparentOrgUnit\<close> and \<open>updateOrgUnit\<close> share.\<close>

definition check_parent :: "idb \<Rightarrow> string \<Rightarrow> string option \<Rightarrow> error option" where
  "check_parent s i parent =
     (case parent of
        None \<Rightarrow> None
      | Some p \<Rightarrow>
          (if p = [] then None
           else if p = i then Some (BadRequest ''an org unit cannot be its own parent'')
           else if unit_by_id s p = None then Some (NotFound ''parent org unit'')
           else if climb (orgUnits s) i [] p
             then Some (BadRequest ''cannot move a unit under its own descendant (cycle)'')
           else None))"

definition set_parent :: "string \<Rightarrow> string option \<Rightarrow> idb \<Rightarrow> idb" where
  "set_parent i parent s =
     s\<lparr>orgUnits := tupd (\<lambda>u. ou_id u = i) (\<lambda>u. u\<lparr>ou_parent := parent\<rparr>) (orgUnits s)\<rparr>"

definition reparentOrgUnit :: "string \<Rightarrow> string option \<Rightarrow> idb \<Rightarrow> idb res" where
  "reparentOrgUnit i parent s =
     (if unit_by_id s i = None then Inl (NotFound ''org unit'')
      else case check_parent s i parent of
        Some e \<Rightarrow> Inl e
      | None \<Rightarrow> Inr (set_parent i parent s))"

text \<open>A patch: a field is \<open>None\<close> when absent; \<open>up_head\<close> and \<open>up_parent\<close> may also be present as null.\<close>

record unit_patch =
  up_name :: "string option"
  up_type :: "string option"
  up_head :: "string option option"
  up_parent :: "string option option"

definition patch_unit :: "unit_patch \<Rightarrow> orgUnit \<Rightarrow> orgUnit" where
  "patch_unit p u = u\<lparr>
     ou_name := (case up_name p of None \<Rightarrow> ou_name u | Some n \<Rightarrow> trim n),
     ou_type := (case up_type p of None \<Rightarrow> ou_type u | Some t \<Rightarrow> trim t),
     ou_parent := (case up_parent p of None \<Rightarrow> ou_parent u | Some q \<Rightarrow> q)\<rparr>"

text \<open>The head seat: set or clear the holder of the unit's head position, create it if missing.\<close>

definition set_head :: "env \<Rightarrow> orgUnit \<Rightarrow> string option \<Rightarrow> idb \<Rightarrow> idb res" where
  "set_head v u head s =
     (case tfind (\<lambda>q. po_orgUnit q = ou_id u \<and> po_isHead q) (positions s) of
        Some h \<Rightarrow> Inr (s\<lparr>positions := tupd (\<lambda>q. po_id q = po_id h) (\<lambda>q. q\<lparr>po_holder := head\<rparr>) (positions s)\<rparr>)
      | None \<Rightarrow>
          (if truthy_str head then
             (if list_ex (\<lambda>q. po_code q = ou_code u @ ''-HEAD'') (positions s) then Inl UniqueViolation
              else Inr (s\<lparr>positions := positions s @ [\<lparr>po_id = fresh_id v s, po_code = ou_code u @ ''-HEAD'',
                     po_title = ''Truong don vi'', po_orgUnit = ou_id u, po_holder = head,
                     po_reportsTo = None, po_isHead = True\<rparr>], id_seq := Suc (id_seq s)\<rparr>))
           else Inr s))"

definition updateOrgUnit :: "env \<Rightarrow> string \<Rightarrow> unit_patch \<Rightarrow> idb \<Rightarrow> idb res" where
  "updateOrgUnit v i p s =
     (case unit_by_id s i of
        None \<Rightarrow> Inl (NotFound ''org unit'')
      | Some node \<Rightarrow>
          (if (case up_name p of None \<Rightarrow> False | Some n \<Rightarrow> trim n = []) then Inl (BadRequest ''name cannot be empty'')
           else if (case up_type p of None \<Rightarrow> False | Some t \<Rightarrow> trim t = []) then Inl (BadRequest ''type cannot be empty'')
           else case (case up_parent p of None \<Rightarrow> None | Some q \<Rightarrow> check_parent s i q) of
             Some e \<Rightarrow> Inl e
           | None \<Rightarrow>
               (let s1 = s\<lparr>orgUnits := tupd (\<lambda>u. ou_id u = i) (patch_unit p) (orgUnits s)\<rparr> in
                case up_head p of None \<Rightarrow> Inr s1 | Some h \<Rightarrow> set_head v node h s1)))"

definition createOrgUnit ::
  "env \<Rightarrow> string option \<Rightarrow> string option \<Rightarrow> string option \<Rightarrow> string option \<Rightarrow> idb \<Rightarrow> (orgUnit \<times> idb) res" where
  "createOrgUnit v code name ty parent s =
     (let c = trim_in code; n = trim_in name;
          t = (if trim_in ty = [] then ''DEPARTMENT'' else trim_in ty) in
      if c = [] then Inl (BadRequest ''code is required'')
      else if n = [] then Inl (BadRequest ''name is required'')
      else if truthy_str parent \<and> unit_by_id s (coalesce parent '''') = None then Inl (NotFound ''parent org unit'')
      else if list_ex (\<lambda>u. ou_code u = c) (orgUnits s) then Inl (Conflict ''org unit code already exists'')
      else (let u = \<lparr>ou_id = fresh_id v s, ou_code = c, ou_name = n, ou_type = t, ou_parent = parent\<rparr> in
            Inr (u, s\<lparr>orgUnits := orgUnits s @ [u], id_seq := Suc (id_seq s)\<rparr>)))"

definition deleteOrgUnit :: "string \<Rightarrow> idb \<Rightarrow> idb res" where
  "deleteOrgUnit i s =
     (if unit_by_id s i = None then Inl (NotFound ''org unit'')
      else if list_ex (\<lambda>u. ou_parent u = Some i) (orgUnits s) then Inl (Conflict ''unit still has child units'')
      else if list_ex (\<lambda>q. po_orgUnit q = i) (positions s) then Inl (Conflict ''unit still has positions'')
      else Inr (s\<lparr>orgUnits := filter (\<lambda>u. ou_id u \<noteq> i) (orgUnits s)\<rparr>))"

definition movePosition :: "string \<Rightarrow> string \<Rightarrow> idb \<Rightarrow> idb res" where
  "movePosition i unit s =
     (if tfind (\<lambda>q. po_id q = i) (positions s) = None then Inl (NotFound ''position'')
      else if unit_by_id s unit = None then Inl (NotFound ''org unit'')
      else Inr (s\<lparr>positions := tupd (\<lambda>q. po_id q = i) (\<lambda>q. q\<lparr>po_orgUnit := unit\<rparr>) (positions s)\<rparr>))"

text \<open>\<open>orgUnitTree\<close>: the roots and, of each unit, its children, in the order of the rows.\<close>

definition unit_roots :: "orgUnit list \<Rightarrow> orgUnit list" where
  "unit_roots rows = filter (\<lambda>u. \<not> (truthy_str (ou_parent u) \<and>
     list_ex (\<lambda>p. Some (ou_id p) = ou_parent u) rows)) rows"

definition unit_children :: "orgUnit list \<Rightarrow> string \<Rightarrow> orgUnit list" where
  "unit_children rows i = (if i = [] then [] else filter (\<lambda>u. ou_parent u = Some i) rows)"

subsection \<open>Role bindings\<close>

definition VALID_SUBJECT_TYPES :: "string list" where
  "VALID_SUBJECT_TYPES = [''USER'', ''POSITION'', ''GROUP'', ''ORG_UNIT'']"

definition permissionsForRole :: "idb \<Rightarrow> string \<Rightarrow> string list" where
  "permissionsForRole s roleCode =
     to_set (concat (map pp_permissions (filter (\<lambda>p. pp_roleCode p = roleCode) (policies s))))"

definition subject_exists :: "idb \<Rightarrow> string \<Rightarrow> string \<Rightarrow> bool" where
  "subject_exists s ty i =
     (if ty = ''USER'' then person_by_id s i \<noteq> None
      else if ty = ''POSITION'' then tfind (\<lambda>q. po_id q = i) (positions s) \<noteq> None
      else if ty = ''GROUP'' then tfind (\<lambda>g. g_id g = i) (groups s) \<noteq> None
      else if ty = ''ORG_UNIT'' then unit_by_id s i \<noteq> None
      else False)"

definition createRoleBinding ::
  "env \<Rightarrow> string option \<Rightarrow> string option \<Rightarrow> string option \<Rightarrow> json \<Rightarrow> date_in \<Rightarrow> date_in \<Rightarrow>
   string \<Rightarrow> string \<Rightarrow> idb \<Rightarrow> (role_binding \<times> idb) res" where
  "createRoleBinding v ty sid role scope from to tenant actor s =
     (let t = to_upper (trim_in ty); i = trim_in sid; r = trim_in role in
      if t \<notin> set VALID_SUBJECT_TYPES then Inl (BadRequest ''subjectType must be one of USER/POSITION/GROUP/ORG_UNIT'')
      else if i = [] then Inl (BadRequest ''subjectId is required'')
      else if r = [] then Inl (BadRequest ''roleCode is required'')
      else if \<not> list_ex (\<lambda>p. pp_roleCode p = r) (policies s) then Inl (BadRequest ''roleCode is not in the permission registry'')
      else if \<not> subject_exists s t i then Inl (NotFound ''subject'')
      else if from = Invalid \<or> to = Invalid then Inl TypeErr
      else (let b = \<lparr>rb_id = fresh_id v s, rb_subjectType = t, rb_subjectId = i, rb_roleCode = r,
                     rb_scope = jcoalesce scope (JObj []), rb_from = date_opt from, rb_to = date_opt to\<rparr> in
            Inr (b, add_audit tenant actor (''role-binding:'' @ rb_id b) ''role.binding.created''
                      (s\<lparr>bindings := bindings s @ [b], id_seq := Suc (id_seq s)\<rparr>))))"

definition deleteRoleBinding :: "string \<Rightarrow> string \<Rightarrow> string \<Rightarrow> idb \<Rightarrow> idb res" where
  "deleteRoleBinding i tenant actor s =
     (if tfind (\<lambda>b. rb_id b = i) (bindings s) = None then Inl (NotFound ''role binding'')
      else Inr (add_audit tenant actor (''role-binding:'' @ i) ''role.binding.deleted''
                  (s\<lparr>bindings := filter (\<lambda>b. rb_id b \<noteq> i) (bindings s)\<rparr>)))"

record preview =
  pv_rolePermissions :: "string list"
  pv_willAdd :: "string list"
  pv_alreadyHas :: "string list"
  pv_noNetChange :: bool

definition previewRoleBinding :: "string option \<Rightarrow> string option \<Rightarrow> idb \<Rightarrow> preview res" where
  "previewRoleBinding sid role s =
     (let i = trim_in sid; r = trim_in role in
      if i = [] then Inl (BadRequest ''subjectId is required'')
      else if r = [] then Inl (BadRequest ''roleCode is required'')
      else if \<not> list_ex (\<lambda>p. pp_roleCode p = r) (policies s) then Inl (BadRequest ''roleCode is not in the permission registry'')
      else (let ps = permissionsForRole s r; cur = ef_permissions (effectivePermissions s i);
                add = filter (\<lambda>p. \<not> permissionMatches cur p) ps in
            Inr \<lparr>pv_rolePermissions = ps, pv_willAdd = add,
                 pv_alreadyHas = filter (permissionMatches cur) ps, pv_noNetChange = (add = [])\<rparr>))"

subsection \<open>The tree invariant\<close>

definition parent_edges :: "orgUnit list \<Rightarrow> (string \<times> string) set" where
  "parent_edges rows = {(ou_id u, p) | u p. u \<in> set rows \<and> ou_parent u = Some p \<and> p \<noteq> []}"

definition org_tree :: "idb \<Rightarrow> bool" where
  "org_tree s \<longleftrightarrow> distinct (map ou_id (orgUnits s)) \<and> acyclic (parent_edges (orgUnits s)) \<and>
     (\<forall>(x, p) \<in> parent_edges (orgUnits s). p \<in> ou_id ` set (orgUnits s))"

text \<open>The walk is exact: it finds the target precisely when the target is an ancestor.\<close>

lemma climb_sound: "climb rows t seen cur \<Longrightarrow> (cur, t) \<in> (parent_edges rows)\<^sup>*"
proof (induction rows t seen cur rule: climb.induct)
  case (1 rows t seen cur)
  show ?case
  proof (cases "cur = t")
    case False
    with 1(2) obtain u p where u: "cur \<noteq> []" "cur \<notin> set seen" "tfind (\<lambda>u. ou_id u = cur) rows = Some u"
        "ou_parent u = Some p" "climb rows t (cur # seen) p"
      by (subst (asm) climb.simps) (auto split: if_splits option.splits)
    then have "p \<noteq> []" by (subst (asm) climb.simps) (auto split: if_splits)
    with u have "(cur, p) \<in> parent_edges rows" by (auto simp: parent_edges_def dest!: tfind_SomeD)
    from this 1(1) [OF u(1) False u(2) u(3,4,5)] show ?thesis by (rule converse_rtrancl_into_rtrancl)
  qed simp
qed

lemma climb_complete:
  assumes "(cur, t) \<in> (parent_edges rows)\<^sup>*" "distinct (map ou_id rows)" "acyclic (parent_edges rows)"
    "cur \<noteq> []" "\<forall>x \<in> set seen. (x, cur) \<in> (parent_edges rows)\<^sup>+"
  shows "climb rows t seen cur"
  using assms(1,4,5)
proof (induction arbitrary: seen rule: converse_rtrancl_induct)
  case base
  then show ?case by (subst climb.simps) simp
next
  case (step x p)
  from step.hyps(1) obtain u where u: "u \<in> set rows" "ou_id u = x" "ou_parent u = Some p" "p \<noteq> []"
    by (auto simp: parent_edges_def)
  have "x \<notin> set seen" using step.prems(2) assms(3) by (auto simp: acyclic_def)
  moreover have "climb rows t (x # seen) p"
    using step.prems(2) step.hyps(1) u(4) by (intro step.IH) (auto intro: trancl_into_trancl)
  moreover have "tfind (\<lambda>u. ou_id u = x) rows = Some u"
    using tfind_column [OF assms(2) u(1)] u(2) by simp
  ultimately show ?case using u(3) step.prems(1) by (subst climb.simps) simp
qed

lemma parent_edges_tupd:
  "parent_edges (tupd (\<lambda>u. ou_id u = i) f rows) \<subseteq>
     (parent_edges rows - {(i, p) | p. True}) \<union> {(ou_id (f u), p) | u p. u \<in> set rows \<and> ou_id u = i \<and> ou_parent (f u) = Some p \<and> p \<noteq> []}"
  by (fastforce simp: parent_edges_def elim: in_set_tupdE)

text \<open>Hanging a unit below a checked parent keeps the tree.\<close>

lemma check_parent_tree:
  assumes "org_tree s" "check_parent s i q = None"
    and f: "\<And>u. ou_id (f u) = ou_id u" "\<And>u. ou_parent (f u) = q"
  shows "org_tree (s\<lparr>orgUnits := tupd (\<lambda>u. ou_id u = i) f (orgUnits s)\<rparr>)"
proof -
  let ?R = "parent_edges (orgUnits s)" and ?rows = "tupd (\<lambda>u. ou_id u = i) f (orgUnits s)"
  have sub: "parent_edges ?rows \<subseteq> ?R \<union> {(i, p) | p. q = Some p \<and> p \<noteq> []}"
    using parent_edges_tupd [of i f "orgUnits s"] f by auto
  have ids: "map ou_id ?rows = map ou_id (orgUnits s)" using f by (simp add: map_tupd_frame)
  then have set_ids: "ou_id ` set ?rows = ou_id ` set (orgUnits s)" by (metis set_map)
  have R: "distinct (map ou_id (orgUnits s))" "acyclic ?R" using assms(1) by (auto simp: org_tree_def)
  have p: "p \<in> ou_id ` set (orgUnits s) \<and> (p, i) \<notin> ?R\<^sup>*" if "q = Some p" "p \<noteq> []" for p
    using that assms(2) climb_complete [of p i "orgUnits s" "[]"] R
    by (auto simp: check_parent_def unit_by_id_def split: if_splits dest!: tfind_SomeD)
  have "acyclic (?R \<union> {(i, p) | p. q = Some p \<and> p \<noteq> []})"
  proof (cases "\<exists>p. q = Some p \<and> p \<noteq> []")
    case True
    then obtain p0 where p0: "q = Some p0" "p0 \<noteq> []" by blast
    then have "?R \<union> {(i, p) | p. q = Some p \<and> p \<noteq> []} = insert (i, p0) ?R" by auto
    with p [OF p0] R show ?thesis by (simp add: acyclic_insert)
  next
    case False
    then have "{(i, p) | p. q = Some p \<and> p \<noteq> []} = {}" by auto
    with R show ?thesis by (simp only: Un_empty_right)
  qed
  with sub have "acyclic (parent_edges ?rows)" by (meson acyclic_subset)
  moreover have "\<forall>(x, y) \<in> parent_edges ?rows. y \<in> ou_id ` set (orgUnits s)"
    using sub p assms(1) by (fastforce simp: org_tree_def)
  ultimately show ?thesis using R ids set_ids by (simp add: org_tree_def)
qed

lemma parent_edges_Nil: "parent_edges [] = {}"
  by (simp add: parent_edges_def)

lemma parent_edges_Cons:
  "parent_edges (u # t) = {(ou_id u, p) | p. ou_parent u = Some p \<and> p \<noteq> []} \<union> parent_edges t"
  by (auto simp: parent_edges_def)

lemma parent_edges_append: "parent_edges (t @ r) = parent_edges t \<union> parent_edges r"
  by (auto simp: parent_edges_def)

lemma keep_parent_tree:
  assumes "org_tree s" and f: "\<And>u. ou_id (f u) = ou_id u" "\<And>u. ou_parent (f u) = ou_parent u"
  shows "org_tree (s\<lparr>orgUnits := tupd P f (orgUnits s)\<rparr>)"
proof -
  have "map ou_id (tupd P f (orgUnits s)) = map ou_id (orgUnits s)" using f by (simp add: map_tupd_frame)
  moreover from this have "ou_id ` set (tupd P f (orgUnits s)) = ou_id ` set (orgUnits s)" by (metis set_map)
  moreover have "parent_edges (tupd P f t) = parent_edges t" for t
    by (induction t) (simp_all add: parent_edges_Cons table_simps f parent_edges_Nil)
  ultimately show ?thesis using assms(1) by (simp add: org_tree_def)
qed

lemma set_head_units: "set_head v u h s = Inr s' \<Longrightarrow> orgUnits s' = orgUnits s"
  by (auto simp: set_head_def split: option.splits if_splits)

lemma org_tree_cong: "orgUnits s' = orgUnits s \<Longrightarrow> org_tree s' = org_tree s"
  by (simp add: org_tree_def)

subsection \<open>Every write keeps the tree\<close>

lemma reparent_tree: "org_tree s \<Longrightarrow> reparentOrgUnit i q s = Inr s' \<Longrightarrow> org_tree s'"
  by (auto simp: reparentOrgUnit_def set_parent_def split: if_splits option.splits
      intro: check_parent_tree)

lemma update_unit_tree:
  assumes "org_tree s" "updateOrgUnit v i p s = Inr s'"
  shows "org_tree s'"
proof -
  let ?s1 = "s\<lparr>orgUnits := tupd (\<lambda>u. ou_id u = i) (patch_unit p) (orgUnits s)\<rparr>"
  have "org_tree ?s1"
  proof (cases "up_parent p")
    case None
    with assms(1) show ?thesis by (auto simp: patch_unit_def intro: keep_parent_tree)
  next
    case (Some q)
    with assms have "check_parent s i q = None"
      by (auto simp: updateOrgUnit_def split: if_splits option.splits)
    from check_parent_tree [OF assms(1) this] show ?thesis by (simp add: patch_unit_def Some)
  qed
  moreover have "orgUnits s' = orgUnits ?s1"
    using assms(2) set_head_units
    by (fastforce simp: updateOrgUnit_def Let_def split: if_splits option.splits)
  ultimately show ?thesis using org_tree_cong by blast
qed

lemma create_unit_tree:
  assumes "org_tree s" "createOrgUnit v code name ty q s = Inr (u, s')"
    and fresh: "fresh_id v s \<notin> ou_id ` set (orgUnits s)"
  shows "org_tree s'"
proof -
  let ?R = "parent_edges (orgUnits s)" and ?i = "fresh_id v s"
  have s': "orgUnits s' = orgUnits s @ [u]" "ou_id u = ?i" "ou_parent u = q"
    and q: "\<And>p. q = Some p \<Longrightarrow> p \<noteq> [] \<Longrightarrow> p \<in> ou_id ` set (orgUnits s)"
    using assms(2)
    by (auto simp: createOrgUnit_def unit_by_id_def Let_def split: if_splits dest!: tfind_SomeD)
  have R: "parent_edges (orgUnits s') = ?R \<union> {(?i, p) | p. q = Some p \<and> p \<noteq> []}"
    using s' by (auto simp: parent_edges_append parent_edges_Cons parent_edges_Nil)
  have R0: "distinct (map ou_id (orgUnits s))" "acyclic ?R" "\<forall>(x, p) \<in> ?R. p \<in> ou_id ` set (orgUnits s)"
    using assms(1) by (auto simp: org_tree_def)
  have noedge: "(x, ?i) \<notin> ?R" for x using fresh R0(3) by fastforce
  have out: "(?i, x) \<notin> ?R" for x using fresh by (auto simp: parent_edges_def)
  have "acyclic (parent_edges (orgUnits s'))"
  proof (cases "\<exists>p. q = Some p \<and> p \<noteq> []")
    case True
    then obtain p where p: "q = Some p" "p \<noteq> []" by blast
    then have "p \<noteq> ?i" using q fresh by blast
    then have "(p, ?i) \<notin> ?R\<^sup>*" using noedge by (meson rtranclE)
    moreover have "?R \<union> {(?i, p) | p. q = Some p \<and> p \<noteq> []} = insert (?i, p) ?R" using p by auto
    ultimately show ?thesis using R R0(2) by (simp add: acyclic_insert)
  next
    case False
    then have "{(?i, p) | p. q = Some p \<and> p \<noteq> []} = {}" by auto
    with R R0 show ?thesis by (simp only: Un_empty_right)
  qed
  with R R0 s' q fresh show ?thesis by (fastforce simp: org_tree_def)
qed

lemma delete_unit_tree:
  assumes "org_tree s" "deleteOrgUnit i s = Inr s'"
  shows "org_tree s'"
proof -
  have s': "orgUnits s' = filter (\<lambda>u. ou_id u \<noteq> i) (orgUnits s)"
    and nochild: "\<And>u. u \<in> set (orgUnits s) \<Longrightarrow> ou_parent u \<noteq> Some i"
    using assms(2) by (auto simp: deleteOrgUnit_def list_ex_iff split: if_splits)
  have sub: "parent_edges (orgUnits s') \<subseteq> parent_edges (orgUnits s)"
    using s' by (auto simp: parent_edges_def)
  moreover have "p \<noteq> i" if "(x, p) \<in> parent_edges (orgUnits s)" for x p
    using that nochild by (auto simp: parent_edges_def)
  moreover have "acyclic (parent_edges (orgUnits s'))"
    using sub assms(1) by (meson acyclic_subset org_tree_def)
  ultimately show ?thesis
    using assms(1) s' by (fastforce simp: org_tree_def distinct_map_filter)
qed

text \<open>The writes on the chart as steps; identifiers the database issues are new.\<close>

inductive org_step :: "idb \<Rightarrow> idb \<Rightarrow> bool" where
  os_reparent: "reparentOrgUnit i q s = Inr s' \<Longrightarrow> org_step s s'"
| os_update: "updateOrgUnit v i p s = Inr s' \<Longrightarrow> org_step s s'"
| os_create: "createOrgUnit v c n t q s = Inr (u, s') \<Longrightarrow> fresh_id v s \<notin> ou_id ` set (orgUnits s) \<Longrightarrow> org_step s s'"
| os_delete: "deleteOrgUnit i s = Inr s' \<Longrightarrow> org_step s s'"
| os_move: "movePosition i j s = Inr s' \<Longrightarrow> org_step s s'"

lemma org_step_tree: "org_step s s' \<Longrightarrow> org_tree s \<Longrightarrow> org_tree s'"
proof (induction rule: org_step.induct)
  case (os_move i j s s')
  then have "orgUnits s' = orgUnits s" by (auto simp: movePosition_def split: if_splits)
  with os_move org_tree_cong show ?case by blast
qed (auto intro: reparent_tree update_unit_tree create_unit_tree delete_unit_tree)

subsection \<open>Properties\<close>

text \<open>
  C32. Whatever sequence of re-parentings, edits, creations, deletions and moves the service
  performs, a chart that starts as a tree stays one: identifiers stay distinct, no unit becomes
  its own ancestor and every parent exists.
\<close>
theorem org_chart_stays_tree:
  assumes "org_step\<^sup>*\<^sup>* s s'" "org_tree s"
  shows "org_tree s'"
  using assms by (induction rule: rtranclp_induct) (auto intro: org_step_tree)

text \<open>
  The cycle guard is exact: on a tree, moving an existing unit \<open>i\<close> below an existing unit
  \<open>p\<close> succeeds precisely when \<open>p\<close> is neither \<open>i\<close> nor one of its descendants; and then only the
  parent of \<open>i\<close> changes.
\<close>
theorem reparent_exact:
  assumes "org_tree s" "unit_by_id s i \<noteq> None" "unit_by_id s p \<noteq> None" "p \<noteq> []"
  shows "reparentOrgUnit i (Some p) s =
    (if (p, i) \<in> (parent_edges (orgUnits s))\<^sup>* then
       Inl (BadRequest (if p = i then ''an org unit cannot be its own parent''
                        else ''cannot move a unit under its own descendant (cycle)''))
     else Inr (set_parent i (Some p) s))"
  using assms climb_sound [of "orgUnits s" i "[]" p] climb_complete [of p i "orgUnits s" "[]"]
  by (auto simp: reparentOrgUnit_def check_parent_def org_tree_def)

definition mk_unit :: "string \<Rightarrow> string option \<Rightarrow> orgUnit" where
  "mk_unit i parent = \<lparr>ou_id = i, ou_code = i, ou_name = i, ou_type = ''TEAM'', ou_parent = parent\<rparr>"

definition demo_org :: idb where
  "demo_org = empty_idb\<lparr>orgUnits := [mk_unit ''co'' None, mk_unit ''it'' (Some ''co''), mk_unit ''dev'' (Some ''it'')]\<rparr>"

lemma demo_org_tree: "org_tree demo_org"
proof -
  have e: "parent_edges (orgUnits demo_org) = {(''it'', ''co''), (''dev'', ''it'')}"
    by (auto simp: demo_org_def mk_unit_def parent_edges_Cons parent_edges_Nil)
  have "acyclic {(''it'', ''co''), (''dev'', ''it'')}"
    by (rule acyclicI_order [where f = "\<lambda>x. if x = ''dev'' then 2 else if x = ''it'' then 1 else (0::nat)"]) auto
  then show ?thesis
    by (simp add: org_tree_def e) (simp add: demo_org_def mk_unit_def)
qed

lemma org_chart_stays_tree_witness: "org_tree (set_parent ''dev'' (Some ''co'') demo_org)"
proof (rule org_chart_stays_tree [OF _ demo_org_tree], rule r_into_rtranclp, rule os_reparent)
  show "reparentOrgUnit ''dev'' (Some ''co'') demo_org = Inr (set_parent ''dev'' (Some ''co'') demo_org)"
    by code_simp
qed

lemma reparent_exact_witness:
  "reparentOrgUnit ''dev'' (Some ''it'') demo_org =
    (if (''it'', ''dev'') \<in> (parent_edges (orgUnits demo_org))\<^sup>* then
       Inl (BadRequest (if ''it'' = ''dev'' then ''an org unit cannot be its own parent''
                        else ''cannot move a unit under its own descendant (cycle)''))
     else Inr (set_parent ''dev'' (Some ''it'') demo_org))"
  by (rule reparent_exact [OF demo_org_tree]) (code_simp | simp)+

end
