(* ===== verification/Delegations.thy ===== *)
theory Delegations
  imports Identity
begin

section \<open>Delegations and the holder history of positions\<close>

text \<open>
  The effective-dated records of identity.service.ts: delegations of approval from one user to
  another, and assignments of persons to positions (PRIMARY or ACTING) with the holder cache
  \<open>holderPersonId\<close> derived from them. Times are milliseconds and windows are closed; an
  assignment without \<open>effectiveTo\<close> is open-ended. A transaction runs alone: the database's
  concurrency control is not modelled.
\<close>

subsection \<open>Windows\<close>

definition le_end :: "int \<Rightarrow> int option \<Rightarrow> bool" where
  "le_end t e = (case e of None \<Rightarrow> True | Some u \<Rightarrow> t \<le> u)"

lemma le_end_simps [simp]: "le_end t None" "le_end t (Some u) = (t \<le> u)"
  by (simp_all add: le_end_def)

lemma le_end_trans: "t \<le> t' \<Longrightarrow> le_end t' e \<Longrightarrow> le_end t e"
  by (cases e) auto

subsection \<open>Delegations\<close>

definition in_window :: "int \<Rightarrow> int \<Rightarrow> delegation \<Rightarrow> bool" where
  "in_window fromAt toAt d \<longleftrightarrow> dl_fromAt d \<le> toAt \<and> dl_toAt d \<ge> fromAt"

definition createDelegation ::
  "env \<Rightarrow> string option \<Rightarrow> string option \<Rightarrow> date_in \<Rightarrow> date_in \<Rightarrow> string option \<Rightarrow> string \<Rightarrow> string \<Rightarrow>
   idb \<Rightarrow> (delegation \<times> idb) res" where
  "createDelegation v fromUser toUser fromIn toIn reason tenant actor s =
     (let f = trim_in fromUser; t = trim_in toUser in
      if f = [] \<or> t = [] then Inl (BadRequest ''fromUserId and toUserId are required'')
      else case (fromIn, toIn) of
        (At a, At b) \<Rightarrow>
          (if b < a then Inl (BadRequest ''toAt must not precede fromAt'')
           else if f = t then Inl (BadRequest ''SELF_DELEGATION'')
           else if list_ex (\<lambda>d. dl_from d = f \<and> in_window a b d) (delegations s) then Inl (Conflict ''OVERLAP'')
           else if list_ex (\<lambda>d. dl_from d = t \<and> dl_to d = f \<and> in_window a b d) (delegations s)
             then Inl (Conflict ''CYCLE'')
           else (let d = \<lparr>dl_id = fresh_id v s, dl_tenant = tenant, dl_from = f, dl_to = t,
                          dl_fromAt = a, dl_toAt = b, dl_reason = reason\<rparr> in
                 Inr (d, add_audit tenant actor (''delegation:'' @ dl_id d) ''delegation.created''
                           (s\<lparr>delegations := delegations s @ [d], id_seq := Suc (id_seq s)\<rparr>))))
      | _ \<Rightarrow> Inl (BadRequest (if fromIn = Absent \<or> toIn = Absent then ''fromAt and toAt are required''
                              else ''fromAt/toAt must be valid dates'')))"

definition deleteDelegation :: "string \<Rightarrow> string \<Rightarrow> string \<Rightarrow> idb \<Rightarrow> idb res" where
  "deleteDelegation i tenant actor s =
     (if tfind (\<lambda>d. dl_id d = i) (delegations s) = None then Inl (NotFound ''delegation'')
      else Inr (add_audit tenant actor (''delegation:'' @ i) ''delegation.revoked''
                  (s\<lparr>delegations := filter (\<lambda>d. dl_id d \<noteq> i) (delegations s)\<rparr>)))"

definition windows_meet :: "delegation \<Rightarrow> delegation \<Rightarrow> bool" where
  "windows_meet d e \<longleftrightarrow> dl_fromAt d \<le> dl_toAt e \<and> dl_fromAt e \<le> dl_toAt d"

definition deleg_pair_ok :: "delegation \<Rightarrow> delegation \<Rightarrow> bool" where
  "deleg_pair_ok d e \<longleftrightarrow> windows_meet d e \<longrightarrow>
     dl_from d \<noteq> dl_from e \<and> \<not> (dl_from d = dl_to e \<and> dl_to d = dl_from e)"

definition deleg_ok :: "delegation list \<Rightarrow> bool" where
  "deleg_ok ds \<longleftrightarrow> (\<forall>d \<in> set ds. dl_fromAt d \<le> dl_toAt d \<and> dl_from d \<noteq> dl_to d) \<and> pairwise deleg_pair_ok (set ds)"

lemma deleg_pair_ok_sym: "deleg_pair_ok d e \<Longrightarrow> deleg_pair_ok e d"
  by (auto simp: deleg_pair_ok_def windows_meet_def)

lemma createDelegation_ok:
  assumes "createDelegation v fu tu fi ti r tenant actor s = Inr (d, s')" "deleg_ok (delegations s)"
  shows "deleg_ok (delegations s') \<and> delegations s' = delegations s @ [d]"
proof -
  from assms(1) have s': "delegations s' = delegations s @ [d]"
    and d: "dl_fromAt d \<le> dl_toAt d" "dl_from d \<noteq> dl_to d"
    and no: "\<And>e. e \<in> set (delegations s) \<Longrightarrow> deleg_pair_ok e d"
    by (auto simp: createDelegation_def add_audit_def Let_def list_ex_iff in_window_def
        deleg_pair_ok_def windows_meet_def split: if_splits date_in.splits)
  have "pairwise deleg_pair_ok (insert d (set (delegations s)))"
    using assms(2) no deleg_pair_ok_sym by (simp add: deleg_ok_def pairwise_insert)
  with s' d assms(2) show ?thesis by (auto simp: deleg_ok_def)
qed

lemma deleteDelegation_ok:
  assumes "deleteDelegation i tenant actor s = Inr s'" "deleg_ok (delegations s)"
  shows "deleg_ok (delegations s')"
proof -
  from assms(1) have "set (delegations s') \<subseteq> set (delegations s)"
    by (auto simp: deleteDelegation_def add_audit_def split: if_splits)
  with assms(2) show ?thesis by (auto simp: deleg_ok_def intro: pairwise_subset)
qed

subsection \<open>Position assignments\<close>

datatype assign_status = Active | Scheduled | Expired

definition assignmentStatus :: "int \<Rightarrow> pos_assignment \<Rightarrow> assign_status" where
  "assignmentStatus t a =
     (if t < pa_from a then Scheduled
      else if (case pa_to a of None \<Rightarrow> False | Some u \<Rightarrow> t > u) then Expired
      else Active)"

definition isWithinWindow :: "int \<Rightarrow> pos_assignment \<Rightarrow> bool" where
  "isWithinWindow t a \<longleftrightarrow> t \<ge> pa_from a \<and> le_end t (pa_to a)"

definition activePrimary :: "int \<Rightarrow> pos_assignment list \<Rightarrow> pos_assignment option" where
  "activePrimary t rows = tfind (\<lambda>a. pa_kind a = ''PRIMARY'' \<and> isWithinWindow t a) rows"

definition assignments_of :: "idb \<Rightarrow> string \<Rightarrow> pos_assignment list" where
  "assignments_of s p = filter (\<lambda>a. pa_position a = p) (assignments s)"

definition set_holder :: "string \<Rightarrow> string option \<Rightarrow> idb \<Rightarrow> idb" where
  "set_holder p h s = s\<lparr>positions := tupd (\<lambda>q. po_id q = p) (\<lambda>q. q\<lparr>po_holder := h\<rparr>) (positions s)\<rparr>"

definition syncHolderCache :: "env \<Rightarrow> string \<Rightarrow> idb \<Rightarrow> string option \<times> idb" where
  "syncHolderCache v p s =
     (let h = map_option pa_person (activePrimary (now v) (assignments_of s p)) in (h, set_holder p h s))"

text \<open>The overlap of an existing row with the new window \<open>[from, to]\<close>.\<close>

definition pa_overlaps :: "int \<Rightarrow> int option \<Rightarrow> pos_assignment \<Rightarrow> bool" where
  "pa_overlaps from to a \<longleftrightarrow> le_end (pa_from a) to \<and> le_end from (pa_to a)"

definition close_earlier :: "string \<Rightarrow> int \<Rightarrow> int option \<Rightarrow> pos_assignment list \<Rightarrow> pos_assignment list" where
  "close_earlier p from to = tupd
     (\<lambda>a. pa_position a = p \<and> pa_kind a = ''PRIMARY'' \<and> pa_overlaps from to a \<and> pa_from a < from)
     (\<lambda>a. a\<lparr>pa_to := Some (from - 1000)\<rparr>)"

definition createPositionAssignment ::
  "env \<Rightarrow> string \<Rightarrow> string option \<Rightarrow> string option \<Rightarrow> date_in \<Rightarrow> date_in \<Rightarrow> string \<Rightarrow> string \<Rightarrow>
   idb \<Rightarrow> (pos_assignment \<times> assign_status \<times> idb) res" where
  "createPositionAssignment v p personIn kindIn fromIn toIn tenant actor s =
     (let person = trim_in personIn; kind = to_upper (trim_in kindIn); to = date_opt toIn in
      if tfind (\<lambda>q. po_id q = p) (positions s) = None then Inl (NotFound ''position'')
      else if person = [] then Inl (BadRequest ''personId is required'')
      else if kind \<noteq> ''PRIMARY'' \<and> kind \<noteq> ''ACTING'' then Inl (BadRequest ''kind must be PRIMARY or ACTING'')
      else case fromIn of
        Absent \<Rightarrow> Inl (BadRequest ''effectiveFrom is required'')
      | Invalid \<Rightarrow> Inl (BadRequest ''effectiveFrom must be a valid date'')
      | At from \<Rightarrow>
          (if toIn = Invalid then Inl (BadRequest ''effectiveTo must be a valid date'')
           else if \<not> le_end from to then Inl (BadRequest ''effectiveTo must not precede effectiveFrom'')
           else if person_by_id s person = None then Inl (NotFound ''person'')
           else if kind = ''PRIMARY'' \<and> list_ex (\<lambda>a. pa_kind a = ''PRIMARY'' \<and> pa_overlaps from to a \<and>
                     \<not> pa_from a < from) (assignments_of s p) then Inl (Conflict ''OVERLAP'')
           else (let a = \<lparr>pa_id = fresh_id v s, pa_position = p, pa_person = person, pa_kind = kind,
                          pa_from = from, pa_to = to\<rparr>;
                     old = (if kind = ''PRIMARY'' then close_earlier p from to (assignments s) else assignments s);
                     s1 = s\<lparr>assignments := old @ [a], id_seq := Suc (id_seq s)\<rparr>;
                     s2 = (if kind = ''PRIMARY'' then snd (syncHolderCache v p s1) else s1)
                 in Inr (a, assignmentStatus (now v) a,
                         add_audit tenant actor (''position:'' @ p) ''position.assignment.created'' s2))))"

definition deletePositionAssignment ::
  "env \<Rightarrow> string \<Rightarrow> string \<Rightarrow> string \<Rightarrow> string \<Rightarrow> idb \<Rightarrow> (string option \<times> idb) res" where
  "deletePositionAssignment v p i tenant actor s =
     (case tfind (\<lambda>a. pa_id a = i) (assignments s) of
        None \<Rightarrow> Inl (NotFound ''assignment'')
      | Some row \<Rightarrow>
          (if pa_position row \<noteq> p then Inl (NotFound ''assignment'')
           else (let s1 = s\<lparr>assignments := filter (\<lambda>a. pa_id a \<noteq> i) (assignments s)\<rparr>;
                     (h, s2) = (if pa_kind row = ''PRIMARY'' then syncHolderCache v p s1 else (None, s1))
                 in Inr (h, add_audit tenant actor (''position:'' @ p) ''position.assignment.revoked'' s2))))"

text \<open>\<open>setPositionHolder\<close>; \<open>fromIn\<close> is \<open>None\<close> when the request has no \<open>effectiveFrom\<close>.\<close>

definition setPositionHolder ::
  "env \<Rightarrow> string \<Rightarrow> string option \<Rightarrow> date_in option \<Rightarrow> string \<Rightarrow> string \<Rightarrow> idb \<Rightarrow> idb res" where
  "setPositionHolder v p holder fromIn tenant actor s =
     (if tfind (\<lambda>q. po_id q = p) (positions s) = None then Inl (NotFound ''position'')
      else if \<not> truthy_str holder then
        (let s1 = (case activePrimary (now v) (assignments_of s p) of
                     None \<Rightarrow> s
                   | Some a \<Rightarrow>
                       (if pa_to a = None then
                          s\<lparr>assignments := tupd (\<lambda>b. pa_id b = pa_id a) (\<lambda>b. b\<lparr>pa_to := Some (now v)\<rparr>) (assignments s)\<rparr>
                        else s))
         in Inr (add_audit tenant actor (''position:'' @ p) ''position.holder.cleared'' (set_holder p None s1)))
      else case createPositionAssignment v p holder (Some ''PRIMARY'') (coalesce fromIn (At (now v))) Absent tenant actor s of
        Inl e \<Rightarrow> Inl e
      | Inr (_, _, s') \<Rightarrow> Inr s')"

subsection \<open>No two primary holders at once\<close>

definition pa_clash :: "pos_assignment \<Rightarrow> pos_assignment \<Rightarrow> bool" where
  "pa_clash a b \<longleftrightarrow> pa_position a = pa_position b \<and> pa_kind a = ''PRIMARY'' \<and> pa_kind b = ''PRIMARY'' \<and>
     le_end (pa_from a) (pa_to b) \<and> le_end (pa_from b) (pa_to a)"

definition primary_ok :: "pos_assignment list \<Rightarrow> bool" where
  "primary_ok rs \<longleftrightarrow> distinct (map pa_id rs) \<and> pairwise (\<lambda>a b. \<not> pa_clash a b) (set rs)"

lemma pa_clash_sym: "pa_clash a b \<Longrightarrow> pa_clash b a"
  by (auto simp: pa_clash_def)

text \<open>Ending rows earlier keeps the invariant.\<close>

definition shrinks :: "(pos_assignment \<Rightarrow> pos_assignment) \<Rightarrow> (pos_assignment \<Rightarrow> bool) \<Rightarrow> bool" where
  "shrinks f P \<longleftrightarrow> (\<forall>a. P a \<longrightarrow> pa_id (f a) = pa_id a \<and> pa_position (f a) = pa_position a \<and>
     pa_kind (f a) = pa_kind a \<and> pa_from (f a) = pa_from a \<and> (\<forall>t. le_end t (pa_to (f a)) \<longrightarrow> le_end t (pa_to a)))"

lemma primary_ok_shrink:
  assumes "primary_ok rs" "shrinks f P"
  shows "primary_ok (tupd P f rs)"
proof -
  let ?g = "\<lambda>a. if P a then f a else a"
  have clash: "pa_clash (?g a) (?g b) \<Longrightarrow> pa_clash a b" for a b
    using assms(2) by (auto simp: shrinks_def pa_clash_def split: if_splits)
  have "map pa_id (tupd P f rs) = map pa_id rs"
    using assms(2) by (simp add: map_tupd_frame shrinks_def)
  moreover have "pairwise (\<lambda>a b. \<not> pa_clash a b) (?g ` set rs)"
  proof (rule pairwiseI)
    fix x y assume "x \<in> ?g ` set rs" "y \<in> ?g ` set rs" "x \<noteq> y"
    then obtain a b where ab: "a \<in> set rs" "b \<in> set rs" "x = ?g a" "y = ?g b" by blast
    with \<open>x \<noteq> y\<close> have "a \<noteq> b" by blast
    with ab assms(1) have "\<not> pa_clash a b" by (simp add: primary_ok_def pairwise_def)
    with clash ab show "\<not> pa_clash x y" by blast
  qed
  ultimately show ?thesis using assms(1) by (simp add: primary_ok_def set_tupd)
qed

lemma primary_ok_snoc:
  assumes "primary_ok rs" "pa_id a \<notin> pa_id ` set rs" "\<And>b. b \<in> set rs \<Longrightarrow> \<not> pa_clash a b"
  shows "primary_ok (rs @ [a])"
proof -
  have "pairwise (\<lambda>a b. \<not> pa_clash a b) (insert a (set rs))"
    using assms pa_clash_sym by (auto simp: primary_ok_def pairwise_insert)
  with assms show ?thesis by (simp add: primary_ok_def)
qed

lemma primary_ok_filter: "primary_ok rs \<Longrightarrow> primary_ok (filter Q rs)"
  by (auto simp: primary_ok_def distinct_map_filter intro: pairwise_subset)

text \<open>At most one row is an active primary, so the search order does not matter.\<close>

lemma active_unique:
  assumes "primary_ok rs" "a \<in> set rs" "b \<in> set rs" "pa_position a = pa_position b"
    "pa_kind a = ''PRIMARY''" "pa_kind b = ''PRIMARY''" "isWithinWindow t a" "isWithinWindow t b"
  shows "a = b"
proof (rule ccontr)
  assume "a \<noteq> b"
  with assms(1-3) have "\<not> pa_clash a b" by (simp add: primary_ok_def pairwise_def)
  moreover have "pa_from a \<le> t" "pa_from b \<le> t" "le_end t (pa_to a)" "le_end t (pa_to b)"
    using assms(7,8) by (simp_all add: isWithinWindow_def)
  then have "le_end (pa_from a) (pa_to b)" "le_end (pa_from b) (pa_to a)"
    using le_end_trans [of "pa_from a" t] le_end_trans [of "pa_from b" t] by simp_all
  ultimately show False using assms(4-6) by (simp add: pa_clash_def)
qed

definition active_holder :: "int \<Rightarrow> idb \<Rightarrow> string \<Rightarrow> pos_assignment \<Rightarrow> bool" where
  "active_holder t s p a \<longleftrightarrow>
     a \<in> set (assignments s) \<and> pa_position a = p \<and> pa_kind a = ''PRIMARY'' \<and> isWithinWindow t a"

lemma activePrimary_iff:
  assumes "primary_ok (assignments s)"
  shows "activePrimary t (assignments_of s p) = Some a \<longleftrightarrow> active_holder t s p a"
proof
  assume "active_holder t s p a"
  then obtain b where b: "activePrimary t (assignments_of s p) = Some b"
    by (cases "activePrimary t (assignments_of s p)")
      (auto simp: activePrimary_def tfind_None_iff assignments_of_def active_holder_def)
  then have "active_holder t s p b"
    by (auto simp: activePrimary_def assignments_of_def active_holder_def dest!: tfind_SomeD)
  with \<open>active_holder t s p a\<close> b assms show "activePrimary t (assignments_of s p) = Some a"
    by (metis active_holder_def active_unique)
qed (auto simp: activePrimary_def assignments_of_def active_holder_def dest!: tfind_SomeD)

lemma close_earlier_shrinks:
  "shrinks (\<lambda>a. a\<lparr>pa_to := Some (from - 1000)\<rparr>)
     (\<lambda>a. pa_position a = p \<and> pa_kind a = ''PRIMARY'' \<and> pa_overlaps from to a \<and> pa_from a < from)"
  by (auto simp: shrinks_def pa_overlaps_def le_end_def split: option.splits)

lemma createPositionAssignment_rows:
  assumes "createPositionAssignment v p pe ki fi ti te ac s = Inr (a, st, s')"
  shows "(pa_kind a = ''PRIMARY'' \<and> assignments s' = close_earlier p (pa_from a) (pa_to a) (assignments s) @ [a] \<and>
           (\<forall>b \<in> set (assignments s). pa_position b = p \<longrightarrow> pa_kind b = ''PRIMARY'' \<longrightarrow>
              pa_overlaps (pa_from a) (pa_to a) b \<longrightarrow> pa_from b < pa_from a) \<or>
         pa_kind a = ''ACTING'' \<and> assignments s' = assignments s @ [a]) \<and>
       pa_position a = p \<and> pa_id a = fresh_id v s"
  using assms
  by (auto simp: createPositionAssignment_def Let_def add_audit_def syncHolderCache_def set_holder_def
      list_ex_iff assignments_of_def split: if_splits date_in.splits)

lemma createPositionAssignment_ok:
  assumes "createPositionAssignment v p pe ki fi ti te ac s = Inr (a, st, s')"
    and "primary_ok (assignments s)" and "fresh_id v s \<notin> pa_id ` set (assignments s)"
  shows "primary_ok (assignments s')"
proof -
  note rows = createPositionAssignment_rows [OF assms(1)]
  show ?thesis
  proof (cases "pa_kind a = ''PRIMARY''")
    case True
    let ?rs = "close_earlier p (pa_from a) (pa_to a) (assignments s)"
    have ids: "map pa_id ?rs = map pa_id (assignments s)"
      by (simp add: close_earlier_def map_tupd_frame)
    then have "pa_id a \<notin> pa_id ` set ?rs" using assms(3) rows by (metis set_map)
    moreover have "\<not> pa_clash a b" if "b \<in> set ?rs" for b
      using that rows True unfolding close_earlier_def
      by (elim in_set_tupdE) (auto simp: pa_clash_def pa_overlaps_def)
    moreover have "primary_ok ?rs"
      unfolding close_earlier_def by (rule primary_ok_shrink [OF assms(2) close_earlier_shrinks])
    ultimately show ?thesis using primary_ok_snoc rows True by auto
  next
    case False
    then have "assignments s' = assignments s @ [a]" "pa_id a = fresh_id v s" "\<And>b. \<not> pa_clash a b"
      using rows by (auto simp: pa_clash_def)
    with primary_ok_snoc [OF assms(2)] assms(3) show ?thesis by simp
  qed
qed

lemma deletePositionAssignment_ok:
  "deletePositionAssignment v p i te ac s = Inr (h, s') \<Longrightarrow> primary_ok (assignments s) \<Longrightarrow>
     primary_ok (assignments s')"
  by (auto simp: deletePositionAssignment_def Let_def add_audit_def syncHolderCache_def set_holder_def
      primary_ok_filter split: if_splits option.splits)

lemma setPositionHolder_ok:
  assumes "setPositionHolder v p h fi te ac s = Inr s'" "primary_ok (assignments s)"
    and "fresh_id v s \<notin> pa_id ` set (assignments s)"
  shows "primary_ok (assignments s')"
proof (cases "truthy_str h")
  case True
  with assms(1) obtain a st where
    "createPositionAssignment v p h (Some ''PRIMARY'') (coalesce fi (At (now v))) Absent te ac s = Inr (a, st, s')"
    by (auto simp: setPositionHolder_def split: if_splits sum.splits prod.splits)
  from createPositionAssignment_ok [OF this assms(2,3)] show ?thesis .
next
  case False
  show ?thesis
  proof (cases "activePrimary (now v) (assignments_of s p)")
    case None
    with False assms(1,2) show ?thesis
      by (auto simp: setPositionHolder_def add_audit_def set_holder_def Let_def split: if_splits)
  next
    case (Some a)
    have same: "b = a" if "b \<in> set (assignments s)" "pa_id b = pa_id a" for b
      using that Some assms(2) distinct_column_unique [of pa_id "assignments s" b a]
      by (auto simp: primary_ok_def activePrimary_def assignments_of_def dest!: tfind_SomeD)
    have "assignments s' = (if pa_to a = None then
        tupd (\<lambda>b. pa_id b = pa_id a) (\<lambda>b. b\<lparr>pa_to := Some (now v)\<rparr>) (assignments s) else assignments s)"
      using False assms(1) Some
      by (auto simp: setPositionHolder_def add_audit_def set_holder_def Let_def split: if_splits)
    moreover have "tupd (\<lambda>b. pa_id b = pa_id a) (\<lambda>b. b\<lparr>pa_to := Some (now v)\<rparr>) (assignments s) =
        tupd (\<lambda>b. pa_id b = pa_id a \<and> pa_to b = pa_to a) (\<lambda>b. b\<lparr>pa_to := Some (now v)\<rparr>) (assignments s)"
      using same by (auto simp: tupd_def)
    moreover have "shrinks (\<lambda>b. b\<lparr>pa_to := Some (now v)\<rparr>) (\<lambda>b. pa_id b = pa_id a \<and> pa_to b = pa_to a)"
      if "pa_to a = None" using that by (simp add: shrinks_def)
    ultimately show ?thesis using primary_ok_shrink [OF assms(2)] assms(2) by (auto split: if_splits)
  qed
qed

text \<open>The writes on delegations and assignments as steps.\<close>

inductive tenure_step :: "idb \<Rightarrow> idb \<Rightarrow> bool" where
  ts_assign: "createPositionAssignment v p pe ki fi ti te ac s = Inr (a, st, s') \<Longrightarrow>
     fresh_id v s \<notin> pa_id ` set (assignments s) \<Longrightarrow> tenure_step s s'"
| ts_revoke: "deletePositionAssignment v p i te ac s = Inr (h, s') \<Longrightarrow> tenure_step s s'"
| ts_holder: "setPositionHolder v p h fi te ac s = Inr s' \<Longrightarrow>
     fresh_id v s \<notin> pa_id ` set (assignments s) \<Longrightarrow> tenure_step s s'"
| ts_delegate: "createDelegation v fu tu fd td r te ac s = Inr (d, s') \<Longrightarrow> tenure_step s s'"
| ts_undelegate: "deleteDelegation i te ac s = Inr s' \<Longrightarrow> tenure_step s s'"

lemma delegation_frame:
  "createDelegation v fu tu fd td r te ac s = Inr (d, s') \<Longrightarrow> assignments s' = assignments s"
  "deleteDelegation i te ac s = Inr s' \<Longrightarrow> assignments s' = assignments s"
  by (auto simp: createDelegation_def deleteDelegation_def add_audit_def Let_def
      split: if_splits date_in.splits)

lemma assignment_frame:
  "createPositionAssignment v p pe ki fi ti te ac s = Inr (a, st, s') \<Longrightarrow> delegations s' = delegations s"
  "deletePositionAssignment v p i te ac s = Inr (h, s') \<Longrightarrow> delegations s' = delegations s"
  by (auto simp: createPositionAssignment_def deletePositionAssignment_def add_audit_def syncHolderCache_def
      set_holder_def Let_def split: if_splits date_in.splits option.splits)

lemma holder_frame: "setPositionHolder v p h fi te ac s = Inr s' \<Longrightarrow> delegations s' = delegations s"
  by (auto simp: setPositionHolder_def Let_def add_audit_def set_holder_def assignment_frame(1)
      split: if_splits option.splits sum.splits prod.splits)

lemma tenure_step_ok:
  "tenure_step s s' \<Longrightarrow> primary_ok (assignments s) \<and> deleg_ok (delegations s) \<Longrightarrow>
     primary_ok (assignments s') \<and> deleg_ok (delegations s')"
proof (induction rule: tenure_step.induct)
  case ts_assign
  then show ?case using createPositionAssignment_ok assignment_frame(1) by metis
next
  case ts_revoke
  then show ?case using deletePositionAssignment_ok assignment_frame(2) by metis
next
  case ts_holder
  then show ?case using setPositionHolder_ok holder_frame by metis
next
  case ts_delegate
  then show ?case using createDelegation_ok delegation_frame(1) by metis
next
  case ts_undelegate
  then show ?case using deleteDelegation_ok delegation_frame(2) by metis
qed

lemma tenure_steps_ok:
  "tenure_step\<^sup>*\<^sup>* s s' \<Longrightarrow> primary_ok (assignments s) \<and> deleg_ok (delegations s) \<Longrightarrow>
     primary_ok (assignments s') \<and> deleg_ok (delegations s')"
  by (induction rule: rtranclp_induct) (auto dest: tenure_step_ok)

subsection \<open>Properties\<close>

text \<open>
  C31. However delegations and holder assignments are created and revoked, two delegations whose
  windows meet never have the same delegator and never point at each other, nobody delegates to
  himself, and no position has two PRIMARY assignments whose windows meet.
\<close>
theorem tenure_exclusive:
  assumes "tenure_step\<^sup>*\<^sup>* s s'" "primary_ok (assignments s)" "deleg_ok (delegations s)"
  shows "(\<forall>d \<in> set (delegations s'). \<forall>e \<in> set (delegations s'). d \<noteq> e \<longrightarrow> windows_meet d e \<longrightarrow>
            dl_from d \<noteq> dl_from e \<and> \<not> (dl_from d = dl_to e \<and> dl_to d = dl_from e)) \<and>
         (\<forall>d \<in> set (delegations s'). dl_from d \<noteq> dl_to d) \<and>
         (\<forall>a \<in> set (assignments s'). \<forall>b \<in> set (assignments s'). a \<noteq> b \<longrightarrow>
            pa_position a = pa_position b \<longrightarrow> pa_kind a = ''PRIMARY'' \<longrightarrow> pa_kind b = ''PRIMARY'' \<longrightarrow>
            \<not> (le_end (pa_from a) (pa_to b) \<and> le_end (pa_from b) (pa_to a)))"
proof -
  from tenure_steps_ok [OF assms(1)] assms(2,3)
  have p: "pairwise (\<lambda>a b. \<not> pa_clash a b) (set (assignments s'))" and d: "deleg_ok (delegations s')"
    by (simp_all add: primary_ok_def)
  show ?thesis
  proof (intro conjI)
    show "\<forall>a \<in> set (assignments s'). \<forall>b \<in> set (assignments s'). a \<noteq> b \<longrightarrow>
            pa_position a = pa_position b \<longrightarrow> pa_kind a = ''PRIMARY'' \<longrightarrow> pa_kind b = ''PRIMARY'' \<longrightarrow>
            \<not> (le_end (pa_from a) (pa_to b) \<and> le_end (pa_from b) (pa_to a))"
      using p unfolding pairwise_def pa_clash_def by blast
  qed (use d in \<open>auto simp: deleg_ok_def deleg_pair_ok_def pairwise_def\<close>)
qed

text \<open>
  The cached holder is exact: after a PRIMARY assignment is created for a position, the
  position's \<open>holderPersonId\<close> is the person of the PRIMARY assignment whose window contains the
  present instant, and is empty when there is none; no other position changes.
\<close>
theorem holder_cache_exact:
  assumes "createPositionAssignment v p pe ki fi ti te ac s = Inr (a, st, s')" "pa_kind a = ''PRIMARY''"
    and "primary_ok (assignments s)" "fresh_id v s \<notin> pa_id ` set (assignments s)"
  shows "\<forall>q \<in> set (positions s').
     (if po_id q = p then po_holder q = Some h \<longleftrightarrow> (\<exists>b. active_holder (now v) s' p b \<and> pa_person b = h)
      else q \<in> set (positions s))"
proof -
  note ok = createPositionAssignment_ok [OF assms(1,3,4)]
  have "positions s' = tupd (\<lambda>q. po_id q = p)
      (\<lambda>q. q\<lparr>po_holder := map_option pa_person (activePrimary (now v) (assignments_of s' p))\<rparr>) (positions s)"
    using assms(1,2)
    by (auto simp: createPositionAssignment_def Let_def add_audit_def syncHolderCache_def set_holder_def
        assignments_of_def split: if_splits date_in.splits)
  then show ?thesis
    using activePrimary_iff [OF ok] by (auto simp: set_tupd)
qed

definition demo_tenure :: idb where
  "demo_tenure = demo_idb\<lparr>
     people := [\<lparr>p_id = ''p1'', p_fullName = ''An'', p_email = None, p_ext = JNull\<rparr>,
                \<lparr>p_id = ''p2'', p_fullName = ''Binh'', p_email = None, p_ext = JNull\<rparr>],
     assignments := [\<lparr>pa_id = ''a1'', pa_position = ''pos1'', pa_person = ''p1'', pa_kind = ''PRIMARY'',
        pa_from = 10, pa_to = None\<rparr>], id_seq := 7\<rparr>"

definition demo_succession :: "(pos_assignment \<times> assign_status \<times> idb) res" where
  "demo_succession = createPositionAssignment demo_env ''pos1'' (Some ''p2'') (Some ''primary'') (At 40) Absent
     ''t1'' ''admin'' demo_tenure"

definition after_succession :: idb where
  "after_succession = (case demo_succession of Inr (_, _, s) \<Rightarrow> s | Inl _ \<Rightarrow> demo_tenure)"

definition new_primary :: pos_assignment where
  "new_primary = \<lparr>pa_id = ''id7'', pa_position = ''pos1'', pa_person = ''p2'', pa_kind = ''PRIMARY'',
     pa_from = 40, pa_to = None\<rparr>"

lemma demo_succession_eq: "demo_succession = Inr (new_primary, Active, after_succession)"
  by code_simp

lemma demo_tenure_ok: "primary_ok (assignments demo_tenure)" "deleg_ok (delegations demo_tenure)"
    "fresh_id demo_env demo_tenure \<notin> pa_id ` set (assignments demo_tenure)"
  by (simp_all add: demo_tenure_def demo_idb_def empty_idb_def primary_ok_def deleg_ok_def)
    (code_simp)

lemma succession_rows:
  "assignments after_succession = [\<lparr>pa_id = ''a1'', pa_position = ''pos1'', pa_person = ''p1'', pa_kind = ''PRIMARY'',
      pa_from = 10, pa_to = Some (-960)\<rparr>, new_primary]"
  "map po_id (positions after_succession) = [''pos1'']"
  by code_simp+

lemma tenure_exclusive_witness:
  "\<not> (le_end (pa_from (hd (assignments after_succession))) (pa_to new_primary) \<and>
      le_end (pa_from new_primary) (pa_to (hd (assignments after_succession))))"
proof -
  have "tenure_step\<^sup>*\<^sup>* demo_tenure after_succession"
    by (rule r_into_rtranclp, rule ts_assign [OF demo_succession_eq [unfolded demo_succession_def] demo_tenure_ok(3)])
  from tenure_exclusive [OF this demo_tenure_ok(1,2), THEN conjunct2]
  show ?thesis by (simp add: succession_rows new_primary_def)
qed

lemma holder_cache_exact_witness:
  "\<exists>q \<in> set (positions after_succession). po_id q = ''pos1'' \<and> (po_holder q = Some ''p2'' \<longleftrightarrow>
        (\<exists>b. active_holder (now demo_env) after_succession ''pos1'' b \<and> pa_person b = ''p2''))"
proof -
  have "\<forall>q \<in> set (positions after_succession).
     (if po_id q = ''pos1'' then po_holder q = Some ''p2'' \<longleftrightarrow>
        (\<exists>b. active_holder (now demo_env) after_succession ''pos1'' b \<and> pa_person b = ''p2'')
      else q \<in> set (positions demo_tenure))"
    by (rule holder_cache_exact [OF demo_succession_eq [unfolded demo_succession_def] _ demo_tenure_ok(1,3)])
      (simp add: new_primary_def)
  moreover from succession_rows(2) obtain q where "q \<in> set (positions after_succession)" "po_id q = ''pos1''"
    by (cases "positions after_succession") auto
  ultimately show ?thesis by (intro bexI [of _ q]) (simp_all add: Ball_def)
qed

end
