(* ===== verification/Workflow_Engine.thy ===== *)
theory Workflow_Engine
  imports Connector
begin

section \<open>The token engine\<close>

text \<open>
  How xhub-api/src/xoffice/xoffice.service.ts walks a workflow definition: \<open>simulate\<close>, the
  single-token \<open>advance\<close> of the scheduler and the multi-token \<open>advanceMulti\<close> behind requests,
  approvals and external references. The loops carry the source's own guards (\<open>MAX_WALK\<close> and
  four times it) as fuel; what the source does when a guard runs out is what the model does at
  fuel 0, so no further bound is chosen.
\<close>

subsection \<open>Simulation\<close>

datatype outcome =
    Passed | CondYes | CondNo | AutoApproved | CallMissing "string list" | CallResolved | Ended

record sim_step =
  ss_node :: string
  ss_outcome :: outcome
  ss_preview :: "resolved option"

record simulation =
  sim_path :: "string list"
  sim_steps :: "sim_step list"
  sim_end :: bool

definition node_outcome :: "cfg \<Rightarrow> wnode \<Rightarrow> json \<Rightarrow> (outcome \<times> resolved option) res" where
  "node_outcome c n vars =
     (if n_type n = NCondition then
        (case evalExpr (get_prop (n_config n) ''expression'') vars of
           Inl e \<Rightarrow> Inl e | Inr b \<Rightarrow> Inr (if b then CondYes else CondNo, None))
      else if stop_type (n_type n) then Inr (AutoApproved, None)
      else if n_type n = NServiceCall then
        (let r = resolveConnectorPayload c (n_config n) vars in
         Inr (if r_missing r \<noteq> [] then CallMissing (r_missing r) else CallResolved, Some r))
      else if n_type n = NEnd then Inr (Ended, None)
      else Inr (Passed, None))"

fun sim_walk :: "cfg \<Rightarrow> wdef \<Rightarrow> json \<Rightarrow> nat \<Rightarrow> wnode option \<Rightarrow> simulation \<Rightarrow> simulation res" where
  "sim_walk c d vars (Suc k) (Some cur) r =
     (case node_outcome c cur vars of
        Inl e \<Rightarrow> Inl e
      | Inr (out, pre) \<Rightarrow>
          (let r' = r\<lparr>sim_path := sim_path r @ [n_id cur],
                      sim_steps := sim_steps r @ [\<lparr>ss_node = n_id cur, ss_outcome = out, ss_preview = pre\<rparr>]\<rparr> in
           if n_type cur = NEnd then Inr (r'\<lparr>sim_end := True\<rparr>)
           else case nextEdge cur (d_edges d) vars of
             Inl e \<Rightarrow> Inl e
           | Inr None \<Rightarrow> Inr r'
           | Inr (Some e) \<Rightarrow> sim_walk c d vars k (find_node (d_nodes d) (e_target e)) r'))"
| "sim_walk c d vars _ _ r = Inr r"

definition start_node :: "wdef \<Rightarrow> wnode option" where
  "start_node d = tfind (\<lambda>n. n_type n = NStart) (d_nodes d)"

definition simulate :: "cfg \<Rightarrow> wdef \<Rightarrow> json \<Rightarrow> simulation res" where
  "simulate c d vars =
     sim_walk c d vars MAX_WALK (start_node d) \<lparr>sim_path = [], sim_steps = [], sim_end = False\<rparr>"

subsection \<open>The single-token walk\<close>

record walk =
  w_completed :: bool
  w_current :: "string option"
  w_calls :: "wnode list"

fun advance_walk :: "wdef \<Rightarrow> json \<Rightarrow> nat \<Rightarrow> wnode option \<Rightarrow> walk \<Rightarrow> (wnode option \<times> walk) res" where
  "advance_walk d vars (Suc k) (Some cur) w =
     (if stop_type (n_type cur) then Inr (Some cur, w)
      else (let w1 = (if n_type cur = NServiceCall then w\<lparr>w_calls := w_calls w @ [cur]\<rparr> else w) in
            if n_type cur = NEnd then Inr (None, w1\<lparr>w_completed := True, w_current := Some (n_id cur)\<rparr>)
            else case nextEdge cur (d_edges d) vars of
              Inl e \<Rightarrow> Inl e
            | Inr None \<Rightarrow> Inr (None, w1\<lparr>w_current := Some (n_id cur)\<rparr>)
            | Inr (Some e) \<Rightarrow> advance_walk d vars k (find_node (d_nodes d) (e_target e)) w1))"
| "advance_walk d vars 0 (Some cur) w = Inr (if stop_type (n_type cur) then Some cur else None, w)"
| "advance_walk d vars k None w = Inr (None, w)"

definition advance :: "wdef \<Rightarrow> string \<Rightarrow> json \<Rightarrow> walk \<Rightarrow> (wnode option \<times> walk) res" where
  "advance d i vars w = advance_walk d vars MAX_WALK (find_node (d_nodes d) i) w"

subsection \<open>The multi-token walk\<close>

text \<open>\<open>active\<close> is the list of node ids where tokens rest; the other fields are the source's \<open>ctx\<close>.\<close>

record tokens =
  active :: "string list"
  calls :: "wnode list"
  subflows :: "wnode list"
  stops :: "wnode list"
  externals :: "wnode list"
  endReached :: bool

definition no_tokens :: "string list \<Rightarrow> tokens" where
  "no_tokens act = \<lparr>active = act, calls = [], subflows = [], stops = [], externals = [], endReached = False\<rparr>"

definition first_out :: "wdef \<Rightarrow> string \<Rightarrow> string list" where
  "first_out d i = (case outs_of (d_edges d) i of [] \<Rightarrow> [] | e # _ \<Rightarrow> [e_target e])"

definition join_need :: "wdef \<Rightarrow> string \<Rightarrow> nat" where
  "join_need d i = max 1 (incoming (d_edges d) i)"

definition enter_join :: "wdef \<Rightarrow> wnode \<Rightarrow> tokens \<Rightarrow> string list \<times> tokens" where
  "enter_join d n t =
     (let act = active t @ [n_id n] in
      if join_need d (n_id n) \<le> count_list act (n_id n)
      then (first_out d (n_id n), t\<lparr>active := filter (\<lambda>x. x \<noteq> n_id n) act\<rparr>)
      else ([], t\<lparr>active := act\<rparr>))"

definition enter_call :: "cfg \<Rightarrow> wdef \<Rightarrow> wnode \<Rightarrow> tokens \<Rightarrow> string list \<times> tokens" where
  "enter_call c d n t =
     (if serviceCallMode c (n_config n) = AUTO
      then (first_out d (n_id n), t\<lparr>calls := calls t @ [n]\<rparr>)
      else ([], t\<lparr>active := active t @ [n_id n], externals := externals t @ [n]\<rparr>))"

text \<open>One turn of the loop: the token enters a node; the result lists the nodes it goes on to.\<close>

definition token_step :: "cfg \<Rightarrow> wdef \<Rightarrow> json \<Rightarrow> string \<Rightarrow> tokens \<Rightarrow> (string list \<times> tokens) res" where
  "token_step c d vars i t =
     (case by_id (d_nodes d) i of
        None \<Rightarrow> Inr ([], t)
      | Some n \<Rightarrow>
          (case n_type n of
             NApproval \<Rightarrow> Inr ([], t\<lparr>active := active t @ [n_id n], stops := stops t @ [n]\<rparr>)
           | NHumanTask \<Rightarrow> Inr ([], t\<lparr>active := active t @ [n_id n], stops := stops t @ [n]\<rparr>)
           | NEnd \<Rightarrow> Inr ([], t\<lparr>endReached := True\<rparr>)
           | NParallelSplit \<Rightarrow> Inr (targets (d_edges d) (n_id n), t)
           | NParallelJoin \<Rightarrow> Inr (enter_join d n t)
           | NCondition \<Rightarrow>
               (case nextEdge n (d_edges d) vars of
                  Inl e \<Rightarrow> Inl e
                | Inr None \<Rightarrow> Inr ([], t)
                | Inr (Some e) \<Rightarrow> Inr ([e_target e], t))
           | NServiceCall \<Rightarrow> Inr (enter_call c d n t)
           | NSubflow \<Rightarrow> Inr (first_out d (n_id n), t\<lparr>subflows := subflows t @ [n]\<rparr>)
           | _ \<Rightarrow> Inr (first_out d (n_id n), t)))"

text \<open>The loop; the second component is the work list left when the guard runs out.\<close>

fun token_loop :: "cfg \<Rightarrow> wdef \<Rightarrow> json \<Rightarrow> nat \<Rightarrow> string list \<Rightarrow> tokens \<Rightarrow> (tokens \<times> string list) res" where
  "token_loop c d vars (Suc k) (i # wl) t =
     (case token_step c d vars i t of
        Inl e \<Rightarrow> Inl e
      | Inr (out, t') \<Rightarrow> token_loop c d vars k (wl @ out) t')"
| "token_loop c d vars _ wl t = Inr (t, wl)"

definition advanceMulti :: "cfg \<Rightarrow> wdef \<Rightarrow> string list \<Rightarrow> json \<Rightarrow> tokens \<Rightarrow> tokens res" where
  "advanceMulti c d entry vars t =
     (case token_loop c d vars (MAX_WALK * 4) entry t of Inl e \<Rightarrow> Inl e | Inr (t', _) \<Rightarrow> Inr t')"

subsection \<open>Invariants of the loop\<close>

lemma token_loop_invariant:
  assumes "token_loop c d vars k wl t = Inr (t', wl')" "P t"
    and "\<And>i t out t'. token_step c d vars i t = Inr (out, t') \<Longrightarrow> P t \<Longrightarrow> P t'"
  shows "P t'"
  using assms(1,2)
proof (induction k arbitrary: wl t)
  case (Suc k)
  show ?case
  proof (cases wl)
    case (Cons i wl0)
    with Suc.prems(1) obtain out t1 where step: "token_step c d vars i t = Inr (out, t1)"
        "token_loop c d vars k (wl0 @ out) t1 = Inr (t', wl')"
      by (auto split: sum.splits)
    with Suc.IH assms(3) Suc.prems(2) show ?thesis by blast
  qed (use Suc.prems in simp)
qed simp

lemma advanceMulti_invariant:
  assumes "advanceMulti c d entry vars t = Inr t'" "P t"
    and "\<And>i t out t'. token_step c d vars i t = Inr (out, t') \<Longrightarrow> P t \<Longrightarrow> P t'"
  shows "P t'"
proof -
  from assms(1) obtain wl where "token_loop c d vars (MAX_WALK * 4) entry t = Inr (t', wl)"
    by (auto simp: advanceMulti_def split: sum.splits prod.splits)
  from token_loop_invariant [where P = P, OF this assms(2) assms(3)] show ?thesis .
qed

text \<open>The nodes a token may rest on.\<close>

definition rest_node :: "cfg \<Rightarrow> wnode \<Rightarrow> bool" where
  "rest_node c n \<longleftrightarrow> stop_type (n_type n) \<or> n_type n = NParallelJoin \<or>
     n_type n = NServiceCall \<and> serviceCallMode c (n_config n) \<noteq> AUTO"

lemmas token_step_defs = token_step_def enter_join_def enter_call_def Let_def

lemma token_step_active:
  assumes "token_step c d vars i t = Inr (out, t')" "x \<in> set (active t')"
  shows "x \<in> set (active t) \<or> (\<exists>n. by_id (d_nodes d) x = Some n \<and> rest_node c n)"
proof (cases "by_id (d_nodes d) i")
  case None
  with assms show ?thesis by (simp add: token_step_def)
next
  case (Some n)
  then have "n_id n = i" by (simp add: by_id_Some)
  with Some assms show ?thesis
    by (auto simp: token_step_defs rest_node_def stop_type_def
        split: node_type.splits if_splits sum.splits option.splits)
qed

text \<open>The books of the stops: one resting token for each stop reported.\<close>

definition books :: "(tokens \<Rightarrow> wnode list) \<Rightarrow> string \<Rightarrow> tokens \<Rightarrow> tokens \<Rightarrow> bool" where
  "books f x t0 t \<longleftrightarrow> count_list (active t) x + count_list (map n_id (f t0)) x =
     count_list (active t0) x + count_list (map n_id (f t)) x"

lemma count_list_filter_neq:
  "count_list (filter (\<lambda>z. z \<noteq> y) xs) x = (if y = x then 0 else count_list xs x)"
  by (induction xs) auto

lemma count_list_snoc: "count_list (xs @ [y]) x = count_list xs x + (if y = x then 1 else 0)"
  by (induction xs) auto

lemma token_step_stops:
  assumes "by_id (d_nodes d) x = Some m" "stop_type (n_type m)"
    "token_step c d vars i t = Inr (out, t')" "books stops x t0 t"
  shows "books stops x t0 t'"
proof (cases "by_id (d_nodes d) i")
  case None
  with assms show ?thesis by (simp add: token_step_def)
next
  case (Some n)
  then have i: "n_id n = i" by (simp add: by_id_Some)
  with Some assms(1,2) have "i = x \<Longrightarrow> stop_type (n_type n)" by auto
  with Some i assms(3,4) show ?thesis
    by (auto simp: token_step_defs stop_type_def books_def count_list_snoc count_list_filter_neq
        split: node_type.splits if_splits sum.splits option.splits)
qed

lemma token_step_externals:
  assumes "by_id (d_nodes d) x = Some m" "n_type m = NServiceCall"
    "token_step c d vars i t = Inr (out, t')" "books externals x t0 t"
  shows "books externals x t0 t'"
proof (cases "by_id (d_nodes d) i")
  case None
  with assms show ?thesis by (simp add: token_step_def)
next
  case (Some n)
  then have i: "n_id n = i" by (simp add: by_id_Some)
  with Some assms(1,2) have "i = x \<Longrightarrow> n_type n = NServiceCall" by auto
  with Some i assms(3,4) show ?thesis
    by (auto simp: token_step_defs books_def count_list_snoc count_list_filter_neq
        split: node_type.splits if_splits sum.splits option.splits)
qed

text \<open>The queues hold nodes of the definition of the right kind.\<close>

definition queues_ok :: "cfg \<Rightarrow> wdef \<Rightarrow> tokens \<Rightarrow> bool" where
  "queues_ok c d t \<longleftrightarrow>
     (\<forall>n \<in> set (stops t). by_id (d_nodes d) (n_id n) = Some n \<and> stop_type (n_type n)) \<and>
     (\<forall>n \<in> set (calls t). by_id (d_nodes d) (n_id n) = Some n \<and> n_type n = NServiceCall \<and>
        serviceCallMode c (n_config n) = AUTO) \<and>
     (\<forall>n \<in> set (subflows t). by_id (d_nodes d) (n_id n) = Some n \<and> n_type n = NSubflow) \<and>
     (\<forall>n \<in> set (externals t). by_id (d_nodes d) (n_id n) = Some n \<and> n_type n = NServiceCall \<and>
        serviceCallMode c (n_config n) \<noteq> AUTO)"

lemma token_step_queues:
  assumes "token_step c d vars i t = Inr (out, t')" "queues_ok c d t"
  shows "queues_ok c d t'"
proof (cases "by_id (d_nodes d) i")
  case None
  with assms show ?thesis by (simp add: token_step_def)
next
  case (Some n)
  then have "by_id (d_nodes d) (n_id n) = Some n" by (simp add: by_id_Some)
  with Some assms show ?thesis
    by (cases "n_type n")
      (auto simp: token_step_defs queues_ok_def stop_type_def split: if_splits sum.splits option.splits)
qed

text \<open>A join never holds as many tokens as it has incoming edges: it fires when they are there.\<close>

lemma token_step_join:
  assumes "by_id (d_nodes d) x = Some m" "n_type m = NParallelJoin"
    "token_step c d vars i t = Inr (out, t')" "count_list (active t) x < join_need d x"
  shows "count_list (active t') x < join_need d x"
proof (cases "by_id (d_nodes d) i")
  case None
  with assms show ?thesis by (simp add: token_step_def)
next
  case (Some n)
  then have i: "n_id n = i" by (simp add: by_id_Some)
  with Some assms(1,2) have "i = x \<Longrightarrow> n_type n = NParallelJoin" by auto
  moreover have "0 < join_need d x" by (simp add: join_need_def)
  ultimately show ?thesis using Some i assms(3,4)
    by (auto simp: token_step_defs count_list_snoc count_list_filter_neq
        split: node_type.splits if_splits sum.splits option.splits)
qed

subsection \<open>One token: the refinement of the single-token walk\<close>

definition linear :: "cfg \<Rightarrow> wdef \<Rightarrow> bool" where
  "linear c d \<longleftrightarrow> distinct (map n_id (d_nodes d)) \<and>
     (\<forall>n \<in> set (d_nodes d). n_type n \<notin> {NParallelSplit, NParallelJoin, NSubflow} \<and>
        (n_type n = NServiceCall \<longrightarrow> serviceCallMode c (n_config n) = AUTO))"

lemma nextEdge_simple:
  "n_type n \<noteq> NCondition \<Longrightarrow> nextEdge n (d_edges d) vars =
     Inr (case outs_of (d_edges d) (n_id n) of [] \<Rightarrow> None | e # _ \<Rightarrow> Some e)"
  by (auto simp: nextEdge_def Let_def split: list.splits)

definition pass :: "wnode \<Rightarrow> tokens \<Rightarrow> tokens" where
  "pass n t = (if n_type n = NServiceCall then t\<lparr>calls := calls t @ [n]\<rparr> else t)"

lemma linear_step:
  assumes "linear c d" "by_id (d_nodes d) i = Some n" "\<not> stop_type (n_type n)" "n_type n \<noteq> NEnd"
  shows "token_step c d vars i t =
    (case nextEdge n (d_edges d) vars of
       Inl e \<Rightarrow> Inl e
     | Inr None \<Rightarrow> Inr ([], pass n t)
     | Inr (Some e) \<Rightarrow> Inr ([e_target e], pass n t))"
proof -
  from assms(2) have n: "n \<in> set (d_nodes d)" by (simp add: by_id_Some)
  then have ty: "n_type n \<notin> {NParallelSplit, NParallelJoin, NSubflow}"
    and auto: "n_type n = NServiceCall \<Longrightarrow> serviceCallMode c (n_config n) = AUTO"
    using assms(1) by (auto simp: linear_def)
  show ?thesis
  proof (cases "n_type n = NCondition")
    case True
    with assms(2) show ?thesis by (simp add: token_step_def pass_def split: sum.splits option.splits)
  next
    case False
    with assms(2,3,4) ty auto show ?thesis
      by (auto simp: token_step_def nextEdge_simple first_out_def enter_call_def pass_def stop_type_def
          split: node_type.splits list.splits)
  qed
qed

lemma token_loop_nil [simp]: "token_loop c d vars k [] t = Inr (t, [])"
  by (cases k) simp_all

lemma advance_refined:
  assumes lin: "linear c d"
  shows "k < K \<Longrightarrow> calls t = w_calls w \<Longrightarrow> \<not> w_completed w \<Longrightarrow>
    advance_walk d vars k (find_node (d_nodes d) i) w = Inr (r, w') \<Longrightarrow>
    (\<forall>n. r = Some n \<longrightarrow> token_loop c d vars K [i] t =
       Inr (t\<lparr>active := active t @ [n_id n], stops := stops t @ [n], calls := w_calls w'\<rparr>, [])) \<and>
    (r = None \<longrightarrow> w_completed w' \<longrightarrow> token_loop c d vars K [i] t =
       Inr (t\<lparr>calls := w_calls w', endReached := True\<rparr>, []))"
proof (induction k arbitrary: K i t w)
  case 0
  then obtain K0 where K: "K = Suc K0" by (cases K) auto
  have eq: "find_node (d_nodes d) i = by_id (d_nodes d) i"
    using lin by (simp add: linear_def find_node_by_id)
  show ?case
  proof (cases "by_id (d_nodes d) i")
    case None
    with 0 eq show ?thesis by auto
  next
    case (Some n)
    with 0 eq K show ?thesis
      by (auto simp: token_step_def stop_type_def split: if_splits)
  qed
next
  case (Suc k)
  then obtain K0 where K: "K = Suc K0" "k < K0" by (cases K) auto
  have eq: "find_node (d_nodes d) i = by_id (d_nodes d) i"
    using lin by (simp add: linear_def find_node_by_id)
  show ?case
  proof (cases "by_id (d_nodes d) i")
    case None
    with Suc.prems eq show ?thesis by auto
  next
    case (Some n)
    have prem: "advance_walk d vars (Suc k) (Some n) w = Inr (r, w')" using Suc.prems(4) eq Some by simp
    let ?w1 = "if n_type n = NServiceCall then w\<lparr>w_calls := w_calls w @ [n]\<rparr> else w"
    show ?thesis
    proof (cases "stop_type (n_type n) \<or> n_type n = NEnd")
      case True
      with Some prem K Suc.prems(2) show ?thesis
        by (auto simp: token_step_def stop_type_def Let_def split: if_splits)
    next
      case False
      note step = linear_step [OF lin Some, of vars t]
      show ?thesis
      proof (cases "nextEdge n (d_edges d) vars")
        case (Inl e)
        with prem False show ?thesis by (simp add: Let_def)
      next
        case (Inr oe)
        show ?thesis
        proof (cases oe)
          case None
          with prem False Inr Suc.prems(3) show ?thesis by (auto simp: Let_def)
        next
          case (Some e)
          have "advance_walk d vars k (find_node (d_nodes d) (e_target e)) ?w1 = Inr (r, w')"
            using prem False Inr Some by (simp add: Let_def)
          from Suc.IH [OF K(2) _ _ this, of "pass n t"] Suc.prems(2,3) False Inr Some K step
          show ?thesis by (simp add: pass_def split: if_splits)
        qed
      qed
    qed
  qed
qed

subsection \<open>The guard never cuts a forward walk\<close>

definition descendants :: "wdef \<Rightarrow> string \<Rightarrow> string set" where
  "descendants d i = (arcs (d_edges d))\<^sup>+ `` {i}"

lemma descendants_targets: "descendants d i \<subseteq> e_target ` set (d_edges d)"
  by (auto simp: descendants_def arcs_def elim: tranclE)

lemma finite_descendants: "finite (descendants d i)"
  using descendants_targets finite_subset by blast

lemma descendants_less:
  assumes "acyclic (arcs (d_edges d))" "(i, j) \<in> arcs (d_edges d)"
  shows "card (descendants d j) < card (descendants d i)"
proof (rule psubset_card_mono [OF finite_descendants])
  have "descendants d j \<subseteq> descendants d i"
    using assms(2) by (auto simp: descendants_def intro: trancl_into_trancl2)
  moreover have "j \<in> descendants d i" using assms(2) by (auto simp: descendants_def)
  moreover have "j \<notin> descendants d j" using assms(1) by (auto simp: descendants_def acyclic_def)
  ultimately show "descendants d j \<subset> descendants d i" by blast
qed

lemma first_out_targets: "set (first_out d i) \<subseteq> set (targets (d_edges d) i) \<and> length (first_out d i) \<le> 1"
  by (auto simp: first_out_def targets_def split: list.splits)

lemma token_step_out:
  assumes "token_step c d vars i t = Inr (out, t')" "\<And>n. n \<in> set (d_nodes d) \<Longrightarrow> n_type n \<noteq> NParallelSplit"
  shows "set out \<subseteq> {j. (i, j) \<in> arcs (d_edges d)} \<and> length out \<le> 1"
proof (cases "by_id (d_nodes d) i")
  case None
  with assms show ?thesis by (simp add: token_step_def)
next
  case (Some n)
  then have n: "n_id n = i" "n_type n \<noteq> NParallelSplit" using assms(2) by (simp_all add: by_id_Some)
  have edge: "nextEdge n (d_edges d) vars = Inr (Some e) \<Longrightarrow> (i, e_target e) \<in> arcs (d_edges d)" for e
    using n(1) by (drule_tac nextEdge_out) (auto simp: arcs_def intro: rev_image_eqI)
  have first: "set (first_out d i) \<subseteq> {j. (i, j) \<in> arcs (d_edges d)}" "length (first_out d i) \<le> 1"
    using first_out_targets [of d i] by (auto simp: in_targets_iff)
  from Some n assms(1) edge first show ?thesis
    by (auto simp: token_step_defs split: node_type.splits if_splits sum.splits option.splits)
qed

lemma token_loop_drains:
  assumes "acyclic (arcs (d_edges d))" "\<And>n. n \<in> set (d_nodes d) \<Longrightarrow> n_type n \<noteq> NParallelSplit"
  shows "token_loop c d vars k [i] t = Inr (t', wl) \<Longrightarrow> card (descendants d i) < k \<Longrightarrow> wl = []"
proof (induction k arbitrary: i t)
  case (Suc k)
  from Suc.prems(1) obtain out t1 where step: "token_step c d vars i t = Inr (out, t1)"
      "token_loop c d vars k out t1 = Inr (t', wl)"
    by (auto split: sum.splits)
  note out = token_step_out [OF step(1) assms(2)]
  show ?case
  proof (cases out)
    case Nil
    with step(2) show ?thesis by simp
  next
    case (Cons j rest)
    with out have "out = [j]" "(i, j) \<in> arcs (d_edges d)" by auto
    with step(2) Suc.IH Suc.prems(2) descendants_less [OF assms(1)] show ?thesis by fastforce
  qed
qed simp

subsection \<open>Simulation follows the graph\<close>

fun is_path :: "(string \<times> string) set \<Rightarrow> string list \<Rightarrow> bool" where
  "is_path R (x # y # ys) \<longleftrightarrow> (x, y) \<in> R \<and> is_path R (y # ys)"
| "is_path R _ \<longleftrightarrow> True"

lemma is_path_snoc: "is_path R (xs @ [y]) \<longleftrightarrow> is_path R xs \<and> (xs \<noteq> [] \<longrightarrow> (last xs, y) \<in> R)"
proof (induction xs)
  case (Cons x xs)
  then show ?case by (cases xs) auto
qed simp

definition sim_ok :: "wdef \<Rightarrow> simulation \<Rightarrow> bool" where
  "sim_ok d r \<longleftrightarrow> is_path (arcs (d_edges d)) (sim_path r) \<and>
     map ss_node (sim_steps r) = sim_path r \<and>
     (sim_end r \<longrightarrow> sim_path r \<noteq> [] \<and>
        (\<exists>n \<in> set (d_nodes d). n_id n = last (sim_path r) \<and> n_type n = NEnd))"

lemma sim_walk_ok:
  "sim_walk c d vars k cur r = Inr r' \<Longrightarrow> sim_ok d r \<Longrightarrow>
   (\<And>n. cur = Some n \<Longrightarrow> n \<in> set (d_nodes d) \<and>
      (sim_path r \<noteq> [] \<longrightarrow> (last (sim_path r), n_id n) \<in> arcs (d_edges d))) \<Longrightarrow>
   \<not> sim_end r \<Longrightarrow>
   sim_ok d r' \<and> length (sim_path r') \<le> length (sim_path r) + k \<and>
     (sim_path r \<noteq> [] \<longrightarrow> sim_path r' \<noteq> [] \<and> hd (sim_path r') = hd (sim_path r)) \<and>
     (\<forall>n. sim_path r = [] \<longrightarrow> cur = Some n \<longrightarrow> k > 0 \<longrightarrow> sim_path r' \<noteq> [] \<and> hd (sim_path r') = n_id n)"
proof (induction c d vars k cur r rule: sim_walk.induct)
  case (1 c d vars k cur r)
  from 1(2) obtain out pre where no: "node_outcome c cur vars = Inr (out, pre)"
    by (auto split: sum.splits)
  let ?r = "r\<lparr>sim_path := sim_path r @ [n_id cur],
      sim_steps := sim_steps r @ [\<lparr>ss_node = n_id cur, ss_outcome = out, ss_preview = pre\<rparr>]\<rparr>"
  have cur: "cur \<in> set (d_nodes d)" "sim_path r \<noteq> [] \<Longrightarrow> (last (sim_path r), n_id cur) \<in> arcs (d_edges d)"
    using 1(4) by auto
  have ok: "sim_ok d ?r" using 1(3,5) cur by (auto simp: sim_ok_def is_path_snoc)
  show ?case
  proof (cases "n_type cur = NEnd")
    case True
    with 1(2) no have "r' = ?r\<lparr>sim_end := True\<rparr>" by (simp add: Let_def)
    with ok cur(1) True show ?thesis by (auto simp: sim_ok_def)
  next
    case False
    with 1(2) no obtain oe where oe: "nextEdge cur (d_edges d) vars = Inr oe"
      by (auto simp: Let_def split: sum.splits)
    show ?thesis
    proof (cases oe)
      case None
      with 1(2) no False oe have "r' = ?r" by (simp add: Let_def)
      with ok show ?thesis by auto
    next
      case (Some e)
      have walk: "sim_walk c d vars k (find_node (d_nodes d) (e_target e)) ?r = Inr r'"
        using 1(2) no False oe Some by (simp add: Let_def)
      have next_ok: "n \<in> set (d_nodes d) \<and> (last (sim_path ?r), n_id n) \<in> arcs (d_edges d)"
        if "find_node (d_nodes d) (e_target e) = Some n" for n
      proof -
        from oe Some have "e \<in> set (d_edges d)" "e_source e = n_id cur"
          using nextEdge_out [of cur "d_edges d" vars e] by simp_all
        then have "(n_id cur, e_target e) \<in> arcs (d_edges d)" by (auto simp: arcs_def intro: rev_image_eqI)
        with find_node_Some [OF that] show ?thesis by simp
      qed
      have "sim_ok d r' \<and> length (sim_path r') \<le> length (sim_path ?r) + k \<and>
          sim_path r' \<noteq> [] \<and> hd (sim_path r') = hd (sim_path ?r)"
        using 1(1) [OF no refl refl False oe Some walk ok] next_ok 1(5) by simp
      then show ?thesis by (auto simp: hd_append split: if_splits)
    qed
  qed
qed (auto simp: sim_ok_def)

subsection \<open>Properties\<close>

text \<open>
  A simulation is a walk of the definition: it starts at the start node, every step follows
  an edge, it takes at most \<open>MAX_WALK\<close> steps, one recorded step per node of the path, and it
  says the end was reached only if the last node is an end node.
\<close>
theorem simulate_is_walk:
  assumes "simulate c d vars = Inr r" "start_node d = Some n"
  shows "is_path (arcs (d_edges d)) (sim_path r) \<and> length (sim_path r) \<le> MAX_WALK \<and>
    sim_path r \<noteq> [] \<and> hd (sim_path r) = n_id n \<and> map ss_node (sim_steps r) = sim_path r \<and>
    (sim_end r \<longrightarrow> (\<exists>m \<in> set (d_nodes d). n_id m = last (sim_path r) \<and> n_type m = NEnd))"
proof -
  let ?r0 = "\<lparr>sim_path = [], sim_steps = [], sim_end = False\<rparr>"
  have walk: "sim_walk c d vars MAX_WALK (Some n) ?r0 = Inr r"
    using assms by (simp add: simulate_def)
  have "n \<in> set (d_nodes d)" using assms(2) by (auto simp: start_node_def dest: tfind_SomeD)
  with sim_walk_ok [OF walk] have "sim_ok d r \<and> length (sim_path r) \<le> MAX_WALK \<and>
      sim_path r \<noteq> [] \<and> hd (sim_path r) = n_id n"
    by (simp add: sim_ok_def MAX_WALK_def)
  then show ?thesis by (auto simp: sim_ok_def)
qed

text \<open>
  C4. Where tokens rest. After the multi-token walk every token rests where one rested before
  or on an approval, a human task, a join or a service call that is not automatic; the walk
  reports exactly one new stop for each token that came to rest on a human node and one new
  external action for each token on a service call; and a join that held fewer tokens than it
  has incoming edges still does.
\<close>
theorem tokens_accounted:
  assumes "advanceMulti c d entry vars t = Inr t'"
  shows "(\<forall>x \<in> set (active t'). x \<in> set (active t) \<or> (\<exists>n. by_id (d_nodes d) x = Some n \<and> rest_node c n)) \<and>
    (\<forall>x m. by_id (d_nodes d) x = Some m \<longrightarrow> stop_type (n_type m) \<longrightarrow>
       count_list (active t') x + count_list (map n_id (stops t)) x =
       count_list (active t) x + count_list (map n_id (stops t')) x) \<and>
    (\<forall>x m. by_id (d_nodes d) x = Some m \<longrightarrow> n_type m = NServiceCall \<longrightarrow>
       count_list (active t') x + count_list (map n_id (externals t)) x =
       count_list (active t) x + count_list (map n_id (externals t')) x) \<and>
    (\<forall>x m. by_id (d_nodes d) x = Some m \<longrightarrow> n_type m = NParallelJoin \<longrightarrow>
       count_list (active t) x < join_need d x \<longrightarrow> count_list (active t') x < join_need d x)"
proof (intro conjI allI ballI impI)
  fix x assume "x \<in> set (active t')"
  moreover have "\<forall>x \<in> set (active t'). x \<in> set (active t) \<or> (\<exists>n. by_id (d_nodes d) x = Some n \<and> rest_node c n)"
    by (rule advanceMulti_invariant [OF assms]) (use token_step_active in blast)+
  ultimately show "x \<in> set (active t) \<or> (\<exists>n. by_id (d_nodes d) x = Some n \<and> rest_node c n)" by blast
next
  fix x m assume m: "by_id (d_nodes d) x = Some m" "stop_type (n_type m)"
  have "books stops x t t'"
    by (rule advanceMulti_invariant [OF assms]) (use token_step_stops [OF m] in \<open>auto simp: books_def\<close>)
  then show "count_list (active t') x + count_list (map n_id (stops t)) x =
       count_list (active t) x + count_list (map n_id (stops t')) x" by (simp add: books_def)
next
  fix x m assume m: "by_id (d_nodes d) x = Some m" "n_type m = NServiceCall"
  have "books externals x t t'"
    by (rule advanceMulti_invariant [OF assms]) (use token_step_externals [OF m] in \<open>auto simp: books_def\<close>)
  then show "count_list (active t') x + count_list (map n_id (externals t)) x =
       count_list (active t) x + count_list (map n_id (externals t')) x" by (simp add: books_def)
next
  fix x m assume m: "by_id (d_nodes d) x = Some m" "n_type m = NParallelJoin"
    and "count_list (active t) x < join_need d x"
  then show "count_list (active t') x < join_need d x"
    by (intro advanceMulti_invariant [where P = "\<lambda>t. count_list (active t) x < join_need d x", OF assms])
      (use token_step_join [OF m] in blast)+
qed

text \<open>
  C5. On a linear definition (no fork, join or subflow, every service call automatic, distinct
  ids) the multi-token engine does what the single-token walk does: where the walk stops at a
  human node, the engine has exactly one new token there and reports that stop; where the walk
  completes at an end node, the engine has no new token and has reached the end; and both queue
  the same service calls.
\<close>
theorem multi_refines_single:
  assumes "linear c d"
    and "advance d i vars \<lparr>w_completed = False, w_current = None, w_calls = []\<rparr> = Inr (r, w')"
  shows "(\<forall>n. r = Some n \<longrightarrow> advanceMulti c d [i] vars (no_tokens act) =
            Inr ((no_tokens (act @ [n_id n]))\<lparr>stops := [n], calls := w_calls w'\<rparr>)) \<and>
         (r = None \<longrightarrow> w_completed w' \<longrightarrow> advanceMulti c d [i] vars (no_tokens act) =
            Inr ((no_tokens act)\<lparr>calls := w_calls w', endReached := True\<rparr>))"
proof -
  let ?w = "\<lparr>w_completed = False, w_current = None, w_calls = []\<rparr>"
  have "MAX_WALK < MAX_WALK * 4" "calls (no_tokens act) = w_calls ?w" "\<not> w_completed ?w"
    by (simp_all add: MAX_WALK_def no_tokens_def)
  from advance_refined [OF assms(1) this assms(2) [unfolded advance_def]]
  show ?thesis by (auto simp: advanceMulti_def no_tokens_def)
qed

text \<open>
  C6. The guard is enough: in a definition without cycles and without forks, with at most as
  many nodes as the guard allows steps and every edge ending in a node, the walk of a token is
  never cut short: no node is left on the work list.
\<close>
theorem forward_walk_finishes:
  assumes "acyclic (arcs (d_edges d))" "\<forall>n \<in> set (d_nodes d). n_type n \<noteq> NParallelSplit"
    and "\<forall>e \<in> set (d_edges d). by_id (d_nodes d) (e_target e) \<noteq> None"
    and "i \<in> n_id ` set (d_nodes d)" "length (d_nodes d) \<le> MAX_WALK * 4"
  shows "case token_loop c d vars (MAX_WALK * 4) [i] t of Inl e \<Rightarrow> True | Inr (t', left) \<Rightarrow> left = []"
proof -
  have "descendants d i \<subseteq> n_id ` set (d_nodes d) - {i}"
  proof
    fix j assume j: "j \<in> descendants d i"
    with descendants_targets obtain e where "e \<in> set (d_edges d)" "j = e_target e" by blast
    with assms(3) have "j \<in> n_id ` set (d_nodes d)" by (auto simp: by_id_None_iff)
    moreover have "j \<noteq> i" using j assms(1) by (auto simp: descendants_def acyclic_def)
    ultimately show "j \<in> n_id ` set (d_nodes d) - {i}" by blast
  qed
  then have "card (descendants d i) \<le> card (n_id ` set (d_nodes d) - {i})"
    by (intro card_mono) auto
  also have "\<dots> < card (n_id ` set (d_nodes d))" using assms(4) by (intro card_Diff1_less) auto
  also have "\<dots> \<le> length (d_nodes d)" using card_length by (metis card_image_le card_length le_trans List.finite_set)
  finally have "card (descendants d i) < MAX_WALK * 4" using assms(5) by simp
  with token_loop_drains [OF assms(1)] assms(2) show ?thesis by (fastforce split: sum.splits)
qed

definition spin_loop :: wdef where
  "spin_loop = \<lparr>d_code = ''W'', d_name = ''W'', d_ownerRoleCode = None,
     d_nodes = [nd ''s'' NStart, nd ''f'' NForm, nd ''c'' NCondition, nd ''e'' NEnd],
     d_edges = [ed ''s'' ''f'', ed ''f'' ''c'', (ed ''c'' ''e'')\<lparr>e_label := Some ''yes''\<rparr>,
       (ed ''c'' ''f'')\<lparr>e_label := Some ''no''\<rparr>]\<rparr>"

definition chain :: wdef where
  "chain = \<lparr>d_code = ''W'', d_name = ''W'', d_ownerRoleCode = None,
     d_nodes = [nd ''s'' NStart, nd ''f'' NForm, nd ''a'' NApproval, nd ''e'' NEnd],
     d_edges = [ed ''s'' ''f'', ed ''f'' ''a'', ed ''a'' ''e'']\<rparr>"

definition fork_join :: wdef where
  "fork_join = \<lparr>d_code = ''W'', d_name = ''W'', d_ownerRoleCode = None,
     d_nodes = [nd ''s'' NStart, nd ''p'' NParallelSplit, nd ''a'' NApproval, nd ''b'' NForm,
        nd ''j'' NParallelJoin, nd ''e'' NEnd],
     d_edges = [ed ''s'' ''p'', ed ''p'' ''a'', ed ''p'' ''b'', ed ''a'' ''j'', ed ''b'' ''j'', ed ''j'' ''e'']\<rparr>"

lemma engine_runs:
  "errors_of spin_loop = []" "advanceMulti demo_cfg spin_loop [''f''] (JObj []) (no_tokens []) = Inr (no_tokens [])"
  "is_ok (simulate demo_cfg chain (JObj []))" "sim_path (projr (simulate demo_cfg chain (JObj []))) = [''s'', ''f'', ''a'', ''e'']"
  "start_node chain = Some (nd ''s'' NStart)" "by_id (d_nodes fork_join) ''j'' = Some (nd ''j'' NParallelJoin)"
  "advanceMulti demo_cfg fork_join [''p''] (JObj []) (no_tokens []) = Inr ((no_tokens [''a'', ''j''])\<lparr>stops := [nd ''a'' NApproval]\<rparr>)"
  "advance chain ''f'' (JObj []) \<lparr>w_completed = False, w_current = None, w_calls = []\<rparr> =
     Inr (Some (nd ''a'' NApproval), \<lparr>w_completed = False, w_current = None, w_calls = []\<rparr>)"
  by code_simp+

text \<open>
  Beyond that bound the engine loses tokens: \<open>spin_loop\<close> passes validation with no error (its
  only loop goes through a condition), yet the walk of a request whose condition does not hold
  runs the guard out and returns with no token resting anywhere and no end reached, which the
  callers record as a completed instance.
\<close>
theorem guard_drops_token:
  "errors_of spin_loop = [] \<and>
   advanceMulti demo_cfg spin_loop [''f''] (JObj []) (no_tokens []) = Inr (no_tokens [])"
  by (intro conjI engine_runs)

lemma simulate_is_walk_witness:
  "is_path (arcs (d_edges chain)) [''s'', ''f'', ''a'', ''e'']"
  using simulate_is_walk [OF ok_projr [OF engine_runs(3)] engine_runs(5)] engine_runs(4) by simp

lemma tokens_accounted_witness:
  "count_list [''a'', ''j''] ''j'' < join_need fork_join ''j''"
proof -
  have "n_type (nd ''j'' NParallelJoin) = NParallelJoin" "count_list (active (no_tokens [])) ''j'' < join_need fork_join ''j''"
    by (simp add: nd_def, simp add: no_tokens_def join_need_def)
  with tokens_accounted [OF engine_runs(7)] engine_runs(6) have
    "count_list (active ((no_tokens [''a'', ''j''])\<lparr>stops := [nd ''a'' NApproval]\<rparr>)) ''j'' < join_need fork_join ''j''"
    by blast
  then show ?thesis by (simp add: no_tokens_def)
qed

lemma chain_linear: "linear demo_cfg chain"
  by (simp add: linear_def chain_def nd_def)

lemma multi_refines_single_witness:
  "advanceMulti demo_cfg chain [''f''] (JObj []) (no_tokens []) =
     Inr ((no_tokens [''a''])\<lparr>stops := [nd ''a'' NApproval]\<rparr>)"
  using multi_refines_single [OF chain_linear engine_runs(8), of "[]"] by (simp add: no_tokens_def nd_def)

lemma forward_walk_finishes_witness:
  "case token_loop demo_cfg chain (JObj []) (MAX_WALK * 4) [''f''] (no_tokens []) of
     Inl e \<Rightarrow> True | Inr (t', left) \<Rightarrow> left = []"
proof (rule forward_walk_finishes)
  have "arcs (d_edges chain) = {(''s'', ''f''), (''f'', ''a''), (''a'', ''e'')}"
    by (auto simp: arcs_def chain_def ed_def)
  then show "acyclic (arcs (d_edges chain))"
    by (intro acyclicI_order [where f = "\<lambda>x. if x = ''s'' then 3 else if x = ''f'' then 2 else
      if x = ''a'' then 1 else (0::nat)"]) auto
qed (simp_all add: chain_def nd_def ed_def by_id_def tfind_def MAX_WALK_def)

end
