(* ===== verification/Assignment_Resolver.thy ===== *)
theory Assignment_Resolver
  imports Identity
begin

section \<open>Resolving who acts on a step\<close>

text \<open>
  xhub-api/src/identity/assignment-resolver.service.ts: from a node's assignment to a selector,
  from a selector to candidate persons, and the choice that is recorded. The collation of
  \<open>localeCompare\<close> is a parameter \<open>le\<close>; what the choice needs of it is the locale \<open>collation\<close>.
  Queries without an order take rows in the order of the table.
\<close>

subsection \<open>Selectors\<close>

datatype selector_type = SPosition | SOrgUnitHead | SDirectManager | SGroup | SRole

record selector =
  s_type :: selector_type
  s_position :: "string option"
  s_orgUnit :: "string option"
  s_person :: "string option"
  s_requester :: "string option"
  s_group :: "string option"
  s_role :: "string option"
  s_choice :: "string option"
  s_fallback :: "string list"

definition blank_selector :: "selector_type \<Rightarrow> selector" where
  "blank_selector t = \<lparr>s_type = t, s_position = None, s_orgUnit = None, s_person = None, s_requester = None,
     s_group = None, s_role = None, s_choice = None, s_fallback = []\<rparr>"

definition readPath :: "json \<Rightarrow> string option \<Rightarrow> json" where
  "readPath obj path =
     (if \<not> truthy obj \<or> \<not> truthy_str path then JUndef
      else walk_path obj (split_on CHR ''.'' (coalesce path '''')))"

definition json_str :: "json \<Rightarrow> string option" where
  "json_str j = (case j of JStr s \<Rightarrow> Some s | _ \<Rightarrow> None)"

definition json_strs :: "json \<Rightarrow> string list" where
  "json_strs j = (case j of JArr xs \<Rightarrow> List.map_filter json_str xs | _ \<Rightarrow> [])"

definition selectorFromAssignment :: "json \<Rightarrow> json \<Rightarrow> selector option" where
  "selectorFromAssignment a vars =
     (if \<not> truthy a then None
      else (let t = jcoalesce (get_prop a ''selectorType'') (get_prop a ''type'');
                base = (\<lambda>ty. (blank_selector ty)\<lparr>s_choice := str_field a ''choicePolicy'',
                          s_fallback := json_strs (get_prop a ''fallback'')\<rparr>) in
            if t = JStr ''POSITION'' then Some ((base SPosition)\<lparr>s_position := str_field a ''positionId''\<rparr>)
            else if t = JStr ''ORG_UNIT_HEAD'' then
              Some ((base SOrgUnitHead)\<lparr>s_orgUnit :=
                 json_str (jcoalesce (get_prop a ''orgUnitId'') (readPath vars (str_field a ''orgUnitFrom'')))\<rparr>)
            else if t = JStr ''DIRECT_MANAGER'' \<or> t = JStr ''requesterManager'' then
              Some ((base SDirectManager)\<lparr>s_person := str_field a ''personId'',
                 s_requester := str_field a ''requesterUserId''\<rparr>)
            else if t = JStr ''GROUP'' then
              Some ((base SGroup)\<lparr>s_group := str_field a ''groupId'',
                 s_choice := Some (coalesce (str_field a ''choicePolicy'') ''QUEUE'')\<rparr>)
            else if t = JStr ''ROLE'' \<or> t = JStr ''role'' \<or> t = JStr ''org_role'' then
              Some ((base SRole)\<lparr>s_role := str_field a ''roleCode''\<rparr>)
            else if truthy (get_prop a ''roleCode'') then
              Some ((base SRole)\<lparr>s_role := str_field a ''roleCode'', s_choice := None\<rparr>)
            else None))"

subsection \<open>Candidates\<close>

record candidate =
  cd_person :: string
  cd_fullName :: string
  cd_email :: "string option"
  cd_via :: string

definition personCandidate :: "idb \<Rightarrow> string option \<Rightarrow> string \<Rightarrow> candidate list" where
  "personCandidate s pid via =
     (case pid of
        None \<Rightarrow> []
      | Some i \<Rightarrow>
          (if i = [] then []
           else case person_by_id s i of
             None \<Rightarrow> []
           | Some p \<Rightarrow> [\<lparr>cd_person = p_id p, cd_fullName = p_fullName p, cd_email = p_email p, cd_via = via\<rparr>]))"

definition position_by_id :: "idb \<Rightarrow> string \<Rightarrow> position option" where
  "position_by_id s i = tfind (\<lambda>q. po_id q = i) (positions s)"

definition unit_head :: "idb \<Rightarrow> string \<Rightarrow> position option" where
  "unit_head s u = tfind (\<lambda>q. po_orgUnit q = u \<and> po_isHead q) (positions s)"

definition group_by_id :: "idb \<Rightarrow> string \<Rightarrow> org_group option" where
  "group_by_id s i = tfind (\<lambda>g. g_id g = i) (groups s)"

definition holder_of :: "position option \<Rightarrow> string option" where
  "holder_of q = (case q of None \<Rightarrow> None | Some p \<Rightarrow> po_holder p)"

definition members_of :: "org_group option \<Rightarrow> string list" where
  "members_of g = (case g of None \<Rightarrow> [] | Some h \<Rightarrow> g_members h)"

definition arrow :: string where
  "arrow = [CHR 0xE2, CHR 0x86, CHR 0x92]"

definition shown :: "string option \<Rightarrow> string" where
  "shown x = coalesce x ''undefined''"

definition binding_candidates :: "idb \<Rightarrow> string \<Rightarrow> role_binding \<Rightarrow> candidate list" where
  "binding_candidates s role b =
     (let i = rb_subjectId b; via = (\<lambda>k. ''ROLE:'' @ role @ arrow @ k) in
      if rb_subjectType b = ''POSITION'' then
        personCandidate s (holder_of (position_by_id s i)) (via (''POSITION:'' @ i))
      else if rb_subjectType b = ''USER'' then personCandidate s (Some i) (via ''USER'')
      else if rb_subjectType b = ''GROUP'' then
        concat (map (\<lambda>m. personCandidate s (Some m) (via (''GROUP:'' @ i))) (members_of (group_by_id s i)))
      else if rb_subjectType b = ''ORG_UNIT'' then
        personCandidate s (holder_of (unit_head s i)) (via (''ORG_UNIT_HEAD:'' @ i))
      else [])"

definition subject_person :: "idb \<Rightarrow> selector \<Rightarrow> string option" where
  "subject_person s sel =
     (if truthy_str (s_person sel) then s_person sel
      else if truthy_str (s_requester sel)
        then map_option p_id (personForUserId s (coalesce (s_requester sel) ''''))
      else s_person sel)"

definition resolveCandidates :: "idb \<Rightarrow> selector \<Rightarrow> candidate list" where
  "resolveCandidates s sel =
     (case s_type sel of
        SPosition \<Rightarrow>
          (let pos = (if truthy_str (s_position sel) then position_by_id s (coalesce (s_position sel) '''') else None)
           in personCandidate s (holder_of pos) (''POSITION:'' @ shown (s_position sel)))
      | SOrgUnitHead \<Rightarrow>
          (let head = (if truthy_str (s_orgUnit sel) then unit_head s (coalesce (s_orgUnit sel) '''') else None)
           in personCandidate s (holder_of head) (''ORG_UNIT_HEAD:'' @ shown (s_orgUnit sel)))
      | SDirectManager \<Rightarrow>
          (if \<not> truthy_str (subject_person s sel) then []
           else case tfind (\<lambda>q. po_holder q = subject_person s sel) (positions s) of
             None \<Rightarrow> []
           | Some held \<Rightarrow>
               (if \<not> truthy_str (po_reportsTo held) then []
                else (let m = coalesce (po_reportsTo held) '''' in
                      personCandidate s (holder_of (position_by_id s m)) (''DIRECT_MANAGER:'' @ m))))
      | SGroup \<Rightarrow>
          (let grp = (if truthy_str (s_group sel) then group_by_id s (coalesce (s_group sel) '''') else None)
           in concat (map (\<lambda>m. personCandidate s (Some m) (''GROUP:'' @ shown (s_group sel))) (members_of grp)))
      | SRole \<Rightarrow>
          (if \<not> truthy_str (s_role sel) then []
           else (let r = coalesce (s_role sel) '''' in
                 concat (map (binding_candidates s r) (filter (\<lambda>b. rb_roleCode b = r) (bindings s))))))"

subsection \<open>The choice\<close>

text \<open>Keep the first candidate of each person.\<close>

fun dedupe :: "string list \<Rightarrow> candidate list \<Rightarrow> candidate list" where
  "dedupe seen [] = []"
| "dedupe seen (c # cs) =
     (if cd_person c \<in> set seen then dedupe seen cs else c # dedupe (cd_person c # seen) cs)"

text \<open>A stable sort by person id.\<close>

fun insert_by :: "(string \<Rightarrow> string \<Rightarrow> bool) \<Rightarrow> candidate \<Rightarrow> candidate list \<Rightarrow> candidate list" where
  "insert_by le c [] = [c]"
| "insert_by le c (d # ds) = (if le (cd_person c) (cd_person d) then c # d # ds else d # insert_by le c ds)"

definition order_candidates :: "(string \<Rightarrow> string \<Rightarrow> bool) \<Rightarrow> candidate list \<Rightarrow> candidate list" where
  "order_candidates le cs = foldr (insert_by le) (dedupe [] cs) []"

fun first_fallback :: "idb \<Rightarrow> string list \<Rightarrow> candidate list" where
  "first_fallback s [] = []"
| "first_fallback s (r # rs) =
     (let cs = resolveCandidates s ((blank_selector SRole)\<lparr>s_role := Some r\<rparr>) in
      if cs \<noteq> [] then cs else first_fallback s rs)"

record resolution =
  re_tenant :: string
  re_instance :: string
  re_node :: string
  re_selector :: selector
  re_candidates :: "candidate list"
  re_person :: "string option"
  re_choice :: string
  re_fallback :: bool

text \<open>
  \<open>resolveAndSnapshot\<close>: the row it writes; the caller appends it together with the audit row
  \<open>ASSIGNMENT_RESOLVED\<close>. The free-text reason is not modelled.
\<close>

definition resolveAndSnapshot ::
  "(string \<Rightarrow> string \<Rightarrow> bool) \<Rightarrow> idb \<Rightarrow> string \<Rightarrow> string \<Rightarrow> string \<Rightarrow> selector \<Rightarrow> resolution" where
  "resolveAndSnapshot le s tenant inst node sel =
     (let prim = resolveCandidates s sel;
          fb = (if prim = [] then first_fallback s (s_fallback sel) else []);
          cs = order_candidates le (if prim = [] then fb else prim);
          choice = coalesce (s_choice sel) (if length cs > 1 then ''MULTIPLE'' else ''SINGLE'')
      in \<lparr>re_tenant = tenant, re_instance = inst, re_node = node, re_selector = sel, re_candidates = cs,
          re_person = (if choice = ''QUEUE'' then None else case cs of [] \<Rightarrow> None | c # _ \<Rightarrow> Some (cd_person c)),
          re_choice = choice, re_fallback = (prim = [] \<and> fb \<noteq> [])\<rparr>)"

subsection \<open>The order of candidates\<close>

locale collation =
  fixes le :: "string \<Rightarrow> string \<Rightarrow> bool"
  assumes le_total: "le a b \<or> le b a"
    and le_trans: "le a b \<Longrightarrow> le b c \<Longrightarrow> le a c"
    and le_antisym: "le a b \<Longrightarrow> le b a \<Longrightarrow> a = b"
begin

lemma set_insert_by: "set (insert_by le c ds) = insert c (set ds)"
  by (induction ds) auto

lemma set_foldr_insert: "set (foldr (insert_by le) cs []) = set cs"
  by (induction cs) (auto simp: set_insert_by)

lemma map_insert_by: "cd_person ` set (insert_by le c ds) = insert (cd_person c) (cd_person ` set ds)"
  by (simp add: set_insert_by)

lemma sorted_insert_by:
  "sorted_wrt le (map cd_person ds) \<Longrightarrow> sorted_wrt le (map cd_person (insert_by le c ds))"
  by (induction ds) (use le_total le_trans in \<open>auto simp: set_insert_by\<close>)

lemma sorted_foldr_insert: "sorted_wrt le (map cd_person (foldr (insert_by le) cs []))"
  by (induction cs) (auto intro: sorted_insert_by)

lemma distinct_insert_by:
  "distinct (map cd_person ds) \<Longrightarrow> cd_person c \<notin> cd_person ` set ds \<Longrightarrow>
     distinct (map cd_person (insert_by le c ds))"
  by (induction ds) (auto simp: set_insert_by)

lemma distinct_foldr_insert:
  "distinct (map cd_person cs) \<Longrightarrow> distinct (map cd_person (foldr (insert_by le) cs []))"
  by (induction cs) (auto simp: set_foldr_insert intro!: distinct_insert_by)

text \<open>A sorted list of distinct ids is determined by its set.\<close>

lemma sorted_distinct_unique:
  "sorted_wrt le xs \<Longrightarrow> sorted_wrt le ys \<Longrightarrow> distinct xs \<Longrightarrow> distinct ys \<Longrightarrow> set xs = set ys \<Longrightarrow> xs = ys"
proof (induction xs arbitrary: ys)
  case (Cons x xs)
  then obtain y ys' where ys: "ys = y # ys'" by (cases ys) auto
  have "x = y" using Cons.prems ys le_antisym by (auto simp: set_eq_iff) metis
  with Cons ys show ?case by (metis distinct.simps(2) insert_ident list.simps(15) sorted_wrt.simps(2))
qed simp

end

lemma dedupe_set: "cd_person ` set (dedupe seen cs) = cd_person ` set cs - set seen"
  by (induction seen cs rule: dedupe.induct) auto

lemma dedupe_subset: "set (dedupe seen cs) \<subseteq> set cs"
  by (induction seen cs rule: dedupe.induct) auto

lemma dedupe_distinct: "distinct (map cd_person (dedupe seen cs))"
proof (induction seen cs rule: dedupe.induct)
  case (2 seen c cs)
  then show ?case using dedupe_set [of "cd_person c # seen" cs] by auto
qed simp

context collation
begin

lemma ordered:
  "set (order_candidates le cs) \<subseteq> set cs"
  "cd_person ` set (order_candidates le cs) = cd_person ` set cs"
  "distinct (map cd_person (order_candidates le cs))"
  "sorted_wrt le (map cd_person (order_candidates le cs))"
  by (simp_all add: order_candidates_def set_foldr_insert dedupe_subset dedupe_set dedupe_distinct
      distinct_foldr_insert sorted_foldr_insert)

lemma order_determined:
  assumes "cd_person ` set cs = cd_person ` set ds"
  shows "map cd_person (order_candidates le cs) = map cd_person (order_candidates le ds)"
  by (rule sorted_distinct_unique) (use ordered assms in simp_all)

lemma order_head:
  assumes "order_candidates le cs = c # ds" "p \<in> cd_person ` set cs"
  shows "le (cd_person c) p"
proof -
  have "p \<in> insert (cd_person c) (cd_person ` set ds)" using ordered(2) [of cs] assms by simp
  moreover have "\<forall>x \<in> set ds. le (cd_person c) (cd_person x)" using ordered(4) [of cs] assms(1) by simp
  ultimately show ?thesis using le_total [of p p] by auto
qed

end

text \<open>The collation on ASCII ids: lexicographic on character codes.\<close>

fun lex_le :: "string \<Rightarrow> string \<Rightarrow> bool" where
  "lex_le [] ys = True"
| "lex_le (x # xs) [] = False"
| "lex_le (x # xs) (y # ys) =
     ((of_char x :: nat) < of_char y \<or> x = y \<and> lex_le xs ys)"

lemma lex_le_total: "lex_le a b \<or> lex_le b a"
proof (induction a b rule: lex_le.induct)
  case (3 x xs y ys)
  have "(of_char x :: nat) = of_char y \<Longrightarrow> x = y" by simp
  with 3 show ?case by (auto simp: not_less_iff_gr_or_eq)
qed auto

lemma lex_le_trans: "lex_le a b \<Longrightarrow> lex_le b c \<Longrightarrow> lex_le a c"
proof (induction a b arbitrary: c rule: lex_le.induct)
  case (3 x xs y ys)
  then show ?case by (cases c) auto
qed auto

lemma lex_le_antisym: "lex_le a b \<Longrightarrow> lex_le b a \<Longrightarrow> a = b"
proof (induction a b rule: lex_le.induct)
  case (1 ys)
  then show ?case by (cases ys) auto
qed auto

interpretation lex: collation lex_le
  by unfold_locales (use lex_le_total lex_le_trans lex_le_antisym in blast)+

subsection \<open>Who can be resolved\<close>

lemma personCandidate_person:
  "c \<in> set (personCandidate s i via) \<Longrightarrow>
     i = Some (cd_person c) \<and> (\<exists>p \<in> set (people s). p_id p = cd_person c)"
  by (cases i; cases "person_by_id s (the i)")
    (auto simp: personCandidate_def person_by_id_def split: if_splits dest!: tfind_SomeD)

lemma resolveCandidates_person:
  "c \<in> set (resolveCandidates s sel) \<Longrightarrow> \<exists>p \<in> set (people s). p_id p = cd_person c"
  by (auto simp: resolveCandidates_def binding_candidates_def Let_def
      split: selector_type.splits if_splits option.splits dest!: personCandidate_person)

lemma first_fallback_person:
  "c \<in> set (first_fallback s rs) \<Longrightarrow> \<exists>p \<in> set (people s). p_id p = cd_person c"
  by (induction s rs rule: first_fallback.induct) (auto simp: Let_def dest: resolveCandidates_person split: if_splits)

subsection \<open>The order of the rows does not matter\<close>

lemma personForUserId_bindings [simp]: "personForUserId (s\<lparr>bindings := bs\<rparr>) u = personForUserId s u"
  by (simp add: personForUserId_def)

lemma lookups_bindings [simp]:
  "person_by_id (s\<lparr>bindings := bs\<rparr>) = person_by_id s"
  "position_by_id (s\<lparr>bindings := bs\<rparr>) = position_by_id s"
  "unit_head (s\<lparr>bindings := bs\<rparr>) = unit_head s"
  "group_by_id (s\<lparr>bindings := bs\<rparr>) = group_by_id s"
  by (simp_all add: fun_eq_iff person_by_id_def position_by_id_def unit_head_def group_by_id_def)

lemma personCandidate_bindings [simp]: "personCandidate (s\<lparr>bindings := bs\<rparr>) = personCandidate s"
  unfolding personCandidate_def [abs_def] lookups_bindings ..

lemma subject_person_bindings [simp]: "subject_person (s\<lparr>bindings := bs\<rparr>) sel = subject_person s sel"
  unfolding subject_person_def personForUserId_bindings ..

lemma binding_candidates_bindings [simp]:
  "binding_candidates (s\<lparr>bindings := bs\<rparr>) r b = binding_candidates s r b"
  unfolding binding_candidates_def lookups_bindings personCandidate_bindings ..

lemma resolveCandidates_bindings:
  assumes "set bs = set (bindings s)"
  shows "set (resolveCandidates (s\<lparr>bindings := bs\<rparr>) sel) = set (resolveCandidates s sel)"
proof (cases "s_type sel = SRole")
  case True
  with assms show ?thesis by (simp add: resolveCandidates_def Let_def)
next
  case False
  have "positions (s\<lparr>bindings := bs\<rparr>) = positions s" by simp
  with False show ?thesis
    unfolding resolveCandidates_def lookups_bindings personCandidate_bindings subject_person_bindings
    by (cases "s_type sel") (simp_all only: selector_type.case selector_type.distinct simp_thms)
qed

lemma set_empty_cong: "set xs = set ys \<Longrightarrow> (xs = []) = (ys = [])"
  by (metis set_empty)

lemma first_fallback_bindings:
  assumes "set bs = set (bindings s)"
  shows "set (first_fallback (s\<lparr>bindings := bs\<rparr>) rs) = set (first_fallback s rs)"
proof (induction rs)
  case (Cons r rs)
  note eq = resolveCandidates_bindings [OF assms, of "(blank_selector SRole)\<lparr>s_role := Some r\<rparr>"]
  from eq Cons set_empty_cong [OF eq] show ?case by (simp add: Let_def)
qed simp

subsection \<open>Properties\<close>

text \<open>
  The choice is sound and deterministic: the candidates recorded are existing persons, each
  once, in collation order; nobody is chosen exactly when there is no candidate or the policy is
  a queue; otherwise the first in collation order is; and the fallback roles are used only when
  the selector itself yields nobody.
\<close>
theorem resolution_sound:
  assumes "collation le"
  shows "let r = resolveAndSnapshot le s tenant inst node sel in
    (\<forall>c \<in> set (re_candidates r). \<exists>p \<in> set (people s). p_id p = cd_person c) \<and>
    distinct (map cd_person (re_candidates r)) \<and>
    sorted_wrt le (map cd_person (re_candidates r)) \<and>
    (re_person r = None \<longleftrightarrow> re_choice r = ''QUEUE'' \<or> re_candidates r = []) \<and>
    (\<forall>p. re_person r = Some p \<longrightarrow> (\<exists>c \<in> set (re_candidates r). cd_person c = p) \<and>
       (\<forall>c \<in> set (re_candidates r). le p (cd_person c))) \<and>
    (re_fallback r \<longrightarrow> resolveCandidates s sel = [])"
proof -
  let ?cs = "if resolveCandidates s sel = [] then first_fallback s (s_fallback sel) else resolveCandidates s sel"
  let ?r = "resolveAndSnapshot le s tenant inst node sel"
  have cands: "re_candidates ?r = order_candidates le ?cs"
    by (simp add: resolveAndSnapshot_def Let_def)
  have person: "re_person ?r = (if re_choice ?r = ''QUEUE'' then None else
      case re_candidates ?r of [] \<Rightarrow> None | c # _ \<Rightarrow> Some (cd_person c))"
    by (simp add: resolveAndSnapshot_def Let_def)
  have ex: "\<exists>p \<in> set (people s). p_id p = cd_person c" if "c \<in> set (order_candidates le ?cs)" for c
    using that collation.ordered(1) [OF assms, of ?cs] resolveCandidates_person first_fallback_person
    by (auto split: if_splits)
  have least: "le (cd_person c) (cd_person x)" if "order_candidates le ?cs = c # ds" "x \<in> set (c # ds)" for c ds x
  proof -
    have "cd_person x \<in> cd_person ` set (order_candidates le ?cs)" unfolding that(1) using that(2) by (rule imageI)
    then have "cd_person x \<in> cd_person ` set ?cs" by (simp only: collation.ordered(2) [OF assms])
    then show ?thesis by (rule collation.order_head [OF assms that(1)])
  qed
  have fb: "re_fallback ?r \<longrightarrow> resolveCandidates s sel = []"
    by (simp add: resolveAndSnapshot_def Let_def)
  show ?thesis
    using ex least fb collation.ordered(3,4) [OF assms, of ?cs] person
    unfolding cands Let_def by (auto split: list.splits if_splits)
qed

text \<open>
  The order in which the database returns role bindings never changes who is chosen.
\<close>
theorem resolution_row_order:
  assumes "collation le" "set bs = set (bindings s)"
  shows "map cd_person (re_candidates (resolveAndSnapshot le (s\<lparr>bindings := bs\<rparr>) tenant inst node sel)) =
         map cd_person (re_candidates (resolveAndSnapshot le s tenant inst node sel)) \<and>
         re_person (resolveAndSnapshot le (s\<lparr>bindings := bs\<rparr>) tenant inst node sel) =
         re_person (resolveAndSnapshot le s tenant inst node sel)"
proof -
  let ?s = "s\<lparr>bindings := bs\<rparr>"
  let ?pick = "\<lambda>s. if resolveCandidates s sel = [] then first_fallback s (s_fallback sel) else resolveCandidates s sel"
  have "set (?pick ?s) = set (?pick s)"
    using resolveCandidates_bindings [OF assms(2), of sel] first_fallback_bindings [OF assms(2), of "s_fallback sel"]
      set_empty_cong [OF resolveCandidates_bindings [OF assms(2), of sel]] by simp
  then have eq: "map cd_person (order_candidates le (?pick ?s)) = map cd_person (order_candidates le (?pick s))"
    using collation.order_determined [OF assms(1), of "?pick ?s" "?pick s"] by simp
  have c: "re_candidates (resolveAndSnapshot le s' tenant inst node sel) = order_candidates le (?pick s')" for s'
    by (simp add: resolveAndSnapshot_def Let_def)
  have p: "re_person (resolveAndSnapshot le s' tenant inst node sel) =
      (let ms = map cd_person (order_candidates le (?pick s')) in
       if coalesce (s_choice sel) (if length ms > 1 then ''MULTIPLE'' else ''SINGLE'') = ''QUEUE'' then None
       else case ms of [] \<Rightarrow> None | m # _ \<Rightarrow> Some m)" for s'
    by (simp add: resolveAndSnapshot_def Let_def split: list.splits)
  show ?thesis by (simp only: c p eq simp_thms)
qed

definition demo_people :: idb where
  "demo_people = demo_idb\<lparr>
     people := [\<lparr>p_id = ''p2'', p_fullName = ''Binh'', p_email = Some ''b@x'', p_ext = JNull\<rparr>,
                \<lparr>p_id = ''p1'', p_fullName = ''An'', p_email = Some ''an@x'', p_ext = JObj [(''userId'', JStr ''an'')]\<rparr>],
     bindings := [\<lparr>rb_id = ''b2'', rb_subjectType = ''USER'', rb_subjectId = ''p2'', rb_roleCode = ''ROLE_CFO'',
                   rb_scope = JNull, rb_from = None, rb_to = None\<rparr>,
                  \<lparr>rb_id = ''b1'', rb_subjectType = ''POSITION'', rb_subjectId = ''pos1'', rb_roleCode = ''ROLE_CFO'',
                   rb_scope = JNull, rb_from = None, rb_to = None\<rparr>]\<rparr>"

definition demo_role :: selector where
  "demo_role = (blank_selector SRole)\<lparr>s_role := Some ''ROLE_CFO''\<rparr>"

lemma resolution_sound_witness:
  "distinct (map cd_person (re_candidates (resolveAndSnapshot lex_le demo_people ''t'' ''R1'' ''n'' demo_role))) \<and>
   map cd_person (re_candidates (resolveAndSnapshot lex_le demo_people ''t'' ''R1'' ''n'' demo_role)) = [''p1'', ''p2'']"
proof
  show "map cd_person (re_candidates (resolveAndSnapshot lex_le demo_people ''t'' ''R1'' ''n'' demo_role)) = [''p1'', ''p2'']"
    by code_simp
qed (use resolution_sound [OF lex.collation_axioms, of demo_people "''t''" "''R1''" "''n''" demo_role] in \<open>simp add: Let_def\<close>)

lemma resolution_row_order_witness:
  "re_person (resolveAndSnapshot lex_le (demo_people\<lparr>bindings := rev (bindings demo_people)\<rparr>) ''t'' ''R1'' ''n'' demo_role) =
   re_person (resolveAndSnapshot lex_le demo_people ''t'' ''R1'' ''n'' demo_role)"
  by (rule resolution_row_order [THEN conjunct2, OF lex.collation_axioms]) simp

end
