(* ===== verification/Workflow_Store.thy ===== *)
theory Workflow_Store
  imports Workflow_Engine Assignment_Resolver
begin

section \<open>The tables of the workflow runtime\<close>

text \<open>
  The database state that xhub-api/src/xoffice/xoffice.service.ts and notification.service.ts
  keep, with the writes that many handlers share: audit, events, notifications, the command log,
  definitions and their versions, and the read model of work items. Titles, bodies and details
  are display text and are not kept; the JSON payload of an event is reduced to its node.
\<close>

subsection \<open>Rows\<close>

datatype inst_status = Running | Completed | Rejected

datatype task_status = TOpen | TApproved | TRejected

datatype cmd_status = CmdSuccess | CmdFailed | CmdManualPending | CmdManualCompleted

datatype ext_status = XPending | XReferenceEntered | XCompleted

record inst_row =
  i_id :: string
  i_tenant :: string
  i_workflow :: string
  i_code :: string
  i_requester :: string
  i_vars :: json
  i_status :: inst_status
  i_current :: "string option"
  i_active :: "string list option"
  i_updated :: int

record task_row =
  t_id :: string
  t_tenant :: string
  t_inst :: string
  t_node :: string
  t_nodeName :: string
  t_role :: string
  t_assignee :: "string option"
  t_status :: task_status
  t_sla :: "rat option"
  t_created :: int
  t_actedAt :: "int option"
  t_actor :: "string option"
  t_onBehalf :: "string option"
  t_reminded :: bool
  t_escalated :: bool

record cmd_row =
  c_id :: string
  c_tenant :: string
  c_inst :: string
  c_node :: string
  c_connector :: string
  c_action :: string
  c_payload :: "(string \<times> json) list"
  c_status :: cmd_status
  c_result :: json
  c_sref :: "source_ref option"
  c_attempts :: rat

record ext_row =
  x_id :: string
  x_tenant :: string
  x_instCode :: string
  x_node :: string
  x_connector :: string
  x_action :: string
  x_mode :: call_mode
  x_status :: ext_status
  x_payload :: "(string \<times> json) list"
  x_reference :: "string option"
  x_refSystem :: "string option"
  x_enteredBy :: "string option"
  x_sref :: "source_ref option"

record event_row =
  ev_tenant :: string
  ev_inst :: string
  ev_type :: string
  ev_node :: string

record notif_row =
  nt_id :: string
  nt_tenant :: string
  nt_user :: string
  nt_type :: string
  nt_source :: "string option"
  nt_hint :: string
  nt_created :: int
  nt_readAt :: "int option"

record response =
  rs_inst :: inst_row
  rs_nodeName :: "string option"
  rs_nodeType :: "node_type option"
  rs_tasks :: "task_row list"

record log_row =
  cl_tenant :: string
  cl_key :: string
  cl_type :: string
  cl_ref :: string
  cl_actor :: string
  cl_result :: response

record version_row =
  v_version :: nat
  v_checksum :: string
  v_publishedAt :: int
  v_definition :: wdef

record wf_row =
  wf_tenant :: string
  wf_code :: string
  wf_working :: wdef
  wf_versions :: "version_row list"

record work_item =
  wi_tenant :: string
  wi_status :: task_status
  wi_high :: bool
  wi_assignedTo :: string
  wi_dueAt :: "rat option"
  wi_source :: string

record xdb =
  workflows :: "wf_row list"
  instances :: "inst_row list"
  tasks :: "task_row list"
  commands :: "cmd_row list"
  ext_tasks :: "ext_row list"
  events :: "event_row list"
  notifs :: "notif_row list"
  cmd_log :: "log_row list"
  resolutions :: "resolution list"
  x_audit :: "audit_row list"
  work_items :: "work_item list"
  org :: idb
  seq :: nat
  subflowSeq :: nat

definition new_id :: "env \<Rightarrow> xdb \<Rightarrow> string" where
  "new_id v x = cuid v (seq x)"

subsection \<open>Tenants\<close>

definition tenantId :: "string \<Rightarrow> string" where
  "tenantId slug = ''tenant-'' @ slug"

definition slugFromTenantId :: "string \<Rightarrow> string" where
  "slugFromTenantId t = (if starts_with ''tenant-'' t then drop 7 t else t)"

definition CANARY :: string where
  "CANARY = ''demo-isolation''"

definition assertTenant :: "string \<Rightarrow> 'a res \<Rightarrow> 'a res" where
  "assertTenant slug k = (if slug = CANARY then Inl (NotFound ''Tenant not accessible'') else k)"

lemma slug_roundtrip [simp]: "slugFromTenantId (tenantId slug) = slug"
  by (simp add: slugFromTenantId_def tenantId_def starts_with_def)

subsection \<open>Audit, events, notifications\<close>

definition appendAudit :: "string \<Rightarrow> string \<Rightarrow> string \<Rightarrow> string \<Rightarrow> xdb \<Rightarrow> xdb" where
  "appendAudit tenant instCode actor action x =
     x\<lparr>x_audit := x_audit x @ [mk_audit tenant actor instCode action]\<rparr>"

definition appendEvent :: "string \<Rightarrow> string \<Rightarrow> string \<Rightarrow> string \<Rightarrow> xdb \<Rightarrow> xdb" where
  "appendEvent tenant inst ty node x =
     x\<lparr>events := events x @ [\<lparr>ev_tenant = tenant, ev_inst = inst, ev_type = ty, ev_node = node\<rparr>]\<rparr>"

text \<open>\<open>dispatch\<close>: without a user there is nobody to notify.\<close>

definition dispatch ::
  "env \<Rightarrow> string \<Rightarrow> string option \<Rightarrow> string \<Rightarrow> string option \<Rightarrow> string \<Rightarrow> xdb \<Rightarrow> xdb" where
  "dispatch v tenant user ty source hint x =
     (let u = trim_in user in
      if u = [] then x
      else x\<lparr>notifs := notifs x @ [\<lparr>nt_id = new_id v x, nt_tenant = tenant, nt_user = u, nt_type = ty,
               nt_source = source, nt_hint = hint, nt_created = now v, nt_readAt = None\<rparr>],
             seq := Suc (seq x)\<rparr>)"

definition mine :: "string \<Rightarrow> string \<Rightarrow> notif_row \<Rightarrow> bool" where
  "mine tenant user n \<longleftrightarrow> nt_tenant n = tenant \<and> nt_user n = user"

text \<open>\<open>list\<close>: the user's rows, latest first (rows are appended in time order).\<close>

definition list_notifs :: "string \<Rightarrow> string \<Rightarrow> xdb \<Rightarrow> notif_row list" where
  "list_notifs tenant user x = rev (filter (mine tenant user) (notifs x))"

definition unreadCount :: "string \<Rightarrow> string \<Rightarrow> xdb \<Rightarrow> nat" where
  "unreadCount tenant user x = length (filter (\<lambda>n. mine tenant user n \<and> nt_readAt n = None) (notifs x))"

definition markRead :: "env \<Rightarrow> string \<Rightarrow> string \<Rightarrow> string \<Rightarrow> xdb \<Rightarrow> notif_row option \<times> xdb" where
  "markRead v tenant user i x =
     (case tfind (\<lambda>n. nt_id n = i \<and> mine tenant user n) (notifs x) of
        None \<Rightarrow> (None, x)
      | Some n \<Rightarrow>
          (if nt_readAt n \<noteq> None then (Some n, x)
           else (Some (n\<lparr>nt_readAt := Some (now v)\<rparr>),
                 x\<lparr>notifs := tupd (\<lambda>m. nt_id m = i) (\<lambda>m. m\<lparr>nt_readAt := Some (now v)\<rparr>) (notifs x)\<rparr>)))"

definition markAllRead :: "env \<Rightarrow> string \<Rightarrow> string \<Rightarrow> xdb \<Rightarrow> nat \<times> xdb" where
  "markAllRead v tenant user x =
     (unreadCount tenant user x,
      x\<lparr>notifs := tupd (\<lambda>n. mine tenant user n \<and> nt_readAt n = None)
                    (\<lambda>n. n\<lparr>nt_readAt := Some (now v)\<rparr>) (notifs x)\<rparr>)"

definition markNotificationRead :: "env \<Rightarrow> string \<Rightarrow> string \<Rightarrow> string \<Rightarrow> xdb \<Rightarrow> (notif_row \<times> xdb) res" where
  "markNotificationRead v slug user i x =
     assertTenant slug
       (case markRead v (tenantId slug) user i x of
          (None, _) \<Rightarrow> Inl (NotFound ''Notification'')
        | (Some n, x') \<Rightarrow> Inr (n, x'))"

subsection \<open>Definitions and versions\<close>

definition wf_lookup :: "xdb \<Rightarrow> string \<Rightarrow> string \<Rightarrow> wf_row option" where
  "wf_lookup x tenant code = tfind (\<lambda>w. wf_tenant w = tenant \<and> wf_code w = code) (workflows x)"

definition getWorkflowSafe :: "xdb \<Rightarrow> string \<Rightarrow> string \<Rightarrow> wdef option" where
  "getWorkflowSafe x slug code = map_option wf_working (wf_lookup x (tenantId slug) code)"

definition getWorkflow :: "xdb \<Rightarrow> string \<Rightarrow> string \<Rightarrow> wdef res" where
  "getWorkflow x slug code =
     assertTenant slug
       (case getWorkflowSafe x slug code of None \<Rightarrow> Inl (NotFound ''Workflow'') | Some d \<Rightarrow> Inr d)"

definition latest_version :: "version_row list \<Rightarrow> nat" where
  "latest_version vs = foldr (\<lambda>r m. max (v_version r) m) vs 0"

text \<open>\<open>publish\<close>; the hash of the canonical JSON of a definition is the parameter \<open>sha\<close>.\<close>

definition publish :: "(wdef \<Rightarrow> string) \<Rightarrow> env \<Rightarrow> string \<Rightarrow> string \<Rightarrow> wdef \<Rightarrow> xdb \<Rightarrow> (version_row \<times> xdb) res" where
  "publish sha v slug code d x =
     assertTenant slug
       (case wf_lookup x (tenantId slug) code of
          None \<Rightarrow> Inl (NotFound ''Workflow'')
        | Some w \<Rightarrow>
            (let r = \<lparr>v_version = latest_version (wf_versions w) + 1, v_checksum = sha d,
                      v_publishedAt = now v, v_definition = d\<rparr> in
             Inr (r, x\<lparr>workflows := tupd (\<lambda>w. wf_tenant w = tenantId slug \<and> wf_code w = code)
                          (\<lambda>w. w\<lparr>wf_working := d, wf_versions := wf_versions w @ [r]\<rparr>) (workflows x)\<rparr>)))"

subsection \<open>The command log\<close>

record envelope =
  e_key :: string
  e_corr :: string

text \<open>\<open>resolveEnvelope\<close>: a key or correlation id that is missing or blank is a random UUID.\<close>

definition resolveEnvelope :: "env \<Rightarrow> xdb \<Rightarrow> string option \<Rightarrow> string option \<Rightarrow> envelope" where
  "resolveEnvelope v x key corr =
     \<lparr>e_key = (if trim_in key = [] then uuid v (2 * seq x) else trim_in key),
      e_corr = (if trim_in corr = [] then uuid v (2 * seq x + 1) else trim_in corr)\<rparr>"

definition findIdempotent :: "xdb \<Rightarrow> string \<Rightarrow> string \<Rightarrow> response option" where
  "findIdempotent x tenant key =
     map_option cl_result (tfind (\<lambda>r. cl_tenant r = tenant \<and> cl_key r = key) (cmd_log x))"

definition recordCommand :: "string \<Rightarrow> string \<Rightarrow> string \<Rightarrow> string \<Rightarrow> string \<Rightarrow> response \<Rightarrow> xdb \<Rightarrow> xdb" where
  "recordCommand tenant key actor ty ref r x =
     x\<lparr>cmd_log := cmd_log x @ [\<lparr>cl_tenant = tenant, cl_key = key, cl_type = ty, cl_ref = ref,
         cl_actor = actor, cl_result = r\<rparr>]\<rparr>"

subsection \<open>The work item projection\<close>

definition project_task :: "task_row \<Rightarrow> work_item" where
  "project_task t =
     \<lparr>wi_tenant = t_tenant t, wi_status = t_status t,
      wi_high = (case t_sla t of None \<Rightarrow> False | Some h \<Rightarrow> h \<le> 8),
      wi_assignedTo = t_role t,
      wi_dueAt = map_option (\<lambda>h. of_int (t_created t) + h * 3600000) (t_sla t),
      wi_source = t_id t\<rparr>"

definition projectUnifiedWorkItems :: "string \<Rightarrow> xdb \<Rightarrow> work_item list" where
  "projectUnifiedWorkItems tenant x =
     map project_task (filter (\<lambda>t. t_tenant t = tenant \<and> t_status t = TOpen) (tasks x))"

definition rebuildProjection :: "string \<Rightarrow> xdb \<Rightarrow> (nat \<times> xdb) res" where
  "rebuildProjection slug x =
     assertTenant slug
       (let items = projectUnifiedWorkItems (tenantId slug) x in
        Inr (length items, x\<lparr>work_items := filter (\<lambda>w. wi_tenant w \<noteq> tenantId slug) (work_items x) @ items\<rparr>))"

definition listWorkItems :: "string \<Rightarrow> xdb \<Rightarrow> (work_item list \<times> xdb) res" where
  "listWorkItems slug x =
     (case rebuildProjection slug x of
        Inl e \<Rightarrow> Inl e
      | Inr (_, x') \<Rightarrow> Inr (filter (\<lambda>w. wi_tenant w = tenantId slug) (work_items x'), x'))"

end
