(* ===== verification/Workflow_Runtime.thy ===== *)
theory Workflow_Runtime
  imports Workflow_Store
begin

section \<open>The workflow runtime: requests, approvals, external references\<close>

text \<open>
  The handlers of xhub-api/src/xoffice/xoffice.service.ts that create and move instances. The
  collation of the resolver is the parameter \<open>le\<close>, the JSON catalog the parameter \<open>c\<close>. The
  handlers return an error and no state when they throw: the transaction is rolled back.
\<close>

subsection \<open>Assignees\<close>

definition config_get :: "wnode \<Rightarrow> string \<Rightarrow> json" where
  "config_get n k = get_prop (n_config n) k"

definition assignment_of :: "wnode \<Rightarrow> json" where
  "assignment_of n = config_get n ''assignment''"

definition taskRole :: "wnode \<Rightarrow> string" where
  "taskRole n =
     (let a = assignment_of n in
      if get_prop a ''type'' = JStr ''requesterManager'' then ''ROLE_REQUESTER_MANAGER''
      else to_str (jcoalesce (jcoalesce (get_prop a ''roleCode'') (get_prop a ''type'')) (JStr ''ROLE_PROCESS_ADMIN'')))"

definition resolveStructuredAssignee ::
  "(string \<Rightarrow> string \<Rightarrow> bool) \<Rightarrow> string \<Rightarrow> string \<Rightarrow> wnode \<Rightarrow> xdb \<Rightarrow> string option \<times> xdb" where
  "resolveStructuredAssignee le tenant instCode n x =
     (if \<not> truthy (get_prop (assignment_of n) ''selectorType'') then (None, x)
      else case selectorFromAssignment (assignment_of n) JUndef of
        None \<Rightarrow> (None, x)
      | Some sel \<Rightarrow>
          (let r = resolveAndSnapshot le (org x) tenant instCode (n_id n) sel;
               x' = appendAudit tenant instCode ''system:engine'' ''ASSIGNMENT_RESOLVED''
                      (x\<lparr>resolutions := resolutions x @ [r]\<rparr>)
           in (case re_person r of None \<Rightarrow> None | Some p \<Rightarrow> userIdForPerson (org x) p, x')))"

definition sla_of :: "wnode \<Rightarrow> rat option" where
  "sla_of n = (case config_get n ''slaHours'' of JNum h \<Rightarrow> Some h | _ \<Rightarrow> None)"

definition notifyAssigned :: "env \<Rightarrow> task_row \<Rightarrow> xdb \<Rightarrow> xdb" where
  "notifyAssigned v t x =
     (if \<not> truthy_str (t_assignee t) then x
      else dispatch v (t_tenant t) (t_assignee t) ''task.assigned'' (Some (t_id t)) ''in_app'' x)"

text \<open>\<open>materializeStops\<close>: one open task, an audit row and a notification for each stop.\<close>

definition materializeStop ::
  "(string \<Rightarrow> string \<Rightarrow> bool) \<Rightarrow> cfg \<Rightarrow> env \<Rightarrow> string \<Rightarrow> string \<Rightarrow> string \<Rightarrow> string \<Rightarrow> string \<Rightarrow> wnode \<Rightarrow>
   xdb \<Rightarrow> task_row \<times> xdb" where
  "materializeStop le c v slug tenant inst instCode actor stop x =
     (let (who, x1) = resolveStructuredAssignee le tenant instCode stop x;
          t = \<lparr>t_id = new_id v x1, t_tenant = tenant, t_inst = inst, t_node = n_id stop, t_nodeName = n_name stop,
               t_role = taskRole stop, t_assignee = coalesce_opt who (resolveAssignee c slug (taskRole stop)),
               t_status = TOpen, t_sla = sla_of stop, t_created = now v, t_actedAt = None, t_actor = None,
               t_onBehalf = None, t_reminded = False, t_escalated = False\<rparr>;
          x2 = x1\<lparr>tasks := tasks x1 @ [t], seq := Suc (seq x1)\<rparr>
      in (t, notifyAssigned v t (appendAudit tenant instCode actor ''task.created'' x2)))"

fun materializeStops ::
  "(string \<Rightarrow> string \<Rightarrow> bool) \<Rightarrow> cfg \<Rightarrow> env \<Rightarrow> string \<Rightarrow> string \<Rightarrow> string \<Rightarrow> string \<Rightarrow> string \<Rightarrow> wnode list \<Rightarrow>
   xdb \<Rightarrow> task_row list \<times> xdb" where
  "materializeStops le c v slug tenant inst instCode actor [] x = ([], x)"
| "materializeStops le c v slug tenant inst instCode actor (n # ns) x =
     (let (t, x1) = materializeStop le c v slug tenant inst instCode actor n x;
          (ts, x2) = materializeStops le c v slug tenant inst instCode actor ns x1
      in (t # ts, x2))"

subsection \<open>Service calls\<close>

text \<open>
  A node without a connector or action code makes the handler throw: \<open>toUpperCase\<close> of undefined,
  or the database refuses the row.
\<close>

definition call_codes :: "wnode \<Rightarrow> (string \<times> string) res" where
  "call_codes n =
     (case (str_field (n_config n) ''connectorCode'', str_field (n_config n) ''actionCode'') of
        (Some a, Some b) \<Rightarrow> Inr (a, b)
      | _ \<Rightarrow> Inl TypeErr)"

definition max_attempts :: "wnode \<Rightarrow> rat" where
  "max_attempts n =
     (case to_num (jcoalesce (get_prop (config_get n ''retry'') ''maxAttempts'') (JNum 1)) of
        Fin r \<Rightarrow> max 1 r | _ \<Rightarrow> 1)"

definition add_command :: "cmd_row \<Rightarrow> xdb \<Rightarrow> xdb" where
  "add_command r x = x\<lparr>commands := commands x @ [r], seq := Suc (seq x)\<rparr>"

text \<open>The row of a call: failed on a missing required field, else the mock adapter's result.\<close>

definition call_row ::
  "cfg \<Rightarrow> env \<Rightarrow> string \<Rightarrow> string \<Rightarrow> json \<Rightarrow> string \<Rightarrow> string \<Rightarrow> wnode \<Rightarrow> xdb \<Rightarrow> cmd_row" where
  "call_row c v tenant inst vars conn act n x =
     (let r = resolveConnectorPayload c (n_config n) vars;
          good = (r_missing r = []);
          result = mockConnectorResult (uuid v (seq x)) conn act (r_payload r);
          sref = buildSourceRef tenant conn act result
      in \<lparr>c_id = new_id v x, c_tenant = tenant, c_inst = inst, c_node = n_id n,
          c_connector = conn, c_action = act, c_payload = r_payload r,
          c_status = (if good then CmdSuccess else CmdFailed),
          c_result = (if good then JObj (obj_set result ''sourceRef'' (sref_json sref)) else JNull),
          c_sref = (if good then Some sref else None),
          c_attempts = (if good then 1 else max_attempts n)\<rparr>)"

definition completion_event :: "cfg \<Rightarrow> string \<Rightarrow> string \<Rightarrow> string" where
  "completion_event c conn act =
     (case findAction c conn act of
        None \<Rightarrow> ''xoffice.connector.command.completed.v1''
      | Some a \<Rightarrow> coalesce (ca_eventOnComplete a) ''xoffice.connector.command.completed.v1'')"

definition executeServiceCall ::
  "cfg \<Rightarrow> env \<Rightarrow> string \<Rightarrow> string \<Rightarrow> string \<Rightarrow> string \<Rightarrow> json \<Rightarrow> wnode \<Rightarrow> xdb \<Rightarrow> xdb res" where
  "executeServiceCall c v tenant inst instCode actor vars n x =
     (case call_codes n of
        Inl e \<Rightarrow> Inl e
      | Inr (conn, act) \<Rightarrow>
          (let x1 = appendEvent tenant inst ''xoffice.connector.command.requested.v1'' (n_id n) x;
               row = call_row c v tenant inst vars conn act n x1;
               x2 = add_command row x1
           in if c_status row = CmdSuccess then
                Inr (dispatch v tenant (Some actor) ''connector.completed'' (map_option sr_sourceId (c_sref row)) ''in_app''
                       (appendEvent tenant inst (completion_event c conn act) (n_id n)
                         (appendAudit tenant instCode actor ''connector.success'' x2)))
              else Inr (appendAudit tenant instCode actor ''connector.failed'' x2)))"

fun executeServiceCalls ::
  "cfg \<Rightarrow> env \<Rightarrow> string \<Rightarrow> string \<Rightarrow> string \<Rightarrow> string \<Rightarrow> json \<Rightarrow> wnode list \<Rightarrow> xdb \<Rightarrow> xdb res" where
  "executeServiceCalls c v tenant inst instCode actor vars [] x = Inr x"
| "executeServiceCalls c v tenant inst instCode actor vars (n # ns) x =
     (case executeServiceCall c v tenant inst instCode actor vars n x of
        Inl e \<Rightarrow> Inl e
      | Inr x1 \<Rightarrow> executeServiceCalls c v tenant inst instCode actor vars ns x1)"

text \<open>An external action: a pending row for a person to complete, no result and no reference.\<close>

definition createExternalExecution ::
  "cfg \<Rightarrow> env \<Rightarrow> string \<Rightarrow> string \<Rightarrow> string \<Rightarrow> string \<Rightarrow> string \<Rightarrow> json \<Rightarrow> wnode \<Rightarrow> xdb \<Rightarrow> xdb res" where
  "createExternalExecution c v slug tenant inst instCode actor vars n x =
     (case call_codes n of
        Inl e \<Rightarrow> Inl e
      | Inr (conn, act) \<Rightarrow>
          (let r = resolveConnectorPayload c (n_config n) vars;
               role = to_str (jcoalesce (config_get n ''fallbackAssigneeRole'') (JStr ''ROLE_PROCESS_ADMIN''));
               who = resolveAssignee c slug role;
               ee = \<lparr>x_id = new_id v x, x_tenant = tenant, x_instCode = instCode, x_node = n_id n,
                     x_connector = conn, x_action = act, x_mode = serviceCallMode c (n_config n),
                     x_status = XPending, x_payload = r_payload r, x_reference = None, x_refSystem = None,
                     x_enteredBy = None, x_sref = None\<rparr>;
               x1 = x\<lparr>ext_tasks := ext_tasks x @ [ee], seq := Suc (seq x)\<rparr>;
               row = \<lparr>c_id = new_id v x1, c_tenant = tenant, c_inst = inst, c_node = n_id n,
                      c_connector = conn, c_action = act, c_payload = r_payload r, c_status = CmdManualPending,
                      c_result = JNull, c_sref = None, c_attempts = 0\<rparr>;
               x2 = x1\<lparr>commands := commands x1 @ [row], seq := Suc (seq x1)\<rparr>;
               x3 = appendEvent tenant inst ''xoffice.external_execution.created.v1'' (n_id n) x2;
               x4 = appendAudit tenant instCode actor ''external_execution.created'' x3
           in Inr (dispatch v tenant who ''external.manual_pending'' (Some (x_id ee)) ''xspace_card'' x4)))"

fun createExternalExecutions ::
  "cfg \<Rightarrow> env \<Rightarrow> string \<Rightarrow> string \<Rightarrow> string \<Rightarrow> string \<Rightarrow> string \<Rightarrow> json \<Rightarrow> wnode list \<Rightarrow> xdb \<Rightarrow> xdb res" where
  "createExternalExecutions c v slug tenant inst instCode actor vars [] x = Inr x"
| "createExternalExecutions c v slug tenant inst instCode actor vars (n # ns) x =
     (case createExternalExecution c v slug tenant inst instCode actor vars n x of
        Inl e \<Rightarrow> Inl e
      | Inr x1 \<Rightarrow> createExternalExecutions c v slug tenant inst instCode actor vars ns x1)"

subsection \<open>Subflows\<close>

definition entry_after :: "wdef \<Rightarrow> wnode \<Rightarrow> json \<Rightarrow> string list res" where
  "entry_after d n vars =
     (case nextEdge n (d_edges d) vars of
        Inl e \<Rightarrow> Inl e | Inr None \<Rightarrow> Inr [] | Inr (Some e) \<Rightarrow> Inr [e_target e])"

text \<open>The auto-approval loop of \<open>runSubflow\<close>: clear one resting token per turn, \<open>MAX_WALK\<close> turns.\<close>

fun drive_child :: "cfg \<Rightarrow> wdef \<Rightarrow> json \<Rightarrow> nat \<Rightarrow> tokens \<Rightarrow> tokens res" where
  "drive_child c d vars 0 t = Inr t"
| "drive_child c d vars (Suc k) t =
     (case active t of
        [] \<Rightarrow> Inr t
      | r # rest \<Rightarrow>
          (let t0 = t\<lparr>active := rest, stops := []\<rparr> in
           case find_node (d_nodes d) r of
             None \<Rightarrow> drive_child c d vars k t0
           | Some n \<Rightarrow>
               (if n_type n = NParallelJoin then drive_child c d vars k t0
                else case entry_after d n vars of
                  Inl e \<Rightarrow> Inl e
                | Inr entry \<Rightarrow>
                    (case advanceMulti c d entry vars t0 of
                       Inl e \<Rightarrow> Inl e
                     | Inr t1 \<Rightarrow> drive_child c d vars k t1))))"

definition child_code :: "wnode \<Rightarrow> json" where
  "child_code n = jcoalesce (config_get n ''workflowCode'') (config_get n ''subWorkflowCode'')"

definition run_child :: "cfg \<Rightarrow> wdef \<Rightarrow> wnode \<Rightarrow> json \<Rightarrow> tokens res" where
  "run_child c d start vars =
     (case entry_after d start vars of
        Inl e \<Rightarrow> Inl e
      | Inr entry \<Rightarrow>
          (case advanceMulti c d entry vars (no_tokens []) of
             Inl e \<Rightarrow> Inl e
           | Inr t \<Rightarrow> drive_child c d vars MAX_WALK t))"

definition insert_instance :: "inst_row \<Rightarrow> xdb \<Rightarrow> xdb res" where
  "insert_instance r x =
     (if list_ex (\<lambda>i. i_tenant i = i_tenant r \<and> i_code i = i_code r) (instances x) then Inl UniqueViolation
      else Inr (x\<lparr>instances := instances x @ [r], seq := Suc (seq x)\<rparr>))"

definition runSubflow ::
  "cfg \<Rightarrow> env \<Rightarrow> string \<Rightarrow> string \<Rightarrow> string \<Rightarrow> string \<Rightarrow> string \<Rightarrow> json \<Rightarrow> wnode \<Rightarrow> xdb \<Rightarrow> xdb res" where
  "runSubflow c v slug tenant inst instCode actor vars n x =
     (if \<not> truthy (child_code n) then Inr x
      else case json_str (child_code n) of
        None \<Rightarrow> Inl TypeErr
      | Some code \<Rightarrow>
          (case getWorkflowSafe x slug code of
             None \<Rightarrow> Inr x
           | Some d \<Rightarrow>
               (case start_node d of
                  None \<Rightarrow> Inr x
                | Some start \<Rightarrow>
                    (case run_child c d start vars of
                       Inl e \<Rightarrow> Inl e
                     | Inr _ \<Rightarrow>
                         (let child = \<lparr>i_id = new_id v x, i_tenant = tenant, i_workflow = code,
                                 i_code = ''SUB-'' @ stamp v @ ''-'' @ show_nat (subflowSeq x),
                                 i_requester = actor @ ''@'' @ slug @ ''.local'', i_vars = vars,
                                 i_status = Completed, i_current = None, i_active = Some [], i_updated = now v\<rparr>
                          in case insert_instance child (x\<lparr>subflowSeq := Suc (subflowSeq x)\<rparr>) of
                            Inl e \<Rightarrow> Inl e
                          | Inr x1 \<Rightarrow>
                              Inr (appendAudit tenant instCode actor ''subflow.completed''
                                    (appendEvent tenant inst ''xoffice.subflow.completed.v1'' (n_id n) x1)))))))"

fun executeSubflows ::
  "cfg \<Rightarrow> env \<Rightarrow> string \<Rightarrow> string \<Rightarrow> string \<Rightarrow> string \<Rightarrow> string \<Rightarrow> json \<Rightarrow> wnode list \<Rightarrow> xdb \<Rightarrow> xdb res" where
  "executeSubflows c v slug tenant inst instCode actor vars [] x = Inr x"
| "executeSubflows c v slug tenant inst instCode actor vars (n # ns) x =
     (case runSubflow c v slug tenant inst instCode actor vars n x of
        Inl e \<Rightarrow> Inl e
      | Inr x1 \<Rightarrow> executeSubflows c v slug tenant inst instCode actor vars ns x1)"

text \<open>The three queues of an advance, in the order every handler runs them.\<close>

definition run_queues ::
  "cfg \<Rightarrow> env \<Rightarrow> string \<Rightarrow> string \<Rightarrow> string \<Rightarrow> string \<Rightarrow> string \<Rightarrow> json \<Rightarrow> tokens \<Rightarrow> xdb \<Rightarrow> xdb res" where
  "run_queues c v slug tenant inst instCode actor vars t x =
     (case executeServiceCalls c v tenant inst instCode actor vars (calls t) x of
        Inl e \<Rightarrow> Inl e
      | Inr x1 \<Rightarrow>
          (case executeSubflows c v slug tenant inst instCode actor vars (subflows t) x1 of
             Inl e \<Rightarrow> Inl e
           | Inr x2 \<Rightarrow> createExternalExecutions c v slug tenant inst instCode actor vars (externals t) x2))"

subsection \<open>Requests\<close>

definition inst_status_of :: "tokens \<Rightarrow> inst_status" where
  "inst_status_of t = (if active t = [] then Completed else Running)"

definition findEndId :: "wdef \<Rightarrow> string option" where
  "findEndId d = map_option n_id (tfind (\<lambda>n. n_type n = NEnd) (d_nodes d))"

definition current_of :: "wdef \<Rightarrow> string \<Rightarrow> tokens \<Rightarrow> string option" where
  "current_of d from t =
     (case active t of
        a # _ \<Rightarrow> Some a
      | [] \<Rightarrow> (if endReached t then findEndId d else Some from))"

definition decorate :: "string \<Rightarrow> xdb \<Rightarrow> inst_row \<Rightarrow> task_row list \<Rightarrow> response" where
  "decorate slug x i ts =
     (let node = (case (getWorkflowSafe x slug (i_workflow i), i_current i) of
                    (Some d, Some cur) \<Rightarrow> find_node (d_nodes d) cur | _ \<Rightarrow> None)
      in \<lparr>rs_inst = i, rs_nodeName = map_option n_name node, rs_nodeType = map_option n_type node, rs_tasks = ts\<rparr>)"

definition request_row :: "env \<Rightarrow> string \<Rightarrow> string \<Rightarrow> string \<Rightarrow> json \<Rightarrow> wdef \<Rightarrow> wnode \<Rightarrow> tokens \<Rightarrow> xdb \<Rightarrow> inst_row" where
  "request_row v slug code actor vars d start t x =
     \<lparr>i_id = new_id v x, i_tenant = tenantId slug, i_workflow = code, i_code = gen_code v ''REQ'' (seq x),
      i_requester = actor @ ''@'' @ slug @ ''.local'', i_vars = vars, i_status = inst_status_of t,
      i_current = current_of d (n_id start) t, i_active = Some (active t), i_updated = now v\<rparr>"

text \<open>The writes of \<open>createRequest\<close> once the tokens have settled.\<close>

definition store_request ::
  "(string \<Rightarrow> string \<Rightarrow> bool) \<Rightarrow> cfg \<Rightarrow> env \<Rightarrow> string \<Rightarrow> string \<Rightarrow> string \<Rightarrow> inst_row \<Rightarrow> tokens \<Rightarrow>
   xdb \<Rightarrow> (response \<times> xdb) res" where
  "store_request le c v slug actor key i t x =
     (let tenant = tenantId slug in
      case insert_instance i x of
        Inl e \<Rightarrow> Inl e
      | Inr x1 \<Rightarrow>
          (case run_queues c v slug tenant (i_id i) (i_code i) actor (i_vars i) t
                  (appendAudit tenant (i_code i) actor ''request.created'' x1) of
             Inl e \<Rightarrow> Inl e
           | Inr x2 \<Rightarrow>
               (let (ts, x3) = materializeStops le c v slug tenant (i_id i) (i_code i) actor (stops t) x2;
                    x4 = (if i_status i = Completed
                          then appendAudit tenant (i_code i) actor ''instance.completed'' x3 else x3);
                    r = decorate slug x4 i ts
                in Inr (r, recordCommand tenant key actor ''createRequest'' (i_code i) r x4))))"

definition createRequest ::
  "(string \<Rightarrow> string \<Rightarrow> bool) \<Rightarrow> cfg \<Rightarrow> env \<Rightarrow> string \<Rightarrow> string \<Rightarrow> string \<Rightarrow> json \<Rightarrow>
   string option \<Rightarrow> string option \<Rightarrow> xdb \<Rightarrow> (response \<times> xdb) res" where
  "createRequest le c v slug code actor varsIn key corr x =
     assertTenant slug
       (let ev = resolveEnvelope v x key corr; vars = jcoalesce varsIn (JObj []) in
        case findIdempotent x (tenantId slug) (e_key ev) of
          Some r \<Rightarrow> Inr (r, x)
        | None \<Rightarrow>
            (case getWorkflow x slug code of
               Inl e \<Rightarrow> Inl e
             | Inr d \<Rightarrow>
                 (case start_node d of
                    None \<Rightarrow> Inl (NotFound ''start node'')
                  | Some start \<Rightarrow>
                      (case entry_after d start vars of
                         Inl e \<Rightarrow> Inl e
                       | Inr entry \<Rightarrow>
                           (case advanceMulti c d entry vars (no_tokens []) of
                              Inl e \<Rightarrow> Inl e
                            | Inr t \<Rightarrow>
                                store_request le c v slug actor (e_key ev)
                                  (request_row v slug code actor vars d start t x) t x)))))"

subsection \<open>Moving an instance on\<close>

definition inst_by_id :: "xdb \<Rightarrow> string \<Rightarrow> inst_row option" where
  "inst_by_id x i = tfind (\<lambda>r. i_id r = i) (instances x)"

definition resting :: "inst_row \<Rightarrow> string list" where
  "resting i =
     (case i_active i of
        Some a \<Rightarrow> a
      | None \<Rightarrow> (case i_current i of None \<Rightarrow> [] | Some cur \<Rightarrow> (if cur = [] then [] else [cur])))"

definition upd_instance :: "string \<Rightarrow> (inst_row \<Rightarrow> inst_row) \<Rightarrow> xdb \<Rightarrow> xdb" where
  "upd_instance i f x = x\<lparr>instances := tupd (\<lambda>r. i_id r = i) f (instances x)\<rparr>"

text \<open>
  The tail that \<open>actOnTask\<close> and \<open>enterExternalReference\<close> have in common: consume the token at
  \<open>node\<close>, advance, run the queues, store the instance, create tasks, announce completion.
\<close>

definition advance_from :: "cfg \<Rightarrow> wdef \<Rightarrow> inst_row \<Rightarrow> string \<Rightarrow> tokens res" where
  "advance_from c d i node =
     (let act = remove1 node (resting i) in
      case (case find_node (d_nodes d) node of
              None \<Rightarrow> Inr [] | Some n \<Rightarrow> entry_after d n (jcoalesce (i_vars i) (JObj []))) of
        Inl e \<Rightarrow> Inl e
      | Inr entry \<Rightarrow> advanceMulti c d entry (jcoalesce (i_vars i) (JObj [])) (no_tokens act))"

definition moved :: "env \<Rightarrow> wdef \<Rightarrow> string \<Rightarrow> tokens \<Rightarrow> inst_row \<Rightarrow> inst_row" where
  "moved v d node t r = r\<lparr>i_status := inst_status_of t, i_current := current_of d node t,
     i_active := Some (active t), i_updated := now v\<rparr>"

definition resume ::
  "(string \<Rightarrow> string \<Rightarrow> bool) \<Rightarrow> cfg \<Rightarrow> env \<Rightarrow> string \<Rightarrow> string \<Rightarrow> string \<Rightarrow> wdef \<Rightarrow> inst_row \<Rightarrow> string \<Rightarrow>
   xdb \<Rightarrow> (inst_row \<times> task_row list \<times> xdb) res" where
  "resume le c v slug tenant actor d i node x =
     (case advance_from c d i node of
        Inl e \<Rightarrow> Inl e
      | Inr t \<Rightarrow>
          (case run_queues c v slug tenant (i_id i) (i_code i) actor (jcoalesce (i_vars i) (JObj [])) t x of
             Inl e \<Rightarrow> Inl e
           | Inr x1 \<Rightarrow>
               (let x2 = upd_instance (i_id i) (moved v d node t) x1;
                    (ts, x3) = materializeStops le c v slug tenant (i_id i) (i_code i) actor (stops t) x2;
                    x4 = (if inst_status_of t = Completed then
                            dispatch v tenant (Some (i_requester i)) ''request.completed'' (Some (i_code i)) ''in_app''
                              (appendAudit tenant (i_code i) actor ''instance.completed'' x3)
                          else x3)
                in Inr (moved v d node t i, ts, x4))))"

subsection \<open>Acting on a task\<close>

datatype act = Approve | Reject

definition findValidDelegate :: "xdb \<Rightarrow> env \<Rightarrow> string \<Rightarrow> string \<Rightarrow> string \<Rightarrow> bool" where
  "findValidDelegate x v tenant fromUser toUser =
     list_ex (\<lambda>d. dl_tenant d = tenant \<and> dl_from d = fromUser \<and> dl_to d = toUser \<and>
       dl_fromAt d \<le> now v \<and> dl_toAt d \<ge> now v) (delegations (org x))"

text \<open>The authorisation: \<open>Inr\<close> of the user on whose behalf the actor acts, if any.\<close>

definition authorize :: "xdb \<Rightarrow> env \<Rightarrow> string \<Rightarrow> task_row \<Rightarrow> string \<Rightarrow> string option res" where
  "authorize x v tenant t actor =
     (if truthy_str (t_assignee t) \<and> Some actor \<noteq> t_assignee t then
        (if findValidDelegate x v tenant (coalesce (t_assignee t) '''') actor then Inr (t_assignee t)
         else Inl (Forbidden ''actor is neither the assignee nor a valid delegate''))
      else Inr None)"

definition decide_task :: "env \<Rightarrow> act \<Rightarrow> string \<Rightarrow> string option \<Rightarrow> task_row \<Rightarrow> task_row" where
  "decide_task v a actor behalf t =
     t\<lparr>t_status := (case a of Approve \<Rightarrow> TApproved | Reject \<Rightarrow> TRejected), t_actedAt := Some (now v),
       t_actor := Some actor, t_onBehalf := behalf\<rparr>"

definition actOnTask ::
  "(string \<Rightarrow> string \<Rightarrow> bool) \<Rightarrow> cfg \<Rightarrow> env \<Rightarrow> string \<Rightarrow> string \<Rightarrow> string \<Rightarrow> act \<Rightarrow>
   string option \<Rightarrow> string option \<Rightarrow> xdb \<Rightarrow> (response \<times> xdb) res" where
  "actOnTask le c v slug taskId actor a key corr x =
     assertTenant slug
       (let tenant = tenantId slug; ev = resolveEnvelope v x key corr in
        case findIdempotent x tenant (e_key ev) of
          Some r \<Rightarrow> Inr (r, x)
        | None \<Rightarrow>
            (case tfind (\<lambda>t. t_id t = taskId \<and> t_tenant t = tenant) (tasks x) of
               None \<Rightarrow> Inl (NotFound ''Task'')
             | Some t \<Rightarrow>
                 (if t_status t \<noteq> TOpen then Inl (NotFound ''Task already handled'')
                  else case inst_by_id x (t_inst t) of
                    None \<Rightarrow> Inl TypeErr
                  | Some i \<Rightarrow>
                      (case getWorkflow x slug (i_workflow i) of
                         Inl e \<Rightarrow> Inl e
                       | Inr d \<Rightarrow>
                           (case authorize x v tenant t actor of
                              Inl e \<Rightarrow> Inl e
                            | Inr behalf \<Rightarrow>
                                (let x1 = x\<lparr>tasks := tupd (\<lambda>r. t_id r = t_id t) (decide_task v a actor behalf) (tasks x)\<rparr>;
                                     x2 = appendAudit tenant (i_code i) actor
                                            (case a of Approve \<Rightarrow> ''task.approve'' | Reject \<Rightarrow> ''task.reject'') x1;
                                     x3 = dispatch v tenant (coalesce_opt behalf (t_assignee t))
                                            (case a of Approve \<Rightarrow> ''task.approved'' | Reject \<Rightarrow> ''task.rejected'')
                                            (Some (t_id t)) ''in_app'' x2
                                 in case a of
                                      Reject \<Rightarrow>
                                        (let f = (\<lambda>r. r\<lparr>i_status := Rejected, i_updated := now v\<rparr>);
                                             x4 = appendAudit tenant (i_code i) actor ''instance.rejected''
                                                    (upd_instance (i_id i) f x3);
                                             r = decorate slug x4 (f i) []
                                         in Inr (r, recordCommand tenant (e_key ev) actor ''actOnTask'' taskId r x4))
                                    | Approve \<Rightarrow>
                                        (case resume le c v slug tenant actor d i (t_node t) x3 of
                                           Inl e \<Rightarrow> Inl e
                                         | Inr (i', ts, x4) \<Rightarrow>
                                             (let r = decorate slug x4 i' ts in
                                              Inr (r, recordCommand tenant (e_key ev) actor ''actOnTask'' taskId r x4)))))))))"

subsection \<open>External references\<close>

text \<open>\<open>buildManualSourceRef\<close> and the update of the pending rows.\<close>

definition enter_ref :: "cfg \<Rightarrow> string \<Rightarrow> string \<Rightarrow> string \<Rightarrow> string option \<Rightarrow> ext_row \<Rightarrow> ext_row" where
  "enter_ref c tenant actor ref sys e =
     (let sref = buildManualSourceRef c tenant (x_connector e) (x_action e) ref sys in
      e\<lparr>x_status := XReferenceEntered, x_reference := Some ref,
        x_refSystem := Some (if trim_in sys = [] then sr_sourceSystem sref else trim_in sys),
        x_enteredBy := Some actor, x_sref := Some sref\<rparr>)"

definition complete_command :: "ext_row \<Rightarrow> cmd_row \<Rightarrow> cmd_row" where
  "complete_command e r =
     r\<lparr>c_status := CmdManualCompleted, c_sref := x_sref e, c_attempts := 1,
       c_result := JObj [(''sourceRef'', case x_sref e of None \<Rightarrow> JNull | Some s \<Rightarrow> sref_json s),
                         (''referenceCode'', JStr (coalesce (x_reference e) ''''))]\<rparr>"

text \<open>The latest command of the tenant that waits at this node: the query names no instance.\<close>

definition waiting_command :: "string \<Rightarrow> string \<Rightarrow> xdb \<Rightarrow> cmd_row option" where
  "waiting_command tenant node x =
     tfind (\<lambda>r. c_tenant r = tenant \<and> c_node r = node \<and> c_status r = CmdManualPending) (rev (commands x))"

definition set_ext :: "string \<Rightarrow> (ext_row \<Rightarrow> ext_row) \<Rightarrow> xdb \<Rightarrow> xdb" where
  "set_ext i f x = x\<lparr>ext_tasks := tupd (\<lambda>e. x_id e = i) f (ext_tasks x)\<rparr>"

definition finish_ext :: "ext_row \<Rightarrow> ext_row" where
  "finish_ext e = e\<lparr>x_status := XCompleted\<rparr>"

definition inst_by_code :: "xdb \<Rightarrow> string \<Rightarrow> string \<Rightarrow> inst_row option" where
  "inst_by_code x tenant code = tfind (\<lambda>r. i_tenant r = tenant \<and> i_code r = code) (instances x)"

text \<open>The writes before the instance moves; \<open>e1\<close> is the row with its reference.\<close>

definition record_reference :: "env \<Rightarrow> string \<Rightarrow> string \<Rightarrow> ext_row \<Rightarrow> xdb \<Rightarrow> xdb" where
  "record_reference v tenant actor e1 x =
     (let x1 = set_ext (x_id e1) (\<lambda>_. e1) x;
          x2 = (case waiting_command tenant (x_node e1) x1 of
                  None \<Rightarrow> x1
                | Some r \<Rightarrow> x1\<lparr>commands := tupd (\<lambda>q. c_id q = c_id r) (complete_command e1) (commands x1)\<rparr>)
      in dispatch v tenant (Some actor) ''external.completed'' (map_option sr_sourceId (x_sref e1)) ''in_app''
           (appendAudit tenant (x_instCode e1) actor ''external_execution.completed'' x2))"

text \<open>The instance, when there is one, advances past the node; the row is then completed.\<close>

definition advance_external ::
  "(string \<Rightarrow> string \<Rightarrow> bool) \<Rightarrow> cfg \<Rightarrow> env \<Rightarrow> string \<Rightarrow> string \<Rightarrow> ext_row \<Rightarrow> xdb \<Rightarrow>
   (ext_row \<times> inst_row option \<times> xdb) res" where
  "advance_external le c v slug actor e1 x =
     (case inst_by_code x (tenantId slug) (x_instCode e1) of
        None \<Rightarrow> Inr (finish_ext e1, None, set_ext (x_id e1) finish_ext x)
      | Some i \<Rightarrow>
          (case getWorkflow x slug (i_workflow i) of
             Inl er \<Rightarrow> Inl er
           | Inr d \<Rightarrow>
               (case resume le c v slug (tenantId slug) actor d i (x_node e1) x of
                  Inl er \<Rightarrow> Inl er
                | Inr (i', _, x') \<Rightarrow> Inr (finish_ext e1, Some i', set_ext (x_id e1) finish_ext x'))))"

definition enterExternalReference ::
  "(string \<Rightarrow> string \<Rightarrow> bool) \<Rightarrow> cfg \<Rightarrow> env \<Rightarrow> string \<Rightarrow> string \<Rightarrow> string \<Rightarrow> string option \<Rightarrow> string option \<Rightarrow>
   xdb \<Rightarrow> (ext_row \<times> inst_row option \<times> xdb) res" where
  "enterExternalReference le c v slug i actor refIn sys x =
     assertTenant slug
       (if trim_in refIn = [] then Inl (NotFound ''referenceCode is required'')
        else case tfind (\<lambda>e. x_id e = i \<and> x_tenant e = tenantId slug) (ext_tasks x) of
          None \<Rightarrow> Inl (NotFound ''ExternalExecution'')
        | Some e \<Rightarrow>
            (if x_status e = XCompleted then Inr (e, inst_by_code x (tenantId slug) (x_instCode e), x)
             else (let e1 = enter_ref c (tenantId slug) actor (trim_in refIn) sys e in
                   advance_external le c v slug actor e1 (record_reference v (tenantId slug) actor e1 x))))"

subsection \<open>Light approvals\<close>

text \<open>The pair of rows that other modules ask for without running a definition.\<close>

definition spawnLightweightApprovalTask ::
  "env \<Rightarrow> string \<Rightarrow> string \<Rightarrow> string \<Rightarrow> string \<Rightarrow> string option \<Rightarrow> xdb \<Rightarrow> (string \<times> string \<times> xdb) res" where
  "spawnLightweightApprovalTask v tenant workflowCode requester role who x =
     (let i = \<lparr>i_id = new_id v x, i_tenant = tenant, i_workflow = workflowCode,
               i_code = gen_code v workflowCode (seq x), i_requester = requester, i_vars = JObj [],
               i_status = Running, i_current = Some ''approval'', i_active = None, i_updated = now v\<rparr> in
      case insert_instance i x of
        Inl e \<Rightarrow> Inl e
      | Inr x1 \<Rightarrow>
          (let t = \<lparr>t_id = new_id v x1, t_tenant = tenant, t_inst = i_id i, t_node = ''approval'',
                    t_nodeName = ''Duyet'', t_role = role, t_assignee = who, t_status = TOpen, t_sla = None,
                    t_created = now v, t_actedAt = None, t_actor = None, t_onBehalf = None,
                    t_reminded = False, t_escalated = False\<rparr>
           in Inr (i_id i, t_id t, x1\<lparr>tasks := tasks x1 @ [t], seq := Suc (seq x1)\<rparr>)))"

definition closeLightweightApprovalTask :: "env \<Rightarrow> string \<Rightarrow> act \<Rightarrow> string \<Rightarrow> xdb \<Rightarrow> xdb res" where
  "closeLightweightApprovalTask v taskId a actor x =
     (if tfind (\<lambda>t. t_id t = taskId) (tasks x) = None then Inl TypeErr
      else Inr (x\<lparr>tasks := tupd (\<lambda>t. t_id t = taskId)
             (\<lambda>t. t\<lparr>t_status := (case a of Approve \<Rightarrow> TApproved | Reject \<Rightarrow> TRejected),
                    t_actedAt := Some (now v), t_actor := Some actor\<rparr>) (tasks x)\<rparr>))"

definition listOpenApprovalTasksForAssignee :: "string \<Rightarrow> string \<Rightarrow> xdb \<Rightarrow> string list" where
  "listOpenApprovalTasksForAssignee tenant user x =
     map t_id (filter (\<lambda>t. t_tenant t = tenant \<and> t_assignee t = Some user \<and> t_status t = TOpen) (tasks x))"

end
