(* ===== verification/Scheduler.thy ===== *)
theory Scheduler
  imports Workflow_Runtime
begin

section \<open>The scheduler sweep\<close>

text \<open>
  \<open>runSchedulerSweep\<close> of xhub-api/src/xoffice/xoffice.service.ts: one pass over the open tasks of
  all tenants but the canary (a reminder in the last quarter of the SLA window, an escalation
  after the deadline) and one over the running instances whose current node is a timer. The
  rows are read once at the start, as in the source. Hours are rationals, times milliseconds.
\<close>

definition DEFAULT_SLA_HOURS :: rat where
  "DEFAULT_SLA_HOURS = 24"

definition HOUR :: rat where
  "HOUR = 3600000"

record sweep =
  sw_reminders :: nat
  sw_escalations :: nat
  sw_advanced :: nat

text \<open>The options: a forced clock and a task to be treated as overdue.\<close>

record sweep_opts =
  so_forceNow :: "int option"
  so_overdue :: "string option"

definition sweep_now :: "env \<Rightarrow> sweep_opts \<Rightarrow> int" where
  "sweep_now v o1 = coalesce (so_forceNow o1) (now v)"

definition task_sla :: "task_row \<Rightarrow> rat" where
  "task_sla t = (case t_sla t of Some h \<Rightarrow> (if h > 0 then h else DEFAULT_SLA_HOURS) | None \<Rightarrow> DEFAULT_SLA_HOURS)"

definition task_deadline :: "task_row \<Rightarrow> rat" where
  "task_deadline t = of_int (t_created t) + task_sla t * HOUR"

definition due_reminder :: "int \<Rightarrow> bool \<Rightarrow> task_row \<Rightarrow> bool" where
  "due_reminder clock forced t \<longleftrightarrow>
     \<not> t_reminded t \<and> \<not> t_escalated t \<and> \<not> forced \<and>
     task_deadline t - of_int clock > 0 \<and> task_deadline t - of_int clock \<le> task_sla t * HOUR * (1 / 4)"

definition due_escalation :: "int \<Rightarrow> bool \<Rightarrow> task_row \<Rightarrow> bool" where
  "due_escalation clock forced t \<longleftrightarrow> \<not> t_escalated t \<and> (forced \<or> of_int clock \<ge> task_deadline t)"

definition escalate_user :: "cfg \<Rightarrow> xdb \<Rightarrow> task_row \<Rightarrow> string option" where
  "escalate_user c x t =
     (let slug = slugFromTenantId (t_tenant t);
          wf = (case inst_by_id x (t_inst t) of None \<Rightarrow> '''' | Some i \<Rightarrow> i_workflow i);
          role = (case getWorkflowSafe x slug wf of
                    None \<Rightarrow> ''ROLE_PROCESS_ADMIN''
                  | Some d \<Rightarrow> coalesce (d_ownerRoleCode d) ''ROLE_PROCESS_ADMIN'')
      in resolveAssignee c slug role)"

definition task_inst_code :: "xdb \<Rightarrow> task_row \<Rightarrow> string" where
  "task_inst_code x t = (case inst_by_id x (t_inst t) of None \<Rightarrow> '''' | Some i \<Rightarrow> i_code i)"

definition set_task :: "string \<Rightarrow> (task_row \<Rightarrow> task_row) \<Rightarrow> xdb \<Rightarrow> xdb" where
  "set_task i f x = x\<lparr>tasks := tupd (\<lambda>t. t_id t = i) f (tasks x)\<rparr>"

definition sweep_task :: "cfg \<Rightarrow> env \<Rightarrow> sweep_opts \<Rightarrow> task_row \<Rightarrow> sweep \<times> xdb \<Rightarrow> sweep \<times> xdb" where
  "sweep_task c v o1 t = (\<lambda>(r, x).
     (let clock = sweep_now v o1; forced = (so_overdue o1 = Some (t_id t)) in
      if slugFromTenantId (t_tenant t) = CANARY then (r, x)
      else if due_reminder clock forced t then
        (r\<lparr>sw_reminders := Suc (sw_reminders r)\<rparr>,
         dispatch v (t_tenant t) (t_assignee t) ''task.reminder'' (Some (t_id t)) ''xspace_card''
           (set_task (t_id t) (\<lambda>t. t\<lparr>t_reminded := True\<rparr>) x))
      else if due_escalation clock forced t then
        (r\<lparr>sw_escalations := Suc (sw_escalations r)\<rparr>,
         dispatch v (t_tenant t) (coalesce_opt (escalate_user c x t) (t_assignee t)) ''task.escalated''
           (Some (t_id t)) ''xspace_card''
           (appendAudit (t_tenant t) (task_inst_code x t) ''system-scheduler'' ''task.escalated''
              (set_task (t_id t) (\<lambda>t. t\<lparr>t_escalated := True\<rparr>) x)))
      else (r, x)))"

text \<open>Is a timer due? \<open>now < base + duration\<close> with \<open>duration\<close> any JSON number.\<close>

definition timer_waits :: "int \<Rightarrow> int \<Rightarrow> wnode \<Rightarrow> bool" where
  "timer_waits clock base n =
     (case to_num (jcoalesce (config_get n ''durationHours'') (JNum 0)) of
        Fin h \<Rightarrow> of_int clock < of_int base + h * HOUR
      | PosInf \<Rightarrow> True | NegInf \<Rightarrow> False | NaN \<Rightarrow> False)"

definition timer_node :: "xdb \<Rightarrow> inst_row \<Rightarrow> (wdef \<times> wnode) option" where
  "timer_node x i =
     (case (getWorkflowSafe x (slugFromTenantId (i_tenant i)) (i_workflow i), i_current i) of
        (Some d, Some cur) \<Rightarrow>
          (if cur = [] then None
           else case find_node (d_nodes d) cur of
             None \<Rightarrow> None
           | Some n \<Rightarrow> (if n_type n = NTimer then Some (d, n) else None))
      | _ \<Rightarrow> None)"

definition sweep_instance :: "env \<Rightarrow> sweep_opts \<Rightarrow> inst_row \<Rightarrow> sweep \<times> xdb \<Rightarrow> (sweep \<times> xdb) res" where
  "sweep_instance v o1 i = (\<lambda>(r, x).
     (if slugFromTenantId (i_tenant i) = CANARY then Inr (r, x)
      else case timer_node x i of
        None \<Rightarrow> Inr (r, x)
      | Some (d, n) \<Rightarrow>
          (if so_forceNow o1 = None \<and> timer_waits (sweep_now v o1) (i_updated i) n then Inr (r, x)
           else (let w0 = \<lparr>w_completed = False, w_current = Some (n_id n), w_calls = []\<rparr>;
                     vars = jcoalesce (i_vars i) (JObj []) in
                 case (case nextEdge n (d_edges d) vars of
                         Inl e \<Rightarrow> Inl e
                       | Inr None \<Rightarrow> Inr (None, w0)
                       | Inr (Some e) \<Rightarrow> advance d (e_target e) vars w0) of
                   Inl e \<Rightarrow> Inl e
                 | Inr (stop, w) \<Rightarrow>
                     Inr (r\<lparr>sw_advanced := Suc (sw_advanced r)\<rparr>,
                          upd_instance (i_id i) (\<lambda>q. q\<lparr>i_status := (if w_completed w then Completed else Running),
                             i_current := (case stop of None \<Rightarrow> w_current w | Some s \<Rightarrow> Some (n_id s)),
                             i_updated := now v\<rparr>) x)))))"

fun sweep_instances :: "env \<Rightarrow> sweep_opts \<Rightarrow> inst_row list \<Rightarrow> sweep \<times> xdb \<Rightarrow> (sweep \<times> xdb) res" where
  "sweep_instances v o1 [] rx = Inr rx"
| "sweep_instances v o1 (i # is) rx =
     (case sweep_instance v o1 i rx of Inl e \<Rightarrow> Inl e | Inr rx' \<Rightarrow> sweep_instances v o1 is rx')"

definition no_sweep :: sweep where
  "no_sweep = \<lparr>sw_reminders = 0, sw_escalations = 0, sw_advanced = 0\<rparr>"

definition runSchedulerSweep :: "cfg \<Rightarrow> env \<Rightarrow> sweep_opts \<Rightarrow> xdb \<Rightarrow> (sweep \<times> xdb) res" where
  "runSchedulerSweep c v o1 x =
     (let (r, x1) = fold (sweep_task c v o1) (filter (\<lambda>t. t_status t = TOpen) (tasks x)) (no_sweep, x)
      in sweep_instances v o1 (filter (\<lambda>i. i_status i = Running) (instances x1)) (r, x1))"

end
