(* ===== verification/Workflow_Frames.thy ===== *)
theory Workflow_Frames
  imports Scheduler
begin

section \<open>What the workflow handlers leave alone\<close>

text \<open>
  Frame facts of the runtime: which tables each write touches, and how. The queues of an advance
  only append rows (\<open>appends\<close>), the tasks of an instance are only changed by decisions, and the
  command log only grows. The properties of \<open>Workflow_Props\<close> are a few steps over these facts.
\<close>

subsection \<open>Writes that only append\<close>

definition appends :: "xdb \<Rightarrow> xdb \<Rightarrow> bool" where
  "appends x x' \<longleftrightarrow>
     workflows x' = workflows x \<and> tasks x' = tasks x \<and> cmd_log x' = cmd_log x \<and>
     resolutions x' = resolutions x \<and> work_items x' = work_items x \<and> org x' = org x \<and>
     (\<exists>is. instances x' = instances x @ is \<and> (\<forall>i \<in> set is. i_status i = Completed \<and> i_active i = Some [])) \<and>
     (\<exists>cs. commands x' = commands x @ cs \<and> (\<forall>r \<in> set cs.
        c_status r = CmdManualPending \<longrightarrow> c_sref r = None \<and> c_result r = JNull)) \<and>
     (\<exists>es. ext_tasks x' = ext_tasks x @ es \<and> (\<forall>e \<in> set es. x_status e = XPending \<and> x_sref e = None \<and> x_reference e = None))"

lemma appends_refl [intro!, simp]: "appends x x"
  by (simp add: appends_def)

lemma appends_trans [trans]: "appends x y \<Longrightarrow> appends y z \<Longrightarrow> appends x z"
  unfolding appends_def by (elim conjE exE) (simp add: ball_Un)

lemma appends_audit [simp]: "appends x (appendAudit a b c d x)"
  by (simp add: appends_def appendAudit_def)

lemma appends_event [simp]: "appends x (appendEvent a b c d x)"
  by (simp add: appends_def appendEvent_def)

lemma appends_dispatch [simp]: "appends x (dispatch v a b c d e x)"
  by (simp add: appends_def dispatch_def Let_def)

lemma appends_command:
  "(c_status r = CmdManualPending \<longrightarrow> c_sref r = None \<and> c_result r = JNull) \<Longrightarrow>
     appends x (x\<lparr>commands := commands x @ [r], seq := n\<rparr>)"
  by (simp add: appends_def)

lemma appends_ext_command:
  "x_status e = XPending \<Longrightarrow> x_sref e = None \<Longrightarrow> x_reference e = None \<Longrightarrow>
   c_sref r = None \<Longrightarrow> c_result r = JNull \<Longrightarrow>
     appends x (x\<lparr>ext_tasks := ext_tasks x @ [e], commands := commands x @ [r], seq := n\<rparr>)"
  by (simp add: appends_def)

lemma appends_insert:
  "insert_instance i x = Inr x' \<Longrightarrow> i_status i = Completed \<Longrightarrow> i_active i = Some [] \<Longrightarrow> appends x x'"
  by (auto simp: insert_instance_def appends_def split: if_splits)

lemma call_row_status: "c_status (call_row c v tenant inst vars conn act n x) \<noteq> CmdManualPending"
  by (simp add: call_row_def Let_def)

lemma executeServiceCall_appends:
  assumes "executeServiceCall c v tenant inst ic actor vars n x = Inr x'"
  shows "appends x x'"
proof -
  from assms obtain conn act where codes: "call_codes n = Inr (conn, act)"
    by (auto simp: executeServiceCall_def split: sum.splits)
  let ?x1 = "appendEvent tenant inst ''xoffice.connector.command.requested.v1'' (n_id n) x"
  let ?row = "call_row c v tenant inst vars conn act n ?x1"
  have "appends ?x1 (add_command ?row ?x1)"
    using call_row_status unfolding add_command_def by (intro appends_command) blast
  then have a: "appends x (add_command ?row ?x1)" by (rule appends_trans [OF appends_event])
  from assms codes show ?thesis
    unfolding executeServiceCall_def Let_def
    by (cases "c_status ?row = CmdSuccess")
      (auto intro!: appends_trans [OF _ appends_dispatch] appends_trans [OF _ appends_event]
        appends_trans [OF _ appends_audit] a)
qed

lemma executeServiceCalls_appends:
  "executeServiceCalls c v tenant inst ic actor vars ns x = Inr x' \<Longrightarrow> appends x x'"
proof (induction ns arbitrary: x)
  case (Cons n ns)
  then obtain x1 where "executeServiceCall c v tenant inst ic actor vars n x = Inr x1" "executeServiceCalls c v tenant inst ic actor vars ns x1 = Inr x'"
    by (auto split: sum.splits)
  with Cons.IH show ?case using executeServiceCall_appends appends_trans by blast
qed simp

lemma createExternalExecution_appends:
  "createExternalExecution c v slug tenant inst ic actor vars n x = Inr x' \<Longrightarrow> appends x x'"
  by (auto simp: createExternalExecution_def Let_def split: sum.splits prod.splits
      intro!: appends_trans [OF _ appends_dispatch] appends_trans [OF _ appends_event]
        appends_trans [OF _ appends_audit] appends_ext_command)

lemma createExternalExecutions_appends:
  "createExternalExecutions c v slug tenant inst ic actor vars ns x = Inr x' \<Longrightarrow> appends x x'"
proof (induction ns arbitrary: x)
  case (Cons n ns)
  then obtain x1 where "createExternalExecution c v slug tenant inst ic actor vars n x = Inr x1" "createExternalExecutions c v slug tenant inst ic actor vars ns x1 = Inr x'"
    by (auto split: sum.splits)
  with Cons.IH show ?case using createExternalExecution_appends appends_trans by blast
qed simp

lemma appends_subflowSeq: "appends x (x\<lparr>subflowSeq := n\<rparr>)"
  by (simp add: appends_def)

lemma runSubflow_appends:
  assumes "runSubflow c v slug tenant inst ic actor vars n x = Inr x'"
  shows "appends x x'"
proof -
  from assms consider "x' = x"
    | i y where "insert_instance i (x\<lparr>subflowSeq := Suc (subflowSeq x)\<rparr>) = Inr y" "i_status i = Completed"
        "i_active i = Some []" "x' = appendAudit tenant ic actor ''subflow.completed''
           (appendEvent tenant inst ''xoffice.subflow.completed.v1'' (n_id n) y)"
    by (auto simp: runSubflow_def Let_def split: if_splits option.splits sum.splits)
  then show ?thesis
  proof cases
    case 2
    then have "appends (x\<lparr>subflowSeq := Suc (subflowSeq x)\<rparr>) y" by (intro appends_insert)
    then have "appends x y" by (rule appends_trans [OF appends_subflowSeq])
    then show ?thesis unfolding 2(4) by (rule appends_trans [OF appends_trans [OF _ appends_event] appends_audit])
  qed simp
qed

lemma executeSubflows_appends:
  "executeSubflows c v slug tenant inst ic actor vars ns x = Inr x' \<Longrightarrow> appends x x'"
proof (induction ns arbitrary: x)
  case (Cons n ns)
  then obtain x1 where "runSubflow c v slug tenant inst ic actor vars n x = Inr x1" "executeSubflows c v slug tenant inst ic actor vars ns x1 = Inr x'"
    by (auto split: sum.splits)
  with Cons.IH show ?case using runSubflow_appends appends_trans by blast
qed simp

lemma run_queues_appends:
  "run_queues c v slug tenant inst ic actor vars t x = Inr x' \<Longrightarrow> appends x x'"
proof -
  assume "run_queues c v slug tenant inst ic actor vars t x = Inr x'"
  then obtain x1 x2 where "executeServiceCalls c v tenant inst ic actor vars (calls t) x = Inr x1"
      "executeSubflows c v slug tenant inst ic actor vars (subflows t) x1 = Inr x2"
      "createExternalExecutions c v slug tenant inst ic actor vars (externals t) x2 = Inr x'"
    by (auto simp: run_queues_def split: sum.splits)
  then have "appends x x1" "appends x1 x2" "appends x2 x'"
    by (auto intro: executeServiceCalls_appends executeSubflows_appends createExternalExecutions_appends)
  then show "appends x x'" using appends_trans by blast
qed

subsection \<open>Creating tasks\<close>

text \<open>Tasks appended for a list of stops: one open task for each, all else but the logs untouched.\<close>

definition stop_tasks :: "string \<Rightarrow> string \<Rightarrow> wnode list \<Rightarrow> task_row list \<Rightarrow> bool" where
  "stop_tasks tenant inst ns ts \<longleftrightarrow> map t_node ts = map n_id ns \<and>
     (\<forall>t \<in> set ts. t_tenant t = tenant \<and> t_inst t = inst \<and> t_status t = TOpen \<and>
        \<not> t_reminded t \<and> \<not> t_escalated t)"

definition same_but_tasks :: "xdb \<Rightarrow> xdb \<Rightarrow> bool" where
  "same_but_tasks x x' \<longleftrightarrow> workflows x' = workflows x \<and> instances x' = instances x \<and>
     commands x' = commands x \<and> ext_tasks x' = ext_tasks x \<and> cmd_log x' = cmd_log x \<and>
     work_items x' = work_items x \<and> org x' = org x"

lemma same_but_tasks_trans: "same_but_tasks x y \<Longrightarrow> same_but_tasks y z \<Longrightarrow> same_but_tasks x z"
  by (simp add: same_but_tasks_def)

lemma resolveStructuredAssignee_frame:
  "resolveStructuredAssignee le tenant ic n x = (w, x') \<Longrightarrow> same_but_tasks x x' \<and> tasks x' = tasks x"
  by (auto simp: resolveStructuredAssignee_def same_but_tasks_def appendAudit_def Let_def
      split: if_splits option.splits)

lemma appends_same: "appends x x' \<Longrightarrow> instances x' = instances x \<Longrightarrow> commands x' = commands x \<Longrightarrow>
    ext_tasks x' = ext_tasks x \<Longrightarrow> same_but_tasks x x' \<and> tasks x' = tasks x"
  by (simp add: appends_def same_but_tasks_def)

lemma log_frame [simp]:
  "instances (appendAudit a b c d x) = instances x" "commands (appendAudit a b c d x) = commands x"
  "ext_tasks (appendAudit a b c d x) = ext_tasks x" "tasks (appendAudit a b c d x) = tasks x"
  "cmd_log (appendAudit a b c d x) = cmd_log x" "workflows (appendAudit a b c d x) = workflows x"
  "org (appendAudit a b c d x) = org x" "work_items (appendAudit a b c d x) = work_items x"
  "instances (dispatch v p q r s t x) = instances x" "commands (dispatch v p q r s t x) = commands x"
  "ext_tasks (dispatch v p q r s t x) = ext_tasks x" "tasks (dispatch v p q r s t x) = tasks x"
  "cmd_log (dispatch v p q r s t x) = cmd_log x" "workflows (dispatch v p q r s t x) = workflows x"
  "org (dispatch v p q r s t x) = org x" "work_items (dispatch v p q r s t x) = work_items x"
  by (simp_all add: appendAudit_def dispatch_def Let_def)

lemma notifyAssigned_frame: "same_but_tasks x (notifyAssigned v t x) \<and> tasks (notifyAssigned v t x) = tasks x"
  by (simp add: notifyAssigned_def same_but_tasks_def)

lemma materializeStop_frame:
  assumes "materializeStop le c v slug tenant inst ic actor n x = (t, x')"
  shows "same_but_tasks x x' \<and> tasks x' = tasks x @ [t] \<and> stop_tasks tenant inst [n] [t]"
proof -
  obtain who x1 where r: "resolveStructuredAssignee le tenant ic n x = (who, x1)" by fastforce
  note f1 = resolveStructuredAssignee_frame [OF r]
  let ?x2 = "x1\<lparr>tasks := tasks x1 @ [t], seq := Suc (seq x1)\<rparr>"
  have t: "stop_tasks tenant inst [n] [t]" "x' = notifyAssigned v t (appendAudit tenant ic actor ''task.created'' ?x2)"
    using assms r by (auto simp: materializeStop_def Let_def stop_tasks_def)
  have "same_but_tasks x1 (appendAudit tenant ic actor ''task.created'' ?x2)"
    by (simp add: same_but_tasks_def)
  with f1 t notifyAssigned_frame [of "appendAudit tenant ic actor ''task.created'' ?x2" v t] show ?thesis
    by (simp add: same_but_tasks_def)
qed

lemma materializeStops_frame:
  "materializeStops le c v slug tenant inst ic actor ns x = (ts, x') \<Longrightarrow>
     same_but_tasks x x' \<and> tasks x' = tasks x @ ts \<and> stop_tasks tenant inst ns ts"
proof (induction ns arbitrary: x ts x')
  case Nil
  then show ?case by (simp add: same_but_tasks_def stop_tasks_def)
next
  case (Cons n ns)
  obtain t x1 where 1: "materializeStop le c v slug tenant inst ic actor n x = (t, x1)" by fastforce
  obtain ts' x2 where 2: "materializeStops le c v slug tenant inst ic actor ns x1 = (ts', x2)" by fastforce
  from Cons.prems 1 2 have "ts = t # ts'" "x' = x2" by simp_all
  with materializeStop_frame [OF 1] Cons.IH [OF 2] show ?case
    by (simp add: same_but_tasks_def stop_tasks_def)
qed

subsection \<open>The handlers, taken apart\<close>

lemma store_request_taken_apart:
  assumes "store_request le c v slug actor key i t x = Inr (r, x')"
  obtains x2 ts x3 x4 where
    "appends (x\<lparr>instances := instances x @ [i]\<rparr>) x2"
    "materializeStops le c v slug (tenantId slug) (i_id i) (i_code i) actor (stops t) x2 = (ts, x3)"
    "same_but_tasks x3 x4" "tasks x4 = tasks x3" "r = decorate slug x4 i ts"
    "x' = recordCommand (tenantId slug) key actor ''createRequest'' (i_code i) r x4"
proof -
  let ?t = "tenantId slug"
  from assms obtain x1 x2 where
    x1: "insert_instance i x = Inr x1" and
    x2: "run_queues c v slug ?t (i_id i) (i_code i) actor (i_vars i) t
           (appendAudit ?t (i_code i) actor ''request.created'' x1) = Inr x2"
    by (auto simp: store_request_def Let_def split: sum.splits)
  obtain ts x3 where m: "materializeStops le c v slug ?t (i_id i) (i_code i) actor (stops t) x2 = (ts, x3)" by fastforce
  define x4 where "x4 = (if i_status i = Completed then appendAudit ?t (i_code i) actor ''instance.completed'' x3 else x3)"
  have last: "r = decorate slug x4 i ts" "x' = recordCommand ?t key actor ''createRequest'' (i_code i) r x4"
    using assms x1 x2 m by (auto simp: store_request_def Let_def x4_def)
  have "appends (x\<lparr>instances := instances x @ [i]\<rparr>) x1"
    using x1 by (auto simp: insert_instance_def appends_def split: if_splits)
  then have "appends (x\<lparr>instances := instances x @ [i]\<rparr>) (appendAudit ?t (i_code i) actor ''request.created'' x1)"
    by (rule appends_trans) simp
  then have ap: "appends (x\<lparr>instances := instances x @ [i]\<rparr>) x2"
    by (rule appends_trans) (rule run_queues_appends [OF x2])
  have "same_but_tasks x3 x4" "tasks x4 = tasks x3" by (simp_all add: x4_def same_but_tasks_def)
  from that [OF ap m this last] show ?thesis .
qed

text \<open>A request that is not a replay.\<close>

lemma createRequest_fresh:
  assumes "createRequest le c v slug code actor vs key corr x = Inr (r, x')"
    and "findIdempotent x (tenantId slug) (e_key (resolveEnvelope v x key corr)) = None"
  obtains d start entry t where
    "slug \<noteq> CANARY" "getWorkflow x slug code = Inr d" "start_node d = Some start"
    "entry_after d start (jcoalesce vs (JObj [])) = Inr entry"
    "advanceMulti c d entry (jcoalesce vs (JObj [])) (no_tokens []) = Inr t"
    "store_request le c v slug actor (e_key (resolveEnvelope v x key corr))
       (request_row v slug code actor (jcoalesce vs (JObj [])) d start t x) t x = Inr (r, x')"
  using assms
  by (auto simp: createRequest_def assertTenant_def Let_def split: if_splits sum.splits option.splits)

text \<open>Moving an instance on.\<close>

lemma resume_taken_apart:
  assumes "resume le c v slug tenant actor d i node x = Inr (i', ts, x')"
  obtains t x1 x3 where
    "advance_from c d i node = Inr t" "appends x x1" "i' = moved v d node t i"
    "materializeStops le c v slug tenant (i_id i) (i_code i) actor (stops t)
       (upd_instance (i_id i) (moved v d node t) x1) = (ts, x3)"
    "same_but_tasks x3 x'" "tasks x' = tasks x3"
proof -
  from assms obtain t x1 where
    t: "advance_from c d i node = Inr t"
      "run_queues c v slug tenant (i_id i) (i_code i) actor (jcoalesce (i_vars i) (JObj [])) t x = Inr x1"
    by (auto simp: resume_def split: sum.splits)
  obtain ts0 x3 where m: "materializeStops le c v slug tenant (i_id i) (i_code i) actor (stops t)
       (upd_instance (i_id i) (moved v d node t) x1) = (ts0, x3)" by fastforce
  from assms t m have "i' = moved v d node t i" "ts = ts0" "same_but_tasks x3 x'" "tasks x' = tasks x3"
    by (auto simp: resume_def Let_def same_but_tasks_def)
  with t m that run_queues_appends show ?thesis by blast
qed

text \<open>A decision that is not a replay.\<close>

definition decided :: "env \<Rightarrow> act \<Rightarrow> string \<Rightarrow> string option \<Rightarrow> task_row \<Rightarrow> xdb \<Rightarrow> xdb" where
  "decided v a actor behalf t x = x\<lparr>tasks := tupd (\<lambda>r. t_id r = t_id t) (decide_task v a actor behalf) (tasks x)\<rparr>"

lemma actOnTask_fresh:
  assumes "actOnTask le c v slug taskId actor a key corr x = Inr (r, x')"
    and "findIdempotent x (tenantId slug) (e_key (resolveEnvelope v x key corr)) = None"
  obtains t i d behalf x3 x4 where
    "tfind (\<lambda>t. t_id t = taskId \<and> t_tenant t = tenantId slug) (tasks x) = Some t" "t_status t = TOpen"
    "inst_by_id x (t_inst t) = Some i" "getWorkflow x slug (i_workflow i) = Inr d"
    "authorize x v (tenantId slug) t actor = Inr behalf"
    "appends (decided v a actor behalf t x) x3" "instances x3 = instances x" "commands x3 = commands x"
    "ext_tasks x3 = ext_tasks x" "slug \<noteq> CANARY"
    "a = Reject \<Longrightarrow> same_but_tasks (upd_instance (i_id i) (\<lambda>r. r\<lparr>i_status := Rejected, i_updated := now v\<rparr>) x3) x4 \<and>
       tasks x4 = tasks x3 \<and> r = decorate slug x4 (i\<lparr>i_status := Rejected, i_updated := now v\<rparr>) []"
    "a = Approve \<Longrightarrow> \<exists>i' ts. resume le c v slug (tenantId slug) actor d i (t_node t) x3 = Inr (i', ts, x4) \<and>
       r = decorate slug x4 i' ts"
    "x' = recordCommand (tenantId slug) (e_key (resolveEnvelope v x key corr)) actor ''actOnTask'' taskId r x4"
proof -
  let ?t = "tenantId slug"
  from assms obtain t i d behalf where
    g: "slug \<noteq> CANARY" "tfind (\<lambda>t. t_id t = taskId \<and> t_tenant t = ?t) (tasks x) = Some t" "t_status t = TOpen"
      "inst_by_id x (t_inst t) = Some i" "getWorkflow x slug (i_workflow i) = Inr d"
      "authorize x v ?t t actor = Inr behalf"
    by (auto simp: actOnTask_def assertTenant_def Let_def split: if_splits sum.splits option.splits)
  define x3 where "x3 = dispatch v ?t (coalesce_opt behalf (t_assignee t))
      (case a of Approve \<Rightarrow> ''task.approved'' | Reject \<Rightarrow> ''task.rejected'') (Some (t_id t)) ''in_app''
      (appendAudit ?t (i_code i) actor (case a of Approve \<Rightarrow> ''task.approve'' | Reject \<Rightarrow> ''task.reject'')
        (decided v a actor behalf t x))"
  have x3: "appends (decided v a actor behalf t x) x3"
    unfolding x3_def by (rule appends_trans [OF appends_audit appends_dispatch])
  have frame: "instances x3 = instances x" "commands x3 = commands x" "ext_tasks x3 = ext_tasks x"
    by (simp_all add: x3_def decided_def)
  show ?thesis
  proof (cases a)
    case Reject
    let ?f = "\<lambda>r. r\<lparr>i_status := Rejected, i_updated := now v\<rparr>"
    let ?x4 = "appendAudit ?t (i_code i) actor ''instance.rejected'' (upd_instance (i_id i) ?f x3)"
    have "r = decorate slug ?x4 (?f i) [] \<and>
        x' = recordCommand ?t (e_key (resolveEnvelope v x key corr)) actor ''actOnTask'' taskId r ?x4"
      using assms g Reject by (auto simp: actOnTask_def assertTenant_def Let_def x3_def decided_def)
    moreover have "same_but_tasks (upd_instance (i_id i) ?f x3) ?x4" "tasks ?x4 = tasks x3"
      by (simp_all add: same_but_tasks_def upd_instance_def)
    ultimately show ?thesis using that [OF g(2-6) x3 frame g(1), of ?x4] Reject by simp
  next
    case Approve
    from assms g Approve obtain i' ts x4 where
      "resume le c v slug ?t actor d i (t_node t) x3 = Inr (i', ts, x4)"
      by (auto simp: actOnTask_def assertTenant_def Let_def x3_def decided_def split: sum.splits)
    moreover from this assms g Approve have "r = decorate slug x4 i' ts \<and>
        x' = recordCommand ?t (e_key (resolveEnvelope v x key corr)) actor ''actOnTask'' taskId r x4"
      by (auto simp: actOnTask_def assertTenant_def Let_def x3_def decided_def)
    ultimately show ?thesis using that [OF g(2-6) x3 frame g(1), of x4] Approve by simp
  qed
qed

end
