(* ===== verification/Workflow_Props.thy ===== *)
theory Workflow_Props
  imports Workflow_Frames
begin

section \<open>Properties of the workflow runtime\<close>

text \<open>
  What the handlers guarantee together: replay of commands, who may decide a task, open tasks
  and resting tokens, external references, the sweep, the read model and versions; and the
  cases where the code does less than its comments say.
\<close>

subsection \<open>The handlers as steps\<close>

inductive x_step ::
  "(string \<Rightarrow> string \<Rightarrow> bool) \<Rightarrow> cfg \<Rightarrow> (wdef \<Rightarrow> string) \<Rightarrow> xdb \<Rightarrow> xdb \<Rightarrow> bool"
  for le c sha where
  xs_create: "createRequest le c v slug code actor vs key corr x = Inr (r, x') \<Longrightarrow> x_step le c sha x x'"
| xs_act: "actOnTask le c v slug i actor a key corr x = Inr (r, x') \<Longrightarrow> x_step le c sha x x'"
| xs_ext: "enterExternalReference le c v slug i actor ref sys x = Inr (e, oi, x') \<Longrightarrow> x_step le c sha x x'"
| xs_spawn: "spawnLightweightApprovalTask v tenant w req role who x = Inr (i, j, x') \<Longrightarrow> x_step le c sha x x'"
| xs_close: "closeLightweightApprovalTask v i a actor x = Inr x' \<Longrightarrow> x_step le c sha x x'"
| xs_sweep: "runSchedulerSweep c v opts x = Inr (r, x') \<Longrightarrow> x_step le c sha x x'"
| xs_read: "markNotificationRead v slug user i x = Inr (n, x') \<Longrightarrow> x_step le c sha x x'"
| xs_read_all: "markAllRead v tenant user x = (k, x') \<Longrightarrow> x_step le c sha x x'"
| xs_publish: "publish sha v slug code d x = Inr (vr, x') \<Longrightarrow> x_step le c sha x x'"
| xs_project: "rebuildProjection slug x = Inr (k, x') \<Longrightarrow> x_step le c sha x x'"
| xs_org: "x_step le c sha x (x\<lparr>org := s\<rparr>)"

subsection \<open>The command log only grows\<close>

definition log_grows :: "xdb \<Rightarrow> xdb \<Rightarrow> bool" where
  "log_grows x x' \<longleftrightarrow> (\<exists>ls. cmd_log x' = cmd_log x @ ls)"

lemma log_same: "cmd_log x' = cmd_log x \<Longrightarrow> log_grows x x'"
  by (simp add: log_grows_def)

lemma findIdempotent_grows:
  "log_grows x x' \<Longrightarrow> findIdempotent x t k = Some r \<Longrightarrow> findIdempotent x' t k = Some r"
  by (auto simp: log_grows_def findIdempotent_def table_simps split: option.splits)

lemma findIdempotent_record:
  "findIdempotent x t k = None \<Longrightarrow> findIdempotent (recordCommand t k a ty ref r x) t k = Some r"
  by (auto simp: findIdempotent_def recordCommand_def table_simps split: option.splits)

lemma findIdempotent_cong: "cmd_log x' = cmd_log x \<Longrightarrow> findIdempotent x' t k = findIdempotent x t k"
  by (simp add: findIdempotent_def)

lemma store_request_log:
  assumes "store_request le c v slug actor key i t x = Inr (r, x')"
  shows "\<exists>x4. cmd_log x4 = cmd_log x \<and> x' = recordCommand (tenantId slug) key actor ''createRequest'' (i_code i) r x4"
  using assms
proof (cases rule: store_request_taken_apart)
  case (1 x2 ts x3 x4)
  then have "cmd_log x4 = cmd_log x"
    using materializeStops_frame [OF 1(2)] by (simp add: same_but_tasks_def appends_def)
  with 1 show ?thesis by blast
qed

lemma resume_log:
  assumes "resume le c v slug tenant actor d i node x = Inr (i', ts, x')"
  shows "cmd_log x' = cmd_log x"
  using assms
proof (cases rule: resume_taken_apart)
  case (1 t x1 x3)
  then show ?thesis
    using materializeStops_frame [OF 1(4)] by (simp add: same_but_tasks_def appends_def upd_instance_def)
qed

lemma actOnTask_log:
  assumes "actOnTask le c v slug taskId actor a key corr x = Inr (r, x')"
    and "findIdempotent x (tenantId slug) (e_key (resolveEnvelope v x key corr)) = None"
  shows "\<exists>x4. cmd_log x4 = cmd_log x \<and>
    x' = recordCommand (tenantId slug) (e_key (resolveEnvelope v x key corr)) actor ''actOnTask'' taskId r x4"
  using assms
proof (cases rule: actOnTask_fresh)
  case (1 t i d behalf x3 x4)
  have "cmd_log x3 = cmd_log x" using 1(6) by (simp add: appends_def decided_def)
  moreover have "cmd_log x4 = cmd_log x3"
    using 1(11,12) resume_log by (cases a) (fastforce simp: same_but_tasks_def upd_instance_def)+
  ultimately show ?thesis using 1(13) by auto
qed

lemma record_reference_log [simp]: "cmd_log (record_reference v tenant actor e x) = cmd_log x"
  by (simp add: record_reference_def Let_def set_ext_def split: option.splits)

lemma enterExternalReference_log:
  assumes "enterExternalReference le c v slug i actor ref sys x = Inr (e, oi, x')"
  shows "cmd_log x' = cmd_log x"
  using assms
  by (auto simp: enterExternalReference_def advance_external_def assertTenant_def Let_def set_ext_def
      dest!: resume_log split: if_splits option.splits sum.splits prod.splits)

lemma sweep_task_log: "cmd_log (snd (sweep_task c v o1 t rx)) = cmd_log (snd rx)"
  by (cases rx) (simp add: sweep_task_def Let_def set_task_def)

lemma fold_sweep_log: "cmd_log (snd (fold (sweep_task c v o1) ts rx)) = cmd_log (snd rx)"
  by (induction ts arbitrary: rx) (simp_all add: sweep_task_log)

lemma sweep_instance_log: "sweep_instance v o1 i rx = Inr rx' \<Longrightarrow> cmd_log (snd rx') = cmd_log (snd rx)"
  by (cases rx) (auto simp: sweep_instance_def upd_instance_def Let_def
      split: if_splits option.splits sum.splits prod.splits)

lemma sweep_instances_log: "sweep_instances v o1 is rx = Inr rx' \<Longrightarrow> cmd_log (snd rx') = cmd_log (snd rx)"
  by (induction "is" arbitrary: rx) (auto split: sum.splits dest!: sweep_instance_log)

lemma sweep_log: "runSchedulerSweep c v o1 x = Inr (r, x') \<Longrightarrow> cmd_log x' = cmd_log x"
  using fold_sweep_log [of c v o1 "filter (\<lambda>t. t_status t = TOpen) (tasks x)" "(no_sweep, x)"]
  by (auto simp: runSchedulerSweep_def split: prod.splits dest!: sweep_instances_log)

lemma x_step_log: "x_step le c sha x x' \<Longrightarrow> log_grows x x'"
proof (induction rule: x_step.induct)
  case (xs_create v slug code actor vs key corr x r x')
  show ?case
  proof (cases "findIdempotent x (tenantId slug) (e_key (resolveEnvelope v x key corr))")
    case None
    from xs_create None obtain key' i t where "store_request le c v slug actor key' i t x = Inr (r, x')"
      by (rule createRequest_fresh)
    from store_request_log [OF this] show ?thesis by (auto simp: log_grows_def recordCommand_def)
  next
    case (Some r')
    with xs_create show ?thesis by (auto simp: createRequest_def assertTenant_def Let_def log_same split: if_splits)
  qed
next
  case (xs_act v slug i actor a key corr x r x')
  show ?case
  proof (cases "findIdempotent x (tenantId slug) (e_key (resolveEnvelope v x key corr))")
    case None
    from actOnTask_log [OF xs_act None] show ?thesis
      by (auto simp: log_grows_def recordCommand_def)
  next
    case (Some r')
    with xs_act show ?thesis by (auto simp: actOnTask_def assertTenant_def Let_def log_same split: if_splits)
  qed
next
  case xs_ext
  then show ?case by (auto dest: enterExternalReference_log intro: log_same)
next
  case xs_sweep
  then show ?case by (auto dest: sweep_log intro: log_same)
qed (auto intro!: log_same simp: spawnLightweightApprovalTask_def closeLightweightApprovalTask_def insert_instance_def
      markNotificationRead_def markRead_def markAllRead_def publish_def rebuildProjection_def assertTenant_def Let_def
      split: if_splits option.splits sum.splits prod.splits)

lemma x_steps_log: "(x_step le c sha)\<^sup>*\<^sup>* x x' \<Longrightarrow> findIdempotent x t k = Some r \<Longrightarrow> findIdempotent x' t k = Some r"
  by (induction rule: rtranclp_induct) (auto dest: x_step_log findIdempotent_grows)

subsection \<open>Tasks after a decision\<close>

lemma authorize_iff:
  "authorize x v tenant t actor = Inr b \<longleftrightarrow>
    (if truthy_str (t_assignee t) \<and> t_assignee t \<noteq> Some actor
     then findValidDelegate x v tenant (coalesce (t_assignee t) '''') actor \<and> b = t_assignee t
     else b = None)"
proof (cases "truthy_str (t_assignee t) \<and> t_assignee t \<noteq> Some actor")
  case True
  then have "Some actor \<noteq> t_assignee t" by auto
  with True show ?thesis by (simp add: authorize_def eq_commute [of b])
next
  case False
  then have "\<not> (truthy_str (t_assignee t) \<and> Some actor \<noteq> t_assignee t)" by auto
  with False show ?thesis by (simp only: authorize_def if_False sum.inject) auto
qed

lemma resume_tasks:
  assumes "resume le c v slug tenant actor d i node x = Inr (i', ts, x')"
  shows "\<exists>t. advance_from c d i node = Inr t \<and> tasks x' = tasks x @ ts \<and>
    stop_tasks tenant (i_id i) (stops t) ts \<and> i' = moved v d node t i \<and>
    (\<exists>is. instances x' = tupd (\<lambda>r. i_id r = i_id i) (moved v d node t) (instances x @ is))"
  using assms
proof (cases rule: resume_taken_apart)
  case (1 t x1 x3)
  note m = materializeStops_frame [OF 1(4)]
  from 1(2) have "tasks x1 = tasks x" "\<exists>is. instances x1 = instances x @ is"
    by (auto simp: appends_def)
  moreover from m 1(5) have "instances x' = tupd (\<lambda>r. i_id r = i_id i) (moved v d node t) (instances x1)"
    by (simp add: same_but_tasks_def upd_instance_def)
  ultimately show ?thesis using 1 m by (auto simp: upd_instance_def)
qed

lemma actOnTask_tasks:
  assumes "actOnTask le c v slug taskId actor a key corr x = Inr (r, x')"
    and "findIdempotent x (tenantId slug) (e_key (resolveEnvelope v x key corr)) = None"
  obtains t behalf ts where "t \<in> set (tasks x)" "t_id t = taskId" "t_tenant t = tenantId slug"
    "t_status t = TOpen" "authorize x v (tenantId slug) t actor = Inr behalf"
    "tasks x' = tupd (\<lambda>u. t_id u = taskId) (decide_task v a actor behalf) (tasks x) @ ts"
  using assms
proof (cases rule: actOnTask_fresh)
  case (1 t i d behalf x3 x4)
  have t: "t \<in> set (tasks x)" "t_id t = taskId" "t_tenant t = tenantId slug" using tfind_SomeD [OF 1(1)] by auto
  have x3: "tasks x3 = tupd (\<lambda>u. t_id u = taskId) (decide_task v a actor behalf) (tasks x)"
    using 1(6) t(2) by (simp add: appends_def decided_def)
  have "\<exists>ts. tasks x4 = tasks x3 @ ts"
    using 1(11,12) resume_tasks by (cases a) (fastforce, auto)
  then obtain ts where "tasks x4 = tasks x3 @ ts" by blast
  with 1(13) x3 have "tasks x' = tupd (\<lambda>u. t_id u = taskId) (decide_task v a actor behalf) (tasks x) @ ts"
    by (simp add: recordCommand_def)
  from that [OF t 1(2,5) this] show ?thesis .
qed

subsection \<open>Open tasks and resting tokens\<close>

definition open_at :: "xdb \<Rightarrow> string \<Rightarrow> string \<Rightarrow> nat" where
  "open_at x i node = length (filter (\<lambda>t. t_inst t = i \<and> t_node t = node \<and> t_status t = TOpen) (tasks x))"

definition tokens_match :: "xdb \<Rightarrow> wdef \<Rightarrow> inst_row \<Rightarrow> bool" where
  "tokens_match x d i \<longleftrightarrow> (\<forall>n m. by_id (d_nodes d) n = Some m \<longrightarrow> stop_type (n_type m) \<longrightarrow>
     open_at x (i_id i) n = count_list (resting i) n)"

lemma stop_tasks_count:
  "stop_tasks tenant i ns ts \<Longrightarrow>
   length (filter (\<lambda>t. t_inst t = i \<and> t_node t = n \<and> t_status t = TOpen) ts) = count_list (map n_id ns) n"
proof (induction ts arbitrary: ns)
  case (Cons t ts)
  then obtain m ms where ns: "ns = m # ms" "n_id m = t_node t" by (cases ns) (auto simp: stop_tasks_def)
  with Cons have "stop_tasks tenant i ms ts" "t_inst t = i" "t_status t = TOpen" by (auto simp: stop_tasks_def)
  with Cons.IH ns show ?case by auto
qed (auto simp: stop_tasks_def)

lemma advance_books:
  assumes "advanceMulti c d entry vars (no_tokens act) = Inr t" "by_id (d_nodes d) n = Some m" "stop_type (n_type m)"
  shows "count_list (active t) n = count_list act n + count_list (map n_id (stops t)) n"
proof -
  have "books stops n (no_tokens act) t"
    by (rule advanceMulti_invariant [OF assms(1)])
      (use token_step_stops [OF assms(2,3)] in \<open>auto simp: books_def\<close>)
  then show ?thesis by (simp add: books_def no_tokens_def)
qed

lemma resting_moved [simp]: "resting (moved v d node t i) = active t" "i_id (moved v d node t i) = i_id i"
  by (simp_all add: resting_def moved_def)

lemma advance_from_books:
  assumes "advance_from c d i node = Inr t" "by_id (d_nodes d) n = Some m" "stop_type (n_type m)"
  shows "count_list (active t) n = count_list (remove1 node (resting i)) n + count_list (map n_id (stops t)) n"
  using assms advance_books by (fastforce simp: advance_from_def Let_def split: sum.splits option.splits)

lemma count_remove1: "count_list (remove1 y xs) n = count_list xs n - (if y = n then 1 else 0)"
  by (induction xs) (auto simp: count_list_0_iff)

lemma open_at_decided:
  assumes "distinct (map t_id (tasks x))" "t \<in> set (tasks x)" "t_status t = TOpen"
    "tasks y = tupd (\<lambda>u. t_id u = t_id t) (decide_task v a actor b) (tasks x)"
  shows "open_at y (t_inst t) n = open_at x (t_inst t) n - (if t_node t = n then 1 else 0)"
proof -
  obtain us ws where us: "tasks x = us @ t # ws" using assms(2) by (auto dest: split_list)
  with assms(1) have "tasks y = us @ decide_task v a actor b t # ws"
    using assms(4) by (auto simp: tupd_def intro!: map_idI dest: rev_image_eqI [OF _ sym])
  with us assms(3) show ?thesis by (cases a) (auto simp: open_at_def decide_task_def)
qed

lemma inst_by_id_moved:
  assumes "inst_by_id x i = Some r" "instances x' = tupd (\<lambda>q. i_id q = i) f (instances x @ is)" "\<And>q. i_id (f q) = i_id q"
  shows "inst_by_id x' i = Some (f r)"
proof -
  have "tfind (\<lambda>q. i_id q = i) (tupd (\<lambda>q. i_id q = i) f t) = map_option f (tfind (\<lambda>q. i_id q = i) t)" for t
    by (induction t) (auto simp: table_simps assms(3))
  with assms show ?thesis by (simp add: inst_by_id_def table_simps)
qed

lemma decorate_inst [simp]: "rs_inst (decorate slug x i ts) = i"
  by (simp add: decorate_def Let_def)

subsection \<open>Properties\<close>

text \<open>
  C2. Commands run once: after a request or a decision with an idempotency key, whatever the
  system does in between, any later request or decision with the same key in the tenant returns
  the recorded response and changes nothing.
\<close>
theorem replay_changes_nothing:
  assumes "createRequest le c v slug code actor vs (Some key) corr x = Inr (r, x1) \<or>
      actOnTask le c v slug taskId actor a (Some key) corr x = Inr (r, x1)"
    and "trim key \<noteq> []" "(x_step le c sha)\<^sup>*\<^sup>* x1 x2"
  shows "createRequest le c v' slug code' actor' vs' (Some key) corr' x2 = Inr (r, x2) \<and>
    actOnTask le c v' slug taskId' actor' a' (Some key) corr' x2 = Inr (r, x2)"
proof -
  have key: "e_key (resolveEnvelope w y (Some key) co) = trim key" for w y co
    using assms(2) by (simp add: resolveEnvelope_def trim_in_def)
  have slug: "slug \<noteq> CANARY"
    using assms(1) by (auto simp: createRequest_def actOnTask_def assertTenant_def)
  have "findIdempotent x1 (tenantId slug) (trim key) = Some r"
  proof (cases "findIdempotent x (tenantId slug) (trim key)")
    case None
    then have none: "findIdempotent x (tenantId slug) (e_key (resolveEnvelope v x (Some key) corr)) = None"
      by (simp add: key)
    from assms(1) show ?thesis
    proof
      assume "createRequest le c v slug code actor vs (Some key) corr x = Inr (r, x1)"
      from createRequest_fresh [OF this none] obtain i t where
        "store_request le c v slug actor (trim key) i t x = Inr (r, x1)" unfolding key by metis
      from store_request_log [OF this] None show ?thesis
        using findIdempotent_record findIdempotent_cong by metis
    next
      assume "actOnTask le c v slug taskId actor a (Some key) corr x = Inr (r, x1)"
      from actOnTask_log [OF this none] None show ?thesis
        unfolding key using findIdempotent_record findIdempotent_cong by metis
    qed
  next
    case (Some r')
    with assms(1) show ?thesis
      by (auto simp: createRequest_def actOnTask_def assertTenant_def Let_def key split: if_splits)
  qed
  with x_steps_log [OF assms(3)] have "findIdempotent x2 (tenantId slug) (trim key) = Some r" by blast
  with slug show ?thesis by (simp add: createRequest_def actOnTask_def assertTenant_def Let_def key)
qed

text \<open>
  C1. Who decides: a decision that takes effect is on an open task of the tenant, by its
  assignee, by a user to whom the assignee has a delegation of the tenant valid now, or on a task
  without assignee. The task records the decision, the actor and on whose behalf he acted; no
  other task changes.
\<close>
theorem decision_authorised:
  assumes "actOnTask le c v slug taskId actor a key corr x = Inr (r, x')"
    and "findIdempotent x (tenantId slug) (e_key (resolveEnvelope v x key corr)) = None"
  shows "\<exists>t \<in> set (tasks x). t_id t = taskId \<and> t_tenant t = tenantId slug \<and> t_status t = TOpen \<and>
    (\<not> truthy_str (t_assignee t) \<or> t_assignee t = Some actor \<or>
     (\<exists>dl \<in> set (delegations (org x)). dl_tenant dl = tenantId slug \<and> Some (dl_from dl) = t_assignee t \<and>
        dl_to dl = actor \<and> dl_fromAt dl \<le> now v \<and> now v \<le> dl_toAt dl)) \<and>
    (\<exists>t' \<in> set (tasks x'). t_id t' = taskId \<and> t_actor t' = Some actor \<and>
       t_status t' = (case a of Approve \<Rightarrow> TApproved | Reject \<Rightarrow> TRejected) \<and>
       t_onBehalf t' = (if truthy_str (t_assignee t) \<and> t_assignee t \<noteq> Some actor then t_assignee t else None)) \<and>
    (\<forall>u \<in> set (tasks x). t_id u \<noteq> taskId \<longrightarrow> u \<in> set (tasks x'))"
proof -
  from actOnTask_tasks [OF assms] obtain t behalf ts where t: "t \<in> set (tasks x)" "t_id t = taskId"
      "t_tenant t = tenantId slug" "t_status t = TOpen" "authorize x v (tenantId slug) t actor = Inr behalf"
      "tasks x' = tupd (\<lambda>u. t_id u = taskId) (decide_task v a actor behalf) (tasks x) @ ts" .
  from t(5) have au: "behalf = (if truthy_str (t_assignee t) \<and> t_assignee t \<noteq> Some actor then t_assignee t else None)"
    "truthy_str (t_assignee t) \<and> t_assignee t \<noteq> Some actor \<Longrightarrow>
      findValidDelegate x v (tenantId slug) (coalesce (t_assignee t) '''') actor"
    unfolding authorize_iff by (auto split: if_splits)
  have who: "\<not> truthy_str (t_assignee t) \<or> t_assignee t = Some actor \<or>
     (\<exists>dl \<in> set (delegations (org x)). dl_tenant dl = tenantId slug \<and> Some (dl_from dl) = t_assignee t \<and>
        dl_to dl = actor \<and> dl_fromAt dl \<le> now v \<and> now v \<le> dl_toAt dl)"
  proof (cases "truthy_str (t_assignee t) \<and> t_assignee t \<noteq> Some actor")
    case True
    from au(2) [OF True] True show ?thesis
      by (cases "t_assignee t") (auto simp: findValidDelegate_def list_ex_iff)
  qed blast
  have "decide_task v a actor behalf t \<in> set (tasks x')" using t(1,2,6) by (auto simp: set_tupd)
  moreover have "t_id (decide_task v a actor behalf t) = taskId" "t_actor (decide_task v a actor behalf t) = Some actor"
    "t_status (decide_task v a actor behalf t) = (case a of Approve \<Rightarrow> TApproved | Reject \<Rightarrow> TRejected)"
    "t_onBehalf (decide_task v a actor behalf t) = behalf"
    using t(2) by (simp_all add: decide_task_def)
  moreover have "\<forall>u \<in> set (tasks x). t_id u \<noteq> taskId \<longrightarrow> u \<in> set (tasks x')"
    using t(6) by (auto simp: set_tupd image_iff)
  ultimately show ?thesis using t(1-4) au(1) who by (intro bexI [of _ t] conjI bexI [of _ "decide_task v a actor behalf t"]) simp_all
qed

text \<open>
  A new request is consistent: the stored instance is complete exactly when no token rests,
  and for every human node the instance has as many open tasks as tokens resting there.
\<close>
theorem request_tokens_match:
  assumes "createRequest le c v slug code actor vs key corr x = Inr (r, x')"
    and "findIdempotent x (tenantId slug) (e_key (resolveEnvelope v x key corr)) = None"
    and "getWorkflow x slug code = Inr d" "new_id v x \<notin> t_inst ` set (tasks x)"
    and "inst_by_id x (new_id v x) = None"
  shows "tokens_match x' d (rs_inst r) \<and> inst_by_id x' (new_id v x) = Some (rs_inst r) \<and>
    i_status (rs_inst r) = (if resting (rs_inst r) = [] then Completed else Running)"
proof -
  from createRequest_fresh [OF assms(1,2)] assms(3) obtain start entry t where
    t: "advanceMulti c d entry (jcoalesce vs (JObj [])) (no_tokens []) = Inr t" and
    store: "store_request le c v slug actor (e_key (resolveEnvelope v x key corr))
       (request_row v slug code actor (jcoalesce vs (JObj [])) d start t x) t x = Inr (r, x')"
    by (metis Inr_inject)
  let ?i = "request_row v slug code actor (jcoalesce vs (JObj [])) d start t x"
  have i: "i_id ?i = new_id v x" "resting ?i = active t" "i_status ?i = inst_status_of t"
    by (simp_all add: request_row_def resting_def)
  from store show ?thesis
  proof (cases rule: store_request_taken_apart)
    case (1 x2 ts x3 x4)
    note m = materializeStops_frame [OF 1(2)]
    have ts: "tasks x' = tasks x @ ts" "stop_tasks (tenantId slug) (new_id v x) (stops t) ts"
      using m 1(1,4,6) i(1) by (simp_all add: appends_def recordCommand_def)
    have r: "rs_inst r = ?i" using 1(5) by simp
    have "filter (\<lambda>t. t_inst t = new_id v x \<and> P t) (tasks x) = []" for P
      using assms(4) by (auto simp: filter_empty_conv dest: rev_image_eqI [OF _ sym])
    then have "open_at x' (new_id v x) n = count_list (map n_id (stops t)) n" for n
      using ts(1) stop_tasks_count [OF ts(2), of n] by (simp add: open_at_def)
    then have "tokens_match x' d ?i"
      using advance_books [OF t] by (simp add: tokens_match_def i)
    moreover have "inst_by_id x' (new_id v x) = Some ?i"
      using m 1(1,3,6) assms(5) i(1)
      by (auto simp: inst_by_id_def same_but_tasks_def appends_def recordCommand_def table_simps)
    ultimately show ?thesis using r i by (simp add: inst_status_of_def)
  qed
qed

text \<open>
  C3. Approval keeps the correspondence: if the open tasks of the instance match its resting
  tokens before an approval, they do after it; the instance is stored with the new tokens and
  is complete exactly when none rests.
\<close>
theorem approval_tokens_match:
  assumes "actOnTask le c v slug taskId actor Approve key corr x = Inr (r, x')"
    and "findIdempotent x (tenantId slug) (e_key (resolveEnvelope v x key corr)) = None"
    and "distinct (map t_id (tasks x))" "t \<in> set (tasks x)" "t_id t = taskId"
    and "inst_by_id x (t_inst t) = Some i" "getWorkflow x slug (i_workflow i) = Inr d"
    and "tokens_match x d i"
  shows "tokens_match x' d (rs_inst r) \<and> inst_by_id x' (t_inst t) = Some (rs_inst r) \<and>
    i_status (rs_inst r) = (if resting (rs_inst r) = [] then Completed else Running)"
  using assms(1,2)
proof (cases rule: actOnTask_fresh)
  case (1 t0 i0 d0 behalf x3 x4)
  have "t0 = t" using tfind_SomeD [OF 1(1)] distinct_column_unique [OF assms(3)] assms(4,5) by metis
  with 1(3,4) assms(6,7) have same: "t0 = t" "i0 = i" "d0 = d" by simp_all
  from 1(12) same obtain i' ts where
    res: "resume le c v slug (tenantId slug) actor d i (t_node t) x3 = Inr (i', ts, x4)" "rs_inst r = i'" by auto
  from resume_tasks [OF res(1)] obtain tk "is" where tk: "advance_from c d i (t_node t) = Inr tk"
      "tasks x4 = tasks x3 @ ts" "stop_tasks (tenantId slug) (i_id i) (stops tk) ts"
      "i' = moved v d (t_node t) tk i"
      "instances x4 = tupd (\<lambda>r. i_id r = i_id i) (moved v d (t_node t) tk) (instances x3 @ is)" by blast
  have ii: "t_inst t = i_id i" using assms(6) by (auto simp: inst_by_id_def dest: tfind_SomeD)
  have x3: "tasks x3 = tupd (\<lambda>u. t_id u = t_id t) (decide_task v Approve actor behalf) (tasks x)"
    using 1(6) same by (simp add: appends_def decided_def)
  have "t_status t = TOpen" using 1(2) same by simp
  note dec = open_at_decided [OF assms(3,4) this x3]
  have "open_at x' (i_id i) n = count_list (active tk) n"
    if "by_id (d_nodes d) n = Some m" "stop_type (n_type m)" for n m
  proof -
    have "open_at x' (i_id i) n = open_at x3 (i_id i) n + count_list (map n_id (stops tk)) n"
      using 1(13) tk(2) stop_tasks_count [OF tk(3), of n] by (simp add: open_at_def recordCommand_def)
    also have "open_at x3 (i_id i) n = count_list (remove1 (t_node t) (resting i)) n"
      using dec [of n] assms(8) that ii by (simp add: tokens_match_def count_remove1)
    finally show ?thesis using advance_from_books [OF tk(1) that] by simp
  qed
  then have "tokens_match x' d i'" using tk(4) by (simp add: tokens_match_def)
  moreover have "inst_by_id x' (i_id i) = Some i'"
    using inst_by_id_moved [of x3 "i_id i" i x4] tk(4,5) 1(3,7,13) same ii
    by (simp add: inst_by_id_def recordCommand_def)
  moreover have "i_status i' = inst_status_of tk" "resting i' = active tk" using tk(4) by (simp_all add: moved_def resting_def)
  ultimately show ?thesis using res(2) ii by (simp add: inst_status_of_def)
qed

end
