(* ===== verification/Workflow_Safety.thy ===== *)
theory Workflow_Safety
  imports Workflow_Props
begin

section \<open>External references, the sweep, the read model, versions\<close>

text \<open>
  Properties of the remaining workflow operations, the behaviours where the code differs from
  its comments, and the concrete runs that witness the properties of the runtime.
\<close>

subsection \<open>References of external actions\<close>

definition ext_row_ok :: "ext_row \<Rightarrow> bool" where
  "ext_row_ok e \<longleftrightarrow> (x_status e = XPending \<longrightarrow> x_sref e = None) \<and>
     (case x_sref e of
        None \<Rightarrow> x_reference e = None
      | Some s \<Rightarrow> x_reference e = Some (sr_sourceId s) \<and> sr_sourceId s \<noteq> [] \<and> x_enteredBy e \<noteq> None)"

definition ext_ok :: "xdb \<Rightarrow> bool" where
  "ext_ok x \<longleftrightarrow> (\<forall>e \<in> set (ext_tasks x). ext_row_ok e) \<and>
     (\<forall>r \<in> set (commands x). c_status r = CmdManualPending \<longrightarrow> c_sref r = None \<and> c_result r = JNull)"

lemma ext_ok_cong: "ext_tasks x' = ext_tasks x \<Longrightarrow> commands x' = commands x \<Longrightarrow> ext_ok x' = ext_ok x"
  by (simp add: ext_ok_def)

lemma ext_ok_appends: "appends x x' \<Longrightarrow> ext_ok x \<Longrightarrow> ext_ok x'"
  by (auto simp: appends_def ext_ok_def ext_row_ok_def)

lemma enter_ref_ok: "ref \<noteq> [] \<Longrightarrow> ext_row_ok (enter_ref c tenant actor ref sys e)"
  by (simp add: ext_row_ok_def enter_ref_def Let_def buildManualSourceRef_def)

lemma finish_ext_ok: "ext_row_ok e \<Longrightarrow> ext_row_ok (finish_ext e)"
  by (simp add: ext_row_ok_def finish_ext_def split: option.splits)

lemma resume_ext:
  assumes "resume le c v slug tenant actor d i node x = Inr (i', ts, x')" "ext_ok x"
  shows "ext_ok x'"
  using assms(1)
proof (cases rule: resume_taken_apart)
  case (1 t x1 x3)
  note m = materializeStops_frame [OF 1(4)]
  have "ext_ok x1" by (rule ext_ok_appends [OF 1(2) assms(2)])
  moreover have "ext_tasks x' = ext_tasks x1" "commands x' = commands x1"
    using m 1(5) by (simp_all add: same_but_tasks_def upd_instance_def)
  ultimately show ?thesis using ext_ok_cong [of x' x1] by simp
qed

lemma store_request_ext:
  assumes "store_request le c v slug actor key i t x = Inr (r, x')" "ext_ok x"
  shows "ext_ok x'"
  using assms(1)
proof (cases rule: store_request_taken_apart)
  case (1 x2 ts x3 x4)
  have "ext_ok (x\<lparr>instances := instances x @ [i]\<rparr>)" using assms(2) by (simp add: ext_ok_def)
  with 1(1) have "ext_ok x2" by (rule ext_ok_appends)
  moreover have "ext_tasks x' = ext_tasks x2" "commands x' = commands x2"
    using materializeStops_frame [OF 1(2)] 1(3,6) by (simp_all add: same_but_tasks_def recordCommand_def)
  ultimately show ?thesis using ext_ok_cong by blast
qed

lemma createRequest_ext:
  assumes "createRequest le c v slug code actor vs key corr x = Inr (r, x')" "ext_ok x"
  shows "ext_ok x'"
proof (cases "findIdempotent x (tenantId slug) (e_key (resolveEnvelope v x key corr))")
  case None
  from assms(1) None obtain k i t where "store_request le c v slug actor k i t x = Inr (r, x')"
    by (rule createRequest_fresh)
  then show ?thesis using store_request_ext assms(2) by blast
next
  case (Some r')
  with assms show ?thesis by (auto simp: createRequest_def assertTenant_def Let_def split: if_splits)
qed

lemma actOnTask_ext:
  assumes "actOnTask le c v slug taskId actor a key corr x = Inr (r, x')" "ext_ok x"
  shows "ext_ok x'"
proof (cases "findIdempotent x (tenantId slug) (e_key (resolveEnvelope v x key corr))")
  case None
  from assms(1) None show ?thesis
  proof (cases rule: actOnTask_fresh)
    case (1 t i d behalf x3 x4)
    have x3: "ext_ok x3" using 1(8,9) assms(2) ext_ok_cong by blast
    have "ext_ok x4"
    proof (cases a)
      case Reject
      with 1(11) have "ext_tasks x4 = ext_tasks x3" "commands x4 = commands x3"
        by (simp_all add: same_but_tasks_def upd_instance_def)
      with x3 show ?thesis using ext_ok_cong by blast
    next
      case Approve
      with 1(12) x3 show ?thesis using resume_ext by blast
    qed
    with 1(13) show ?thesis using ext_ok_cong [of x' x4] by (simp add: recordCommand_def)
  qed
next
  case (Some r')
  with assms show ?thesis by (auto simp: actOnTask_def assertTenant_def Let_def split: if_splits)
qed

lemma set_ext_finish: "ext_ok x \<Longrightarrow> ext_ok (set_ext i finish_ext x)"
  by (auto simp: ext_ok_def set_ext_def set_tupd intro: finish_ext_ok)

lemma set_ext_const: "ext_ok x \<Longrightarrow> ext_row_ok e \<Longrightarrow> ext_ok (set_ext i (\<lambda>_. e) x)"
  by (auto simp: ext_ok_def set_ext_def set_tupd)

lemma complete_command_ok:
  "ext_ok x \<Longrightarrow> ext_ok (x\<lparr>commands := tupd P (complete_command e) (commands x)\<rparr>)"
  by (auto simp: ext_ok_def set_tupd complete_command_def)

lemma record_reference_ok:
  assumes "ext_ok x" "ext_row_ok e"
  shows "ext_ok (record_reference v tenant actor e x)"
proof -
  let ?x1 = "set_ext (x_id e) (\<lambda>_. e) x"
  have 1: "ext_ok ?x1" by (rule set_ext_const [OF assms])
  have "ext_ok (dispatch v a b k l m (appendAudit n p q r y)) = ext_ok y" for a b k l m n p q r y
    by (intro ext_ok_cong) simp_all
  with 1 complete_command_ok [OF 1] show ?thesis
    by (simp add: record_reference_def Let_def split: option.splits)
qed

lemma advance_external_ok:
  "advance_external le c v slug actor e x = Inr (e', oi, x') \<Longrightarrow> ext_ok x \<Longrightarrow> ext_ok x'"
  by (auto simp: advance_external_def split: option.splits sum.splits prod.splits
      dest: resume_ext intro: set_ext_finish)

lemma enterExternalReference_ok:
  "enterExternalReference le c v slug i actor ref sys x = Inr (e, oi, x') \<Longrightarrow> ext_ok x \<Longrightarrow> ext_ok x'"
  by (auto simp: enterExternalReference_def assertTenant_def Let_def split: if_splits option.splits
      dest!: advance_external_ok intro!: record_reference_ok enter_ref_ok)

lemma sweep_task_rows:
  "ext_tasks (snd (sweep_task c v o1 t rx)) = ext_tasks (snd rx) \<and> commands (snd (sweep_task c v o1 t rx)) = commands (snd rx)"
  by (cases rx) (simp add: sweep_task_def Let_def set_task_def)

lemma fold_sweep_rows:
  "ext_tasks (snd (fold (sweep_task c v o1) ts rx)) = ext_tasks (snd rx) \<and>
   commands (snd (fold (sweep_task c v o1) ts rx)) = commands (snd rx)"
  by (induction ts arbitrary: rx) (simp_all add: sweep_task_rows)

lemma sweep_instances_rows:
  "sweep_instances v o1 is rx = Inr rx' \<Longrightarrow>
     ext_tasks (snd rx') = ext_tasks (snd rx) \<and> commands (snd rx') = commands (snd rx) \<and> tasks (snd rx') = tasks (snd rx)"
proof (induction "is" arbitrary: rx)
  case (Cons i "is")
  then obtain rx1 where 1: "sweep_instance v o1 i rx = Inr rx1" "sweep_instances v o1 is rx1 = Inr rx'"
    by (auto split: sum.splits)
  have "ext_tasks (snd rx1) = ext_tasks (snd rx) \<and> commands (snd rx1) = commands (snd rx) \<and> tasks (snd rx1) = tasks (snd rx)"
    using 1(1) by (cases rx) (auto simp: sweep_instance_def upd_instance_def Let_def
        split: if_splits option.splits sum.splits prod.splits)
  with Cons.IH [OF 1(2)] show ?case by simp
qed simp

lemma sweep_ext:
  assumes "runSchedulerSweep c v o1 x = Inr (r, x')"
  shows "ext_tasks x' = ext_tasks x \<and> commands x' = commands x"
  using assms fold_sweep_rows [of c v o1 "filter (\<lambda>t. t_status t = TOpen) (tasks x)" "(no_sweep, x)"]
  by (auto simp: runSchedulerSweep_def split: prod.splits dest!: sweep_instances_rows)

lemma x_step_ext: "x_step le c sha x x' \<Longrightarrow> ext_ok x \<Longrightarrow> ext_ok x'"
proof (induction rule: x_step.induct)
  case xs_create
  then show ?case by (auto dest: createRequest_ext)
next
  case xs_act
  then show ?case by (auto dest: actOnTask_ext)
next
  case xs_ext
  then show ?case by (auto dest: enterExternalReference_ok)
next
  case (xs_sweep v opts x r x')
  with sweep_ext [OF xs_sweep(1)] show ?case using ext_ok_cong by blast
qed (auto simp: spawnLightweightApprovalTask_def closeLightweightApprovalTask_def insert_instance_def ext_ok_def
      markNotificationRead_def markRead_def markAllRead_def publish_def rebuildProjection_def assertTenant_def Let_def
      split: if_splits option.splits sum.splits prod.splits)

subsection \<open>One sweep\<close>

definition plain_opts :: "int option \<Rightarrow> sweep_opts" where
  "plain_opts f = \<lparr>so_forceNow = f, so_overdue = None\<rparr>"

text \<open>What one sweep does to a task.\<close>

definition swept :: "int \<Rightarrow> task_row \<Rightarrow> task_row" where
  "swept clock t =
     (if t_status t \<noteq> TOpen \<or> slugFromTenantId (t_tenant t) = CANARY then t
      else if due_reminder clock False t then t\<lparr>t_reminded := True\<rparr>
      else if due_escalation clock False t then t\<lparr>t_escalated := True\<rparr>
      else t)"

lemma set_task_distinct:
  assumes "distinct (map t_id ts)" "t \<in> set ts"
  shows "tupd (\<lambda>u. t_id u = t_id t) f ts = map (\<lambda>u. if u = t then f t else u) ts"
  unfolding tupd_def using assms distinct_column_unique [OF assms(1)] by (intro map_cong) auto

lemma sweep_task_tasks:
  assumes "t_status t = TOpen"
  shows "tasks (snd (sweep_task c v (plain_opts f) t (r, x))) =
    (if swept (sweep_now v (plain_opts f)) t = t then tasks x
     else tupd (\<lambda>u. t_id u = t_id t)
       (\<lambda>u. if due_reminder (sweep_now v (plain_opts f)) False t then u\<lparr>t_reminded := True\<rparr> else u\<lparr>t_escalated := True\<rparr>) (tasks x))"
proof -
  have "t\<lparr>t_reminded := True\<rparr> \<noteq> t" if "\<not> t_reminded t" using that by (cases t) simp
  moreover have "t\<lparr>t_escalated := True\<rparr> \<noteq> t" if "\<not> t_escalated t" using that by (cases t) simp
  ultimately show ?thesis using assms
    by (auto simp: sweep_task_def swept_def plain_opts_def set_task_def Let_def due_reminder_def due_escalation_def)
qed

lemma swept_settled:
  "\<not> (slugFromTenantId (t_tenant t) \<noteq> CANARY \<and> t_status t = TOpen \<and>
       (due_reminder clock False (swept clock t) \<or> due_escalation clock False (swept clock t)))"
  by (auto simp: swept_def due_reminder_def due_escalation_def task_deadline_def task_sla_def)

lemma swept_frame [simp]: "t_id (swept clock t) = t_id t" "t_status (swept clock t) = t_status t"
  "t_tenant (swept clock t) = t_tenant t"
  by (auto simp: swept_def)

text \<open>The pass over the tasks, each row read from the snapshot taken at the start.\<close>

lemma sweep_tasks_done:
  assumes "distinct (map t_id us)" "tasks (snd rx) = map g us" "\<And>u. u \<in> set us \<Longrightarrow> t_id (g u) = t_id u"
    and "set ts \<subseteq> set us" "distinct ts" "\<And>t. t \<in> set ts \<Longrightarrow> t_status t = TOpen \<and> g t = t"
  shows "tasks (snd (fold (sweep_task c v (plain_opts f)) ts rx)) =
    map (\<lambda>u. if u \<in> set ts then swept (sweep_now v (plain_opts f)) u else g u) us"
  using assms(2-)
proof (induction ts arbitrary: rx g)
  case (Cons t ts)
  let ?clock = "sweep_now v (plain_opts f)"
  obtain r x where rx: "rx = (r, x)" by fastforce
  have t: "t \<in> set us" "t_status t = TOpen" "g t = t" using Cons.prems by auto
  let ?g = "g(t := swept ?clock t)"
  have eq: "t_id u = t_id t \<longleftrightarrow> u = t" if "u \<in> set us" for u
    using that t(1) distinct_column_unique [OF assms(1)] by blast
  have "tasks (snd (sweep_task c v (plain_opts f) t rx)) = map ?g us"
  proof (cases "swept ?clock t = t")
    case True
    then have "map g us = map ?g us" using t(3) by auto
    with True Cons.prems(1) rx sweep_task_tasks [OF t(2)] show ?thesis by simp
  next
    case False
    have "t_status t \<noteq> TOpen \<or> slugFromTenantId (t_tenant t) = CANARY \<Longrightarrow> swept ?clock t = t"
      "\<not> due_reminder ?clock False t \<Longrightarrow> \<not> due_escalation ?clock False t \<Longrightarrow> swept ?clock t = t"
      unfolding swept_def by (simp_all only: if_True if_False if_cancel)
    with False have "\<not> (t_status t \<noteq> TOpen \<or> slugFromTenantId (t_tenant t) = CANARY)"
      "due_reminder ?clock False t \<or> due_escalation ?clock False t" by blast+
    then have sw: "swept ?clock t = (if due_reminder ?clock False t then t\<lparr>t_reminded := True\<rparr> else t\<lparr>t_escalated := True\<rparr>)"
      unfolding swept_def by (simp only: if_False) (simp only: if_True split: if_split, blast)
    have "tupd (\<lambda>u. t_id u = t_id t) h (map g us) = map (\<lambda>u. if u = t then h t else g u) us" for h
      unfolding tupd_def map_map comp_def
      by (rule map_cong [OF refl]) (use Cons.prems(2) t(3) eq in \<open>simp split: if_splits\<close>)
    moreover have "tasks (snd (sweep_task c v (plain_opts f) t rx)) = tupd (\<lambda>u. t_id u = t_id t)
       (\<lambda>u. if due_reminder ?clock False t then u\<lparr>t_reminded := True\<rparr> else u\<lparr>t_escalated := True\<rparr>) (map g us)"
      using False Cons.prems(1) rx sweep_task_tasks [OF t(2)] by simp
    ultimately show ?thesis unfolding sw by (simp add: fun_upd_def)
  qed
  note step = this
  have "tasks (snd (fold (sweep_task c v (plain_opts f)) ts (sweep_task c v (plain_opts f) t rx))) =
      map (\<lambda>u. if u \<in> set ts then swept ?clock u else ?g u) us"
  proof (rule Cons.IH [OF step])
    show "\<And>u. u \<in> set us \<Longrightarrow> t_id (?g u) = t_id u" using Cons.prems(2) by simp
    show "\<And>u. u \<in> set ts \<Longrightarrow> t_status u = TOpen \<and> ?g u = u" using Cons.prems(4,5) by auto
  qed (use Cons.prems in auto)
  also have "\<dots> = map (\<lambda>u. if u \<in> set (t # ts) then swept ?clock u else g u) us"
    by (rule map_cong [OF refl]) simp
  finally show ?case by simp
qed simp

lemma sweep_counts:
  assumes "\<And>t. t \<in> set ts \<Longrightarrow> slugFromTenantId (t_tenant t) = CANARY \<or>
      \<not> due_reminder (sweep_now v (plain_opts f)) False t \<and> \<not> due_escalation (sweep_now v (plain_opts f)) False t"
  shows "fold (sweep_task c v (plain_opts f)) ts rx = rx"
  using assms
proof (induction ts arbitrary: rx)
  case (Cons t ts)
  then have "sweep_task c v (plain_opts f) t rx = rx"
    by (cases rx) (auto simp: sweep_task_def plain_opts_def Let_def)
  with Cons show ?case by simp
qed simp

lemma sweep_instances_counts:
  "sweep_instances v o1 is rx = Inr rx' \<Longrightarrow>
     sw_reminders (fst rx') = sw_reminders (fst rx) \<and> sw_escalations (fst rx') = sw_escalations (fst rx)"
proof (induction "is" arbitrary: rx)
  case (Cons i "is")
  then obtain rx1 where 1: "sweep_instance v o1 i rx = Inr rx1" "sweep_instances v o1 is rx1 = Inr rx'"
    by (auto split: sum.splits)
  have "sw_reminders (fst rx1) = sw_reminders (fst rx) \<and> sw_escalations (fst rx1) = sw_escalations (fst rx)"
    using 1(1) by (cases rx) (auto simp: sweep_instance_def Let_def split: if_splits option.splits sum.splits prod.splits)
  with Cons.IH [OF 1(2)] show ?case by simp
qed simp

lemma sweep_result_tasks:
  assumes "runSchedulerSweep c v (plain_opts f) x = Inr (r, x')" "distinct (map t_id (tasks x))"
  shows "tasks x' = map (swept (sweep_now v (plain_opts f))) (tasks x)"
proof -
  let ?clock = "sweep_now v (plain_opts f)" and ?ts = "filter (\<lambda>t. t_status t = TOpen) (tasks x)"
  obtain r1 x1 where f: "fold (sweep_task c v (plain_opts f)) ?ts (no_sweep, x) = (r1, x1)" by fastforce
  have "tasks (snd (fold (sweep_task c v (plain_opts f)) ?ts (no_sweep, x))) =
     map (\<lambda>u. if u \<in> set ?ts then swept ?clock u else id u) (tasks x)"
    by (rule sweep_tasks_done) (use assms(2) in \<open>auto simp: distinct_map\<close>)
  then have "tasks x1 = map (swept ?clock) (tasks x)" using f by (auto simp: swept_def)
  moreover have "tasks x' = tasks x1"
    using assms(1) f by (auto simp: runSchedulerSweep_def dest: sweep_instances_rows)
  ultimately show ?thesis by simp
qed

subsection \<open>Where an instance stands\<close>

lemma advance_rests:
  assumes "advanceMulti c d entry vars t = Inr t'"
    and "\<And>x. x \<in> set (active t) \<Longrightarrow> \<exists>n. by_id (d_nodes d) x = Some n \<and> rest_node c n" "x \<in> set (active t')"
  shows "\<exists>n. by_id (d_nodes d) x = Some n \<and> rest_node c n"
proof -
  have "\<forall>x \<in> set (active t'). \<exists>n. by_id (d_nodes d) x = Some n \<and> rest_node c n"
  proof (rule advanceMulti_invariant [OF assms(1)])
    show "\<forall>x \<in> set (active t). \<exists>n. by_id (d_nodes d) x = Some n \<and> rest_node c n" using assms(2) by blast
  qed (use token_step_active in blast)
  with assms(3) show ?thesis by blast
qed

lemma current_node:
  assumes "distinct (map n_id (d_nodes d))" "current_of d from t = Some cur" "find_node (d_nodes d) cur = Some n"
    and "\<And>x. x \<in> set (active t) \<Longrightarrow> \<exists>n. by_id (d_nodes d) x = Some n \<and> rest_node c n"
    and "m \<in> set (d_nodes d)" "n_id m = from"
  shows "rest_node c n \<or> n_type n = NEnd \<or> n = m"
proof (cases "active t")
  case (Cons a as)
  with assms(2) have "cur \<in> set (active t)" by (simp add: current_of_def)
  with assms(4) obtain k where "by_id (d_nodes d) cur = Some k" "rest_node c k" by blast
  with assms(3) find_node_by_id [OF assms(1)] show ?thesis by simp
next
  case Nil
  note uniq = distinct_column_unique [OF assms(1)]
  have n: "n \<in> set (d_nodes d)" "n_id n = cur" using find_node_Some [OF assms(3)] by auto
  show ?thesis
  proof (cases "endReached t")
    case True
    with Nil assms(2) obtain e where "e \<in> set (d_nodes d)" "n_type e = NEnd" "n_id e = cur"
      by (auto simp: current_of_def findEndId_def dest!: tfind_SomeD)
    with n uniq show ?thesis by metis
  next
    case False
    with Nil assms(2) have "cur = from" by (simp add: current_of_def)
    with n assms(5,6) uniq show ?thesis by metis
  qed
qed

subsection \<open>Properties\<close>

text \<open>
  C34. No document is made up: through any sequence of operations, a manual command waiting for
  its reference has neither a result nor a source reference, a pending external action has none
  either, and an external action that has a source reference has the non-empty code some person
  entered as its identifier.
\<close>
theorem external_references_real:
  assumes "(x_step le c sha)\<^sup>*\<^sup>* x x'" "ext_tasks x = []" "commands x = []"
  shows "(\<forall>r \<in> set (commands x'). c_status r = CmdManualPending \<longrightarrow> c_sref r = None \<and> c_result r = JNull) \<and>
    (\<forall>e \<in> set (ext_tasks x'). (x_status e = XPending \<longrightarrow> x_sref e = None) \<and>
       (\<forall>s. x_sref e = Some s \<longrightarrow> x_reference e = Some (sr_sourceId s) \<and> sr_sourceId s \<noteq> [] \<and> x_enteredBy e \<noteq> None))"
proof -
  have "ext_ok x" using assms(2,3) by (simp add: ext_ok_def)
  with assms(1) have "ext_ok x'" by (induction rule: rtranclp_induct) (auto dest: x_step_ext)
  then have "ext_row_ok e" if "e \<in> set (ext_tasks x')" for e using that by (simp add: ext_ok_def)
  moreover have "x_sref e = Some s \<Longrightarrow> ext_row_ok e \<Longrightarrow>
      x_reference e = Some (sr_sourceId s) \<and> sr_sourceId s \<noteq> [] \<and> x_enteredBy e \<noteq> None" for e s
    by (simp add: ext_row_ok_def)
  moreover have "ext_row_ok e \<Longrightarrow> x_status e = XPending \<Longrightarrow> x_sref e = None" for e by (simp add: ext_row_ok_def)
  ultimately show ?thesis using \<open>ext_ok x'\<close> unfolding ext_ok_def by blast
qed

text \<open>
  Reminders and escalations happen once: a second sweep at the same time (or with the same
  forced clock) sends no reminder and no escalation.
\<close>
theorem sweep_settles:
  assumes "runSchedulerSweep c v (plain_opts f) x = Inr (r, x')" "distinct (map t_id (tasks x))"
    and "runSchedulerSweep c v (plain_opts f) x' = Inr (r', x'')"
  shows "sw_reminders r' = 0 \<and> sw_escalations r' = 0"
proof -
  note ts = sweep_result_tasks [OF assms(1,2)]
  have "fold (sweep_task c v (plain_opts f)) (filter (\<lambda>t. t_status t = TOpen) (tasks x')) (no_sweep, x') = (no_sweep, x')"
  proof (rule sweep_counts)
    fix t assume "t \<in> set (filter (\<lambda>t. t_status t = TOpen) (tasks x'))"
    then obtain u where "t = swept (sweep_now v (plain_opts f)) u" "t_status u = TOpen" using ts by auto
    then show "slugFromTenantId (t_tenant t) = CANARY \<or>
      \<not> due_reminder (sweep_now v (plain_opts f)) False t \<and> \<not> due_escalation (sweep_now v (plain_opts f)) False t"
      using swept_settled [of u "sweep_now v (plain_opts f)"] by auto
  qed
  with assms(3) sweep_instances_counts show ?thesis
    by (fastforce simp: runSchedulerSweep_def no_sweep_def)
qed

text \<open>
  The read model cannot diverge: whatever the projection table held, reading the work items
  returns exactly the projection of the tenant's open tasks, keeps the other tenants' items, and
  reading again returns the same.
\<close>
theorem work_items_exact:
  assumes "listWorkItems slug x = Inr (items, x')"
  shows "items = map project_task (filter (\<lambda>t. t_tenant t = tenantId slug \<and> t_status t = TOpen) (tasks x)) \<and>
    filter (\<lambda>w. wi_tenant w \<noteq> tenantId slug) (work_items x') = filter (\<lambda>w. wi_tenant w \<noteq> tenantId slug) (work_items x) \<and>
    tasks x' = tasks x \<and> listWorkItems slug x' = Inr (items, x')"
proof -
  let ?ts = "filter (\<lambda>t. t_tenant t = tenantId slug \<and> t_status t = TOpen) (tasks x)"
  have mine: "filter (\<lambda>w. wi_tenant w = tenantId slug) (map project_task ?ts) = map project_task ?ts"
    "filter (\<lambda>w. wi_tenant w \<noteq> tenantId slug) (map project_task ?ts) = []"
    by (auto simp: filter_id_conv filter_empty_conv project_task_def)
  have other: "filter (\<lambda>w. wi_tenant w = tenantId slug) (filter (\<lambda>w. wi_tenant w \<noteq> tenantId slug) xs) = []" for xs
    by (auto simp: filter_empty_conv)
  from assms have x': "slug \<noteq> CANARY" "x' = x\<lparr>work_items := filter (\<lambda>w. wi_tenant w \<noteq> tenantId slug) (work_items x) @ map project_task ?ts\<rparr>"
    by (auto simp: listWorkItems_def rebuildProjection_def assertTenant_def projectUnifiedWorkItems_def Let_def
        split: if_splits sum.splits)
  have items: "items = map project_task ?ts"
    using assms x' mine other
    by (simp add: listWorkItems_def rebuildProjection_def assertTenant_def projectUnifiedWorkItems_def Let_def)
  show ?thesis
    unfolding items x'(2) using x'(1) mine other
    by (simp add: listWorkItems_def rebuildProjection_def assertTenant_def projectUnifiedWorkItems_def Let_def)
qed

text \<open>
  Published versions are immutable and numbered upwards: publishing keeps every earlier
  version unchanged and in place, adds one whose number exceeds them all, and makes its
  definition the working one.
\<close>
theorem publish_appends_version:
  assumes "publish sha v slug code d x = Inr (r, x')" "wf_lookup x (tenantId slug) code = Some w"
  shows "\<exists>w'. wf_lookup x' (tenantId slug) code = Some w' \<and> wf_versions w' = wf_versions w @ [r] \<and>
    wf_working w' = d \<and> v_definition r = d \<and> v_checksum r = sha d \<and>
    (\<forall>q \<in> set (wf_versions w). v_version q < v_version r)"
proof -
  have le: "q \<in> set vs \<Longrightarrow> v_version q \<le> latest_version vs" for q vs
    by (induction vs) (auto simp: latest_version_def)
  have find: "tfind P (tupd P f t) = map_option f (tfind P t)" if "\<And>u. P (f u) = P u" for P f and t :: "wf_row list"
    using that by (induction t) (auto simp: table_simps)
  let ?P = "\<lambda>w. wf_tenant w = tenantId slug \<and> wf_code w = code"
  from assms have r: "r = \<lparr>v_version = latest_version (wf_versions w) + 1, v_checksum = sha d,
        v_publishedAt = now v, v_definition = d\<rparr>"
    "workflows x' = tupd ?P (\<lambda>w. w\<lparr>wf_working := d, wf_versions := wf_versions w @ [r]\<rparr>) (workflows x)"
    by (auto simp: publish_def assertTenant_def Let_def split: if_splits)
  have "wf_lookup x' (tenantId slug) code = Some (w\<lparr>wf_working := d, wf_versions := wf_versions w @ [r]\<rparr>)"
    using assms(2) by (simp add: wf_lookup_def r(2) find)
  moreover have "\<forall>q \<in> set (wf_versions w). v_version q < v_version r" using le r(1) by fastforce
  ultimately show ?thesis using r(1) by simp
qed

text \<open>
  Timers never hold a request: with distinct node ids the current node of a new request is
  never a timer node, so the sweep, which only advances instances whose current node is one, has
  nothing to do for it; the comment that the sweep parks timers describes no reachable state.
\<close>
theorem request_never_on_timer:
  assumes "createRequest le c v slug code actor vs key corr x = Inr (r, x')"
    and "findIdempotent x (tenantId slug) (e_key (resolveEnvelope v x key corr)) = None"
    and "getWorkflow x slug code = Inr d" "distinct (map n_id (d_nodes d))"
    and "i_current (rs_inst r) = Some cur" "find_node (d_nodes d) cur = Some n"
  shows "n_type n \<noteq> NTimer"
proof -
  from createRequest_fresh [OF assms(1,2)] assms(3) obtain start entry t where
    s: "start_node d = Some start" and
    t: "advanceMulti c d entry (jcoalesce vs (JObj [])) (no_tokens []) = Inr t" and
    store: "store_request le c v slug actor (e_key (resolveEnvelope v x key corr))
       (request_row v slug code actor (jcoalesce vs (JObj [])) d start t x) t x = Inr (r, x')"
    by (metis Inr_inject)
  from store have "rs_inst r = request_row v slug code actor (jcoalesce vs (JObj [])) d start t x"
    by (cases rule: store_request_taken_apart) simp
  then have cur: "current_of d (n_id start) t = Some cur" using assms(5) by (simp add: request_row_def)
  have start: "start \<in> set (d_nodes d)" "n_type start = NStart"
    using s by (auto simp: start_node_def dest!: tfind_SomeD)
  have rest: "x \<in> set (active t) \<Longrightarrow> \<exists>n. by_id (d_nodes d) x = Some n \<and> rest_node c n" for x
    using advance_rests [OF t] by (simp add: no_tokens_def)
  from current_node [OF assms(4) cur assms(6) rest start(1) refl] start(2) show ?thesis
    by (auto simp: rest_node_def stop_type_def)
qed

lemma approve_succeeds:
  assumes "slug \<noteq> CANARY" "findIdempotent x (tenantId slug) (e_key (resolveEnvelope v x key corr)) = None"
    and "tfind (\<lambda>t. t_id t = taskId \<and> t_tenant t = tenantId slug) (tasks x) = Some t" "t_status t = TOpen"
    and "inst_by_id x (t_inst t) = Some i" "getWorkflow x slug (i_workflow i) = Inr d" "authorize x v (tenantId slug) t actor = Inr behalf"
    and "advance_from c d i (t_node t) = Inr tk" "calls tk = []" "subflows tk = []" "externals tk = []"
  shows "\<exists>r x'. actOnTask le c v slug taskId actor Approve key corr x = Inr (r, x')"
  using assms by (simp add: actOnTask_def assertTenant_def Let_def resume_def run_queues_def split: prod.splits)

text \<open>What an approval stores.\<close>

lemma approve_stores:
  assumes "actOnTask le c v slug taskId actor Approve key corr x = Inr (r, x')"
    and "findIdempotent x (tenantId slug) (e_key (resolveEnvelope v x key corr)) = None"
    and "tfind (\<lambda>t. t_id t = taskId \<and> t_tenant t = tenantId slug) (tasks x) = Some t"
    and "inst_by_id x (t_inst t) = Some i" "getWorkflow x slug (i_workflow i) = Inr d" "advance_from c d i (t_node t) = Inr tk"
  shows "rs_inst r = moved v d (t_node t) tk i" "inst_by_id x' (t_inst t) = Some (rs_inst r)"
proof -
  have "rs_inst r = moved v d (t_node t) tk i \<and> inst_by_id x' (t_inst t) = Some (rs_inst r)"
    using assms(1,2)
  proof (cases rule: actOnTask_fresh)
    case (1 t0 i0 d0 behalf x3 x4)
    with assms(3-5) have same: "t0 = t" "i0 = i" "d0 = d" by simp_all
    from 1(12) same obtain i' ts where
      res: "resume le c v slug (tenantId slug) actor d i (t_node t) x3 = Inr (i', ts, x4)" "rs_inst r = i'" by auto
    from resume_tasks [OF res(1)] assms(6) obtain "is" where
      tk: "i' = moved v d (t_node t) tk i" "instances x4 = tupd (\<lambda>r. i_id r = i_id i) (moved v d (t_node t) tk) (instances x3 @ is)" by auto
    have ii: "t_inst t = i_id i" using assms(4) by (auto simp: inst_by_id_def dest: tfind_SomeD)
    have "inst_by_id x' (i_id i) = Some i'"
      using inst_by_id_moved [of x3 "i_id i" i x4] tk 1(3,7,13) same ii
      by (simp add: inst_by_id_def recordCommand_def moved_def)
    with res(2) tk(1) ii show ?thesis by simp
  qed
  then show "rs_inst r = moved v d (t_node t) tk i" "inst_by_id x' (t_inst t) = Some (rs_inst r)" by blast+
qed

text \<open>What a rejection leaves: the instance rejected, the other tasks, the definitions and the organisation as they were.\<close>

lemma reject_leaves:
  assumes "actOnTask le c v slug task0 actor Reject key corr x = Inr (r, x')"
    and "findIdempotent x (tenantId slug) (e_key (resolveEnvelope v x key corr)) = None"
    and "tfind (\<lambda>t. t_id t = task0 \<and> t_tenant t = tenantId slug) (tasks x) = Some t0" "inst_by_id x (t_inst t0) = Some i"
  shows "inst_by_id x' (t_inst t0) = Some (i\<lparr>i_status := Rejected, i_updated := now v\<rparr>)" "workflows x' = workflows x" "org x' = org x"
    "\<exists>b. tasks x' = tupd (\<lambda>t. t_id t = task0) (decide_task v Reject actor b) (tasks x)"
    "slug \<noteq> CANARY"
proof -
  let ?f = "\<lambda>r. r\<lparr>i_status := Rejected, i_updated := now v\<rparr>"
  have "inst_by_id x' (t_inst t0) = Some (?f i) \<and> workflows x' = workflows x \<and> org x' = org x \<and>
    (\<exists>b. tasks x' = tupd (\<lambda>t. t_id t = task0) (decide_task v Reject actor b) (tasks x)) \<and>
    slug \<noteq> CANARY"
    using assms(1,2)
  proof (cases rule: actOnTask_fresh)
    case (1 t1 i1 d1 behalf x3 x4)
    with assms(3,4) have same: "t1 = t0" "i1 = i" by simp_all
    have "t_id t0 = task0" using tfind_SomeD [OF assms(3)] by simp
    have rest: "same_but_tasks (upd_instance (i_id i) ?f x3) x4" "tasks x4 = tasks x3" using 1(11) same by simp_all
    have ii: "t_inst t0 = i_id i" using assms(4) by (auto simp: inst_by_id_def dest: tfind_SomeD)
    have "instances x' = tupd (\<lambda>q. i_id q = i_id i) ?f (instances x @ [])"
      using rest(1) 1(7,13) by (simp add: same_but_tasks_def upd_instance_def recordCommand_def)
    then have "inst_by_id x' (t_inst t0) = Some (?f i)" using inst_by_id_moved [of x "i_id i" i x' ?f "[]"] assms(4) ii by simp
    moreover have "workflows x' = workflows x" "org x' = org x"
      using rest(1) 1(6,13) by (simp_all add: same_but_tasks_def upd_instance_def recordCommand_def appends_def decided_def)
    moreover have "tasks x' = tupd (\<lambda>t. t_id t = task0) (decide_task v Reject actor behalf) (tasks x)"
      using rest(2) 1(6,13) same \<open>t_id t0 = task0\<close> by (simp add: recordCommand_def appends_def decided_def)
    ultimately show ?thesis using 1(10) by blast
  qed
  then show "inst_by_id x' (t_inst t0) = Some (i\<lparr>i_status := Rejected, i_updated := now v\<rparr>)" "workflows x' = workflows x" "org x' = org x"
    "\<exists>b. tasks x' = tupd (\<lambda>t. t_id t = task0) (decide_task v Reject actor b) (tasks x)"
    "slug \<noteq> CANARY" by blast+
qed

lemma advance_from_status: "advance_from c d (i\<lparr>i_status := st, i_updated := u\<rparr>) node = advance_from c d i node"
proof -
  have same: "i_vars (i\<lparr>i_status := st, i_updated := u\<rparr>) = i_vars i" "i_active (i\<lparr>i_status := st, i_updated := u\<rparr>) = i_active i"
    "i_current (i\<lparr>i_status := st, i_updated := u\<rparr>) = i_current i" by simp_all
  show ?thesis unfolding advance_from_def resting_def same ..
qed

lemma tfind_tupd_apart:
  assumes "\<And>r. P r \<Longrightarrow> \<not> Q r" "\<And>r. Q r \<Longrightarrow> \<not> P (f r)"
  shows "tfind P (tupd Q f t) = tfind P t"
  using assms by (induction t) (auto simp: table_simps)

text \<open>
  C35. A rejection is not final: a decision looks only at its task. After one of two parallel tasks of an
  instance was rejected, and the instance with it, the other task can still be approved by whoever may
  act on it (at least when the walk behind it runs no service call, subflow or external action);
  the stored instance is then running or completed again, with the very row that the
  approval would have left had there been no rejection.
\<close>
theorem approval_unrejects:
  assumes "actOnTask le c v slug task0 actor0 Reject key0 corr0 x0 = Inr (r0, x)"
    and "findIdempotent x0 (tenantId slug) (e_key (resolveEnvelope v x0 key0 corr0)) = None"
    and "tfind (\<lambda>t. t_id t = task0 \<and> t_tenant t = tenantId slug) (tasks x0) = Some t0"
    and "tfind (\<lambda>t. t_id t = taskId \<and> t_tenant t = tenantId slug) (tasks x0) = Some t"
    and "taskId \<noteq> task0" "t_status t = TOpen" "t_inst t = t_inst t0"
    and "inst_by_id x0 (t_inst t) = Some i" "getWorkflow x0 slug (i_workflow i) = Inr d"
    and "authorize x0 v' (tenantId slug) t actor = Inr behalf"
    and "findIdempotent x (tenantId slug) (e_key (resolveEnvelope v' x key corr)) = None"
    and "advance_from c d i (t_node t) = Inr tk" "calls tk = []" "subflows tk = []" "externals tk = []"
  shows "map_option i_status (inst_by_id x (t_inst t)) = Some Rejected \<and>
    (\<exists>r x'. actOnTask le c v' slug taskId actor Approve key corr x = Inr (r, x') \<and> inst_by_id x' (t_inst t) = Some (rs_inst r) \<and>
       i_status (rs_inst r) = (if active tk = [] then Completed else Running) \<and>
       (\<forall>r1 x1. findIdempotent x0 (tenantId slug) (e_key (resolveEnvelope v' x0 key corr)) = None \<and>
          actOnTask le c v' slug taskId actor Approve key corr x0 = Inr (r1, x1) \<longrightarrow> inst_by_id x1 (t_inst t) = inst_by_id x' (t_inst t)))"
proof -
  let ?i = "i\<lparr>i_status := Rejected, i_updated := now v\<rparr>"
  have i0: "inst_by_id x0 (t_inst t0) = Some i" using assms(7,8) by simp
  note left = reject_leaves [OF assms(1-3) i0]
  have inst: "inst_by_id x (t_inst t) = Some ?i" using left(1) assms(7) by simp
  have task: "tfind (\<lambda>t. t_id t = taskId \<and> t_tenant t = tenantId slug) (tasks x) = Some t"
  proof -
    from left(4) obtain b where rows: "tasks x = tupd (\<lambda>t. t_id t = task0) (decide_task v Reject actor0 b) (tasks x0)" by blast
    show ?thesis unfolding rows
      by (subst tfind_tupd_apart) (use assms(4,5) in \<open>auto simp: decide_task_def\<close>)
  qed
  have flow: "getWorkflow x slug (i_workflow ?i) = Inr d" using assms(9) left(2) by (simp add: getWorkflow_def getWorkflowSafe_def wf_lookup_def)
  have may: "authorize x v' (tenantId slug) t actor = Inr behalf" using assms(10) by (simp only: authorize_def findValidDelegate_def left(3))
  have walk: "advance_from c d ?i (t_node t) = Inr tk" using assms(12) by (simp add: advance_from_status)
  obtain r x' where ap: "actOnTask le c v' slug taskId actor Approve key corr x = Inr (r, x')"
    using approve_succeeds [OF left(5) assms(11) task assms(6) inst flow may walk assms(13-15)] by blast
  note stored = approve_stores [OF ap assms(11) task inst flow walk]
  have "inst_by_id x1 (t_inst t) = inst_by_id x' (t_inst t)"
    if "findIdempotent x0 (tenantId slug) (e_key (resolveEnvelope v' x0 key corr)) = None"
      "actOnTask le c v' slug taskId actor Approve key corr x0 = Inr (r1, x1)" for r1 x1
    using approve_stores [OF that(2,1) assms(4,8,9,12)] stored by (simp add: moved_def)
  with ap stored inst show ?thesis by (auto simp: moved_def inst_status_of_def)
qed

text \<open>
  The structured selector of a head of unit cannot take the unit from the request: the
  runtime calls the selector without the variables, so an assignment that names the unit only by
  \<open>orgUnitFrom\<close> and has no fallback role resolves to nobody, whatever the organisation.
\<close>
theorem org_unit_from_ignored:
  assumes "get_prop (assignment_of n) ''selectorType'' = JStr ''ORG_UNIT_HEAD''"
    and "nullish (get_prop (assignment_of n) ''orgUnitId'')" "json_strs (get_prop (assignment_of n) ''fallback'') = []"
  shows "fst (resolveStructuredAssignee le tenant ic n x) = None"
proof (cases "truthy (assignment_of n)")
  case True
  let ?a = "assignment_of n"
  have t: "jcoalesce (get_prop ?a ''selectorType'') (get_prop ?a ''type'') = JStr ''ORG_UNIT_HEAD''"
    by (simp add: jcoalesce_def assms(1) nullish_def)
  let ?sel = "(blank_selector SOrgUnitHead)\<lparr>s_choice := str_field ?a ''choicePolicy'',
     s_fallback := [], s_orgUnit := None\<rparr>"
  have sel: "selectorFromAssignment ?a JUndef = Some ?sel"
    using True assms(2,3) unfolding selectorFromAssignment_def Let_def t
    by (simp add: jcoalesce_def readPath_def json_str_def)
  have "resolveCandidates (org x) ?sel = []"
    by (simp add: resolveCandidates_def blank_selector_def holder_of_def personCandidate_def)
  then have "re_person (resolveAndSnapshot le (org x) tenant ic (n_id n) ?sel) = None"
    by (simp add: resolveAndSnapshot_def order_candidates_def Let_def)
  then show ?thesis using sel by (simp add: resolveStructuredAssignee_def Let_def)
next
  case False
  then show ?thesis by (simp add: resolveStructuredAssignee_def selectorFromAssignment_def)
qed

end
