(* ===== verification/Workflow_Examples.thy ===== *)
theory Workflow_Examples
  imports Workflow_Safety
begin

section \<open>Concrete runs of the workflow runtime\<close>

text \<open>
  Small databases on which the properties of the runtime are exercised: two parallel approvals
  joined before the end, and an external action that waits for its reference.
\<close>

definition demo_db :: "wdef \<Rightarrow> xdb" where
  "demo_db d = \<lparr>workflows = [\<lparr>wf_tenant = tenantId ''xtech'', wf_code = ''W'', wf_working = d, wf_versions = []\<rparr>],
     instances = [], tasks = [], commands = [], ext_tasks = [], events = [], notifs = [], cmd_log = [],
     resolutions = [], x_audit = [], work_items = [], org = empty_idb, seq = 0, subflowSeq = 1\<rparr>"

definition two_approvals :: wdef where
  "two_approvals = \<lparr>d_code = ''W'', d_name = ''W'', d_ownerRoleCode = None,
     d_nodes = [nd ''s'' NStart, nd ''p'' NParallelSplit, nd ''a'' NApproval, nd ''b'' NApproval,
        nd ''j'' NParallelJoin, nd ''e'' NEnd],
     d_edges = [ed ''s'' ''p'', ed ''p'' ''a'', ed ''p'' ''b'', ed ''a'' ''j'', ed ''b'' ''j'', ed ''j'' ''e'']\<rparr>"

definition created :: "(response \<times> xdb) res" where
  "created = createRequest lex_le demo_cfg demo_env ''xtech'' ''W'' ''an'' (JObj []) (Some ''k1'') None (demo_db two_approvals)"

definition db1 :: xdb where "db1 = snd (projr created)"
definition r1 :: response where "r1 = fst (projr created)"

definition approved :: "(response \<times> xdb) res" where
  "approved = actOnTask lex_le demo_cfg demo_env ''xtech'' ''id1'' ''boss'' Approve (Some ''k2'') None db1"

definition db2 :: xdb where "db2 = snd (projr approved)"
definition r2 :: response where "r2 = fst (projr approved)"

definition refused :: "(response \<times> xdb) res" where
  "refused = actOnTask lex_le demo_cfg demo_env ''xtech'' ''id1'' ''boss'' Reject (Some ''k3'') None db1"

definition db3 :: xdb where "db3 = snd (projr refused)"

definition revived :: "(response \<times> xdb) res" where
  "revived = actOnTask lex_le demo_cfg demo_env ''xtech'' ''id2'' ''boss'' Approve (Some ''k4'') None db3"

definition task1 :: task_row where "task1 = hd (tasks db1)"
definition inst1 :: inst_row where "inst1 = hd (instances db1)"

text \<open>An external action, a late sweep, and a node whose unit is taken from the request.\<close>

definition call_node :: wnode where
  "call_node = \<lparr>n_id = ''x'', n_type = NServiceCall, n_name = ''ERP'', n_config = demo_call\<rparr>"

definition external_flow :: wdef where
  "external_flow = \<lparr>d_code = ''W'', d_name = ''W'', d_ownerRoleCode = None,
     d_nodes = [nd ''s'' NStart, call_node, nd ''e'' NEnd],
     d_edges = [ed ''s'' ''x'', ed ''x'' ''e'']\<rparr>"

definition amount_vars :: json where
  "amount_vars = JObj [(''request'', JObj [(''amount'', JStr ''12'')])]"

definition first_call :: "(response \<times> xdb) res" where
  "first_call = createRequest lex_le demo_cfg demo_env ''xtech'' ''W'' ''an'' amount_vars (Some ''k1'') None (demo_db external_flow)"

definition second_call :: "(response \<times> xdb) res" where
  "second_call = createRequest lex_le demo_cfg demo_env ''xtech'' ''W'' ''bo'' amount_vars (Some ''k2'') None (snd (projr first_call))"

definition reference_entered :: "(ext_row \<times> inst_row option \<times> xdb) res" where
  "reference_entered = enterExternalReference lex_le demo_cfg demo_env ''xtech'' ''id1'' ''an'' (Some '' MR-7 '') None
     (snd (projr second_call))"

definition db6 :: xdb where "db6 = snd (projr second_call)"

definition late_env :: env where
  "late_env = demo_env\<lparr>now := 90000000\<rparr>"

definition swept1 :: "(sweep \<times> xdb) res" where
  "swept1 = runSchedulerSweep demo_cfg late_env (plain_opts None) db1"

definition head_node :: wnode where
  "head_node = \<lparr>n_id = ''a'', n_type = NApproval, n_name = ''Head'', n_config = JObj [(''assignment'',
     JObj [(''selectorType'', JStr ''ORG_UNIT_HEAD''), (''orgUnitFrom'', JStr ''request.departmentId'')])]\<rparr>"

text \<open>What the runs evaluate to, all in one evaluation.\<close>

lemma runs:
  "case created of Inl _ \<Rightarrow> False | Inr (r, d) \<Rightarrow> (let t = hd (tasks d); i = hd (instances d) in
     i_current i = Some ''a'' \<and> tasks d \<noteq> [] \<and> map t_id (tasks d) = [''id1'', ''id2''] \<and> inst_by_id d (t_inst t) = Some i \<and>
     getWorkflow d ''xtech'' (i_workflow i) = Inr two_approvals \<and> rs_inst r = i \<and>
     open_at d (i_id i) ''a'' = 1 \<and> open_at d (i_id i) ''b'' = 1 \<and> resting i = [''a'', ''b''] \<and>
     findIdempotent d (tenantId ''xtech'') (e_key (resolveEnvelope demo_env d (Some ''k2'') None)) = None \<and>
     is_ok (listWorkItems ''xtech'' d) \<and>
     map (wi_source \<circ> project_task) (filter (\<lambda>t. t_tenant t = tenantId ''xtech'' \<and> t_status t = TOpen) (tasks d)) = [''id1'', ''id2''])"
  "case approved of Inl _ \<Rightarrow> False | Inr (r, d) \<Rightarrow> i_status (rs_inst r) = Running"
  "case created of Inl _ \<Rightarrow> False | Inr (r, d) \<Rightarrow> (let t0 = hd (tasks d); t = tasks d ! 1; i = hd (instances d) in
     tfind (\<lambda>t. t_id t = ''id1'' \<and> t_tenant t = tenantId ''xtech'') (tasks d) = Some t0 \<and>
     tfind (\<lambda>t. t_id t = ''id2'' \<and> t_tenant t = tenantId ''xtech'') (tasks d) = Some t \<and> t_status t = TOpen \<and> t_inst t = t_inst t0 \<and>
     findIdempotent d (tenantId ''xtech'') (e_key (resolveEnvelope demo_env d (Some ''k3'') None)) = None \<and>
     authorize d demo_env (tenantId ''xtech'') t ''boss'' = Inr None \<and>
     (case advance_from demo_cfg two_approvals i (t_node t) of Inl _ \<Rightarrow> False
      | Inr tk \<Rightarrow> calls tk = [] \<and> subflows tk = [] \<and> externals tk = []))"
  "case refused of Inl _ \<Rightarrow> False | Inr (r, d) \<Rightarrow> (let t = tasks d ! 1 in
     i_status (hd (instances d)) = Rejected \<and> tfind (\<lambda>t. t_id t = ''id2'' \<and> t_tenant t = tenantId ''xtech'') (tasks d) = Some t \<and>
     inst_by_id d (t_inst t) = Some (hd (instances d)) \<and>
     findIdempotent d (tenantId ''xtech'') (e_key (resolveEnvelope demo_env d (Some ''k4'') None)) = None)"
  "is_ok revived"
  "case swept1 of Inl _ \<Rightarrow> False | Inr (w, d) \<Rightarrow> sw_escalations w = 2 \<and> is_ok (runSchedulerSweep demo_cfg late_env (plain_opts None) d)"
  "case first_call of Inl _ \<Rightarrow> False | Inr (r, d) \<Rightarrow> map c_status (commands d) = [CmdManualPending]"
  "case second_call of Inl _ \<Rightarrow> False | Inr (r, d) \<Rightarrow>
     (case enterExternalReference lex_le demo_cfg demo_env ''xtech'' ''id1'' ''an'' (Some '' MR-7 '') None d of Inl _ \<Rightarrow> False
      | Inr (e, oi, x) \<Rightarrow> x_instCode e = i_code (instances d ! 0) \<and> x_status e = XCompleted \<and>
          map (\<lambda>r. (c_inst r, c_status r)) (commands x) =
            [(i_id (instances d ! 0), CmdManualPending), (i_id (instances d ! 1), CmdManualCompleted)])"
  "is_ok (publish (\<lambda>_. ''h'') demo_env ''xtech'' ''W'' chain (demo_db two_approvals))"
  "getWorkflow (demo_db two_approvals) ''xtech'' ''W'' = Inr two_approvals" "trim ''k1'' \<noteq> []"
  "findIdempotent (demo_db d) (tenantId ''xtech'') k = None" "distinct (map n_id (d_nodes two_approvals))"
  "find_node (d_nodes two_approvals) ''a'' = Some (nd ''a'' NApproval)"
  "get_prop (assignment_of head_node) ''selectorType'' = JStr ''ORG_UNIT_HEAD''"
  "nullish (get_prop (assignment_of head_node) ''orgUnitId'')" "json_strs (get_prop (assignment_of head_node) ''fallback'') = []"
  by code_simp+

lemma created_eq: "created = Inr (r1, db1)"
  and db1_facts: "tasks db1 \<noteq> []" "map t_id (tasks db1) = [''id1'', ''id2'']" "inst_by_id db1 (t_inst task1) = Some inst1"
    "getWorkflow db1 ''xtech'' (i_workflow inst1) = Inr two_approvals" "rs_inst r1 = inst1" "i_current (rs_inst r1) = Some ''a''"
    "open_at db1 (i_id inst1) ''a'' = 1" "open_at db1 (i_id inst1) ''b'' = 1" "resting inst1 = [''a'', ''b'']"
    "findIdempotent db1 (tenantId ''xtech'') (e_key (resolveEnvelope demo_env db1 (Some ''k2'') None)) = None"
    "is_ok (listWorkItems ''xtech'' db1)"
    "map (wi_source \<circ> project_task) (filter (\<lambda>t. t_tenant t = tenantId ''xtech'' \<and> t_status t = TOpen) (tasks db1)) = [''id1'', ''id2'']"
  using run_ok [OF runs(1)] by (simp_all add: r1_def db1_def task1_def inst1_def Let_def)

lemma task1_id: "t_id task1 = ''id1''"
  using db1_facts(1,2) by (cases "tasks db1") (simp_all add: task1_def)

lemma parallel_facts:
  "tfind (\<lambda>t. t_id t = ''id1'' \<and> t_tenant t = tenantId ''xtech'') (tasks db1) = Some (hd (tasks db1))"
  "tfind (\<lambda>t. t_id t = ''id2'' \<and> t_tenant t = tenantId ''xtech'') (tasks db1) = Some (tasks db1 ! 1)"
  "t_inst (tasks db1 ! 1) = t_inst (hd (tasks db1))"
  "findIdempotent db1 (tenantId ''xtech'') (e_key (resolveEnvelope demo_env db1 (Some ''k3'') None)) = None"
  "t_status (tasks db1 ! 1) = TOpen"
  "case advance_from demo_cfg two_approvals inst1 (t_node (tasks db1 ! 1)) of Inl _ \<Rightarrow> False
   | Inr tk \<Rightarrow> calls tk = [] \<and> subflows tk = [] \<and> externals tk = []"
  "authorize db1 demo_env (tenantId ''xtech'') (tasks db1 ! 1) ''boss'' = Inr None"
  using run_ok [OF runs(3)] by (simp_all add: db1_def inst1_def Let_def)

lemma approved_eq: "approved = Inr (r2, db2)"
  and r2_running: "i_status (rs_inst r2) = Running"
  using run_ok [OF runs(2)] by (simp_all add: r2_def db2_def)

lemma refused_eq: "refused = Inr (fst (projr refused), db3)"
  and db3_facts: "i_status (hd (instances db3)) = Rejected"
    "tfind (\<lambda>t. t_id t = ''id2'' \<and> t_tenant t = tenantId ''xtech'') (tasks db3) = Some (tasks db3 ! 1)"
    "inst_by_id db3 (t_inst (tasks db3 ! 1)) = Some (hd (instances db3))"
    "findIdempotent db3 (tenantId ''xtech'') (e_key (resolveEnvelope demo_env db3 (Some ''k4'') None)) = None"
  using run_ok [OF runs(4)] by (simp_all add: db3_def Let_def)

lemma revived_eq: "revived = Inr (fst (projr revived), snd (projr revived))"
  by (rule ok_pair) (rule runs)

lemma first_call_eq: "first_call = Inr (fst (projr first_call), snd (projr first_call))"
  and first_command: "map c_status (commands (snd (projr first_call))) = [CmdManualPending]"
  using run_ok [OF runs(7)] by simp_all

lemma replay_changes_nothing_witness:
  "createRequest lex_le demo_cfg demo_env ''xtech'' ''OTHER'' ''mallory'' (JObj []) (Some ''k1'') None db2 = Inr (r1, db2)"
proof (rule replay_changes_nothing [THEN conjunct1])
  show "createRequest lex_le demo_cfg demo_env ''xtech'' ''W'' ''an'' (JObj []) (Some ''k1'') None (demo_db two_approvals) =
      Inr (r1, db1) \<or>
    actOnTask lex_le demo_cfg demo_env ''xtech'' [] ''an'' Approve (Some ''k1'') None (demo_db two_approvals) = Inr (r1, db1)"
    using created_eq by (simp add: created_def)
  show "trim ''k1'' \<noteq> []" by (rule runs)
  show "(x_step lex_le demo_cfg (\<lambda>_. []))\<^sup>*\<^sup>* db1 db2"
    using approved_eq [unfolded approved_def] by (intro r_into_rtranclp xs_act)
qed

lemma decision_authorised_witness:
  "\<exists>t \<in> set (tasks db1). t_id t = ''id1'' \<and> t_status t = TOpen"
  using decision_authorised [OF approved_eq [unfolded approved_def] db1_facts(10)] by blast

lemma request_tokens_match_witness: "tokens_match db1 two_approvals (rs_inst r1)"
  by (rule request_tokens_match [THEN conjunct1, OF created_eq [unfolded created_def] runs(12,10)])
    (simp_all add: demo_db_def inst_by_id_def)

lemma db1_match: "tokens_match db1 two_approvals inst1"
  using db1_facts(7-9)
  by (auto simp: tokens_match_def two_approvals_def by_id_def nd_def stop_type_def table_simps split: if_splits)

lemma approval_tokens_match_witness:
  "tokens_match db2 two_approvals (rs_inst r2) \<and> i_status (rs_inst r2) = Running"
proof -
  have "distinct (map t_id (tasks db1))" using db1_facts(2) by simp
  moreover have "task1 \<in> set (tasks db1)" using db1_facts(1) by (simp add: task1_def)
  ultimately have "tokens_match db2 two_approvals (rs_inst r2)"
    using approval_tokens_match [OF approved_eq [unfolded approved_def] db1_facts(10) _ _ task1_id db1_facts(3,4) db1_match] by blast
  then show ?thesis by (simp add: r2_running)
qed

lemma approval_unrejects_witness:
  "i_status (hd (instances db3)) = Rejected \<and> i_status (rs_inst (fst (projr revived))) \<noteq> Rejected"
proof -
  obtain tk where tk: "advance_from demo_cfg two_approvals inst1 (t_node (tasks db1 ! 1)) = Inr tk" "calls tk = []" "subflows tk = []" "externals tk = []"
    using parallel_facts(6) by (auto split: sum.splits)
  have inst: "inst_by_id db1 (t_inst (tasks db1 ! 1)) = Some inst1" using db1_facts(3) parallel_facts(3) by (simp add: task1_def)
  note un = approval_unrejects [OF refused_eq [unfolded refused_def] parallel_facts(4,1,2) _ parallel_facts(5,3) inst db1_facts(4) parallel_facts(7) db3_facts(4) tk]
  have "i_status (rs_inst (fst (projr revived))) \<noteq> Rejected"
    using un revived_eq [unfolded revived_def] by (auto simp: revived_def split: if_splits)
  with db3_facts(1) show ?thesis by blast
qed

subsection \<open>An external action\<close>

text \<open>
  The reference of one request completes the command of another: the command that waits is
  looked up by tenant and node only. After two requests of the same workflow, entering the
  reference for the external action of the first marks the command of the second as completed
  with that reference, while the command of the first still waits.
\<close>
theorem reference_hits_other_instance:
  "\<exists>e oi x'. enterExternalReference lex_le demo_cfg demo_env ''xtech'' ''id1'' ''an'' (Some '' MR-7 '') None db6 = Inr (e, oi, x') \<and>
     x_instCode e = i_code (instances db6 ! 0) \<and> x_status e = XCompleted \<and>
     map (\<lambda>r. (c_inst r, c_status r)) (commands x') =
       [(i_id (instances db6 ! 0), CmdManualPending), (i_id (instances db6 ! 1), CmdManualCompleted)]"
  using run_ok [OF runs(8)] unfolding db6_def [symmetric] by (fastforce split: sum.splits)

lemma external_references_real_witness:
  "map c_status (commands (snd (projr first_call))) = [CmdManualPending] \<and>
   c_sref (hd (commands (snd (projr first_call)))) = None"
proof
  show st: "map c_status (commands (snd (projr first_call))) = [CmdManualPending]" by (rule first_command)
  have "\<forall>r \<in> set (commands (snd (projr first_call))). c_status r = CmdManualPending \<longrightarrow> c_sref r = None \<and> c_result r = JNull"
  proof (rule external_references_real [THEN conjunct1])
    show "(x_step lex_le demo_cfg (\<lambda>_. []))\<^sup>*\<^sup>* (demo_db external_flow) (snd (projr first_call))"
      using first_call_eq [unfolded first_call_def] unfolding first_call_def by (intro r_into_rtranclp xs_create)
  qed (simp_all add: demo_db_def)
  with st show "c_sref (hd (commands (snd (projr first_call)))) = None"
    by (cases "commands (snd (projr first_call))") auto
qed

lemma sweep_settles_witness:
  "sw_escalations (fst (projr swept1)) = 2 \<and>
   sw_escalations (fst (projr (runSchedulerSweep demo_cfg late_env (plain_opts None) (snd (projr swept1))))) = 0"
proof
  let ?again = "runSchedulerSweep demo_cfg late_env (plain_opts None) (snd (projr swept1))"
  show "sw_escalations (fst (projr swept1)) = 2" using run_ok [OF runs(6)] by simp
  have first: "runSchedulerSweep demo_cfg late_env (plain_opts None) db1 = Inr (fst (projr swept1), snd (projr swept1))"
    using run_ok [OF runs(6)] unfolding swept1_def [symmetric] by simp
  have "is_ok ?again" using run_ok [OF runs(6)] by simp
  then have again: "?again = Inr (fst (projr ?again), snd (projr ?again))" by (rule ok_pair)
  from sweep_settles [OF first _ again] db1_facts(2)
  show "sw_escalations (fst (projr ?again)) = 0" by simp
qed

lemma work_items_exact_witness:
  "map wi_source (fst (projr (listWorkItems ''xtech'' db1))) = [''id1'', ''id2'']"
proof -
  let ?r = "listWorkItems ''xtech'' db1"
  have "?r = Inr (fst (projr ?r), snd (projr ?r))" by (rule ok_pair) (rule db1_facts)
  from work_items_exact [OF this]
  have "fst (projr ?r) = map project_task (filter (\<lambda>t. t_tenant t = tenantId ''xtech'' \<and> t_status t = TOpen) (tasks db1))"
    by blast
  then show ?thesis using db1_facts(12) by simp
qed

lemma publish_appends_version_witness:
  "\<exists>w'. wf_lookup (snd (projr (publish (\<lambda>_. ''h'') demo_env ''xtech'' ''W'' chain (demo_db two_approvals)))) (tenantId ''xtech'') ''W'' =
     Some w' \<and> wf_working w' = chain"
proof -
  let ?r = "publish (\<lambda>_. ''h'') demo_env ''xtech'' ''W'' chain (demo_db two_approvals)"
  have "?r = Inr (fst (projr ?r), snd (projr ?r))" by (rule ok_pair) (rule runs)
  moreover have "wf_lookup (demo_db two_approvals) (tenantId ''xtech'') ''W'' =
      Some \<lparr>wf_tenant = tenantId ''xtech'', wf_code = ''W'', wf_working = two_approvals, wf_versions = []\<rparr>"
    by (simp add: demo_db_def wf_lookup_def tfind_def)
  ultimately show ?thesis using publish_appends_version by blast
qed

lemma request_never_on_timer_witness: "n_type (nd ''a'' NApproval) \<noteq> NTimer"
  by (rule request_never_on_timer [OF created_eq [unfolded created_def] runs(12,10,13) db1_facts(6) runs(14)])

lemma org_unit_from_ignored_witness:
  "fst (resolveStructuredAssignee lex_le (tenantId ''xtech'') ''R1'' head_node (demo_db chain)) = None"
  by (rule org_unit_from_ignored) (rule runs)+

end
