(* ===== verification/Records.thy ===== *)
theory Records
  imports Assignment_Resolver "HOL-Library.Word"
begin

section \<open>Documents and the store of the office modules\<close>

text \<open>
  xhub-api/src/records: documents with append-only, content-addressed versions
  (records.service.ts, storage.service.ts, the tag guard of common/document-guards.ts). The state
  \<open>odb\<close> is the part of the database every office module uses (documents, resolutions, audit, the
  organisation, the identifiers issued so far) with the files of the storage directory; the
  modules extend it with their own tables. Digest and encodings are those of the runtime
  (\<open>node:crypto\<close>, \<open>Buffer\<close>) and are parameters.
\<close>

subsection \<open>State\<close>

type_synonym bytes = "8 word list"

record codec =
  c_sha256 :: "bytes \<Rightarrow> string"
  c_utf8 :: "string \<Rightarrow> bytes"
  c_from64 :: "string \<Rightarrow> bytes"
  c_to64 :: "bytes \<Rightarrow> string"

record doc_row =
  dr_id :: string
  dr_tenant :: string
  dr_kind :: string
  dr_title :: string
  dr_owner :: "string option"
  dr_subjectType :: "string option"
  dr_subjectId :: "string option"
  dr_current :: "string option"
  dr_tags :: "string list"

record doc_version =
  dv_id :: string
  dv_tenant :: string
  dv_doc :: string
  dv_no :: nat
  dv_hash :: string
  dv_size :: nat
  dv_mime :: string
  dv_key :: string
  dv_by :: "string option"

record odb =
  o_docs :: "doc_row list"
  o_versions :: "doc_version list"
  o_files :: "(string \<times> bytes) list"
  o_res :: "resolution list"
  o_audit :: "audit_row list"
  o_org :: idb
  o_seq :: nat

definition oid :: "env \<Rightarrow> 'a odb_scheme \<Rightarrow> string" where
  "oid v x = cuid v (o_seq x)"

text \<open>A file of the storage directory; the newest write of a key is the one read.\<close>

definition file_at :: "'a odb_scheme \<Rightarrow> string \<Rightarrow> bytes option" where
  "file_at x k = map_of (o_files x) k"

definition log_audit :: "string \<Rightarrow> string \<Rightarrow> string \<Rightarrow> string \<Rightarrow> 'a odb_scheme \<Rightarrow> 'a odb_scheme" where
  "log_audit tenant actor code action x = x\<lparr>o_audit := o_audit x @ [mk_audit tenant actor code action]\<rparr>"

subsection \<open>Bodies\<close>

record content_in =
  ci_text :: "string option"
  ci_base64 :: "string option"
  ci_mime :: "string option"

record doc_in =
  di_kind :: "string option"
  di_title :: string
  di_subjectType :: "string option"
  di_subjectId :: "string option"
  di_tags :: "string list"
  di_content :: content_in

text \<open>\<open>SECRET_FIELD_REGEX\<close>, a case-insensitive search for one of a few words.\<close>

definition secret_words :: "string list" where
  "secret_words = [''password'', ''secret'', ''token'', ''apikey'', ''api_key'', ''api-key'', ''credential'',
     ''privatekey'', ''private_key'', ''private-key'']"

definition SECRET_FIELD_REGEX :: "string \<Rightarrow> bool" where
  "SECRET_FIELD_REGEX s = (\<exists>w \<in> set secret_words. includes_str w (to_lower s))"

text \<open>
  \<open>guardMetadata\<close>: the scan of the field names runs over the six fixed names of the metadata
  object, the scan of the values over the tags.
\<close>

definition meta_fields :: "string list" where
  "meta_fields = [''kind'', ''title'', ''subjectType'', ''subjectId'', ''tags'', ''mimeType'']"

definition guardMetadata :: "string list \<Rightarrow> unit res" where
  "guardMetadata tags =
     (if \<exists>k \<in> set meta_fields. SECRET_FIELD_REGEX k then Inl TypeErr
      else if \<exists>t \<in> set tags. SECRET_FIELD_REGEX t then Inl (BadRequest ''MUST_NOT_LEAK: secret-like tag rejected'')
      else Inr ())"

definition toBuffer :: "codec \<Rightarrow> content_in \<Rightarrow> bytes res" where
  "toBuffer c b =
     (case ci_base64 b of Some s \<Rightarrow> Inr (c_from64 c s)
      | None \<Rightarrow> (case ci_text b of Some s \<Rightarrow> Inr (c_utf8 c s)
                 | None \<Rightarrow> Inl (BadRequest ''content or contentBase64 is required'')))"

subsection \<open>Operations\<close>

definition storageKey :: "string \<Rightarrow> string \<Rightarrow> nat \<Rightarrow> string" where
  "storageKey tenant d n = ''storage/documents/'' @ tenant @ ''/'' @ d @ ''/'' @ show_nat n"

definition versions_of :: "'a odb_scheme \<Rightarrow> string \<Rightarrow> string \<Rightarrow> doc_version list" where
  "versions_of x tenant d = filter (\<lambda>v. dv_tenant v = tenant \<and> dv_doc v = d) (o_versions x)"

definition last_version :: "'a odb_scheme \<Rightarrow> string \<Rightarrow> string \<Rightarrow> nat" where
  "last_version x tenant d = foldr max (map dv_no (versions_of x tenant d)) 0"

definition same_content :: "'a odb_scheme \<Rightarrow> string \<Rightarrow> string \<Rightarrow> string \<Rightarrow> doc_version option" where
  "same_content x tenant d h =
     (case sort_key dv_no (filter (\<lambda>v. dv_hash v = h) (versions_of x tenant d)) of
        [] \<Rightarrow> None | v # _ \<Rightarrow> Some v)"

definition appendVersion ::
  "codec \<Rightarrow> env \<Rightarrow> string \<Rightarrow> string option \<Rightarrow> string \<Rightarrow> content_in \<Rightarrow> 'a odb_scheme \<Rightarrow>
   (doc_version \<times> 'a odb_scheme) res" where
  "appendVersion c v tenant actor d body x =
     (case toBuffer c body of Inl e \<Rightarrow> Inl e
      | Inr content \<Rightarrow>
          (let h = c_sha256 c content;
               n = last_version x tenant d + 1;
               dup = same_content x tenant d h;
               key = (case dup of Some w \<Rightarrow> dv_key w | None \<Rightarrow> storageKey tenant d n);
               files = (case dup of Some w \<Rightarrow> o_files x | None \<Rightarrow> (key, content) # o_files x);
               row = \<lparr>dv_id = oid v x, dv_tenant = tenant, dv_doc = d, dv_no = n, dv_hash = h,
                      dv_size = length content, dv_mime = coalesce (ci_mime body) ''application/octet-stream'',
                      dv_key = key, dv_by = actor\<rparr>
           in Inr (row, x\<lparr>o_files := files, o_versions := o_versions x @ [row],
                o_docs := tupd (\<lambda>r. dr_id r = d) (\<lambda>r. r\<lparr>dr_current := Some (dv_id row)\<rparr>) (o_docs x),
                o_seq := Suc (o_seq x)\<rparr>)))"

definition new_doc :: "env \<Rightarrow> string \<Rightarrow> string option \<Rightarrow> doc_in \<Rightarrow> 'a odb_scheme \<Rightarrow> doc_row" where
  "new_doc v tenant actor b x =
     \<lparr>dr_id = oid v x, dr_tenant = tenant, dr_kind = coalesce (di_kind b) ''GENERIC'', dr_title = di_title b,
      dr_owner = actor, dr_subjectType = di_subjectType b, dr_subjectId = di_subjectId b,
      dr_current = None, dr_tags = di_tags b\<rparr>"

definition createDocument ::
  "codec \<Rightarrow> env \<Rightarrow> string \<Rightarrow> string option \<Rightarrow> doc_in \<Rightarrow> 'a odb_scheme \<Rightarrow>
   (string \<times> doc_version \<times> 'a odb_scheme) res" where
  "createDocument c v tenant actor b x =
     (if di_title b = [] then Inl (BadRequest ''title is required'')
      else case guardMetadata (di_tags b) of Inl e \<Rightarrow> Inl e
      | Inr _ \<Rightarrow>
          (case appendVersion c v tenant actor (oid v x) (di_content b)
                  (x\<lparr>o_docs := o_docs x @ [new_doc v tenant actor b x], o_seq := Suc (o_seq x)\<rparr>) of
             Inl e \<Rightarrow> Inl e
           | Inr (row, x2) \<Rightarrow> Inr (oid v x, row, x2)))"

definition doc_by_id :: "'a odb_scheme \<Rightarrow> string \<Rightarrow> string \<Rightarrow> doc_row option" where
  "doc_by_id x tenant d = tfind (\<lambda>r. dr_id r = d \<and> dr_tenant r = tenant) (o_docs x)"

definition addVersion ::
  "codec \<Rightarrow> env \<Rightarrow> string \<Rightarrow> string option \<Rightarrow> string \<Rightarrow> content_in \<Rightarrow> 'a odb_scheme \<Rightarrow>
   (doc_version \<times> 'a odb_scheme) res" where
  "addVersion c v tenant actor d body x =
     (case doc_by_id x tenant d of None \<Rightarrow> Inl (NotFound ''document not found'')
      | Some _ \<Rightarrow> appendVersion c v tenant actor d body x)"

definition listDocuments ::
  "string \<Rightarrow> string option \<Rightarrow> string option \<Rightarrow> string option \<Rightarrow> 'a odb_scheme \<Rightarrow> (doc_row \<times> nat) list" where
  "listDocuments tenant kind st sid x =
     map (\<lambda>d. (d, length (filter (\<lambda>w. dv_doc w = dr_id d) (o_versions x))))
       (rev (filter (\<lambda>d. dr_tenant d = tenant \<and> (truthy_str kind \<longrightarrow> Some (dr_kind d) = kind) \<and>
          (truthy_str st \<longrightarrow> dr_subjectType d = st) \<and> (truthy_str sid \<longrightarrow> dr_subjectId d = sid)) (o_docs x)))"

definition getDocument :: "string \<Rightarrow> string \<Rightarrow> 'a odb_scheme \<Rightarrow> (doc_row \<times> doc_version list) res" where
  "getDocument tenant d x =
     (case doc_by_id x tenant d of None \<Rightarrow> Inl (NotFound ''document not found'')
      | Some r \<Rightarrow> Inr (r, sort_key dv_no (versions_of x tenant d)))"

definition getVersionContent :: "codec \<Rightarrow> string \<Rightarrow> string \<Rightarrow> nat \<Rightarrow> 'a odb_scheme \<Rightarrow> (doc_version \<times> string) res" where
  "getVersionContent c tenant d n x =
     (case tfind (\<lambda>w. dv_tenant w = tenant \<and> dv_doc w = d \<and> dv_no w = n) (o_versions x) of
        None \<Rightarrow> Inl (NotFound ''version not found'')
      | Some w \<Rightarrow> (case file_at x (dv_key w) of
                     None \<Rightarrow> Inl TypeErr
                   | Some b \<Rightarrow> Inr (w, c_to64 c b)))"


subsection \<open>Storage keys\<close>

text \<open>Reading a decimal numeral back.\<close>

definition read_nat :: "string \<Rightarrow> nat" where
  "read_nat s = foldl (\<lambda>acc c. acc * 10 + (of_char c - 48)) 0 s"

lemma digit36_decimal: "d < 10 \<Longrightarrow> of_char (digit36 d) = 48 + d"
  by (simp add: digit36_def)

lemma read_show_nat: "read_nat (show_nat n) = n"
proof -
  have "read_nat (show_base 10 n) = n"
  proof (induction n rule: less_induct)
    case (less n)
    show ?case
    proof (cases "n < 10")
      case True
      then show ?thesis by (simp add: show_base.simps [of 10 n] read_nat_def digit36_decimal)
    next
      case False
      then have "n div 10 < n" by simp
      from less [OF this] False show ?thesis
        by (simp add: show_base.simps [of 10 n] read_nat_def digit36_decimal)
    qed
  qed
  then show ?thesis by (simp add: show_nat_def)
qed

lemma digit36_no_slash: "d < 10 \<Longrightarrow> digit36 d \<noteq> CHR ''/''"
proof
  assume "d < 10" "digit36 d = CHR ''/''"
  then have "of_char (CHR ''/'') = 48 + d" using digit36_decimal by metis
  then show False by simp
qed

lemma show_nat_no_slash: "CHR ''/'' \<notin> set (show_nat n)"
proof -
  have "CHR ''/'' \<notin> set (show_base 10 n)"
  proof (induction n rule: less_induct)
    case (less n)
    show ?case
    proof (cases "n < 10")
      case True
      then show ?thesis using digit36_no_slash [of n] by (simp add: show_base.simps [of 10 n])
    next
      case False
      then have "n div 10 < n" by simp
      from less [OF this] False digit36_no_slash [of "n mod 10"] show ?thesis
        by (simp add: show_base.simps [of 10 n])
    qed
  qed
  then show ?thesis by (simp add: show_nat_def)
qed

lemma split_last_slash:
  assumes "a @ CHR ''/'' # b = a' @ CHR ''/'' # b'" "CHR ''/'' \<notin> set b" "CHR ''/'' \<notin> set b'"
  shows "a = a' \<and> b = b'"
proof -
  have cut: "takeWhile (\<lambda>c. c \<noteq> CHR ''/'') (rev (x @ CHR ''/'' # y)) = rev y"
    if "CHR ''/'' \<notin> set y" for x y :: string
    using that by (simp add: takeWhile_append takeWhile_eq_all_conv [THEN iffD2])
  from assms have "rev b = rev b'" by (metis cut)
  with assms(1) show ?thesis by simp
qed

lemma storageKey_inj:
  assumes "storageKey t d n = storageKey t' d' n'" "CHR ''/'' \<notin> set d" "CHR ''/'' \<notin> set d'"
  shows "t = t' \<and> d = d' \<and> n = n'"
proof -
  from assms(1) have "(t @ ''/'' @ d) @ CHR ''/'' # show_nat n = (t' @ ''/'' @ d') @ CHR ''/'' # show_nat n'"
    by (simp add: storageKey_def)
  from split_last_slash [OF this show_nat_no_slash show_nat_no_slash]
  have "t @ CHR ''/'' # d = t' @ CHR ''/'' # d'" "show_nat n = show_nat n'" by simp_all
  moreover from split_last_slash [OF this(1) assms(2,3)] have "t = t' \<and> d = d'" .
  ultimately show ?thesis using read_show_nat by metis
qed

subsection \<open>Versions are append-only and numbered\<close>

definition numbered :: "'a odb_scheme \<Rightarrow> bool" where
  "numbered x = (\<forall>t d. map dv_no (versions_of x t d) = [1..<Suc (length (versions_of x t d))])"

text \<open>Every version's bytes are where its key says, with the recorded digest.\<close>

definition stored :: "codec \<Rightarrow> 'a odb_scheme \<Rightarrow> bool" where
  "stored c x = (\<forall>w \<in> set (o_versions x). CHR ''/'' \<notin> set (dv_doc w) \<and>
     (\<exists>n b. n \<le> dv_no w \<and> dv_key w = storageKey (dv_tenant w) (dv_doc w) n \<and>
        file_at x (dv_key w) = Some b \<and> c_sha256 c b = dv_hash w))"

definition rec_ok :: "codec \<Rightarrow> 'a odb_scheme \<Rightarrow> bool" where
  "rec_ok c x \<longleftrightarrow> numbered x \<and> stored c x \<and> (\<forall>r \<in> set (o_docs x). CHR ''/'' \<notin> set (dr_id r))"

text \<open>What later writes keep of earlier versions.\<close>

definition keeps :: "'a odb_scheme \<Rightarrow> 'b odb_scheme \<Rightarrow> bool" where
  "keeps x y \<longleftrightarrow> (\<exists>ws. o_versions y = o_versions x @ ws) \<and>
     (\<forall>w \<in> set (o_versions x). file_at y (dv_key w) = file_at x (dv_key w))"

lemma keeps_refl: "keeps x x"
  by (simp add: keeps_def)

lemma keeps_trans: "keeps x y \<Longrightarrow> keeps y z \<Longrightarrow> keeps x z"
  unfolding keeps_def by (elim conjE exE) simp

lemma last_version_ge: "w \<in> set (versions_of x t d) \<Longrightarrow> dv_no w \<le> last_version x t d"
proof -
  have "v \<in> set vs \<Longrightarrow> v \<le> foldr max vs (0 :: nat)" for v vs by (induction vs) auto
  then show "w \<in> set (versions_of x t d) \<Longrightarrow> ?thesis" by (simp add: last_version_def)
qed

lemma foldr_max_upt: "foldr max [1..<Suc n] 0 = (n :: nat)"
proof -
  have "foldr max [1..<Suc n] a = max n a" for a :: nat by (induction n arbitrary: a) auto
  then show ?thesis by simp
qed

lemma last_version_length: "numbered x \<Longrightarrow> last_version x t d = length (versions_of x t d)"
  unfolding numbered_def last_version_def using foldr_max_upt by metis

lemma same_contentD:
  assumes "same_content x t d h = Some w"
  shows "w \<in> set (o_versions x)" "dv_tenant w = t" "dv_doc w = d" "dv_hash w = h"
proof -
  from assms obtain ws where "sort_key dv_no (filter (\<lambda>v. dv_hash v = h) (versions_of x t d)) = w # ws"
    by (auto simp: same_content_def split: list.splits)
  then have "w \<in> set (sort_key dv_no (filter (\<lambda>v. dv_hash v = h) (versions_of x t d)))" by simp
  then show "w \<in> set (o_versions x)" "dv_tenant w = t" "dv_doc w = d" "dv_hash w = h"
    by (auto simp: versions_of_def)
qed


text \<open>Taking \<open>appendVersion\<close> apart.\<close>

lemma appendVersionE:
  assumes "appendVersion c v t a d body x = Inr (row, y)"
  obtains b where "toBuffer c body = Inr b" "o_versions y = o_versions x @ [row]"
    "dv_tenant row = t" "dv_doc row = d" "dv_no row = last_version x t d + 1" "dv_hash row = c_sha256 c b"
    "dv_size row = length b" "map dr_id (o_docs y) = map dr_id (o_docs x)"
    "(\<exists>w. same_content x t d (c_sha256 c b) = Some w \<and> dv_key row = dv_key w \<and> o_files y = o_files x) \<or>
     (dv_key row = storageKey t d (last_version x t d + 1) \<and>
      o_files y = (storageKey t d (last_version x t d + 1), b) # o_files x)"
proof -
  from assms obtain b where b: "toBuffer c body = Inr b"
    by (auto simp: appendVersion_def split: sum.splits)
  have ids: "map dr_id (tupd (\<lambda>r. dr_id r = d) (\<lambda>r. r\<lparr>dr_current := q\<rparr>) rs) = map dr_id rs" for q rs
    by (rule map_tupd_frame) simp
  show ?thesis
  proof (cases "same_content x t d (c_sha256 c b)")
    case None
    with assms b ids show ?thesis by (intro that [of b]) (auto simp: appendVersion_def Let_def)
  next
    case (Some w)
    with assms b ids show ?thesis by (intro that [of b]) (auto simp: appendVersion_def Let_def)
  qed
qed

lemma versions_of_snoc:
  "o_versions y = o_versions x @ [row] \<Longrightarrow>
   versions_of y t d = versions_of x t d @ (if dv_tenant row = t \<and> dv_doc row = d then [row] else [])"
  by (simp add: versions_of_def)

lemma numbered_snoc:
  assumes "numbered x" "o_versions y = o_versions x @ [row]"
    "dv_no row = last_version x (dv_tenant row) (dv_doc row) + 1"
  shows "numbered y"
proof -
  have "map dv_no (versions_of y t d) = [1..<Suc (length (versions_of y t d))]" for t d
  proof (cases "dv_tenant row = t \<and> dv_doc row = d")
    case True
    then have "versions_of y t d = versions_of x t d @ [row]" using versions_of_snoc [OF assms(2)] by simp
    moreover have "map dv_no (versions_of x t d) = [1..<Suc (length (versions_of x t d))]"
      using assms(1) by (simp add: numbered_def)
    moreover have "dv_no row = Suc (length (versions_of x t d))"
      using assms(3) True last_version_length [OF assms(1)] by simp
    ultimately show ?thesis by simp
  next
    case False
    then have "versions_of y t d = versions_of x t d" using versions_of_snoc [OF assms(2)] by simp
    then show ?thesis using assms(1) by (simp add: numbered_def)
  qed
  then show ?thesis by (simp add: numbered_def)
qed

text \<open>A new key is no earlier key: its number exceeds all of the document.\<close>

lemma new_key_fresh:
  assumes "stored c x" "w \<in> set (o_versions x)" "CHR ''/'' \<notin> set d"
  shows "dv_key w \<noteq> storageKey t d (last_version x t d + 1)"
proof
  assume eq: "dv_key w = storageKey t d (last_version x t d + 1)"
  from assms(1,2) obtain n where n: "n \<le> dv_no w" "dv_key w = storageKey (dv_tenant w) (dv_doc w) n"
    and "CHR ''/'' \<notin> set (dv_doc w)"
    by (auto simp: stored_def)
  from storageKey_inj [OF _ this(3) assms(3), of "dv_tenant w" n t "last_version x t d + 1"] eq n(2)
  have "dv_tenant w = t" "dv_doc w = d" "n = last_version x t d + 1" by simp_all
  moreover from this assms(2) have "dv_no w \<le> last_version x t d"
    by (intro last_version_ge) (simp add: versions_of_def)
  ultimately show False using n(1) by simp
qed

lemma appendVersion_stored:
  assumes app: "appendVersion c v t a d body x = Inr (row, y)" and st: "stored c x" and d: "CHR ''/'' \<notin> set d"
  shows "stored c y \<and> keeps x y"
  using app
proof (rule appendVersionE)
  fix b
  assume r: "o_versions y = o_versions x @ [row]" "dv_tenant row = t" "dv_doc row = d"
    "dv_no row = last_version x t d + 1" "dv_hash row = c_sha256 c b" "dv_size row = length b"
  assume "(\<exists>w. same_content x t d (c_sha256 c b) = Some w \<and> dv_key row = dv_key w \<and> o_files y = o_files x) \<or>
     (dv_key row = storageKey t d (last_version x t d + 1) \<and>
      o_files y = (storageKey t d (last_version x t d + 1), b) # o_files x)"
  then show ?thesis
  proof (elim disjE exE conjE)
    fix w
    assume w: "same_content x t d (c_sha256 c b) = Some w" "dv_key row = dv_key w" "o_files y = o_files x"
    note sw = same_contentD [OF w(1)]
    have "dv_no w \<le> last_version x t d"
      by (rule last_version_ge) (use sw in \<open>simp add: versions_of_def\<close>)
    moreover from st sw(1) obtain n bw where "n \<le> dv_no w" "dv_key w = storageKey t d n"
        "file_at x (dv_key w) = Some bw" "c_sha256 c bw = dv_hash w"
      unfolding stored_def using sw(2,3) by metis
    ultimately have "\<exists>n bw. n \<le> dv_no row \<and> dv_key row = storageKey (dv_tenant row) (dv_doc row) n \<and>
        file_at y (dv_key row) = Some bw \<and> c_sha256 c bw = dv_hash row"
      using r w sw(4) by (intro exI [of _ n] exI [of _ bw]) (simp add: file_at_def)
    with st w r d show ?thesis by (simp add: stored_def keeps_def file_at_def)
  next
    assume k: "dv_key row = storageKey t d (last_version x t d + 1)"
      "o_files y = (storageKey t d (last_version x t d + 1), b) # o_files x"
    have same: "file_at y (dv_key w) = file_at x (dv_key w)" if "w \<in> set (o_versions x)" for w
      using new_key_fresh [OF st that d] k(2) by (simp add: file_at_def)
    have "\<exists>n bw. n \<le> dv_no row \<and> dv_key row = storageKey (dv_tenant row) (dv_doc row) n \<and>
        file_at y (dv_key row) = Some bw \<and> c_sha256 c bw = dv_hash row"
      using r k by (intro exI [of _ "dv_no row"] exI [of _ b]) (simp add: file_at_def)
    with st same r d show ?thesis by (simp add: stored_def keeps_def)
  qed
qed


lemma appendVersion_ok:
  assumes app: "appendVersion c v t a d body x = Inr (row, y)" and ok: "rec_ok c x" and d: "CHR ''/'' \<notin> set d"
  shows "rec_ok c y \<and> keeps x y"
proof -
  from ok have st: "stored c x" and nx: "numbered x" and ids: "\<forall>r \<in> set (o_docs x). CHR ''/'' \<notin> set (dr_id r)"
    by (simp_all add: rec_ok_def)
  from app have "numbered y \<and> dr_id ` set (o_docs y) = dr_id ` set (o_docs x)"
    by (rule appendVersionE) (metis numbered_snoc [OF nx] image_set)
  with appendVersion_stored [OF app st d] ids show ?thesis
    unfolding rec_ok_def by (metis (no_types, lifting) image_iff)
qed

lemma appendVersion_bytes:
  assumes app: "appendVersion c v t a d body x = Inr (row, y)" and ok: "rec_ok c x" and d: "CHR ''/'' \<notin> set d"
    and b: "toBuffer c body = Inr b"
  shows "\<exists>b'. file_at y (dv_key row) = Some b' \<and> c_sha256 c b' = c_sha256 c b"
proof -
  from app b have "row \<in> set (o_versions y)" "dv_hash row = c_sha256 c b" by (auto elim!: appendVersionE)
  with appendVersion_ok [OF app ok d] show ?thesis unfolding rec_ok_def stored_def by metis
qed

subsection \<open>Sequences of document operations\<close>

inductive rec_step :: "codec \<Rightarrow> odb \<Rightarrow> odb \<Rightarrow> bool" for c where
  rs_create: "createDocument c v t a b x = Inr (d, row, y) \<Longrightarrow> CHR ''/'' \<notin> set (oid v x) \<Longrightarrow> rec_step c x y"
| rs_add: "addVersion c v t a d body x = Inr (row, y) \<Longrightarrow> rec_step c x y"

lemma addVersion_ok:
  assumes "addVersion c v t a d body x = Inr (row, y)" "rec_ok c x"
  shows "appendVersion c v t a d body x = Inr (row, y) \<and> CHR ''/'' \<notin> set d"
  using assms by (auto simp: addVersion_def doc_by_id_def rec_ok_def split: option.splits dest!: tfind_SomeD)

lemma numbered_cong: "o_versions y = o_versions x \<Longrightarrow> numbered x \<Longrightarrow> numbered y"
  unfolding numbered_def versions_of_def by simp

lemma stored_cong: "o_versions y = o_versions x \<Longrightarrow> o_files y = o_files x \<Longrightarrow> stored c x \<Longrightarrow> stored c y"
  unfolding stored_def file_at_def by simp

lemma createDocument_ok:
  assumes cr: "createDocument c v t a b x = Inr (d, row, y)" and ok: "rec_ok c x" and slash: "CHR ''/'' \<notin> set (oid v x)"
  shows "rec_ok c y \<and> keeps x y"
proof -
  let ?r = "new_doc v t a b x"
  let ?x1 = "x\<lparr>o_docs := o_docs x @ [?r], o_seq := Suc (o_seq x)\<rparr>"
  from cr have app: "appendVersion c v t a (oid v x) (di_content b) ?x1 = Inr (row, y)"
    by (auto simp: createDocument_def split: if_splits sum.splits)
  have "dr_id ?r = oid v x" by (simp add: new_doc_def)
  with ok slash have "rec_ok c ?x1"
    unfolding rec_ok_def using numbered_cong [of ?x1 x] stored_cong [of ?x1 x c] by auto
  from appendVersion_ok [OF app this slash] have "rec_ok c y" "keeps ?x1 y" by simp_all
  moreover have "keeps x ?x1" by (simp add: keeps_def file_at_def)
  ultimately show ?thesis using keeps_trans by blast
qed

lemma rec_step_ok: "rec_step c x y \<Longrightarrow> rec_ok c x \<Longrightarrow> rec_ok c y \<and> keeps x y"
proof (induction rule: rec_step.induct)
  case (rs_create v t a b x d row y)
  then show ?case using createDocument_ok by blast
next
  case (rs_add v t a d body x row y)
  then show ?case using addVersion_ok appendVersion_ok by blast
qed

lemma rec_steps_ok: "(rec_step c)\<^sup>*\<^sup>* x y \<Longrightarrow> rec_ok c x \<Longrightarrow> rec_ok c y \<and> keeps x y"
proof (induction rule: rtranclp_induct)
  case base
  then show ?case by (simp add: keeps_refl)
next
  case (step y z)
  then show ?case using rec_step_ok keeps_trans by blast
qed


subsection \<open>Properties\<close>

text \<open>
  C30. What was stored is what is read back: after content is added to a document, whatever
  documents and versions are created afterwards, reading that version returns the very bytes,
  provided no other content has the same SHA-256 digest.
\<close>
theorem content_roundtrip:
  assumes ok: "rec_ok c x" and add: "addVersion c v t a d body x = Inr (row, y)"
    and b: "toBuffer c body = Inr b" and collision_free: "\<And>b'. c_sha256 c b' = c_sha256 c b \<Longrightarrow> b' = b"
    and later: "(rec_step c)\<^sup>*\<^sup>* y z"
  shows "getVersionContent c t d (dv_no row) z = Inr (row, c_to64 c b)"
proof -
  from addVersion_ok [OF add ok] have app: "appendVersion c v t a d body x = Inr (row, y)"
    and d: "CHR ''/'' \<notin> set d" by simp_all
  let ?P = "\<lambda>w. dv_tenant w = t \<and> dv_doc w = d \<and> dv_no w = dv_no row"
  from app obtain r: "o_versions y = o_versions x @ [row]" "dv_tenant row = t" "dv_doc row = d"
      "dv_no row = last_version x t d + 1"
    by (rule appendVersionE)
  from appendVersion_ok [OF app ok d] have "rec_ok c y" by simp
  with rec_steps_ok [OF later] obtain ws where z: "o_versions z = o_versions y @ ws"
      "file_at z (dv_key row) = file_at y (dv_key row)"
    using r(1) by (auto simp: keeps_def)
  have "\<not> ?P w" if "w \<in> set (o_versions x)" for w
  proof
    assume "?P w"
    with that have "dv_no w \<le> last_version x t d" by (intro last_version_ge) (simp add: versions_of_def)
    with \<open>?P w\<close> r(4) show False by simp
  qed
  then have "tfind ?P (o_versions x) = None" by (simp add: tfind_None_iff)
  then have "tfind ?P (o_versions z) = Some row" by (simp add: z r table_simps)
  moreover from appendVersion_bytes [OF app ok d b] collision_free z(2)
  have "file_at z (dv_key row) = Some b" by metis
  ultimately show ?thesis by (simp add: getVersionContent_def)
qed

text \<open>
  Versions are immutable and numbered without gaps: any sequence of document operations only
  appends version rows, leaves the bytes of every earlier version as they are, and the versions of
  each document are numbered 1, 2, 3, and so on in the order they were added.
\<close>
theorem versions_append_only:
  assumes "rec_ok c x" "(rec_step c)\<^sup>*\<^sup>* x y"
  shows "(\<exists>ws. o_versions y = o_versions x @ ws) \<and>
    (\<forall>w \<in> set (o_versions x). file_at y (dv_key w) = file_at x (dv_key w)) \<and>
    (\<forall>t d. map dv_no (versions_of y t d) = [1..<Suc (length (versions_of y t d))])"
  using rec_steps_ok [OF assms(2,1)] unfolding keeps_def rec_ok_def numbered_def by blast

subsection \<open>An example\<close>

text \<open>Encodings that keep one byte per character; the digest of the example is the content itself.\<close>

definition byte_of :: "char \<Rightarrow> 8 word" where "byte_of ch = word_of_nat (of_char ch)"
definition char_of_byte :: "8 word \<Rightarrow> char" where "char_of_byte w = char_of (unat w)"

lemma char_of_byte_inj: "char_of_byte v = char_of_byte w \<Longrightarrow> v = w"
proof -
  have "unat w < 256" for w :: "8 word" using unsigned_less [of w] by simp
  then have "of_char (char_of_byte w) = unat w" for w by (simp add: char_of_byte_def)
  then show "char_of_byte v = char_of_byte w \<Longrightarrow> v = w" by (metis unsigned_word_eqI)
qed

definition demo_codec :: codec where
  "demo_codec = \<lparr>c_sha256 = map char_of_byte, c_utf8 = map byte_of, c_from64 = map byte_of, c_to64 = map char_of_byte\<rparr>"

definition empty_odb :: odb where
  "empty_odb = \<lparr>o_docs = [], o_versions = [], o_files = [], o_res = [], o_audit = [], o_org = empty_idb, o_seq = 0\<rparr>"

definition text_body :: "string \<Rightarrow> content_in" where
  "text_body s = \<lparr>ci_text = Some s, ci_base64 = None, ci_mime = None\<rparr>"

definition note_in :: doc_in where
  "note_in = \<lparr>di_kind = None, di_title = ''Note'', di_subjectType = None, di_subjectId = None, di_tags = [],
     di_content = text_body ''a''\<rparr>"

definition first_note :: "(string \<times> doc_version \<times> odb) res" where
  "first_note = createDocument demo_codec demo_env ''t1'' None note_in empty_odb"

definition with_note :: odb where "with_note = snd (snd (projr first_note))"

definition second_note :: "(doc_version \<times> odb) res" where
  "second_note = addVersion demo_codec demo_env ''t1'' None ''id0'' (text_body ''b'') with_note"


lemma second_note_eq: "second_note = Inr (fst (projr second_note), snd (projr second_note))"
  by (rule ok_pair) code_simp

lemma first_note_eq:
  "createDocument demo_codec demo_env ''t1'' None note_in empty_odb =
     Inr (fst (projr first_note), fst (snd (projr first_note)), with_note)"
  by code_simp

lemma with_note_ok: "rec_ok demo_codec with_note"
proof -
  have "rec_ok demo_codec empty_odb"
    by (simp add: rec_ok_def numbered_def stored_def versions_of_def empty_odb_def)
  moreover have "CHR ''/'' \<notin> set (oid demo_env empty_odb)" by code_simp
  ultimately show ?thesis using createDocument_ok [OF first_note_eq] by blast
qed

lemma content_roundtrip_witness:
  "getVersionContent demo_codec ''t1'' ''id0'' (dv_no (fst (projr second_note))) (snd (projr second_note)) =
     Inr (fst (projr second_note), ''b'')"
proof -
  have add: "addVersion demo_codec demo_env ''t1'' None ''id0'' (text_body ''b'') with_note =
      Inr (fst (projr second_note), snd (projr second_note))"
    using second_note_eq unfolding second_note_def .
  have "getVersionContent demo_codec ''t1'' ''id0'' (dv_no (fst (projr second_note))) (snd (projr second_note)) =
     Inr (fst (projr second_note), c_to64 demo_codec (map byte_of ''b''))"
  proof (rule content_roundtrip [OF with_note_ok add])
    show "toBuffer demo_codec (text_body ''b'') = Inr (map byte_of ''b'')"
      by (simp add: toBuffer_def text_body_def demo_codec_def)
    show "c_sha256 demo_codec b' = c_sha256 demo_codec (map byte_of ''b'') \<Longrightarrow> b' = map byte_of ''b''" for b'
      using map_injective [of char_of_byte b' "map byte_of ''b''"] char_of_byte_inj
      by (simp add: demo_codec_def inj_def)
  qed simp
  moreover have "c_to64 demo_codec (map byte_of ''b'') = ''b''" by code_simp
  ultimately show ?thesis by simp
qed

lemma versions_append_only_witness:
  "map dv_no (versions_of (snd (projr second_note)) ''t1'' ''id0'') =
     [1..<Suc (length (versions_of (snd (projr second_note)) ''t1'' ''id0''))]"
proof -
  have "(rec_step demo_codec)\<^sup>*\<^sup>* with_note (snd (projr second_note))"
    using second_note_eq unfolding second_note_def by (intro r_into_rtranclp rs_add)
  from versions_append_only [OF with_note_ok this] show ?thesis by blast
qed

end
