(* ===== verification/Lifecycle.thy ===== *)
theory Lifecycle
  imports Fsm Records
begin

section \<open>The common shape of the office modules\<close>

text \<open>
  Tickets, requests, bookings and support cases have one architecture: a row with a state, a
  transition table that every write of the state goes through, and an event log to which every
  transition appends its action. This theory states that contract once, as the locale
  \<open>event_sourced\<close> over the pairs (row id, state) and (row id, action) a module's database is
  abstracted to, and proves what follows: the state of every row is the replay of its log. It also
  holds the page arithmetic of the list endpoints.
\<close>

subsection \<open>The abstract machine\<close>

type_synonym 'a journal = "(string \<times> string) list \<times> (string \<times> 'a) list"

definition actions_of :: "string \<Rightarrow> (string \<times> 'a) list \<Rightarrow> 'a list" where
  "actions_of i hist = map snd (filter (\<lambda>e. fst e = i) hist)"

lemma actions_of_append [simp]: "actions_of i (xs @ ys) = actions_of i xs @ actions_of i ys"
  by (simp add: actions_of_def)

lemma actions_of_Nil [simp]: "actions_of i [] = []"
  by (simp add: actions_of_def)

lemma actions_of_single [simp]: "actions_of i [(j, a)] = (if j = i then [a] else [])"
  by (simp add: actions_of_def)

lemma actions_of_absent: "i \<notin> fst ` set hist \<Longrightarrow> actions_of i hist = []"
  by (auto simp: actions_of_def filter_empty_conv)

text \<open>The actions among the events of a log.\<close>

definition history_of :: "('e \<Rightarrow> string) \<Rightarrow> ('e \<Rightarrow> 'a option) \<Rightarrow> 'e list \<Rightarrow> (string \<times> 'a) list" where
  "history_of row action es = concat (map (\<lambda>e. case action e of None \<Rightarrow> [] | Some a \<Rightarrow> [(row e, a)]) es)"

lemma history_of_simps [simp]:
  "history_of row action [] = []"
  "history_of row action (es @ [e]) =
     history_of row action es @ (case action e of None \<Rightarrow> [] | Some a \<Rightarrow> [(row e, a)])"
  by (simp_all add: history_of_def)

definition set_state :: "string \<Rightarrow> string \<Rightarrow> (string \<times> string) list \<Rightarrow> (string \<times> string) list" where
  "set_state i t rows = map (\<lambda>r. if fst r = i then (i, t) else r) rows"

lemma fst_set_state [simp]: "map fst (set_state i t rows) = map fst rows"
  by (simp add: set_state_def)

inductive lc_step :: "'a ttable \<Rightarrow> string \<Rightarrow> 'a journal \<Rightarrow> 'a journal \<Rightarrow> bool" for tr init where
  lc_idle: "lc_step tr init j j"
| lc_create: "i \<notin> fst ` set rows \<Longrightarrow> lc_step tr init (rows, hist) (rows @ [(i, init)], hist)"
| lc_act: "(i, s) \<in> set rows \<Longrightarrow> table_next tr a s = Some t \<Longrightarrow>
     lc_step tr init (rows, hist) (set_state i t rows, hist @ [(i, a)])"

text \<open>Every row is where its log leads, and the log speaks of existing rows only.\<close>

definition replays :: "'a ttable \<Rightarrow> string \<Rightarrow> 'a journal \<Rightarrow> bool" where
  "replays tr init j \<longleftrightarrow> fst ` set (snd j) \<subseteq> fst ` set (fst j) \<and>
     (\<forall>r \<in> set (fst j). table_run tr init (actions_of (fst r) (snd j)) = Some (snd r))"

lemma lc_step_replays: "lc_step tr init j j' \<Longrightarrow> replays tr init j \<Longrightarrow> replays tr init j'"
proof (induction rule: lc_step.induct)
  case (lc_create i rows hist)
  then have "i \<notin> fst ` set hist" by (auto simp: replays_def)
  with lc_create show ?case by (auto simp: replays_def actions_of_absent)
next
  case (lc_act i s rows a t hist)
  have "table_run tr init (actions_of i hist) = Some s"
    using lc_act(1,3) by (fastforce simp: replays_def)
  with lc_act(2) have moved: "table_run tr init (actions_of i hist @ [a]) = Some t"
    by (simp add: table_run_append)
  from lc_act(1) have "i \<in> fst ` set rows" by force
  moreover have "fst ` set (set_state i t rows) = fst ` set rows" by (metis fst_set_state set_map)
  moreover have "table_run tr init (actions_of (fst r) (hist @ [(i, a)])) = Some (snd r)"
    if "r \<in> set (set_state i t rows)" for r
  proof (cases "fst r = i")
    case True
    with that have "r = (i, t)" by (auto simp: set_state_def split: if_splits)
    then have "snd r = t" by simp
    with True moved show ?thesis by simp
  next
    case False
    with that have "r \<in> set rows" by (auto simp: set_state_def split: if_splits)
    with False lc_act(3) show ?thesis by (auto simp: replays_def)
  qed
  ultimately show ?case using lc_act(3) by (auto simp: replays_def)
qed

subsection \<open>The interface of a module\<close>

locale event_sourced =
  fixes tr :: "'a ttable" and init :: string and terminal :: "string list"
    and view :: "'s \<Rightarrow> 'a journal" and step :: "'s \<Rightarrow> 's \<Rightarrow> bool"
  assumes simulates: "step s s' \<Longrightarrow> lc_step tr init (view s) (view s')"
    and no_exit: "x \<in> set terminal \<Longrightarrow> x \<notin> set (fst (tr a))"
begin

lemma replay: "step\<^sup>*\<^sup>* s s' \<Longrightarrow> replays tr init (view s) \<Longrightarrow> replays tr init (view s')"
proof (induction rule: rtranclp_induct)
  case (step u w)
  then have "replays tr init (view u)" by simp
  with simulates [OF step(2)] show ?case by (rule lc_step_replays)
qed

text \<open>A row in a terminal state keeps it.\<close>

lemma terminal_step:
  assumes "step s s'" "(i, x) \<in> set (fst (view s))" "x \<in> set terminal"
    and unique: "\<And>y. (i, y) \<in> set (fst (view s)) \<Longrightarrow> y = x"
  shows "(i, x) \<in> set (fst (view s')) \<and> (\<forall>y. (i, y) \<in> set (fst (view s')) \<longrightarrow> y = x)"
  using simulates [OF assms(1)]
proof cases
  case lc_idle
  then show ?thesis using assms(2) unique by metis
next
  case (lc_create j rows hist)
  have "i \<noteq> j" using assms(2) lc_create by force
  then have "(i, y) \<in> set (fst (view s')) \<longleftrightarrow> (i, y) \<in> set (fst (view s))" for y
    using lc_create by simp
  then show ?thesis using assms(2) unique by metis
next
  case (lc_act j y rows a t hist)
  have "j \<noteq> i"
  proof
    assume "j = i"
    with lc_act unique have "y = x" by simp
    with lc_act(4) assms(3) no_exit show False by (simp add: table_next_Some_iff)
  qed
  then have "(i, z) \<in> set (fst (view s')) \<longleftrightarrow> (i, z) \<in> set (fst (view s))" for z
    using lc_act by (force simp: set_state_def)
  then show ?thesis using assms(2) unique by metis
qed

lemma terminal_stays:
  assumes "step\<^sup>*\<^sup>* s s'" "(i, x) \<in> set (fst (view s))" "x \<in> set terminal"
    and "\<And>y. (i, y) \<in> set (fst (view s)) \<Longrightarrow> y = x"
  shows "(i, x) \<in> set (fst (view s')) \<and> (\<forall>y. (i, y) \<in> set (fst (view s')) \<longrightarrow> y = x)"
  using assms(1)
proof (induction rule: rtranclp_induct)
  case base
  then show ?case using assms(2,4) by blast
next
  case (step u w)
  then have "\<And>y. (i, y) \<in> set (fst (view u)) \<Longrightarrow> y = x" by blast
  with terminal_step [OF step(2) _ assms(3)] step(3) show ?case by blast
qed

end

subsection \<open>Sequencing\<close>

text \<open>\<open>await\<close> of a call that may throw.\<close>

definition rbind :: "'a res \<Rightarrow> ('a \<Rightarrow> 'b res) \<Rightarrow> 'b res" where
  "rbind r f = (case r of Inl e \<Rightarrow> Inl e | Inr x \<Rightarrow> f x)"

lemma rbind_simps [simp]: "rbind (Inl e) f = Inl e" "rbind (Inr x) f = f x"
  by (simp_all add: rbind_def)

lemma rbind_Inr_iff: "rbind r f = Inr y \<longleftrightarrow> (\<exists>x. r = Inr x \<and> f x = Inr y)"
  by (cases r) auto

lemma rbind_InrE:
  assumes "rbind r f = Inr y"
  obtains x where "r = Inr x" "f x = Inr y"
  using assms by (auto simp: rbind_Inr_iff)

text \<open>A guard: throw unless the condition holds.\<close>

definition ensure :: "bool \<Rightarrow> error \<Rightarrow> unit res" where
  "ensure b e = (if b then Inr () else Inl e)"

lemma ensure_Inr_iff [simp]: "ensure b e = Inr u \<longleftrightarrow> b"
  by (simp add: ensure_def)

lemma ensure_True [simp]: "ensure True e = Inr ()"
  by (simp add: ensure_def)

subsection \<open>Resolution with its snapshot\<close>

text \<open>\<open>AssignmentResolver.resolveAndSnapshot\<close> called from a module: the row and the audit entry it writes.\<close>

definition snapshot ::
  "(string \<Rightarrow> string \<Rightarrow> bool) \<Rightarrow> string \<Rightarrow> string \<Rightarrow> string \<Rightarrow> string \<Rightarrow> selector \<Rightarrow> 'a odb_scheme \<Rightarrow> resolution \<times> 'a odb_scheme" where
  "snapshot le tenant actor code node sel x =
     (let r = resolveAndSnapshot le (o_org x) tenant code node sel
      in (r, log_audit tenant actor code ''ASSIGNMENT_RESOLVED'' (x\<lparr>o_res := o_res x @ [r]\<rparr>)))"

subsection \<open>Attachments\<close>

text \<open>The UTF-8 bytes of the dash in generated titles.\<close>

definition em_dash :: string where
  "em_dash = [CHR 0xE2, CHR 0x80, CHR 0x94]"

text \<open>The document body the \<open>attachment\<close> handlers build.\<close>

record attach_in =
  at_title :: "string option"
  at_note :: "string option"
  at_content :: "string option"
  at_base64 :: "string option"
  at_mime :: "string option"

definition attachment_doc :: "string \<Rightarrow> string \<Rightarrow> string \<Rightarrow> string \<Rightarrow> string list \<Rightarrow> attach_in \<Rightarrow> doc_in" where
  "attachment_doc subject i code fallback tags b =
     \<lparr>di_kind = Some ''ATTACHMENT'', di_title = coalesce (at_title b) (''Attachment '' @ em_dash @ '' '' @ code),
      di_subjectType = Some subject, di_subjectId = Some i, di_tags = tags,
      di_content = \<lparr>ci_text = (if truthy_str (at_base64 b) then None
                              else Some (coalesce (at_content b) (''Attachment for '' @ code @ '': '' @ coalesce (at_note b) fallback))),
                   ci_base64 = (if truthy_str (at_base64 b) then at_base64 b else None),
                   ci_mime = Some (coalesce (at_mime b) ''text/plain'')\<rparr>\<rparr>"

subsection \<open>Updating a row of a table\<close>

text \<open>How an update of one row looks through the view of ids and states.\<close>

lemma view_update:
  assumes "\<And>r. k r = i \<Longrightarrow> k (f r) = i \<and> st (f r) = t"
  shows "map (\<lambda>r. (k r, st r)) (tupd (\<lambda>r. k r = i) f rows) = set_state i t (map (\<lambda>r. (k r, st r)) rows)"
  using assms by (induction rows) (auto simp: set_state_def table_simps)

lemma view_frame:
  assumes "\<And>r. k r = i \<Longrightarrow> k (f r) = i \<and> st (f r) = st r"
  shows "map (\<lambda>r. (k r, st r)) (tupd (\<lambda>r. k r = i) f rows) = map (\<lambda>r. (k r, st r)) rows"
  using assms by (induction rows) (auto simp: table_simps)

text \<open>The two ways a handler moves the abstract machine, read off its tables.\<close>

lemma lc_act_table:
  assumes "r \<in> set rows" "k r = i" "table_next tr a (st r) = Some t"
    and "\<And>r. k r = i \<Longrightarrow> k (f r) = i \<and> st (f r) = t"
  shows "lc_step tr init (map (\<lambda>r. (k r, st r)) rows, hist)
           (map (\<lambda>r. (k r, st r)) (tupd (\<lambda>r. k r = i) f rows), hist @ [(i, a)])"
proof -
  have "(i, st r) \<in> set (map (\<lambda>r. (k r, st r)) rows)" using assms(1,2) by force
  from lc_act [OF this assms(3)] view_update [of k i f st t rows] assms(4) show ?thesis by simp
qed

lemma lc_create_table:
  assumes "k r \<notin> k ` set rows" "st r = init"
  shows "lc_step tr init (map (\<lambda>r. (k r, st r)) rows, hist) (map (\<lambda>r. (k r, st r)) (rows @ [r]), hist)"
  using lc_create [of "k r" "map (\<lambda>r. (k r, st r)) rows" tr init hist] assms by (force simp: image_image)

subsection \<open>Pages\<close>

text \<open>
  \<open>page = Math.max(1, page ?? 1)\<close>, \<open>pageSize = Math.max(1, Math.min(limit, pageSize ?? default))\<close>,
  \<open>rows.slice((page - 1) * pageSize, page * pageSize)\<close>, for whole numbers.
\<close>

definition page_no :: "int option \<Rightarrow> nat" where
  "page_no p = nat (max 1 (coalesce p 1))"

definition page_size :: "int \<Rightarrow> int \<Rightarrow> int option \<Rightarrow> nat" where
  "page_size limit dflt p = nat (max 1 (min limit (coalesce p dflt)))"

definition page_slice :: "nat \<Rightarrow> nat \<Rightarrow> 'r list \<Rightarrow> 'r list" where
  "page_slice page sz rows = take sz (drop ((page - 1) * sz) rows)"

lemma page_bounds: "1 \<le> limit \<Longrightarrow> 1 \<le> page_size limit d p \<and> int (page_size limit d p) \<le> limit" "1 \<le> page_no q"
  by (auto simp: page_size_def page_no_def)

text \<open>The pages partition the rows: in order they give every row once.\<close>

lemma pages_cover_upto: "concat (map (\<lambda>p. page_slice (Suc p) sz rows) [0..<n]) = take (n * sz) rows"
proof (induction n)
  case (Suc n)
  have "take (Suc n * sz) rows = take (n * sz) rows @ take sz (drop (n * sz) rows)"
    using take_add [of "n * sz" sz rows] by (simp add: add.commute)
  with Suc show ?case by (simp add: page_slice_def)
qed simp

lemma pages_cover:
  "length rows \<le> n * sz \<Longrightarrow> concat (map (\<lambda>p. page_slice (Suc p) sz rows) [0..<n]) = rows"
  by (simp add: pages_cover_upto)

end
