(* ===== verification/Tickets.thy ===== *)
theory Tickets
  imports Lifecycle
begin

section \<open>The service desk\<close>

text \<open>
  xhub-api/src/tickets/tickets.service.ts: the service catalog, creation with its idempotency key
  and catalog SLA, the transitions with their object-level ownership gate, assignment through the
  queue of \<open>SERVICE_DESK_AGENT\<close>, comments, attachments, satisfaction scores and the paged list. The
  tables extend \<open>odb\<close>; the JSON details of events are not kept.
\<close>

subsection \<open>State\<close>

record catalog_item =
  cat_id :: string
  cat_tenant :: string
  cat_code :: string
  cat_name :: string
  cat_category :: string
  cat_sla :: int

record ticket =
  tk_id :: string
  tk_tenant :: string
  tk_code :: string
  tk_title :: string
  tk_requester :: string
  tk_catalog :: "string option"
  tk_category :: string
  tk_priority :: string
  tk_state :: string
  tk_assignee :: "string option"
  tk_due :: "int option"
  tk_resolvedAt :: "int option"
  tk_csat :: "int option"
  tk_key :: "string option"
  tk_created :: int

record ticket_log =
  te_tenant :: string
  te_ticket :: string
  te_type :: string
  te_actor :: string

record tdb = odb +
  catalog :: "catalog_item list"
  tickets :: "ticket list"
  t_events :: "ticket_log list"

subsection \<open>Events and legality\<close>

fun ticket_action_name :: "ticket_action \<Rightarrow> string" where
  "ticket_action_name T_triage = ''triage''"
| "ticket_action_name T_assign = ''assign''"
| "ticket_action_name T_claim = ''claim''"
| "ticket_action_name T_start = ''start''"
| "ticket_action_name T_pending = ''pending''"
| "ticket_action_name T_resume = ''resume''"
| "ticket_action_name T_resolve = ''resolve''"
| "ticket_action_name T_close = ''close''"
| "ticket_action_name T_cancel = ''cancel''"

definition ticket_event :: "string \<Rightarrow> string \<Rightarrow> string \<Rightarrow> string \<Rightarrow> tdb \<Rightarrow> tdb" where
  "ticket_event tenant i ty actor s =
     log_audit tenant actor i (''ticket.'' @ ty)
       (s\<lparr>t_events := t_events s @ [\<lparr>te_tenant = tenant, te_ticket = i, te_type = ty, te_actor = actor\<rparr>]\<rparr>)"

definition assertLegalTicket :: "ticket_action \<Rightarrow> string \<Rightarrow> string res" where
  "assertLegalTicket a st =
     (case ticketNext a st of None \<Rightarrow> Inl (BadRequest ''Illegal ticket transition'') | Some t \<Rightarrow> Inr t)"

definition load_ticket :: "tdb \<Rightarrow> string \<Rightarrow> string \<Rightarrow> ticket res" where
  "load_ticket s tenant i =
     (case tfind (\<lambda>t. tk_id t = i \<and> tk_tenant t = tenant) (tickets s) of
        None \<Rightarrow> Inl (NotFound ''ticket not found'') | Some t \<Rightarrow> Inr t)"

definition update_ticket :: "string \<Rightarrow> (ticket \<Rightarrow> ticket) \<Rightarrow> tdb \<Rightarrow> tdb" where
  "update_ticket i f s = s\<lparr>tickets := tupd (\<lambda>t. tk_id t = i) f (tickets s)\<rparr>"

text \<open>The view returned to the caller.\<close>

record ticket_view =
  tv_ticket :: ticket
  tv_overdue :: bool
  tv_legal :: "ticket_action list"

definition decorate_ticket :: "env \<Rightarrow> ticket \<Rightarrow> ticket_view" where
  "decorate_ticket v t =
     \<lparr>tv_ticket = t, tv_overdue = ticket_isOverdue (now v) (tk_due t) (tk_state t),
      tv_legal = ticketLegalActions (tk_state t)\<rparr>"

subsection \<open>Catalog and creation\<close>

definition createCatalogItem ::
  "env \<Rightarrow> string \<Rightarrow> string \<Rightarrow> string option \<Rightarrow> string \<Rightarrow> string \<Rightarrow> int option \<Rightarrow> tdb \<Rightarrow> (catalog_item \<times> tdb) res" where
  "createCatalogItem v tenant actor code name category sla s =
     rbind (ensure (name \<noteq> []) (BadRequest ''name is required'')) (\<lambda>_.
     rbind (ensure (category \<noteq> []) (BadRequest ''category is required'')) (\<lambda>_.
       let item = \<lparr>cat_id = oid v s, cat_tenant = tenant, cat_code = coalesce code (''SVC-'' @ stamp v),
                   cat_name = name, cat_category = category, cat_sla = coalesce sla 24\<rparr>
       in if \<exists>c \<in> set (catalog s). cat_tenant c = tenant \<and> cat_code c = cat_code item then Inl UniqueViolation
          else Inr (item, log_audit tenant actor (cat_id item) ''service_catalog.create''
                 (s\<lparr>catalog := catalog s @ [item], o_seq := Suc (o_seq s)\<rparr>))))"

record ticket_in =
  ti_title :: string
  ti_catalog :: "string option"
  ti_category :: "string option"
  ti_priority :: "string option"
  ti_code :: "string option"
  ti_requester :: "string option"
  ti_key :: "string option"

text \<open>An empty key counts as none.\<close>

definition real_key :: "string option \<Rightarrow> string option" where
  "real_key k = (if truthy_str k then k else None)"

definition ticket_by_key :: "tdb \<Rightarrow> string \<Rightarrow> string option \<Rightarrow> ticket option" where
  "ticket_by_key s tenant key =
     (if key = None then None else tfind (\<lambda>t. tk_tenant t = tenant \<and> tk_key t = key) (tickets s))"

text \<open>The unique indexes on (tenant, code) and (tenant, idempotency key).\<close>

definition ticket_clash :: "tdb \<Rightarrow> ticket \<Rightarrow> bool" where
  "ticket_clash s t = (\<exists>u \<in> set (tickets s). tk_tenant u = tk_tenant t \<and>
     (tk_code u = tk_code t \<or> (tk_key t \<noteq> None \<and> tk_key u = tk_key t)))"

definition catalog_entry :: "tdb \<Rightarrow> string \<Rightarrow> string option \<Rightarrow> catalog_item option res" where
  "catalog_entry s tenant c =
     (if \<not> truthy_str c then Inr None
      else case tfind (\<lambda>x. Some (cat_id x) = c \<and> cat_tenant x = tenant) (catalog s) of
             None \<Rightarrow> Inl (BadRequest ''catalog item not found'') | Some x \<Rightarrow> Inr (Some x))"

definition ticket_category :: "string option \<Rightarrow> catalog_item option \<Rightarrow> string" where
  "ticket_category given item =
     (let c = coalesce_opt given (map_option cat_category item)
      in if truthy_str c then the c else ''GENERAL'')"

definition new_ticket :: "env \<Rightarrow> string \<Rightarrow> string \<Rightarrow> ticket_in \<Rightarrow> catalog_item option \<Rightarrow> tdb \<Rightarrow> ticket" where
  "new_ticket v tenant actor b item s =
     \<lparr>tk_id = oid v s, tk_tenant = tenant, tk_code = coalesce (ti_code b) (gen_code v ''TK'' (o_seq s)),
      tk_title = ti_title b, tk_requester = coalesce (ti_requester b) actor,
      tk_catalog = map_option cat_id item, tk_category = ticket_category (ti_category b) item,
      tk_priority = to_upper (coalesce (ti_priority b) ''MEDIUM''), tk_state = ''NEW'', tk_assignee = None,
      tk_due = map_option (\<lambda>x. now v + cat_sla x * 3600 * 1000) item, tk_resolvedAt = None, tk_csat = None,
      tk_key = real_key (ti_key b), tk_created = now v\<rparr>"

text \<open>The result: the row and whether it is a replay.\<close>

definition createTicket ::
  "env \<Rightarrow> string \<Rightarrow> string \<Rightarrow> ticket_in \<Rightarrow> tdb \<Rightarrow> ((ticket_view \<times> bool) \<times> tdb) res" where
  "createTicket v tenant actor b s =
     rbind (ensure (ti_title b \<noteq> []) (BadRequest ''title is required'')) (\<lambda>_.
       case ticket_by_key s tenant (real_key (ti_key b)) of
         Some t \<Rightarrow> Inr ((decorate_ticket v t, True), s)
       | None \<Rightarrow>
           rbind (catalog_entry s tenant (ti_catalog b)) (\<lambda>item.
             let t = new_ticket v tenant actor b item s
             in if ticket_clash s t then
                  (case ticket_by_key s tenant (real_key (ti_key b)) of
                     Some u \<Rightarrow> Inr ((decorate_ticket v u, True), s)
                   | None \<Rightarrow> Inl UniqueViolation)
                else Inr ((decorate_ticket v t, False),
                   ticket_event tenant (tk_id t) ''created'' actor
                     (s\<lparr>tickets := tickets s @ [t], o_seq := Suc (o_seq s)\<rparr>))))"

subsection \<open>Transitions\<close>

definition manages :: "tdb \<Rightarrow> string \<Rightarrow> string \<Rightarrow> bool" where
  "manages s actor perm = (can (o_org s) actor perm None = Granted)"

definition assertTicketActor :: "tdb \<Rightarrow> ticket \<Rightarrow> string \<Rightarrow> ticket_action \<Rightarrow> unit res" where
  "assertTicketActor s t actor a =
     (if a = T_triage then Inr ()
      else if a = T_cancel \<and> actor = tk_requester t then Inr ()
      else if a \<noteq> T_cancel \<and> Some actor = tk_assignee t then Inr ()
      else ensure (manages s actor ''ticket.manage'')
             (Forbidden ''Only the assigned agent, the requester (cancel), or ticket.manage may act''))"

definition move_ticket ::
  "env \<Rightarrow> string \<Rightarrow> string \<Rightarrow> ticket_action \<Rightarrow> (ticket \<Rightarrow> ticket) \<Rightarrow> ticket \<Rightarrow> tdb \<Rightarrow> (ticket_view \<times> tdb) res" where
  "move_ticket v tenant actor a f t s =
     rbind (assertLegalTicket a (tk_state t)) (\<lambda>to.
       let g = (\<lambda>r. (f r)\<lparr>tk_state := to\<rparr>)
       in Inr (decorate_ticket v (g t),
               ticket_event tenant (tk_id t) (ticket_action_name a) actor (update_ticket (tk_id t) g s)))"

definition transitionTicket :: "env \<Rightarrow> string \<Rightarrow> string \<Rightarrow> string \<Rightarrow> ticket_action \<Rightarrow> tdb \<Rightarrow> (ticket_view \<times> tdb) res" where
  "transitionTicket v tenant actor i a s =
     rbind (load_ticket s tenant i) (\<lambda>t.
     rbind (assertTicketActor s t actor a) (\<lambda>_. move_ticket v tenant actor a id t s))"

definition claimTicket :: "env \<Rightarrow> string \<Rightarrow> string \<Rightarrow> string \<Rightarrow> tdb \<Rightarrow> (ticket_view \<times> tdb) res" where
  "claimTicket v tenant actor i s =
     rbind (load_ticket s tenant i) (\<lambda>t. move_ticket v tenant actor T_claim (\<lambda>r. r\<lparr>tk_assignee := Some actor\<rparr>) t s)"

definition resolveTicket :: "env \<Rightarrow> string \<Rightarrow> string \<Rightarrow> string \<Rightarrow> tdb \<Rightarrow> (ticket_view \<times> tdb) res" where
  "resolveTicket v tenant actor i s =
     rbind (load_ticket s tenant i) (\<lambda>t. move_ticket v tenant actor T_resolve (\<lambda>r. r\<lparr>tk_resolvedAt := Some (now v)\<rparr>) t s)"

subsection \<open>Assignment\<close>

definition AGENT_ROLE :: string where
  "AGENT_ROLE = ''SERVICE_DESK_AGENT''"

definition agent_selector :: selector where
  "agent_selector = (blank_selector SRole)\<lparr>s_role := Some AGENT_ROLE, s_choice := Some ''QUEUE''\<rparr>"

text \<open>The user ids of the queue, and the identities a manager may name.\<close>

definition agent_users :: "idb \<Rightarrow> candidate list \<Rightarrow> string list" where
  "agent_users d cs = map (\<lambda>c. coalesce (userIdForPerson d (cd_person c)) (cd_person c)) cs"

definition agent_ids :: "idb \<Rightarrow> candidate list \<Rightarrow> string list" where
  "agent_ids d cs = agent_users d cs @ map cd_person cs"

definition pick_agent :: "idb \<Rightarrow> candidate list \<Rightarrow> string option \<Rightarrow> string res" where
  "pick_agent d cs wanted =
     (let chosen = (if truthy_str wanted then wanted
                    else case agent_users d cs of [] \<Rightarrow> None | u # _ \<Rightarrow> Some u)
      in if truthy_str wanted \<and> agent_ids d cs \<noteq> [] \<and> the wanted \<notin> set (agent_ids d cs)
         then Inl (BadRequest ''assigneeId is not in the resolved SERVICE_DESK_AGENT queue'')
         else if truthy_str chosen then Inr (the chosen)
         else Inl (BadRequest ''Cannot assign: SERVICE_DESK_AGENT queue resolved to 0 agents''))"

definition assignTicket ::
  "(string \<Rightarrow> string \<Rightarrow> bool) \<Rightarrow> env \<Rightarrow> string \<Rightarrow> string \<Rightarrow> string \<Rightarrow> string option \<Rightarrow> tdb \<Rightarrow> (ticket_view \<times> tdb) res" where
  "assignTicket le v tenant actor i wanted s =
     rbind (load_ticket s tenant i) (\<lambda>t.
     rbind (assertLegalTicket T_assign (tk_state t)) (\<lambda>_.
       let (res, s1) = snapshot le tenant actor (tk_code t) ''ticket-agent-queue'' agent_selector s
       in rbind (pick_agent (o_org s) (re_candidates res) wanted) (\<lambda>who.
            move_ticket v tenant actor T_assign (\<lambda>r. r\<lparr>tk_assignee := Some who\<rparr>) t s1)))"

subsection \<open>Comments, attachments and satisfaction\<close>

definition commentTicket ::
  "string \<Rightarrow> string \<Rightarrow> string \<Rightarrow> string option \<Rightarrow> string option \<Rightarrow> string option \<Rightarrow> tdb \<Rightarrow> (string \<times> tdb) res" where
  "commentTicket tenant actor i body note visibility s =
     rbind (load_ticket s tenant i) (\<lambda>_.
     rbind (ensure (truthy_str (coalesce_opt body note)) (BadRequest ''comment body is required'')) (\<lambda>_.
       Inr (if to_upper (coalesce visibility ''PUBLIC'') = ''PRIVATE'' then ''PRIVATE'' else ''PUBLIC'',
            ticket_event tenant i ''comment'' actor s)))"

definition attachTicket ::
  "codec \<Rightarrow> env \<Rightarrow> string \<Rightarrow> string \<Rightarrow> string \<Rightarrow> attach_in \<Rightarrow> tdb \<Rightarrow> (doc_version \<times> tdb) res" where
  "attachTicket c v tenant actor i b s =
     rbind (load_ticket s tenant i) (\<lambda>t.
     rbind (createDocument c v tenant (Some actor)
              (attachment_doc ''Ticket'' i (tk_code t) ''ticket attachment'' [''attachment'', ''ticket''] b) s) (\<lambda>(d, row, s1).
       Inr (row, ticket_event tenant i ''attachment'' actor s1)))"

definition score_of :: "json \<Rightarrow> int option" where
  "score_of j = (case to_num j of Fin r \<Rightarrow> if snd (quotient_of r) = 1 then Some (fst (quotient_of r)) else None | _ \<Rightarrow> None)"

definition csatTicket :: "env \<Rightarrow> string \<Rightarrow> string \<Rightarrow> string \<Rightarrow> json \<Rightarrow> tdb \<Rightarrow> (ticket_view \<times> tdb) res" where
  "csatTicket v tenant actor i score s =
     rbind (load_ticket s tenant i) (\<lambda>t.
     rbind (ensure (tk_state t \<in> {''RESOLVED'', ''CLOSED''}) (BadRequest ''CSAT allowed only on RESOLVED/CLOSED tickets'')) (\<lambda>_.
     rbind (ensure (tk_requester t = actor) (Forbidden ''Only the requester may submit CSAT for this ticket.'')) (\<lambda>_.
       case score_of score of
         Some k \<Rightarrow> (if k < 1 \<or> 5 < k then Inl (BadRequest ''score must be an integer 1..5'')
                    else let g = (\<lambda>r. r\<lparr>tk_csat := Some k\<rparr>)
                         in Inr (decorate_ticket v (g t), ticket_event tenant i ''csat'' actor (update_ticket i g s)))
       | None \<Rightarrow> Inl (BadRequest ''score must be an integer 1..5''))))"

subsection \<open>The list\<close>

record ticket_filter =
  tf_scope :: "string option"
  tf_state :: "string option"
  tf_category :: "string option"
  tf_q :: "string option"

definition ticket_matches :: "string \<Rightarrow> string \<Rightarrow> ticket_filter \<Rightarrow> ticket \<Rightarrow> bool" where
  "ticket_matches tenant actor f t \<longleftrightarrow> tk_tenant t = tenant \<and>
     (tf_scope f = Some ''mine'' \<longrightarrow> tk_requester t = actor) \<and>
     (tf_scope f = Some ''assigned'' \<longrightarrow> tk_assignee t = Some actor) \<and>
     (tf_scope f = Some ''queue'' \<longrightarrow> tk_assignee t = None) \<and>
     (truthy_str (tf_state f) \<longrightarrow> Some (tk_state t) = tf_state f) \<and>
     (truthy_str (tf_category f) \<longrightarrow> Some (tk_category t) = tf_category f) \<and>
     (truthy_str (tf_q f) \<longrightarrow> includes_str (to_lower (the (tf_q f))) (to_lower (tk_title t)))"

definition listTickets ::
  "env \<Rightarrow> string \<Rightarrow> string \<Rightarrow> ticket_filter \<Rightarrow> int option \<Rightarrow> int option \<Rightarrow> tdb \<Rightarrow> ticket_view list \<times> nat \<times> nat \<times> nat" where
  "listTickets v tenant actor f page pageSize s =
     (let rows = map (decorate_ticket v) (sort_key (\<lambda>t. - tk_created t) (filter (ticket_matches tenant actor f) (tickets s)));
          p = page_no page; sz = page_size 100 20 pageSize
      in (page_slice p sz rows, length rows, p, sz))"

definition getTicket :: "env \<Rightarrow> string \<Rightarrow> string \<Rightarrow> tdb \<Rightarrow> (ticket_view \<times> ticket_log list \<times> (doc_row \<times> nat) list \<times> catalog_item option) res" where
  "getTicket v tenant i s =
     rbind (load_ticket s tenant i) (\<lambda>t.
       Inr (decorate_ticket v t, filter (\<lambda>e. te_tenant e = tenant \<and> te_ticket e = i) (t_events s),
            listDocuments tenant None (Some ''Ticket'') (Some i) s,
            tfind (\<lambda>c. Some (cat_id c) = tk_catalog t \<and> cat_tenant c = tenant) (catalog s)))"


subsection \<open>The journal\<close>

definition ticket_event_action :: "string \<Rightarrow> ticket_action option" where
  "ticket_event_action ty = tfind (\<lambda>a. ticket_action_name a = ty) ticket_actions"

definition ticket_journal :: "tdb \<Rightarrow> ticket_action journal" where
  "ticket_journal s = (map (\<lambda>t. (tk_id t, tk_state t)) (tickets s),
     history_of te_ticket (\<lambda>e. ticket_event_action (te_type e)) (t_events s))"

lemma ticket_event_action_name: "ticket_event_action (ticket_action_name a) = Some a"
  by (cases a) (simp_all add: ticket_event_action_def ticket_actions_def table_simps)

lemma ticket_event_other:
  "ticket_event_action ''created'' = None" "ticket_event_action ''comment'' = None"
  "ticket_event_action ''attachment'' = None" "ticket_event_action ''csat'' = None"
  by code_simp+

lemma ticket_event_simps [simp]:
  "tickets (ticket_event tenant i ty actor s) = tickets s"
  "o_org (ticket_event tenant i ty actor s) = o_org s"
  "catalog (ticket_event tenant i ty actor s) = catalog s"
  by (simp_all add: ticket_event_def log_audit_def)

lemma journal_event:
  "ticket_journal (ticket_event tenant i ty actor s) =
     (fst (ticket_journal s), snd (ticket_journal s) @
        (case ticket_event_action ty of None \<Rightarrow> [] | Some a \<Rightarrow> [(i, a)]))"
  by (simp add: ticket_journal_def ticket_event_def log_audit_def split: option.split)

lemma journal_cong:
  "tickets s' = tickets s \<Longrightarrow> t_events s' = t_events s \<Longrightarrow> ticket_journal s' = ticket_journal s"
  by (simp add: ticket_journal_def)

lemma snapshot_tickets [simp]:
  "tickets (snd (snapshot le tenant actor code node sel s)) = tickets s"
  "t_events (snd (snapshot le tenant actor code node sel s)) = t_events s"
  by (simp_all add: snapshot_def log_audit_def Let_def)

lemma createDocument_tickets:
  "createDocument c v tenant actor b s = Inr (d, row, s') \<Longrightarrow> tickets s' = tickets s \<and> t_events s' = t_events s"
  by (auto simp: createDocument_def appendVersion_def Let_def split: if_splits sum.splits)

lemma load_ticket_InrD: "load_ticket s tenant i = Inr t \<Longrightarrow> t \<in> set (tickets s) \<and> tk_id t = i \<and> tk_tenant t = tenant"
  by (auto simp: load_ticket_def split: option.splits dest: tfind_SomeD)

lemma attachTicketE:
  assumes "attachTicket c v tenant actor i b s = Inr (w, s')"
  obtains s1 where "tickets s1 = tickets s" "t_events s1 = t_events s" "s' = ticket_event tenant i ''attachment'' actor s1"
proof -
  let ?doc = "\<lambda>t :: ticket. attachment_doc ''Ticket'' i (tk_code t) ''ticket attachment'' [''attachment'', ''ticket''] b"
  from assms obtain t where
    "rbind (createDocument c v tenant (Some actor) (?doc t) s)
       (\<lambda>(d, row, s1). Inr (row, ticket_event tenant i ''attachment'' actor s1)) = Inr (w, s')"
    unfolding attachTicket_def by (rule rbind_InrE) blast
  then obtain d row s1 where "createDocument c v tenant (Some actor) (?doc t) s = Inr (d, row, s1)"
    "s' = ticket_event tenant i ''attachment'' actor s1"
    by (cases "createDocument c v tenant (Some actor) (?doc t) s") auto
  with createDocument_tickets [OF this(1)] show ?thesis using that by blast
qed

lemma assignTicketE:
  assumes "assignTicket le v tenant actor i wanted s = Inr (w, s')"
  obtains t r s1 who where "load_ticket s tenant i = Inr t" "tickets s1 = tickets s" "t_events s1 = t_events s"
    "r = resolveAndSnapshot le (o_org s) tenant (tk_code t) ''ticket-agent-queue'' agent_selector"
    "pick_agent (o_org s) (re_candidates r) wanted = Inr who"
    "move_ticket v tenant actor T_assign (\<lambda>x. x\<lparr>tk_assignee := Some who\<rparr>) t s1 = Inr (w, s')"
proof -
  let ?snap = "\<lambda>t. snapshot le tenant actor (tk_code t) ''ticket-agent-queue'' agent_selector s"
  from assms obtain t who where t: "load_ticket s tenant i = Inr t"
    "pick_agent (o_org s) (re_candidates (fst (?snap t))) wanted = Inr who"
    "move_ticket v tenant actor T_assign (\<lambda>r. r\<lparr>tk_assignee := Some who\<rparr>) t (snd (?snap t)) = Inr (w, s')"
    by (auto simp: assignTicket_def rbind_Inr_iff case_prod_unfold Let_def)
  show ?thesis
    by (rule that [of t "snd (?snap t)" "fst (?snap t)" who]) (use t in \<open>simp_all add: snapshot_def Let_def log_audit_def\<close>)
qed

lemma csatTicketE:
  assumes "csatTicket v tenant actor i score s = Inr (w, s')"
  obtains t k where "load_ticket s tenant i = Inr t" "tk_state t \<in> {''RESOLVED'', ''CLOSED''}" "tk_requester t = actor"
    "score_of score = Some k" "1 \<le> k" "k \<le> 5"
    "s' = ticket_event tenant i ''csat'' actor (update_ticket i (\<lambda>r. r\<lparr>tk_csat := Some k\<rparr>) s)"
proof (cases "score_of score")
  case None
  with assms show ?thesis by (simp add: csatTicket_def rbind_Inr_iff)
next
  case (Some k)
  from assms obtain t where t: "load_ticket s tenant i = Inr t" by (auto simp: csatTicket_def rbind_Inr_iff)
  with assms Some show ?thesis
    by (intro that [of t k]) (auto simp: csatTicket_def rbind_Inr_iff Let_def split: if_splits)
qed

subsection \<open>Steps of the module\<close>

inductive ticket_step :: "(string \<Rightarrow> string \<Rightarrow> bool) \<Rightarrow> codec \<Rightarrow> tdb \<Rightarrow> tdb \<Rightarrow> bool" for le c where
  ts_catalog: "createCatalogItem v tenant actor code name category sla s = Inr (item, s') \<Longrightarrow> ticket_step le c s s'"
| ts_create: "createTicket v tenant actor b s = Inr (w, s') \<Longrightarrow> oid v s \<notin> tk_id ` set (tickets s) \<Longrightarrow> ticket_step le c s s'"
| ts_transition: "transitionTicket v tenant actor i a s = Inr (w, s') \<Longrightarrow>
     a \<in> {T_triage, T_start, T_pending, T_resume, T_close, T_cancel} \<Longrightarrow> ticket_step le c s s'"
| ts_claim: "claimTicket v tenant actor i s = Inr (w, s') \<Longrightarrow> ticket_step le c s s'"
| ts_resolve: "resolveTicket v tenant actor i s = Inr (w, s') \<Longrightarrow> ticket_step le c s s'"
| ts_assign: "assignTicket le v tenant actor i wanted s = Inr (w, s') \<Longrightarrow> ticket_step le c s s'"
| ts_comment: "commentTicket tenant actor i body note vis s = Inr (w, s') \<Longrightarrow> ticket_step le c s s'"
| ts_attach: "attachTicket c v tenant actor i d s = Inr (w, s') \<Longrightarrow> ticket_step le c s s'"
| ts_csat: "csatTicket v tenant actor i score s = Inr (w, s') \<Longrightarrow> ticket_step le c s s'"

text \<open>What each handler does to the tables of the module.\<close>

lemma move_ticketE:
  assumes "move_ticket v tenant actor a f t s = Inr (w, s')"
  obtains to where "ticketNext a (tk_state t) = Some to"
    "s' = ticket_event tenant (tk_id t) (ticket_action_name a) actor (update_ticket (tk_id t) (\<lambda>r. (f r)\<lparr>tk_state := to\<rparr>) s)"
  using assms by (auto simp: move_ticket_def assertLegalTicket_def rbind_Inr_iff Let_def split: option.splits)

lemma move_ticket_step:
  assumes m: "move_ticket v tenant actor a f t s = Inr (w, s')" and t: "t \<in> set (tickets s)"
    and f: "\<And>r. tk_id (f r) = tk_id r"
  shows "lc_step TICKET_TRANSITIONS ''NEW'' (ticket_journal s) (ticket_journal s')"
  using m
proof (rule move_ticketE)
  fix to
  let ?u = "update_ticket (tk_id t) (\<lambda>r. (f r)\<lparr>tk_state := to\<rparr>) s"
  assume next_state: "ticketNext a (tk_state t) = Some to"
    and s': "s' = ticket_event tenant (tk_id t) (ticket_action_name a) actor ?u"
  obtain rows hist where j: "ticket_journal s = (rows, hist)" by force
  have "ticket_journal ?u = (set_state (tk_id t) to rows, hist)"
    using j view_update [of tk_id "tk_id t" "\<lambda>r. (f r)\<lparr>tk_state := to\<rparr>" tk_state to "tickets s"] f
    by (simp add: ticket_journal_def update_ticket_def)
  then have "ticket_journal s' = (set_state (tk_id t) to rows, hist @ [(tk_id t, a)])"
    by (simp add: s' journal_event ticket_event_action_name)
  moreover have "(tk_id t, tk_state t) \<in> set rows" using t j by (auto simp: ticket_journal_def)
  ultimately show ?thesis
    using lc_act [of _ _ rows TICKET_TRANSITIONS a to] next_state j by (simp add: ticketNext_def)
qed

lemma same_journal_step: "ticket_journal s' = ticket_journal s \<Longrightarrow> lc_step tr init (ticket_journal s) (ticket_journal s')"
  by (simp add: lc_idle)


lemma createTicketE:
  assumes "createTicket v tenant actor b s = Inr ((w, replayed), s')"
  obtains (replay) t where "t \<in> set (tickets s)" "tk_tenant t = tenant" "tk_key t = real_key (ti_key b)" "tk_key t \<noteq> None"
      "tv_ticket w = t" "s' = s"
    | (fresh) item where "tv_ticket w = new_ticket v tenant actor b item s" "\<not> ticket_clash s (new_ticket v tenant actor b item s)"
      "\<not> replayed" "ticket_by_key s tenant (real_key (ti_key b)) = None"
      "s' = ticket_event tenant (oid v s) ''created'' actor
              (s\<lparr>tickets := tickets s @ [new_ticket v tenant actor b item s], o_seq := Suc (o_seq s)\<rparr>)"
proof -
  have by_key: "t \<in> set (tickets s) \<and> tk_tenant t = tenant \<and> tk_key t = real_key (ti_key b) \<and> tk_key t \<noteq> None"
    if "ticket_by_key s tenant (real_key (ti_key b)) = Some t" for t
    using that by (auto simp: ticket_by_key_def split: if_splits dest!: tfind_SomeD)
  show ?thesis
  proof (cases "ticket_by_key s tenant (real_key (ti_key b))")
    case (Some t)
    with assms have "w = decorate_ticket v t" "s' = s"
      by (auto simp: createTicket_def rbind_Inr_iff)
    then have "tv_ticket w = t" by (simp add: decorate_ticket_def)
    with by_key [OF Some] \<open>s' = s\<close> show ?thesis using replay by blast
  next
    case None
    with assms obtain item where "\<not> ticket_clash s (new_ticket v tenant actor b item s)" "\<not> replayed"
      "w = decorate_ticket v (new_ticket v tenant actor b item s)"
      "s' = ticket_event tenant (tk_id (new_ticket v tenant actor b item s)) ''created'' actor
              (s\<lparr>tickets := tickets s @ [new_ticket v tenant actor b item s], o_seq := Suc (o_seq s)\<rparr>)"
      by (auto simp: createTicket_def rbind_Inr_iff Let_def split: if_splits)
    with None show ?thesis by (intro fresh [of item]) (simp_all add: decorate_ticket_def new_ticket_def)
  qed
qed

lemma new_ticket_simps [simp]:
  "tk_id (new_ticket v tenant actor b item s) = oid v s"
  "tk_state (new_ticket v tenant actor b item s) = ''NEW''"
  "tk_assignee (new_ticket v tenant actor b item s) = None"
  "tk_csat (new_ticket v tenant actor b item s) = None"
  "tk_tenant (new_ticket v tenant actor b item s) = tenant"
  "tk_key (new_ticket v tenant actor b item s) = real_key (ti_key b)"
  by (simp_all add: new_ticket_def)

lemma create_journal:
  assumes "createTicket v tenant actor b s = Inr ((w, replayed), s')" "oid v s \<notin> tk_id ` set (tickets s)"
  shows "lc_step TICKET_TRANSITIONS ''NEW'' (ticket_journal s) (ticket_journal s')"
  using assms(1)
proof (cases rule: createTicketE)
  case (replay t)
  then show ?thesis by (simp add: lc_idle)
next
  case (fresh item)
  obtain rows hist where j: "ticket_journal s = (rows, hist)" by force
  then have "ticket_journal s' = (rows @ [(oid v s, ''NEW'')], hist)"
    using fresh by (simp add: journal_event ticket_event_other) (simp add: ticket_journal_def)
  moreover have "oid v s \<notin> fst ` set rows" using assms(2) j by (force simp: ticket_journal_def)
  ultimately show ?thesis using j lc_create by metis
qed

lemma ticket_step_journal:
  "ticket_step le c s s' \<Longrightarrow> lc_step TICKET_TRANSITIONS ''NEW'' (ticket_journal s) (ticket_journal s')"
proof (induction rule: ticket_step.induct)
  case (ts_catalog v tenant actor code name category sla s item s')
  then have "ticket_journal s' = ticket_journal s"
    by (intro journal_cong) (auto simp: createCatalogItem_def rbind_Inr_iff Let_def log_audit_def split: if_splits)
  then show ?case by (rule same_journal_step)
next
  case (ts_create v tenant actor b s w s')
  then show ?case by (cases w) (auto intro: create_journal)
next
  case (ts_transition v tenant actor i a s w s')
  then show ?case by (auto simp: transitionTicket_def rbind_Inr_iff intro: move_ticket_step dest!: load_ticket_InrD)
next
  case (ts_claim v tenant actor i s w s')
  then show ?case
    by (auto simp: claimTicket_def rbind_Inr_iff intro: move_ticket_step [where f = "\<lambda>r. r\<lparr>tk_assignee := Some actor\<rparr>"] dest!: load_ticket_InrD)
next
  case (ts_resolve v tenant actor i s w s')
  then show ?case
    by (auto simp: resolveTicket_def rbind_Inr_iff intro: move_ticket_step [where f = "\<lambda>r. r\<lparr>tk_resolvedAt := Some (now v)\<rparr>"] dest!: load_ticket_InrD)
next
  case (ts_assign v tenant actor i wanted s w s')
  from ts_assign show ?case
  proof (rule assignTicketE)
    fix t s1 who
    assume l: "load_ticket s tenant i = Inr t" and s1: "tickets s1 = tickets s" "t_events s1 = t_events s"
      and m: "move_ticket v tenant actor T_assign (\<lambda>x. x\<lparr>tk_assignee := Some who\<rparr>) t s1 = Inr (w, s')"
    from l s1 have "t \<in> set (tickets s1)" by (simp add: load_ticket_InrD)
    from move_ticket_step [OF m this] journal_cong [OF s1] show ?thesis by simp
  qed
next
  case (ts_comment tenant actor i body nt vis s w s')
  then have "ticket_journal s' = ticket_journal s"
    by (auto simp: commentTicket_def rbind_Inr_iff journal_event ticket_event_other)
  then show ?case by (rule same_journal_step)
next
  case (ts_attach v tenant actor i d s w s')
  then have "ticket_journal s' = ticket_journal s"
    by (rule attachTicketE) (simp add: journal_event ticket_event_other, simp add: ticket_journal_def)
  then show ?case by (rule same_journal_step)
next
  case (ts_csat v tenant actor i score s w s')
  then obtain k where "s' = ticket_event tenant i ''csat'' actor (update_ticket i (\<lambda>r. r\<lparr>tk_csat := Some k\<rparr>) s)"
    by (rule csatTicketE)
  then have "ticket_journal s' = ticket_journal s"
    using view_frame [of tk_id i "\<lambda>r. r\<lparr>tk_csat := Some k\<rparr>" tk_state "tickets s"]
    by (simp add: journal_event ticket_event_other) (simp add: ticket_journal_def update_ticket_def)
  then show ?case by (rule same_journal_step)
qed

interpretation desk: event_sourced TICKET_TRANSITIONS "''NEW''" TICKET_TERMINAL ticket_journal "ticket_step le c" for le c
  by unfold_locales (auto simp: ticket_step_journal ticket.no_exit)


subsection \<open>Rows\<close>

text \<open>A ticket being worked on has an agent; a score belongs to a resolved ticket and is 1 to 5.\<close>

definition ticket_ok :: "ticket \<Rightarrow> bool" where
  "ticket_ok t \<longleftrightarrow>
     (tk_state t \<in> {''ASSIGNED'', ''IN_PROGRESS'', ''PENDING_REQUESTER'', ''RESOLVED'', ''CLOSED''} \<longrightarrow> tk_assignee t \<noteq> None) \<and>
     (\<forall>k. tk_csat t = Some k \<longrightarrow> 1 \<le> k \<and> k \<le> 5 \<and> tk_state t \<in> {''RESOLVED'', ''CLOSED''})"

definition ticket_ident :: "ticket \<Rightarrow> string \<times> string \<times> string option" where
  "ticket_ident t = (tk_id t, tk_tenant t, tk_key t)"

text \<open>One step rewrites one row without touching its identity, or adds a fresh one.\<close>

inductive rows_step :: "ticket list \<Rightarrow> ticket list \<Rightarrow> bool" where
  rows_same: "rows_step ts ts"
| rows_update: "t \<in> set ts \<Longrightarrow> tk_id t = i \<Longrightarrow> (\<And>r. ticket_ident (f r) = ticket_ident r) \<Longrightarrow>
     (ticket_ok t \<Longrightarrow> ticket_ok (f t)) \<Longrightarrow> rows_step ts (tupd (\<lambda>r. tk_id r = i) f ts)"
| rows_new: "tk_id t \<notin> tk_id ` set ts \<Longrightarrow> ticket_ok t \<Longrightarrow>
     (\<And>u. u \<in> set ts \<Longrightarrow> tk_tenant u = tk_tenant t \<Longrightarrow> tk_key t \<noteq> None \<Longrightarrow> tk_key u \<noteq> tk_key t) \<Longrightarrow>
     rows_step ts (ts @ [t])"

lemma move_ticket_rows:
  assumes "move_ticket v tenant actor a f t s = Inr (w, s')" "t \<in> set (tickets s)"
    and "\<And>r. ticket_ident (f r) = ticket_ident r"
    and ok: "\<And>to. ticketNext a (tk_state t) = Some to \<Longrightarrow> ticket_ok t \<Longrightarrow> ticket_ok ((f t)\<lparr>tk_state := to\<rparr>)"
  shows "rows_step (tickets s) (tickets s')"
  using assms(1)
proof (rule move_ticketE)
  fix to
  assume n: "ticketNext a (tk_state t) = Some to"
    and s': "s' = ticket_event tenant (tk_id t) (ticket_action_name a) actor (update_ticket (tk_id t) (\<lambda>r. (f r)\<lparr>tk_state := to\<rparr>) s)"
  have "ticket_ident ((f r)\<lparr>tk_state := to\<rparr>) = ticket_ident r" for r
    using assms(3) by (simp add: ticket_ident_def)
  with rows_update [OF assms(2) refl, of "\<lambda>r. (f r)\<lparr>tk_state := to\<rparr>"] ok [OF n] show ?thesis
    by (simp add: s' update_ticket_def)
qed

lemma move_keeps_ok:
  assumes "ticketNext a (tk_state t) = Some to" "ticket_ok t" "a \<in> {T_triage, T_start, T_pending, T_resume, T_close, T_cancel}"
  shows "ticket_ok (t\<lparr>tk_state := to\<rparr>)"
  using assms by (cases a) (auto simp: ticketNext_def table_next_Some_iff ticket_ok_def)

lemma move_assignee_ok:
  assumes "ticketNext a (tk_state t) = Some to" "ticket_ok t" "a \<in> {T_assign, T_claim}"
  shows "ticket_ok (t\<lparr>tk_assignee := Some u, tk_state := to\<rparr>)"
  using assms by (cases a) (auto simp: ticketNext_def table_next_Some_iff ticket_ok_def)

lemma move_resolve_ok:
  assumes "ticketNext T_resolve (tk_state t) = Some to" "ticket_ok t"
  shows "ticket_ok (t\<lparr>tk_resolvedAt := Some m, tk_state := to\<rparr>)"
  using assms by (auto simp: ticketNext_def table_next_Some_iff ticket_ok_def)

lemma ticket_step_rows: "ticket_step le c s s' \<Longrightarrow> rows_step (tickets s) (tickets s')"
proof (induction rule: ticket_step.induct)
  case (ts_catalog v tenant actor code name category sla s item s')
  then have "tickets s' = tickets s"
    by (auto simp: createCatalogItem_def rbind_Inr_iff Let_def log_audit_def split: if_splits)
  then show ?case by (simp add: rows_same)
next
  case (ts_create v tenant actor b s w s')
  obtain w1 rp where "w = (w1, rp)" by force
  with ts_create(1) have "createTicket v tenant actor b s = Inr ((w1, rp), s')" by simp
  then show ?case
  proof (cases rule: createTicketE)
    case (replay t)
    then show ?thesis by (simp add: rows_same)
  next
    case (fresh item)
    have "ticket_ok (new_ticket v tenant actor b item s)" by (simp add: ticket_ok_def)
    moreover have "tk_key u \<noteq> tk_key (new_ticket v tenant actor b item s)"
      if "u \<in> set (tickets s)" "tk_tenant u = tk_tenant (new_ticket v tenant actor b item s)"
        "tk_key (new_ticket v tenant actor b item s) \<noteq> None" for u
      using fresh(2) that unfolding ticket_clash_def by blast
    ultimately show ?thesis
      using rows_new [of "new_ticket v tenant actor b item s" "tickets s"] ts_create(2) fresh by simp
  qed
next
  case (ts_transition v tenant actor i a s w s')
  then obtain t where "t \<in> set (tickets s)" "move_ticket v tenant actor a id t s = Inr (w, s')"
    by (auto simp: transitionTicket_def rbind_Inr_iff dest!: load_ticket_InrD)
  note m = this
  show ?case
    by (rule move_ticket_rows [OF m(2,1)]) (simp_all add: move_keeps_ok [OF _ _ ts_transition(2)])
next
  case (ts_claim v tenant actor i s w s')
  then obtain t where "t \<in> set (tickets s)"
      "move_ticket v tenant actor T_claim (\<lambda>r. r\<lparr>tk_assignee := Some actor\<rparr>) t s = Inr (w, s')"
    by (auto simp: claimTicket_def rbind_Inr_iff dest!: load_ticket_InrD)
  note m = this
  show ?case by (rule move_ticket_rows [OF m(2,1)]) (simp_all add: move_assignee_ok ticket_ident_def)
next
  case (ts_resolve v tenant actor i s w s')
  then obtain t where "t \<in> set (tickets s)"
      "move_ticket v tenant actor T_resolve (\<lambda>r. r\<lparr>tk_resolvedAt := Some (now v)\<rparr>) t s = Inr (w, s')"
    by (auto simp: resolveTicket_def rbind_Inr_iff dest!: load_ticket_InrD)
  note m = this
  show ?case by (rule move_ticket_rows [OF m(2,1)]) (simp_all add: move_resolve_ok ticket_ident_def)
next
  case (ts_assign v tenant actor i wanted s w s')
  from ts_assign show ?case
  proof (rule assignTicketE)
    fix t s1 who
    assume "load_ticket s tenant i = Inr t" and s1: "tickets s1 = tickets s"
      and m: "move_ticket v tenant actor T_assign (\<lambda>x. x\<lparr>tk_assignee := Some who\<rparr>) t s1 = Inr (w, s')"
    then have "t \<in> set (tickets s1)" by (simp add: load_ticket_InrD)
    from move_ticket_rows [OF m this] s1 show ?thesis by (simp add: move_assignee_ok ticket_ident_def)
  qed
next
  case (ts_comment tenant actor i body nt vis s w s')
  then show ?case by (auto simp: commentTicket_def rbind_Inr_iff rows_same)
next
  case (ts_attach v tenant actor i d s w s')
  then have "tickets s' = tickets s"
    by (auto elim: attachTicketE)
  then show ?case by (simp add: rows_same)
next
  case (ts_csat v tenant actor i score s w s')
  then obtain t k where t: "load_ticket s tenant i = Inr t" "tk_state t \<in> {''RESOLVED'', ''CLOSED''}" "1 \<le> k" "k \<le> 5"
    "s' = ticket_event tenant i ''csat'' actor (update_ticket i (\<lambda>r. r\<lparr>tk_csat := Some k\<rparr>) s)"
    by (rule csatTicketE)
  then have "ticket_ok t \<Longrightarrow> ticket_ok (t\<lparr>tk_csat := Some k\<rparr>)" by (auto simp: ticket_ok_def)
  with t rows_update [of t "tickets s" i "\<lambda>r. r\<lparr>tk_csat := Some k\<rparr>"] show ?case
    by (simp add: update_ticket_def ticket_ident_def load_ticket_InrD)
qed


definition desk_rows :: "ticket list \<Rightarrow> bool" where
  "desk_rows ts \<longleftrightarrow> distinct (map tk_id ts) \<and> (\<forall>t \<in> set ts. ticket_ok t) \<and>
     (\<forall>t \<in> set ts. \<forall>u \<in> set ts. tk_tenant t = tk_tenant u \<longrightarrow> tk_key t \<noteq> None \<longrightarrow> tk_key t = tk_key u \<longrightarrow> tk_id t = tk_id u)"

lemma ident_eq: "ticket_ident t = ticket_ident u \<longleftrightarrow> tk_id t = tk_id u \<and> tk_tenant t = tk_tenant u \<and> tk_key t = tk_key u"
  by (simp add: ticket_ident_def)

text \<open>The key condition speaks of identities only.\<close>

definition keys_unique :: "(string \<times> string \<times> string option) set \<Rightarrow> bool" where
  "keys_unique I \<longleftrightarrow> (\<forall>a \<in> I. \<forall>b \<in> I. fst (snd a) = fst (snd b) \<longrightarrow> snd (snd a) \<noteq> None \<longrightarrow>
     snd (snd a) = snd (snd b) \<longrightarrow> fst a = fst b)"

lemma desk_rows_iff:
  "desk_rows ts \<longleftrightarrow> distinct (map tk_id ts) \<and> (\<forall>t \<in> set ts. ticket_ok t) \<and> keys_unique (ticket_ident ` set ts)"
  by (simp add: desk_rows_def keys_unique_def ticket_ident_def)

lemma rows_step_ok:
  "rows_step ts ts' \<Longrightarrow> desk_rows ts \<Longrightarrow> desk_rows ts' \<and> (\<exists>new. map ticket_ident ts' = map ticket_ident ts @ new)"
proof (induction rule: rows_step.induct)
  case (rows_update t ts i f)
  have ident: "map ticket_ident (tupd (\<lambda>r. tk_id r = i) f ts) = map ticket_ident ts"
    by (rule map_tupd_frame) (rule rows_update(3))
  then have sets: "ticket_ident ` set (tupd (\<lambda>r. tk_id r = i) f ts) = ticket_ident ` set ts" by (metis set_map)
  have "map tk_id (tupd (\<lambda>r. tk_id r = i) f ts) = map tk_id ts"
    by (rule map_tupd_frame) (use rows_update(3) ident_eq in blast)
  moreover have "ticket_ok r" if "r \<in> set (tupd (\<lambda>r. tk_id r = i) f ts)" for r
    using that
  proof (cases rule: in_set_tupdE)
    case (new r0)
    have "r0 = t"
      by (rule distinct_column_unique [of tk_id ts]) (use new rows_update desk_rows_def in simp_all)
    with new rows_update show ?thesis by (simp add: desk_rows_def)
  next
    case old
    with rows_update show ?thesis by (simp add: desk_rows_def)
  qed
  ultimately show ?case using rows_update(5) ident sets by (simp add: desk_rows_iff)
next
  case (rows_new t ts)
  have "tk_id a = tk_id b" if "a \<in> set (ts @ [t])" "b \<in> set (ts @ [t])" "tk_tenant a = tk_tenant b"
      "tk_key a \<noteq> None" "tk_key a = tk_key b" for a b
  proof (cases "a \<in> set ts \<and> b \<in> set ts")
    case True
    with rows_new(4) that(3,4,5) show ?thesis unfolding desk_rows_def by blast
  next
    case False
    with that rows_new(3) [of a] rows_new(3) [of b] show ?thesis by auto
  qed
  then have "\<forall>a \<in> set (ts @ [t]). \<forall>b \<in> set (ts @ [t]). tk_tenant a = tk_tenant b \<longrightarrow>
      tk_key a \<noteq> None \<longrightarrow> tk_key a = tk_key b \<longrightarrow> tk_id a = tk_id b" by blast
  moreover have "distinct (map tk_id (ts @ [t]))" "\<forall>r \<in> set (ts @ [t]). ticket_ok r"
    using rows_new by (simp_all add: desk_rows_def)
  ultimately have "desk_rows (ts @ [t])" unfolding desk_rows_def by blast
  then show ?case by simp
qed simp

lemma ticket_steps_rows:
  "(ticket_step le c)\<^sup>*\<^sup>* s s' \<Longrightarrow> desk_rows (tickets s) \<Longrightarrow>
   desk_rows (tickets s') \<and> (\<exists>new. map ticket_ident (tickets s') = map ticket_ident (tickets s) @ new)"
proof (induction rule: rtranclp_induct)
  case (step u w)
  then have "desk_rows (tickets u)" by simp
  from rows_step_ok [OF ticket_step_rows [OF step(2)] this] step(3,4) show ?case by auto
qed simp

subsection \<open>Properties\<close>

text \<open>
  C9. A ticket is what its history says: whatever handlers ran, the state of every ticket is the
  result of replaying, over the transition table from NEW, the actions recorded for it in the event
  log; and a ticket that was closed or cancelled still is.
\<close>
theorem tickets_replay:
  assumes "(ticket_step le c)\<^sup>*\<^sup>* s s'" "replays TICKET_TRANSITIONS ''NEW'' (ticket_journal s)"
    and "distinct (map tk_id (tickets s))"
  shows "(\<forall>t \<in> set (tickets s'). table_run TICKET_TRANSITIONS ''NEW'' (actions_of (tk_id t) (snd (ticket_journal s'))) = Some (tk_state t)) \<and>
         (\<forall>t \<in> set (tickets s). \<forall>u \<in> set (tickets s'). tk_id u = tk_id t \<longrightarrow> tk_state t \<in> set TICKET_TERMINAL \<longrightarrow>
            tk_state u = tk_state t)"
proof
  from desk.replay [OF assms(1,2)]
  show "\<forall>t \<in> set (tickets s'). table_run TICKET_TRANSITIONS ''NEW'' (actions_of (tk_id t) (snd (ticket_journal s'))) = Some (tk_state t)"
    by (simp add: replays_def ticket_journal_def)
  show "\<forall>t \<in> set (tickets s). \<forall>u \<in> set (tickets s'). tk_id u = tk_id t \<longrightarrow> tk_state t \<in> set TICKET_TERMINAL \<longrightarrow>
      tk_state u = tk_state t"
  proof (intro ballI impI)
    fix t u
    assume t: "t \<in> set (tickets s)" "u \<in> set (tickets s')" "tk_id u = tk_id t" "tk_state t \<in> set TICKET_TERMINAL"
    have "(tk_id t, tk_state t) \<in> set (fst (ticket_journal s))" using t(1) by (simp add: ticket_journal_def)
    moreover have "y = tk_state t" if "(tk_id t, y) \<in> set (fst (ticket_journal s))" for y
    proof -
      from that obtain r where r: "r \<in> set (tickets s)" "tk_id r = tk_id t" "y = tk_state r"
        by (auto simp: ticket_journal_def)
      from distinct_column_unique [OF assms(3) r(1) t(1) r(2)] r(3) show ?thesis by simp
    qed
    ultimately have "\<forall>y. (tk_id t, y) \<in> set (fst (ticket_journal s')) \<longrightarrow> y = tk_state t"
      using desk.terminal_stays [OF assms(1) _ t(4)] by blast
    moreover have "(tk_id u, tk_state u) \<in> set (fst (ticket_journal s'))" using t(2) by (simp add: ticket_journal_def)
    ultimately show "tk_state u = tk_state t" using t(3) by simp
  qed
qed

text \<open>
  Work has an agent and scores make sense: after any handlers, a ticket in ASSIGNED,
  IN_PROGRESS, PENDING_REQUESTER, RESOLVED or CLOSED has an assignee, and a satisfaction score is
  an integer from 1 to 5 on a resolved or closed ticket.
\<close>
theorem tickets_consistent:
  assumes "(ticket_step le c)\<^sup>*\<^sup>* s s'" "desk_rows (tickets s)" "t \<in> set (tickets s')"
  shows "(tk_state t \<in> {''ASSIGNED'', ''IN_PROGRESS'', ''PENDING_REQUESTER'', ''RESOLVED'', ''CLOSED''} \<longrightarrow> tk_assignee t \<noteq> None) \<and>
         (\<forall>k. tk_csat t = Some k \<longrightarrow> 1 \<le> k \<and> k \<le> 5 \<and> tk_state t \<in> {''RESOLVED'', ''CLOSED''})"
  using ticket_steps_rows [OF assms(1,2)] assms(3) by (simp add: desk_rows_def ticket_ok_def)

text \<open>
  One ticket per key: after a creation with an idempotency key, whatever handlers run, a later
  creation in the tenant with the same key and a title, by whomever and with whatever contents,
  returns the ticket of the first and changes nothing.
\<close>
theorem ticket_created_once:
  assumes first: "createTicket v tenant actor b s = Inr ((w, replayed), s')" and ok: "desk_rows (tickets s)"
    and fresh_id: "oid v s \<notin> tk_id ` set (tickets s)"
    and key: "truthy_str (ti_key b)" and later: "(ticket_step le c)\<^sup>*\<^sup>* s' s''"
    and same: "ti_key b' = ti_key b" and title: "ti_title b' \<noteq> []"
  shows "\<exists>w'. createTicket v' tenant actor' b' s'' = Inr ((w', True), s'') \<and>
              tk_id (tv_ticket w') = tk_id (tv_ticket w)"
proof -
  let ?k = "real_key (ti_key b)"
  from key have k: "?k \<noteq> None" by (auto simp: real_key_def truthy_str_def split: option.splits)
  have step: "ticket_step le c s s'" by (rule ts_create [OF first fresh_id])
  have t: "tv_ticket w \<in> set (tickets s')" "tk_tenant (tv_ticket w) = tenant" "tk_key (tv_ticket w) = ?k"
    using first by (cases rule: createTicketE; simp)+
  from rows_step_ok [OF ticket_step_rows [OF step] ok] have "desk_rows (tickets s')" by simp
  from ticket_steps_rows [OF later this] obtain new where rows: "desk_rows (tickets s'')"
    and ids: "map ticket_ident (tickets s'') = map ticket_ident (tickets s') @ new" by blast
  from t(1) have "ticket_ident (tv_ticket w) \<in> set (map ticket_ident (tickets s''))" unfolding ids by simp
  then obtain u where u: "u \<in> set (tickets s'')" "tk_id u = tk_id (tv_ticket w)" "tk_tenant u = tenant" "tk_key u = ?k"
    using t by (auto simp: ident_eq)
  then have "tfind (\<lambda>t. tk_tenant t = tenant \<and> tk_key t = ?k) (tickets s'') \<noteq> None"
    by (auto simp: tfind_None_iff)
  with k obtain x where x: "ticket_by_key s'' tenant ?k = Some x" by (auto simp: ticket_by_key_def)
  then have "x \<in> set (tickets s'')" "tk_tenant x = tenant" "tk_key x = ?k"
    by (auto simp: ticket_by_key_def split: if_splits dest!: tfind_SomeD)
  with u rows k have "tk_id x = tk_id (tv_ticket w)" unfolding desk_rows_def by metis
  with x title same show ?thesis by (simp add: createTicket_def decorate_ticket_def)
qed


text \<open>
  Whose ticket it is: a state transition (other than triage, which the route reserves to
  managers) that takes effect is by the assignee, by the requester when it cancels, or by a user
  whose permissions contain \<open>ticket.manage\<close>; it follows the table and changes the state of that one
  ticket.
\<close>
theorem ticket_moved_by_right:
  assumes "transitionTicket v tenant actor i a s = Inr (w, s')"
  shows "\<exists>t to. t \<in> set (tickets s) \<and> tk_id t = i \<and> tk_tenant t = tenant \<and> ticketNext a (tk_state t) = Some to \<and>
     (a = T_triage \<or> (if a = T_cancel then actor = tk_requester t else tk_assignee t = Some actor) \<or>
      can (o_org s) actor ''ticket.manage'' None = Granted) \<and>
     tickets s' = tupd (\<lambda>r. tk_id r = i) (\<lambda>r. r\<lparr>tk_state := to\<rparr>) (tickets s)"
proof -
  from assms obtain t where l: "load_ticket s tenant i = Inr t" and "assertTicketActor s t actor a = Inr ()"
    and m: "move_ticket v tenant actor a id t s = Inr (w, s')"
    by (auto simp: transitionTicket_def rbind_Inr_iff)
  from this(2) have "a = T_triage \<or> (if a = T_cancel then actor = tk_requester t else tk_assignee t = Some actor) \<or>
      can (o_org s) actor ''ticket.manage'' None = Granted"
    by (auto simp: assertTicketActor_def manages_def split: if_splits)
  with l m load_ticket_InrD [OF l] show ?thesis
    by (auto elim!: move_ticketE simp: update_ticket_def intro!: exI [of _ t])
qed

subsection \<open>An example\<close>

definition empty_desk :: tdb where
  "empty_desk = \<lparr>o_docs = [], o_versions = [], o_files = [], o_res = [], o_audit = [], o_org = empty_idb, o_seq = 0,
     catalog = [], tickets = [], t_events = []\<rparr>"

definition laptop :: ticket_in where
  "laptop = \<lparr>ti_title = ''Laptop'', ti_catalog = None, ti_category = None, ti_priority = Some ''high'', ti_code = None,
     ti_requester = None, ti_key = Some ''k1''\<rparr>"

definition opened :: "((ticket_view \<times> bool) \<times> tdb) res" where
  "opened = createTicket demo_env ''t1'' ''u1'' laptop empty_desk"

definition desk1 :: tdb where "desk1 = snd (projr opened)"

definition claimed :: "(ticket_view \<times> tdb) res" where
  "claimed = claimTicket demo_env ''t1'' ''an'' ''id0'' desk1"

definition desk2 :: tdb where "desk2 = snd (projr claimed)"

definition started :: "(ticket_view \<times> tdb) res" where
  "started = transitionTicket demo_env ''t1'' ''an'' ''id0'' T_start desk2"

lemma desk_runs: "is_ok opened" "is_ok claimed" "is_ok started"
  "map tk_id (tickets desk2) = [''id0'']" "map tk_state (tickets desk2) = [''ASSIGNED'']"
  by code_simp+

lemma opened_eq: "createTicket demo_env ''t1'' ''u1'' laptop empty_desk =
    Inr ((fst (fst (projr opened)), snd (fst (projr opened))), desk1)"
  unfolding prod.collapse desk1_def opened_def [symmetric] by (rule ok_projr) (rule desk_runs)

lemma claimed_eq: "claimTicket demo_env ''t1'' ''an'' ''id0'' desk1 = Inr (fst (projr claimed), desk2)"
  unfolding desk2_def claimed_def [symmetric] by (rule ok_pair) (rule desk_runs)

lemma started_eq: "transitionTicket demo_env ''t1'' ''an'' ''id0'' T_start desk2 =
    Inr (fst (projr started), snd (projr started))"
  unfolding started_def [symmetric] by (rule ok_pair) (rule desk_runs)

lemma desk_rows_empty: "desk_rows (tickets empty_desk)"
  by (simp add: empty_desk_def desk_rows_def)

lemma desk_run: "(ticket_step lex_le demo_codec)\<^sup>*\<^sup>* empty_desk desk2"
proof -
  have "ticket_step lex_le demo_codec empty_desk desk1"
    by (rule ts_create [OF opened_eq]) (simp add: empty_desk_def)
  moreover have "ticket_step lex_le demo_codec desk1 desk2" by (rule ts_claim [OF claimed_eq])
  ultimately show ?thesis by (meson converse_rtranclp_into_rtranclp r_into_rtranclp)
qed

lemma tickets_replay_witness:
  "table_run TICKET_TRANSITIONS ''NEW'' (actions_of ''id0'' (snd (ticket_journal desk2))) = Some ''ASSIGNED''"
proof -
  have "replays TICKET_TRANSITIONS ''NEW'' (ticket_journal empty_desk)" "distinct (map tk_id (tickets empty_desk))"
    by (simp_all add: replays_def ticket_journal_def empty_desk_def)
  from tickets_replay [OF desk_run this, THEN conjunct1] desk_runs(4,5) show ?thesis
    by (cases "tickets desk2") auto
qed

lemma tickets_consistent_witness: "tk_assignee (hd (tickets desk2)) \<noteq> None"
proof -
  have "hd (tickets desk2) \<in> set (tickets desk2)" "tk_state (hd (tickets desk2)) = ''ASSIGNED''"
    using desk_runs(4,5) by (cases "tickets desk2"; simp)+
  with tickets_consistent [OF desk_run desk_rows_empty this(1)] show ?thesis by simp
qed

lemma ticket_created_once_witness:
  "\<exists>w'. createTicket demo_env ''t1'' ''mallory'' (laptop\<lparr>ti_title := ''Phone''\<rparr>) desk2 = Inr ((w', True), desk2) \<and>
        tk_id (tv_ticket w') = tk_id (tv_ticket (fst (fst (projr opened))))"
proof (rule ticket_created_once [OF opened_eq desk_rows_empty])
  show "(ticket_step lex_le demo_codec)\<^sup>*\<^sup>* desk1 desk2" by (rule r_into_rtranclp, rule ts_claim [OF claimed_eq])
qed (simp_all add: laptop_def empty_desk_def)

lemma ticket_moved_by_right_witness:
  "\<exists>t to. t \<in> set (tickets desk2) \<and> tk_id t = ''id0'' \<and> ticketNext T_start (tk_state t) = Some to"
  using ticket_moved_by_right [OF started_eq] by blast

end
