(* ===== verification/Bookings.thy ===== *)
theory Bookings
  imports Lifecycle
begin

section \<open>Booking of shared resources\<close>

text \<open>
  xhub-api/src/bookings/bookings.service.ts: resources, creation with its idempotency key and the
  conflict check, approval with the check repeated, the other transitions with the ownership gate,
  comments, attachments and the paged list. The tables extend \<open>odb\<close>.
\<close>

subsection \<open>State\<close>

record bookable =
  br_id :: string
  br_tenant :: string
  br_code :: string
  br_name :: string
  br_type :: string
  br_capacity :: "int option"
  br_orgUnit :: "string option"

record booking =
  bk_id :: string
  bk_tenant :: string
  bk_code :: string
  bk_resource :: string
  bk_requester :: string
  bk_title :: string
  bk_start :: int
  bk_end :: int
  bk_attendees :: "int option"
  bk_orgUnit :: "string option"
  bk_state :: string
  bk_checkedIn :: "int option"
  bk_checkedOut :: "int option"
  bk_noShow :: bool
  bk_key :: "string option"

record booking_log =
  be_tenant :: string
  be_booking :: string
  be_type :: string
  be_actor :: string

record bdb = odb +
  resources :: "bookable list"
  bookings :: "booking list"
  b_events :: "booking_log list"

subsection \<open>Events, rows and legality\<close>

fun booking_action_name :: "booking_action \<Rightarrow> string" where
  "booking_action_name B_approve = ''approve''"
| "booking_action_name B_reject = ''reject''"
| "booking_action_name B_cancel = ''cancel''"
| "booking_action_name B_check_in = ''check-in''"
| "booking_action_name B_check_out = ''check-out''"
| "booking_action_name B_no_show = ''no-show''"

definition booking_event :: "string \<Rightarrow> string \<Rightarrow> string \<Rightarrow> string \<Rightarrow> bdb \<Rightarrow> bdb" where
  "booking_event tenant i ty actor s =
     log_audit tenant actor i (''booking.'' @ ty)
       (s\<lparr>b_events := b_events s @ [\<lparr>be_tenant = tenant, be_booking = i, be_type = ty, be_actor = actor\<rparr>]\<rparr>)"

definition assertLegalBooking :: "booking_action \<Rightarrow> string \<Rightarrow> string res" where
  "assertLegalBooking a st =
     (case bookingNext a st of None \<Rightarrow> Inl (BadRequest ''Illegal booking transition'') | Some t \<Rightarrow> Inr t)"

definition load_booking :: "bdb \<Rightarrow> string \<Rightarrow> string \<Rightarrow> booking res" where
  "load_booking s tenant i =
     (case tfind (\<lambda>b. bk_id b = i \<and> bk_tenant b = tenant) (bookings s) of
        None \<Rightarrow> Inl (NotFound ''booking not found'') | Some b \<Rightarrow> Inr b)"

definition update_booking :: "string \<Rightarrow> (booking \<Rightarrow> booking) \<Rightarrow> bdb \<Rightarrow> bdb" where
  "update_booking i f s = s\<lparr>bookings := tupd (\<lambda>b. bk_id b = i) f (bookings s)\<rparr>"

record booking_view =
  bv_booking :: booking
  bv_overdue :: bool
  bv_legal :: "booking_action list"

definition decorate_booking :: "env \<Rightarrow> booking \<Rightarrow> booking_view" where
  "decorate_booking v b =
     \<lparr>bv_booking = b, bv_overdue = booking_isOverdue (now v) (Some (bk_end b)) (bk_state b),
      bv_legal = bookingLegalActions (bk_state b)\<rparr>"

definition assertBookingActor :: "bdb \<Rightarrow> booking \<Rightarrow> string \<Rightarrow> unit res" where
  "assertBookingActor s b actor =
     (if actor = bk_requester b then Inr ()
      else ensure (can (o_org s) actor ''booking.manage'' None = Granted)
             (Forbidden ''Only the requester or booking.manage may act on this booking.''))"

text \<open>\<open>assertNoConflict\<close>: an active booking of the resource whose window overlaps, other than the excluded one.\<close>

definition conflicting :: "string \<Rightarrow> string \<Rightarrow> int \<Rightarrow> int \<Rightarrow> string option \<Rightarrow> booking \<Rightarrow> bool" where
  "conflicting tenant resource startAt endAt exclude b \<longleftrightarrow>
     bk_tenant b = tenant \<and> bk_resource b = resource \<and> bk_state b \<in> set BOOKING_ACTIVE \<and>
     (truthy_str exclude \<longrightarrow> Some (bk_id b) \<noteq> exclude) \<and> overlaps startAt endAt (bk_start b) (bk_end b)"

definition assertNoConflict :: "bdb \<Rightarrow> string \<Rightarrow> string \<Rightarrow> int \<Rightarrow> int \<Rightarrow> string option \<Rightarrow> unit res" where
  "assertNoConflict s tenant resource startAt endAt exclude =
     ensure (tfind (conflicting tenant resource startAt endAt exclude) (bookings s) = None)
       (Conflict ''Booking conflict on resource'')"

subsection \<open>Resources and creation\<close>

definition createResource ::
  "env \<Rightarrow> string \<Rightarrow> string \<Rightarrow> string option \<Rightarrow> string \<Rightarrow> string option \<Rightarrow> int option \<Rightarrow> string option \<Rightarrow> bdb \<Rightarrow> (bookable \<times> bdb) res" where
  "createResource v tenant actor code name type capacity orgUnit s =
     rbind (ensure (name \<noteq> []) (BadRequest ''name is required'')) (\<lambda>_.
       let item = \<lparr>br_id = oid v s, br_tenant = tenant, br_code = coalesce code (''RES-'' @ stamp v), br_name = name,
                   br_type = to_upper (coalesce type ''ROOM''), br_capacity = capacity, br_orgUnit = orgUnit\<rparr>
       in if \<exists>r \<in> set (resources s). br_tenant r = tenant \<and> br_code r = br_code item then Inl UniqueViolation
          else Inr (item, log_audit tenant actor (br_id item) ''bookable_resource.create''
                 (s\<lparr>resources := resources s @ [item], o_seq := Suc (o_seq s)\<rparr>)))"

record booking_in =
  bi_title :: string
  bi_resource :: string
  bi_start :: date_in
  bi_end :: date_in
  bi_attendees :: "int option"
  bi_code :: "string option"
  bi_requester :: "string option"
  bi_key :: "string option"

definition booking_by_key :: "bdb \<Rightarrow> string \<Rightarrow> string option \<Rightarrow> booking option" where
  "booking_by_key s tenant key =
     (if truthy_str key then tfind (\<lambda>b. bk_tenant b = tenant \<and> bk_key b = key) (bookings s) else None)"

definition booking_clash :: "bdb \<Rightarrow> booking \<Rightarrow> bool" where
  "booking_clash s b = (\<exists>u \<in> set (bookings s). bk_tenant u = bk_tenant b \<and>
     (bk_code u = bk_code b \<or> (bk_key b \<noteq> None \<and> bk_key u = bk_key b)))"

text \<open>
  Creation reads first (validation, the resource, the conflict check) and writes last. The two
  phases are separate definitions because other transactions can run between them.
\<close>

definition booking_window :: "date_in \<Rightarrow> date_in \<Rightarrow> (int \<times> int) res" where
  "booking_window a b =
     (case (a, b) of
        (At x, At y) \<Rightarrow> (if y \<le> x then Inl (BadRequest ''endAt must be after startAt'') else Inr (x, y))
      | _ \<Rightarrow> Inl (BadRequest ''startAt / endAt must be valid dates''))"

definition check_booking :: "string \<Rightarrow> booking_in \<Rightarrow> bdb \<Rightarrow> (bookable \<times> int \<times> int) res" where
  "check_booking tenant b s =
     (case tfind (\<lambda>r. br_id r = bi_resource b \<and> br_tenant r = tenant) (resources s) of
        None \<Rightarrow> Inl (BadRequest ''bookable resource not found'')
      | Some r \<Rightarrow>
          rbind (booking_window (bi_start b) (bi_end b)) (\<lambda>(x, y).
          rbind (assertNoConflict s tenant (bi_resource b) x y None) (\<lambda>_. Inr (r, x, y))))"

definition new_booking :: "env \<Rightarrow> string \<Rightarrow> string \<Rightarrow> booking_in \<Rightarrow> bookable \<times> int \<times> int \<Rightarrow> bdb \<Rightarrow> booking" where
  "new_booking v tenant actor b c s =
     \<lparr>bk_id = oid v s, bk_tenant = tenant, bk_code = coalesce (bi_code b) (gen_code v ''BKG'' (o_seq s)),
      bk_resource = bi_resource b, bk_requester = coalesce (bi_requester b) actor, bk_title = bi_title b,
      bk_start = fst (snd c), bk_end = snd (snd c), bk_attendees = bi_attendees b, bk_orgUnit = br_orgUnit (fst c),
      bk_state = ''REQUESTED'', bk_checkedIn = None, bk_checkedOut = None, bk_noShow = False,
      bk_key = (if truthy_str (bi_key b) then bi_key b else None)\<rparr>"

definition insert_booking ::
  "env \<Rightarrow> string \<Rightarrow> string \<Rightarrow> booking_in \<Rightarrow> bookable \<times> int \<times> int \<Rightarrow> bdb \<Rightarrow> ((booking_view \<times> bool) \<times> bdb) res" where
  "insert_booking v tenant actor b c s =
     (let k = new_booking v tenant actor b c s
      in if booking_clash s k then
           (case booking_by_key s tenant (bi_key b) of
              Some u \<Rightarrow> Inr ((decorate_booking v u, True), s) | None \<Rightarrow> Inl UniqueViolation)
         else Inr ((decorate_booking v k, False),
                booking_event tenant (bk_id k) ''created'' actor
                  (s\<lparr>bookings := bookings s @ [k], o_seq := Suc (o_seq s)\<rparr>)))"

definition createBooking ::
  "env \<Rightarrow> string \<Rightarrow> string \<Rightarrow> booking_in \<Rightarrow> bdb \<Rightarrow> ((booking_view \<times> bool) \<times> bdb) res" where
  "createBooking v tenant actor b s =
     rbind (ensure (bi_title b \<noteq> []) (BadRequest ''title is required'')) (\<lambda>_.
     rbind (ensure (bi_resource b \<noteq> []) (BadRequest ''resourceId is required'')) (\<lambda>_.
     rbind (ensure (bi_start b \<noteq> Absent \<and> bi_end b \<noteq> Absent) (BadRequest ''startAt and endAt are required'')) (\<lambda>_.
       case booking_by_key s tenant (bi_key b) of
         Some k \<Rightarrow> Inr ((decorate_booking v k, True), s)
       | None \<Rightarrow> rbind (check_booking tenant b s) (\<lambda>c. insert_booking v tenant actor b c s))))"

subsection \<open>Transitions\<close>

definition move_booking ::
  "env \<Rightarrow> string \<Rightarrow> string \<Rightarrow> booking_action \<Rightarrow> (booking \<Rightarrow> booking) \<Rightarrow> booking \<Rightarrow> string \<Rightarrow> bdb \<Rightarrow> (booking_view \<times> bdb) res" where
  "move_booking v tenant actor a f b to s =
     (let g = (\<lambda>r. (f r)\<lparr>bk_state := to\<rparr>)
      in Inr (decorate_booking v (g b),
              booking_event tenant (bk_id b) (booking_action_name a) actor (update_booking (bk_id b) g s)))"

definition approveBooking :: "env \<Rightarrow> string \<Rightarrow> string \<Rightarrow> string \<Rightarrow> bdb \<Rightarrow> (booking_view \<times> bdb) res" where
  "approveBooking v tenant actor i s =
     rbind (load_booking s tenant i) (\<lambda>b.
     rbind (assertLegalBooking B_approve (bk_state b)) (\<lambda>to.
     rbind (assertNoConflict s tenant (bk_resource b) (bk_start b) (bk_end b) (Some (bk_id b))) (\<lambda>_.
       move_booking v tenant actor B_approve id b to s)))"

definition own_transition ::
  "env \<Rightarrow> string \<Rightarrow> string \<Rightarrow> string \<Rightarrow> booking_action \<Rightarrow> (booking \<Rightarrow> booking) \<Rightarrow> bdb \<Rightarrow> (booking_view \<times> bdb) res" where
  "own_transition v tenant actor i a f s =
     rbind (load_booking s tenant i) (\<lambda>b.
     rbind (assertBookingActor s b actor) (\<lambda>_.
     rbind (assertLegalBooking a (bk_state b)) (\<lambda>to. move_booking v tenant actor a f b to s)))"

definition transitionBooking :: "env \<Rightarrow> string \<Rightarrow> string \<Rightarrow> string \<Rightarrow> booking_action \<Rightarrow> bdb \<Rightarrow> (booking_view \<times> bdb) res" where
  "transitionBooking v tenant actor i a s = own_transition v tenant actor i a id s"

definition cancelBooking :: "env \<Rightarrow> string \<Rightarrow> string \<Rightarrow> string \<Rightarrow> bdb \<Rightarrow> (booking_view \<times> bdb) res" where
  "cancelBooking v tenant actor i s = transitionBooking v tenant actor i B_cancel s"

definition checkIn :: "env \<Rightarrow> string \<Rightarrow> string \<Rightarrow> string \<Rightarrow> bdb \<Rightarrow> (booking_view \<times> bdb) res" where
  "checkIn v tenant actor i s = own_transition v tenant actor i B_check_in (\<lambda>b. b\<lparr>bk_checkedIn := Some (now v)\<rparr>) s"

definition checkOut :: "env \<Rightarrow> string \<Rightarrow> string \<Rightarrow> string \<Rightarrow> bdb \<Rightarrow> (booking_view \<times> bdb) res" where
  "checkOut v tenant actor i s = own_transition v tenant actor i B_check_out (\<lambda>b. b\<lparr>bk_checkedOut := Some (now v)\<rparr>) s"

definition noShow :: "env \<Rightarrow> string \<Rightarrow> string \<Rightarrow> string \<Rightarrow> bdb \<Rightarrow> (booking_view \<times> bdb) res" where
  "noShow v tenant actor i s =
     rbind (load_booking s tenant i) (\<lambda>b.
     rbind (assertLegalBooking B_no_show (bk_state b)) (\<lambda>to.
       move_booking v tenant actor B_no_show (\<lambda>b. b\<lparr>bk_noShow := True\<rparr>) b to s))"

definition commentBooking :: "string \<Rightarrow> string \<Rightarrow> string \<Rightarrow> string option \<Rightarrow> string option \<Rightarrow> bdb \<Rightarrow> (unit \<times> bdb) res" where
  "commentBooking tenant actor i body note s =
     rbind (load_booking s tenant i) (\<lambda>_.
     rbind (ensure (truthy_str (coalesce_opt body note)) (BadRequest ''comment body is required'')) (\<lambda>_.
       Inr ((), booking_event tenant i ''comment'' actor s)))"

definition attachBooking ::
  "codec \<Rightarrow> env \<Rightarrow> string \<Rightarrow> string \<Rightarrow> string \<Rightarrow> attach_in \<Rightarrow> bdb \<Rightarrow> (doc_version \<times> bdb) res" where
  "attachBooking c v tenant actor i b s =
     rbind (load_booking s tenant i) (\<lambda>k.
     rbind (createDocument c v tenant (Some actor)
              (attachment_doc ''Booking'' i (bk_code k) ''booking attachment'' [''attachment'', ''booking''] b) s) (\<lambda>(d, row, s1).
       Inr (row, booking_event tenant i ''attachment'' actor s1)))"

subsection \<open>The list\<close>

record booking_filter =
  bf_scope :: "string option"
  bf_state :: "string option"
  bf_resource :: "string option"
  bf_from :: "int option"
  bf_to :: "int option"
  bf_q :: "string option"

definition booking_matches :: "string \<Rightarrow> string \<Rightarrow> booking_filter \<Rightarrow> booking \<Rightarrow> bool" where
  "booking_matches tenant actor f b \<longleftrightarrow> bk_tenant b = tenant \<and>
     (bf_scope f = Some ''mine'' \<longrightarrow> bk_requester b = actor) \<and>
     (truthy_str (bf_state f) \<longrightarrow> Some (bk_state b) = bf_state f) \<and>
     (truthy_str (bf_resource f) \<longrightarrow> Some (bk_resource b) = bf_resource f) \<and>
     (truthy_str (bf_q f) \<longrightarrow> includes_str (to_lower (the (bf_q f))) (to_lower (bk_title b))) \<and>
     (case bf_from f of None \<Rightarrow> True | Some x \<Rightarrow> x \<le> bk_end b) \<and>
     (case bf_to f of None \<Rightarrow> True | Some y \<Rightarrow> bk_start b \<le> y)"

definition listBookings ::
  "env \<Rightarrow> string \<Rightarrow> string \<Rightarrow> booking_filter \<Rightarrow> int option \<Rightarrow> int option \<Rightarrow> bdb \<Rightarrow> booking_view list \<times> nat \<times> nat \<times> nat" where
  "listBookings v tenant actor f page pageSize s =
     (let rows = map (decorate_booking v) (sort_key bk_start (filter (booking_matches tenant actor f) (bookings s)));
          p = page_no page; sz = page_size 200 50 pageSize
      in (page_slice p sz rows, length rows, p, sz))"


subsection \<open>What the handlers do to the tables\<close>

definition booking_event_action :: "string \<Rightarrow> booking_action option" where
  "booking_event_action ty = tfind (\<lambda>a. booking_action_name a = ty) booking_actions"

definition booking_history :: "bdb \<Rightarrow> (string \<times> booking_action) list" where
  "booking_history s = history_of be_booking (\<lambda>e. booking_event_action (be_type e)) (b_events s)"

definition booking_journal :: "bdb \<Rightarrow> booking_action journal" where
  "booking_journal s = (map (\<lambda>b. (bk_id b, bk_state b)) (bookings s), booking_history s)"

lemma booking_event_action_name: "booking_event_action (booking_action_name a) = Some a"
  by (cases a) (simp_all add: booking_event_action_def booking_actions_def table_simps)

lemma booking_event_other:
  "booking_event_action ''created'' = None" "booking_event_action ''comment'' = None" "booking_event_action ''attachment'' = None"
  by code_simp+

lemma booking_event_simps [simp]:
  "bookings (booking_event tenant i ty actor s) = bookings s"
  "booking_history (booking_event tenant i ty actor s) =
     booking_history s @ (case booking_event_action ty of None \<Rightarrow> [] | Some a \<Rightarrow> [(i, a)])"
  by (simp_all add: booking_event_def log_audit_def booking_history_def split: option.split)

lemma update_booking_simps [simp]:
  "bookings (update_booking i f s) = tupd (\<lambda>b. bk_id b = i) f (bookings s)"
  "booking_history (update_booking i f s) = booking_history s"
  by (simp_all add: update_booking_def booking_history_def)

lemma load_booking_InrD: "load_booking s tenant i = Inr b \<Longrightarrow> b \<in> set (bookings s) \<and> bk_id b = i \<and> bk_tenant b = tenant"
  by (auto simp: load_booking_def split: option.splits dest: tfind_SomeD)

lemma assertLegalBooking_Inr: "assertLegalBooking a st = Inr to \<longleftrightarrow> bookingNext a st = Some to"
  by (auto simp: assertLegalBooking_def split: option.splits)

text \<open>A handler either leaves both tables alone, or moves one booking along the table, or adds one.\<close>

inductive booking_effect :: "bdb \<Rightarrow> bdb \<Rightarrow> bool" where
  be_none: "bookings s' = bookings s \<Longrightarrow> booking_history s' = booking_history s \<Longrightarrow> booking_effect s s'"
| be_move: "b \<in> set (bookings s) \<Longrightarrow> bk_id b = i \<Longrightarrow> bookingNext a (bk_state b) = Some to \<Longrightarrow>
     (\<And>r. bk_id (f r) = bk_id r \<and> bk_tenant (f r) = bk_tenant r \<and> bk_resource (f r) = bk_resource r \<and>
          bk_start (f r) = bk_start r \<and> bk_end (f r) = bk_end r \<and> bk_state (f r) = to) \<Longrightarrow>
     bookings s' = tupd (\<lambda>r. bk_id r = i) f (bookings s) \<Longrightarrow> booking_history s' = booking_history s @ [(i, a)] \<Longrightarrow>
     booking_effect s s'"
| be_new: "bk_state b = ''REQUESTED'' \<Longrightarrow> bk_start b < bk_end b \<Longrightarrow>
     (\<forall>u \<in> set (bookings s). \<not> conflicting (bk_tenant b) (bk_resource b) (bk_start b) (bk_end b) None u) \<Longrightarrow>
     bk_id b \<notin> bk_id ` set (bookings s) \<Longrightarrow>
     bookings s' = bookings s @ [b] \<Longrightarrow> booking_history s' = booking_history s \<Longrightarrow> booking_effect s s'"

lemma move_booking_effect:
  assumes "move_booking v tenant actor a f b to s = Inr (w, s')" "b \<in> set (bookings s)" "bookingNext a (bk_state b) = Some to"
    and f: "\<And>r. bk_id (f r) = bk_id r \<and> bk_tenant (f r) = bk_tenant r \<and> bk_resource (f r) = bk_resource r \<and>
          bk_start (f r) = bk_start r \<and> bk_end (f r) = bk_end r"
  shows "booking_effect s s'"
proof -
  from assms(1) have "s' = booking_event tenant (bk_id b) (booking_action_name a) actor
      (update_booking (bk_id b) (\<lambda>r. (f r)\<lparr>bk_state := to\<rparr>) s)"
    by (simp add: move_booking_def Let_def)
  then show ?thesis
    using f by (intro be_move [OF assms(2) refl assms(3), of "\<lambda>r. (f r)\<lparr>bk_state := to\<rparr>"])
      (simp_all add: booking_event_action_name)
qed

lemma own_transition_effect:
  assumes "own_transition v tenant actor i a f s = Inr (w, s')"
    and "\<And>r. bk_id (f r) = bk_id r \<and> bk_tenant (f r) = bk_tenant r \<and> bk_resource (f r) = bk_resource r \<and>
          bk_start (f r) = bk_start r \<and> bk_end (f r) = bk_end r"
  shows "booking_effect s s'"
proof -
  from assms(1) obtain b to where "load_booking s tenant i = Inr b" "bookingNext a (bk_state b) = Some to"
    "move_booking v tenant actor a f b to s = Inr (w, s')"
    by (auto simp: own_transition_def rbind_Inr_iff assertLegalBooking_Inr)
  then show ?thesis using move_booking_effect assms(2) by (blast dest: load_booking_InrD)
qed

lemma check_booking_Inr:
  assumes "check_booking tenant b s = Inr (r, x, y)"
  shows "x < y" "\<forall>u \<in> set (bookings s). \<not> conflicting tenant (bi_resource b) x y None u" "bi_start b = At x" "bi_end b = At y"
  using assms
  by (auto simp: check_booking_def rbind_Inr_iff assertNoConflict_def tfind_None_iff booking_window_def
      split: option.splits date_in.splits if_splits)

lemma insert_booking_cases:
  assumes "insert_booking v tenant actor b (r, x, y) s = Inr (w, s')"
  obtains "s' = s"
    | "bookings s' = bookings s @ [new_booking v tenant actor b (r, x, y) s]" "booking_history s' = booking_history s"
proof (cases "booking_clash s (new_booking v tenant actor b (r, x, y) s)")
  case True
  with assms show ?thesis by (intro that(1)) (auto simp: insert_booking_def Let_def split: option.splits)
next
  case False
  with assms have "s' = booking_event tenant (bk_id (new_booking v tenant actor b (r, x, y) s)) ''created'' actor
      (s\<lparr>bookings := bookings s @ [new_booking v tenant actor b (r, x, y) s], o_seq := Suc (o_seq s)\<rparr>)"
    by (simp add: insert_booking_def Let_def)
  then show ?thesis by (intro that(2)) (simp_all add: booking_event_other, simp add: booking_history_def)
qed

lemma new_booking_simps [simp]:
  "bk_id (new_booking v tenant actor b (r, x, y) s) = oid v s" "bk_state (new_booking v tenant actor b (r, x, y) s) = ''REQUESTED''"
  "bk_tenant (new_booking v tenant actor b (r, x, y) s) = tenant" "bk_resource (new_booking v tenant actor b (r, x, y) s) = bi_resource b"
  "bk_start (new_booking v tenant actor b (r, x, y) s) = x" "bk_end (new_booking v tenant actor b (r, x, y) s) = y"
  by (simp_all add: new_booking_def)

lemma createBooking_effect:
  assumes c: "createBooking v tenant actor b s = Inr (w, s')" and fresh_id: "oid v s \<notin> bk_id ` set (bookings s)"
  shows "booking_effect s s'"
proof (cases "booking_by_key s tenant (bi_key b)")
  case (Some k)
  with c show ?thesis by (auto simp: createBooking_def rbind_Inr_iff intro: be_none)
next
  case None
  with c obtain r x y where ck: "check_booking tenant b s = Inr (r, x, y)"
    and ins: "insert_booking v tenant actor b (r, x, y) s = Inr (w, s')"
    by (auto simp: createBooking_def rbind_Inr_iff)
  from ins show ?thesis
  proof (cases rule: insert_booking_cases)
    case 1
    then show ?thesis by (simp add: be_none)
  next
    case 2
    then show ?thesis
      using check_booking_Inr [OF ck] fresh_id
      by (intro be_new [of "new_booking v tenant actor b (r, x, y) s"]) simp_all
  qed
qed


subsection \<open>Steps of the module\<close>

inductive booking_step :: "codec \<Rightarrow> bdb \<Rightarrow> bdb \<Rightarrow> bool" for c where
  bs_resource: "createResource v tenant actor code name type cap ou s = Inr (item, s') \<Longrightarrow> booking_step c s s'"
| bs_create: "createBooking v tenant actor b s = Inr (w, s') \<Longrightarrow> oid v s \<notin> bk_id ` set (bookings s) \<Longrightarrow> booking_step c s s'"
| bs_approve: "approveBooking v tenant actor i s = Inr (u, s') \<Longrightarrow> booking_step c s s'"
| bs_transition: "transitionBooking v tenant actor i a s = Inr (u, s') \<Longrightarrow> booking_step c s s'"
| bs_checkIn: "checkIn v tenant actor i s = Inr (u, s') \<Longrightarrow> booking_step c s s'"
| bs_checkOut: "checkOut v tenant actor i s = Inr (u, s') \<Longrightarrow> booking_step c s s'"
| bs_noShow: "noShow v tenant actor i s = Inr (u, s') \<Longrightarrow> booking_step c s s'"
| bs_comment: "commentBooking tenant actor i body nt s = Inr (x, s') \<Longrightarrow> booking_step c s s'"
| bs_attach: "attachBooking c v tenant actor i d s = Inr (y, s') \<Longrightarrow> booking_step c s s'"

lemma createDocument_bookings:
  "createDocument c v tenant actor b s = Inr (d, row, s') \<Longrightarrow> bookings s' = bookings s \<and> b_events s' = b_events s"
  by (auto simp: createDocument_def appendVersion_def Let_def split: if_splits sum.splits)

lemma attachBooking_effect:
  assumes "attachBooking c v tenant actor i b s = Inr (w, s')"
  shows "booking_effect s s'"
proof -
  let ?doc = "\<lambda>k :: booking. attachment_doc ''Booking'' i (bk_code k) ''booking attachment'' [''attachment'', ''booking''] b"
  from assms obtain k where
    "rbind (createDocument c v tenant (Some actor) (?doc k) s)
       (\<lambda>(d, row, s1). Inr (row, booking_event tenant i ''attachment'' actor s1)) = Inr (w, s')"
    unfolding attachBooking_def by (rule rbind_InrE) blast
  then obtain d row s1 where "createDocument c v tenant (Some actor) (?doc k) s = Inr (d, row, s1)"
    "s' = booking_event tenant i ''attachment'' actor s1"
    by (cases "createDocument c v tenant (Some actor) (?doc k) s") auto
  with createDocument_bookings [OF this(1)] show ?thesis
    by (intro be_none) (simp_all add: booking_event_other, simp add: booking_history_def)
qed

lemma booking_step_effect: "booking_step c s s' \<Longrightarrow> booking_effect s s'"
proof (induction rule: booking_step.induct)
  case (bs_resource v tenant actor code name type cap ou s item s')
  then show ?case
    by (intro be_none) (auto simp: createResource_def rbind_Inr_iff Let_def log_audit_def booking_history_def split: if_splits)
next
  case (bs_create v tenant actor b s w s')
  then show ?case by (rule createBooking_effect)
next
  case (bs_approve v tenant actor i s u s')
  then obtain b to where "load_booking s tenant i = Inr b" "bookingNext B_approve (bk_state b) = Some to"
    "move_booking v tenant actor B_approve id b to s = Inr (u, s')"
    by (auto simp: approveBooking_def rbind_Inr_iff assertLegalBooking_Inr)
  then show ?case using move_booking_effect [of v tenant actor B_approve id] by (auto dest: load_booking_InrD)
next
  case (bs_transition v tenant actor i a s u s')
  then show ?case unfolding transitionBooking_def by (rule own_transition_effect) simp
next
  case (bs_checkIn v tenant actor i s u s')
  then show ?case unfolding checkIn_def by (rule own_transition_effect) simp
next
  case (bs_checkOut v tenant actor i s u s')
  then show ?case unfolding checkOut_def by (rule own_transition_effect) simp
next
  case (bs_noShow v tenant actor i s u s')
  then obtain b to where b: "load_booking s tenant i = Inr b" "bookingNext B_no_show (bk_state b) = Some to"
    and m: "move_booking v tenant actor B_no_show (\<lambda>b. b\<lparr>bk_noShow := True\<rparr>) b to s = Inr (u, s')"
    by (auto simp: noShow_def rbind_Inr_iff assertLegalBooking_Inr)
  from load_booking_InrD [OF b(1)] have "b \<in> set (bookings s)" by simp
  from move_booking_effect [OF m this b(2)] show ?case by simp
next
  case (bs_comment tenant actor i body nt s x s')
  then show ?case by (intro be_none) (auto simp: commentBooking_def rbind_Inr_iff booking_event_other)
next
  case (bs_attach v tenant actor i d s y s')
  then show ?case by (rule attachBooking_effect)
qed

lemma booking_step_journal:
  assumes "booking_step c s s'"
  shows "lc_step BOOKING_TRANSITIONS ''REQUESTED'' (booking_journal s) (booking_journal s')"
  using booking_step_effect [OF assms]
proof cases
  case be_none
  then show ?thesis by (simp add: booking_journal_def lc_idle)
next
  case (be_move b i a to f)
  then show ?thesis
    using lc_act_table [of b "bookings s" bk_id i BOOKING_TRANSITIONS a bk_state to f "''REQUESTED''" "booking_history s"]
    by (simp add: booking_journal_def bookingNext_def)
next
  case (be_new b)
  then show ?thesis
    using lc_create_table [of bk_id b "bookings s" bk_state "''REQUESTED''" BOOKING_TRANSITIONS "booking_history s"]
    by (simp add: booking_journal_def)
qed

interpretation book: event_sourced BOOKING_TRANSITIONS "''REQUESTED''" BOOKING_TERMINAL booking_journal "booking_step c" for c
  by unfold_locales (auto simp: booking_step_journal booking.no_exit)

subsection \<open>No double booking\<close>

definition holds_slot :: "booking \<Rightarrow> bool" where
  "holds_slot b \<longleftrightarrow> bk_state b \<in> set BOOKING_ACTIVE"

definition same_slot :: "booking \<Rightarrow> booking \<Rightarrow> bool" where
  "same_slot a b \<longleftrightarrow> bk_tenant a = bk_tenant b \<and> bk_resource a = bk_resource b \<and>
     overlaps (bk_start a) (bk_end a) (bk_start b) (bk_end b)"

definition calendar_ok :: "booking list \<Rightarrow> bool" where
  "calendar_ok bs \<longleftrightarrow> distinct (map bk_id bs) \<and> (\<forall>b \<in> set bs. bk_start b < bk_end b) \<and>
     (\<forall>a \<in> set bs. \<forall>b \<in> set bs. bk_id a \<noteq> bk_id b \<longrightarrow> holds_slot a \<longrightarrow> holds_slot b \<longrightarrow> \<not> same_slot a b)"

lemma same_slot_sym: "same_slot a b = same_slot b a"
  by (auto simp: same_slot_def overlaps_def)

lemma active_from: "bookingNext a st = Some to \<Longrightarrow> to \<in> set BOOKING_ACTIVE \<Longrightarrow> st \<in> set BOOKING_ACTIVE"
  by (cases a) (auto simp: bookingNext_def table_next_Some_iff BOOKING_ACTIVE_def)

lemma calendar_move:
  assumes ok: "calendar_ok bs" and b: "b \<in> set bs" "bk_id b = i" "bookingNext a (bk_state b) = Some to"
    and f: "\<And>r. bk_id (f r) = bk_id r \<and> bk_tenant (f r) = bk_tenant r \<and> bk_resource (f r) = bk_resource r \<and>
          bk_start (f r) = bk_start r \<and> bk_end (f r) = bk_end r \<and> bk_state (f r) = to"
  shows "calendar_ok (tupd (\<lambda>r. bk_id r = i) f bs)"
proof -
  let ?bs = "tupd (\<lambda>r. bk_id r = i) f bs"
  text \<open>Every row of the new table is a row of the old one that held its slot if the new one does.\<close>
  have origin: "\<exists>r0 \<in> set bs. bk_id r = bk_id r0 \<and> bk_start r = bk_start r0 \<and> bk_end r = bk_end r0 \<and>
      (\<forall>x. same_slot r x = same_slot r0 x) \<and> (holds_slot r \<longrightarrow> holds_slot r0)" if "r \<in> set ?bs" for r
    using that
  proof (cases rule: in_set_tupdE)
    case (new r0)
    have "r0 = b"
      by (rule distinct_column_unique [of bk_id bs]) (use new b ok calendar_ok_def in simp_all)
    with new f active_from [OF b(3)] show ?thesis
      by (intro bexI [of _ r0]) (simp_all add: same_slot_def holds_slot_def)
  next
    case old
    then show ?thesis by blast
  qed
  have "map bk_id ?bs = map bk_id bs" by (rule map_tupd_frame) (simp add: f)
  then have "distinct (map bk_id ?bs)" using ok by (simp add: calendar_ok_def)
  moreover have "bk_start r < bk_end r" if "r \<in> set ?bs" for r
    using origin [OF that] ok by (auto simp: calendar_ok_def)
  moreover have "\<not> same_slot x y" if xy: "x \<in> set ?bs" "y \<in> set ?bs" "bk_id x \<noteq> bk_id y" "holds_slot x" "holds_slot y" for x y
  proof -
    from origin [OF xy(1)] obtain x0 where x0: "x0 \<in> set bs" "bk_id x = bk_id x0" "\<forall>z. same_slot x z = same_slot x0 z" "holds_slot x0"
      using xy(4) by blast
    from origin [OF xy(2)] obtain y0 where y0: "y0 \<in> set bs" "bk_id y = bk_id y0" "\<forall>z. same_slot y z = same_slot y0 z" "holds_slot y0"
      using xy(5) by blast
    have "\<not> same_slot x0 y0" using ok x0 y0 xy(3) by (simp add: calendar_ok_def)
    then show ?thesis using x0(3) y0(3) same_slot_sym by metis
  qed
  ultimately show ?thesis by (simp add: calendar_ok_def)
qed

lemma calendar_new:
  assumes ok: "calendar_ok bs" and b: "bk_start b < bk_end b" "bk_id b \<notin> bk_id ` set bs"
    and free: "\<forall>u \<in> set bs. \<not> conflicting (bk_tenant b) (bk_resource b) (bk_start b) (bk_end b) None u"
  shows "calendar_ok (bs @ [b])"
proof -
  have "\<not> same_slot b u" if "u \<in> set bs" "holds_slot u" for u
    using free that by (auto simp: conflicting_def same_slot_def holds_slot_def)
  with ok b show ?thesis by (auto simp: calendar_ok_def same_slot_sym)
qed

lemma calendar_step: "booking_step c s s' \<Longrightarrow> calendar_ok (bookings s) \<Longrightarrow> calendar_ok (bookings s')"
proof -
  assume ok: "calendar_ok (bookings s)" and "booking_step c s s'"
  from booking_step_effect [OF this(2)] show ?thesis
  proof cases
    case be_none
    with ok show ?thesis by simp
  next
    case (be_move b i a to f)
    with calendar_move [OF ok be_move(1,2,3), of f] show ?thesis by simp
  next
    case (be_new b)
    with calendar_new [OF ok, of b] show ?thesis by simp
  qed
qed

text \<open>
  C7. No double booking: as long as each handler runs as one transaction, no sequence of bookings,
  approvals, check-ins, check-outs, cancellations and other handlers ever has two bookings of one
  resource that hold their slot (requested, approved or checked in) with overlapping windows, and
  every window is non-empty.
\<close>
theorem no_double_booking:
  assumes "(booking_step c)\<^sup>*\<^sup>* s s'" "calendar_ok (bookings s)"
  shows "(\<forall>b \<in> set (bookings s'). bk_start b < bk_end b) \<and>
    (\<forall>a \<in> set (bookings s'). \<forall>b \<in> set (bookings s'). bk_id a \<noteq> bk_id b \<longrightarrow> bk_tenant a = bk_tenant b \<longrightarrow>
       bk_resource a = bk_resource b \<longrightarrow> bk_state a \<in> set BOOKING_ACTIVE \<longrightarrow> bk_state b \<in> set BOOKING_ACTIVE \<longrightarrow>
       \<not> overlaps (bk_start a) (bk_end a) (bk_start b) (bk_end b))"
proof -
  from assms have "calendar_ok (bookings s')"
    by (induction rule: rtranclp_induct) (auto dest: calendar_step)
  then show ?thesis by (auto simp: calendar_ok_def same_slot_def holds_slot_def)
qed

text \<open>
  Approval never confirms a clash: whatever the calendar looks like (also after concurrent
  creations), an approval that succeeds leaves the booking approved and no other booking that
  holds a slot of the resource overlaps it.
\<close>
theorem approve_confirms_no_clash:
  assumes "approveBooking v tenant actor i s = Inr (w, s')" "i \<noteq> []"
  shows "bk_state (bv_booking w) = ''APPROVED'' \<and> bk_id (bv_booking w) = i \<and>
    (\<forall>u \<in> set (bookings s). bk_id u \<noteq> i \<longrightarrow> bk_tenant u = tenant \<longrightarrow> bk_resource u = bk_resource (bv_booking w) \<longrightarrow>
       bk_state u \<in> set BOOKING_ACTIVE \<longrightarrow>
       \<not> overlaps (bk_start (bv_booking w)) (bk_end (bv_booking w)) (bk_start u) (bk_end u))"
proof -
  from assms obtain b to where l: "load_booking s tenant i = Inr b" and n: "bookingNext B_approve (bk_state b) = Some to"
    and free: "assertNoConflict s tenant (bk_resource b) (bk_start b) (bk_end b) (Some (bk_id b)) = Inr ()"
    and m: "move_booking v tenant actor B_approve id b to s = Inr (w, s')"
    by (auto simp: approveBooking_def rbind_Inr_iff assertLegalBooking_Inr)
  from load_booking_InrD [OF l] have i: "bk_id b = i" "bk_tenant b = tenant" by simp_all
  from m have w: "bv_booking w = b\<lparr>bk_state := to\<rparr>" by (auto simp: move_booking_def Let_def decorate_booking_def)
  from n have "to = ''APPROVED''" by (simp add: bookingNext_def table_next_Some_iff)
  moreover from free have "\<not> conflicting tenant (bk_resource b) (bk_start b) (bk_end b) (Some i) u" if "u \<in> set (bookings s)" for u
    using that i by (simp add: assertNoConflict_def tfind_None_iff)
  ultimately show ?thesis using w i assms(2) by (auto simp: conflicting_def)
qed


subsection \<open>Two creations at the same time\<close>

lemma insert_fresh:
  assumes "insert_booking v tenant actor b (r, x, y) s = Inr ((w, False), s')"
  shows "bookings s' = bookings s @ [new_booking v tenant actor b (r, x, y) s]"
proof -
  have "\<not> booking_clash s (new_booking v tenant actor b (r, x, y) s)"
    using assms by (auto simp: insert_booking_def Let_def split: option.splits if_splits)
  with assms show ?thesis by (auto simp: insert_booking_def Let_def)
qed

lemma approve_conflict:
  assumes "b \<in> set (bookings s)" "distinct (map bk_id (bookings s))" "bk_state b = ''REQUESTED''"
    and "u \<in> set (bookings s)" "bk_id u \<noteq> bk_id b" "holds_slot u" "same_slot b u" "bk_tenant b = tenant"
  shows "approveBooking v tenant actor (bk_id b) s = Inl (Conflict ''Booking conflict on resource'')"
proof -
  have "tfind (\<lambda>r. bk_id r = bk_id b \<and> bk_tenant r = tenant) (bookings s) = Some b"
  proof -
    obtain r where r: "tfind (\<lambda>r. bk_id r = bk_id b \<and> bk_tenant r = tenant) (bookings s) = Some r"
      using assms(1,8) by (cases "tfind (\<lambda>r. bk_id r = bk_id b \<and> bk_tenant r = tenant) (bookings s)")
        (auto simp: tfind_None_iff)
    then have "r = b" using distinct_column_unique [OF assms(2) _ assms(1)] by (auto dest!: tfind_SomeD)
    with r show ?thesis by simp
  qed
  moreover have "conflicting tenant (bk_resource b) (bk_start b) (bk_end b) (Some (bk_id b)) u"
    using assms(5-8) by (simp add: conflicting_def same_slot_def holds_slot_def)
  then have "tfind (conflicting tenant (bk_resource b) (bk_start b) (bk_end b) (Some (bk_id b))) (bookings s) \<noteq> None"
    using assms(4) by (auto simp: tfind_None_iff)
  moreover have "bookingNext B_approve ''REQUESTED'' = Some ''APPROVED''" by code_simp
  ultimately show ?thesis
    using assms(3) by (simp add: approveBooking_def load_booking_def assertLegalBooking_def assertNoConflict_def ensure_def
        del: not_None_eq)
qed

text \<open>
  The conflict check is not atomic with the insert: when two creations for overlapping windows
  of one resource both read before either writes (nothing in the handler or the schema prevents
  it), both succeed and the resource is booked twice; after that neither booking can be approved,
  each being refused because of the other.
\<close>
theorem booking_race:
  assumes ok: "calendar_ok (bookings s)"
    and c1: "check_booking tenant b1 s = Inr (r1, x1, y1)" and c2: "check_booking tenant b2 s = Inr (r2, x2, y2)"
    and same: "bi_resource b1 = bi_resource b2" "overlaps x1 y1 x2 y2"
    and i1: "insert_booking v1 tenant a1 b1 (r1, x1, y1) s = Inr ((w1, False), s1)"
    and i2: "insert_booking v2 tenant a2 b2 (r2, x2, y2) s1 = Inr ((w2, False), s2)"
    and fresh_ids: "oid v1 s \<notin> bk_id ` set (bookings s)" "oid v2 s1 \<notin> bk_id ` set (bookings s1)"
  shows "\<not> calendar_ok (bookings s2) \<and>
    approveBooking v tenant actor (oid v1 s) s2 = Inl (Conflict ''Booking conflict on resource'') \<and>
    approveBooking v tenant actor (oid v2 s1) s2 = Inl (Conflict ''Booking conflict on resource'')"
proof -
  let ?a = "new_booking v1 tenant a1 b1 (r1, x1, y1) s" and ?b = "new_booking v2 tenant a2 b2 (r2, x2, y2) s1"
  from insert_fresh [OF i1] insert_fresh [OF i2] have rows: "bookings s2 = bookings s @ [?a, ?b]" "bookings s1 = bookings s @ [?a]"
    by simp_all
  have ids: "bk_id ?a \<noteq> bk_id ?b" using fresh_ids(2) rows(2) by auto
  have d: "distinct (map bk_id (bookings s2))" using ok fresh_ids rows by (auto simp: calendar_ok_def)
  have slots: "same_slot ?a ?b" "holds_slot ?a" "holds_slot ?b"
    using same by (simp_all add: same_slot_def holds_slot_def BOOKING_ACTIVE_def)
  have mem: "?a \<in> set (bookings s2)" "?b \<in> set (bookings s2)" by (simp_all add: rows)
  have "\<not> calendar_ok (bookings s2)" unfolding calendar_ok_def using mem slots ids by blast
  moreover have "approveBooking v tenant actor (bk_id ?a) s2 = Inl (Conflict ''Booking conflict on resource'')"
    by (rule approve_conflict [OF mem(1) d _ mem(2)]) (use slots ids in simp_all)
  moreover have "approveBooking v tenant actor (bk_id ?b) s2 = Inl (Conflict ''Booking conflict on resource'')"
    by (rule approve_conflict [OF mem(2) d _ mem(1)]) (use slots ids in \<open>simp_all add: same_slot_sym\<close>)
  ultimately show ?thesis by simp
qed

subsection \<open>An example\<close>

definition room_db :: bdb where
  "room_db = \<lparr>o_docs = [], o_versions = [], o_files = [], o_res = [], o_audit = [], o_org = empty_idb, o_seq = 0,
     resources = [\<lparr>br_id = ''r1'', br_tenant = ''t1'', br_code = ''R1'', br_name = ''Room'', br_type = ''ROOM'',
                   br_capacity = None, br_orgUnit = None\<rparr>], bookings = [], b_events = []\<rparr>"

definition meeting :: "int \<Rightarrow> int \<Rightarrow> booking_in" where
  "meeting x y = \<lparr>bi_title = ''Meeting'', bi_resource = ''r1'', bi_start = At x, bi_end = At y, bi_attendees = None,
     bi_code = None, bi_requester = None, bi_key = None\<rparr>"

definition booked :: "((booking_view \<times> bool) \<times> bdb) res" where
  "booked = createBooking demo_env ''t1'' ''u1'' (meeting 10 20) room_db"

definition room1 :: bdb where "room1 = snd (projr booked)"

definition confirmed :: "(booking_view \<times> bdb) res" where
  "confirmed = approveBooking demo_env ''t1'' ''boss'' ''id0'' room1"

definition raced :: "((booking_view \<times> bool) \<times> bdb) res" where
  "raced = insert_booking demo_env ''t1'' ''u2'' (meeting 15 25) (hd (resources room_db), 15, 25) room1"

lemma room_runs: "is_ok booked" "is_ok confirmed" "hd (bookings room1) \<in> set (bookings room1)"
  "check_booking ''t1'' (meeting 10 20) room_db = Inr (hd (resources room_db), 10, 20)"
  "check_booking ''t1'' (meeting 15 25) room_db = Inr (hd (resources room_db), 15, 25)"
  "insert_booking demo_env ''t1'' ''u1'' (meeting 10 20) (hd (resources room_db), 10, 20) room_db = Inr ((fst (fst (projr booked)), False), room1)"
  "insert_booking demo_env ''t1'' ''u2'' (meeting 15 25) (hd (resources room_db), 15, 25) room1 =
     Inr ((fst (fst (projr raced)), False), snd (projr raced))"
  "oid demo_env room_db \<notin> bk_id ` set (bookings room_db)" "oid demo_env room1 \<notin> bk_id ` set (bookings room1)"
  "overlaps 10 20 15 25" "bi_resource (meeting 10 20) = bi_resource (meeting 15 25)"
  by code_simp+

lemma booked_eq: "createBooking demo_env ''t1'' ''u1'' (meeting 10 20) room_db = Inr (fst (projr booked), room1)"
  unfolding room1_def booked_def [symmetric] by (rule ok_pair) (rule room_runs)

lemma confirmed_eq: "approveBooking demo_env ''t1'' ''boss'' ''id0'' room1 = Inr (fst (projr confirmed), snd (projr confirmed))"
  unfolding confirmed_def [symmetric] by (rule ok_pair) (rule room_runs)

lemma room_db_ok: "calendar_ok (bookings room_db)"
  by (simp add: calendar_ok_def room_db_def)

lemma no_double_booking_witness: "bk_start (hd (bookings room1)) < bk_end (hd (bookings room1))"
proof -
  have "(booking_step demo_codec)\<^sup>*\<^sup>* room_db room1"
    by (intro r_into_rtranclp bs_create [OF booked_eq]) (simp add: room_db_def)
  then show ?thesis using room_runs(3) no_double_booking [OF _ room_db_ok] by blast
qed

lemma approve_confirms_no_clash_witness: "bk_state (bv_booking (fst (projr confirmed))) = ''APPROVED''"
  using approve_confirms_no_clash [OF confirmed_eq] by simp

lemma booking_race_witness:
  "\<not> calendar_ok (bookings (snd (projr raced)))"
  using booking_race [OF room_db_ok room_runs(4,5,11,10,6,7,8,9)] by blast

end
