(* ===== verification/Requests.thy ===== *)
theory Requests
  imports Lifecycle Connector
begin

section \<open>Administrative requests\<close>

text \<open>
  xhub-api/src/requests/requests.service.ts: drafts with an idempotency key, submission routed
  through the assignment resolver, approval with the amount ceiling, the requester's own
  transitions, manual execution in an external system and its evidence document, comments with
  mentions and attachments. The tables extend \<open>odb\<close>.
\<close>

subsection \<open>State\<close>

record request =
  rq_id :: string
  rq_tenant :: string
  rq_code :: string
  rq_kind :: string
  rq_procedure :: string
  rq_title :: string
  rq_requester :: string
  rq_amount :: "rat option"
  rq_currency :: string
  rq_payload :: json
  rq_state :: string
  rq_approver :: "string option"
  rq_approverRole :: "string option"
  rq_key :: "string option"
  rq_created :: int

record execution =
  xe_id :: string
  xe_tenant :: string
  xe_code :: string
  xe_connector :: string
  xe_action :: string
  xe_status :: string
  xe_reference :: "string option"
  xe_system :: "string option"
  xe_enteredBy :: "string option"
  xe_sref :: "source_ref option"

record request_log =
  qe_tenant :: string
  qe_request :: string
  qe_type :: string
  qe_actor :: string

record request_comment =
  rc_id :: string
  rc_request :: string
  rc_author :: string
  rc_body :: string
  rc_mentions :: "string list"

record rdb = odb +
  requests :: "request list"
  executions :: "execution list"
  r_events :: "request_log list"
  r_comments :: "request_comment list"

subsection \<open>Events, rows and legality\<close>

text \<open>The event type an action is logged under.\<close>

fun request_event_name :: "request_action \<Rightarrow> string" where
  "request_event_name R_submit = ''submitted''"
| "request_event_name R_request_supplement = ''request_supplement''"
| "request_event_name R_resubmit = ''resubmit''"
| "request_event_name R_approve = ''approved''"
| "request_event_name R_reject = ''reject''"
| "request_event_name R_withdraw = ''withdraw''"
| "request_event_name R_cancel = ''cancel''"
| "request_event_name R_execute = ''execute_started''"
| "request_event_name R_evidence = ''evidence_attached''"

definition request_event :: "string \<Rightarrow> string \<Rightarrow> string \<Rightarrow> string \<Rightarrow> rdb \<Rightarrow> rdb" where
  "request_event tenant i ty actor s =
     log_audit tenant actor i (''request.'' @ ty)
       (s\<lparr>r_events := r_events s @ [\<lparr>qe_tenant = tenant, qe_request = i, qe_type = ty, qe_actor = actor\<rparr>]\<rparr>)"

definition assertLegalRequest :: "request_action \<Rightarrow> string \<Rightarrow> string res" where
  "assertLegalRequest a st =
     (case nextState a st of None \<Rightarrow> Inl (BadRequest ''Illegal transition'') | Some t \<Rightarrow> Inr t)"

definition load_request :: "rdb \<Rightarrow> string \<Rightarrow> string \<Rightarrow> request res" where
  "load_request s tenant i =
     (case tfind (\<lambda>r. rq_id r = i \<and> rq_tenant r = tenant) (requests s) of
        None \<Rightarrow> Inl (NotFound ''request not found'') | Some r \<Rightarrow> Inr r)"

definition update_request :: "string \<Rightarrow> (request \<Rightarrow> request) \<Rightarrow> rdb \<Rightarrow> rdb" where
  "update_request i f s = s\<lparr>requests := tupd (\<lambda>r. rq_id r = i) f (requests s)\<rparr>"

subsection \<open>Creation and lists\<close>

record request_in =
  qi_title :: string
  qi_kind :: "string option"
  qi_procedure :: "string option"
  qi_amount :: "rat option"
  qi_currency :: "string option"
  qi_payload :: json
  qi_key :: "string option"

definition request_by_key :: "rdb \<Rightarrow> string \<Rightarrow> string option \<Rightarrow> request option" where
  "request_by_key s tenant key =
     (if truthy_str key then tfind (\<lambda>r. rq_tenant r = tenant \<and> rq_key r = key) (requests s) else None)"

definition new_request :: "env \<Rightarrow> string \<Rightarrow> string \<Rightarrow> request_in \<Rightarrow> rdb \<Rightarrow> request" where
  "new_request v tenant actor b s =
     \<lparr>rq_id = oid v s, rq_tenant = tenant, rq_code = gen_code v ''RQ'' (o_seq s),
      rq_kind = coalesce (coalesce_opt (qi_kind b) (qi_procedure b)) ''GENERIC'',
      rq_procedure = coalesce (qi_procedure b) ''GENERIC'', rq_title = qi_title b, rq_requester = actor,
      rq_amount = qi_amount b, rq_currency = coalesce (qi_currency b) ''VND'', rq_payload = jcoalesce (qi_payload b) (JObj []),
      rq_state = ''DRAFT'', rq_approver = None, rq_approverRole = None,
      rq_key = (if truthy_str (qi_key b) then qi_key b else None), rq_created = now v\<rparr>"

definition request_clash :: "rdb \<Rightarrow> request \<Rightarrow> bool" where
  "request_clash s r = (\<exists>u \<in> set (requests s). rq_tenant u = rq_tenant r \<and>
     (rq_code u = rq_code r \<or> (rq_key r \<noteq> None \<and> rq_key u = rq_key r)))"

definition createDraft :: "env \<Rightarrow> string \<Rightarrow> string \<Rightarrow> request_in \<Rightarrow> rdb \<Rightarrow> ((request \<times> bool) \<times> rdb) res" where
  "createDraft v tenant actor b s =
     rbind (ensure (qi_title b \<noteq> []) (BadRequest ''title is required'')) (\<lambda>_.
       case request_by_key s tenant (qi_key b) of
         Some r \<Rightarrow> Inr ((r, True), s)
       | None \<Rightarrow>
           (let r = new_request v tenant actor b s
            in if request_clash s r then
                 (case request_by_key s tenant (qi_key b) of
                    Some u \<Rightarrow> Inr ((u, True), s) | None \<Rightarrow> Inl UniqueViolation)
               else Inr ((r, False), request_event tenant (rq_id r) ''created'' actor
                      (s\<lparr>requests := requests s @ [r], o_seq := Suc (o_seq s)\<rparr>))))"

record request_filter =
  qf_scope :: "string option"
  qf_state :: "string option"
  qf_kind :: "string option"
  qf_procedure :: "string option"
  qf_q :: "string option"

definition listRequests :: "string \<Rightarrow> string \<Rightarrow> request_filter \<Rightarrow> rdb \<Rightarrow> (request \<times> request_action list) list" where
  "listRequests tenant actor f s =
     map (\<lambda>r. (r, legalActions (rq_state r)))
       (sort_key (\<lambda>r. - rq_created r)
         (filter (\<lambda>r. rq_tenant r = tenant \<and>
            (qf_scope f = Some ''mine'' \<longrightarrow> rq_requester r = actor) \<and>
            (qf_scope f = Some ''assigned'' \<longrightarrow> rq_approver r = Some actor) \<and>
            (truthy_str (qf_state f) \<longrightarrow> Some (rq_state r) = qf_state f) \<and>
            (truthy_str (qf_kind f) \<longrightarrow> Some (rq_kind r) = qf_kind f) \<and>
            (truthy_str (qf_procedure f) \<longrightarrow> Some (rq_procedure r) = qf_procedure f) \<and>
            (truthy_str (qf_q f) \<longrightarrow> includes_str (to_lower (the (qf_q f))) (to_lower (rq_title r)))) (requests s)))"

subsection \<open>Submission\<close>

text \<open>The approver role of a procedure and its fallbacks.\<close>

definition approverRoleFor :: "string \<Rightarrow> string \<times> string list" where
  "approverRoleFor procedure =
     (if to_upper procedure = ''PILOT-02'' then (''CFO'', [''DEPARTMENT_HEAD'', ''EXECUTIVE''])
      else (''DEPARTMENT_HEAD'', [''EXECUTIVE'']))"

definition approver_selector :: "string \<Rightarrow> selector" where
  "approver_selector procedure =
     (blank_selector SRole)\<lparr>s_role := Some (fst (approverRoleFor procedure)), s_choice := Some ''SINGLE'',
        s_fallback := snd (approverRoleFor procedure)\<rparr>"

definition move_request ::
  "string \<Rightarrow> string \<Rightarrow> request_action \<Rightarrow> (request \<Rightarrow> request) \<Rightarrow> request \<Rightarrow> string \<Rightarrow> rdb \<Rightarrow> (request \<times> rdb) res" where
  "move_request tenant actor a f r to s =
     (let g = (\<lambda>x. (f x)\<lparr>rq_state := to\<rparr>)
      in Inr (g r, request_event tenant (rq_id r) (request_event_name a) actor (update_request (rq_id r) g s)))"

definition submitRequest ::
  "(string \<Rightarrow> string \<Rightarrow> bool) \<Rightarrow> string \<Rightarrow> string \<Rightarrow> string \<Rightarrow> rdb \<Rightarrow> (request \<times> rdb) res" where
  "submitRequest le tenant actor i s =
     rbind (load_request s tenant i) (\<lambda>r.
     rbind (assertLegalRequest R_submit (rq_state r)) (\<lambda>to.
       let (res, s1) = snapshot le tenant actor (rq_code r) ''request-approval'' (approver_selector (rq_procedure r)) s;
           who = (case re_person res of None \<Rightarrow> None | Some p \<Rightarrow> if p = [] then None else userIdForPerson (o_org s) p)
       in move_request tenant actor R_submit
            (\<lambda>x. x\<lparr>rq_approver := who, rq_approverRole := Some (fst (approverRoleFor (rq_procedure r)))\<rparr>) r to s1))"

subsection \<open>Decisions\<close>

definition approveRequest :: "string \<Rightarrow> string \<Rightarrow> string \<Rightarrow> bool \<Rightarrow> rdb \<Rightarrow> (request \<times> rdb) res" where
  "approveRequest tenant actor i enforce s =
     rbind (load_request s tenant i) (\<lambda>r.
     rbind (assertLegalRequest R_approve (rq_state r)) (\<lambda>to.
     rbind (ensure (enforce \<longrightarrow> can (o_org s) actor ''request.approve'' (rq_amount r) = Granted)
              (Forbidden ''Cannot approve'')) (\<lambda>_.
       move_request tenant actor R_approve id r to s)))"

definition actRequest :: "string \<Rightarrow> string \<Rightarrow> string \<Rightarrow> request_action \<Rightarrow> rdb \<Rightarrow> (request \<times> rdb) res" where
  "actRequest tenant actor i a s =
     rbind (load_request s tenant i) (\<lambda>r.
     rbind (ensure (a \<in> {R_withdraw, R_resubmit, R_cancel} \<longrightarrow> rq_requester r = actor)
              (Forbidden ''Only the requester may do this'')) (\<lambda>_.
     rbind (assertLegalRequest a (rq_state r)) (\<lambda>to. move_request tenant actor a id r to s)))"

subsection \<open>Execution and evidence\<close>

text \<open>The connector named by the caller, else by the payload, else \<open>manual\<close>.\<close>

definition exec_connector :: "string option \<Rightarrow> json \<Rightarrow> string res" where
  "exec_connector given payload =
     (case given of Some c \<Rightarrow> Inr c
      | None \<Rightarrow> (case jcoalesce (get_prop payload ''connectorCode'') (JStr ''manual'') of
                   JStr c \<Rightarrow> Inr c | _ \<Rightarrow> Inl TypeErr))"

definition executeRequest ::
  "env \<Rightarrow> string \<Rightarrow> string \<Rightarrow> string \<Rightarrow> string option \<Rightarrow> string option \<Rightarrow> rdb \<Rightarrow> ((request \<times> execution) \<times> rdb) res" where
  "executeRequest v tenant actor i connector action s =
     rbind (load_request s tenant i) (\<lambda>r.
     rbind (assertLegalRequest R_execute (rq_state r)) (\<lambda>to.
     rbind (exec_connector connector (rq_payload r)) (\<lambda>cc.
       let x = \<lparr>xe_id = oid v s, xe_tenant = tenant, xe_code = rq_code r, xe_connector = cc,
                xe_action = coalesce action ''execute_request'', xe_status = ''pending'', xe_reference = None,
                xe_system = None, xe_enteredBy = None, xe_sref = None\<rparr>
       in rbind (move_request tenant actor R_execute id r to (s\<lparr>executions := executions s @ [x], o_seq := Suc (o_seq s)\<rparr>))
            (\<lambda>(q, s1). Inr ((q, x), s1)))))"

record evidence_in =
  ei_reference :: "string option"
  ei_system :: "string option"
  ei_note :: "string option"
  ei_text :: "string option"
  ei_base64 :: "string option"
  ei_mime :: "string option"
  ei_title :: "string option"

definition evidence_doc :: "request \<Rightarrow> evidence_in \<Rightarrow> doc_in" where
  "evidence_doc r b =
     \<lparr>di_kind = Some ''EVIDENCE'', di_title = coalesce (ei_title b) (''Evidence '' @ em_dash @ '' '' @ rq_code r),
      di_subjectType = Some ''Request'', di_subjectId = Some (rq_id r), di_tags = [''evidence'', ''request''],
      di_content = \<lparr>ci_text = (if truthy_str (ei_base64 b) then None
                      else Some (coalesce (ei_text b) (''Evidence for '' @ rq_code r @ '': '' @
                             coalesce (coalesce_opt (ei_note b) (ei_reference b)) ''completed''))),
                   ci_base64 = (if truthy_str (ei_base64 b) then ei_base64 b else None),
                   ci_mime = Some (coalesce (ei_mime b) ''text/plain'')\<rparr>\<rparr>"

definition complete_execution :: "string \<Rightarrow> string \<Rightarrow> evidence_in \<Rightarrow> execution \<Rightarrow> execution" where
  "complete_execution tenant actor b x =
     (let ref = trim_in (ei_reference b);
          sys = coalesce (ei_system b) (xe_connector x)
      in x\<lparr>xe_status := ''completed'',
           xe_reference := (if ref = [] then None else Some ref),
           xe_system := coalesce_opt (ei_system b) (if ref = [] then None else Some (to_upper (xe_connector x))),
           xe_enteredBy := Some actor,
           xe_sref := (if ref = [] then None
                       else Some \<lparr>sr_tenantId = tenant, sr_sourceSystem = to_upper sys, sr_sourceType = xe_action x,
                                  sr_sourceId = ref, sr_deepLink = external_link sys ref\<rparr>)\<rparr>)"

definition evidenceRequest ::
  "codec \<Rightarrow> env \<Rightarrow> string \<Rightarrow> string \<Rightarrow> string \<Rightarrow> string \<Rightarrow> evidence_in \<Rightarrow> rdb \<Rightarrow> (request \<times> rdb) res" where
  "evidenceRequest c v tenant actor i execId b s =
     rbind (load_request s tenant i) (\<lambda>r.
     rbind (ensure (rq_state r = ''EXECUTING'') (BadRequest ''Illegal transition (must be EXECUTING)'')) (\<lambda>_.
       case tfind (\<lambda>x. xe_id x = execId \<and> xe_tenant x = tenant \<and> xe_code x = rq_code r) (executions s) of
         None \<Rightarrow> Inl (NotFound ''external execution not found'')
       | Some x \<Rightarrow>
           rbind (createDocument c v tenant (Some actor) (evidence_doc r b) s) (\<lambda>(d, row, s1).
             move_request tenant actor R_evidence id r ''DONE''
               (s1\<lparr>executions := tupd (\<lambda>y. xe_id y = xe_id x) (complete_execution tenant actor b) (executions s1)\<rparr>))))"

subsection \<open>Comments and attachments\<close>

text \<open>The mentions \<open>/@([a-zA-Z0-9_.-]+)/g\<close> finds.\<close>

definition mention_char :: "char \<Rightarrow> bool" where
  "mention_char ch \<longleftrightarrow> (let n = of_char ch :: nat in
     (48 \<le> n \<and> n \<le> 57) \<or> (65 \<le> n \<and> n \<le> 90) \<or> (97 \<le> n \<and> n \<le> 122) \<or> n = 95 \<or> n = 46 \<or> n = 45)"

function inline_mentions :: "string \<Rightarrow> string list" where
  "inline_mentions [] = []"
| "inline_mentions (ch # cs) =
     (if ch = CHR ''@'' \<and> takeWhile mention_char cs \<noteq> []
      then takeWhile mention_char cs # inline_mentions (dropWhile mention_char cs)
      else inline_mentions cs)"
  by pat_completeness auto
termination
  by (relation "measure length") (auto simp: le_imp_less_Suc length_dropWhile_le)

definition addComment ::
  "env \<Rightarrow> string \<Rightarrow> string \<Rightarrow> string \<Rightarrow> string option \<Rightarrow> string list \<Rightarrow> rdb \<Rightarrow> (request_comment \<times> rdb) res" where
  "addComment v tenant actor i body mentions s =
     rbind (load_request s tenant i) (\<lambda>_.
     rbind (ensure (trim_in body \<noteq> []) (BadRequest ''comment body is required'')) (\<lambda>_.
       let cm = \<lparr>rc_id = oid v s, rc_request = i, rc_author = actor, rc_body = the body,
                 rc_mentions = to_set (mentions @ inline_mentions (the body))\<rparr>
       in Inr (cm, request_event tenant i ''commented'' actor
                (s\<lparr>r_comments := r_comments s @ [cm], o_seq := Suc (o_seq s)\<rparr>))))"

definition addAttachment ::
  "codec \<Rightarrow> env \<Rightarrow> string \<Rightarrow> string \<Rightarrow> string \<Rightarrow> string \<Rightarrow> content_in \<Rightarrow> string list option \<Rightarrow> rdb \<Rightarrow> (doc_version \<times> rdb) res" where
  "addAttachment c v tenant actor i title content tags s =
     rbind (load_request s tenant i) (\<lambda>_.
     rbind (createDocument c v tenant (Some actor)
              \<lparr>di_kind = Some ''ATTACHMENT'', di_title = title, di_subjectType = Some ''Request'', di_subjectId = Some i,
               di_tags = coalesce tags [''request''], di_content = content\<rparr> s) (\<lambda>(d, row, s1).
       Inr (row, request_event tenant i ''attachment_added'' actor s1)))"


subsection \<open>What the handlers do to the tables\<close>

definition request_event_action :: "string \<Rightarrow> request_action option" where
  "request_event_action ty = tfind (\<lambda>a. request_event_name a = ty) request_actions"

definition request_history :: "rdb \<Rightarrow> (string \<times> request_action) list" where
  "request_history s = history_of qe_request (\<lambda>e. request_event_action (qe_type e)) (r_events s)"

definition request_journal :: "rdb \<Rightarrow> request_action journal" where
  "request_journal s = (map (\<lambda>r. (rq_id r, rq_state r)) (requests s), request_history s)"

text \<open>What counts as evidence: documents by tenant, kind and subject, and completed executions by request code.\<close>

definition doc_marks :: "rdb \<Rightarrow> (string \<times> string \<times> string option) set" where
  "doc_marks s = (\<lambda>d. (dr_tenant d, dr_kind d, dr_subjectId d)) ` set (o_docs s)"

definition completed :: "rdb \<Rightarrow> (string \<times> string) set" where
  "completed s = (\<lambda>x. (xe_tenant x, xe_code x)) ` {x \<in> set (executions s). xe_status x = ''completed''}"

lemma request_event_action_name: "request_event_action (request_event_name a) = Some a"
  by (cases a) (simp_all add: request_event_action_def request_actions_def table_simps)

lemma request_event_other:
  "request_event_action ''created'' = None" "request_event_action ''commented'' = None"
  "request_event_action ''attachment_added'' = None"
  by code_simp+

lemma request_event_simps [simp]:
  "requests (request_event tenant i ty actor s) = requests s"
  "executions (request_event tenant i ty actor s) = executions s"
  "o_docs (request_event tenant i ty actor s) = o_docs s"
  by (simp_all add: request_event_def log_audit_def)

lemma marks_cong:
  "o_docs s' = o_docs s \<Longrightarrow> doc_marks s' = doc_marks s"
  "executions s' = executions s \<Longrightarrow> completed s' = completed s"
  "r_events s' = r_events s \<Longrightarrow> request_history s' = request_history s"
  by (simp_all only: doc_marks_def completed_def request_history_def)

lemma request_event_marks [simp]:
  "doc_marks (request_event tenant i ty actor s) = doc_marks s"
  "completed (request_event tenant i ty actor s) = completed s"
  by (rule marks_cong, simp)+

lemma request_event_history [simp]:
  "request_history (request_event tenant i ty actor s) =
     request_history s @ (case request_event_action ty of None \<Rightarrow> [] | Some a \<Rightarrow> [(i, a)])"
  by (simp add: request_event_def log_audit_def request_history_def split: option.split)

lemma update_request_simps [simp]:
  "requests (update_request i f s) = tupd (\<lambda>r. rq_id r = i) f (requests s)"
  "request_history (update_request i f s) = request_history s"
  "doc_marks (update_request i f s) = doc_marks s" "completed (update_request i f s) = completed s"
  by (simp add: update_request_def) (rule marks_cong, simp add: update_request_def)+

lemma load_request_InrD: "load_request s tenant i = Inr r \<Longrightarrow> r \<in> set (requests s) \<and> rq_id r = i \<and> rq_tenant r = tenant"
  by (auto simp: load_request_def split: option.splits dest: tfind_SomeD)

lemma assertLegalRequest_Inr: "assertLegalRequest a st = Inr to \<longleftrightarrow> nextState a st = Some to"
  by (auto simp: assertLegalRequest_def split: option.splits)

lemma snapshot_requests [simp]:
  "requests (snd (snapshot le tenant actor code node sel s)) = requests s"
  "request_history (snd (snapshot le tenant actor code node sel s)) = request_history s"
  "doc_marks (snd (snapshot le tenant actor code node sel s)) = doc_marks s"
  "completed (snd (snapshot le tenant actor code node sel s)) = completed s"
  by (simp add: snapshot_def log_audit_def Let_def) (rule marks_cong, simp add: snapshot_def log_audit_def Let_def)+

lemma createDocument_requests:
  assumes "createDocument c v tenant actor b s = Inr (d, row, s')"
  shows "requests s' = requests s" "r_events s' = r_events s" "executions s' = executions s"
    "doc_marks s' = insert (tenant, coalesce (di_kind b) ''GENERIC'', di_subjectId b) (doc_marks s)"
proof -
  let ?s1 = "s\<lparr>o_docs := o_docs s @ [new_doc v tenant actor b s], o_seq := Suc (o_seq s)\<rparr>"
  have app: "appendVersion c v tenant actor (oid v s) (di_content b) ?s1 = Inr (row, s')"
    using assms by (auto simp: createDocument_def split: if_splits sum.splits)
  then obtain docs where s': "o_docs s' = tupd (\<lambda>r. dr_id r = oid v s) (\<lambda>r. r\<lparr>dr_current := docs\<rparr>) (o_docs ?s1)"
    "requests s' = requests ?s1" "r_events s' = r_events ?s1" "executions s' = executions ?s1"
    by (auto simp: appendVersion_def Let_def split: sum.splits)
  then show "requests s' = requests s" "r_events s' = r_events s" "executions s' = executions s" by simp_all
  have "map (\<lambda>d. (dr_tenant d, dr_kind d, dr_subjectId d)) (o_docs s') = map (\<lambda>d. (dr_tenant d, dr_kind d, dr_subjectId d)) (o_docs ?s1)"
    unfolding s'(1) by (rule map_tupd_frame) simp
  from arg_cong [OF this, of set] have "doc_marks s' = doc_marks ?s1" by (simp only: doc_marks_def set_map)
  then show "doc_marks s' = insert (tenant, coalesce (di_kind b) ''GENERIC'', di_subjectId b) (doc_marks s)"
    by (simp add: doc_marks_def new_doc_def)
qed

definition evidenced :: "rdb \<Rightarrow> request \<Rightarrow> bool" where
  "evidenced s r \<longleftrightarrow> (rq_tenant r, ''EVIDENCE'', Some (rq_id r)) \<in> doc_marks s \<and> (rq_tenant r, rq_code r) \<in> completed s"

inductive request_effect :: "rdb \<Rightarrow> rdb \<Rightarrow> bool" where
  qe_none: "requests s' = requests s \<Longrightarrow> request_history s' = request_history s \<Longrightarrow>
     doc_marks s \<subseteq> doc_marks s' \<Longrightarrow> completed s \<subseteq> completed s' \<Longrightarrow> request_effect s s'"
| qe_move: "r \<in> set (requests s) \<Longrightarrow> rq_id r = i \<Longrightarrow> nextState a (rq_state r) = Some to \<Longrightarrow>
     (\<And>x. rq_id (f x) = rq_id x \<and> rq_tenant (f x) = rq_tenant x \<and> rq_code (f x) = rq_code x \<and> rq_state (f x) = to) \<Longrightarrow>
     requests s' = tupd (\<lambda>x. rq_id x = i) f (requests s) \<Longrightarrow> request_history s' = request_history s @ [(i, a)] \<Longrightarrow>
     doc_marks s \<subseteq> doc_marks s' \<Longrightarrow> completed s \<subseteq> completed s' \<Longrightarrow> (to = ''DONE'' \<Longrightarrow> evidenced s' r) \<Longrightarrow>
     request_effect s s'"
| qe_new: "rq_state r = ''DRAFT'' \<Longrightarrow> rq_id r \<notin> rq_id ` set (requests s) \<Longrightarrow>
     requests s' = requests s @ [r] \<Longrightarrow> request_history s' = request_history s \<Longrightarrow>
     doc_marks s \<subseteq> doc_marks s' \<Longrightarrow> completed s \<subseteq> completed s' \<Longrightarrow> request_effect s s'"

lemma move_request_effect:
  assumes "move_request tenant actor a f r to s1 = Inr (w, s')" "r \<in> set (requests s)" "nextState a (rq_state r) = Some to"
    and "requests s1 = requests s" "request_history s1 = request_history s" "doc_marks s \<subseteq> doc_marks s1" "completed s \<subseteq> completed s1"
    and "to = ''DONE'' \<Longrightarrow> evidenced s1 r"
    and f: "\<And>x. rq_id (f x) = rq_id x \<and> rq_tenant (f x) = rq_tenant x \<and> rq_code (f x) = rq_code x"
  shows "request_effect s s'"
proof -
  from assms(1) have s': "s' = request_event tenant (rq_id r) (request_event_name a) actor
      (update_request (rq_id r) (\<lambda>x. (f x)\<lparr>rq_state := to\<rparr>) s1)"
    by (simp add: move_request_def Let_def)
  have "to = ''DONE'' \<Longrightarrow> evidenced s' r" using assms(8) by (simp add: evidenced_def s')
  then show ?thesis
    using f assms(4-7) by (intro qe_move [OF assms(2) refl assms(3), of "\<lambda>x. (f x)\<lparr>rq_state := to\<rparr>"])
      (simp_all add: s' request_event_action_name)
qed

lemma not_done_unless_evidence: "nextState a st = Some to \<Longrightarrow> a \<noteq> R_evidence \<Longrightarrow> to \<noteq> ''DONE''"
  by (cases a) (auto simp: nextState_def table_next_Some_iff)


subsection \<open>Steps of the module\<close>

inductive request_step :: "(string \<Rightarrow> string \<Rightarrow> bool) \<Rightarrow> codec \<Rightarrow> rdb \<Rightarrow> rdb \<Rightarrow> bool" for le c where
  qs_create: "createDraft v tenant actor b s = Inr (w, s') \<Longrightarrow> oid v s \<notin> rq_id ` set (requests s) \<Longrightarrow> request_step le c s s'"
| qs_submit: "submitRequest le tenant actor i s = Inr (q, s') \<Longrightarrow> request_step le c s s'"
| qs_approve: "approveRequest tenant actor i enforce s = Inr (q, s') \<Longrightarrow> request_step le c s s'"
| qs_act: "actRequest tenant actor i a s = Inr (q, s') \<Longrightarrow>
     a \<in> {R_request_supplement, R_resubmit, R_reject, R_withdraw, R_cancel} \<Longrightarrow> request_step le c s s'"
| qs_execute: "executeRequest v tenant actor i cc ac s = Inr (x, s') \<Longrightarrow> request_step le c s s'"
| qs_evidence: "evidenceRequest c v tenant actor i e b s = Inr (q, s') \<Longrightarrow> request_step le c s s'"
| qs_comment: "addComment v tenant actor i body ms s = Inr (cm, s') \<Longrightarrow> request_step le c s s'"
| qs_attach: "addAttachment c v tenant actor i title content tags s = Inr (row, s') \<Longrightarrow> request_step le c s s'"

lemma createDraft_effect:
  assumes "createDraft v tenant actor b s = Inr (w, s')" "oid v s \<notin> rq_id ` set (requests s)"
  shows "request_effect s s'"
proof (cases "s' = s")
  case True
  then show ?thesis by (simp add: qe_none)
next
  case False
  let ?r = "new_request v tenant actor b s"
  from assms(1) False have "s' = request_event tenant (rq_id ?r) ''created'' actor
      (s\<lparr>requests := requests s @ [?r], o_seq := Suc (o_seq s)\<rparr>)"
    by (auto simp: createDraft_def rbind_Inr_iff Let_def split: option.splits if_splits)
  moreover have "rq_id ?r = oid v s" "rq_state ?r = ''DRAFT''" by (simp_all add: new_request_def)
  moreover have "doc_marks (s\<lparr>requests := rs, o_seq := n\<rparr>) = doc_marks s" "completed (s\<lparr>requests := rs, o_seq := n\<rparr>) = completed s"
      "request_history (s\<lparr>requests := rs, o_seq := n\<rparr>) = request_history s" for rs n
    by (rule marks_cong, simp)+
  ultimately show ?thesis
    using assms(2) by (intro qe_new [of ?r]) (simp_all add: request_event_other)
qed

lemma submitRequestE:
  assumes "submitRequest le tenant actor i s = Inr (q, s')"
  obtains r to s1 who role where "load_request s tenant i = Inr r" "nextState R_submit (rq_state r) = Some to"
    "requests s1 = requests s" "request_history s1 = request_history s" "doc_marks s1 = doc_marks s" "completed s1 = completed s"
    "move_request tenant actor R_submit (\<lambda>x. x\<lparr>rq_approver := who, rq_approverRole := role\<rparr>) r to s1 = Inr (q, s')"
proof -
  let ?snap = "\<lambda>r. snapshot le tenant actor (rq_code r) ''request-approval'' (approver_selector (rq_procedure r)) s"
  let ?who = "\<lambda>r. case re_person (fst (?snap r)) of None \<Rightarrow> None | Some p \<Rightarrow> if p = [] then None else userIdForPerson (o_org s) p"
  from assms obtain r to where r: "load_request s tenant i = Inr r" "nextState R_submit (rq_state r) = Some to"
    "move_request tenant actor R_submit (\<lambda>x. x\<lparr>rq_approver := ?who r,
       rq_approverRole := Some (fst (approverRoleFor (rq_procedure r)))\<rparr>) r to (snd (?snap r)) = Inr (q, s')"
    by (auto simp: submitRequest_def rbind_Inr_iff assertLegalRequest_Inr case_prod_unfold Let_def)
  show ?thesis by (rule that [OF r(1,2) _ _ _ _ r(3)]) simp_all
qed

lemma executeRequestE:
  assumes "executeRequest v tenant actor i cc ac s = Inr (x, s')"
  obtains r to row q where "load_request s tenant i = Inr r" "nextState R_execute (rq_state r) = Some to"
    "move_request tenant actor R_execute id r to (s\<lparr>executions := executions s @ [row], o_seq := Suc (o_seq s)\<rparr>) = Inr (q, s')"
  using assms
  by (auto simp: executeRequest_def rbind_Inr_iff assertLegalRequest_Inr Let_def intro: that)

lemma evidenceRequestE:
  assumes "evidenceRequest c v tenant actor i e b s = Inr (q, s')"
  obtains r x d row s1 where "load_request s tenant i = Inr r" "rq_state r = ''EXECUTING''"
    "x \<in> set (executions s)" "xe_id x = e" "xe_tenant x = tenant" "xe_code x = rq_code r"
    "createDocument c v tenant (Some actor) (evidence_doc r b) s = Inr (d, row, s1)"
    "move_request tenant actor R_evidence id r ''DONE''
       (s1\<lparr>executions := tupd (\<lambda>y. xe_id y = xe_id x) (complete_execution tenant actor b) (executions s1)\<rparr>) = Inr (q, s')"
proof -
  from assms obtain r where r: "load_request s tenant i = Inr r" "rq_state r = ''EXECUTING''"
    by (auto simp: evidenceRequest_def rbind_Inr_iff)
  let ?P = "\<lambda>x. xe_id x = e \<and> xe_tenant x = tenant \<and> xe_code x = rq_code r"
  from assms r obtain x where x: "tfind ?P (executions s) = Some x"
    by (cases "tfind ?P (executions s)") (auto simp: evidenceRequest_def)
  from assms r x obtain p where "createDocument c v tenant (Some actor) (evidence_doc r b) s = Inr p"
    "(case p of (d, row, s1) \<Rightarrow> move_request tenant actor R_evidence id r ''DONE''
       (s1\<lparr>executions := tupd (\<lambda>y. xe_id y = xe_id x) (complete_execution tenant actor b) (executions s1)\<rparr>)) = Inr (q, s')"
    by (auto simp: evidenceRequest_def rbind_Inr_iff)
  with r x show ?thesis by (cases p) (auto dest!: tfind_SomeD intro: that)
qed

lemma completed_update:
  assumes "x \<in> set (executions s)" "xe_tenant x = tenant" "xe_code x = code" "executions s1 = executions s"
  shows "completed s \<subseteq> completed (s1\<lparr>executions := tupd (\<lambda>y. xe_id y = xe_id x) (complete_execution tenant actor b) (executions s1)\<rparr>)"
    "(tenant, code) \<in> completed (s1\<lparr>executions := tupd (\<lambda>y. xe_id y = xe_id x) (complete_execution tenant actor b) (executions s1)\<rparr>)"
proof -
  let ?f = "complete_execution tenant actor b"
  have f: "xe_tenant (?f y) = xe_tenant y" "xe_code (?f y) = xe_code y" "xe_status (?f y) = ''completed''" for y
    by (simp_all add: complete_execution_def Let_def)
  let ?g = "\<lambda>y. if xe_id y = xe_id x then ?f y else y"
  have mem: "?g y \<in> set (tupd (\<lambda>y. xe_id y = xe_id x) ?f (executions s))" if "y \<in> set (executions s)" for y
    using that by (simp add: set_tupd)
  have key: "(xe_tenant y, xe_code y) \<in> completed (s1\<lparr>executions := tupd (\<lambda>y. xe_id y = xe_id x) ?f (executions s1)\<rparr>)"
    if "y \<in> set (executions s)" "xe_status (?g y) = ''completed''" for y
    using mem [OF that(1)] that(2) assms(4) f by (auto simp: completed_def intro!: image_eqI [of _ _ "?g y"])
  show "completed s \<subseteq> completed (s1\<lparr>executions := tupd (\<lambda>y. xe_id y = xe_id x) ?f (executions s1)\<rparr>)"
    using key f(3) by (auto simp: completed_def [of s])
  show "(tenant, code) \<in> completed (s1\<lparr>executions := tupd (\<lambda>y. xe_id y = xe_id x) ?f (executions s1)\<rparr>)"
    using key [OF assms(1)] f(3) assms(2,3) by simp
qed

lemma evidenceRequest_effect:
  assumes "evidenceRequest c v tenant actor i e b s = Inr (q, s')"
  shows "request_effect s s'"
  using assms
proof (rule evidenceRequestE)
  fix r :: request and x :: execution and d row and s1 :: rdb
  let ?s2 = "s1\<lparr>executions := tupd (\<lambda>y. xe_id y = xe_id x) (complete_execution tenant actor b) (executions s1)\<rparr>"
  assume l: "load_request s tenant i = Inr r" and st: "rq_state r = ''EXECUTING''"
    and x: "x \<in> set (executions s)" "xe_tenant x = tenant" "xe_code x = rq_code r"
    and doc: "createDocument c v tenant (Some actor) (evidence_doc r b) s = Inr (d, row, s1)"
    and m: "move_request tenant actor R_evidence id r ''DONE'' ?s2 = Inr (q, s')"
  note D = createDocument_requests [OF doc] and U = completed_update [OF x D(3), of actor b]
  from load_request_InrD [OF l] have r: "r \<in> set (requests s)" "rq_id r = i" "rq_tenant r = tenant" by simp_all
  have marks: "doc_marks ?s2 = doc_marks s1" by (rule marks_cong) simp
  have "evidenced ?s2 r" using U(2) D(4) r marks by (simp add: evidenced_def evidence_doc_def)
  moreover have "nextState R_evidence (rq_state r) = Some ''DONE''" using st by (simp add: nextState_def table_next_def)
  moreover have "request_history ?s2 = request_history s" using D(2) by (intro marks_cong) simp
  ultimately show ?thesis
    using r D U(1) marks by (intro move_request_effect [OF m]) auto
qed

lemma request_step_effect: "request_step le c s s' \<Longrightarrow> request_effect s s'"
proof (induction rule: request_step.induct)
  case (qs_create v tenant actor b s w s')
  then show ?case by (rule createDraft_effect)
next
  case (qs_submit tenant actor i s q s')
  then show ?case
  proof (rule submitRequestE)
    fix r to s1 who role
    assume "load_request s tenant i = Inr r" and n: "nextState R_submit (rq_state r) = Some to"
      and s1: "requests s1 = requests s" "request_history s1 = request_history s" "doc_marks s1 = doc_marks s" "completed s1 = completed s"
      and m: "move_request tenant actor R_submit (\<lambda>x. x\<lparr>rq_approver := who, rq_approverRole := role\<rparr>) r to s1 = Inr (q, s')"
    from this(1) have "r \<in> set (requests s)" by (simp add: load_request_InrD)
    from move_request_effect [OF m this n s1(1,2)] s1(3,4) not_done_unless_evidence [OF n] show ?thesis by simp
  qed
next
  case (qs_approve tenant actor i enforce s q s')
  then obtain r to where r: "load_request s tenant i = Inr r" "nextState R_approve (rq_state r) = Some to"
    and m: "move_request tenant actor R_approve id r to s = Inr (q, s')"
    by (auto simp: approveRequest_def rbind_Inr_iff assertLegalRequest_Inr)
  from load_request_InrD [OF r(1)] have "r \<in> set (requests s)" by simp
  from move_request_effect [OF m this r(2)] not_done_unless_evidence [OF r(2)] show ?case by simp
next
  case (qs_act tenant actor i a s q s')
  then obtain r to where r: "load_request s tenant i = Inr r" "nextState a (rq_state r) = Some to"
    and m: "move_request tenant actor a id r to s = Inr (q, s')"
    by (auto simp: actRequest_def rbind_Inr_iff assertLegalRequest_Inr)
  from load_request_InrD [OF r(1)] have "r \<in> set (requests s)" by simp
  moreover from qs_act(2) have "a \<noteq> R_evidence" by auto
  ultimately show ?case using move_request_effect [OF m _ r(2)] not_done_unless_evidence [OF r(2)] by simp
next
  case (qs_execute v tenant actor i cc ac s x s')
  then show ?case
  proof (rule executeRequestE)
    fix r :: request and to row q
    let ?s1 = "s\<lparr>executions := executions s @ [row], o_seq := Suc (o_seq s)\<rparr>"
    assume l: "load_request s tenant i = Inr r" and n: "nextState R_execute (rq_state r) = Some to"
      and m: "move_request tenant actor R_execute id r to ?s1 = Inr (q, s')"
    from load_request_InrD [OF l] have r: "r \<in> set (requests s)" by simp
    have "doc_marks ?s1 = doc_marks s" "request_history ?s1 = request_history s" by (rule marks_cong, simp)+
    moreover have "completed s \<subseteq> completed ?s1" by (auto simp: completed_def)
    ultimately show ?thesis using move_request_effect [OF m r n] not_done_unless_evidence [OF n] by simp
  qed
next
  case (qs_evidence v tenant actor i e b s q s')
  then show ?case by (rule evidenceRequest_effect)
next
  case (qs_comment v tenant actor i body ms s cm s')
  then obtain cm' where "s' = request_event tenant i ''commented'' actor (s\<lparr>r_comments := r_comments s @ [cm'], o_seq := Suc (o_seq s)\<rparr>)"
    by (auto simp: addComment_def rbind_Inr_iff Let_def)
  moreover have "doc_marks (s\<lparr>r_comments := cs, o_seq := n\<rparr>) = doc_marks s" "completed (s\<lparr>r_comments := cs, o_seq := n\<rparr>) = completed s"
      "request_history (s\<lparr>r_comments := cs, o_seq := n\<rparr>) = request_history s" for cs n
    by (rule marks_cong, simp)+
  ultimately show ?case by (intro qe_none) (simp_all add: request_event_other)
next
  case (qs_attach v tenant actor i title content tags s row s')
  then obtain d doc s1 where "createDocument c v tenant (Some actor) doc s = Inr (d, row, s1)"
    and s': "s' = request_event tenant i ''attachment_added'' actor s1"
    by (auto simp: addAttachment_def rbind_Inr_iff)
  note D = createDocument_requests [OF this(1)]
  show ?case using D marks_cong(2) [OF D(3)] marks_cong(3) [OF D(2)] by (intro qe_none) (auto simp: s' request_event_other)
qed


lemma request_step_journal:
  assumes "request_step le c s s'"
  shows "lc_step REQUEST_TRANSITIONS ''DRAFT'' (request_journal s) (request_journal s')"
  using request_step_effect [OF assms]
proof cases
  case qe_none
  then show ?thesis by (simp add: request_journal_def lc_idle)
next
  case (qe_move r i a to f)
  then show ?thesis
    using lc_act_table [of r "requests s" rq_id i REQUEST_TRANSITIONS a rq_state to f "''DRAFT''" "request_history s"]
    by (simp add: request_journal_def nextState_def)
next
  case (qe_new r)
  then show ?thesis
    using lc_create_table [of rq_id r "requests s" rq_state "''DRAFT''" REQUEST_TRANSITIONS "request_history s"]
    by (simp add: request_journal_def)
qed

interpretation admin: event_sourced REQUEST_TRANSITIONS "''DRAFT''" REQUEST_TERMINAL request_journal "request_step le c" for le c
  by unfold_locales (auto simp: request_step_journal request.no_exit)

subsection \<open>The way to DONE\<close>

lemma table_run_snoc:
  "table_run tr s (as @ [a]) = Some t \<longleftrightarrow> (\<exists>u. table_run tr s as = Some u \<and> table_next tr a u = Some t)"
  by (auto simp: table_run_append split: option.splits)

lemma request_last:
  assumes "table_run REQUEST_TRANSITIONS ''DRAFT'' as = Some t" "t \<noteq> ''DRAFT''"
  shows "\<exists>bs a u. as = bs @ [a] \<and> table_run REQUEST_TRANSITIONS ''DRAFT'' bs = Some u \<and> table_next REQUEST_TRANSITIONS a u = Some t"
proof (cases as rule: rev_cases)
  case Nil
  with assms show ?thesis by simp
next
  case (snoc bs a)
  from assms(1) obtain u where "table_run REQUEST_TRANSITIONS ''DRAFT'' bs = Some u" "table_next REQUEST_TRANSITIONS a u = Some t"
    unfolding snoc table_run_snoc by (elim exE conjE)
  with snoc show ?thesis by (intro exI conjI)
qed

lemma request_into:
  "table_next REQUEST_TRANSITIONS a u = Some ''DONE'' \<Longrightarrow> a = R_evidence \<and> u = ''EXECUTING''"
  "table_next REQUEST_TRANSITIONS a u = Some ''EXECUTING'' \<Longrightarrow> a = R_execute \<and> u = ''APPROVED''"
  "table_next REQUEST_TRANSITIONS a u = Some ''APPROVED'' \<Longrightarrow> a = R_approve"
  by (cases a; simp add: table_next_Some_iff)+

lemma done_run:
  assumes "table_run REQUEST_TRANSITIONS ''DRAFT'' as = Some ''DONE''"
  shows "\<exists>pre. as = pre @ [R_approve, R_execute, R_evidence]"
proof -
  from request_last [OF assms] obtain bs where 1: "as = bs @ [R_evidence]"
    "table_run REQUEST_TRANSITIONS ''DRAFT'' bs = Some ''EXECUTING''" by (auto dest: request_into)
  from request_last [OF 1(2)] obtain cs where 2: "bs = cs @ [R_execute]"
    "table_run REQUEST_TRANSITIONS ''DRAFT'' cs = Some ''APPROVED''" by (auto dest: request_into)
  from request_last [OF 2(2)] obtain ds where "cs = ds @ [R_approve]" by (auto dest: request_into)
  with 1 2 show ?thesis by simp
qed

definition requests_ok :: "rdb \<Rightarrow> bool" where
  "requests_ok s \<longleftrightarrow> distinct (map rq_id (requests s)) \<and> (\<forall>r \<in> set (requests s). rq_state r = ''DONE'' \<longrightarrow> evidenced s r)"

lemma evidenced_mono:
  "evidenced s r \<Longrightarrow> doc_marks s \<subseteq> doc_marks s' \<Longrightarrow> completed s \<subseteq> completed s' \<Longrightarrow>
   rq_tenant q = rq_tenant r \<Longrightarrow> rq_id q = rq_id r \<Longrightarrow> rq_code q = rq_code r \<Longrightarrow> evidenced s' q"
  by (simp add: evidenced_def) blast

lemma requests_ok_step: "request_step le c s s' \<Longrightarrow> requests_ok s \<Longrightarrow> requests_ok s'"
proof -
  assume ok: "requests_ok s" and step: "request_step le c s s'"
  from request_step_effect [OF step] show ?thesis
  proof cases
    case qe_none
    then show ?thesis using ok evidenced_mono [OF _ qe_none(3,4) refl refl refl] by (simp add: requests_ok_def)
  next
    case (qe_move r i a to f)
    have "map rq_id (requests s') = map rq_id (requests s)" unfolding qe_move(5) by (rule map_tupd_frame) (simp add: qe_move(4))
    moreover have "evidenced s' q" if q: "q \<in> set (requests s')" "rq_state q = ''DONE''" for q
      using q(1) unfolding qe_move(5)
    proof (cases rule: in_set_tupdE)
      case (new r0)
      have "r0 = r"
        by (rule distinct_column_unique [of rq_id "requests s"]) (use new qe_move(1,2) ok requests_ok_def in simp_all)
      moreover from new q(2) qe_move(4) have "to = ''DONE''" by simp
      ultimately show ?thesis using qe_move(4,9) new evidenced_mono [of s' r s' q] by simp
    next
      case old
      with ok q(2) qe_move(7,8) show ?thesis unfolding requests_ok_def by (metis evidenced_mono)
    qed
    ultimately show ?thesis using ok by (simp add: requests_ok_def)
  next
    case (qe_new r)
    have "evidenced s' q" if "q \<in> set (requests s')" "rq_state q = ''DONE''" for q
    proof -
      from that qe_new have "q \<in> set (requests s)" by auto
      with ok that(2) qe_new(5,6) show ?thesis unfolding requests_ok_def by (metis evidenced_mono)
    qed
    with ok qe_new show ?thesis by (simp add: requests_ok_def)
  qed
qed

lemma requests_ok_steps: "(request_step le c)\<^sup>*\<^sup>* s s' \<Longrightarrow> requests_ok s \<Longrightarrow> requests_ok s'"
  by (induction rule: rtranclp_induct) (auto dest: requests_ok_step)

subsection \<open>Properties\<close>

text \<open>
  C8. Done means done: after any handlers, a request in DONE was approved, then executed, then
  given evidence, as the last three actions of its log; an evidence document is filed under it, and
  an external execution of its code is completed.
\<close>
theorem request_done_means_done:
  assumes "(request_step le c)\<^sup>*\<^sup>* s s'" "requests_ok s" "replays REQUEST_TRANSITIONS ''DRAFT'' (request_journal s)"
    and r: "r \<in> set (requests s')" "rq_state r = ''DONE''"
  shows "(\<exists>pre. actions_of (rq_id r) (request_history s') = pre @ [R_approve, R_execute, R_evidence]) \<and>
    (\<exists>d \<in> set (o_docs s'). dr_tenant d = rq_tenant r \<and> dr_kind d = ''EVIDENCE'' \<and> dr_subjectId d = Some (rq_id r)) \<and>
    (\<exists>x \<in> set (executions s'). xe_tenant x = rq_tenant r \<and> xe_code x = rq_code r \<and> xe_status x = ''completed'')"
proof (intro conjI)
  from admin.replay [OF assms(1,3)] r
  have "table_run REQUEST_TRANSITIONS ''DRAFT'' (actions_of (rq_id r) (request_history s')) = Some ''DONE''"
    by (auto simp: replays_def request_journal_def)
  then show "\<exists>pre. actions_of (rq_id r) (request_history s') = pre @ [R_approve, R_execute, R_evidence]" by (rule done_run)
  from requests_ok_steps [OF assms(1,2)] r have "evidenced s' r" by (simp add: requests_ok_def)
  then show "\<exists>d \<in> set (o_docs s'). dr_tenant d = rq_tenant r \<and> dr_kind d = ''EVIDENCE'' \<and> dr_subjectId d = Some (rq_id r)"
    "\<exists>x \<in> set (executions s'). xe_tenant x = rq_tenant r \<and> xe_code x = rq_code r \<and> xe_status x = ''completed''"
    by (auto simp: evidenced_def doc_marks_def completed_def)
qed

text \<open>
  Who moves a request: with enforcement on, an approval is by a user whose permissions contain
  \<open>request.approve\<close> within an amount ceiling; withdrawing, resubmitting and cancelling are the
  requester's alone. Submitting is not: whether it succeeds does not depend on who asks, so anybody
  may submit somebody else's draft.
\<close>
theorem request_actor_gates:
  "(approveRequest tenant actor i True s = Inr (q, s') \<longrightarrow>
      (\<exists>r \<in> set (requests s). rq_id r = i \<and> rq_tenant r = tenant \<and> can (o_org s) actor ''request.approve'' (rq_amount r) = Granted)) \<and>
   (actRequest tenant actor i a s = Inr (q, s') \<longrightarrow> a \<in> {R_withdraw, R_resubmit, R_cancel} \<longrightarrow>
      (\<exists>r \<in> set (requests s). rq_id r = i \<and> rq_tenant r = tenant \<and> rq_requester r = actor)) \<and>
   is_ok (submitRequest le tenant actor i s) = is_ok (submitRequest le tenant other i s)"
proof (intro conjI impI)
  assume "approveRequest tenant actor i True s = Inr (q, s')"
  then show "\<exists>r \<in> set (requests s). rq_id r = i \<and> rq_tenant r = tenant \<and> can (o_org s) actor ''request.approve'' (rq_amount r) = Granted"
    by (auto simp: approveRequest_def rbind_Inr_iff dest!: load_request_InrD)
next
  assume "actRequest tenant actor i a s = Inr (q, s')" "a \<in> {R_withdraw, R_resubmit, R_cancel}"
  then show "\<exists>r \<in> set (requests s). rq_id r = i \<and> rq_tenant r = tenant \<and> rq_requester r = actor"
    by (auto simp: actRequest_def rbind_Inr_iff dest!: load_request_InrD)
next
  have ok: "is_ok (rbind r f) = (case r of Inl e \<Rightarrow> False | Inr x \<Rightarrow> is_ok (f x))" for r :: "'x res" and f :: "'x \<Rightarrow> 'y res"
    by (cases r) simp_all
  show "is_ok (submitRequest le tenant actor i s) = is_ok (submitRequest le tenant other i s)"
    by (simp add: submitRequest_def ok move_request_def case_prod_unfold Let_def split: sum.splits)
qed

subsection \<open>An example\<close>

definition empty_admin :: rdb where
  "empty_admin = \<lparr>o_docs = [], o_versions = [], o_files = [], o_res = [], o_audit = [], o_org = empty_idb, o_seq = 0,
     requests = [], executions = [], r_events = [], r_comments = []\<rparr>"

definition purchase :: request_in where
  "purchase = \<lparr>qi_title = ''Chairs'', qi_kind = None, qi_procedure = None, qi_amount = Some 70, qi_currency = None,
     qi_payload = JNull, qi_key = None\<rparr>"

definition receipt :: evidence_in where
  "receipt = \<lparr>ei_reference = Some ''PO-7'', ei_system = None, ei_note = None, ei_text = Some ''ok'', ei_base64 = None,
     ei_mime = None, ei_title = None\<rparr>"

definition q1 :: "((request \<times> bool) \<times> rdb) res" where
  "q1 = createDraft demo_env ''t1'' ''u1'' purchase empty_admin"
definition q2 :: "(request \<times> rdb) res" where
  "q2 = submitRequest lex_le ''t1'' ''u1'' ''id0'' (snd (projr q1))"
definition q3 :: "(request \<times> rdb) res" where
  "q3 = approveRequest ''t1'' ''boss'' ''id0'' False (snd (projr q2))"
definition q4 :: "((request \<times> execution) \<times> rdb) res" where
  "q4 = executeRequest demo_env ''t1'' ''boss'' ''id0'' None None (snd (projr q3))"
definition q5 :: "(request \<times> rdb) res" where
  "q5 = evidenceRequest demo_codec demo_env ''t1'' ''boss'' ''id0'' ''id1'' receipt (snd (projr q4))"

text \<open>The whole run in one evaluation.\<close>

lemma purchase_run:
  "case q1 of Inl _ \<Rightarrow> False | Inr (_, s) \<Rightarrow>
     (case submitRequest lex_le ''t1'' ''u1'' ''id0'' s of Inl _ \<Rightarrow> False | Inr (_, s) \<Rightarrow>
     (case approveRequest ''t1'' ''boss'' ''id0'' False s of Inl _ \<Rightarrow> False | Inr (_, s) \<Rightarrow>
     (case executeRequest demo_env ''t1'' ''boss'' ''id0'' None None s of Inl _ \<Rightarrow> False | Inr (_, s) \<Rightarrow>
     (case evidenceRequest demo_codec demo_env ''t1'' ''boss'' ''id0'' ''id1'' receipt s of Inl _ \<Rightarrow> False | Inr (_, s) \<Rightarrow>
        map (\<lambda>r. (rq_id r, rq_state r)) (requests s) = [(''id0'', ''DONE'')]))))"
  by code_simp

lemmas purchase_steps =
  purchase_run
  purchase_run [THEN run_okD(2), folded q2_def]
  purchase_run [THEN run_okD(2), folded q2_def, THEN run_okD(2), folded q3_def]
  purchase_run [THEN run_okD(2), folded q2_def, THEN run_okD(2), folded q3_def, THEN run_okD(2), folded q4_def]
  purchase_run [THEN run_okD(2), folded q2_def, THEN run_okD(2), folded q3_def, THEN run_okD(2), folded q4_def, THEN run_okD(2), folded q5_def]

lemma purchase_runs: "is_ok q1" "is_ok q2" "is_ok q3" "is_ok q4" "is_ok q5"
  "map (\<lambda>r. (rq_id r, rq_state r)) (requests (snd (projr q5))) = [(''id0'', ''DONE'')]"
  by (rule run_okD(1) [OF purchase_steps(1)], rule run_okD(1) [OF purchase_steps(2)], rule run_okD(1) [OF purchase_steps(3)],
      rule run_okD(1) [OF purchase_steps(4)], rule run_okD(1) [OF purchase_steps(5)], rule run_okD(2) [OF purchase_steps(5)])

lemma drafted_eq: "createDraft demo_env ''t1'' ''u1'' purchase empty_admin = Inr (fst (projr q1), snd (projr q1))"
  unfolding q1_def [symmetric] by (rule ok_pair) (rule purchase_runs)

lemma submitted_eq: "submitRequest lex_le ''t1'' ''u1'' ''id0'' (snd (projr q1)) = Inr (fst (projr q2), snd (projr q2))"
  unfolding q2_def [symmetric] by (rule ok_pair) (rule purchase_runs)

lemma consented_eq: "approveRequest ''t1'' ''boss'' ''id0'' False (snd (projr q2)) = Inr (fst (projr q3), snd (projr q3))"
  unfolding q3_def [symmetric] by (rule ok_pair) (rule purchase_runs)

lemma executed_eq: "executeRequest demo_env ''t1'' ''boss'' ''id0'' None None (snd (projr q3)) =
    Inr ((fst (fst (projr q4)), snd (fst (projr q4))), snd (projr q4))"
  unfolding q4_def [symmetric] prod.collapse by (rule ok_projr) (rule purchase_runs)

lemma evidence_eq: "evidenceRequest demo_codec demo_env ''t1'' ''boss'' ''id0'' ''id1'' receipt (snd (projr q4)) =
    Inr (fst (projr q5), snd (projr q5))"
  unfolding q5_def [symmetric] by (rule ok_pair) (rule purchase_runs)

lemma request_run: "(request_step lex_le demo_codec)\<^sup>*\<^sup>* empty_admin (snd (projr q5))"
proof -
  note step = rtranclp.rtrancl_into_rtrancl [where r = "request_step lex_le demo_codec"]
  have "request_step lex_le demo_codec empty_admin (snd (projr q1))"
    by (rule qs_create [OF drafted_eq]) (simp add: empty_admin_def)
  from r_into_rtranclp [of "request_step lex_le demo_codec", OF this]
  show ?thesis
    by (rule step [OF step [OF step [OF step [OF _ qs_submit [OF submitted_eq]] qs_approve [OF consented_eq]]
        qs_execute [OF executed_eq]] qs_evidence [OF evidence_eq]])
qed

lemma request_done_means_done_witness:
  "\<exists>pre. actions_of ''id0'' (request_history (snd (projr q5))) = pre @ [R_approve, R_execute, R_evidence]"
proof -
  from purchase_runs(6) obtain r where r: "requests (snd (projr q5)) = [r]" "rq_id r = ''id0''" "rq_state r = ''DONE''" by auto
  have "requests_ok empty_admin" "replays REQUEST_TRANSITIONS ''DRAFT'' (request_journal empty_admin)"
    by (simp_all add: requests_ok_def replays_def request_journal_def request_history_def history_of_def empty_admin_def)
  from request_done_means_done [OF request_run this, of r] r show ?thesis by simp
qed

lemma request_actor_gates_witness:
  "is_ok (submitRequest lex_le ''t1'' ''mallory'' ''id0'' (snd (projr q1)))"
proof -
  from purchase_runs(2) request_actor_gates [THEN conjunct2, THEN conjunct2, of lex_le "''t1''" "''mallory''" "''id0''" "snd (projr q1)" "''u1''"]
  show ?thesis by (simp add: q2_def)
qed

end
