(* ===== verification/Leave_Ledger.thy ===== *)
theory Leave_Ledger
  imports Lifecycle Workflow_Runtime Bookings
begin

section \<open>Leave: configuration, policies, durations and the balance ledger\<close>

text \<open>
  The parts under the leave requests of xhub-api/src/people: the tenant configuration
  (config.service.ts), policies (leave-policy.service.ts), the helpers (people.helpers.ts), the
  append-only ledger of balances (leave-balance.service.ts) and the impact of an absence
  (leave-impact.service.ts). Days and hours are rationals.
\<close>

subsection \<open>State\<close>

record leave_policy =
  lp_id :: string
  lp_tenant :: string
  lp_code :: string
  lp_unit :: string
  lp_accrual :: rat
  lp_allowNegative :: bool
  lp_status :: string

record people_config =
  pc_tenant :: string
  pc_attendance :: string
  pc_leave :: string
  pc_payroll :: string

record balance =
  bs_tenant :: string
  bs_person :: string
  bs_policy :: string
  bs_period :: string
  bs_opening :: rat
  bs_accrued :: rat
  bs_used :: rat
  bs_pending :: rat
  bs_adjusted :: rat
  bs_carried :: rat
  bs_available :: rat
  bs_unit :: string
  bs_seq :: nat
  bs_reason :: string
  bs_source :: "string option"

record leave =
  lv_id :: string
  lv_tenant :: string
  lv_person :: string
  lv_orgUnit :: "string option"
  lv_position :: "string option"
  lv_type :: string
  lv_policy :: string
  lv_start :: int
  lv_end :: int
  lv_startPart :: string
  lv_endPart :: string
  lv_duration :: rat
  lv_unit :: string
  lv_status :: string
  lv_decidedBy :: "string option"
  lv_inst :: "string option"
  lv_task :: "string option"
  lv_key :: string
  lv_created :: int

record native_item =
  nw_id :: string
  nw_tenant :: string
  nw_project :: "string option"
  nw_type :: string
  nw_status :: string
  nw_owner :: "string option"
  nw_assignees :: "string list"
  nw_due :: "int option"

record directive_assignment =
  da_tenant :: string
  da_directive :: string
  da_assignee :: string
  da_state :: string
  da_due :: "int option"

record impact =
  im_items :: "string list"
  im_milestones :: "string list"
  im_approvals :: "string list"
  im_bookings :: "string list"
  im_directives :: "string list"
  im_projects :: "string list"
  im_risk :: string
  im_hours :: rat

record impact_row =
  ir_tenant :: string
  ir_leave :: string
  ir_person :: string
  ir_phase :: string
  ir_impact :: impact

text \<open>
  The tables of the module beside those of the workflow runtime (approval tasks, audit, the
  organisation) and the tables of other modules that the impact reads.
\<close>

record hdb =
  hr_x :: xdb
  hr_configs :: "people_config list"
  hr_policies :: "leave_policy list"
  hr_leaves :: "leave list"
  hr_balances :: "balance list"
  hr_impacts :: "impact_row list"
  hr_items :: "native_item list"
  hr_bookings :: "booking list"
  hr_directives :: "directive_assignment list"

text \<open>
  What the handlers take from the host: the calendar year of an instant in the time zone of the
  server (\<open>getFullYear\<close>), and whether the HTTP call that enqueues an outbox event of a type for a
  request is answered.
\<close>

record host =
  year_of :: "int \<Rightarrow> string"
  outbox :: "string \<Rightarrow> string \<Rightarrow> bool"

definition hr_id :: "env \<Rightarrow> hdb \<Rightarrow> string" where
  "hr_id v s = new_id v (hr_x s)"

definition hr_tick :: "hdb \<Rightarrow> hdb" where
  "hr_tick s = s\<lparr>hr_x := (hr_x s)\<lparr>seq := Suc (seq (hr_x s))\<rparr>\<rparr>"

definition hr_audit :: "string \<Rightarrow> string \<Rightarrow> string \<Rightarrow> string \<Rightarrow> hdb \<Rightarrow> hdb" where
  "hr_audit tenant actor action code s = s\<lparr>hr_x := appendAudit tenant code actor (''people.leave.'' @ action) (hr_x s)\<rparr>"

subsection \<open>Configuration\<close>

definition ATTENDANCE_MODES :: "string list" where
  "ATTENDANCE_MODES = [''XOFFICE'', ''FRAPPE_HR'', ''DEVICE'', ''FILE_IMPORT'']"
definition LEAVE_MODES :: "string list" where
  "LEAVE_MODES = [''XOFFICE'', ''FRAPPE_HR'']"
definition PAYROLL_MODES :: "string list" where
  "PAYROLL_MODES = [''FINERP'', ''EXTERNAL_API'', ''FILE_IMPORT'']"

definition getConfig :: "string \<Rightarrow> hdb \<Rightarrow> people_config \<times> hdb" where
  "getConfig tenant s =
     (case tfind (\<lambda>c. pc_tenant c = tenant) (hr_configs s) of
        Some c \<Rightarrow> (c, s)
      | None \<Rightarrow>
          (let c = \<lparr>pc_tenant = tenant, pc_attendance = ''FILE_IMPORT'', pc_leave = ''XOFFICE'', pc_payroll = ''FILE_IMPORT''\<rparr>
           in (c, s\<lparr>hr_configs := hr_configs s @ [c]\<rparr>)))"

definition mode_in :: "string option \<Rightarrow> string \<Rightarrow> string" where
  "mode_in m old = (if truthy_str m then to_upper (the m) else old)"

definition updateConfig ::
  "string \<Rightarrow> string option \<Rightarrow> string option \<Rightarrow> string option \<Rightarrow> hdb \<Rightarrow> (people_config \<times> hdb) res" where
  "updateConfig tenant attendance lv payroll s =
     (let (c, s1) = getConfig tenant s;
          d = c\<lparr>pc_attendance := mode_in attendance (pc_attendance c), pc_leave := mode_in lv (pc_leave c),
                pc_payroll := mode_in payroll (pc_payroll c)\<rparr>
      in rbind (ensure (pc_attendance d \<in> set ATTENDANCE_MODES) (BadRequest ''INVALID_MODE'')) (\<lambda>_.
         rbind (ensure (pc_leave d \<in> set LEAVE_MODES) (BadRequest ''INVALID_MODE'')) (\<lambda>_.
         rbind (ensure (pc_payroll d \<in> set PAYROLL_MODES) (BadRequest ''INVALID_MODE'')) (\<lambda>_.
           Inr (d, s1\<lparr>hr_configs := tupd (\<lambda>c. pc_tenant c = tenant) (\<lambda>_. d) (hr_configs s1)\<rparr>)))))"

subsection \<open>Policies\<close>

definition LEAVE_POLICY_CODES :: "string list" where
  "LEAVE_POLICY_CODES = [''ANNUAL'', ''SICK'', ''UNPAID'', ''COMP'', ''REMOTE'']"

record policy_in =
  pi_code :: "string option"
  pi_name :: "string option"
  pi_unit :: "string option"
  pi_accrual :: "rat option"
  pi_allowNegative :: "bool option"

definition createPolicy :: "env \<Rightarrow> string \<Rightarrow> policy_in \<Rightarrow> hdb \<Rightarrow> (leave_policy \<times> hdb) res" where
  "createPolicy v tenant b s =
     (let code = to_upper (coalesce (pi_code b) '''') in
      rbind (ensure (code \<in> set LEAVE_POLICY_CODES) (BadRequest ''invalid code'')) (\<lambda>_.
      rbind (ensure (truthy_str (pi_name b)) (BadRequest ''name is required'')) (\<lambda>_.
      rbind (ensure (\<forall>p \<in> set (hr_policies s). \<not> (lp_tenant p = tenant \<and> lp_code p = code)) UniqueViolation) (\<lambda>_.
        let p = \<lparr>lp_id = hr_id v s, lp_tenant = tenant, lp_code = code, lp_unit = coalesce (pi_unit b) ''DAY'',
                 lp_accrual = coalesce (pi_accrual b) 0, lp_allowNegative = coalesce (pi_allowNegative b) False,
                 lp_status = ''ACTIVE''\<rparr>
        in Inr (p, hr_tick (s\<lparr>hr_policies := hr_policies s @ [p]\<rparr>))))))"

subsection \<open>Helpers\<close>

definition resolveActingPerson :: "hdb \<Rightarrow> string \<Rightarrow> person res" where
  "resolveActingPerson s user =
     (case personForUserId (org (hr_x s)) user of
        None \<Rightarrow> Inl (BadRequest ''no PersonProfile mapped for userId'') | Some p \<Rightarrow> Inr p)"

definition DAY_MS :: rat where "DAY_MS = 86400000"

definition computeLeaveDuration :: "int \<Rightarrow> int \<Rightarrow> string \<Rightarrow> string \<Rightarrow> string \<Rightarrow> rat res" where
  "computeLeaveDuration startAt endAt startPart endPart kind =
     (if endAt < startAt then Inl (BadRequest ''endAt must not be before startAt'')
      else if kind = ''HOUR'' then Inr (max 0 (of_int (endAt - startAt) / 3600000))
      else
        (let days = of_int (js_round (of_int (endAt - startAt) / DAY_MS) + 1);
             d1 = (if startPart \<noteq> ''FULL'' then days - 1 / 2 else days);
             d2 = (if endPart \<noteq> ''FULL'' \<and> endAt \<noteq> startAt then d1 - 1 / 2 else d1);
             d3 = (if endPart \<noteq> ''FULL'' \<and> endAt = startAt \<and> startPart = ''FULL'' then d2 - 1 / 2 else d2)
         in Inr (max (1 / 2) d3)))"

definition resolveApprovalAssignee :: "hdb \<Rightarrow> string \<Rightarrow> string \<times> string option" where
  "resolveApprovalAssignee s personId =
     (let o1 = org (hr_x s); hr = (''ROLE_HR'', None) in
      case tfind (\<lambda>p. po_holder p = Some personId) (positions o1) of
        None \<Rightarrow> hr
      | Some p \<Rightarrow>
          (if \<not> truthy_str (po_reportsTo p) then hr
           else case tfind (\<lambda>q. Some (po_id q) = po_reportsTo p) (positions o1) of
                  None \<Rightarrow> hr
                | Some q \<Rightarrow>
                    (if \<not> truthy_str (po_holder q) then hr
                     else (''ROLE_DIRECT_MANAGER'', userIdForPerson o1 (the (po_holder q))))))"

subsection \<open>The ledger\<close>

type_synonym bkey = "string \<times> string \<times> string \<times> string"

definition balance_key :: "balance \<Rightarrow> bkey" where
  "balance_key b = (bs_tenant b, bs_person b, bs_policy b, bs_period b)"

text \<open>\<open>findFirst\<close> of a key ordered by sequence, descending.\<close>

definition later :: "bkey \<Rightarrow> balance option \<Rightarrow> balance \<Rightarrow> balance option" where
  "later k acc b =
     (if balance_key b = k then
        (case acc of None \<Rightarrow> Some b | Some a \<Rightarrow> if bs_seq a < bs_seq b then Some b else Some a)
      else acc)"

definition latest_row :: "bkey \<Rightarrow> balance list \<Rightarrow> balance option" where
  "latest_row k rows = foldl (later k) None rows"

fun initial_row :: "bkey \<Rightarrow> balance" where
  "initial_row (tenant, p, policy, period) =
     \<lparr>bs_tenant = tenant, bs_person = p, bs_policy = policy, bs_period = period, bs_opening = 0, bs_accrued = 0,
      bs_used = 0, bs_pending = 0, bs_adjusted = 0, bs_carried = 0, bs_available = 0, bs_unit = ''DAY'',
      bs_seq = 1, bs_reason = ''INITIAL'', bs_source = None\<rparr>"

text \<open>\<open>latest\<close> (and \<open>current\<close>): a key without rows gets its initial row.\<close>

definition latest :: "bkey \<Rightarrow> balance list \<Rightarrow> balance \<times> balance list" where
  "latest k rows =
     (case latest_row k rows of Some b \<Rightarrow> (b, rows) | None \<Rightarrow> (initial_row k, rows @ [initial_row k]))"

definition next_row :: "balance \<Rightarrow> string \<Rightarrow> rat \<Rightarrow> rat \<Rightarrow> rat \<Rightarrow> string option \<Rightarrow> balance" where
  "next_row prev reason pend us adj source =
     (let pending = bs_pending prev + pend; used = bs_used prev + us; adjusted = bs_adjusted prev + adj
      in prev\<lparr>bs_used := used, bs_pending := pending, bs_adjusted := adjusted,
              bs_available := bs_opening prev + bs_accrued prev + bs_carried prev - used - pending + adjusted,
              bs_seq := bs_seq prev + 1, bs_reason := reason, bs_source := source\<rparr>)"

definition append_row ::
  "bkey \<Rightarrow> string \<Rightarrow> rat \<Rightarrow> rat \<Rightarrow> rat \<Rightarrow> string option \<Rightarrow> balance list \<Rightarrow> balance \<times> balance list" where
  "append_row k reason pend us adj source rows =
     (let (prev, rows1) = latest k rows; b = next_row prev reason pend us adj source in (b, rows1 @ [b]))"

definition meBalances :: "string \<Rightarrow> string \<Rightarrow> string \<Rightarrow> hdb \<Rightarrow> (leave_policy \<times> balance) list \<times> hdb" where
  "meBalances tenant p period s =
     (let ps = filter (\<lambda>q. lp_tenant q = tenant \<and> lp_status q = ''ACTIVE'') (hr_policies s);
          (out, rows) = fold (\<lambda>q (out, rows). let (b, rows1) = latest (tenant, p, lp_id q, period) rows
                                in (out @ [(q, b)], rows1)) ps ([], hr_balances s)
      in (out, s\<lparr>hr_balances := rows\<rparr>))"

subsection \<open>The impact of an absence\<close>

definition impact_items :: "hdb \<Rightarrow> string \<Rightarrow> string \<Rightarrow> int \<Rightarrow> int \<Rightarrow> native_item list" where
  "impact_items s tenant p startAt endAt =
     filter (\<lambda>w. nw_tenant w = tenant \<and> nw_status w \<notin> {''DONE'', ''CANCELLED''} \<and>
        (case nw_due w of None \<Rightarrow> False | Some d \<Rightarrow> startAt \<le> d \<and> d \<le> endAt) \<and>
        (nw_owner w = Some p \<or> p \<in> set (nw_assignees w))) (hr_items s)"

definition computeImpact :: "hdb \<Rightarrow> string \<Rightarrow> string \<Rightarrow> int \<Rightarrow> int \<Rightarrow> impact" where
  "computeImpact s tenant p startAt endAt =
     (let user = userIdForPerson (org (hr_x s)) p;
          items = impact_items s tenant p startAt endAt;
          work = map nw_id (filter (\<lambda>w. nw_type w \<noteq> ''MILESTONE'') items);
          stones = map nw_id (filter (\<lambda>w. nw_type w = ''MILESTONE'') items);
          approvals = (if truthy_str user then listOpenApprovalTasksForAssignee tenant (the user) (hr_x s) else []);
          books = (if truthy_str user then
              map bk_id (filter (\<lambda>b. bk_tenant b = tenant \<and> Some (bk_requester b) = user \<and>
                 bk_state b \<notin> {''CANCELLED'', ''COMPLETED''} \<and> bk_start b \<le> endAt \<and> startAt \<le> bk_end b) (hr_bookings s))
            else []);
          directives = map da_directive (filter (\<lambda>d. da_tenant d = tenant \<and>
             (da_assignee d = p \<or> truthy_str user \<and> Some (da_assignee d) = user) \<and>
             da_state d \<notin> {''ACCEPTED'', ''RETURNED''} \<and>
             (case da_due d of None \<Rightarrow> False | Some t \<Rightarrow> startAt \<le> t \<and> t \<le> endAt)) (hr_directives s))
      in \<lparr>im_items = work, im_milestones = stones, im_approvals = approvals, im_bookings = books,
          im_directives = directives,
          im_projects = to_set (map the (filter truthy_str (map nw_project items))),
          im_risk = (if approvals \<noteq> [] \<or> stones \<noteq> [] then ''HIGH'' else if work \<noteq> [] then ''MEDIUM'' else ''LOW''),
          im_hours = (if work = [] then 0
                      else of_int (js_round (of_int (endAt - startAt) / 3600000 * 100)) / 100)\<rparr>)"

definition captureImpact :: "string \<Rightarrow> string \<Rightarrow> leave \<Rightarrow> hdb \<Rightarrow> hdb" where
  "captureImpact tenant phase l s =
     s\<lparr>hr_impacts := hr_impacts s @ [\<lparr>ir_tenant = tenant, ir_leave = lv_id l, ir_person = lv_person l, ir_phase = phase,
         ir_impact = computeImpact s tenant (lv_person l) (lv_start l) (lv_end l)\<rparr>]\<rparr>"

subsection \<open>What a ledger promises\<close>

text \<open>
  A ledger books two amounts on each key. Its client keeps rows that owe an amount to a key
  while they are in a pending or in a used state; if every change of a row is booked by its
  difference, the ledger and the rows stay as far apart as they were.
\<close>

definition owed :: "('r \<Rightarrow> 'k) \<Rightarrow> ('r \<Rightarrow> rat) \<Rightarrow> ('r \<Rightarrow> bool) \<Rightarrow> 'r list \<Rightarrow> 'k \<Rightarrow> rat" where
  "owed key amount held rows k = sum_list (map (\<lambda>r. if key r = k \<and> held r then amount r else 0) rows)"

definition charge :: "bool \<Rightarrow> bool \<Rightarrow> rat" where
  "charge before after = of_bool after - of_bool before"

lemma owed_simps [simp]:
  "owed key amount held [] k = 0"
  "owed key amount held (r # rows) k = (if key r = k \<and> held r then amount r else 0) + owed key amount held rows k"
  "owed key amount held (rows @ rows') k = owed key amount held rows k + owed key amount held rows' k"
  by (simp_all add: owed_def)

lemma owed_absent:
  assumes "i \<notin> ident ` set rows"
  shows "tupd (\<lambda>x. ident x = i) f rows = rows"
  using assms by (induction rows) (auto simp: table_simps)

lemma owed_update:
  assumes "distinct (map ident rows)" "r \<in> set rows" "key (f r) = key r" "amount (f r) = amount r"
  shows "owed key amount held (tupd (\<lambda>x. ident x = ident r) f rows) k =
    owed key amount held rows k + (if k = key r then amount r * charge (held r) (held (f r)) else 0)"
  using assms(1,2)
proof (induction rows)
  case (Cons x rows)
  show ?case
  proof (cases "ident x = ident r")
    case True
    with Cons.prems have "x = r" "ident r \<notin> ident ` set rows" by force+
    then show ?thesis using assms(3,4) by (auto simp: owed_absent charge_def table_simps)
  next
    case False
    with Cons show ?thesis by (auto simp: table_simps)
  qed
qed simp

locale ledger =
  fixes book :: "'k \<Rightarrow> rat \<Rightarrow> rat \<Rightarrow> 'l \<Rightarrow> 'l"
    and pend :: "'l \<Rightarrow> 'k \<Rightarrow> rat"
    and used :: "'l \<Rightarrow> 'k \<Rightarrow> rat"
  assumes pend_book: "pend (book k p u l) k' = pend l k' + (if k' = k then p else 0)"
    and used_book: "used (book k p u l) k' = used l k' + (if k' = k then u else 0)"
begin

lemma move_conserves:
  assumes "distinct (map ident rows)" "r \<in> set rows" "key (f r) = key r" "amount (f r) = amount r"
    and "l' = book (key r) (amount r * charge (p r) (p (f r))) (amount r * charge (u r) (u (f r))) l"
  shows "pend l' k - owed key amount p (tupd (\<lambda>x. ident x = ident r) f rows) k = pend l k - owed key amount p rows k"
    and "used l' k - owed key amount u (tupd (\<lambda>x. ident x = ident r) f rows) k = used l k - owed key amount u rows k"
  using assms(5) by (simp_all add: owed_update [of ident rows r key f amount, OF assms(1-4)] pend_book used_book)

lemma create_conserves:
  assumes "l' = book (key r) (amount r * charge False (p r)) (amount r * charge False (u r)) l"
  shows "pend l' k - owed key amount p (rows @ [r]) k = pend l k - owed key amount p rows k"
    and "used l' k - owed key amount u (rows @ [r]) k = used l k - owed key amount u rows k"
  using assms by (auto simp: pend_book used_book charge_def)

end

subsection \<open>The table of balances is a ledger\<close>

definition pend_of :: "balance list \<Rightarrow> bkey \<Rightarrow> rat" where
  "pend_of rows k = (case latest_row k rows of None \<Rightarrow> 0 | Some b \<Rightarrow> bs_pending b)"

definition used_of :: "balance list \<Rightarrow> bkey \<Rightarrow> rat" where
  "used_of rows k = (case latest_row k rows of None \<Rightarrow> 0 | Some b \<Rightarrow> bs_used b)"

lemma latest_row_Nil [simp]: "latest_row k [] = None"
  by (simp add: latest_row_def)

lemma latest_row_snoc [simp]: "latest_row k (rows @ [b]) = later k (latest_row k rows) b"
  by (simp add: latest_row_def)

lemma latest_rowD: "latest_row k rows = Some b \<Longrightarrow> b \<in> set rows \<and> balance_key b = k"
  by (induction rows arbitrary: b rule: rev_induct) (auto simp: later_def split: if_splits option.splits)

lemma initial_row_simps [simp]:
  "balance_key (initial_row k) = k" "bs_pending (initial_row k) = 0" "bs_used (initial_row k) = 0"
  "bs_available (initial_row k) = 0" "bs_seq (initial_row k) = 1"
  by (cases k; simp add: balance_key_def)+

lemma latest_cases:
  assumes "latest k rows = (b, rows')"
  obtains "latest_row k rows = Some b" "rows' = rows"
    | "latest_row k rows = None" "b = initial_row k" "rows' = rows @ [b]"
  using assms by (auto simp: latest_def split: option.splits)

lemma latest_facts:
  assumes "latest k rows = (b, rows')"
  shows "latest_row k rows' = Some b" "balance_key b = k" "pend_of rows' = pend_of rows" "used_of rows' = used_of rows"
  using assms
  by (cases rule: latest_cases; auto simp: latest_rowD later_def pend_of_def used_of_def fun_eq_iff split: option.splits)+

lemma next_row_simps [simp]:
  "balance_key (next_row b reason p u a src) = balance_key b"
  "bs_seq (next_row b reason p u a src) = bs_seq b + 1"
  "bs_pending (next_row b reason p u a src) = bs_pending b + p"
  "bs_used (next_row b reason p u a src) = bs_used b + u"
  by (simp_all add: next_row_def balance_key_def Let_def)

lemma append_row_facts:
  assumes "append_row k reason p u a src rows = (b, rows')"
  obtains prev rows1 where "latest k rows = (prev, rows1)" "b = next_row prev reason p u a src" "rows' = rows1 @ [b]"
  using assms by (auto simp: append_row_def Let_def split: prod.splits)

lemma append_row_pend:
  "pend_of (snd (append_row k reason p u a src rows)) k' = pend_of rows k' + (if k' = k then p else 0)"
  "used_of (snd (append_row k reason p u a src rows)) k' = used_of rows k' + (if k' = k then u else 0)"
proof -
  obtain b rows' where app: "append_row k reason p u a src rows = (b, rows')" by fastforce
  then obtain prev rows1 where l: "latest k rows = (prev, rows1)" "b = next_row prev reason p u a src" "rows' = rows1 @ [b]"
    by (rule append_row_facts)
  note L = latest_facts [OF l(1)]
  have "pend_of rows' k' = pend_of rows1 k' + (if k' = k then p else 0)"
    "used_of rows' k' = used_of rows1 k' + (if k' = k then u else 0)"
    using L(1,2) by (auto simp: l(2,3) pend_of_def used_of_def later_def)
  then show "pend_of (snd (append_row k reason p u a src rows)) k' = pend_of rows k' + (if k' = k then p else 0)"
    "used_of (snd (append_row k reason p u a src rows)) k' = used_of rows k' + (if k' = k then u else 0)"
    using L(3,4) app by simp_all
qed

interpretation balances: ledger "\<lambda>k p u rows. snd (append_row k reason p u 0 src rows)" pend_of used_of for reason src
  by unfold_locales (rule append_row_pend)+

text \<open>Rows whose denormalised \<open>available\<close> is what the source says it is.\<close>

definition available_exact :: "balance \<Rightarrow> bool" where
  "available_exact b \<longleftrightarrow> bs_available b =
     bs_opening b + bs_accrued b + bs_carried b - bs_used b - bs_pending b + bs_adjusted b"

lemma initial_row_exact: "available_exact (initial_row k)"
  by (cases k) (simp add: available_exact_def)

lemma next_row_exact: "available_exact (next_row b reason p u a src)"
  by (simp add: available_exact_def next_row_def Let_def)

lemma next_row_available:
  "available_exact b \<Longrightarrow> bs_available (next_row b reason p u a src) = bs_available b - p - u + a"
  by (simp add: available_exact_def next_row_def Let_def)

lemma latest_set:
  assumes "latest k rows = (b, rows')"
  shows "b \<in> set rows'" "set rows' \<subseteq> insert (initial_row k) (set rows)"
  using assms by (cases rule: latest_cases; auto dest: latest_rowD)+

lemma duration_nonneg:
  "computeLeaveDuration s e sp ep kind = Inr d \<Longrightarrow> 0 \<le> d \<and> s \<le> e"
  by (auto simp: computeLeaveDuration_def Let_def split: if_splits)

end
