(* ===== verification/Leave.thy ===== *)
theory Leave
  imports Leave_Ledger
begin

section \<open>Leave requests\<close>

text \<open>
  xhub-api/src/people/leave.service.ts: creation (idempotency key, overlap, balance, approval task),
  the decisions of managers within their data scope, the requester's own transitions, and the
  lists. Every write of a status goes with its booking in the ledger of \<open>Leave_Ledger\<close>; the
  properties say when the two agree and where they do not.
\<close>

subsection \<open>Rows, transitions and gates\<close>

definition load_leave :: "hdb \<Rightarrow> string \<Rightarrow> string \<Rightarrow> leave res" where
  "load_leave s tenant i =
     (case tfind (\<lambda>l. lv_id l = i \<and> lv_tenant l = tenant) (hr_leaves s) of
        None \<Rightarrow> Inl (NotFound ''leave request not found'') | Some l \<Rightarrow> Inr l)"

definition set_leave :: "string \<Rightarrow> (leave \<Rightarrow> leave) \<Rightarrow> hdb \<Rightarrow> hdb" where
  "set_leave i f s = s\<lparr>hr_leaves := tupd (\<lambda>l. lv_id l = i) f (hr_leaves s)\<rparr>"

definition assertTransition :: "string \<Rightarrow> string \<Rightarrow> unit res" where
  "assertTransition from to = ensure (to \<in> set (LEAVE_TRANSITIONS from)) (Conflict ''INVALID_TRANSITION'')"

text \<open>
  \<open>eff.scopes.flatMap(s => s?.orgUnits ?? [])\<close>; the duplicates the source removes change neither
  whether the list is empty nor what it contains.
\<close>

definition scoped_units :: "hdb \<Rightarrow> string \<Rightarrow> json list" where
  "scoped_units s user =
     concat (map (\<lambda>j. case jcoalesce (get_prop j ''orgUnits'') (JArr []) of JArr xs \<Rightarrow> xs | x \<Rightarrow> [x])
       (ef_scopes (effectivePermissions (org (hr_x s)) user)))"

definition assertApproverScope :: "hdb \<Rightarrow> string \<Rightarrow> string option \<Rightarrow> unit res" where
  "assertApproverScope s user unit =
     ensure (scoped_units s user = [] \<or> truthy_str unit \<and> JStr (the unit) \<in> set (scoped_units s user))
       (Forbidden ''OUT_OF_SCOPE'')"

definition assertOwnership :: "hdb \<Rightarrow> string \<Rightarrow> leave \<Rightarrow> unit res" where
  "assertOwnership s user l =
     rbind (resolveActingPerson s user) (\<lambda>p. ensure (lv_person l = p_id p) (NotFound ''leave request not found''))"

definition leave_key :: "host \<Rightarrow> leave \<Rightarrow> bkey" where
  "leave_key h l = (lv_tenant l, lv_person l, lv_policy l, year_of h (lv_start l))"

definition book_leave :: "host \<Rightarrow> leave \<Rightarrow> string \<Rightarrow> rat \<Rightarrow> rat \<Rightarrow> hdb \<Rightarrow> hdb" where
  "book_leave h l reason pend us s =
     s\<lparr>hr_balances := snd (append_row (leave_key h l) reason pend us 0 (Some (lv_id l)) (hr_balances s))\<rparr>"

definition closeApprovalTask :: "env \<Rightarrow> leave \<Rightarrow> act \<Rightarrow> string \<Rightarrow> hdb \<Rightarrow> hdb res" where
  "closeApprovalTask v l a user s =
     (if \<not> truthy_str (lv_task l) then Inr s
      else (case closeLightweightApprovalTask v (the (lv_task l)) a user (hr_x s) of
              Inl e \<Rightarrow> Inl e | Inr x \<Rightarrow> Inr (s\<lparr>hr_x := x\<rparr>)))"

text \<open>The outbox call throws when it is not answered.\<close>

definition enqueue :: "host \<Rightarrow> string \<Rightarrow> string \<Rightarrow> unit res" where
  "enqueue h ty i = ensure (outbox h ty i) TypeErr"

subsection \<open>Creation\<close>

record leave_in =
  li_key :: "string option"
  li_policy :: "string option"
  li_start :: date_in
  li_end :: date_in
  li_startPart :: "string option"
  li_endPart :: "string option"

definition leave_by_key :: "hdb \<Rightarrow> string \<Rightarrow> string \<Rightarrow> leave option" where
  "leave_by_key s tenant key = tfind (\<lambda>l. lv_tenant l = tenant \<and> lv_key l = key) (hr_leaves s)"

text \<open>\<open>findFirst({ tenantId, id: body?.leavePolicyId })\<close>: an undefined id is no condition.\<close>

definition policy_for :: "hdb \<Rightarrow> string \<Rightarrow> string option \<Rightarrow> leave_policy res" where
  "policy_for s tenant i =
     (case tfind (\<lambda>p. lp_tenant p = tenant \<and> (i = None \<or> Some (lp_id p) = i)) (hr_policies s) of
        None \<Rightarrow> Inl (NotFound ''leave policy not found'')
      | Some p \<Rightarrow> if lp_status p \<noteq> ''ACTIVE'' then Inl (BadRequest ''leave policy is RETIRED'') else Inr p)"

definition ended_leave :: "string list" where
  "ended_leave = [''REJECTED'', ''CANCELLED'']"

definition leave_overlap :: "hdb \<Rightarrow> string \<Rightarrow> string \<Rightarrow> int \<Rightarrow> int \<Rightarrow> leave option" where
  "leave_overlap s tenant p startAt endAt =
     tfind (\<lambda>l. lv_tenant l = tenant \<and> lv_person l = p \<and> lv_status l \<notin> set ended_leave \<and>
        lv_start l \<le> endAt \<and> startAt \<le> lv_end l) (hr_leaves s)"

definition new_leave :: "env \<Rightarrow> string \<Rightarrow> string \<Rightarrow> person \<Rightarrow> leave_policy \<Rightarrow> int \<Rightarrow> int \<Rightarrow> string \<Rightarrow> string \<Rightarrow> rat \<Rightarrow> hdb \<Rightarrow> leave" where
  "new_leave v tenant key p pol startAt endAt sp ep d s =
     (let pos = tfind (\<lambda>q. po_holder q = Some (p_id p)) (positions (org (hr_x s)))
      in \<lparr>lv_id = hr_id v s, lv_tenant = tenant, lv_person = p_id p, lv_orgUnit = map_option po_orgUnit pos,
          lv_position = map_option po_id pos, lv_type = lp_code pol, lv_policy = lp_id pol, lv_start = startAt,
          lv_end = endAt, lv_startPart = sp, lv_endPart = ep, lv_duration = d, lv_unit = lp_unit pol,
          lv_status = ''SUBMITTED'', lv_decidedBy = None, lv_inst = None, lv_task = None, lv_key = key,
          lv_created = now v\<rparr>)"

text \<open>\<open>balances.current\<close> and the check of what is available; the read may write the initial row.\<close>

definition check_balance :: "bkey \<Rightarrow> leave_policy \<Rightarrow> rat \<Rightarrow> hdb \<Rightarrow> hdb res" where
  "check_balance k pol d s =
     (if lp_code pol = ''UNPAID'' then Inr s
      else (let (b, rows) = latest k (hr_balances s)
            in if \<not> lp_allowNegative pol \<and> bs_available b < d then Inl (Conflict ''INSUFFICIENT_BALANCE'')
               else Inr (s\<lparr>hr_balances := rows\<rparr>)))"

text \<open>What follows the insert: approval task, its ids on the row, booking, impact, outbox, audit.\<close>

definition submit_leave :: "env \<Rightarrow> host \<Rightarrow> string \<Rightarrow> string \<Rightarrow> person \<Rightarrow> leave \<Rightarrow> hdb \<Rightarrow> (leave \<times> hdb) res" where
  "submit_leave v h tenant user p l s =
     (let (role, who) = resolveApprovalAssignee s (p_id p)
      in rbind (spawnLightweightApprovalTask v tenant ''PEOPLE_LEAVE_APPROVAL'' (coalesce (p_email p) (user @ ''@local'')) role who (hr_x s))
           (\<lambda>(inst, task, x).
             let f = (\<lambda>r. r\<lparr>lv_inst := Some inst, lv_task := Some task\<rparr>);
                 s1 = captureImpact tenant ''ON_SUBMIT'' l
                        (book_leave h l ''LEAVE_SUBMITTED'' (lv_duration l) 0 (set_leave (lv_id l) f (s\<lparr>hr_x := x\<rparr>)))
             in rbind (enqueue h ''xoffice.people.leave.request.submitted'' (lv_id l)) (\<lambda>_.
                  Inr (f l, hr_audit tenant user ''submit'' (lv_id l) s1))))"

definition createLeave :: "env \<Rightarrow> host \<Rightarrow> string \<Rightarrow> string \<Rightarrow> leave_in \<Rightarrow> hdb \<Rightarrow> ((leave \<times> bool) \<times> hdb) res" where
  "createLeave v h tenant user b s =
     (let key = coalesce (li_key b) '''' in
      rbind (ensure (8 \<le> length key) (BadRequest ''MISSING_IDEMPOTENCY_KEY'')) (\<lambda>_.
      case leave_by_key s tenant key of
        Some l \<Rightarrow> Inr ((l, True), s)
      | None \<Rightarrow>
         (let (cfg, s0) = getConfig tenant s in
          rbind (ensure (pc_leave cfg = ''XOFFICE'') (Conflict ''SOR_NOT_XOFFICE'')) (\<lambda>_.
          rbind (resolveActingPerson s0 user) (\<lambda>p.
          rbind (policy_for s0 tenant (li_policy b)) (\<lambda>pol.
          case (li_start b, li_end b) of
            (At startAt, At endAt) \<Rightarrow>
              (let sp = coalesce (li_startPart b) ''FULL''; ep = coalesce (li_endPart b) ''FULL'' in
               rbind (ensure (leave_overlap s0 tenant (p_id p) startAt endAt = None) (Conflict ''LEAVE_OVERLAP'')) (\<lambda>_.
               rbind (computeLeaveDuration startAt endAt sp ep (lp_unit pol)) (\<lambda>d.
               rbind (check_balance (tenant, p_id p, lp_id pol, year_of h startAt) pol d s0) (\<lambda>s1.
                 let l = new_leave v tenant key p pol startAt endAt sp ep d s1
                 in rbind (submit_leave v h tenant user p l (hr_tick (s1\<lparr>hr_leaves := hr_leaves s1 @ [l]\<rparr>)))
                      (\<lambda>(r, s2). Inr ((r, False), s2))))))
          | _ \<Rightarrow> Inl (BadRequest ''startAt/endAt required (ISO date)'')))))))"

subsection \<open>Decisions of managers\<close>

definition approveLeave :: "env \<Rightarrow> host \<Rightarrow> string \<Rightarrow> string \<Rightarrow> string \<Rightarrow> hdb \<Rightarrow> (leave \<times> hdb) res" where
  "approveLeave v h tenant user i s =
     rbind (load_leave s tenant i) (\<lambda>l.
     rbind (assertApproverScope s user (lv_orgUnit l)) (\<lambda>_.
     rbind (assertTransition (lv_status l) ''APPROVED'') (\<lambda>_.
       let f = (\<lambda>r. r\<lparr>lv_status := ''APPROVED'', lv_decidedBy := Some user\<rparr>);
           s1 = captureImpact tenant ''ON_APPROVE'' l
                  (book_leave h l ''LEAVE_APPROVED'' (- lv_duration l) (lv_duration l) (set_leave i f s))
       in rbind (closeApprovalTask v l Approve user s1) (\<lambda>s2.
          rbind (enqueue h ''xoffice.people.availability.changed'' i) (\<lambda>_.
            Inr (f l, hr_audit tenant user ''approve'' i s2))))))"

definition rejectLeave :: "env \<Rightarrow> host \<Rightarrow> string \<Rightarrow> string \<Rightarrow> string \<Rightarrow> hdb \<Rightarrow> (leave \<times> hdb) res" where
  "rejectLeave v h tenant user i s =
     rbind (load_leave s tenant i) (\<lambda>l.
     rbind (assertApproverScope s user (lv_orgUnit l)) (\<lambda>_.
     rbind (assertTransition (lv_status l) ''REJECTED'') (\<lambda>_.
       let f = (\<lambda>r. r\<lparr>lv_status := ''REJECTED'', lv_decidedBy := Some user\<rparr>);
           s1 = book_leave h l ''LEAVE_REJECTED'' (- lv_duration l) 0 (set_leave i f s)
       in rbind (closeApprovalTask v l Reject user s1) (\<lambda>s2. Inr (f l, hr_audit tenant user ''reject'' i s2)))))"

definition requestChanges :: "string \<Rightarrow> string \<Rightarrow> string \<Rightarrow> hdb \<Rightarrow> (leave \<times> hdb) res" where
  "requestChanges tenant user i s =
     rbind (load_leave s tenant i) (\<lambda>l.
     rbind (assertApproverScope s user (lv_orgUnit l)) (\<lambda>_.
     rbind (assertTransition (lv_status l) ''CHANGES_REQUESTED'') (\<lambda>_.
       let f = (\<lambda>r. r\<lparr>lv_status := ''CHANGES_REQUESTED''\<rparr>)
       in Inr (f l, hr_audit tenant user ''request-changes'' i (set_leave i f s)))))"

definition cancelApprove :: "host \<Rightarrow> string \<Rightarrow> string \<Rightarrow> string \<Rightarrow> hdb \<Rightarrow> (leave \<times> hdb) res" where
  "cancelApprove h tenant user i s =
     rbind (load_leave s tenant i) (\<lambda>l.
     rbind (assertApproverScope s user (lv_orgUnit l)) (\<lambda>_.
     rbind (assertTransition (lv_status l) ''CANCELLED'') (\<lambda>_.
       let f = (\<lambda>r. r\<lparr>lv_status := ''CANCELLED''\<rparr>)
       in Inr (f l, hr_audit tenant user ''cancel-approve'' i (captureImpact tenant ''ON_CANCEL'' l
            (book_leave h l ''LEAVE_CANCELLED'' 0 (- lv_duration l) (set_leave i f s)))))))"

subsection \<open>The requester's own transitions\<close>

definition resubmitLeave :: "string \<Rightarrow> string \<Rightarrow> string \<Rightarrow> hdb \<Rightarrow> (leave \<times> hdb) res" where
  "resubmitLeave tenant user i s =
     rbind (load_leave s tenant i) (\<lambda>l.
     rbind (assertOwnership s user l) (\<lambda>_.
     rbind (assertTransition (lv_status l) ''SUBMITTED'') (\<lambda>_.
       let f = (\<lambda>r. r\<lparr>lv_status := ''SUBMITTED''\<rparr>)
       in Inr (f l, hr_audit tenant user ''resubmit'' i (set_leave i f s)))))"

definition cancelLeave :: "host \<Rightarrow> string \<Rightarrow> string \<Rightarrow> string \<Rightarrow> hdb \<Rightarrow> (leave \<times> hdb) res" where
  "cancelLeave h tenant user i s =
     rbind (load_leave s tenant i) (\<lambda>l.
     rbind (assertOwnership s user l) (\<lambda>_.
     rbind (ensure (lv_status l \<in> {''DRAFT'', ''SUBMITTED'', ''IN_REVIEW'', ''CHANGES_REQUESTED'', ''APPROVED''})
              (Conflict ''INVALID_TRANSITION'')) (\<lambda>_.
       let to = (if lv_status l = ''APPROVED'' then ''CANCEL_REQUESTED'' else ''CANCELLED'');
           f = (\<lambda>r. r\<lparr>lv_status := to\<rparr>);
           s1 = set_leave i f s;
           s2 = (if to = ''CANCELLED''
                 then captureImpact tenant ''ON_CANCEL'' l (book_leave h l ''LEAVE_CANCELLED'' (- lv_duration l) 0 s1)
                 else s1)
       in rbind (assertTransition (lv_status l) to) (\<lambda>_. Inr (f l, hr_audit tenant user ''cancel'' i s2)))))"

subsection \<open>Reads\<close>

definition listMine :: "string \<Rightarrow> string \<Rightarrow> string option \<Rightarrow> hdb \<Rightarrow> leave list res" where
  "listMine tenant user status s =
     rbind (resolveActingPerson s user) (\<lambda>p.
       Inr (sort_key (\<lambda>l. - lv_created l) (filter (\<lambda>l. lv_tenant l = tenant \<and> lv_person l = p_id p \<and>
              (truthy_str status \<longrightarrow> Some (lv_status l) = status)) (hr_leaves s))))"

definition getLeave :: "string \<Rightarrow> string \<Rightarrow> string \<Rightarrow> hdb \<Rightarrow> leave res" where
  "getLeave tenant user i s =
     rbind (load_leave s tenant i) (\<lambda>l. rbind (assertOwnership s user l) (\<lambda>_. Inr l))"

record team_filter =
  tf_orgUnit :: "string option"
  tf_from :: date_in
  tf_to :: date_in
  tf_status :: "string option"

definition listTeam :: "string \<Rightarrow> string \<Rightarrow> team_filter \<Rightarrow> hdb \<Rightarrow> leave list res" where
  "listTeam tenant user f s =
     (let scoped = scoped_units s user;
          units = (if truthy_str (tf_orgUnit f) then [JStr (the (tf_orgUnit f))] else scoped);
          held = map the (filter truthy_str (map po_holder
                   (filter (\<lambda>p. JStr (po_orgUnit p) \<in> set units) (positions (org (hr_x s))))))
      in rbind (ensure (truthy_str (tf_orgUnit f) \<and> scoped \<noteq> [] \<longrightarrow> JStr (the (tf_orgUnit f)) \<in> set scoped)
                  (Forbidden ''OUT_OF_SCOPE'')) (\<lambda>_.
         rbind (ensure (tf_from f \<noteq> Invalid \<and> tf_to f \<noteq> Invalid) TypeErr) (\<lambda>_.
         Inr (sort_key lv_start (filter (\<lambda>l. lv_tenant l = tenant \<and>
              (units \<noteq> [] \<longrightarrow> lv_person l \<in> set (if held = [] then [''__none__''] else held)) \<and>
              (truthy_str (tf_status f) \<longrightarrow> Some (lv_status l) = tf_status f) \<and>
              (case tf_from f of At t \<Rightarrow> t \<le> lv_end l | _ \<Rightarrow> True) \<and>
              (case tf_to f of At t \<Rightarrow> lv_start l \<le> t | _ \<Rightarrow> True)) (hr_leaves s))))))"

definition impactPreview :: "string \<Rightarrow> string \<Rightarrow> date_in \<Rightarrow> date_in \<Rightarrow> hdb \<Rightarrow> impact res" where
  "impactPreview tenant user a b s =
     rbind (resolveActingPerson s user) (\<lambda>p.
       case (a, b) of (At startAt, At endAt) \<Rightarrow> Inr (computeImpact s tenant (p_id p) startAt endAt)
       | _ \<Rightarrow> Inl (BadRequest ''startAt/endAt required (ISO date)''))"

subsection \<open>What the handlers do to requests and ledger\<close>

text \<open>A request is charged as pending until it is decided, as used once it is approved.\<close>

definition awaiting :: "leave \<Rightarrow> bool" where
  "awaiting l \<longleftrightarrow> lv_status l \<in> {''DRAFT'', ''SUBMITTED'', ''IN_REVIEW'', ''CHANGES_REQUESTED''}"

definition taken :: "leave \<Rightarrow> bool" where
  "taken l \<longleftrightarrow> lv_status l \<in> {''APPROVED'', ''CANCEL_REQUESTED''}"

definition active_leave :: "leave \<Rightarrow> bool" where
  "active_leave l \<longleftrightarrow> lv_status l \<notin> set ended_leave"

definition leave_core :: "leave \<Rightarrow> string \<times> string \<times> string \<times> string \<times> int \<times> int \<times> rat" where
  "leave_core l = (lv_id l, lv_tenant l, lv_person l, lv_policy l, lv_start l, lv_end l, lv_duration l)"

lemma leave_core_eq:
  "leave_core a = leave_core b \<longleftrightarrow> lv_id a = lv_id b \<and> lv_tenant a = lv_tenant b \<and> lv_person a = lv_person b \<and>
     lv_policy a = lv_policy b \<and> lv_start a = lv_start b \<and> lv_end a = lv_end b \<and> lv_duration a = lv_duration b"
  by (simp add: leave_core_def)

text \<open>Reads of the ledger add at most initial rows.\<close>

definition quiet :: "balance list \<Rightarrow> balance list \<Rightarrow> bool" where
  "quiet rows rows' \<longleftrightarrow> pend_of rows' = pend_of rows \<and> used_of rows' = used_of rows \<and>
     set rows \<subseteq> set rows' \<and> set rows' \<subseteq> set rows \<union> range initial_row"

lemma quiet_refl [simp]: "quiet rows rows"
  by (simp add: quiet_def)

lemma quiet_trans: "quiet a b \<Longrightarrow> quiet b c \<Longrightarrow> quiet a c"
  unfolding quiet_def by auto

lemma latest_quiet:
  assumes "latest k rows = (b, rows')"
  shows "quiet rows rows'"
proof -
  have "set rows \<subseteq> set rows'" using assms by (cases rule: latest_cases) auto
  moreover from latest_set(2) [OF assms] have "set rows' \<subseteq> set rows \<union> range initial_row" by auto
  ultimately show ?thesis using latest_facts(3,4) [OF assms] by (simp add: quiet_def)
qed

lemma meBalances_quiet:
  assumes "meBalances tenant p period s = (out, s')"
  shows "quiet (hr_balances s) (hr_balances s') \<and> hr_leaves s' = hr_leaves s \<and> hr_policies s' = hr_policies s"
proof -
  let ?step = "\<lambda>q (out, rows). let (b, rows1) = latest (tenant, p, lp_id q, period) rows in (out @ [(q, b)], rows1)"
  have steps: "quiet rows (snd (fold ?step ps (out0, rows)))" for ps out0 rows
  proof (induction ps arbitrary: out0 rows)
    case (Cons q ps)
    obtain b rows1 where l: "latest (tenant, p, lp_id q, period) rows = (b, rows1)" by fastforce
    from quiet_trans [OF latest_quiet [OF l] Cons.IH] l show ?case by simp
  qed simp
  show ?thesis
    using assms steps [of "hr_balances s" "filter (\<lambda>q. lp_tenant q = tenant \<and> lp_status q = ''ACTIVE'') (hr_policies s)" "[]"]
    by (auto simp: meBalances_def Let_def split: prod.splits)
qed

text \<open>A booking, or none at all.\<close>

definition booked :: "host \<Rightarrow> leave \<Rightarrow> rat \<Rightarrow> rat \<Rightarrow> balance list \<Rightarrow> balance list \<Rightarrow> bool" where
  "booked h l dp du rows rows' \<longleftrightarrow> (rows' = rows \<and> dp = 0 \<and> du = 0) \<or>
     (\<exists>reason src. rows' = snd (append_row (leave_key h l) reason dp du 0 src rows))"

lemma booked_totals:
  assumes "booked h l dp du rows rows'"
  shows "pend_of rows' k = pend_of rows k + (if k = leave_key h l then dp else 0)"
    "used_of rows' k = used_of rows k + (if k = leave_key h l then du else 0)"
  using assms by (auto simp: booked_def append_row_pend)

definition decided_as :: "bool \<Rightarrow> leave \<Rightarrow> leave \<Rightarrow> rat \<Rightarrow> rat \<Rightarrow> bool" where
  "decided_as strict l l' dp du \<longleftrightarrow> (0 \<le> lv_duration l \<longrightarrow> dp + du \<le> 0) \<and>
     (strict \<longrightarrow> dp = lv_duration l * charge (awaiting l) (awaiting l') \<and> du = lv_duration l * charge (taken l) (taken l'))"

inductive leave_effect :: "bool \<Rightarrow> host \<Rightarrow> hdb \<Rightarrow> hdb \<Rightarrow> bool" for strict h s s' where
  le_idle: "hr_leaves s' = hr_leaves s \<Longrightarrow> quiet (hr_balances s) (hr_balances s') \<Longrightarrow>
     hr_policies s' = hr_policies s \<Longrightarrow> leave_effect strict h s s'"
| le_policy: "hr_leaves s' = hr_leaves s \<Longrightarrow> hr_balances s' = hr_balances s \<Longrightarrow> hr_policies s' = hr_policies s @ [p] \<Longrightarrow>
     lp_id p \<notin> lp_id ` set (hr_policies s) \<Longrightarrow> lp_id p \<notin> bs_policy ` set (hr_balances s) \<Longrightarrow> leave_effect strict h s s'"
| le_new: "hr_leaves s' = hr_leaves s @ [l] \<Longrightarrow> lv_id l \<notin> lv_id ` set (hr_leaves s) \<Longrightarrow> lv_status l = ''SUBMITTED'' \<Longrightarrow>
     0 \<le> lv_duration l \<Longrightarrow> lv_start l \<le> lv_end l \<Longrightarrow> leave_overlap s (lv_tenant l) (lv_person l) (lv_start l) (lv_end l) = None \<Longrightarrow>
     pol \<in> set (hr_policies s) \<Longrightarrow> lp_id pol = lv_policy l \<Longrightarrow> lp_tenant pol = lv_tenant l \<Longrightarrow> quiet (hr_balances s) rows \<Longrightarrow>
     (lp_code pol \<noteq> ''UNPAID'' \<Longrightarrow> \<not> lp_allowNegative pol \<Longrightarrow> lv_duration l \<le> bs_available (fst (latest (leave_key h l) rows))) \<Longrightarrow>
     booked h l (lv_duration l) 0 rows (hr_balances s') \<Longrightarrow> hr_policies s' = hr_policies s \<Longrightarrow> leave_effect strict h s s'"
| le_move: "l \<in> set (hr_leaves s) \<Longrightarrow> hr_leaves s' = tupd (\<lambda>x. lv_id x = lv_id l) f (hr_leaves s) \<Longrightarrow>
     (\<And>x. leave_core (f x) = leave_core x \<and> lv_status (f x) = lv_status (f l)) \<Longrightarrow>
     lv_status (f l) \<in> set (LEAVE_TRANSITIONS (lv_status l)) \<Longrightarrow> decided_as strict l (f l) dp du \<Longrightarrow>
     booked h l dp du (hr_balances s) (hr_balances s') \<Longrightarrow> hr_policies s' = hr_policies s \<Longrightarrow> leave_effect strict h s s'"

inductive leave_step :: "bool \<Rightarrow> host \<Rightarrow> hdb \<Rightarrow> hdb \<Rightarrow> bool" for strict h where
  ls_config: "updateConfig tenant a b c s = Inr (cfg, s') \<Longrightarrow> leave_step strict h s s'"
| ls_policy: "createPolicy v tenant b s = Inr (p, s') \<Longrightarrow> hr_id v s \<notin> lp_id ` set (hr_policies s) \<Longrightarrow>
     hr_id v s \<notin> bs_policy ` set (hr_balances s) \<Longrightarrow> leave_step strict h s s'"
| ls_balances: "meBalances tenant p period s = (out, s') \<Longrightarrow> leave_step strict h s s'"
| ls_create: "createLeave v h tenant user b s = Inr (w, s') \<Longrightarrow> hr_id v s \<notin> lv_id ` set (hr_leaves s) \<Longrightarrow> leave_step strict h s s'"
| ls_approve: "approveLeave v h tenant user i s = Inr (l, s') \<Longrightarrow>
     (strict \<Longrightarrow> \<forall>r \<in> set (hr_leaves s). lv_id r = i \<longrightarrow> lv_status r \<noteq> ''CANCEL_REQUESTED'') \<Longrightarrow> leave_step strict h s s'"
| ls_reject: "rejectLeave v h tenant user i s = Inr (l, s') \<Longrightarrow> leave_step strict h s s'"
| ls_changes: "requestChanges tenant user i s = Inr (l, s') \<Longrightarrow> leave_step strict h s s'"
| ls_resubmit: "resubmitLeave tenant user i s = Inr (l, s') \<Longrightarrow> leave_step strict h s s'"
| ls_cancel: "cancelLeave h tenant user i s = Inr (l, s') \<Longrightarrow> leave_step strict h s s'"
| ls_cancel_approve: "cancelApprove h tenant user i s = Inr (l, s') \<Longrightarrow>
     (strict \<Longrightarrow> \<forall>r \<in> set (hr_leaves s). lv_id r = i \<longrightarrow> lv_status r = ''CANCEL_REQUESTED'') \<Longrightarrow> leave_step strict h s s'"

lemma load_leave_InrD: "load_leave s tenant i = Inr l \<Longrightarrow> l \<in> set (hr_leaves s) \<and> lv_id l = i \<and> lv_tenant l = tenant"
  by (auto simp: load_leave_def split: option.splits dest: tfind_SomeD)

lemma hr_frames [simp]:
  "hr_leaves (hr_audit t a c i s) = hr_leaves s" "hr_balances (hr_audit t a c i s) = hr_balances s"
  "hr_policies (hr_audit t a c i s) = hr_policies s"
  "hr_leaves (hr_tick s) = hr_leaves s" "hr_balances (hr_tick s) = hr_balances s" "hr_policies (hr_tick s) = hr_policies s"
  "hr_leaves (captureImpact t ph l s) = hr_leaves s" "hr_balances (captureImpact t ph l s) = hr_balances s"
  "hr_policies (captureImpact t ph l s) = hr_policies s"
  "hr_leaves (book_leave h l r p u s) = hr_leaves s" "hr_policies (book_leave h l r p u s) = hr_policies s"
  "hr_leaves (set_leave i f s) = tupd (\<lambda>l. lv_id l = i) f (hr_leaves s)" "hr_balances (set_leave i f s) = hr_balances s"
  "hr_policies (set_leave i f s) = hr_policies s"
  by (simp_all add: hr_audit_def hr_tick_def captureImpact_def book_leave_def set_leave_def)

lemma book_leave_booked: "booked h l p u (hr_balances s) (hr_balances (book_leave h l r p u s))"
  by (auto simp: booked_def book_leave_def)

lemma closeApprovalTask_frames:
  "closeApprovalTask v l a user s = Inr s' \<Longrightarrow>
     hr_leaves s' = hr_leaves s \<and> hr_balances s' = hr_balances s \<and> hr_policies s' = hr_policies s"
  by (auto simp: closeApprovalTask_def split: if_splits sum.splits)

lemma assertTransition_Inr: "assertTransition a b = Inr u \<longleftrightarrow> b \<in> set (LEAVE_TRANSITIONS a)"
  by (simp add: assertTransition_def ensure_Inr_iff)

text \<open>One lemma for all the moves of a request.\<close>

lemma move_effect:
  assumes "load_leave s tenant i = Inr l" "st \<in> set (LEAVE_TRANSITIONS (lv_status l))"
    and "hr_leaves s' = tupd (\<lambda>x. lv_id x = i) f (hr_leaves s)" "hr_policies s' = hr_policies s"
    and "\<And>x. leave_core (f x) = leave_core x \<and> lv_status (f x) = st"
    and "decided_as strict l (f l) dp du" "booked h l dp du (hr_balances s) (hr_balances s')"
  shows "leave_effect strict h s s'"
  using assms(2-7) load_leave_InrD [OF assms(1)] by (intro le_move [of l s s' f strict dp du]) simp_all

lemmas charge_simps = decided_as_def charge_def awaiting_def taken_def LEAVE_TRANSITIONS_def

lemma approve_effect:
  assumes "approveLeave v h tenant user i s = Inr (l, s')"
    and "strict \<Longrightarrow> \<forall>r \<in> set (hr_leaves s). lv_id r = i \<longrightarrow> lv_status r \<noteq> ''CANCEL_REQUESTED''"
  shows "leave_effect strict h s s'"
proof -
  let ?f = "\<lambda>r. r\<lparr>lv_status := ''APPROVED'', lv_decidedBy := Some user\<rparr>"
  let ?book = "\<lambda>l. book_leave h l ''LEAVE_APPROVED'' (- lv_duration l) (lv_duration l) (set_leave i ?f s)"
  from assms(1) obtain r s2 where r: "load_leave s tenant i = Inr r" "''APPROVED'' \<in> set (LEAVE_TRANSITIONS (lv_status r))"
    and c: "closeApprovalTask v r Approve user (captureImpact tenant ''ON_APPROVE'' r (?book r)) = Inr s2"
    and s': "s' = hr_audit tenant user ''approve'' i s2"
    by (auto simp: approveLeave_def rbind_Inr_iff assertTransition_Inr Let_def)
  from load_leave_InrD [OF r(1)] assms(2) have "strict \<Longrightarrow> lv_status r \<noteq> ''CANCEL_REQUESTED''" by simp
  with r(2) have "decided_as strict r (?f r) (- lv_duration r) (lv_duration r)"
    by (auto simp: charge_simps split: if_splits)
  with closeApprovalTask_frames [OF c] show ?thesis
    using book_leave_booked [of h r _ _ "set_leave i ?f s"]
    by (intro move_effect [OF r]) (simp_all add: s' leave_core_def)
qed

lemma reject_effect:
  assumes "rejectLeave v h tenant user i s = Inr (l, s')"
  shows "leave_effect strict h s s'"
proof -
  let ?f = "\<lambda>r. r\<lparr>lv_status := ''REJECTED'', lv_decidedBy := Some user\<rparr>"
  let ?book = "\<lambda>l. book_leave h l ''LEAVE_REJECTED'' (- lv_duration l) 0 (set_leave i ?f s)"
  from assms(1) obtain r s2 where r: "load_leave s tenant i = Inr r" "''REJECTED'' \<in> set (LEAVE_TRANSITIONS (lv_status r))"
    and c: "closeApprovalTask v r Reject user (?book r) = Inr s2" and s': "s' = hr_audit tenant user ''reject'' i s2"
    by (auto simp: rejectLeave_def rbind_Inr_iff assertTransition_Inr Let_def)
  from r(2) have "decided_as strict r (?f r) (- lv_duration r) 0"
    by (auto simp: charge_simps split: if_splits)
  with closeApprovalTask_frames [OF c] show ?thesis
    using book_leave_booked [of h r _ _ "set_leave i ?f s"]
    by (intro move_effect [OF r]) (simp_all add: s' leave_core_def)
qed

lemma changes_effect:
  assumes "requestChanges tenant user i s = Inr (l, s')"
  shows "leave_effect strict h s s'"
proof -
  let ?f = "\<lambda>r. r\<lparr>lv_status := ''CHANGES_REQUESTED''\<rparr>"
  from assms obtain r where r: "load_leave s tenant i = Inr r" "''CHANGES_REQUESTED'' \<in> set (LEAVE_TRANSITIONS (lv_status r))"
    and s': "s' = hr_audit tenant user ''request-changes'' i (set_leave i ?f s)"
    by (auto simp: requestChanges_def rbind_Inr_iff assertTransition_Inr Let_def)
  from r(2) have "decided_as strict r (?f r) 0 0" by (auto simp: charge_simps split: if_splits)
  then show ?thesis by (intro move_effect [OF r, where dp = 0 and du = 0]) (simp_all add: s' leave_core_def booked_def)
qed

lemma resubmit_effect:
  assumes "resubmitLeave tenant user i s = Inr (l, s')"
  shows "leave_effect strict h s s'"
proof -
  let ?f = "\<lambda>r. r\<lparr>lv_status := ''SUBMITTED''\<rparr>"
  from assms obtain r where r: "load_leave s tenant i = Inr r" "''SUBMITTED'' \<in> set (LEAVE_TRANSITIONS (lv_status r))"
    and s': "s' = hr_audit tenant user ''resubmit'' i (set_leave i ?f s)"
    by (auto simp: resubmitLeave_def rbind_Inr_iff assertTransition_Inr Let_def)
  from r(2) have "decided_as strict r (?f r) 0 0" by (auto simp: charge_simps split: if_splits)
  then show ?thesis by (intro move_effect [OF r, where dp = 0 and du = 0]) (simp_all add: s' leave_core_def booked_def)
qed

lemma cancel_approve_effect:
  assumes "cancelApprove h tenant user i s = Inr (l, s')"
    and "strict \<Longrightarrow> \<forall>r \<in> set (hr_leaves s). lv_id r = i \<longrightarrow> lv_status r = ''CANCEL_REQUESTED''"
  shows "leave_effect strict h s s'"
proof -
  let ?f = "\<lambda>r. r\<lparr>lv_status := ''CANCELLED''\<rparr>"
  let ?book = "\<lambda>l. book_leave h l ''LEAVE_CANCELLED'' 0 (- lv_duration l) (set_leave i ?f s)"
  from assms(1) obtain r where r: "load_leave s tenant i = Inr r" "''CANCELLED'' \<in> set (LEAVE_TRANSITIONS (lv_status r))"
    and s': "s' = hr_audit tenant user ''cancel-approve'' i (captureImpact tenant ''ON_CANCEL'' r (?book r))"
    by (auto simp: cancelApprove_def rbind_Inr_iff assertTransition_Inr Let_def)
  from load_leave_InrD [OF r(1)] assms(2) have "strict \<Longrightarrow> lv_status r = ''CANCEL_REQUESTED''" by simp
  with r(2) have "decided_as strict r (?f r) 0 (- lv_duration r)" by (auto simp: charge_simps split: if_splits)
  then show ?thesis
    using book_leave_booked [of h r 0 "- lv_duration r" "set_leave i ?f s"]
    by (intro move_effect [OF r]) (simp_all add: s' leave_core_def)
qed

lemma cancel_effect:
  assumes "cancelLeave h tenant user i s = Inr (l, s')"
  shows "leave_effect strict h s s'"
proof -
  let ?f = "\<lambda>to r. r\<lparr>lv_status := to\<rparr>"
  from assms obtain r u where r: "load_leave s tenant i = Inr r"
    and st: "ensure (lv_status r \<in> {''DRAFT'', ''SUBMITTED'', ''IN_REVIEW'', ''CHANGES_REQUESTED'', ''APPROVED''})
              (Conflict ''INVALID_TRANSITION'') = Inr u"
    and t: "(let to = (if lv_status r = ''APPROVED'' then ''CANCEL_REQUESTED'' else ''CANCELLED'');
           f = ?f to; s1 = set_leave i f s;
           s2 = (if to = ''CANCELLED''
                 then captureImpact tenant ''ON_CANCEL'' r (book_leave h r ''LEAVE_CANCELLED'' (- lv_duration r) 0 s1)
                 else s1)
       in rbind (assertTransition (lv_status r) to) (\<lambda>_. Inr (f r, hr_audit tenant user ''cancel'' i s2))) = Inr (l, s')"
    unfolding cancelLeave_def rbind_Inr_iff by blast
  show ?thesis
  proof (cases "lv_status r = ''APPROVED''")
    case True
    then have "decided_as strict r (?f ''CANCEL_REQUESTED'' r) 0 0" by (simp add: charge_simps)
    moreover from t True have "''CANCEL_REQUESTED'' \<in> set (LEAVE_TRANSITIONS (lv_status r))"
      "s' = hr_audit tenant user ''cancel'' i (set_leave i (?f ''CANCEL_REQUESTED'') s)"
      by (simp_all add: Let_def rbind_Inr_iff assertTransition_Inr)
    ultimately show ?thesis
      by (intro move_effect [OF r, where dp = 0 and du = 0]) (simp_all add: leave_core_def booked_def)
  next
    case False
    with st have "decided_as strict r (?f ''CANCELLED'' r) (- lv_duration r) 0"
      by (auto simp: charge_simps ensure_Inr_iff)
    moreover from t False have "''CANCELLED'' \<in> set (LEAVE_TRANSITIONS (lv_status r))"
      "s' = hr_audit tenant user ''cancel'' i (captureImpact tenant ''ON_CANCEL'' r
         (book_leave h r ''LEAVE_CANCELLED'' (- lv_duration r) 0 (set_leave i (?f ''CANCELLED'') s)))"
      by (simp_all add: Let_def rbind_Inr_iff assertTransition_Inr)
    ultimately show ?thesis
      using book_leave_booked [of h r "- lv_duration r" 0 "set_leave i (?f ''CANCELLED'') s"]
      by (intro move_effect [OF r]) (simp_all add: leave_core_def)
  qed
qed

lemma spawn_frames: "hr_leaves (s\<lparr>hr_x := x\<rparr>) = hr_leaves s" "hr_balances (s\<lparr>hr_x := x\<rparr>) = hr_balances s"
  "hr_policies (s\<lparr>hr_x := x\<rparr>) = hr_policies s"
  by simp_all

lemma submit_leaveE:
  assumes "submit_leave v h tenant user p l s = Inr (w, s')"
  obtains f s1 where "w = f l" "\<And>r. leave_core (f r) = leave_core r \<and> lv_status (f r) = lv_status r"
    "hr_leaves s' = tupd (\<lambda>x. lv_id x = lv_id l) f (hr_leaves s)" "hr_policies s' = hr_policies s"
    "hr_balances s1 = hr_balances s" "hr_balances s' = hr_balances (book_leave h l ''LEAVE_SUBMITTED'' (lv_duration l) 0 s1)"
proof -
  obtain role who where a: "resolveApprovalAssignee s (p_id p) = (role, who)" by fastforce
  from assms a obtain inst task x where
    "w = l\<lparr>lv_inst := Some inst, lv_task := Some task\<rparr>"
    "s' = hr_audit tenant user ''submit'' (lv_id l) (captureImpact tenant ''ON_SUBMIT'' l
        (book_leave h l ''LEAVE_SUBMITTED'' (lv_duration l) 0
          (set_leave (lv_id l) (\<lambda>r. r\<lparr>lv_inst := Some inst, lv_task := Some task\<rparr>) (s\<lparr>hr_x := x\<rparr>))))"
    by (auto simp: submit_leave_def rbind_Inr_iff Let_def)
  then show ?thesis by (intro that) (simp_all add: leave_core_def)
qed

lemma getConfig_frames:
  assumes "getConfig tenant s = (c, s0)"
  shows "hr_x s0 = hr_x s" "hr_leaves s0 = hr_leaves s" "hr_balances s0 = hr_balances s" "hr_policies s0 = hr_policies s"
  using assms by (auto simp: getConfig_def Let_def split: option.splits)

lemma check_balance_Inr:
  assumes "check_balance k pol d s = Inr s1"
  shows "hr_x s1 = hr_x s" "hr_leaves s1 = hr_leaves s" "hr_policies s1 = hr_policies s" "quiet (hr_balances s) (hr_balances s1)"
    "lp_code pol \<noteq> ''UNPAID'' \<Longrightarrow> \<not> lp_allowNegative pol \<Longrightarrow> d \<le> bs_available (fst (latest k (hr_balances s1)))"
proof -
  obtain b rows where l: "latest k (hr_balances s) = (b, rows)" by fastforce
  then have again: "latest k rows = (b, rows)" by (simp add: latest_def [of k rows] latest_facts(1))
  show "hr_x s1 = hr_x s" "hr_leaves s1 = hr_leaves s" "hr_policies s1 = hr_policies s" "quiet (hr_balances s) (hr_balances s1)"
    using assms l by (auto simp: check_balance_def Let_def latest_quiet split: if_splits)
  show "d \<le> bs_available (fst (latest k (hr_balances s1)))" if "lp_code pol \<noteq> ''UNPAID''" "\<not> lp_allowNegative pol"
    using assms l again that by (auto simp: check_balance_def Let_def split: if_splits)
qed

lemma policy_for_InrD: "policy_for s tenant i = Inr pol \<Longrightarrow> pol \<in> set (hr_policies s) \<and> lp_tenant pol = tenant"
  by (auto simp: policy_for_def split: option.splits if_splits dest: tfind_SomeD)

lemma createLeaveE:
  assumes "createLeave v h tenant user b s = Inr (w, s')"
  obtains "s' = s"
    | p pol startAt endAt sp ep d s0 s1 l w' where
      "getConfig tenant s = (fst (getConfig tenant s), s0)" "policy_for s0 tenant (li_policy b) = Inr pol"
      "leave_overlap s0 tenant (p_id p) startAt endAt = None" "computeLeaveDuration startAt endAt sp ep (lp_unit pol) = Inr d"
      "check_balance (tenant, p_id p, lp_id pol, year_of h startAt) pol d s0 = Inr s1"
      "l = new_leave v tenant (coalesce (li_key b) '''') p pol startAt endAt sp ep d s1"
      "submit_leave v h tenant user p l (hr_tick (s1\<lparr>hr_leaves := hr_leaves s1 @ [l]\<rparr>)) = Inr (w', s')"
proof -
  obtain cfg s0 where c: "getConfig tenant s = (cfg, s0)" by fastforce
  consider x where "leave_by_key s tenant (coalesce (li_key b) '''') = Some x"
    | startAt endAt where "leave_by_key s tenant (coalesce (li_key b) '''') = None" "li_start b = At startAt" "li_end b = At endAt"
    | "leave_by_key s tenant (coalesce (li_key b) '''') = None" "\<nexists>startAt endAt. li_start b = At startAt \<and> li_end b = At endAt"
    by (cases "leave_by_key s tenant (coalesce (li_key b) '''')") blast+
  then show ?thesis
  proof cases
    case 1
    with assms that(1) show ?thesis by (auto simp: createLeave_def rbind_Inr_iff Let_def)
  next
    case 2
    with assms c show ?thesis
      by (auto simp: createLeave_def rbind_Inr_iff ensure_Inr_iff Let_def intro: that(2))
  next
    case 3
    with assms c show ?thesis
      by (cases "li_start b"; cases "li_end b") (auto simp: createLeave_def rbind_Inr_iff Let_def)
  qed
qed

lemma create_effect:
  assumes "createLeave v h tenant user b s = Inr (w, s')" "hr_id v s \<notin> lv_id ` set (hr_leaves s)"
  shows "leave_effect strict h s s'"
  using assms(1)
proof (cases rule: createLeaveE)
  case 1
  then show ?thesis by (intro le_idle) simp_all
next
  case (2 p pol startAt endAt sp ep d s0 s1 l w')
  note c = getConfig_frames [OF 2(1)] and k = check_balance_Inr [OF 2(5)] and pol = policy_for_InrD [OF 2(2)]
  have l: "lv_id l = hr_id v s" "lv_tenant l = tenant" "lv_person l = p_id p" "lv_policy l = lp_id pol" "lv_start l = startAt"
    "lv_end l = endAt" "lv_duration l = d" "lv_status l = ''SUBMITTED''"
    using c(1) k(1) by (simp_all add: 2(6) new_leave_def Let_def hr_id_def)
  from 2(7) show ?thesis
  proof (rule submit_leaveE)
    fix f s2
    assume f: "\<And>r. leave_core (f r) = leave_core r \<and> lv_status (f r) = lv_status r"
      and rows: "hr_leaves s' = tupd (\<lambda>x. lv_id x = lv_id l) f (hr_leaves (hr_tick (s1\<lparr>hr_leaves := hr_leaves s1 @ [l]\<rparr>)))"
        "hr_policies s' = hr_policies (hr_tick (s1\<lparr>hr_leaves := hr_leaves s1 @ [l]\<rparr>))"
      and book: "hr_balances s2 = hr_balances (hr_tick (s1\<lparr>hr_leaves := hr_leaves s1 @ [l]\<rparr>))"
        "hr_balances s' = hr_balances (book_leave h l ''LEAVE_SUBMITTED'' (lv_duration l) 0 s2)"
    from f [of l] have fl: "lv_id (f l) = lv_id l" "lv_tenant (f l) = tenant" "lv_person (f l) = p_id p" "lv_policy (f l) = lp_id pol"
      "lv_start (f l) = startAt" "lv_end (f l) = endAt" "lv_duration (f l) = d" "lv_status (f l) = ''SUBMITTED''"
      "leave_key h (f l) = leave_key h l"
      using l by (simp_all add: leave_core_eq leave_key_def)
    have new: "lv_id l \<notin> lv_id ` set (hr_leaves s)" using assms(2) l(1) by simp
    then have "hr_leaves s' = hr_leaves s @ [f l]"
      using c(2) k(2) by (simp add: rows owed_absent table_simps)
    moreover have "leave_overlap s tenant (p_id p) startAt endAt = None" using 2(3) c(2) by (simp add: leave_overlap_def)
    moreover have "booked h (f l) d 0 (hr_balances s1) (hr_balances s')"
      using book_leave_booked [of h l d 0 s2] book l(7) fl(9) by (simp add: booked_def)
    moreover have "leave_key h (f l) = (tenant, p_id p, lp_id pol, year_of h startAt)" using l fl(9) by (simp add: leave_key_def)
    ultimately show ?thesis
      using new c k pol fl duration_nonneg [OF 2(4)] rows(2)
      by (intro le_new [of s' s "f l" pol "hr_balances s1"]) simp_all
  qed
qed

lemma leave_step_effect: "leave_step strict h s s' \<Longrightarrow> leave_effect strict h s s'"
proof (induction rule: leave_step.induct)
  case (ls_config tenant a b c s cfg s')
  then show ?case
    by (intro le_idle) (auto simp: updateConfig_def Let_def rbind_Inr_iff split: prod.splits dest: getConfig_frames)
next
  case (ls_policy v tenant b s p s')
  then show ?case
    by (intro le_policy [of s' s p]) (auto simp: createPolicy_def Let_def rbind_Inr_iff)
next
  case (ls_balances tenant p period s out s')
  then show ?case using meBalances_quiet by (intro le_idle) blast+
qed (rule create_effect approve_effect reject_effect changes_effect resubmit_effect cancel_effect cancel_approve_effect; assumption)+

lemma leave_steps_inv:
  assumes "(leave_step strict h)\<^sup>*\<^sup>* s s'" "P s" "\<And>x y. P x \<Longrightarrow> leave_effect strict h x y \<Longrightarrow> P y"
  shows "P s'"
  using assms(1,2) by (induction rule: rtranclp_induct) (auto dest: leave_step_effect intro: assms(3))

subsection \<open>Ledger and requests agree\<close>

definition leaves_distinct :: "hdb \<Rightarrow> bool" where
  "leaves_distinct s \<longleftrightarrow> distinct (map lv_id (hr_leaves s))"

definition waiting_days :: "host \<Rightarrow> hdb \<Rightarrow> bkey \<Rightarrow> rat" where
  "waiting_days h s = owed (leave_key h) lv_duration awaiting (hr_leaves s)"

definition taken_days :: "host \<Rightarrow> hdb \<Rightarrow> bkey \<Rightarrow> rat" where
  "taken_days h s = owed (leave_key h) lv_duration taken (hr_leaves s)"

lemma effect_distinct:
  assumes "leave_effect strict h s s'" "leaves_distinct s"
  shows "leaves_distinct s'"
  using assms(1)
proof cases
  case (le_move l f dp du)
  have "map lv_id (hr_leaves s') = map lv_id (hr_leaves s)"
    unfolding le_move(2) by (rule map_tupd_frame) (use le_move(3) in \<open>simp add: leave_core_eq\<close>)
  with assms(2) show ?thesis by (simp add: leaves_distinct_def)
qed (use assms(2) in \<open>auto simp: leaves_distinct_def\<close>)

lemma effect_conserves:
  assumes "leave_effect True h s s'" "leaves_distinct s"
  shows "pend_of (hr_balances s') k - waiting_days h s' k = pend_of (hr_balances s) k - waiting_days h s k \<and>
    used_of (hr_balances s') k - taken_days h s' k = used_of (hr_balances s) k - taken_days h s k"
  using assms(1)
proof cases
  case le_idle
  then show ?thesis by (simp add: waiting_days_def taken_days_def quiet_def)
next
  case (le_policy p)
  then show ?thesis by (simp add: waiting_days_def taken_days_def)
next
  case (le_new l pol rows)
  then have "awaiting l" "\<not> taken l" by (simp_all add: awaiting_def taken_def)
  with le_new(1,10) booked_totals [OF le_new(12)] show ?thesis
    by (simp add: waiting_days_def taken_days_def quiet_def)
next
  case (le_move l f dp du)
  have "distinct (map lv_id (hr_leaves s))" using assms(2) by (simp add: leaves_distinct_def)
  note upd = owed_update [OF this le_move(1), where f = f and key = "leave_key h" and amount = lv_duration]
  have same: "leave_key h (f l) = leave_key h l" "lv_duration (f l) = lv_duration l"
    using le_move(3) [of l] by (simp_all add: leave_core_eq leave_key_def)
  from le_move(5) have "dp = lv_duration l * charge (awaiting l) (awaiting (f l))" "du = lv_duration l * charge (taken l) (taken (f l))"
    by (simp_all add: decided_as_def)
  with booked_totals [OF le_move(6)] show ?thesis
    by (simp add: waiting_days_def taken_days_def le_move(2) upd [OF same])
qed

subsection \<open>Absences do not overlap\<close>

definition absences_apart :: "hdb \<Rightarrow> bool" where
  "absences_apart s \<longleftrightarrow> (\<forall>a \<in> set (hr_leaves s). lv_start a \<le> lv_end a) \<and>
     (\<forall>a \<in> set (hr_leaves s). \<forall>b \<in> set (hr_leaves s). lv_id a \<noteq> lv_id b \<longrightarrow> lv_tenant a = lv_tenant b \<longrightarrow>
        lv_person a = lv_person b \<longrightarrow> active_leave a \<longrightarrow> active_leave b \<longrightarrow> \<not> (lv_start a \<le> lv_end b \<and> lv_start b \<le> lv_end a))"

lemma ended_stays: "st' \<in> set (LEAVE_TRANSITIONS st) \<Longrightarrow> st \<notin> set ended_leave"
  by (auto simp: LEAVE_TRANSITIONS_def ended_leave_def split: if_splits)

lemma effect_apart:
  assumes "leave_effect strict h s s'" "leaves_distinct s" "absences_apart s"
  shows "absences_apart s'"
  using assms(1)
proof cases
  case (le_new l pol rows)
  have apart: "\<not> (lv_start a \<le> lv_end l \<and> lv_start l \<le> lv_end a)"
    if "a \<in> set (hr_leaves s)" "lv_tenant a = lv_tenant l" "lv_person a = lv_person l" "active_leave a" for a
    using le_new(6) that by (auto simp: leave_overlap_def tfind_None_iff active_leave_def)
  show ?thesis
    using assms(3) le_new(5) apart unfolding absences_apart_def le_new(1) by (auto 0 3)
next
  case (le_move l f dp du)
  have core: "\<exists>a \<in> set (hr_leaves s). leave_core b = leave_core a \<and> (active_leave b \<longrightarrow> active_leave a)"
    if "b \<in> set (hr_leaves s')" for b
    using that unfolding le_move(2)
  proof (cases rule: in_set_tupdE)
    case (new a)
    have "a = l" by (rule distinct_column_unique [of lv_id "hr_leaves s"]) (use new le_move(1) assms(2) in \<open>simp_all add: leaves_distinct_def\<close>)
    with le_move(3) [of l] ended_stays [OF le_move(4)] new le_move(1) show ?thesis
      by (intro bexI [of _ l]) (simp_all add: active_leave_def)
  next
    case old
    then show ?thesis by blast
  qed
  show ?thesis
    unfolding absences_apart_def
  proof (intro conjI ballI impI)
    fix b assume "b \<in> set (hr_leaves s')"
    from core [OF this] assms(3) show "lv_start b \<le> lv_end b" by (auto simp: absences_apart_def leave_core_eq)
  next
    fix b c
    assume b: "b \<in> set (hr_leaves s')" "active_leave b" and c: "c \<in> set (hr_leaves s')" "active_leave c"
      and bc: "lv_id b \<noteq> lv_id c" "lv_tenant b = lv_tenant c" "lv_person b = lv_person c"
    from core [OF b(1)] core [OF c(1)] b(2) c(2) obtain b0 c0 where
      "b0 \<in> set (hr_leaves s)" "active_leave b0" "leave_core b = leave_core b0"
      "c0 \<in> set (hr_leaves s)" "active_leave c0" "leave_core c = leave_core c0" by blast
    with assms(3) bc show "\<not> (lv_start b \<le> lv_end c \<and> lv_start c \<le> lv_end b)"
      by (simp add: absences_apart_def leave_core_eq)
  qed
qed (use assms(3) in \<open>simp_all add: absences_apart_def\<close>)

subsection \<open>Balances stay within what is allowed\<close>

text \<open>Policies whose requests are checked against the balance.\<close>

definition guarded :: "hdb \<Rightarrow> balance \<Rightarrow> bool" where
  "guarded s b \<longleftrightarrow> (\<exists>p \<in> set (hr_policies s). lp_id p = bs_policy b \<and> lp_tenant p = bs_tenant b \<and>
     \<not> lp_allowNegative p \<and> lp_code p \<noteq> ''UNPAID'')"

definition ledger_ok :: "hdb \<Rightarrow> bool" where
  "ledger_ok s \<longleftrightarrow> distinct (map lp_id (hr_policies s)) \<and> (\<forall>l \<in> set (hr_leaves s). 0 \<le> lv_duration l) \<and>
     (\<forall>b \<in> set (hr_balances s). available_exact b \<and> (guarded s b \<longrightarrow> 0 \<le> bs_available b))"

lemma quiet_ok:
  assumes "quiet rows rows'" "\<forall>b \<in> set rows. available_exact b \<and> (G b \<longrightarrow> 0 \<le> bs_available b)"
  shows "\<forall>b \<in> set rows'. available_exact b \<and> (G b \<longrightarrow> 0 \<le> bs_available b)"
proof
  fix b assume "b \<in> set rows'"
  with assms(1) have "b \<in> set rows \<or> b \<in> range initial_row" by (auto simp: quiet_def)
  then show "available_exact b \<and> (G b \<longrightarrow> 0 \<le> bs_available b)"
    using assms(2) initial_row_exact by (auto simp del: initial_row.simps)
qed

lemma booked_ok:
  assumes "booked h l dp du rows rows'" "\<forall>b \<in> set rows. available_exact b \<and> (G b \<longrightarrow> 0 \<le> bs_available b)"
    and "\<And>b. G b \<Longrightarrow> balance_key b = leave_key h l \<Longrightarrow> dp + du \<le> bs_available (fst (latest (leave_key h l) rows))"
    and G: "\<And>b c. balance_key b = balance_key c \<Longrightarrow> G b = G c"
  shows "\<forall>b \<in> set rows'. available_exact b \<and> (G b \<longrightarrow> 0 \<le> bs_available b)"
proof -
  from assms(1) consider "rows' = rows"
    | reason src where "rows' = snd (append_row (leave_key h l) reason dp du 0 src rows)" by (auto simp: booked_def)
  then show ?thesis
  proof cases
    case 2
    obtain b where "append_row (leave_key h l) reason dp du 0 src rows = (b, rows')" using 2 by (metis prod.collapse)
    then obtain prev rows1 where l: "latest (leave_key h l) rows = (prev, rows1)"
      "b = next_row prev reason dp du 0 src" "rows' = rows1 @ [b]" by (rule append_row_facts)
    have ok: "\<forall>b \<in> set rows1. available_exact b \<and> (G b \<longrightarrow> 0 \<le> bs_available b)"
      by (rule quiet_ok [OF latest_quiet [OF l(1)] assms(2)])
    have key: "balance_key b = leave_key h l" using latest_facts(2) [OF l(1)] l(2) by simp
    have "available_exact prev" using ok latest_set(1) [OF l(1)] by blast
    from next_row_available [OF this] have "bs_available b = bs_available prev - dp - du" by (simp add: l(2))
    with assms(3) [OF _ key] l(1) have "G b \<longrightarrow> 0 \<le> bs_available b" by (simp add: le_diff_eq add.commute)
    with ok l(2,3) show ?thesis by (simp add: next_row_exact)
  qed (use assms(2) in simp)
qed

lemma guarded_cong:
  "hr_policies s' = hr_policies s \<Longrightarrow> balance_key b = balance_key c \<Longrightarrow> guarded s' b = guarded s c"
  by (simp add: guarded_def balance_key_def)

lemma effect_ledger_ok:
  assumes "leave_effect strict h s s'" "ledger_ok s"
  shows "ledger_ok s'"
proof -
  have rows: "\<forall>b \<in> set (hr_balances s). available_exact b \<and> (guarded s b \<longrightarrow> 0 \<le> bs_available b)"
    and dur: "\<forall>l \<in> set (hr_leaves s). 0 \<le> lv_duration l" and pols: "distinct (map lp_id (hr_policies s))"
    using assms(2) by (simp_all add: ledger_ok_def)
  from assms(1) show ?thesis
  proof cases
    case le_idle
    have "guarded s' = guarded s" by (simp add: fun_eq_iff guarded_def le_idle)
    with quiet_ok [OF le_idle(2) rows] dur pols le_idle show ?thesis by (simp add: ledger_ok_def)
  next
    case (le_policy p)
    have "guarded s' b = guarded s b" if "b \<in> set (hr_balances s)" for b
      using that le_policy(3,5) by (auto simp: guarded_def)
    with rows dur pols le_policy show ?thesis by (simp add: ledger_ok_def)
  next
    case (le_new l pol rows1)
    have G: "guarded s' = guarded s" by (simp add: fun_eq_iff guarded_def le_new)
    have "\<forall>b \<in> set (hr_balances s'). available_exact b \<and> (guarded s b \<longrightarrow> 0 \<le> bs_available b)"
    proof (rule booked_ok [OF le_new(12) quiet_ok [OF le_new(10) rows]])
      fix b assume b: "guarded s b" "balance_key b = leave_key h l"
      then obtain p where p: "p \<in> set (hr_policies s)" "lp_id p = lv_policy l" "\<not> lp_allowNegative p" "lp_code p \<noteq> ''UNPAID''"
        by (auto simp: guarded_def balance_key_def leave_key_def)
      have "p = pol" by (rule distinct_column_unique [of lp_id "hr_policies s"]) (use p le_new(7,8) pols in simp_all)
      with p le_new(11) show "lv_duration l + 0 \<le> bs_available (fst (latest (leave_key h l) rows1))" by simp
    qed (rule guarded_cong [OF refl])
    with G dur pols le_new(1,4,13) show ?thesis by (auto simp: ledger_ok_def)
  next
    case (le_move l f dp du)
    have G: "guarded s' = guarded s" by (simp add: fun_eq_iff guarded_def le_move)
    have "\<forall>b \<in> set (hr_balances s'). available_exact b \<and> (guarded s b \<longrightarrow> 0 \<le> bs_available b)"
    proof (rule booked_ok [OF le_move(6) rows])
      fix b assume b: "guarded s b" "balance_key b = leave_key h l"
      obtain prev rows1 where prev: "latest (leave_key h l) (hr_balances s) = (prev, rows1)" by fastforce
      have "guarded s prev" using b guarded_cong [of s s prev b] latest_facts(2) [OF prev] by simp
      with quiet_ok [OF latest_quiet [OF prev] rows] latest_set(1) [OF prev] have "0 \<le> bs_available prev" by blast
      moreover have "dp + du \<le> 0" using le_move(1,5) dur by (simp add: decided_as_def)
      ultimately show "dp + du \<le> bs_available (fst (latest (leave_key h l) (hr_balances s)))" using prev by simp
    qed (rule guarded_cong [OF refl])
    moreover have "\<forall>b \<in> set (hr_leaves s'). 0 \<le> lv_duration b"
      using dur le_move(3) unfolding le_move(2) by (auto elim!: in_set_tupdE simp: leave_core_eq)
    ultimately show ?thesis using G pols le_move(7) by (simp add: ledger_ok_def)
  qed
qed

subsection \<open>Properties\<close>

text \<open>
  C14. Days are charged once, under a condition on the calls: in every sequence of leave handlers in
  which no approval is given to a request whose cancellation is pending and no cancellation is
  approved that was not requested (the two calls the handlers accept although they leak days, shown
  further down), every step keeps, for every person, policy and year, the difference between the days the ledger
  holds as pending and the days of the undecided requests, and the difference between the days it
  holds as used and the days of the approved ones. Starting from agreement they agree for ever.
\<close>
theorem leave_ledger_exact:
  assumes "(leave_step True h)\<^sup>*\<^sup>* s s'" "leaves_distinct s"
  shows "pend_of (hr_balances s') k - waiting_days h s' k = pend_of (hr_balances s) k - waiting_days h s k \<and>
    used_of (hr_balances s') k - taken_days h s' k = used_of (hr_balances s) k - taken_days h s k"
  using assms(1)
proof (induction rule: rtranclp_induct)
  case (step y z)
  have "leaves_distinct y"
    by (rule leave_steps_inv [where P = leaves_distinct, OF step(1) assms(2)]) (rule effect_distinct)
  from effect_conserves [OF leave_step_effect [OF step(2)] this, of k] step.IH show ?case by simp
qed simp

text \<open>
  C15. Nobody is absent twice: after any leave handlers (without the restriction of the previous
  property), two requests of a person that are neither rejected nor cancelled never share an
  instant, and no request ends before it starts.
\<close>
theorem leave_never_overlaps:
  assumes "(leave_step False h)\<^sup>*\<^sup>* s s'" "leaves_distinct s" "absences_apart s"
  shows "(\<forall>a \<in> set (hr_leaves s'). lv_start a \<le> lv_end a) \<and>
    (\<forall>a \<in> set (hr_leaves s'). \<forall>b \<in> set (hr_leaves s'). lv_id a \<noteq> lv_id b \<longrightarrow> lv_tenant a = lv_tenant b \<longrightarrow>
       lv_person a = lv_person b \<longrightarrow> lv_status a \<notin> set ended_leave \<longrightarrow> lv_status b \<notin> set ended_leave \<longrightarrow>
       lv_end a < lv_start b \<or> lv_end b < lv_start a)"
proof -
  have "leaves_distinct s' \<and> absences_apart s'"
    by (rule leave_steps_inv [OF assms(1)]) (use assms(2,3) effect_distinct effect_apart in blast)+
  then have "absences_apart s'" by simp
  then show ?thesis unfolding absences_apart_def active_leave_def by (metis not_le)
qed

text \<open>
  C16. Nobody takes more than is left: whatever leave handlers run, each row of the ledger says
  exactly opening + accrued + carried over - used - pending + adjusted, and on a policy that is
  neither unpaid nor allowed to go negative no row of the ledger is below zero.
\<close>
theorem leave_within_balance:
  assumes "(leave_step False h)\<^sup>*\<^sup>* s s'" "ledger_ok s" "b \<in> set (hr_balances s')"
  shows "bs_available b = bs_opening b + bs_accrued b + bs_carried b - bs_used b - bs_pending b + bs_adjusted b \<and>
    (\<forall>p \<in> set (hr_policies s'). lp_id p = bs_policy b \<longrightarrow> lp_tenant p = bs_tenant b \<longrightarrow> \<not> lp_allowNegative p \<longrightarrow>
       lp_code p \<noteq> ''UNPAID'' \<longrightarrow> 0 \<le> bs_available b)"
proof -
  have "ledger_ok s'" by (rule leave_steps_inv [where P = ledger_ok, OF assms(1,2)]) (rule effect_ledger_ok)
  with assms(3) show ?thesis by (auto simp: ledger_ok_def available_exact_def guarded_def)
qed

text \<open>
  Who moves a request: a decision is by a user whose data scope names no unit at all or names
  the unit of the request; a resubmission or a cancellation is by the person whose request it is.
\<close>
theorem leave_moved_by_right:
  "(approveLeave v h tenant user i s = Inr w \<or> rejectLeave v h tenant user i s = Inr w \<or>
    requestChanges tenant user i s = Inr w \<or> cancelApprove h tenant user i s = Inr w \<longrightarrow>
      (\<exists>l \<in> set (hr_leaves s). lv_id l = i \<and> lv_tenant l = tenant \<and>
         (scoped_units s user = [] \<or> (\<exists>u. lv_orgUnit l = Some u \<and> JStr u \<in> set (scoped_units s user))))) \<and>
   (resubmitLeave tenant user i s = Inr w \<or> cancelLeave h tenant user i s = Inr w \<longrightarrow>
      (\<exists>l \<in> set (hr_leaves s). \<exists>p. lv_id l = i \<and> lv_tenant l = tenant \<and>
         personForUserId (org (hr_x s)) user = Some p \<and> lv_person l = p_id p))"
proof (intro conjI impI)
  assume "approveLeave v h tenant user i s = Inr w \<or> rejectLeave v h tenant user i s = Inr w \<or>
    requestChanges tenant user i s = Inr w \<or> cancelApprove h tenant user i s = Inr w"
  then obtain l u where l: "load_leave s tenant i = Inr l" "assertApproverScope s user (lv_orgUnit l) = Inr u"
    unfolding approveLeave_def rejectLeave_def requestChanges_def cancelApprove_def rbind_Inr_iff by blast
  then show "\<exists>l \<in> set (hr_leaves s). lv_id l = i \<and> lv_tenant l = tenant \<and>
      (scoped_units s user = [] \<or> (\<exists>u. lv_orgUnit l = Some u \<and> JStr u \<in> set (scoped_units s user)))"
    by (auto simp: assertApproverScope_def ensure_Inr_iff truthy_str_def split: option.splits dest!: load_leave_InrD)
next
  assume "resubmitLeave tenant user i s = Inr w \<or> cancelLeave h tenant user i s = Inr w"
  then obtain l u where l: "load_leave s tenant i = Inr l" "assertOwnership s user l = Inr u"
    unfolding resubmitLeave_def cancelLeave_def rbind_Inr_iff by blast
  then show "\<exists>l \<in> set (hr_leaves s). \<exists>p. lv_id l = i \<and> lv_tenant l = tenant \<and>
      personForUserId (org (hr_x s)) user = Some p \<and> lv_person l = p_id p"
    by (auto simp: assertOwnership_def rbind_Inr_iff ensure_Inr_iff resolveActingPerson_def split: option.splits dest!: load_leave_InrD)
qed

text \<open>
  C36. Where the ledger goes wrong: approving a request whose cancellation is pending (the way the
  transition table has to refuse that cancellation) charges its days a second time, and approving
  the cancellation of a request that was never approved refunds days it never used while leaving
  them pending. In both cases the charge to the requests is as it should be and the ledger is off
  by the duration.
\<close>
theorem leave_ledger_leaks:
  assumes "l \<in> set (hr_leaves s)" "leaves_distinct s" "lv_id l = i" "lv_tenant l = tenant"
  shows "(lv_status l = ''CANCEL_REQUESTED'' \<longrightarrow> approveLeave v h tenant user i s = Inr (w, s') \<longrightarrow>
      taken_days h s' (leave_key h l) = taken_days h s (leave_key h l) \<and>
      used_of (hr_balances s') (leave_key h l) = used_of (hr_balances s) (leave_key h l) + lv_duration l) \<and>
    (lv_status l = ''SUBMITTED'' \<longrightarrow> cancelApprove h tenant user i s = Inr (w, s') \<longrightarrow>
      taken_days h s' (leave_key h l) = taken_days h s (leave_key h l) \<and>
      used_of (hr_balances s') (leave_key h l) = used_of (hr_balances s) (leave_key h l) - lv_duration l \<and>
      waiting_days h s' (leave_key h l) = waiting_days h s (leave_key h l) - lv_duration l \<and>
      pend_of (hr_balances s') (leave_key h l) = pend_of (hr_balances s) (leave_key h l))"
proof -
  have dist: "distinct (map lv_id (hr_leaves s))" using assms(2) by (simp add: leaves_distinct_def)
  have mine: "r = l" if "load_leave s tenant i = Inr r" for r
    by (rule distinct_column_unique [of lv_id "hr_leaves s"]) (use dist load_leave_InrD [OF that] assms in simp_all)
  note upd = owed_update [OF dist assms(1), where key = "leave_key h" and amount = lv_duration]
  show ?thesis
  proof (intro conjI impI)
    assume st: "lv_status l = ''CANCEL_REQUESTED''" and ok: "approveLeave v h tenant user i s = Inr (w, s')"
    let ?f = "\<lambda>r. r\<lparr>lv_status := ''APPROVED'', lv_decidedBy := Some user\<rparr>"
    from ok mine obtain s2 where c: "closeApprovalTask v l Approve user (captureImpact tenant ''ON_APPROVE'' l
        (book_leave h l ''LEAVE_APPROVED'' (- lv_duration l) (lv_duration l) (set_leave i ?f s))) = Inr s2"
      and s': "s' = hr_audit tenant user ''approve'' i s2"
      by (auto simp: approveLeave_def rbind_Inr_iff Let_def)
    note fr = closeApprovalTask_frames [OF c]
    from upd [of ?f taken "leave_key h l"] st assms(3) fr
    show "taken_days h s' (leave_key h l) = taken_days h s (leave_key h l)"
      by (simp add: taken_days_def s' leave_key_def charge_def taken_def)
    from booked_totals(2) [OF book_leave_booked [of h l "- lv_duration l" "lv_duration l" "set_leave i ?f s" "''LEAVE_APPROVED''"]] fr
    show "used_of (hr_balances s') (leave_key h l) = used_of (hr_balances s) (leave_key h l) + lv_duration l"
      by (simp add: s')
  next
    assume st: "lv_status l = ''SUBMITTED''" and ok: "cancelApprove h tenant user i s = Inr (w, s')"
    let ?f = "\<lambda>r. r\<lparr>lv_status := ''CANCELLED''\<rparr>"
    from ok mine have s': "s' = hr_audit tenant user ''cancel-approve'' i (captureImpact tenant ''ON_CANCEL'' l
            (book_leave h l ''LEAVE_CANCELLED'' 0 (- lv_duration l) (set_leave i ?f s)))"
      by (auto simp: cancelApprove_def rbind_Inr_iff Let_def)
    from upd [of ?f taken "leave_key h l"] st assms(3)
    show "taken_days h s' (leave_key h l) = taken_days h s (leave_key h l)"
      by (simp add: taken_days_def s' leave_key_def charge_def taken_def)
    from upd [of ?f awaiting "leave_key h l"] st assms(3)
    show "waiting_days h s' (leave_key h l) = waiting_days h s (leave_key h l) - lv_duration l"
      by (simp add: waiting_days_def s' leave_key_def charge_def awaiting_def)
    note book = booked_totals [OF book_leave_booked [of h l 0 "- lv_duration l" "set_leave i ?f s" "''LEAVE_CANCELLED''"], of "leave_key h l"]
    from book(2) show "used_of (hr_balances s') (leave_key h l) = used_of (hr_balances s) (leave_key h l) - lv_duration l"
      by (simp add: s')
    from book(1) show "pend_of (hr_balances s') (leave_key h l) = pend_of (hr_balances s) (leave_key h l)"
      by (simp add: s')
  qed
qed

subsection \<open>An example\<close>

definition leave_host :: host where
  "leave_host = \<lparr>year_of = (\<lambda>_. ''2026''), outbox = (\<lambda>_ _. True)\<rparr>"

definition leave_db :: hdb where
  "leave_db = \<lparr>
     hr_x = \<lparr>workflows = [], instances = [], tasks = [], commands = [], ext_tasks = [], events = [], notifs = [],
       cmd_log = [], resolutions = [], x_audit = [], work_items = [],
       org = empty_idb\<lparr>people := [\<lparr>p_id = ''p1'', p_fullName = ''An'', p_email = None, p_ext = JNull\<rparr>]\<rparr>, seq = 0, subflowSeq = 1\<rparr>,
     hr_configs = [],
     hr_policies = [\<lparr>lp_id = ''pol'', lp_tenant = ''t1'', lp_code = ''ANNUAL'', lp_unit = ''DAY'', lp_accrual = 0,
       lp_allowNegative = False, lp_status = ''ACTIVE''\<rparr>],
     hr_leaves = [],
     hr_balances = [\<lparr>bs_tenant = ''t1'', bs_person = ''p1'', bs_policy = ''pol'', bs_period = ''2026'', bs_opening = 12,
       bs_accrued = 0, bs_used = 0, bs_pending = 0, bs_adjusted = 0, bs_carried = 0, bs_available = 12,
       bs_unit = ''DAY'', bs_seq = 1, bs_reason = ''INITIAL'', bs_source = None\<rparr>],
     hr_impacts = [], hr_items = [], hr_bookings = [], hr_directives = []\<rparr>"

definition two_days :: leave_in where
  "two_days = \<lparr>li_key = Some ''key-0001'', li_policy = Some ''pol'', li_start = At 0, li_end = At 86400000,
     li_startPart = None, li_endPart = None\<rparr>"

definition asked :: "((leave \<times> bool) \<times> hdb) res" where
  "asked = createLeave demo_env leave_host ''t1'' ''p1'' two_days leave_db"
definition leave1 :: hdb where "leave1 = snd (projr asked)"
definition granted :: "(leave \<times> hdb) res" where
  "granted = approveLeave demo_env leave_host ''t1'' ''boss'' ''id0'' leave1"
definition leave2 :: hdb where "leave2 = snd (projr granted)"
definition withdrawn :: "(leave \<times> hdb) res" where
  "withdrawn = cancelLeave leave_host ''t1'' ''p1'' ''id0'' leave2"
definition leave3 :: hdb where "leave3 = snd (projr withdrawn)"
definition regranted :: "(leave \<times> hdb) res" where
  "regranted = approveLeave demo_env leave_host ''t1'' ''boss'' ''id0'' leave3"

definition leave_sum :: "hdb \<Rightarrow> (string \<times> string \<times> string) list \<times> rat list \<times> nat" where
  "leave_sum s = (map (\<lambda>l. (lv_id l, lv_tenant l, lv_status l)) (hr_leaves s), map bs_available (hr_balances s), length (hr_balances s))"

lemma leave_runs:
  "is_ok asked" "is_ok granted" "is_ok regranted"
  "leave_sum leave1 = ([(''id0'', ''t1'', ''SUBMITTED'')], [12, 10], 2)"
  "leave_sum leave2 = ([(''id0'', ''t1'', ''APPROVED'')], [12, 10, 10], 3)"
  "leave_sum leave3 = ([(''id0'', ''t1'', ''CANCEL_REQUESTED'')], [12, 10, 10], 3)"
  "taken_days leave_host leave2 (''t1'', ''p1'', ''pol'', ''2026'') = 2"
  by code_simp+

lemma asked_eq: "createLeave demo_env leave_host ''t1'' ''p1'' two_days leave_db = Inr (fst (projr asked), leave1)"
  unfolding leave1_def asked_def [symmetric] by (rule ok_pair) (rule leave_runs)

lemma granted_eq: "approveLeave demo_env leave_host ''t1'' ''boss'' ''id0'' leave1 = Inr (fst (projr granted), leave2)"
  unfolding leave2_def granted_def [symmetric] by (rule ok_pair) (rule leave_runs)

lemma regranted_eq: "approveLeave demo_env leave_host ''t1'' ''boss'' ''id0'' leave3 = Inr (fst (projr regranted), snd (projr regranted))"
  unfolding regranted_def [symmetric] by (rule ok_pair) (rule leave_runs)

lemma leave_db_ok: "leaves_distinct leave_db" "absences_apart leave_db" "ledger_ok leave_db"
  by (simp_all add: leave_db_def leaves_distinct_def absences_apart_def ledger_ok_def available_exact_def)

lemma leave_run: "(leave_step strict leave_host)\<^sup>*\<^sup>* leave_db leave2"
proof -
  have "leave_step strict leave_host leave_db leave1"
    by (rule ls_create [OF asked_eq]) (simp add: leave_db_def)
  moreover have "\<forall>r \<in> set (hr_leaves leave1). lv_id r = ''id0'' \<longrightarrow> lv_status r \<noteq> ''CANCEL_REQUESTED''"
    using leave_runs(4) by (auto simp: leave_sum_def)
  then have "leave_step strict leave_host leave1 leave2" by (rule ls_approve [OF granted_eq])
  ultimately show ?thesis by (meson converse_rtranclp_into_rtranclp r_into_rtranclp)
qed

lemma leave_ledger_exact_witness:
  "used_of (hr_balances leave2) (''t1'', ''p1'', ''pol'', ''2026'') = 2"
proof -
  let ?k = "(''t1'', ''p1'', ''pol'', ''2026'')"
  have "used_of (hr_balances leave_db) ?k = 0 \<and> taken_days leave_host leave_db ?k = 0"
    by code_simp
  with leave_ledger_exact [OF leave_run leave_db_ok(1), THEN conjunct2, of ?k] leave_runs(7) show ?thesis by simp
qed

lemma leave2_row: "\<exists>l. hr_leaves leave2 = [l] \<and> lv_status l = ''APPROVED''"
  using leave_runs(5) by (auto simp: leave_sum_def)

lemma leave_never_overlaps_witness: "lv_start (hd (hr_leaves leave2)) \<le> lv_end (hd (hr_leaves leave2))"
  using leave_never_overlaps [OF leave_run leave_db_ok(1,2), THEN conjunct1] leave2_row by auto

lemma leave_within_balance_witness: "available_exact (last (hr_balances leave2))"
proof -
  have "last (hr_balances leave2) \<in> set (hr_balances leave2)"
    using leave_runs(5) by (intro last_in_set) (auto simp: leave_sum_def)
  from leave_within_balance [OF leave_run leave_db_ok(3) this] show ?thesis by (simp add: available_exact_def)
qed

lemma leave_moved_by_right_witness:
  "\<exists>l \<in> set (hr_leaves leave1). lv_id l = ''id0'' \<and> lv_tenant l = ''t1''"
  using leave_moved_by_right [THEN conjunct1] granted_eq by blast

lemma leave_ledger_leaks_witness:
  "\<exists>l. used_of (hr_balances (snd (projr regranted))) (leave_key leave_host l) = used_of (hr_balances leave3) (leave_key leave_host l) + lv_duration l"
proof -
  from leave_runs(6) obtain l where l: "hr_leaves leave3 = [l]" "lv_id l = ''id0''" "lv_tenant l = ''t1''"
    "lv_status l = ''CANCEL_REQUESTED''" by (auto simp: leave_sum_def)
  then have "l \<in> set (hr_leaves leave3)" "leaves_distinct leave3" by (simp_all add: leaves_distinct_def)
  from leave_ledger_leaks [OF this l(2,3), THEN conjunct1, rule_format, OF l(4) regranted_eq] show ?thesis by blast
qed

end
