(* ===== verification/Work_Progress.thy ===== *)
theory Work_Progress
  imports Fsm
begin

section \<open>Progress and health of projects\<close>

text \<open>
  The pure functions of xhub-api/src/work/projects/progress.ts: weighted roll-up of progress under
  the method a project declares, and the health of a project. Percentages are integers (the column
  is one), weights rationals.
\<close>

subsection \<open>Progress\<close>

definition PROGRESS_METHODS :: "string list" where
  "PROGRESS_METHODS = [''MANUAL'', ''TASK_WEIGHTED'', ''MILESTONE_WEIGHTED'', ''DELIVERABLE_WEIGHTED'']"

record progress_in =
  pg_type :: string
  pg_status :: string
  pg_percent :: int
  pg_weight :: "rat option"

definition clamp :: "int \<Rightarrow> int" where
  "clamp n = max 0 (min 100 n)"

definition weight_of :: "rat option \<Rightarrow> rat" where
  "weight_of w = (case w of Some x \<Rightarrow> if 0 < x then x else 1 | None \<Rightarrow> 1)"

definition add_weighted :: "progress_in \<Rightarrow> rat \<times> rat \<Rightarrow> rat \<times> rat" where
  "add_weighted it acc =
     (let w = weight_of (pg_weight it) in (fst acc + w * of_int (clamp (pg_percent it)), snd acc + w))"

definition taskWeighted :: "progress_in list \<Rightarrow> int" where
  "taskWeighted items =
     (if items = [] then 0
      else let (num, den) = fold add_weighted items (0, 0) in if den = 0 then 0 else js_round (num / den))"

definition computeProgress :: "string \<Rightarrow> progress_in list \<Rightarrow> int \<Rightarrow> int" where
  "computeProgress method items manual =
     (if method = ''MANUAL'' then clamp manual
      else if method = ''MILESTONE_WEIGHTED'' then
        (let ms = filter (\<lambda>i. pg_type i = ''MILESTONE'') items
         in if ms = [] then taskWeighted items
            else js_round (of_nat (length (filter (\<lambda>m. pg_status m = ''DONE'') ms)) / of_nat (length ms) * 100))
      else if method = ''DELIVERABLE_WEIGHTED'' then
        (let dl = filter (\<lambda>i. pg_type i = ''DELIVERABLE'') items
         in if dl = [] then taskWeighted items else taskWeighted dl)
      else taskWeighted items)"

subsection \<open>Health\<close>

record health_in =
  hi_status :: string
  hi_hasBaseline :: bool
  hi_baselineFinish :: "int option"
  hi_forecastFinish :: "int option"
  hi_plannedFinish :: "int option"
  hi_overdueItems :: nat
  hi_overdueMilestones :: nat
  hi_blockedHigh :: nat

definition slip_days :: "int option \<Rightarrow> int option \<Rightarrow> int" where
  "slip_days ref forecast =
     (case (ref, forecast) of (Some r, Some f) \<Rightarrow> js_round (of_int (f - r) / 86400000) | _ \<Rightarrow> 0)"

definition computeHealth :: "health_in \<Rightarrow> string" where
  "computeHealth i =
     (if hi_status i = ''COMPLETED'' then ''GREEN''
      else if hi_status i = ''CANCELLED'' then ''UNKNOWN''
      else
        (let ref = (if hi_hasBaseline i then hi_baselineFinish i else hi_plannedFinish i);
             slip = slip_days ref (hi_forecastFinish i)
         in if ref = None \<and> hi_forecastFinish i = None then ''UNKNOWN''
            else if 0 < hi_overdueMilestones i \<or> 14 < slip \<or> 0 < hi_blockedHigh i then ''RED''
            else if 3 < slip \<or> 0 < hi_overdueItems i then ''YELLOW''
            else ''GREEN''))"

subsection \<open>A weighted mean stays between its values\<close>

lemma clamp_range: "0 \<le> clamp n \<and> clamp n \<le> 100"
  by (simp add: clamp_def)

lemma clamp_id: "0 \<le> n \<Longrightarrow> n \<le> 100 \<Longrightarrow> clamp n = n"
  by (simp add: clamp_def)

lemma weight_of_pos: "0 < weight_of w"
  by (simp add: weight_of_def split: option.split)

lemma fold_weighted:
  assumes "\<And>i. i \<in> set items \<Longrightarrow> a \<le> clamp (pg_percent i) \<and> clamp (pg_percent i) \<le> b"
    and "of_int a * snd acc \<le> fst acc" "fst acc \<le> of_int b * snd acc"
  shows "of_int a * snd (fold add_weighted items acc) \<le> fst (fold add_weighted items acc) \<and>
    fst (fold add_weighted items acc) \<le> of_int b * snd (fold add_weighted items acc)"
  using assms
proof (induction items arbitrary: acc)
  case (Cons i items)
  let ?w = "weight_of (pg_weight i)" and ?p = "of_int (clamp (pg_percent i)) :: rat"
  have "a \<le> clamp (pg_percent i)" "clamp (pg_percent i) \<le> b" using Cons.prems(1) by simp_all
  then have "of_int a * ?w \<le> ?w * ?p" "?w * ?p \<le> of_int b * ?w"
    using weight_of_pos [of "pg_weight i"] by (simp_all add: mult.commute)
  with Cons.prems(2,3) have "of_int a * snd (add_weighted i acc) \<le> fst (add_weighted i acc)"
    "fst (add_weighted i acc) \<le> of_int b * snd (add_weighted i acc)"
    by (simp_all add: add_weighted_def Let_def distrib_left)
  from Cons.IH [OF _ this] Cons.prems(1) show ?case by simp
qed simp

lemma fold_weighted_den: "snd acc \<le> snd (fold add_weighted items acc) \<and>
    (items \<noteq> [] \<longrightarrow> snd acc < snd (fold add_weighted items acc))"
proof (induction items arbitrary: acc)
  case (Cons i items)
  have "snd acc < snd (add_weighted i acc)" using weight_of_pos by (simp add: add_weighted_def Let_def)
  with Cons.IH [of "add_weighted i acc"] show ?case by auto
qed simp

lemma taskWeighted_between:
  assumes "items \<noteq> []" "\<And>i. i \<in> set items \<Longrightarrow> a \<le> clamp (pg_percent i) \<and> clamp (pg_percent i) \<le> b"
  shows "a \<le> taskWeighted items \<and> taskWeighted items \<le> b"
proof -
  obtain num den where f: "fold add_weighted items (0, 0) = (num, den)" by force
  from fold_weighted [OF assms(2), of items "(0, 0)"] have "of_int a * den \<le> num \<and> num \<le> of_int b * den"
    by (simp add: f)
  moreover from fold_weighted_den [of "(0, 0)" items] assms(1) have den: "0 < den" by (simp add: f)
  ultimately have "of_int a \<le> num / den" "num / den \<le> of_int b" by (simp_all add: field_simps)
  from js_round_between [OF this] den assms(1) show ?thesis by (simp add: taskWeighted_def f)
qed

lemma taskWeighted_range: "0 \<le> taskWeighted items \<and> taskWeighted items \<le> 100"
proof (cases "items = []")
  case True
  then show ?thesis by (simp add: taskWeighted_def)
next
  case False
  from taskWeighted_between [OF this, of 0 100] clamp_range show ?thesis by blast
qed

lemma share_range:
  assumes "k \<le> n" "0 < n"
  shows "0 \<le> js_round (of_nat k / of_nat n * 100) \<and> js_round (of_nat k / of_nat n * 100) \<le> 100"
proof -
  from assms have "(of_nat k :: rat) / of_nat n \<le> 1" by simp
  then have "(of_nat k :: rat) / of_nat n * 100 \<le> of_int 100" by (metis mult_le_cancel_right1 mult_right_mono of_int_numeral zero_le_numeral mult_1)
  moreover have "of_int 0 \<le> (of_nat k :: rat) / of_nat n * 100" by simp
  ultimately show ?thesis by (intro js_round_between)
qed

lemma computeProgress_range: "0 \<le> computeProgress m items k \<and> computeProgress m items k \<le> 100"
proof -
  let ?ms = "filter (\<lambda>i. pg_type i = ''MILESTONE'') items"
  have "?ms \<noteq> [] \<Longrightarrow> length (filter (\<lambda>m. pg_status m = ''DONE'') ?ms) \<le> length ?ms \<and> 0 < length ?ms"
    using length_filter_le by blast
  then show ?thesis
    using share_range clamp_range taskWeighted_range by (auto simp: computeProgress_def Let_def)
qed

subsection \<open>Properties\<close>

text \<open>
  A roll-up is a percentage between its parts: whatever the method and the stored numbers, the
  computed progress lies between 0 and 100, and a weighted roll-up (every method but MANUAL and the
  count of finished milestones) lies between the smallest and the largest progress of its items.
\<close>
theorem progress_between_parts:
  "0 \<le> computeProgress m items k \<and> computeProgress m items k \<le> 100 \<and>
   (items \<noteq> [] \<longrightarrow> m \<noteq> ''MANUAL'' \<longrightarrow> (m = ''MILESTONE_WEIGHTED'' \<longrightarrow> ''MILESTONE'' \<notin> pg_type ` set items) \<longrightarrow>
      Min ((\<lambda>i. clamp (pg_percent i)) ` set items) \<le> computeProgress m items k \<and>
      computeProgress m items k \<le> Max ((\<lambda>i. clamp (pg_percent i)) ` set items))"
proof -
  let ?v = "\<lambda>i. clamp (pg_percent i)"
  have between: "Min (?v ` set items) \<le> computeProgress m items k \<and> computeProgress m items k \<le> Max (?v ` set items)"
    if items: "items \<noteq> []" "m \<noteq> ''MANUAL''" "m = ''MILESTONE_WEIGHTED'' \<longrightarrow> ''MILESTONE'' \<notin> pg_type ` set items"
  proof -
    define dl where "dl = (if m = ''DELIVERABLE_WEIGHTED'' then filter (\<lambda>i. pg_type i = ''DELIVERABLE'') items else [])"
    define xs where "xs = (if dl = [] then items else dl)"
    have "computeProgress m items k = taskWeighted xs"
    proof (cases "m = ''MILESTONE_WEIGHTED''")
      case True
      with items(3) have "filter (\<lambda>i. pg_type i = ''MILESTONE'') items = []" by (force simp: filter_empty_conv)
      with True show ?thesis by (simp add: computeProgress_def dl_def xs_def)
    next
      case False
      with items(2) show ?thesis by (simp add: computeProgress_def Let_def dl_def xs_def)
    qed
    moreover have xs: "set xs \<subseteq> set items" "xs \<noteq> []" using items(1) by (auto simp: dl_def xs_def)
    have "Min (?v ` set items) \<le> ?v i \<and> ?v i \<le> Max (?v ` set items)" if "i \<in> set xs" for i
      using that xs(1) by (intro conjI Min_le Max_ge) auto
    from taskWeighted_between [OF xs(2) this]
    have "Min (?v ` set items) \<le> taskWeighted xs \<and> taskWeighted xs \<le> Max (?v ` set items)" .
    ultimately show ?thesis by simp
  qed
  with computeProgress_range show ?thesis by blast
qed

definition severity :: "string \<Rightarrow> nat" where
  "severity h = (if h = ''RED'' then 2 else if h = ''YELLOW'' then 1 else 0)"

lemma slip_days_mono: "f \<le> f' \<Longrightarrow> slip_days ref (Some f) \<le> slip_days ref (Some f')"
  by (auto simp: slip_days_def divide_right_mono intro!: js_round_mono split: option.splits)

definition grade :: "nat \<Rightarrow> nat \<Rightarrow> int \<Rightarrow> nat \<Rightarrow> nat" where
  "grade milestones blocked slip items =
     (if 0 < milestones \<or> 14 < slip \<or> 0 < blocked then 2 else if 3 < slip \<or> 0 < items then 1 else 0)"

lemma severity_computeHealth:
  assumes "hi_status i \<noteq> ''COMPLETED''" "hi_status i \<noteq> ''CANCELLED''" "hi_forecastFinish i = Some f"
  shows "severity (computeHealth i) = grade (hi_overdueMilestones i) (hi_blockedHigh i)
    (slip_days (if hi_hasBaseline i then hi_baselineFinish i else hi_plannedFinish i) (Some f)) (hi_overdueItems i)"
  using assms by (simp add: computeHealth_def Let_def grade_def severity_def)

lemma grade_mono: "m \<le> m' \<Longrightarrow> b \<le> b' \<Longrightarrow> s \<le> s' \<Longrightarrow> n \<le> n' \<Longrightarrow> grade m b s n \<le> grade m' b' s' n'"
  by (simp add: grade_def)

text \<open>
  Bad news never improves the health of a project: with a later forecast, more overdue items,
  more overdue milestones or more blocked urgent items, everything else equal, the reported health
  is as severe or more (RED above YELLOW above the rest).
\<close>
theorem health_monotone:
  assumes "f \<le> f'" "hi_overdueItems i \<le> n" "hi_overdueMilestones i \<le> m" "hi_blockedHigh i \<le> b"
  shows "severity (computeHealth (i\<lparr>hi_forecastFinish := Some f\<rparr>)) \<le>
    severity (computeHealth (i\<lparr>hi_forecastFinish := Some f', hi_overdueItems := n, hi_overdueMilestones := m, hi_blockedHigh := b\<rparr>))"
proof (cases "hi_status i \<in> {''COMPLETED'', ''CANCELLED''}")
  case True
  then show ?thesis by (auto simp: computeHealth_def)
next
  case False
  from assms(2-4) slip_days_mono [OF assms(1)] show ?thesis
    by (cases "hi_hasBaseline i") (simp_all add: severity_computeHealth False [simplified] grade_mono)
qed

definition two_tasks :: "progress_in list" where
  "two_tasks = [\<lparr>pg_type = ''TASK'', pg_status = ''DONE'', pg_percent = 100, pg_weight = Some 3\<rparr>,
     \<lparr>pg_type = ''TASK'', pg_status = ''TODO'', pg_percent = 20, pg_weight = None\<rparr>]"

definition on_track :: health_in where
  "on_track = \<lparr>hi_status = ''ACTIVE'', hi_hasBaseline = False, hi_baselineFinish = None, hi_forecastFinish = None,
     hi_plannedFinish = Some 0, hi_overdueItems = 0, hi_overdueMilestones = 0, hi_blockedHigh = 0\<rparr>"

lemma progress_between_parts_witness:
  "20 \<le> computeProgress ''TASK_WEIGHTED'' two_tasks 0 \<and> computeProgress ''TASK_WEIGHTED'' two_tasks 0 \<le> 100"
  using progress_between_parts [of "''TASK_WEIGHTED''" two_tasks 0] by (simp add: clamp_def two_tasks_def)

lemma health_monotone_witness:
  "severity (computeHealth (on_track\<lparr>hi_forecastFinish := Some 0\<rparr>)) \<le>
   severity (computeHealth (on_track\<lparr>hi_forecastFinish := Some 432000000, hi_overdueItems := 0, hi_overdueMilestones := 0, hi_blockedHigh := 0\<rparr>))"
  by (rule health_monotone) (simp_all add: on_track_def)

end
