(* ===== verification/Work_Items.thy ===== *)
theory Work_Items
  imports Work_Progress Lifecycle
begin

section \<open>Work items\<close>

text \<open>
  xhub-api/src/work/work.service.ts: the items of the work module with their status changes,
  schedule, assignment through the resolver, progress, comments, checklist and attachments, and the
  two tiers in which an item is shown. The record \<open>wdb\<close> also holds the tables of the project
  service (\<open>Work_Projects\<close>).
\<close>

subsection \<open>State\<close>

record work_row =
  wk_id :: string
  wk_tenant :: string
  wk_project :: "string option"
  wk_parent :: "string option"
  wk_wbs :: "string option"
  wk_type :: string
  wk_title :: string
  wk_description :: "string option"
  wk_status :: string
  wk_priority :: string
  wk_owner :: "string option"
  wk_assignees :: "string list"
  wk_planned :: "int option"
  wk_due :: "int option"
  wk_actualStart :: "int option"
  wk_completed :: "int option"
  wk_progress :: int
  wk_weight :: "rat option"
  wk_estimate :: "int option"
  wk_tags :: "string list"
  wk_dims :: json
  wk_by :: string
  wk_created :: int

record work_comment =
  wc_id :: string
  wc_tenant :: string
  wc_item :: string
  wc_author :: string
  wc_body :: string

record work_check =
  ck_id :: string
  ck_tenant :: string
  ck_item :: string
  ck_label :: string
  ck_done :: bool
  ck_doneBy :: "string option"
  ck_doneAt :: "int option"
  ck_order :: int

record work_log =
  wl_tenant :: string
  wl_row :: string
  wl_type :: string
  wl_actor :: string

record dependency =
  dp_id :: string
  dp_tenant :: string
  dp_pred :: string
  dp_succ :: string
  dp_type :: string
  dp_lag :: int

record project =
  pj_id :: string
  pj_tenant :: string
  pj_code :: string
  pj_name :: string
  pj_kind :: string
  pj_status :: string
  pj_health :: string
  pj_method :: string
  pj_progress :: int
  pj_plannedStart :: "int option"
  pj_plannedFinish :: "int option"
  pj_forecastStart :: "int option"
  pj_forecastFinish :: "int option"
  pj_actualStart :: "int option"
  pj_actualFinish :: "int option"
  pj_owner :: "string option"
  pj_manager :: "string option"
  pj_sponsor :: "string option"
  pj_baseline :: "nat option"
  pj_tags :: "string list"
  pj_dims :: json
  pj_by :: string
  pj_created :: int

record baseline =
  bl_id :: string
  bl_tenant :: string
  bl_project :: string
  bl_version :: nat
  bl_label :: string
  bl_by :: string

record baseline_item =
  bi_tenant :: string
  bi_baseline :: string
  bi_item :: string
  bi_planned :: "int option"
  bi_due :: "int option"
  bi_weight :: "rat option"
  bi_progress :: int

record role_assignment =
  ra_id :: string
  ra_tenant :: string
  ra_project :: string
  ra_subjectType :: string
  ra_subject :: string
  ra_role :: string
  ra_tier :: string
  ra_from :: "int option"
  ra_to :: "int option"

record coordination_share =
  cs_tenant :: string
  cs_scope :: string
  cs_scopeId :: string
  cs_audienceType :: string
  cs_audience :: "string option"
  cs_tier :: string

record dimension =
  dm_tenant :: string
  dm_key :: string
  dm_allowed :: json

record wdb = odb +
  w_items :: "work_row list"
  w_comments :: "work_comment list"
  w_checks :: "work_check list"
  w_events :: "work_log list"
  w_deps :: "dependency list"
  w_projects :: "project list"
  w_baselines :: "baseline list"
  w_bitems :: "baseline_item list"
  w_roles :: "role_assignment list"
  w_shares :: "coordination_share list"
  w_pevents :: "work_log list"
  w_dimensions :: "dimension list"

subsection \<open>Events, rows and views\<close>

definition work_event :: "string \<Rightarrow> string \<Rightarrow> string \<Rightarrow> string \<Rightarrow> wdb \<Rightarrow> wdb" where
  "work_event tenant i ty actor s =
     log_audit tenant actor i (''work.item.'' @ ty)
       (s\<lparr>w_events := w_events s @ [\<lparr>wl_tenant = tenant, wl_row = i, wl_type = ty, wl_actor = actor\<rparr>]\<rparr>)"

definition item_by_id :: "wdb \<Rightarrow> string \<Rightarrow> string \<Rightarrow> work_row option" where
  "item_by_id s tenant i = tfind (\<lambda>r. wk_id r = i \<and> wk_tenant r = tenant) (w_items s)"

definition load_item :: "wdb \<Rightarrow> string \<Rightarrow> string \<Rightarrow> work_row res" where
  "load_item s tenant i =
     (case item_by_id s tenant i of None \<Rightarrow> Inl (NotFound ''work item not found'') | Some r \<Rightarrow> Inr r)"

definition set_item :: "string \<Rightarrow> (work_row \<Rightarrow> work_row) \<Rightarrow> wdb \<Rightarrow> wdb" where
  "set_item i f s = s\<lparr>w_items := tupd (\<lambda>r. wk_id r = i) f (w_items s)\<rparr>"

definition hasFullAccess :: "wdb \<Rightarrow> string \<Rightarrow> work_row \<Rightarrow> bool" where
  "hasFullAccess s actor r \<longleftrightarrow> actor \<noteq> [] \<and>
     (wk_owner r = Some actor \<or> wk_by r = actor \<or> actor \<in> set (wk_assignees r) \<or>
      can (o_org s) actor ''work.view.full'' None = Granted)"

text \<open>\<open>SummaryWorkItemDTO\<close> and the full view.\<close>

record item_summary =
  sm_id :: string
  sm_title :: string
  sm_type :: string
  sm_milestone :: bool
  sm_status :: string
  sm_progress :: int
  sm_planned :: "int option"
  sm_due :: "int option"
  sm_overdue :: bool

record item_full =
  fv_item :: work_row
  fv_overdue :: bool
  fv_legal :: "string list"
  fv_milestone :: bool

datatype item_view = Summary item_summary | Full item_full

definition item_late :: "env \<Rightarrow> work_row \<Rightarrow> bool" where
  "item_late v r = work_isOverdue (now v) (wk_due r) (wk_status r)"

definition summary_with :: "env \<Rightarrow> work_row \<Rightarrow> int \<Rightarrow> item_summary" where
  "summary_with v r p =
     \<lparr>sm_id = wk_id r, sm_title = wk_title r, sm_type = wk_type r, sm_milestone = (wk_type r = ''MILESTONE''),
      sm_status = wk_status r, sm_progress = p, sm_planned = wk_planned r, sm_due = wk_due r,
      sm_overdue = item_late v r\<rparr>"

definition toSummary :: "env \<Rightarrow> work_row \<Rightarrow> item_summary" where
  "toSummary v r = summary_with v r (wk_progress r)"

definition enrichFull :: "env \<Rightarrow> work_row \<Rightarrow> item_full" where
  "enrichFull v r =
     \<lparr>fv_item = r, fv_overdue = item_late v r, fv_legal = legalStatusTargets (wk_status r),
      fv_milestone = (wk_type r = ''MILESTONE'')\<rparr>"

subsection \<open>Creation\<close>

definition WORK_TYPES :: "string list" where
  "WORK_TYPES = [''TASK'', ''SUBTASK'', ''ACTION'', ''MILESTONE'', ''DELIVERABLE'', ''FOLLOW_UP'']"

record work_in =
  wi_title :: string
  wi_description :: "string option"
  wi_type :: "string option"
  wi_status :: "string option"
  wi_priority :: "string option"
  wi_project :: "string option"
  wi_parent :: "string option"
  wi_wbs :: "string option"
  wi_owner :: "string option"
  wi_assignees :: "string list option"
  wi_planned :: date_in
  wi_due :: date_in
  wi_weight :: "rat option"
  wi_estimate :: "int option"
  wi_progress :: "int option"
  wi_tags :: "string list option"
  wi_dims :: json

definition new_item :: "env \<Rightarrow> string \<Rightarrow> string \<Rightarrow> work_in \<Rightarrow> string \<Rightarrow> string \<Rightarrow> wdb \<Rightarrow> work_row" where
  "new_item v tenant actor b ty st s =
     \<lparr>wk_id = oid v s, wk_tenant = tenant, wk_project = wi_project b, wk_parent = wi_parent b, wk_wbs = wi_wbs b,
      wk_type = ty, wk_title = wi_title b, wk_description = wi_description b, wk_status = st,
      wk_priority = to_upper (coalesce (wi_priority b) ''NORMAL''), wk_owner = Some (coalesce (wi_owner b) actor),
      wk_assignees = coalesce (wi_assignees b) [], wk_planned = date_opt (wi_planned b), wk_due = date_opt (wi_due b),
      wk_actualStart = (if st = ''IN_PROGRESS'' then Some (now v) else None), wk_completed = None,
      wk_progress = clamp (coalesce (wi_progress b) 0), wk_weight = wi_weight b, wk_estimate = wi_estimate b,
      wk_tags = coalesce (wi_tags b) [], wk_dims = jcoalesce (wi_dims b) (JObj []), wk_by = actor, wk_created = now v\<rparr>"

definition createItem :: "env \<Rightarrow> string \<Rightarrow> string \<Rightarrow> work_in \<Rightarrow> wdb \<Rightarrow> (item_full \<times> wdb) res" where
  "createItem v tenant actor b s =
     (let ty = to_upper (coalesce (wi_type b) ''TASK''); st = to_upper (coalesce (wi_status b) ''BACKLOG'') in
      rbind (ensure (wi_title b \<noteq> []) (BadRequest ''title is required'')) (\<lambda>_.
      rbind (ensure (ty \<in> set WORK_TYPES) (BadRequest ''type must be one of'')) (\<lambda>_.
      rbind (ensure (st \<in> set work_states) (BadRequest ''invalid status'')) (\<lambda>_.
      rbind (ensure (truthy_str (wi_parent b) \<longrightarrow> item_by_id s tenant (the (wi_parent b)) \<noteq> None)
               (BadRequest ''parentId not found in tenant'')) (\<lambda>_.
      rbind (ensure (wi_planned b \<noteq> Invalid \<and> wi_due b \<noteq> Invalid) TypeErr) (\<lambda>_.
        let r = new_item v tenant actor b ty st s
        in Inr (enrichFull v r, work_event tenant (wk_id r) ''created'' actor
             (s\<lparr>w_items := w_items s @ [r], o_seq := Suc (o_seq s)\<rparr>))))))))"

subsection \<open>Reads\<close>

record item_filter =
  wf_scope :: "string option"
  wf_status :: "string option"
  wf_type :: "string option"
  wf_project :: "string option"
  wf_parent :: "string option"
  wf_q :: "string option"
  wf_tags :: "string list"
  wf_dims :: "(string \<times> string) list"

definition dims_match :: "(string \<times> string) list \<Rightarrow> json \<Rightarrow> bool" where
  "dims_match ds j = list_all (\<lambda>(k, x). get_prop j k = JStr x) ds"

definition item_matches :: "string \<Rightarrow> string \<Rightarrow> item_filter \<Rightarrow> work_row \<Rightarrow> bool" where
  "item_matches tenant actor f r \<longleftrightarrow> wk_tenant r = tenant \<and>
     (truthy_str (wf_status f) \<longrightarrow> wk_status r = to_upper (the (wf_status f))) \<and>
     (truthy_str (wf_type f) \<longrightarrow> wk_type r = to_upper (the (wf_type f))) \<and>
     (truthy_str (wf_project f) \<longrightarrow> wk_project r = wf_project f) \<and>
     (truthy_str (wf_parent f) \<longrightarrow> wk_parent r = wf_parent f) \<and>
     (truthy_str (wf_q f) \<longrightarrow> includes_str (to_lower (the (wf_q f))) (to_lower (wk_title r))) \<and>
     (wf_scope f = Some ''created'' \<longrightarrow> wk_by r = actor) \<and>
     (wf_scope f = Some ''assigned'' \<longrightarrow> actor \<in> set (wk_assignees r)) \<and>
     (wf_scope f = Some ''mine'' \<longrightarrow> wk_owner r = Some actor \<or> actor \<in> set (wk_assignees r) \<or> wk_by r = actor) \<and>
     set (wf_tags f) \<subseteq> set (wk_tags r) \<and> dims_match (wf_dims f) (wk_dims r)"

definition view_item :: "env \<Rightarrow> wdb \<Rightarrow> string \<Rightarrow> work_row \<Rightarrow> item_view" where
  "view_item v s actor r = (if hasFullAccess s actor r then Full (enrichFull v r) else Summary (toSummary v r))"

definition listItems ::
  "env \<Rightarrow> string \<Rightarrow> string \<Rightarrow> item_filter \<Rightarrow> int option \<Rightarrow> int option \<Rightarrow> wdb \<Rightarrow> item_view list \<times> nat \<times> nat \<times> nat" where
  "listItems v tenant actor f page pageSize s =
     (let rows = sort_key (\<lambda>r. - wk_created r) (filter (item_matches tenant actor f) (w_items s));
          p = page_no page; sz = page_size 200 50 pageSize
      in (map (view_item v s actor) (page_slice p sz rows), length rows, p, sz))"

text \<open>What the detail page adds for a reader with full access.\<close>

record item_details =
  dt_comments :: "work_comment list"
  dt_checks :: "work_check list"
  dt_events :: "work_log list"
  dt_attachments :: "(doc_row \<times> nat) list"
  dt_children :: "(string \<times> string \<times> string \<times> string \<times> int) list"

definition item_details_of :: "string \<Rightarrow> string \<Rightarrow> wdb \<Rightarrow> item_details" where
  "item_details_of tenant i s =
     \<lparr>dt_comments = filter (\<lambda>c. wc_tenant c = tenant \<and> wc_item c = i) (w_comments s),
      dt_checks = sort_key ck_order (filter (\<lambda>c. ck_tenant c = tenant \<and> ck_item c = i) (w_checks s)),
      dt_events = filter (\<lambda>e. wl_tenant e = tenant \<and> wl_row e = i) (w_events s),
      dt_attachments = listDocuments tenant None (Some ''WorkItem'') (Some i) s,
      dt_children = map (\<lambda>r. (wk_id r, wk_title r, wk_type r, wk_status r, wk_progress r))
        (filter (\<lambda>r. wk_tenant r = tenant \<and> wk_parent r = Some i) (w_items s))\<rparr>"

definition getItem :: "env \<Rightarrow> string \<Rightarrow> string \<Rightarrow> string \<Rightarrow> wdb \<Rightarrow> (item_view \<times> item_details option) res" where
  "getItem v tenant actor i s =
     rbind (load_item s tenant i) (\<lambda>r.
       if hasFullAccess s actor r then Inr (Full (enrichFull v r), Some (item_details_of tenant i s))
       else Inr (Summary (toSummary v r), None))"

subsection \<open>Update and schedule\<close>

text \<open>A patch: \<open>None\<close> is a field that is not given, \<open>Some None\<close> one that is set to null.\<close>

record work_patch =
  wp_title :: "string option"
  wp_description :: "string option option"
  wp_priority :: "string option"
  wp_type :: "string option"
  wp_wbs :: "string option option"
  wp_project :: "string option option"
  wp_planned :: "date_in option"
  wp_due :: "date_in option"
  wp_weight :: "rat option option"
  wp_estimate :: "int option option"
  wp_tags :: "string list option"
  wp_dims :: "json option"

definition patched :: "work_patch \<Rightarrow> work_row \<Rightarrow> work_row" where
  "patched p r =
     r\<lparr>wk_title := coalesce (wp_title p) (wk_title r),
       wk_description := coalesce (wp_description p) (wk_description r),
       wk_priority := coalesce (map_option to_upper (wp_priority p)) (wk_priority r),
       wk_type := coalesce (map_option to_upper (wp_type p)) (wk_type r),
       wk_wbs := coalesce (wp_wbs p) (wk_wbs r),
       wk_project := coalesce (wp_project p) (wk_project r),
       wk_planned := coalesce (map_option date_opt (wp_planned p)) (wk_planned r),
       wk_due := coalesce (map_option date_opt (wp_due p)) (wk_due r),
       wk_weight := coalesce (wp_weight p) (wk_weight r),
       wk_estimate := coalesce (wp_estimate p) (wk_estimate r),
       wk_tags := coalesce (wp_tags p) (wk_tags r),
       wk_dims := coalesce (wp_dims p) (wk_dims r)\<rparr>"

definition updateItem :: "env \<Rightarrow> string \<Rightarrow> string \<Rightarrow> string \<Rightarrow> work_patch \<Rightarrow> wdb \<Rightarrow> (item_full \<times> wdb) res" where
  "updateItem v tenant actor i p s =
     rbind (load_item s tenant i) (\<lambda>r.
     rbind (ensure (wp_type p = None \<or> to_upper (the (wp_type p)) \<in> set WORK_TYPES) (BadRequest ''invalid type'')) (\<lambda>_.
     rbind (ensure (wp_planned p \<noteq> Some Invalid \<and> wp_due p \<noteq> Some Invalid) TypeErr) (\<lambda>_.
       Inr (enrichFull v (patched p r), work_event tenant i ''updated'' actor (set_item i (patched p) s)))))"

text \<open>\<open>body.x !== undefined ? (body.x ? new Date(body.x) : null) : item.x\<close>\<close>

definition resched :: "date_in option \<Rightarrow> int option \<Rightarrow> date_in" where
  "resched given kept = (case given of Some d \<Rightarrow> d | None \<Rightarrow> (case kept of None \<Rightarrow> Absent | Some t \<Rightarrow> At t))"

definition after_date :: "date_in \<Rightarrow> date_in \<Rightarrow> bool" where
  "after_date a b = (case (a, b) of (At x, At y) \<Rightarrow> y < x | _ \<Rightarrow> False)"

definition as_date :: "int option \<Rightarrow> date_in" where
  "as_date t = (case t of None \<Rightarrow> Absent | Some x \<Rightarrow> At x)"

definition fs_deps :: "wdb \<Rightarrow> string \<Rightarrow> string \<Rightarrow> dependency list" where
  "fs_deps s tenant i =
     filter (\<lambda>d. dp_tenant d = tenant \<and> dp_type d = ''FS'' \<and> (dp_succ d = i \<or> dp_pred d = i)) (w_deps s)"

text \<open>One dependency of the loop: the predecessor's finish against the start, the finish against the successor's start.\<close>

definition fs_clash :: "wdb \<Rightarrow> string \<Rightarrow> string \<Rightarrow> date_in \<Rightarrow> date_in \<Rightarrow> dependency \<Rightarrow> bool" where
  "fs_clash s tenant i start due d \<longleftrightarrow>
     (dp_succ d = i \<and> (case item_by_id s tenant (dp_pred d) of None \<Rightarrow> False | Some q \<Rightarrow> after_date (as_date (wk_due q)) start)) \<or>
     (dp_pred d = i \<and> (case item_by_id s tenant (dp_succ d) of None \<Rightarrow> False | Some q \<Rightarrow> after_date due (as_date (wk_planned q))))"

definition rescheduleItem ::
  "env \<Rightarrow> string \<Rightarrow> string \<Rightarrow> string \<Rightarrow> date_in option \<Rightarrow> date_in option \<Rightarrow> wdb \<Rightarrow> (item_full \<times> wdb) res" where
  "rescheduleItem v tenant actor i planned dueAt s =
     rbind (load_item s tenant i) (\<lambda>r.
       let start = resched planned (wk_planned r); due = resched dueAt (wk_due r);
           f = (\<lambda>x. x\<lparr>wk_planned := date_opt start, wk_due := date_opt due\<rparr>)
       in rbind (ensure (\<not> after_date start due) (BadRequest ''invalid schedule: plannedStart is after dueAt'')) (\<lambda>_.
          rbind (ensure (\<not> list_ex (fs_clash s tenant i start due) (fs_deps s tenant i)) (BadRequest ''invalid schedule'')) (\<lambda>_.
          rbind (ensure (start \<noteq> Invalid \<and> due \<noteq> Invalid) TypeErr) (\<lambda>_.
            Inr (enrichFull v (f r), work_event tenant i ''rescheduled'' actor (set_item i f s))))))"

subsection \<open>Status and progress\<close>

definition status_change :: "env \<Rightarrow> string \<Rightarrow> work_row \<Rightarrow> work_row" where
  "status_change v to r =
     r\<lparr>wk_status := to,
       wk_actualStart := (if to = ''IN_PROGRESS'' \<and> wk_actualStart r = None then Some (now v) else wk_actualStart r),
       wk_progress := (if to = ''DONE'' then 100 else wk_progress r),
       wk_completed := (if to = ''DONE'' then Some (now v) else if wk_status r = ''DONE'' then None else wk_completed r)\<rparr>"

definition changeStatus :: "env \<Rightarrow> string \<Rightarrow> string \<Rightarrow> string \<Rightarrow> string option \<Rightarrow> wdb \<Rightarrow> (item_full \<times> wdb) res" where
  "changeStatus v tenant actor i to s =
     rbind (load_item s tenant i) (\<lambda>r.
       let target = to_upper (coalesce to '''') in
       rbind (ensure (target \<in> set work_states) (BadRequest ''invalid status'')) (\<lambda>_.
       rbind (ensure (isLegalStatusChange (wk_status r) target) (BadRequest ''Illegal status transition'')) (\<lambda>_.
         Inr (enrichFull v (status_change v target r),
              work_event tenant i ''status_changed'' actor (set_item i (status_change v target) s)))))"

text \<open>\<open>Math.max(0, Math.min(100, Math.round(Number(x))))\<close>; \<open>None\<close> is NaN.\<close>

definition percent_of :: "json \<Rightarrow> int option" where
  "percent_of j = (case to_num j of NaN \<Rightarrow> None | NegInf \<Rightarrow> Some 0 | PosInf \<Rightarrow> Some 100 | Fin x \<Rightarrow> Some (clamp (js_round x)))"

definition progress_change :: "env \<Rightarrow> int \<Rightarrow> work_row \<Rightarrow> work_row" where
  "progress_change v p r =
     (if p = 100 \<and> wk_status r \<notin> {''DONE'', ''CANCELLED''} \<and> isLegalStatusChange (wk_status r) ''DONE''
      then r\<lparr>wk_progress := p, wk_status := ''DONE'', wk_completed := Some (now v)\<rparr>
      else r\<lparr>wk_progress := p\<rparr>)"

definition setProgress :: "env \<Rightarrow> string \<Rightarrow> string \<Rightarrow> string \<Rightarrow> json \<Rightarrow> wdb \<Rightarrow> (item_full \<times> wdb) res" where
  "setProgress v tenant actor i j s =
     rbind (load_item s tenant i) (\<lambda>r.
       case percent_of j of
         None \<Rightarrow> Inl (BadRequest ''progressPercent must be a number 0..100'')
       | Some p \<Rightarrow> Inr (enrichFull v (progress_change v p r),
                        work_event tenant i ''progress'' actor (set_item i (progress_change v p) s)))"

subsection \<open>Assignment\<close>

record assign_in =
  as_assignees :: "string list option"
  as_owner :: "string option"
  as_type :: "string option"
  as_position :: "string option"
  as_orgUnit :: "string option"
  as_group :: "string option"
  as_role :: "string option"

definition multiple :: "selector_type \<Rightarrow> selector" where
  "multiple t = (blank_selector t)\<lparr>s_choice := Some ''MULTIPLE''\<rparr>"

definition item_selector :: "assign_in \<Rightarrow> selector" where
  "item_selector b =
     (let t = to_upper (the (as_type b)) in
      if t = ''POSITION'' then (multiple SPosition)\<lparr>s_position := as_position b\<rparr>
      else if t = ''ORG_UNIT_HEAD'' then (multiple SOrgUnitHead)\<lparr>s_orgUnit := as_orgUnit b\<rparr>
      else if t = ''GROUP'' then (multiple SGroup)\<lparr>s_group := as_group b\<rparr>
      else (multiple SRole)\<lparr>s_role := as_role b\<rparr>)"

definition users_of :: "idb \<Rightarrow> candidate list \<Rightarrow> string list" where
  "users_of d cs = map (\<lambda>c. coalesce (userIdForPerson d (cd_person c)) (cd_person c)) cs"

definition assignItem ::
  "(string \<Rightarrow> string \<Rightarrow> bool) \<Rightarrow> env \<Rightarrow> string \<Rightarrow> string \<Rightarrow> string \<Rightarrow> assign_in \<Rightarrow> wdb \<Rightarrow> (item_full \<times> wdb) res" where
  "assignItem le v tenant actor i b s =
     rbind (load_item s tenant i) (\<lambda>r.
       let given = coalesce (as_assignees b) [];
           picked = truthy_str (as_type b);
           snap = snapshot le tenant actor (''work-item:'' @ i) ''work-item-assign'' (item_selector b) s;
           s1 = (if picked then snd snap else s);
           who = (if picked then to_set (given @ users_of (o_org s) (re_candidates (fst snap))) else given);
           f = (\<lambda>x. x\<lparr>wk_assignees := who, wk_owner := coalesce_opt (as_owner b) (wk_owner r)\<rparr>)
       in rbind (ensure (picked \<longrightarrow> who \<noteq> []) (BadRequest ''assign: selector resolved to 0 assignees'')) (\<lambda>_.
            Inr (enrichFull v (f r), work_event tenant i ''assigned'' actor (set_item i f s1))))"

subsection \<open>Comments, checklist, attachments\<close>

definition addItemComment :: "env \<Rightarrow> string \<Rightarrow> string \<Rightarrow> string \<Rightarrow> string option \<Rightarrow> wdb \<Rightarrow> (work_comment \<times> wdb) res" where
  "addItemComment v tenant actor i body s =
     rbind (load_item s tenant i) (\<lambda>_.
     rbind (ensure (truthy_str body) (BadRequest ''body is required'')) (\<lambda>_.
       let c = \<lparr>wc_id = oid v s, wc_tenant = tenant, wc_item = i, wc_author = actor, wc_body = the body\<rparr>
       in Inr (c, work_event tenant i ''comment'' actor (s\<lparr>w_comments := w_comments s @ [c], o_seq := Suc (o_seq s)\<rparr>))))"

definition addChecklistItem ::
  "env \<Rightarrow> string \<Rightarrow> string \<Rightarrow> string \<Rightarrow> string option \<Rightarrow> int option \<Rightarrow> wdb \<Rightarrow> (work_check \<times> wdb) res" where
  "addChecklistItem v tenant actor i label order s =
     rbind (load_item s tenant i) (\<lambda>_.
     rbind (ensure (truthy_str label) (BadRequest ''label is required'')) (\<lambda>_.
       let c = \<lparr>ck_id = oid v s, ck_tenant = tenant, ck_item = i, ck_label = the label, ck_done = False,
                ck_doneBy = None, ck_doneAt = None, ck_order = coalesce order 0\<rparr>
       in Inr (c, work_event tenant i ''checklist_added'' actor (s\<lparr>w_checks := w_checks s @ [c], o_seq := Suc (o_seq s)\<rparr>))))"

definition toggleChecklistItem ::
  "env \<Rightarrow> string \<Rightarrow> string \<Rightarrow> string \<Rightarrow> string \<Rightarrow> bool \<Rightarrow> wdb \<Rightarrow> (work_check \<times> wdb) res" where
  "toggleChecklistItem v tenant actor i k done s =
     rbind (load_item s tenant i) (\<lambda>_.
       case tfind (\<lambda>c. ck_id c = k \<and> ck_tenant c = tenant \<and> ck_item c = i) (w_checks s) of
         None \<Rightarrow> Inl (NotFound ''checklist item not found'')
       | Some c \<Rightarrow>
           (let f = (\<lambda>x. x\<lparr>ck_done := done, ck_doneBy := (if done then Some actor else None),
                           ck_doneAt := (if done then Some (now v) else None)\<rparr>)
            in Inr (f c, work_event tenant i ''checklist_toggled'' actor
                 (s\<lparr>w_checks := tupd (\<lambda>x. ck_id x = k) f (w_checks s)\<rparr>))))"

definition item_doc :: "string \<Rightarrow> work_row \<Rightarrow> attach_in \<Rightarrow> doc_in" where
  "item_doc i r b =
     \<lparr>di_kind = Some ''ATTACHMENT'', di_title = coalesce (at_title b) (''Attachment '' @ em_dash @ '' '' @ wk_title r),
      di_subjectType = Some ''WorkItem'', di_subjectId = Some i, di_tags = [''work-item'', ''attachment''],
      di_content = \<lparr>ci_text = (if truthy_str (at_base64 b) then None
                              else Some (coalesce (at_content b) (''Attachment for '' @ wk_title r))),
                   ci_base64 = (if truthy_str (at_base64 b) then at_base64 b else None),
                   ci_mime = Some (coalesce (at_mime b) ''text/plain'')\<rparr>\<rparr>"

definition attachItem ::
  "codec \<Rightarrow> env \<Rightarrow> string \<Rightarrow> string \<Rightarrow> string \<Rightarrow> attach_in \<Rightarrow> wdb \<Rightarrow> (doc_version \<times> wdb) res" where
  "attachItem c v tenant actor i b s =
     rbind (load_item s tenant i) (\<lambda>r.
     rbind (createDocument c v tenant (Some actor) (item_doc i r b) s) (\<lambda>(d, row, s1).
       Inr (row, work_event tenant i ''attachment_added'' actor s1)))"

end
