(* ===== verification/Work_Projects.thy ===== *)
theory Work_Projects
  imports Work_Items
begin

section \<open>Projects\<close>

text \<open>
  xhub-api/src/work/projects/work-projects.service.ts: the project aggregate over the work items
  (progress roll-up, health, baselines), dependencies with their cycle guard, project roles and the
  shares that decide who sees how much.
\<close>

subsection \<open>Rows\<close>

definition project_event :: "string \<Rightarrow> string \<Rightarrow> string \<Rightarrow> string \<Rightarrow> wdb \<Rightarrow> wdb" where
  "project_event tenant i ty actor s =
     log_audit tenant actor i (''work.project.'' @ ty)
       (s\<lparr>w_pevents := w_pevents s @ [\<lparr>wl_tenant = tenant, wl_row = i, wl_type = ty, wl_actor = actor\<rparr>]\<rparr>)"

definition load_project :: "wdb \<Rightarrow> string \<Rightarrow> string \<Rightarrow> project res" where
  "load_project s tenant i =
     (case tfind (\<lambda>p. pj_id p = i \<and> pj_tenant p = tenant) (w_projects s) of
        None \<Rightarrow> Inl (NotFound ''project not found'') | Some p \<Rightarrow> Inr p)"

definition set_project :: "string \<Rightarrow> (project \<Rightarrow> project) \<Rightarrow> wdb \<Rightarrow> wdb" where
  "set_project i f s = s\<lparr>w_projects := tupd (\<lambda>p. pj_id p = i) f (w_projects s)\<rparr>"

definition PROJECT_KINDS :: "string list" where
  "PROJECT_KINDS = [''INTERNAL'', ''IMPLEMENTATION'', ''PRODUCT'', ''CUSTOMER_SUCCESS'', ''OPERATIONS'', ''OTHER'']"
definition PROJECT_STATUSES :: "string list" where
  "PROJECT_STATUSES = [''DRAFT'', ''PLANNED'', ''ACTIVE'', ''ON_HOLD'', ''AT_RISK'', ''COMPLETED'', ''CANCELLED'']"
definition DEP_TYPES :: "string list" where
  "DEP_TYPES = [''FS'', ''SS'', ''FF'', ''SF'']"
definition PROJECT_ROLES :: "string list" where
  "PROJECT_ROLES = [''PROJECT_MANAGER'', ''SPONSOR'', ''DELIVERY_LEAD'', ''MEMBER'', ''OBSERVER'', ''DATA_STEWARD'']"
definition SHARE_SCOPES :: "string list" where
  "SHARE_SCOPES = [''PROJECT'', ''WORK_ITEM'', ''DEPENDENCY'']"

subsection \<open>Creation and update\<close>

record project_in =
  pi_code :: string
  pi_name :: string
  pi_kind :: "string option"
  pi_status :: "string option"
  pi_method :: "string option"
  pi_progress :: "int option"
  pi_plannedStart :: date_in
  pi_plannedFinish :: date_in
  pi_forecastStart :: date_in
  pi_forecastFinish :: date_in
  pi_owner :: "string option"
  pi_manager :: "string option"
  pi_sponsor :: "string option"
  pi_tags :: "string list option"
  pi_dims :: json

definition new_project :: "env \<Rightarrow> string \<Rightarrow> string \<Rightarrow> project_in \<Rightarrow> string \<Rightarrow> string \<Rightarrow> string \<Rightarrow> wdb \<Rightarrow> project" where
  "new_project v tenant actor b kind st m s =
     \<lparr>pj_id = oid v s, pj_tenant = tenant, pj_code = pi_code b, pj_name = pi_name b, pj_kind = kind, pj_status = st,
      pj_health = ''UNKNOWN'', pj_method = m,
      pj_progress = (if m = ''MANUAL'' then clamp (coalesce (pi_progress b) 0) else 0),
      pj_plannedStart = date_opt (pi_plannedStart b), pj_plannedFinish = date_opt (pi_plannedFinish b),
      pj_forecastStart = date_opt (pi_forecastStart b), pj_forecastFinish = date_opt (pi_forecastFinish b),
      pj_actualStart = None, pj_actualFinish = None, pj_owner = Some (coalesce (pi_owner b) actor),
      pj_manager = pi_manager b, pj_sponsor = pi_sponsor b, pj_baseline = None, pj_tags = coalesce (pi_tags b) [],
      pj_dims = jcoalesce (pi_dims b) (JObj []), pj_by = actor, pj_created = now v\<rparr>"

definition createProject :: "env \<Rightarrow> string \<Rightarrow> string \<Rightarrow> project_in \<Rightarrow> wdb \<Rightarrow> (project \<times> wdb) res" where
  "createProject v tenant actor b s =
     (let kind = to_upper (coalesce (pi_kind b) ''INTERNAL''); st = to_upper (coalesce (pi_status b) ''DRAFT'');
          m = to_upper (coalesce (pi_method b) ''TASK_WEIGHTED'') in
      rbind (ensure (pi_code b \<noteq> []) (BadRequest ''code is required'')) (\<lambda>_.
      rbind (ensure (pi_name b \<noteq> []) (BadRequest ''name is required'')) (\<lambda>_.
      rbind (ensure (kind \<in> set PROJECT_KINDS) (BadRequest ''invalid projectKind'')) (\<lambda>_.
      rbind (ensure (st \<in> set PROJECT_STATUSES) (BadRequest ''invalid status'')) (\<lambda>_.
      rbind (ensure (m \<in> set PROGRESS_METHODS) (BadRequest ''invalid progressMethod'')) (\<lambda>_.
      rbind (ensure (\<forall>p \<in> set (w_projects s). \<not> (pj_tenant p = tenant \<and> pj_code p = pi_code b))
               (Conflict ''project code already exists in tenant'')) (\<lambda>_.
      rbind (ensure (Invalid \<notin> {pi_plannedStart b, pi_plannedFinish b, pi_forecastStart b, pi_forecastFinish b}) TypeErr) (\<lambda>_.
        let p = new_project v tenant actor b kind st m s
        in Inr (p, project_event tenant (pj_id p) ''created'' actor
             (s\<lparr>w_projects := w_projects s @ [p], o_seq := Suc (o_seq s)\<rparr>))))))))))"

record project_patch =
  pp_name :: "string option"
  pp_kind :: "string option"
  pp_status :: "string option"
  pp_method :: "string option"
  pp_progress :: "json option"
  pp_plannedStart :: "date_in option"
  pp_plannedFinish :: "date_in option"
  pp_forecastStart :: "date_in option"
  pp_forecastFinish :: "date_in option"
  pp_actualStart :: "date_in option"
  pp_actualFinish :: "date_in option"
  pp_owner :: "string option option"
  pp_manager :: "string option option"
  pp_sponsor :: "string option option"
  pp_tags :: "string list option"
  pp_dims :: "json option"

text \<open>\<open>Math.round(Number(x) || 0)\<close> within the bounds; the lists of allowed values of the three enumerations.\<close>

definition patched_project :: "project_patch \<Rightarrow> project \<Rightarrow> project" where
  "patched_project b p =
     (let date = (\<lambda>d old. coalesce (map_option date_opt d) old); up = (\<lambda>x old. coalesce (map_option to_upper x) old) in
      p\<lparr>pj_name := coalesce (pp_name b) (pj_name p), pj_kind := up (pp_kind b) (pj_kind p),
        pj_status := up (pp_status b) (pj_status p), pj_method := up (pp_method b) (pj_method p),
        pj_progress := (case pp_progress b of None \<Rightarrow> pj_progress p | Some j \<Rightarrow> coalesce (percent_of j) 0),
        pj_plannedStart := date (pp_plannedStart b) (pj_plannedStart p),
        pj_plannedFinish := date (pp_plannedFinish b) (pj_plannedFinish p),
        pj_forecastStart := date (pp_forecastStart b) (pj_forecastStart p),
        pj_forecastFinish := date (pp_forecastFinish b) (pj_forecastFinish p),
        pj_actualStart := date (pp_actualStart b) (pj_actualStart p),
        pj_actualFinish := date (pp_actualFinish b) (pj_actualFinish p),
        pj_owner := coalesce (pp_owner b) (pj_owner p), pj_manager := coalesce (pp_manager b) (pj_manager p),
        pj_sponsor := coalesce (pp_sponsor b) (pj_sponsor p), pj_tags := coalesce (pp_tags b) (pj_tags p),
        pj_dims := coalesce (pp_dims b) (pj_dims p)\<rparr>)"

definition allowed :: "string option \<Rightarrow> string list \<Rightarrow> bool" where
  "allowed x values \<longleftrightarrow> x = None \<or> to_upper (the x) \<in> set values"

definition updateProject :: "string \<Rightarrow> string \<Rightarrow> string \<Rightarrow> project_patch \<Rightarrow> wdb \<Rightarrow> (project \<times> wdb) res" where
  "updateProject tenant actor i b s =
     rbind (load_project s tenant i) (\<lambda>p.
     rbind (ensure (allowed (pp_kind b) PROJECT_KINDS) (BadRequest ''invalid projectKind'')) (\<lambda>_.
     rbind (ensure (allowed (pp_status b) PROJECT_STATUSES) (BadRequest ''invalid status'')) (\<lambda>_.
     rbind (ensure (allowed (pp_method b) PROGRESS_METHODS) (BadRequest ''invalid progressMethod'')) (\<lambda>_.
     rbind (ensure (Some Invalid \<notin> {pp_plannedStart b, pp_plannedFinish b, pp_forecastStart b, pp_forecastFinish b,
                                     pp_actualStart b, pp_actualFinish b}) TypeErr) (\<lambda>_.
       Inr (patched_project b p, project_event tenant i ''updated'' actor (set_project i (patched_project b) s)))))))"

record project_filter =
  pf_status :: "string option"
  pf_kind :: "string option"
  pf_health :: "string option"
  pf_q :: "string option"
  pf_tags :: "string list"
  pf_dims :: "(string \<times> string) list"

definition project_matches :: "string \<Rightarrow> project_filter \<Rightarrow> project \<Rightarrow> bool" where
  "project_matches tenant f p \<longleftrightarrow> pj_tenant p = tenant \<and>
     (truthy_str (pf_status f) \<longrightarrow> pj_status p = to_upper (the (pf_status f))) \<and>
     (truthy_str (pf_kind f) \<longrightarrow> pj_kind p = to_upper (the (pf_kind f))) \<and>
     (truthy_str (pf_health f) \<longrightarrow> pj_health p = to_upper (the (pf_health f))) \<and>
     (truthy_str (pf_q f) \<longrightarrow> includes_str (to_lower (the (pf_q f))) (to_lower (pj_name p)) \<or>
        includes_str (to_lower (the (pf_q f))) (to_lower (pj_code p))) \<and>
     set (pf_tags f) \<subseteq> set (pj_tags p) \<and> dims_match (pf_dims f) (pj_dims p)"

definition listProjects ::
  "string \<Rightarrow> project_filter \<Rightarrow> int option \<Rightarrow> int option \<Rightarrow> wdb \<Rightarrow> project list \<times> nat \<times> nat \<times> nat" where
  "listProjects tenant f page pageSize s =
     (let rows = sort_key (\<lambda>p. - pj_created p) (filter (project_matches tenant f) (w_projects s));
          n = page_no page; sz = page_size 200 50 pageSize
      in (page_slice n sz rows, length rows, n, sz))"

subsection \<open>Roll-up\<close>

text \<open>
  \<open>orderBy [wbsCode asc, createdAt asc]\<close>: codes in ascending order with missing codes last; the
  stable sort uses the number of smaller codes as its key.
\<close>

fun code_less :: "string option \<Rightarrow> string option \<Rightarrow> bool" where
  "code_less None _ = False"
| "code_less (Some a) None = True"
| "code_less (Some a) (Some b) = str_less a b"

definition projectItems :: "wdb \<Rightarrow> string \<Rightarrow> string \<Rightarrow> work_row list" where
  "projectItems s tenant p =
     (let rows = sort_key wk_created (filter (\<lambda>r. wk_tenant r = tenant \<and> wk_project r = Some p) (w_items s))
      in sort_key (\<lambda>r. length (filter (\<lambda>q. code_less (wk_wbs q) (wk_wbs r)) rows)) rows)"

definition toProgressInput :: "work_row \<Rightarrow> progress_in" where
  "toProgressInput r = \<lparr>pg_type = wk_type r, pg_status = wk_status r, pg_percent = wk_progress r, pg_weight = wk_weight r\<rparr>"

definition children_of :: "work_row list \<Rightarrow> string \<Rightarrow> work_row list" where
  "children_of items k = filter (\<lambda>r. coalesce (wk_parent r) ''__root__'' = k) items"

definition rolled :: "project \<Rightarrow> work_row list \<Rightarrow> work_row \<Rightarrow> int" where
  "rolled p items r =
     (let kids = children_of items (wk_id r)
      in if kids \<noteq> [] then computeProgress (pj_method p) (map toProgressInput kids) (wk_progress r) else wk_progress r)"

definition project_progress :: "project \<Rightarrow> work_row list \<Rightarrow> int" where
  "project_progress p items =
     (if pj_method p = ''MANUAL'' then pj_progress p
      else computeProgress (pj_method p)
        (map (\<lambda>r. (toProgressInput r)\<lparr>pg_percent := rolled p items r\<rparr>) (children_of items ''__root__'')) 0)"

definition current_baseline :: "wdb \<Rightarrow> string \<Rightarrow> project \<Rightarrow> baseline option" where
  "current_baseline s tenant p =
     (case pj_baseline p of
        None \<Rightarrow> None
      | Some n \<Rightarrow> if n = 0 then None
                  else tfind (\<lambda>b. bl_tenant b = tenant \<and> bl_project b = pj_id p \<and> bl_version b = n) (w_baselines s))"

definition later_due :: "baseline_item \<Rightarrow> int option \<Rightarrow> int option" where
  "later_due b acc =
     (case bi_due b of None \<Rightarrow> acc
      | Some d \<Rightarrow> (case acc of None \<Rightarrow> Some d | Some x \<Rightarrow> if x < d then Some d else acc))"

definition baseline_finish :: "wdb \<Rightarrow> string \<Rightarrow> baseline \<Rightarrow> int option" where
  "baseline_finish s tenant b =
     fold later_due (filter (\<lambda>i. bi_tenant i = tenant \<and> bi_baseline i = bl_id b) (w_bitems s)) None"

definition overdue_items :: "env \<Rightarrow> work_row list \<Rightarrow> work_row list" where
  "overdue_items v items = filter (item_late v) items"

definition overdue_milestones :: "env \<Rightarrow> work_row list \<Rightarrow> work_row list" where
  "overdue_milestones v items = filter (\<lambda>r. wk_type r = ''MILESTONE'' \<and> item_late v r) items"

definition blocked_high :: "work_row list \<Rightarrow> work_row list" where
  "blocked_high items = filter (\<lambda>r. wk_status r = ''BLOCKED'' \<and> wk_priority r \<in> {''HIGH'', ''URGENT''}) items"

definition project_health :: "env \<Rightarrow> wdb \<Rightarrow> string \<Rightarrow> project \<Rightarrow> work_row list \<Rightarrow> string" where
  "project_health v s tenant p items =
     (let bl = current_baseline s tenant p in
      computeHealth
        \<lparr>hi_status = pj_status p, hi_hasBaseline = (bl \<noteq> None),
         hi_baselineFinish = (case bl of None \<Rightarrow> None | Some b \<Rightarrow> baseline_finish s tenant b),
         hi_forecastFinish = pj_forecastFinish p, hi_plannedFinish = pj_plannedFinish p,
         hi_overdueItems = length (overdue_items v items), hi_overdueMilestones = length (overdue_milestones v items),
         hi_blockedHigh = length (blocked_high items)\<rparr>)"

definition recomputeProject :: "env \<Rightarrow> string \<Rightarrow> string \<Rightarrow> wdb \<Rightarrow> (project \<times> wdb) res" where
  "recomputeProject v tenant i s =
     rbind (load_project s tenant i) (\<lambda>p.
       let items = projectItems s tenant i;
           f = (\<lambda>r. r\<lparr>pj_progress := project_progress p items, pj_health := project_health v s tenant p items\<rparr>)
       in Inr (f p, set_project i f s))"

record attach_items_in =
  ai_ids :: "string list"
  ai_parent :: "string option option"
  ai_wbs :: "string option option"

definition attachItems :: "env \<Rightarrow> string \<Rightarrow> string \<Rightarrow> string \<Rightarrow> attach_items_in \<Rightarrow> wdb \<Rightarrow> (nat \<times> wdb) res" where
  "attachItems v tenant actor i b s =
     rbind (load_project s tenant i) (\<lambda>_.
     rbind (ensure (ai_ids b \<noteq> []) (BadRequest ''workItemIds is required'')) (\<lambda>_.
     rbind (ensure (truthy_str (coalesce (ai_parent b) None) \<longrightarrow> item_by_id s tenant (the (the (ai_parent b))) \<noteq> None)
              (BadRequest ''parentId not found'')) (\<lambda>_.
       let hit = (\<lambda>r. wk_tenant r = tenant \<and> wk_id r \<in> set (ai_ids b));
           f = (\<lambda>r. r\<lparr>wk_project := Some i, wk_parent := coalesce (ai_parent b) (wk_parent r), wk_wbs := coalesce (ai_wbs b) (wk_wbs r)\<rparr>);
           s1 = project_event tenant i ''items_attached'' actor (s\<lparr>w_items := tupd hit f (w_items s)\<rparr>)
       in rbind (recomputeProject v tenant i s1) (\<lambda>(_, s2). Inr (length (filter hit (w_items s)), s2)))))"

subsection \<open>Who sees how much\<close>

datatype access = FULL | SUMMARY | NONE

definition user_roles :: "wdb \<Rightarrow> string \<Rightarrow> string \<Rightarrow> string \<Rightarrow> role_assignment list" where
  "user_roles s tenant p actor =
     filter (\<lambda>r. ra_tenant r = tenant \<and> ra_project r = p \<and> ra_subjectType r = ''USER'' \<and> ra_subject r = actor) (w_roles s)"

definition user_share :: "wdb \<Rightarrow> string \<Rightarrow> string \<Rightarrow> string \<Rightarrow> coordination_share option" where
  "user_share s tenant p actor =
     tfind (\<lambda>c. cs_tenant c = tenant \<and> cs_scope c = ''PROJECT'' \<and> cs_scopeId c = p \<and> cs_audienceType c = ''USER'' \<and>
        cs_audience c = Some actor) (w_shares s)"

definition resolveAccess :: "wdb \<Rightarrow> string \<Rightarrow> string \<Rightarrow> project \<Rightarrow> access" where
  "resolveAccess s tenant actor p =
     (if actor = [] then NONE
      else if Some actor \<in> {pj_owner p, pj_manager p, pj_sponsor p, Some (pj_by p)} then FULL
      else if can (o_org s) actor ''work.view.full'' None = Granted then FULL
      else if \<exists>r \<in> set (user_roles s tenant (pj_id p) actor). ra_tier r = ''FULL'' then FULL
      else (case user_share s tenant (pj_id p) actor of
              Some c \<Rightarrow> if cs_tier c = ''FULL'' then FULL else SUMMARY
            | None \<Rightarrow> if user_roles s tenant (pj_id p) actor \<noteq> [] then SUMMARY
                      else if can (o_org s) actor ''work.view.summary'' None = Granted then SUMMARY else NONE))"

record project_summary =
  ps_id :: string
  ps_code :: string
  ps_name :: string
  ps_status :: string
  ps_health :: string
  ps_progress :: int
  ps_plannedStart :: "int option"
  ps_plannedFinish :: "int option"
  ps_forecastFinish :: "int option"

definition projectSummary :: "project \<Rightarrow> int \<Rightarrow> project_summary" where
  "projectSummary p n =
     \<lparr>ps_id = pj_id p, ps_code = pj_code p, ps_name = pj_name p, ps_status = pj_status p, ps_health = pj_health p,
      ps_progress = n, ps_plannedStart = pj_plannedStart p, ps_plannedFinish = pj_plannedFinish p,
      ps_forecastFinish = pj_forecastFinish p\<rparr>"

definition bar :: "env \<Rightarrow> project \<Rightarrow> work_row list \<Rightarrow> work_row \<Rightarrow> item_summary" where
  "bar v p items r = summary_with v r (rolled p items r)"

definition top_level :: "work_row list \<Rightarrow> work_row list" where
  "top_level items = filter (\<lambda>r. \<not> truthy_str (wk_parent r)) items"

definition milestones :: "work_row list \<Rightarrow> work_row list" where
  "milestones items = filter (\<lambda>r. wk_type r = ''MILESTONE'') items"

definition listDependencies :: "wdb \<Rightarrow> string \<Rightarrow> string option \<Rightarrow> dependency list" where
  "listDependencies s tenant p =
     (if truthy_str p
      then (let ids = map wk_id (filter (\<lambda>r. wk_tenant r = tenant \<and> wk_project r = p) (w_items s))
            in filter (\<lambda>d. dp_tenant d = tenant \<and> (dp_pred d \<in> set ids \<or> dp_succ d \<in> set ids)) (w_deps s))
      else filter (\<lambda>d. dp_tenant d = tenant) (w_deps s))"

definition listBaselines :: "string \<Rightarrow> string \<Rightarrow> wdb \<Rightarrow> baseline list res" where
  "listBaselines tenant i s =
     rbind (load_project s tenant i) (\<lambda>_.
       Inr (rev (sort_key bl_version (filter (\<lambda>b. bl_tenant b = tenant \<and> bl_project b = i) (w_baselines s)))))"

definition listRoles :: "string \<Rightarrow> string \<Rightarrow> wdb \<Rightarrow> role_assignment list res" where
  "listRoles tenant i s =
     rbind (load_project s tenant i) (\<lambda>_. Inr (filter (\<lambda>r. ra_tenant r = tenant \<and> ra_project r = i) (w_roles s)))"

record full_page =
  fp_project :: project
  fp_computed :: int
  fp_items :: "(work_row \<times> int \<times> bool \<times> bool) list"
  fp_milestones :: "work_row list"
  fp_roles :: "role_assignment list"
  fp_baselines :: "baseline list"
  fp_deps :: "dependency list"

datatype project_page = SummaryPage project_summary "item_summary list" "item_summary list" | FullPage full_page

definition getProject :: "env \<Rightarrow> string \<Rightarrow> string \<Rightarrow> string \<Rightarrow> wdb \<Rightarrow> project_page res" where
  "getProject v tenant actor i s =
     rbind (load_project s tenant i) (\<lambda>p.
       let access = resolveAccess s tenant actor p; items = projectItems s tenant i; total = project_progress p items in
       rbind (ensure (access \<noteq> NONE) (NotFound ''project not found'')) (\<lambda>_.
       if access = SUMMARY then
         Inr (SummaryPage (projectSummary p total) (map (bar v p items) (top_level items)) (map (bar v p items) (milestones items)))
       else
         rbind (listRoles tenant i s) (\<lambda>roles. rbind (listBaselines tenant i s) (\<lambda>bls.
         Inr (FullPage
           \<lparr>fp_project = p, fp_computed = total,
            fp_items = map (\<lambda>r. (r, rolled p items r, item_late v r, wk_type r = ''MILESTONE'')) items,
            fp_milestones = milestones items, fp_roles = roles, fp_baselines = bls,
            fp_deps = listDependencies s tenant (Some i)\<rparr>)))))"

definition coordinationGantt ::
  "env \<Rightarrow> string \<Rightarrow> string \<Rightarrow> string \<Rightarrow> wdb \<Rightarrow> (access \<times> project_summary \<times> item_summary list) res" where
  "coordinationGantt v tenant actor i s =
     rbind (load_project s tenant i) (\<lambda>p.
       let access = resolveAccess s tenant actor p; items = projectItems s tenant i in
       rbind (ensure (access \<noteq> NONE) (NotFound ''project not found'')) (\<lambda>_.
         Inr (access, projectSummary p (project_progress p items), map (bar v p items) (top_level items))))"

subsection \<open>The portfolio\<close>

text \<open>Counters of a JavaScript object, with its initial keys first.\<close>

definition tally :: "string list \<Rightarrow> string list \<Rightarrow> (string \<times> nat) list" where
  "tally keys xs = map (\<lambda>k. (k, count_list xs k)) (to_set (keys @ xs))"

record portfolio_row =
  pr_id :: string
  pr_code :: string
  pr_name :: string
  pr_status :: string
  pr_kind :: string
  pr_health :: string
  pr_progress :: int
  pr_items :: nat
  pr_overdue :: nat
  pr_blocked :: nat
  pr_milestones :: nat
  pr_overdueMilestones :: nat
  pr_highRisk :: nat
  pr_plannedFinish :: "int option"
  pr_forecastFinish :: "int option"

record portfolio_totals =
  pt_projects :: nat
  pt_active :: nat
  pt_byHealth :: "(string \<times> nat) list"
  pt_byStatus :: "(string \<times> nat) list"
  pt_overdue :: nat
  pt_blocked :: nat
  pt_overdueMilestones :: nat
  pt_highRisk :: nat

definition portfolio_row_of :: "env \<Rightarrow> wdb \<Rightarrow> string \<Rightarrow> project \<Rightarrow> portfolio_row" where
  "portfolio_row_of v s tenant p =
     (let items = projectItems s tenant (pj_id p) in
      \<lparr>pr_id = pj_id p, pr_code = pj_code p, pr_name = pj_name p, pr_status = pj_status p, pr_kind = pj_kind p,
       pr_health = project_health v s tenant p items, pr_progress = project_progress p items,
       pr_items = length items, pr_overdue = length (overdue_items v items),
       pr_blocked = length (filter (\<lambda>r. wk_status r = ''BLOCKED'') items), pr_milestones = length (milestones items),
       pr_overdueMilestones = length (overdue_milestones v items), pr_highRisk = length (blocked_high items),
       pr_plannedFinish = pj_plannedFinish p, pr_forecastFinish = pj_forecastFinish p\<rparr>)"

definition portfolio ::
  "env \<Rightarrow> string \<Rightarrow> string option \<Rightarrow> string option \<Rightarrow> wdb \<Rightarrow> portfolio_totals \<times> portfolio_row list" where
  "portfolio v tenant status kind s =
     (let ps = sort_key (\<lambda>p. - pj_created p) (filter (\<lambda>p. pj_tenant p = tenant \<and>
                 (truthy_str status \<longrightarrow> pj_status p = to_upper (the status)) \<and>
                 (truthy_str kind \<longrightarrow> pj_kind p = to_upper (the kind))) (w_projects s));
          rows = map (portfolio_row_of v s tenant) ps
      in (\<lparr>pt_projects = length ps, pt_active = count_list (map pr_status rows) ''ACTIVE'',
           pt_byHealth = tally [''GREEN'', ''YELLOW'', ''RED'', ''UNKNOWN''] (map pr_health rows),
           pt_byStatus = tally [] (map pr_status rows), pt_overdue = sum_list (map pr_overdue rows),
           pt_blocked = sum_list (map pr_blocked rows), pt_overdueMilestones = sum_list (map pr_overdueMilestones rows),
           pt_highRisk = sum_list (map pr_highRisk rows)\<rparr>, rows))"

subsection \<open>Dependencies\<close>

type_synonym edge_list = "(string \<times> string) list"

definition dep_edges :: "wdb \<Rightarrow> string \<Rightarrow> edge_list" where
  "dep_edges s tenant = map (\<lambda>d. (dp_pred d, dp_succ d)) (filter (\<lambda>d. dp_tenant d = tenant) (w_deps s))"

definition nexts :: "edge_list \<Rightarrow> string \<Rightarrow> string list" where
  "nexts es n = map snd (filter (\<lambda>e. fst e = n) es)"

text \<open>The breadth-first search of \<open>wouldCycle\<close>: the queue, the nodes seen so far, the node looked for.\<close>

function search :: "edge_list \<Rightarrow> string \<Rightarrow> string list \<Rightarrow> string list \<Rightarrow> bool" where
  "search es goal seen [] = False"
| "search es goal seen (n # q) =
     (if n = goal then True
      else if n \<in> set seen then search es goal seen q
      else search es goal (n # seen) (q @ nexts es n))"
  by pat_completeness auto

lemma nexts_sources: "n \<notin> set (map fst es) \<Longrightarrow> nexts es n = []"
  by (auto simp: nexts_def filter_empty_conv)

termination search
proof (relation "measures [\<lambda>(es, goal, seen, q). card (set (map fst es) - set seen), \<lambda>(es, goal, seen, q). length q]", goal_cases)
  case (3 es goal seen n q)
  show ?case
  proof (cases "n \<in> set (map fst es)")
    case True
    with 3 have "set (map fst es) - set (n # seen) \<subset> set (map fst es) - set seen" by auto
    from psubset_card_mono [OF _ this] show ?thesis by simp
  next
    case False
    then have "set (map fst es) - insert n (set seen) = set (map fst es) - set seen" by auto
    with nexts_sources [OF False] show ?thesis by simp
  qed
qed simp_all

definition wouldCycle :: "wdb \<Rightarrow> string \<Rightarrow> string \<Rightarrow> string \<Rightarrow> bool" where
  "wouldCycle s tenant pred succ = search (dep_edges s tenant) pred [] [succ]"

record dep_in =
  di_pred :: "string option"
  di_succ :: "string option"
  di_type :: "string option"
  di_lag :: "int option"

definition addDependency :: "env \<Rightarrow> string \<Rightarrow> dep_in \<Rightarrow> wdb \<Rightarrow> (dependency \<times> wdb) res" where
  "addDependency v tenant b s =
     (let a = coalesce (di_pred b) ''''; z = coalesce (di_succ b) ''''; ty = to_upper (coalesce (di_type b) ''FS'') in
      rbind (ensure (a \<noteq> [] \<and> z \<noteq> []) (BadRequest ''predecessorId and successorId are required'')) (\<lambda>_.
      rbind (ensure (a \<noteq> z) (BadRequest ''self-dependency is not allowed'')) (\<lambda>_.
      rbind (ensure (ty \<in> set DEP_TYPES) (BadRequest ''invalid dependency type'')) (\<lambda>_.
      rbind (ensure (item_by_id s tenant a \<noteq> None) (BadRequest ''predecessor not found'')) (\<lambda>_.
      rbind (ensure (item_by_id s tenant z \<noteq> None) (BadRequest ''successor not found'')) (\<lambda>_.
      rbind (ensure (\<not> wouldCycle s tenant a z) (Conflict ''dependency rejected: would create a cycle'')) (\<lambda>_.
      rbind (ensure (\<forall>d \<in> set (w_deps s). \<not> (dp_tenant d = tenant \<and> dp_pred d = a \<and> dp_succ d = z \<and> dp_type d = ty))
               (Conflict ''dependency already exists'')) (\<lambda>_.
        let d = \<lparr>dp_id = oid v s, dp_tenant = tenant, dp_pred = a, dp_succ = z, dp_type = ty, dp_lag = coalesce (di_lag b) 0\<rparr>
        in Inr (d, s\<lparr>w_deps := w_deps s @ [d], o_seq := Suc (o_seq s)\<rparr>)))))))))"

definition removeDependency :: "string \<Rightarrow> string \<Rightarrow> wdb \<Rightarrow> wdb res" where
  "removeDependency tenant i s =
     (case tfind (\<lambda>d. dp_id d = i \<and> dp_tenant d = tenant) (w_deps s) of
        None \<Rightarrow> Inl (NotFound ''dependency not found'')
      | Some d \<Rightarrow> Inr (s\<lparr>w_deps := filter (\<lambda>d. dp_id d \<noteq> i) (w_deps s)\<rparr>))"

subsection \<open>Baselines\<close>

definition last_baseline :: "wdb \<Rightarrow> string \<Rightarrow> string \<Rightarrow> nat" where
  "last_baseline s tenant p =
     foldr max (map bl_version (filter (\<lambda>b. bl_tenant b = tenant \<and> bl_project b = p) (w_baselines s))) 0"

definition snapshot_item :: "string \<Rightarrow> string \<Rightarrow> work_row \<Rightarrow> baseline_item" where
  "snapshot_item tenant bl r =
     \<lparr>bi_tenant = tenant, bi_baseline = bl, bi_item = wk_id r, bi_planned = wk_planned r, bi_due = wk_due r,
      bi_weight = wk_weight r, bi_progress = wk_progress r\<rparr>"

definition createBaseline :: "env \<Rightarrow> string \<Rightarrow> string \<Rightarrow> string \<Rightarrow> string option \<Rightarrow> wdb \<Rightarrow> ((baseline \<times> nat) \<times> wdb) res" where
  "createBaseline v tenant actor i label s =
     rbind (load_project s tenant i) (\<lambda>_.
       let n = last_baseline s tenant i + 1; items = projectItems s tenant i;
           b = \<lparr>bl_id = oid v s, bl_tenant = tenant, bl_project = i, bl_version = n,
                bl_label = coalesce label (CHR ''v'' # show_nat n), bl_by = actor\<rparr>;
           s1 = s\<lparr>w_baselines := w_baselines s @ [b], w_bitems := w_bitems s @ map (snapshot_item tenant (bl_id b)) items,
                  o_seq := Suc (o_seq s)\<rparr>
       in Inr ((b, length items),
               project_event tenant i ''baseline'' actor (set_project i (\<lambda>p. p\<lparr>pj_baseline := Some n\<rparr>) s1)))"

text \<open>The event comes first; its foreign key asks for the project.\<close>

definition rebaseline :: "env \<Rightarrow> string \<Rightarrow> string \<Rightarrow> string \<Rightarrow> string option \<Rightarrow> wdb \<Rightarrow> ((baseline \<times> nat) \<times> wdb) res" where
  "rebaseline v tenant actor i label s =
     rbind (ensure (\<exists>p \<in> set (w_projects s). pj_id p = i) TypeErr) (\<lambda>_.
       createBaseline v tenant actor i label (project_event tenant i ''rebaseline'' actor s))"

subsection \<open>Project roles and shares\<close>

record role_in =
  ri_role :: "string option"
  ri_subjectType :: "string option"
  ri_subject :: "string option"
  ri_tier :: "string option"
  ri_selectorType :: "string option"
  ri_position :: "string option"
  ri_orgUnit :: "string option"
  ri_group :: "string option"
  ri_roleCode :: "string option"
  ri_from :: date_in
  ri_to :: date_in

definition role_selector :: "role_in \<Rightarrow> selector option" where
  "role_selector b =
     (let t = to_upper (coalesce (ri_selectorType b) '''') in
      if t = ''POSITION'' then Some ((multiple SPosition)\<lparr>s_position := ri_position b\<rparr>)
      else if t = ''ORG_UNIT_HEAD'' then Some ((multiple SOrgUnitHead)\<lparr>s_orgUnit := ri_orgUnit b\<rparr>)
      else if t = ''GROUP'' then Some ((multiple SGroup)\<lparr>s_group := ri_group b\<rparr>)
      else if t = ''ROLE'' then Some ((multiple SRole)\<lparr>s_role := ri_roleCode b\<rparr>)
      else None)"

text \<open>The subject: the first user the selector resolves to, or the one the body names.\<close>

definition role_subject ::
  "(string \<Rightarrow> string \<Rightarrow> bool) \<Rightarrow> string \<Rightarrow> string \<Rightarrow> string \<Rightarrow> role_in \<Rightarrow> wdb \<Rightarrow> (string \<times> string option \<times> wdb) res" where
  "role_subject le tenant actor i b s =
     (case role_selector b of
        None \<Rightarrow> Inr (to_upper (coalesce (ri_subjectType b) ''USER''), ri_subject b, s)
      | Some sel \<Rightarrow>
          (let (r, s1) = snapshot le tenant actor (''project-role:'' @ i) ''project-role-assign'' sel s;
               us = users_of (o_org s) (re_candidates r)
           in if us = [] then Inl (BadRequest ''role assign: selector resolved to 0 subjects'')
              else Inr (''USER'', Some (hd us), s1)))"

definition assignRole ::
  "(string \<Rightarrow> string \<Rightarrow> bool) \<Rightarrow> env \<Rightarrow> string \<Rightarrow> string \<Rightarrow> string \<Rightarrow> role_in \<Rightarrow> wdb \<Rightarrow> (role_assignment \<times> wdb) res" where
  "assignRole le v tenant actor i b s =
     rbind (load_project s tenant i) (\<lambda>_.
       let role = to_upper (coalesce (ri_role b) '''') in
       rbind (ensure (role \<in> set PROJECT_ROLES) (BadRequest ''invalid role'')) (\<lambda>_.
       rbind (role_subject le tenant actor i b s) (\<lambda>(st, who, s1).
       rbind (ensure (truthy_str who) (BadRequest ''subjectId (or a resolvable selector) is required'')) (\<lambda>_.
       rbind (ensure (ri_from b \<noteq> Invalid \<and> ri_to b \<noteq> Invalid) TypeErr) (\<lambda>_.
         let ra = \<lparr>ra_id = oid v s1, ra_tenant = tenant, ra_project = i, ra_subjectType = st, ra_subject = the who, ra_role = role,
                   ra_tier = (if role = ''OBSERVER'' then ''SUMMARY'' else to_upper (coalesce (ri_tier b) ''FULL'')),
                   ra_from = date_opt (ri_from b), ra_to = date_opt (ri_to b)\<rparr>;
             s2 = s1\<lparr>w_roles := w_roles s1 @ [ra], o_seq := Suc (o_seq s1)\<rparr>;
             s3 = (if role = ''PROJECT_MANAGER'' then set_project i (\<lambda>p. p\<lparr>pj_manager := who\<rparr>) s2 else s2);
             s4 = (if role = ''SPONSOR'' then set_project i (\<lambda>p. p\<lparr>pj_sponsor := who\<rparr>) s3 else s3)
         in Inr (ra, project_event tenant i ''role_assigned'' actor s4))))))"

record share_in =
  si_scope :: "string option"
  si_scopeId :: "string option"
  si_audienceType :: "string option"
  si_audience :: "string option"
  si_tier :: "string option"

definition createShare :: "string \<Rightarrow> string \<Rightarrow> string \<Rightarrow> share_in \<Rightarrow> wdb \<Rightarrow> (coordination_share \<times> wdb) res" where
  "createShare tenant actor i b s =
     rbind (load_project s tenant i) (\<lambda>_.
       let scope = to_upper (coalesce (si_scope b) ''PROJECT''); tier = to_upper (coalesce (si_tier b) ''SUMMARY'');
           c = \<lparr>cs_tenant = tenant, cs_scope = scope, cs_scopeId = coalesce (si_scopeId b) i,
                cs_audienceType = to_upper (coalesce (si_audienceType b) ''USER''), cs_audience = si_audience b, cs_tier = tier\<rparr>
       in rbind (ensure (scope \<in> set SHARE_SCOPES) (BadRequest ''invalid scope'')) (\<lambda>_.
          rbind (ensure (tier \<in> {''SUMMARY'', ''FULL''}) (BadRequest ''invalid tier'')) (\<lambda>_.
            Inr (c, project_event tenant i ''share'' actor (s\<lparr>w_shares := w_shares s @ [c]\<rparr>)))))"

definition listShares :: "string \<Rightarrow> string \<Rightarrow> wdb \<Rightarrow> coordination_share list res" where
  "listShares tenant i s =
     rbind (load_project s tenant i) (\<lambda>_.
       Inr (filter (\<lambda>c. cs_tenant c = tenant \<and> cs_scope c = ''PROJECT'' \<and> cs_scopeId c = i) (w_shares s)))"

subsection \<open>A guard against cycles\<close>

text \<open>
  What the dependency table needs of its guard: that it says yes when the new edge would close a
  cycle. A graph that grows under such a guard stays acyclic.
\<close>

locale guarded_graph =
  fixes edges :: "'s \<Rightarrow> ('n \<times> 'n) set" and closes :: "'s \<Rightarrow> 'n \<Rightarrow> 'n \<Rightarrow> bool"
  assumes closes_iff: "closes s a b \<longleftrightarrow> (b, a) \<in> (edges s)\<^sup>*"
begin

lemma grow: "acyclic (edges s) \<Longrightarrow> \<not> closes s a b \<Longrightarrow> edges s' \<subseteq> insert (a, b) (edges s) \<Longrightarrow> acyclic (edges s')"
  by (rule acyclic_subset [of "insert (a, b) (edges s)"]) (simp_all add: acyclic_insert closes_iff)

lemma no_loop: "closes s a a"
  by (simp add: closes_iff)

end

lemma set_nexts: "m \<in> set (nexts es n) \<longleftrightarrow> (n, m) \<in> set es"
  by (force simp: nexts_def)

lemma rtrancl_exit:
  assumes "(n, g) \<in> R\<^sup>*" "n \<in> S" "g \<notin> S" "\<And>m k. m \<in> S \<Longrightarrow> (m, k) \<in> R \<Longrightarrow> k \<in> S \<union> Q"
  shows "\<exists>m \<in> Q. (m, g) \<in> R\<^sup>*"
  using assms(1,2)
proof (induction rule: converse_rtrancl_induct)
  case base
  with assms(3) show ?case by simp
next
  case (step y z)
  with assms(4) [of y z] show ?case by blast
qed

lemma search_iff:
  assumes "\<And>m k. m \<in> set seen \<Longrightarrow> (m, k) \<in> set es \<Longrightarrow> k \<in> set seen \<union> set q" "goal \<notin> set seen"
  shows "search es goal seen q \<longleftrightarrow> (\<exists>n \<in> set q. (n, goal) \<in> (set es)\<^sup>*)"
  using assms
proof (induction es goal seen q rule: search.induct)
  case (2 es goal seen n q)
  consider "n = goal" | "n \<noteq> goal" "n \<in> set seen" | "n \<noteq> goal" "n \<notin> set seen" by blast
  then show ?case
  proof cases
    case 2
    then have "k \<in> set seen \<union> set q" if "m \<in> set seen" "(m, k) \<in> set es" for m k
      using that "2.prems"(1) by auto
    with 2 "2.IH"(1) "2.prems"(2) rtrancl_exit [of n goal "set es" "set seen" "set q"] show ?thesis by auto
  next
    case 3
    then have "k \<in> set (n # seen) \<union> set (q @ nexts es n)" if "m \<in> set (n # seen)" "(m, k) \<in> set es" for m k
      using that "2.prems"(1) [of m k] by (auto simp: set_nexts)
    with 3 "2.IH"(2) "2.prems"(2) have "search es goal seen (n # q) \<longleftrightarrow> (\<exists>m \<in> set (q @ nexts es n). (m, goal) \<in> (set es)\<^sup>*)"
      by simp
    also have "\<dots> \<longleftrightarrow> (\<exists>m \<in> set (n # q). (m, goal) \<in> (set es)\<^sup>*)"
    proof -
      have "(n, goal) \<in> (set es)\<^sup>* \<longleftrightarrow> (\<exists>m \<in> set (nexts es n). (m, goal) \<in> (set es)\<^sup>*)"
        using 3(1) by (metis converse_rtranclE converse_rtrancl_into_rtrancl set_nexts)
      then show ?thesis by auto
    qed
    finally show ?thesis .
  qed simp
qed simp

lemma wouldCycle_iff: "wouldCycle s tenant a b \<longleftrightarrow> (b, a) \<in> (set (dep_edges s tenant))\<^sup>*"
  unfolding wouldCycle_def using search_iff [of "[]" "dep_edges s tenant" "[b]" a] by simp

interpretation deps: guarded_graph "\<lambda>s. set (dep_edges s tenant)" "\<lambda>s. wouldCycle s tenant" for tenant
  by unfold_locales (rule wouldCycle_iff)

subsection \<open>Tables that keep their rows\<close>

text \<open>A table after a step: rows rewritten in place without touching their identity, or one fresh row more.\<close>

definition rows_kept :: "('r \<Rightarrow> 'i) \<Rightarrow> ('r \<Rightarrow> bool) \<Rightarrow> 'r list \<Rightarrow> 'r list \<Rightarrow> bool" where
  "rows_kept ident ok xs ys \<longleftrightarrow>
     (\<exists>P f. ys = tupd P f xs \<and> (\<forall>r \<in> set xs. P r \<longrightarrow> ident (f r) = ident r \<and> (ok r \<longrightarrow> ok (f r))))"

definition rows_grow :: "('r \<Rightarrow> 'i) \<Rightarrow> ('r \<Rightarrow> bool) \<Rightarrow> 'r list \<Rightarrow> 'r list \<Rightarrow> bool" where
  "rows_grow ident ok xs ys \<longleftrightarrow> rows_kept ident ok xs ys \<or> (\<exists>r. ys = xs @ [r] \<and> ident r \<notin> ident ` set xs \<and> ok r)"

lemma rows_kept_refl [simp]: "rows_kept ident ok xs xs"
  unfolding rows_kept_def by (rule exI [of _ "\<lambda>_. False"]) (simp add: tupd_def)

lemma rows_keptI: "ys = tupd P f xs \<Longrightarrow> (\<And>r. P r \<Longrightarrow> ident (f r) = ident r) \<Longrightarrow> (\<And>r. r \<in> set xs \<Longrightarrow> P r \<Longrightarrow> ok r \<Longrightarrow> ok (f r)) \<Longrightarrow>
    rows_kept ident ok xs ys"
  unfolding rows_kept_def by blast

lemma rows_kept_ident: "rows_kept ident ok xs ys \<Longrightarrow> map ident ys = map ident xs"
  by (auto simp: rows_kept_def tupd_def)

lemma rows_kept_ok: "rows_kept ident ok xs ys \<Longrightarrow> \<forall>r \<in> set xs. ok r \<Longrightarrow> \<forall>r \<in> set ys. ok r"
  by (auto simp: rows_kept_def set_tupd)

lemma rows_grow_ok:
  assumes "rows_grow ident ok xs ys" "distinct (map ident xs)" "\<forall>r \<in> set xs. ok r"
  shows "distinct (map ident ys) \<and> (\<forall>r \<in> set ys. ok r)"
  using assms(1) unfolding rows_grow_def
proof
  assume "rows_kept ident ok xs ys"
  from rows_kept_ident [OF this] rows_kept_ok [OF this assms(3)] assms(2) show ?thesis by simp
qed (use assms(2,3) in auto)

end
