(* ===== verification/Stages.thy ===== *)
theory Stages
  imports Lifecycle
begin

section \<open>Tables whose rows walk through stages\<close>

text \<open>
  Opportunities, proposals and contracts move through a table \<open>Record<string, string[]>\<close> of allowed
  next stages. The locale \<open>staged\<close> states what each of their services guarantees of the pairs (row
  id, stage): a step changes nothing, adds a row in the first stage, or moves one row to a stage the
  table allows. What follows for every run is proved once.
\<close>

inductive st_step :: "(string \<Rightarrow> string list) \<Rightarrow> string \<Rightarrow> (string \<times> string) list \<Rightarrow> (string \<times> string) list \<Rightarrow> bool" for tr init where
  st_idle: "st_step tr init rows rows"
| st_create: "i \<notin> fst ` set rows \<Longrightarrow> st_step tr init rows (rows @ [(i, init)])"
| st_move: "(i, x) \<in> set rows \<Longrightarrow> y \<in> set (tr x) \<Longrightarrow> st_step tr init rows (set_state i y rows)"

definition moves :: "(string \<Rightarrow> string list) \<Rightarrow> (string \<times> string) set" where
  "moves tr = {(x, y). y \<in> set (tr x)}"

lemma st_step_keys: "st_step tr init rows rows' \<Longrightarrow> distinct (map fst rows) \<Longrightarrow> distinct (map fst rows')"
  by (induction rule: st_step.induct) auto

lemma st_step_row:
  assumes "st_step tr init rows rows'" "distinct (map fst rows)" "(i, x) \<in> set rows"
  shows "\<exists>y. (i, y) \<in> set rows' \<and> (x, y) \<in> (moves tr)\<^sup>*"
  using assms(1)
proof cases
  case (st_move j z y)
  show ?thesis
  proof (cases "j = i")
    case True
    then have "z = x" using st_move(2) assms(2,3) eq_key_imp_eq_value by metis
    then have "(x, y) \<in> (moves tr)\<^sup>*" using st_move(3) by (auto simp: moves_def)
    moreover have "(i, y) \<in> set rows'" using True assms(3) st_move(1) by (force simp: set_state_def)
    ultimately show ?thesis by blast
  next
    case False
    then have "(i, x) \<in> set rows'" using assms(3) st_move(1) by (force simp: set_state_def)
    then show ?thesis by blast
  qed
qed (use assms(3) in auto)

lemma st_step_new:
  assumes "st_step tr init rows rows'" "(i, y) \<in> set rows'"
  shows "(\<exists>x. (i, x) \<in> set rows \<and> (x, y) \<in> (moves tr)\<^sup>*) \<or> (i \<notin> fst ` set rows \<and> y = init)"
  using assms(1)
proof cases
  case (st_move j z w)
  from assms(2) st_move(1) obtain x where x: "(i, x) \<in> set rows" "y = (if i = j then w else x)"
    by (auto simp: set_state_def split: if_splits)
  show ?thesis
  proof (cases "i = j")
    case True
    with x st_move(2,3) show ?thesis by (auto simp: moves_def)
  next
    case False
    with x show ?thesis by auto
  qed
qed (use assms(2) in auto)

lemma moves_final: "(x, y) \<in> (moves tr)\<^sup>* \<Longrightarrow> tr x = [] \<Longrightarrow> y = x"
  by (induction rule: rtrancl_induct) (auto simp: moves_def)

locale staged =
  fixes tr :: "string \<Rightarrow> string list" and init :: string
    and view :: "'s \<Rightarrow> (string \<times> string) list" and step :: "'s \<Rightarrow> 's \<Rightarrow> bool"
  assumes simulates: "step s s' \<Longrightarrow> st_step tr init (view s) (view s')"
begin

lemma keys_distinct: "step\<^sup>*\<^sup>* s s' \<Longrightarrow> distinct (map fst (view s)) \<Longrightarrow> distinct (map fst (view s'))"
  by (induction rule: rtranclp_induct) (auto dest: simulates st_step_keys)

lemma walks:
  assumes "step\<^sup>*\<^sup>* s s'" "distinct (map fst (view s))" "(i, x) \<in> set (view s)"
  shows "\<exists>y. (i, y) \<in> set (view s') \<and> (x, y) \<in> (moves tr)\<^sup>*"
  using assms(1)
proof (induction rule: rtranclp_induct)
  case base
  then show ?case using assms(3) by blast
next
  case (step u w)
  then obtain y where y: "(i, y) \<in> set (view u)" "(x, y) \<in> (moves tr)\<^sup>*" by blast
  from st_step_row [OF simulates [OF step(2)] keys_distinct [OF step(1) assms(2)] y(1)] y(2) show ?case
    by (meson rtrancl_trans)
qed

text \<open>A row in a stage without exit stays there.\<close>

lemma final_stays:
  assumes "step\<^sup>*\<^sup>* s s'" "distinct (map fst (view s))" "(i, x) \<in> set (view s)" "tr x = []"
  shows "(i, x) \<in> set (view s') \<and> (\<forall>y. (i, y) \<in> set (view s') \<longrightarrow> y = x)"
proof -
  from walks [OF assms(1-3)] obtain y where y: "(i, y) \<in> set (view s')" "(x, y) \<in> (moves tr)\<^sup>*" by blast
  with moves_final assms(4) have "y = x" by blast
  with y(1) keys_distinct [OF assms(1,2)] show ?thesis by (meson eq_key_imp_eq_value)
qed

text \<open>Every row can be reached from the first stage.\<close>

lemma reached:
  assumes "step\<^sup>*\<^sup>* s s'" "\<forall>r \<in> set (view s). (init, snd r) \<in> (moves tr)\<^sup>*"
  shows "\<forall>r \<in> set (view s'). (init, snd r) \<in> (moves tr)\<^sup>*"
  using assms(1)
proof (induction rule: rtranclp_induct)
  case base
  then show ?case using assms(2) .
next
  case (step u w)
  show ?case
  proof
    fix r assume "r \<in> set (view w)"
    then have "(fst r, snd r) \<in> set (view w)" by simp
    from st_step_new [OF simulates [OF step(2)] this]
    show "(init, snd r) \<in> (moves tr)\<^sup>*" using step(3) by (auto intro: rtrancl_trans)
  qed
qed

end

text \<open>The two ways a handler moves a table, read off the table.\<close>

lemma st_move_table:
  assumes "r \<in> set rows" "k r = i" "y \<in> set (tr (st r))" "\<And>r. k r = i \<Longrightarrow> k (f r) = i \<and> st (f r) = y"
  shows "st_step tr init (map (\<lambda>r. (k r, st r)) rows) (map (\<lambda>r. (k r, st r)) (tupd (\<lambda>r. k r = i) f rows))"
proof -
  have "(i, st r) \<in> set (map (\<lambda>r. (k r, st r)) rows)" using assms(1,2) by force
  from st_move [of i "st r" _ y tr init, OF this assms(3)] view_update [of k i f st y rows] assms(4) show ?thesis by simp
qed

lemma st_create_table:
  assumes "k r \<notin> k ` set rows" "st r = init"
  shows "st_step tr init (map (\<lambda>r. (k r, st r)) rows) (map (\<lambda>r. (k r, st r)) (rows @ [r]))"
  using st_create [of "k r" "map (\<lambda>r. (k r, st r)) rows" tr init] assms by (force simp: image_image)

subsection \<open>Version numbers\<close>

text \<open>Version numbers in the order they were given: 1 to n.\<close>

definition counted :: "nat list \<Rightarrow> bool" where
  "counted vs \<longleftrightarrow> vs = [1..<Suc (length vs)]"

lemma counted_snoc: "counted vs \<Longrightarrow> counted (vs @ [Suc (length vs)])"
  by (simp add: counted_def)

lemma counted_max: "counted vs \<Longrightarrow> foldr max vs 0 = length vs"
  unfolding counted_def by (metis foldr_max_upt)

end
