(* ===== verification/Work_Safety.thy ===== *)
theory Work_Safety
  imports Work_Projects Stages
begin

section \<open>Properties of work items and projects\<close>

text \<open>
  The step relation of all writing handlers of the two services, what a step does to the tables
  (\<open>work_effect\<close>), and the invariants: consistent items and projects, acyclic dependencies,
  immutable baselines.
\<close>

subsection \<open>Invariants of rows\<close>

definition item_ok :: "work_row \<Rightarrow> bool" where
  "item_ok r \<longleftrightarrow> 0 \<le> wk_progress r \<and> wk_progress r \<le> 100 \<and> wk_status r \<in> set work_states \<and>
     (wk_completed r \<noteq> None \<longrightarrow> wk_status r = ''DONE'')"

definition project_ok :: "project \<Rightarrow> bool" where
  "project_ok p \<longleftrightarrow> 0 \<le> pj_progress p \<and> pj_progress p \<le> 100 \<and> pj_status p \<in> set PROJECT_STATUSES \<and>
     pj_kind p \<in> set PROJECT_KINDS \<and> pj_method p \<in> set PROGRESS_METHODS"

definition heads :: "wdb \<Rightarrow> (string \<times> string \<times> nat option) list" where
  "heads s = map (\<lambda>p. (pj_id p, pj_tenant p, pj_baseline p)) (w_projects s)"

definition rows_ok :: "wdb \<Rightarrow> bool" where
  "rows_ok s \<longleftrightarrow> distinct (map wk_id (w_items s)) \<and> (\<forall>r \<in> set (w_items s). item_ok r) \<and>
     distinct (map pj_id (w_projects s)) \<and> (\<forall>p \<in> set (w_projects s). project_ok p)"

subsection \<open>Steps\<close>

inductive work_step :: "(string \<Rightarrow> string \<Rightarrow> bool) \<Rightarrow> codec \<Rightarrow> wdb \<Rightarrow> wdb \<Rightarrow> bool" for le c where
  ws_create: "createItem v tenant actor b s = Inr (w, s') \<Longrightarrow> oid v s \<notin> wk_id ` set (w_items s) \<Longrightarrow> work_step le c s s'"
| ws_update: "updateItem v tenant actor i p s = Inr (w, s') \<Longrightarrow> work_step le c s s'"
| ws_reschedule: "rescheduleItem v tenant actor i a d s = Inr (w, s') \<Longrightarrow> work_step le c s s'"
| ws_status: "changeStatus v tenant actor i to s = Inr (w, s') \<Longrightarrow> work_step le c s s'"
| ws_progress: "setProgress v tenant actor i j s = Inr (w, s') \<Longrightarrow> work_step le c s s'"
| ws_assign: "assignItem le v tenant actor i ab s = Inr (w, s') \<Longrightarrow> work_step le c s s'"
| ws_comment: "addItemComment v tenant actor i body s = Inr (wc, s') \<Longrightarrow> work_step le c s s'"
| ws_check: "addChecklistItem v tenant actor i label order s = Inr (wk, s') \<Longrightarrow> work_step le c s s'"
| ws_toggle: "toggleChecklistItem v tenant actor i k done s = Inr (wk, s') \<Longrightarrow> work_step le c s s'"
| ws_attach: "attachItem c v tenant actor i doc s = Inr (wd, s') \<Longrightarrow> work_step le c s s'"
| ws_project: "createProject v tenant actor pb s = Inr (wp, s') \<Longrightarrow> oid v s \<notin> pj_id ` set (w_projects s) \<Longrightarrow>
     oid v s \<notin> bl_project ` set (w_baselines s) \<Longrightarrow> work_step le c s s'"
| ws_update_project: "updateProject tenant actor i pp s = Inr (wp, s') \<Longrightarrow> work_step le c s s'"
| ws_recompute: "recomputeProject v tenant i s = Inr (wp, s') \<Longrightarrow> work_step le c s s'"
| ws_attach_items: "attachItems v tenant actor i ai s = Inr (wn, s') \<Longrightarrow> work_step le c s s'"
| ws_add_dep: "addDependency v tenant db s = Inr (dw, s') \<Longrightarrow> work_step le c s s'"
| ws_remove_dep: "removeDependency tenant i s = Inr s' \<Longrightarrow> work_step le c s s'"
| ws_baseline: "createBaseline v tenant actor i bl s = Inr (bw, s') \<Longrightarrow> oid v s \<notin> bl_id ` set (w_baselines s) \<Longrightarrow> work_step le c s s'"
| ws_rebaseline: "rebaseline v tenant actor i bl s = Inr (bw, s') \<Longrightarrow> oid v s \<notin> bl_id ` set (w_baselines s) \<Longrightarrow> work_step le c s s'"
| ws_role: "assignRole le v tenant actor i rb s = Inr (rw, s') \<Longrightarrow> work_step le c s s'"
| ws_share: "createShare tenant actor i sb s = Inr (sw, s') \<Longrightarrow> work_step le c s s'"

subsection \<open>What a step does\<close>

inductive work_effect :: "wdb \<Rightarrow> wdb \<Rightarrow> bool" for s s' where
  we_rows: "rows_grow wk_id item_ok (w_items s) (w_items s') \<Longrightarrow> rows_kept pj_id project_ok (w_projects s) (w_projects s') \<Longrightarrow>
     heads s' = heads s \<Longrightarrow> w_deps s' = w_deps s \<Longrightarrow> w_baselines s' = w_baselines s \<Longrightarrow> w_bitems s' = w_bitems s \<Longrightarrow> work_effect s s'"
| we_project: "w_projects s' = w_projects s @ [p] \<Longrightarrow> pj_id p \<notin> pj_id ` set (w_projects s) \<Longrightarrow>
     pj_id p \<notin> bl_project ` set (w_baselines s) \<Longrightarrow> pj_baseline p = None \<Longrightarrow> project_ok p \<Longrightarrow>
     w_items s' = w_items s \<Longrightarrow> w_deps s' = w_deps s \<Longrightarrow> w_baselines s' = w_baselines s \<Longrightarrow> w_bitems s' = w_bitems s \<Longrightarrow> work_effect s s'"
| we_dep: "w_deps s' = w_deps s @ [d] \<Longrightarrow> \<not> wouldCycle s (dp_tenant d) (dp_pred d) (dp_succ d) \<Longrightarrow>
     w_items s' = w_items s \<Longrightarrow> w_projects s' = w_projects s \<Longrightarrow> w_baselines s' = w_baselines s \<Longrightarrow> w_bitems s' = w_bitems s \<Longrightarrow> work_effect s s'"
| we_undep: "w_deps s' = filter P (w_deps s) \<Longrightarrow>
     w_items s' = w_items s \<Longrightarrow> w_projects s' = w_projects s \<Longrightarrow> w_baselines s' = w_baselines s \<Longrightarrow> w_bitems s' = w_bitems s \<Longrightarrow> work_effect s s'"
| we_baseline: "p \<in> set (w_projects s) \<Longrightarrow> bl_project b = pj_id p \<Longrightarrow> bl_tenant b = pj_tenant p \<Longrightarrow>
     bl_version b = last_baseline s (bl_tenant b) (bl_project b) + 1 \<Longrightarrow> bl_id b \<notin> bl_id ` set (w_baselines s) \<Longrightarrow>
     w_baselines s' = w_baselines s @ [b] \<Longrightarrow> w_bitems s' = w_bitems s @ xs \<Longrightarrow> (\<And>x. x \<in> set xs \<Longrightarrow> bi_baseline x = bl_id b) \<Longrightarrow>
     w_projects s' = tupd (\<lambda>q. pj_id q = pj_id p) (\<lambda>q. q\<lparr>pj_baseline := Some (bl_version b)\<rparr>) (w_projects s) \<Longrightarrow>
     w_items s' = w_items s \<Longrightarrow> w_deps s' = w_deps s \<Longrightarrow> work_effect s s'"

lemma work_frames [simp]:
  "w_items (work_event t i ty a s) = w_items s" "w_projects (work_event t i ty a s) = w_projects s"
  "w_deps (work_event t i ty a s) = w_deps s" "w_baselines (work_event t i ty a s) = w_baselines s"
  "w_bitems (work_event t i ty a s) = w_bitems s"
  "w_items (project_event t i ty a s) = w_items s" "w_projects (project_event t i ty a s) = w_projects s"
  "w_deps (project_event t i ty a s) = w_deps s" "w_baselines (project_event t i ty a s) = w_baselines s"
  "w_bitems (project_event t i ty a s) = w_bitems s" "o_seq (project_event t i ty a s) = o_seq s"
  "w_items (set_item i f s) = tupd (\<lambda>r. wk_id r = i) f (w_items s)" "w_projects (set_item i f s) = w_projects s"
  "w_deps (set_item i f s) = w_deps s" "w_baselines (set_item i f s) = w_baselines s" "w_bitems (set_item i f s) = w_bitems s"
  "w_projects (set_project i g s) = tupd (\<lambda>p. pj_id p = i) g (w_projects s)" "w_items (set_project i g s) = w_items s"
  "w_deps (set_project i g s) = w_deps s" "w_baselines (set_project i g s) = w_baselines s" "w_bitems (set_project i g s) = w_bitems s"
  by (simp_all add: work_event_def project_event_def set_item_def set_project_def log_audit_def)

lemma snapshot_work [simp]:
  "w_items (snd (snapshot le t a code node sel s)) = w_items s" "w_projects (snd (snapshot le t a code node sel s)) = w_projects s"
  "w_deps (snd (snapshot le t a code node sel s)) = w_deps s" "w_baselines (snd (snapshot le t a code node sel s)) = w_baselines s"
  "w_bitems (snd (snapshot le t a code node sel s)) = w_bitems s"
  by (simp_all add: snapshot_def log_audit_def Let_def)

lemma createDocument_work:
  "createDocument c v t a b s = Inr (d, row, s') \<Longrightarrow>
     w_items s' = w_items s \<and> w_projects s' = w_projects s \<and> w_deps s' = w_deps s \<and> w_baselines s' = w_baselines s \<and> w_bitems s' = w_bitems s"
  by (auto simp: createDocument_def appendVersion_def Let_def split: if_splits sum.splits)

lemma load_item_InrD: "load_item s t i = Inr r \<Longrightarrow> r \<in> set (w_items s) \<and> wk_id r = i \<and> wk_tenant r = t"
  by (auto simp: load_item_def item_by_id_def split: option.splits dest: tfind_SomeD)

lemma load_project_InrD: "load_project s t i = Inr p \<Longrightarrow> p \<in> set (w_projects s) \<and> pj_id p = i \<and> pj_tenant p = t"
  by (auto simp: load_project_def split: option.splits dest: tfind_SomeD)

text \<open>The two shapes most handlers have: items rewritten, projects rewritten.\<close>

lemma items_effect:
  assumes "w_items s' = tupd P f (w_items s)" "\<And>r. wk_id (f r) = wk_id r" "\<And>r. r \<in> set (w_items s) \<Longrightarrow> P r \<Longrightarrow> item_ok r \<Longrightarrow> item_ok (f r)"
    and "w_projects s' = w_projects s" "w_deps s' = w_deps s" "w_baselines s' = w_baselines s" "w_bitems s' = w_bitems s"
  shows "work_effect s s'"
  using assms by (intro we_rows) (auto simp: rows_grow_def heads_def intro!: rows_keptI [of _ P f])

lemma projects_effect:
  assumes "w_projects s' = tupd (\<lambda>p. pj_id p = i) g (w_projects s)"
    and "\<And>p. (pj_id (g p), pj_tenant (g p), pj_baseline (g p)) = (pj_id p, pj_tenant p, pj_baseline p)"
    and "\<And>p. p \<in> set (w_projects s) \<Longrightarrow> pj_id p = i \<Longrightarrow> project_ok p \<Longrightarrow> project_ok (g p)"
    and "rows_grow wk_id item_ok (w_items s) (w_items s')" "w_deps s' = w_deps s" "w_baselines s' = w_baselines s" "w_bitems s' = w_bitems s"
  shows "work_effect s s'"
proof (rule we_rows)
  show "rows_kept pj_id project_ok (w_projects s) (w_projects s')"
    using assms(1-3) by (auto intro!: rows_keptI [of _ "\<lambda>p. pj_id p = i" g])
  show "heads s' = heads s" unfolding heads_def assms(1) by (rule map_tupd_frame) (rule assms(2))
qed (use assms in simp_all)

lemma idle_effect:
  "w_items s' = w_items s \<Longrightarrow> w_projects s' = w_projects s \<Longrightarrow> w_deps s' = w_deps s \<Longrightarrow> w_baselines s' = w_baselines s \<Longrightarrow>
   w_bitems s' = w_bitems s \<Longrightarrow> work_effect s s'"
  by (rule we_rows) (simp_all add: rows_grow_def heads_def)

lemma oid_simp: "o_seq s = o_seq s' \<Longrightarrow> oid v s = oid v s'"
  by (simp add: oid_def)

lemma item_ok_status: "to \<in> set work_states \<Longrightarrow> item_ok r \<Longrightarrow> item_ok (status_change v to r)"
  by (auto simp: item_ok_def status_change_def)

lemma item_ok_progress: "0 \<le> p \<Longrightarrow> p \<le> 100 \<Longrightarrow> item_ok r \<Longrightarrow> item_ok (progress_change v p r)"
  by (auto simp: item_ok_def progress_change_def work_states_def)

lemma percent_of_range: "percent_of j = Some p \<Longrightarrow> 0 \<le> p \<and> p \<le> 100"
  by (auto simp: percent_of_def clamp_def split: num_val.splits)

lemma percent_default_range: "0 \<le> coalesce (percent_of j) 0 \<and> coalesce (percent_of j) 0 \<le> 100"
  using percent_of_range [of j] by (cases "percent_of j") auto

lemma allowed_upper: "allowed x vs \<Longrightarrow> y \<in> set vs \<Longrightarrow> coalesce (map_option to_upper x) y \<in> set vs"
  by (cases x) (auto simp: allowed_def)

lemma patched_project_ok:
  assumes "allowed (pp_kind b) PROJECT_KINDS" "allowed (pp_status b) PROJECT_STATUSES" "allowed (pp_method b) PROGRESS_METHODS" "project_ok p"
  shows "project_ok (patched_project b p)"
  using assms percent_default_range
  by (auto simp: project_ok_def patched_project_def Let_def allowed_upper split: option.splits)

lemma create_item_effect:
  assumes "createItem v tenant actor b s = Inr (w, s')" "oid v s \<notin> wk_id ` set (w_items s)"
  shows "work_effect s s'"
proof -
  let ?ty = "to_upper (coalesce (wi_type b) ''TASK'')" and ?st = "to_upper (coalesce (wi_status b) ''BACKLOG'')"
  let ?r = "new_item v tenant actor b ?ty ?st s"
  from assms(1) have st: "?st \<in> set work_states" and s': "s' = work_event tenant (wk_id ?r) ''created'' actor
      (s\<lparr>w_items := w_items s @ [?r], o_seq := Suc (o_seq s)\<rparr>)"
    by (auto simp: createItem_def rbind_Inr_iff Let_def)
  from st have "item_ok ?r" by (simp add: item_ok_def new_item_def clamp_range)
  with assms(2) show ?thesis
    by (intro we_rows) (auto simp: s' heads_def rows_grow_def new_item_def)
qed

lemma create_project_effect:
  assumes "createProject v tenant actor b s = Inr (p, s')" "oid v s \<notin> pj_id ` set (w_projects s)" "oid v s \<notin> bl_project ` set (w_baselines s)"
  shows "work_effect s s'"
proof -
  let ?k = "to_upper (coalesce (pi_kind b) ''INTERNAL'')" and ?t = "to_upper (coalesce (pi_status b) ''DRAFT'')"
    and ?m = "to_upper (coalesce (pi_method b) ''TASK_WEIGHTED'')"
  let ?p = "new_project v tenant actor b ?k ?t ?m s"
  from assms(1) have "?k \<in> set PROJECT_KINDS" "?t \<in> set PROJECT_STATUSES" "?m \<in> set PROGRESS_METHODS"
    and s': "s' = project_event tenant (pj_id ?p) ''created'' actor (s\<lparr>w_projects := w_projects s @ [?p], o_seq := Suc (o_seq s)\<rparr>)"
    by (auto simp: createProject_def rbind_Inr_iff Let_def)
  then have "project_ok ?p" by (simp add: project_ok_def new_project_def clamp_range)
  with assms(2,3) show ?thesis
    by (intro we_project [of _ s ?p]) (simp_all add: s' new_project_def)
qed

lemma project_progress_range: "project_ok p \<Longrightarrow> 0 \<le> project_progress p items \<and> project_progress p items \<le> 100"
  using computeProgress_range by (auto simp: project_progress_def project_ok_def)

lemma recompute_parts:
  assumes "recomputeProject v tenant i s = Inr (w, s')"
  obtains p where "p \<in> set (w_projects s)" "pj_id p = i"
    "s' = set_project i (\<lambda>r. r\<lparr>pj_progress := project_progress p (projectItems s tenant i),
       pj_health := project_health v s tenant p (projectItems s tenant i)\<rparr>) s"
  using assms by (auto simp: recomputeProject_def rbind_Inr_iff Let_def dest!: load_project_InrD)

lemma recompute_effect:
  assumes "recomputeProject v tenant i s = Inr (w, s')" "rows_ok s" "rows_grow wk_id item_ok (w_items s0) (w_items s)"
    and "w_projects s = w_projects s0" "w_deps s = w_deps s0" "w_baselines s = w_baselines s0" "w_bitems s = w_bitems s0"
  shows "work_effect s0 s'"
  using assms(1)
proof (rule recompute_parts)
  fix p
  let ?n = "project_progress p (projectItems s tenant i)" and ?h = "project_health v s tenant p (projectItems s tenant i)"
  assume p: "p \<in> set (w_projects s)" and s': "s' = set_project i (\<lambda>r. r\<lparr>pj_progress := ?n, pj_health := ?h\<rparr>) s"
  from p assms(2) have range: "0 \<le> ?n \<and> ?n \<le> 100" by (intro project_progress_range) (simp add: rows_ok_def)
  then have "project_ok (q\<lparr>pj_progress := ?n, pj_health := ?h\<rparr>)" if "project_ok q" for q
    using that by (simp add: project_ok_def)
  then show ?thesis
    using assms(3-7) by (intro projects_effect [of s' i "\<lambda>r. r\<lparr>pj_progress := ?n, pj_health := ?h\<rparr>" s0]) (simp_all add: s')
qed

lemma attach_items_effect:
  assumes "attachItems v tenant actor i b s = Inr (w, s')" "rows_ok s"
  shows "work_effect s s'"
proof -
  let ?hit = "\<lambda>r. wk_tenant r = tenant \<and> wk_id r \<in> set (ai_ids b)"
  let ?f = "\<lambda>r. r\<lparr>wk_project := Some i, wk_parent := coalesce (ai_parent b) (wk_parent r), wk_wbs := coalesce (ai_wbs b) (wk_wbs r)\<rparr>"
  let ?s1 = "project_event tenant i ''items_attached'' actor (s\<lparr>w_items := tupd ?hit ?f (w_items s)\<rparr>)"
  from assms(1) obtain q where r: "recomputeProject v tenant i ?s1 = Inr (q, s')"
    by (auto simp: attachItems_def rbind_Inr_iff Let_def)
  have kept: "rows_kept wk_id item_ok (w_items s) (tupd ?hit ?f (w_items s))"
    by (rule rows_keptI [of _ ?hit ?f]) (simp_all add: item_ok_def)
  then have "rows_ok ?s1"
    using assms(2) rows_kept_ident [OF kept] rows_kept_ok [OF kept] by (simp add: rows_ok_def)
  from recompute_effect [OF r this] kept show ?thesis by (simp add: rows_grow_def)
qed

lemma baseline_effect:
  assumes "createBaseline v tenant actor i label s = Inr (w, s')" "oid v s \<notin> bl_id ` set (w_baselines s)"
  shows "work_effect s s'"
proof -
  let ?n = "last_baseline s tenant i + 1" and ?items = "projectItems s tenant i"
  let ?b = "\<lparr>bl_id = oid v s, bl_tenant = tenant, bl_project = i, bl_version = ?n, bl_label = coalesce label (CHR ''v'' # show_nat ?n), bl_by = actor\<rparr>"
  from assms(1) obtain p where p: "p \<in> set (w_projects s)" "pj_id p = i" "pj_tenant p = tenant"
    and s': "s' = project_event tenant i ''baseline'' actor (set_project i (\<lambda>p. p\<lparr>pj_baseline := Some ?n\<rparr>)
      (s\<lparr>w_baselines := w_baselines s @ [?b], w_bitems := w_bitems s @ map (snapshot_item tenant (bl_id ?b)) ?items, o_seq := Suc (o_seq s)\<rparr>))"
    by (auto simp: createBaseline_def rbind_Inr_iff Let_def dest!: load_project_InrD)
  show ?thesis
    by (rule we_baseline [OF p(1), of ?b _ "map (snapshot_item tenant (bl_id ?b)) ?items"])
      (use assms(2) p in \<open>auto simp: s' snapshot_item_def\<close>)
qed

lemma assign_role_effect:
  assumes "assignRole le v tenant actor i b s = Inr (w, s')"
  shows "work_effect s s'"
proof -
  from assms obtain st who s1 where sub: "role_subject le tenant actor i b s = Inr (st, who, s1)"
    and rest: "w_projects s' = tupd (\<lambda>p. pj_id p = i) (\<lambda>p. p\<lparr>pj_manager := pj_manager p\<rparr>) (w_projects s1) \<or>
      w_projects s' = tupd (\<lambda>p. pj_id p = i) (\<lambda>p. p\<lparr>pj_manager := who\<rparr>) (w_projects s1) \<or>
      w_projects s' = tupd (\<lambda>p. pj_id p = i) (\<lambda>p. p\<lparr>pj_sponsor := who\<rparr>) (w_projects s1)"
    and same: "w_items s' = w_items s1" "w_deps s' = w_deps s1" "w_baselines s' = w_baselines s1" "w_bitems s' = w_bitems s1"
    by (auto simp: assignRole_def rbind_Inr_iff Let_def tupd_def split: prod.splits if_splits)
  have s1: "w_items s1 = w_items s" "w_projects s1 = w_projects s" "w_deps s1 = w_deps s" "w_baselines s1 = w_baselines s" "w_bitems s1 = w_bitems s"
  proof -
    have "\<exists>sel. s1 = s \<or> s1 = snd (snapshot le tenant actor (''project-role:'' @ i) ''project-role-assign'' sel s)"
      using sub by (auto simp: role_subject_def Let_def case_prod_unfold split: option.splits if_splits)
    then show "w_items s1 = w_items s" "w_projects s1 = w_projects s" "w_deps s1 = w_deps s" "w_baselines s1 = w_baselines s" "w_bitems s1 = w_bitems s"
      by auto
  qed
  from rest s1(2) obtain g where g: "w_projects s' = tupd (\<lambda>p. pj_id p = i) g (w_projects s)"
    "g = (\<lambda>p. p\<lparr>pj_manager := pj_manager p\<rparr>) \<or> g = (\<lambda>p. p\<lparr>pj_manager := who\<rparr>) \<or> g = (\<lambda>p. p\<lparr>pj_sponsor := who\<rparr>)"
    by metis
  have "(pj_id (g p), pj_tenant (g p), pj_baseline (g p)) = (pj_id p, pj_tenant p, pj_baseline p)" for p
    using g(2) by (elim disjE) simp_all
  moreover have "project_ok (g p) = project_ok p" for p using g(2) by (elim disjE) (simp_all add: project_ok_def)
  ultimately show ?thesis using same s1 by (intro projects_effect [OF g(1)]) (simp_all add: rows_grow_def)
qed

text \<open>Every step has one of the effects.\<close>

lemma work_step_effect: "work_step le c s s' \<Longrightarrow> rows_ok s \<Longrightarrow> work_effect s s'"
proof (induction rule: work_step.induct)
  case (ws_create v tenant actor b s w s')
  then show ?case by (intro create_item_effect)
next
  case (ws_update v tenant actor i p s w s')
  have "item_ok (patched p r) = item_ok r" "wk_id (patched p r) = wk_id r" for r by (simp_all add: item_ok_def patched_def)
  with ws_update show ?case
    by (intro items_effect [of _ "\<lambda>r. wk_id r = i" "patched p"]) (auto simp: updateItem_def rbind_Inr_iff)
next
  case (ws_reschedule v tenant actor i a d s w s')
  then obtain x y where "s' = work_event tenant i ''rescheduled'' actor (set_item i (\<lambda>r. r\<lparr>wk_planned := x, wk_due := y\<rparr>) s)"
    by (auto simp: rescheduleItem_def rbind_Inr_iff Let_def)
  then show ?case by (intro items_effect [of _ "\<lambda>r. wk_id r = i" "\<lambda>r. r\<lparr>wk_planned := x, wk_due := y\<rparr>"]) (simp_all add: item_ok_def)
next
  case (ws_status v tenant actor i to s w s')
  let ?t = "to_upper (coalesce to '''')"
  from ws_status have "?t \<in> set work_states" "s' = work_event tenant i ''status_changed'' actor (set_item i (status_change v ?t) s)"
    by (auto simp: changeStatus_def rbind_Inr_iff Let_def)
  then show ?case
    by (intro items_effect [of _ "\<lambda>r. wk_id r = i" "status_change v ?t"]) (simp_all add: item_ok_status, simp add: status_change_def)
next
  case (ws_progress v tenant actor i j s w s')
  then obtain p where "percent_of j = Some p" "s' = work_event tenant i ''progress'' actor (set_item i (progress_change v p) s)"
    by (auto simp: setProgress_def rbind_Inr_iff split: option.splits)
  then show ?case using percent_of_range [of j p]
    by (intro items_effect [of _ "\<lambda>r. wk_id r = i" "progress_change v p"]) (simp_all add: item_ok_progress, simp add: progress_change_def)
next
  case (ws_assign v tenant actor i ab s w s')
  then obtain who ow sel where "s' = work_event tenant i ''assigned'' actor (set_item i (\<lambda>x. x\<lparr>wk_assignees := who, wk_owner := ow\<rparr>) s) \<or>
      s' = work_event tenant i ''assigned'' actor (set_item i (\<lambda>x. x\<lparr>wk_assignees := who, wk_owner := ow\<rparr>)
        (snd (snapshot le tenant actor (''work-item:'' @ i) ''work-item-assign'' sel s)))"
    by (auto simp: assignItem_def rbind_Inr_iff Let_def split: if_splits)
  then show ?case
    by (intro items_effect [of _ "\<lambda>r. wk_id r = i" "\<lambda>x. x\<lparr>wk_assignees := who, wk_owner := ow\<rparr>"]) (auto simp: item_ok_def)
next
  case (ws_attach v tenant actor i doc s wd s')
  then obtain r d row s1 where "createDocument c v tenant (Some actor) (item_doc i r doc) s = Inr (d, row, s1)"
    "s' = work_event tenant i ''attachment_added'' actor s1"
    by (auto simp: attachItem_def rbind_Inr_iff split: prod.splits)
  then show ?case using createDocument_work [of c v tenant "Some actor" "item_doc i r doc" s d row s1] by (intro idle_effect) simp_all
next
  case (ws_project v tenant actor pb s wp s')
  then show ?case by (intro create_project_effect)
next
  case (ws_update_project tenant actor i pp s wp s')
  have head: "(pj_id (patched_project pp p), pj_tenant (patched_project pp p), pj_baseline (patched_project pp p)) = (pj_id p, pj_tenant p, pj_baseline p)" for p
    by (simp add: patched_project_def Let_def)
  from ws_update_project show ?case
    by (intro projects_effect [of _ i "patched_project pp"])
      (auto simp: updateProject_def rbind_Inr_iff rows_grow_def patched_project_ok head [simplified])
next
  case (ws_recompute v tenant i s wp s')
  then show ?case by (intro recompute_effect [of v tenant i s wp]) (simp_all add: rows_grow_def)
next
  case (ws_attach_items v tenant actor i ai s wn s')
  then show ?case by (intro attach_items_effect)
next
  case (ws_add_dep v tenant db s dw s')
  then show ?case by (intro we_dep [of s' s dw]) (auto simp: addDependency_def rbind_Inr_iff Let_def)
next
  case (ws_remove_dep tenant i s s')
  then show ?case by (intro we_undep) (auto simp: removeDependency_def split: option.splits)
next
  case (ws_baseline v tenant actor i bl s bw s')
  then show ?case by (cases bw) (auto intro: baseline_effect)
next
  case (ws_rebaseline v tenant actor i bl s bw s')
  let ?s = "project_event tenant i ''rebaseline'' actor s"
  from ws_rebaseline have "createBaseline v tenant actor i bl ?s = Inr (bw, s')" "oid v ?s \<notin> bl_id ` set (w_baselines ?s)"
    by (auto simp: rebaseline_def rbind_Inr_iff oid_def)
  then have "work_effect ?s s'" by (rule baseline_effect)
  then show ?case by (auto simp: work_effect.simps heads_def last_baseline_def wouldCycle_def dep_edges_def)
next
  case (ws_role v tenant actor i rb s rw s')
  then show ?case by (intro assign_role_effect)
qed (auto simp: addItemComment_def addChecklistItem_def toggleChecklistItem_def createShare_def rbind_Inr_iff Let_def
       intro!: idle_effect split: option.splits)

subsection \<open>Invariants of steps\<close>

lemma effect_rows_ok: "work_effect s s' \<Longrightarrow> rows_ok s \<Longrightarrow> rows_ok s'"
proof (induction rule: work_effect.induct)
  case we_rows
  then show ?case
    using rows_grow_ok [OF we_rows(1)] rows_kept_ident [OF we_rows(2)] rows_kept_ok [OF we_rows(2)] by (simp add: rows_ok_def)
next
  case (we_baseline p b xs)
  have "rows_kept pj_id project_ok (w_projects s) (w_projects s')"
    by (rule rows_keptI [OF we_baseline(9)]) (simp_all add: project_ok_def)
  from rows_kept_ident [OF this] rows_kept_ok [OF this] we_baseline show ?case by (simp add: rows_ok_def)
qed (auto simp: rows_ok_def)

definition deps_acyclic :: "wdb \<Rightarrow> bool" where
  "deps_acyclic s \<longleftrightarrow> (\<forall>t. acyclic (set (dep_edges s t)))"

lemma effect_acyclic:
  assumes "work_effect s s'" "deps_acyclic s"
  shows "deps_acyclic s'"
  unfolding deps_acyclic_def
proof
  fix t
  from assms(2) have a: "acyclic (set (dep_edges s t))" by (simp add: deps_acyclic_def)
  from assms(1) show "acyclic (set (dep_edges s' t))"
  proof cases
    case (we_dep d)
    then have sub: "set (dep_edges s' t) \<subseteq> (if dp_tenant d = t then insert (dp_pred d, dp_succ d) (set (dep_edges s t)) else set (dep_edges s t))"
      by (auto simp: dep_edges_def)
    show ?thesis
    proof (cases "dp_tenant d = t")
      case True
      with sub we_dep(2) show ?thesis by (intro deps.grow [OF a, of "dp_pred d" "dp_succ d"]) simp_all
    next
      case False
      with sub show ?thesis by (intro acyclic_subset [OF a]) simp
    qed
  next
    case (we_undep P)
    then have "set (dep_edges s' t) \<subseteq> set (dep_edges s t)" by (auto simp: dep_edges_def)
    with a show ?thesis by (rule acyclic_subset)
  qed (use a in \<open>simp_all add: dep_edges_def\<close>)
qed

definition versions_in :: "wdb \<Rightarrow> string \<Rightarrow> string \<Rightarrow> nat list" where
  "versions_in s t p = map bl_version (filter (\<lambda>b. bl_tenant b = t \<and> bl_project b = p) (w_baselines s))"

definition newest :: "wdb \<Rightarrow> string \<Rightarrow> string \<Rightarrow> nat option" where
  "newest s t p = (if versions_in s t p = [] then None else Some (length (versions_in s t p)))"

definition baselines_ok :: "wdb \<Rightarrow> bool" where
  "baselines_ok s \<longleftrightarrow> (\<forall>t p. counted (versions_in s t p)) \<and>
     (\<forall>p \<in> set (w_projects s). pj_baseline p = newest s (pj_tenant p) (pj_id p))"

definition baseline_rows :: "wdb \<Rightarrow> string \<Rightarrow> baseline_item list" where
  "baseline_rows s b = filter (\<lambda>x. bi_baseline x = b) (w_bitems s)"

lemma last_baseline_versions: "counted (versions_in s t p) \<Longrightarrow> last_baseline s t p = length (versions_in s t p)"
  using counted_max by (simp add: last_baseline_def versions_in_def)

lemma heads_baseline:
  assumes "heads s' = heads s" "p \<in> set (w_projects s')"
  shows "\<exists>q \<in> set (w_projects s). pj_id q = pj_id p \<and> pj_tenant q = pj_tenant p \<and> pj_baseline q = pj_baseline p"
proof -
  have "(pj_id p, pj_tenant p, pj_baseline p) \<in> set (heads s')" using assms(2) unfolding heads_def set_map by (rule imageI)
  then have "(pj_id p, pj_tenant p, pj_baseline p) \<in> set (heads s)" using assms(1) by simp
  then show ?thesis by (auto simp: heads_def)
qed

lemma baseline_step_ok:
  assumes ok: "baselines_ok s" "distinct (map pj_id (w_projects s))" and p: "p \<in> set (w_projects s)"
    and b: "bl_project b = pj_id p" "bl_tenant b = pj_tenant p" "bl_version b = last_baseline s (bl_tenant b) (bl_project b) + 1"
    and s': "w_baselines s' = w_baselines s @ [b]"
      "w_projects s' = tupd (\<lambda>q. pj_id q = pj_id p) (\<lambda>q. q\<lparr>pj_baseline := Some (bl_version b)\<rparr>) (w_projects s)"
  shows "baselines_ok s'"
proof -
  let ?v = "versions_in s (pj_tenant p) (pj_id p)"
  have up: "counted (versions_in s t q)" for t q using ok(1) unfolding baselines_ok_def by blast
  from last_baseline_versions [OF up] b have n: "bl_version b = Suc (length ?v)" by simp
  have v': "versions_in s' t q = (if t = pj_tenant p \<and> q = pj_id p then ?v @ [Suc (length ?v)] else versions_in s t q)" for t q
    using b n by (auto simp: versions_in_def s'(1))
  have "counted (versions_in s' t q)" for t q
    using up [of t q] counted_snoc [OF up [of "pj_tenant p" "pj_id p"]] by (simp add: v')
  moreover have "pj_baseline r = newest s' (pj_tenant r) (pj_id r)" if r: "r \<in> set (w_projects s')" for r
    using r unfolding s'(2)
  proof (cases rule: in_set_tupdE)
    case (new q)
    then have "q = p" using distinct_column_unique [OF ok(2)] p by blast
    with new n show ?thesis by (simp add: newest_def v')
  next
    case old
    with ok(1) show ?thesis by (simp add: baselines_ok_def newest_def v')
  qed
  ultimately show ?thesis unfolding baselines_ok_def by blast
qed

lemma baselines_same:
  assumes "w_baselines s' = w_baselines s"
  shows "versions_in s' = versions_in s" "newest s' = newest s"
  using assms by (auto simp: versions_in_def newest_def fun_eq_iff)

lemma baselines_keep:
  assumes "w_baselines s' = w_baselines s" "w_bitems s' = w_bitems s" "baselines_ok s"
    and "\<And>p. p \<in> set (w_projects s') \<Longrightarrow> pj_baseline p = newest s (pj_tenant p) (pj_id p)"
  shows "baselines_ok s' \<and> (\<exists>new. w_baselines s' = w_baselines s @ new) \<and>
    (\<forall>b \<in> set (w_baselines s). baseline_rows s' (bl_id b) = baseline_rows s (bl_id b))"
  using assms(3,4) unfolding baselines_ok_def baselines_same [OF assms(1)] baseline_rows_def assms(1,2) by simp

lemma effect_baselines:
  assumes "work_effect s s'" "rows_ok s" "baselines_ok s"
  shows "baselines_ok s' \<and> (\<exists>new. w_baselines s' = w_baselines s @ new) \<and>
    (\<forall>b \<in> set (w_baselines s). baseline_rows s' (bl_id b) = baseline_rows s (bl_id b))"
proof -
  have cur: "pj_baseline p = newest s (pj_tenant p) (pj_id p)" if "p \<in> set (w_projects s)" for p
    using assms(3) that by (simp add: baselines_ok_def)
  from assms(1) show ?thesis
  proof cases
    case we_rows
    have "pj_baseline p = newest s (pj_tenant p) (pj_id p)" if "p \<in> set (w_projects s')" for p
      using heads_baseline [OF we_rows(3) that] cur by metis
    from baselines_keep [OF we_rows(5,6) assms(3) this] show ?thesis .
  next
    case (we_project p)
    have "newest s (pj_tenant p) (pj_id p) = None"
      using we_project(3) by (auto simp: newest_def versions_in_def filter_empty_conv image_iff)
    with we_project(4) cur have "pj_baseline q = newest s (pj_tenant q) (pj_id q)" if "q \<in> set (w_projects s')" for q
      using that unfolding we_project(1) by auto
    from baselines_keep [OF we_project(8,9) assms(3) this] show ?thesis .
  next
    case (we_dep d)
    from baselines_keep [OF we_dep(5,6) assms(3)] cur show ?thesis unfolding we_dep(4) by blast
  next
    case (we_undep P)
    from baselines_keep [OF we_undep(4,5) assms(3)] cur show ?thesis unfolding we_undep(3) by blast
next
  case (we_baseline p b xs)
  have "distinct (map pj_id (w_projects s))" using assms(2) by (simp add: rows_ok_def)
  from baseline_step_ok [OF assms(3) this we_baseline(1-4,6,9)] have "baselines_ok s'" .
  moreover have "baseline_rows s' (bl_id c) = baseline_rows s (bl_id c)" if "c \<in> set (w_baselines s)" for c
    using that we_baseline(5,7,8) by (auto simp: baseline_rows_def filter_empty_conv)
  ultimately show ?thesis using we_baseline(6) by blast
  qed
qed

lemma work_steps_inv:
  assumes "(work_step le c)\<^sup>*\<^sup>* s s'" "rows_ok s" "P s"
    and step: "\<And>a b. work_effect a b \<Longrightarrow> rows_ok a \<Longrightarrow> P a \<Longrightarrow> P b"
  shows "rows_ok s' \<and> P s'"
  using assms(1)
proof (induction rule: rtranclp_induct)
  case (step y z)
  from work_step_effect [OF step(2)] step.IH have "work_effect y z" by simp
  with effect_rows_ok assms(4) step.IH show ?case by blast
qed (use assms in simp)

subsection \<open>Properties\<close>

text \<open>
  C17. Dependencies never form a cycle: whatever handlers run, the dependency graph of every tenant
  stays acyclic, and the search behind the guard says yes exactly when the predecessor can be
  reached from the successor.
\<close>
theorem dependencies_acyclic:
  assumes "(work_step le c)\<^sup>*\<^sup>* s s'" "rows_ok s" "deps_acyclic s"
  shows "acyclic (set (dep_edges s' t)) \<and> (wouldCycle s' t a b \<longleftrightarrow> (b, a) \<in> (set (dep_edges s' t))\<^sup>*)"
  using work_steps_inv [where P = deps_acyclic, OF assms effect_acyclic] wouldCycle_iff
  by (simp add: deps_acyclic_def)

text \<open>
  C18. Baselines are immutable: whatever handlers run, no baseline is changed or removed, the items
  recorded for it stay as they were, the versions of each project are 1 to n in the order they were
  taken, and the current version of every project is its newest.
\<close>
theorem baselines_immutable:
  assumes "(work_step le c)\<^sup>*\<^sup>* s s'" "rows_ok s" "baselines_ok s"
  shows "(\<exists>new. w_baselines s' = w_baselines s @ new) \<and>
    (\<forall>b \<in> set (w_baselines s). baseline_rows s' (bl_id b) = baseline_rows s (bl_id b)) \<and>
    (\<forall>t p. counted (versions_in s' t p)) \<and>
    (\<forall>p \<in> set (w_projects s'). pj_baseline p = newest s' (pj_tenant p) (pj_id p))"
proof -
  define P where "P x \<longleftrightarrow> baselines_ok x \<and> (\<exists>new. w_baselines x = w_baselines s @ new) \<and>
    (\<forall>b \<in> set (w_baselines s). baseline_rows x (bl_id b) = baseline_rows s (bl_id b))" for x
  have "P b" if "work_effect a b" "rows_ok a" "P a" for a b
  proof -
    from that(3) obtain new where a: "baselines_ok a" "w_baselines a = w_baselines s @ new"
      "\<forall>x \<in> set (w_baselines s). baseline_rows a (bl_id x) = baseline_rows s (bl_id x)" unfolding P_def by blast
    from effect_baselines [OF that(1,2) a(1)] obtain more where b: "baselines_ok b" "w_baselines b = w_baselines a @ more"
      "\<forall>x \<in> set (w_baselines a). baseline_rows b (bl_id x) = baseline_rows a (bl_id x)" by blast
    have "w_baselines b = w_baselines s @ (new @ more)" using a(2) b(2) by simp
    moreover have "\<forall>x \<in> set (w_baselines s). baseline_rows b (bl_id x) = baseline_rows s (bl_id x)" using a(2,3) b(3) by simp
    ultimately show ?thesis using b(1) unfolding P_def by blast
  qed
  moreover have "P s" using assms(3) by (simp add: P_def)
  ultimately have "P s'" using work_steps_inv [where P = P, OF assms(1,2)] by blast
  then show ?thesis unfolding P_def baselines_ok_def by blast
qed

text \<open>
  C19. Numbers and states make sense: whatever handlers run, the progress of every item and project
  is between 0 and 100, statuses are among the declared ones, every project has a declared kind and
  progress method, and an item with a completion time is DONE.
\<close>
theorem work_rows_consistent:
  assumes "(work_step le c)\<^sup>*\<^sup>* s s'" "rows_ok s"
  shows "(\<forall>r \<in> set (w_items s'). 0 \<le> wk_progress r \<and> wk_progress r \<le> 100 \<and> wk_status r \<in> set work_states \<and>
      (wk_completed r \<noteq> None \<longrightarrow> wk_status r = ''DONE'')) \<and>
    (\<forall>p \<in> set (w_projects s'). 0 \<le> pj_progress p \<and> pj_progress p \<le> 100 \<and> pj_status p \<in> set PROJECT_STATUSES \<and>
      pj_kind p \<in> set PROJECT_KINDS \<and> pj_method p \<in> set PROGRESS_METHODS)"
  using work_steps_inv [where P = "\<lambda>_. True", OF assms]
  by (simp add: rows_ok_def item_ok_def project_ok_def)

text \<open>When a finish-to-start dependency is respected by the stored dates.\<close>

definition respected :: "wdb \<Rightarrow> dependency \<Rightarrow> bool" where
  "respected s d \<longleftrightarrow>
     (case (item_by_id s (dp_tenant d) (dp_pred d), item_by_id s (dp_tenant d) (dp_succ d)) of
        (Some p, Some q) \<Rightarrow> (case (wk_due p, wk_planned q) of (Some a, Some b) \<Rightarrow> a \<le> b | _ \<Rightarrow> True)
      | _ \<Rightarrow> True)"

lemma item_by_id_set:
  assumes "\<And>r. wk_id (f r) = wk_id r \<and> wk_tenant (f r) = wk_tenant r"
  shows "item_by_id (set_item i f s) t j = map_option (\<lambda>r. if wk_id r = i then f r else r) (item_by_id s t j)"
proof -
  have "tfind (\<lambda>r. wk_id r = j \<and> wk_tenant r = t) (tupd (\<lambda>r. wk_id r = i) f rows) =
      map_option (\<lambda>r. if wk_id r = i then f r else r) (tfind (\<lambda>r. wk_id r = j \<and> wk_tenant r = t) rows)" for rows
    using assms by (induction rows) (auto simp: table_simps)
  then show ?thesis by (simp add: item_by_id_def)
qed

lemma item_by_id_frames [simp]: "item_by_id (work_event t i ty a s) = item_by_id s"
  by (simp add: item_by_id_def fun_eq_iff)

lemma item_by_idD: "item_by_id s t j = Some r \<Longrightarrow> wk_id r = j \<and> wk_tenant r = t"
  by (auto simp: item_by_id_def dest: tfind_SomeD)

lemma rescheduleItemE:
  assumes "rescheduleItem v tenant actor i planned dueAt s = Inr (w, s')"
  obtains r a b where "item_by_id s tenant i = Some r" "\<not> after_date (as_date a) (as_date b)"
    "\<And>d. d \<in> set (fs_deps s tenant i) \<Longrightarrow> \<not> fs_clash s tenant i (as_date a) (as_date b) d"
    "s' = work_event tenant i ''rescheduled'' actor (set_item i (\<lambda>x. x\<lparr>wk_planned := a, wk_due := b\<rparr>) s)"
proof -
  from assms obtain r where r: "load_item s tenant i = Inr r" by (auto simp: rescheduleItem_def rbind_Inr_iff)
  let ?s = "resched planned (wk_planned r)" and ?d = "resched dueAt (wk_due r)"
  from assms r have ok: "\<not> after_date ?s ?d" "\<not> list_ex (fs_clash s tenant i ?s ?d) (fs_deps s tenant i)" "?s \<noteq> Invalid" "?d \<noteq> Invalid"
    and s': "s' = work_event tenant i ''rescheduled'' actor (set_item i (\<lambda>x. x\<lparr>wk_planned := date_opt ?s, wk_due := date_opt ?d\<rparr>) s)"
    by (auto simp: rescheduleItem_def rbind_Inr_iff Let_def)
  have date_rt: "as_date (date_opt x) = x" if "x \<noteq> Invalid" for x using that by (cases x) (simp_all add: as_date_def)
  from r have "item_by_id s tenant i = Some r" by (auto simp: load_item_def split: option.splits)
  from that [OF this, of "date_opt ?s" "date_opt ?d"] ok s' show ?thesis
    by (simp add: date_rt list_ex_iff)
qed

text \<open>
  Rescheduling keeps the plan sound: when a work item is rescheduled, its start is not after
  its finish, every finish-to-start dependency it takes part in is respected afterwards, and every
  other one that was respected still is.
\<close>
theorem reschedule_respects_dependencies:
  assumes "rescheduleItem v tenant actor i planned dueAt s = Inr (w, s')"
    and d: "d \<in> set (w_deps s)" "dp_type d = ''FS''" "dp_tenant d = tenant" "dp_pred d \<noteq> dp_succ d"
  shows "(i \<in> {dp_pred d, dp_succ d} \<or> respected s d \<longrightarrow> respected s' d) \<and>
    (\<forall>r a b. item_by_id s' tenant i = Some r \<longrightarrow> wk_planned r = Some a \<longrightarrow> wk_due r = Some b \<longrightarrow> a \<le> b)"
  using assms(1)
proof (rule rescheduleItemE)
  fix r a b
  let ?f = "\<lambda>x. x\<lparr>wk_planned := a, wk_due := b\<rparr>"
  assume r: "item_by_id s tenant i = Some r" and ab: "\<not> after_date (as_date a) (as_date b)"
    and ok: "\<And>d. d \<in> set (fs_deps s tenant i) \<Longrightarrow> \<not> fs_clash s tenant i (as_date a) (as_date b) d"
    and s': "s' = work_event tenant i ''rescheduled'' actor (set_item i ?f s)"
  have look: "item_by_id s' tenant j = map_option (\<lambda>x. if j = i then ?f x else x) (item_by_id s tenant j)" for j
    using item_by_idD [of s tenant j] by (cases "item_by_id s tenant j") (simp_all add: s' item_by_id_set)
  have "respected s' d" if "i \<in> {dp_pred d, dp_succ d} \<or> respected s d"
  proof (cases "i = dp_pred d \<or> i = dp_succ d")
    case True
    with d have "d \<in> set (fs_deps s tenant i)" by (auto simp: fs_deps_def)
    from ok [OF this] True d(3,4) r show ?thesis
      by (auto simp: respected_def look fs_clash_def as_date_def after_date_def not_less split: option.splits)
  next
    case False
    then have ne: "dp_pred d \<noteq> i" "dp_succ d \<noteq> i" by auto
    then have "item_by_id s' tenant (dp_pred d) = item_by_id s tenant (dp_pred d)" "item_by_id s' tenant (dp_succ d) = item_by_id s tenant (dp_succ d)"
      by (simp_all add: look ne option.map_ident)
    with that False d(3) show ?thesis by (simp add: respected_def)
  qed
  moreover have "x \<le> y" if "item_by_id s' tenant i = Some q" "wk_planned q = Some x" "wk_due q = Some y" for q x y
    using that r ab by (auto simp: look as_date_def after_date_def)
  ultimately show ?thesis by blast
qed

text \<open>
  Progress is rolled up one level only: in a project that weighs tasks, whose single top-level
  item has one child without progress of its own, the project and that child's bar stay at zero
  whatever happens below the child.
\<close>
theorem roll_up_one_level:
  assumes "pj_method p = ''TASK_WEIGHTED''" "children_of items ''__root__'' = [hub]" "children_of items (wk_id hub) = [mid]"
    and "wk_progress mid = 0" "children_of items (wk_id mid) = leaves" "leaves \<noteq> []" "\<forall>l \<in> set leaves. wk_progress l = 100"
  shows "rolled p items mid = 100 \<and> rolled p items hub = 0 \<and> project_progress p items = 0"
proof -
  have all: "taskWeighted xs = n" if "xs \<noteq> []" "\<forall>x \<in> set xs. clamp (pg_percent x) = n" for xs n
    using taskWeighted_between [OF that(1), of n n] that(2) by fastforce
  have "taskWeighted (map toProgressInput leaves) = 100"
    by (rule all) (use assms(6,7) in \<open>auto simp: toProgressInput_def clamp_def\<close>)
  moreover have "taskWeighted [toProgressInput mid] = 0"
    by (rule all) (use assms(4) in \<open>simp_all add: toProgressInput_def clamp_def\<close>)
  moreover have "taskWeighted [(toProgressInput hub)\<lparr>pg_percent := 0\<rparr>] = 0"
    by (rule all) (simp_all add: clamp_def)
  ultimately show ?thesis
    using assms(1-3,5,6) by (simp add: rolled_def project_progress_def computeProgress_def)
qed

text \<open>
  The summary of a project shows what its Gantt view hides: a milestone below another item is
  on the page a reader with summary access gets, while no bar of the coordination view is for it.
\<close>
theorem summary_shows_child_milestones:
  assumes "load_project s tenant i = Inr p" "resolveAccess s tenant actor p = SUMMARY"
    and r: "r \<in> set (projectItems s tenant i)" "wk_type r = ''MILESTONE''" "truthy_str (wk_parent r)" "distinct (map wk_id (w_items s))"
  shows "\<exists>tops ms bars. getProject v tenant actor i s = Inr (SummaryPage (projectSummary p (project_progress p (projectItems s tenant i))) tops ms) \<and>
    coordinationGantt v tenant actor i s = Inr (SUMMARY, projectSummary p (project_progress p (projectItems s tenant i)), bars) \<and>
    wk_id r \<in> sm_id ` set ms \<and> wk_id r \<notin> sm_id ` set bars"
proof -
  let ?items = "projectItems s tenant i"
  have sub: "set ?items \<subseteq> set (w_items s)" by (auto simp: projectItems_def Let_def)
  have bar_id: "sm_id (bar v p ?items q) = wk_id q" for q by (simp add: bar_def summary_with_def)
  have "wk_id r \<noteq> wk_id q" if "q \<in> set (top_level ?items)" for q
  proof
    assume "wk_id r = wk_id q"
    moreover have "q \<in> set (w_items s)" "r \<in> set (w_items s)" using that r(1) sub by (auto simp: top_level_def)
    ultimately have "q = r" using distinct_column_unique [OF r(4)] by metis
    with that r(3) show False by (simp add: top_level_def)
  qed
  then have "wk_id r \<notin> sm_id ` set (map (bar v p ?items) (top_level ?items))" by (auto simp: bar_id image_iff)
  moreover have "wk_id r \<in> sm_id ` set (map (bar v p ?items) (milestones ?items))"
    using r(1,2) by (force simp: bar_id milestones_def)
  ultimately show ?thesis using assms(1,2) by (auto simp: getProject_def coordinationGantt_def Let_def)
qed

subsection \<open>An example\<close>

definition demo_item :: "string \<Rightarrow> string option \<Rightarrow> string \<Rightarrow> int option \<Rightarrow> int option \<Rightarrow> work_row" where
  "demo_item i parent ty planned due =
     \<lparr>wk_id = i, wk_tenant = ''t1'', wk_project = Some ''p'', wk_parent = parent, wk_wbs = None, wk_type = ty, wk_title = i,
      wk_description = None, wk_status = ''TODO'', wk_priority = ''NORMAL'', wk_owner = Some ''an'', wk_assignees = [],
      wk_planned = planned, wk_due = due, wk_actualStart = None, wk_completed = None, wk_progress = 0, wk_weight = None,
      wk_estimate = None, wk_tags = [], wk_dims = JObj [], wk_by = ''an'', wk_created = 0\<rparr>"

definition demo_project :: project where
  "demo_project =
     \<lparr>pj_id = ''p'', pj_tenant = ''t1'', pj_code = ''P'', pj_name = ''Project'', pj_kind = ''INTERNAL'', pj_status = ''ACTIVE'',
      pj_health = ''UNKNOWN'', pj_method = ''TASK_WEIGHTED'', pj_progress = 0, pj_plannedStart = None, pj_plannedFinish = None,
      pj_forecastStart = None, pj_forecastFinish = None, pj_actualStart = None, pj_actualFinish = None, pj_owner = Some ''an'',
      pj_manager = None, pj_sponsor = None, pj_baseline = None, pj_tags = [], pj_dims = JObj [], pj_by = ''an'', pj_created = 0\<rparr>"

definition work_db :: wdb where
  "work_db = \<lparr>o_docs = [], o_versions = [], o_files = [], o_res = [], o_audit = [], o_org = empty_idb, o_seq = 0,
     w_items = [demo_item ''a'' None ''TASK'' (Some 0) (Some 10), demo_item ''b'' (Some ''a'') ''MILESTONE'' (Some 20) (Some 30)],
     w_comments = [], w_checks = [], w_events = [], w_deps = [], w_projects = [demo_project], w_baselines = [], w_bitems = [],
     w_roles = [], w_shares = [\<lparr>cs_tenant = ''t1'', cs_scope = ''PROJECT'', cs_scopeId = ''p'', cs_audienceType = ''USER'',
       cs_audience = Some ''viewer'', cs_tier = ''SUMMARY''\<rparr>], w_pevents = [], w_dimensions = []\<rparr>"

definition a_before_b :: dep_in where
  "a_before_b = \<lparr>di_pred = Some ''a'', di_succ = Some ''b'', di_type = None, di_lag = None\<rparr>"

definition linked :: "(dependency \<times> wdb) res" where
  "linked = addDependency demo_env ''t1'' a_before_b work_db"
definition work1 :: wdb where "work1 = snd (projr linked)"
definition frozen :: "((baseline \<times> nat) \<times> wdb) res" where
  "frozen = createBaseline demo_env ''t1'' ''an'' ''p'' None work1"
definition work2 :: wdb where "work2 = snd (projr frozen)"
definition moved_b :: "(item_full \<times> wdb) res" where
  "moved_b = rescheduleItem demo_env ''t1'' ''an'' ''b'' (Some (At 15)) None work2"

lemma work_runs:
  "is_ok linked" "is_ok frozen" "is_ok moved_b" "w_baselines work1 = []" "dep_edges work2 ''t1'' = [(''a'', ''b'')]"
  "map (\<lambda>p. (pj_tenant p, pj_id p)) (w_projects work2) = [(''t1'', ''p'')]" "length (w_items work2) = 2"
  "fst (projr linked) \<in> set (w_deps work2)" "dp_type (fst (projr linked)) = ''FS''" "dp_tenant (fst (projr linked)) = ''t1''"
  "dp_pred (fst (projr linked)) \<noteq> dp_succ (fst (projr linked))" "dp_succ (fst (projr linked)) = ''b''"
  "load_project work_db ''t1'' ''p'' = Inr demo_project" "resolveAccess work_db ''t1'' ''viewer'' demo_project = SUMMARY"
  by code_simp+

lemma linked_eq: "addDependency demo_env ''t1'' a_before_b work_db = Inr (fst (projr linked), work1)"
  unfolding work1_def linked_def [symmetric] by (rule ok_pair) (rule work_runs)

lemma frozen_eq: "createBaseline demo_env ''t1'' ''an'' ''p'' None work1 = Inr (fst (projr frozen), work2)"
  unfolding work2_def frozen_def [symmetric] by (rule ok_pair) (rule work_runs)

lemma moved_b_eq: "rescheduleItem demo_env ''t1'' ''an'' ''b'' (Some (At 15)) None work2 = Inr (fst (projr moved_b), snd (projr moved_b))"
  unfolding moved_b_def [symmetric] by (rule ok_pair) (rule work_runs)

lemma work_db_ok: "rows_ok work_db" "deps_acyclic work_db" "baselines_ok work_db"
  by (simp_all add: work_db_def rows_ok_def item_ok_def project_ok_def demo_item_def demo_project_def work_states_def
      PROJECT_STATUSES_def PROJECT_KINDS_def PROGRESS_METHODS_def deps_acyclic_def dep_edges_def baselines_ok_def
      versions_in_def newest_def counted_def acyclic_def)

lemma work_run: "(work_step lex_le demo_codec)\<^sup>*\<^sup>* work_db work2"
proof -
  have "work_step lex_le demo_codec work1 work2" by (intro ws_baseline [OF frozen_eq]) (simp add: work_runs)
  moreover have "work_step lex_le demo_codec work_db work1" by (rule ws_add_dep [OF linked_eq])
  ultimately show ?thesis by (meson converse_rtranclp_into_rtranclp r_into_rtranclp)
qed

lemma dependencies_acyclic_witness: "acyclic (set (dep_edges work2 ''t1'')) \<and> dep_edges work2 ''t1'' = [(''a'', ''b'')]"
  using dependencies_acyclic [OF work_run work_db_ok(1,2), THEN conjunct1] work_runs(5) by blast

lemma baselines_immutable_witness: "pj_baseline (hd (w_projects work2)) = newest work2 ''t1'' ''p''"
proof -
  have "map (\<lambda>p. (pj_tenant p, pj_id p)) (w_projects work2) = [(''t1'', ''p'')]" by (rule work_runs)
  then have "hd (w_projects work2) \<in> set (w_projects work2)" "pj_tenant (hd (w_projects work2)) = ''t1''" "pj_id (hd (w_projects work2)) = ''p''"
    by (cases "w_projects work2"; simp)+
  with baselines_immutable [OF work_run work_db_ok(1,3)] show ?thesis by metis
qed

lemma work_rows_consistent_witness: "\<exists>r. r \<in> set (w_items work2) \<and> 0 \<le> wk_progress r"
proof -
  have "hd (w_items work2) \<in> set (w_items work2)" using work_runs(7) by (intro hd_in_set) auto
  with work_rows_consistent [OF work_run work_db_ok(1)] show ?thesis by blast
qed

lemma reschedule_respects_dependencies_witness: "respected (snd (projr moved_b)) (fst (projr linked))"
  using reschedule_respects_dependencies [OF moved_b_eq work_runs(8-11)] work_runs(12) by simp

lemma roll_up_one_level_witness:
  "project_progress demo_project
     [demo_item ''a'' None ''TASK'' None None, demo_item ''b'' (Some ''a'') ''TASK'' None None,
      (demo_item ''c'' (Some ''b'') ''TASK'' None None)\<lparr>wk_progress := 100, wk_status := ''DONE''\<rparr>] = 0"
  using roll_up_one_level [of demo_project "[demo_item ''a'' None ''TASK'' None None, demo_item ''b'' (Some ''a'') ''TASK'' None None,
      (demo_item ''c'' (Some ''b'') ''TASK'' None None)\<lparr>wk_progress := 100, wk_status := ''DONE''\<rparr>]"
      "demo_item ''a'' None ''TASK'' None None" "demo_item ''b'' (Some ''a'') ''TASK'' None None"
      "[(demo_item ''c'' (Some ''b'') ''TASK'' None None)\<lparr>wk_progress := 100, wk_status := ''DONE''\<rparr>]"]
  by (simp add: demo_project_def demo_item_def children_of_def)

lemma summary_shows_child_milestones_witness:
  "\<exists>bars sm. coordinationGantt demo_env ''t1'' ''viewer'' ''p'' work_db = Inr (SUMMARY, sm, bars) \<and> ''b'' \<notin> sm_id ` set bars"
proof -
  let ?r = "demo_item ''b'' (Some ''a'') ''MILESTONE'' (Some 20) (Some 30)"
  have p: "load_project work_db ''t1'' ''p'' = Inr demo_project" by (rule work_runs)
  have a: "resolveAccess work_db ''t1'' ''viewer'' demo_project = SUMMARY" by (rule work_runs)
  have r: "?r \<in> set (projectItems work_db ''t1'' ''p'')" "wk_type ?r = ''MILESTONE''" "truthy_str (wk_parent ?r)"
    by (simp_all add: projectItems_def work_db_def demo_item_def Let_def)
  have d: "distinct (map wk_id (w_items work_db))" by (simp add: work_db_def demo_item_def)
  from summary_shows_child_milestones [OF p a r d, of demo_env] show ?thesis by (auto simp: demo_item_def)
qed

end
