(* ===== verification/Work_Stats.thy ===== *)
theory Work_Stats
  imports Work_Safety "HOL-Library.AList" "HOL-Library.Char_ord" "HOL-Library.List_Lexorder"
begin

section \<open>Statistics over work items\<close>

text \<open>
  xhub-api/src/work/stats/work-stats.service.ts: the cross table of work items over two axes (tags,
  dimensions or built-in facets). A JavaScript \<open>Map\<close> is an association list: \<open>AList.update\<close> keeps
  the place of an existing key and appends a new one. \<open>sort\<close> on strings is the order of their bytes.
\<close>

subsection \<open>Buckets\<close>

definition FACETS :: "string list" where
  "FACETS = [''status'', ''type'', ''priority'', ''project'']"

definition no_bucket :: string where
  "no_bucket = ''__none__''"

text \<open>The UTF-8 labels of the empty bucket and of the only column.\<close>

definition no_tag_label :: string where
  "no_tag_label = ''(Kh'' @ [CHR 0xC3, CHR 0xB4] @ ''ng th'' @ [CHR 0xE1, CHR 0xBA, CHR 0xBB] @ '')''"
definition no_value_label :: string where
  "no_value_label = ''(Kh'' @ [CHR 0xC3, CHR 0xB4] @ ''ng c'' @ [CHR 0xC3, CHR 0xB3] @ '')''"
definition total_label :: string where
  "total_label = ''T'' @ [CHR 0xE1, CHR 0xBB, CHR 0x95] @ ''ng''"

type_synonym labels = "(string \<times> (string \<times> string) list) list"

text \<open>\<open>typeof dims === 'object' ? dims[key] : undefined\<close>, \<open>null\<close> being falsy.\<close>

fun dim_value :: "json \<Rightarrow> string \<Rightarrow> json" where
  "dim_value (JObj kvs) k = get_prop (JObj kvs) k"
| "dim_value (JArr xs) k = get_prop (JArr xs) k"
| "dim_value _ k = JUndef"

definition facet_of :: "work_row \<Rightarrow> string \<Rightarrow> string option" where
  "facet_of r axis =
     (if axis = ''status'' then Some (wk_status r)
      else if axis = ''type'' then Some (wk_type r)
      else if axis = ''priority'' then Some (wk_priority r)
      else if axis = ''project'' then wk_project r else None)"

definition dim_prefix :: string where
  "dim_prefix = ''dimension:''"

definition buckets :: "work_row \<Rightarrow> string \<Rightarrow> labels \<Rightarrow> (string \<times> string) list" where
  "buckets r axis labels =
     (if axis = ''tag'' then (if wk_tags r = [] then [(no_bucket, no_tag_label)] else map (\<lambda>t. (t, t)) (wk_tags r))
      else if starts_with dim_prefix axis then
        (let key = drop (length dim_prefix) axis;
             raw = dim_value (wk_dims r) key;
             val = (if nullish raw \<or> raw = JStr [] then no_bucket else to_str raw)
         in [(val, if val = no_bucket then no_value_label
                   else coalesce (map_of (coalesce (map_of labels key) []) val) val)])
      else
        (let key = (if truthy_str (facet_of r axis) then the (facet_of r axis) else no_bucket)
         in [(key, if key = no_bucket then no_value_label else key)]))"

definition axis_ok :: "string \<Rightarrow> bool" where
  "axis_ok axis \<longleftrightarrow> starts_with dim_prefix axis \<or> axis \<in> set FACETS \<or> axis = ''tag''"

text \<open>The labels of the allowed values of each dimension.\<close>

definition add_label :: "json \<Rightarrow> (string \<times> string) list \<Rightarrow> (string \<times> string) list" where
  "add_label a m =
     (if truthy a \<and> \<not> nullish (get_prop a ''value'')
      then AList.update (to_str (get_prop a ''value'')) (to_str (jcoalesce (get_prop a ''label'') (get_prop a ''value''))) m
      else m)"

definition dim_labels :: "dimension list \<Rightarrow> labels" where
  "dim_labels ds =
     fold (\<lambda>d. AList.update (dm_key d) (fold add_label (case dm_allowed d of JArr xs \<Rightarrow> xs | _ \<Rightarrow> []) [])) ds []"

subsection \<open>The cross table\<close>

type_synonym cell = "int \<times> nat"
type_synonym accum = "(string \<times> (string \<times> cell) list) list"

definition bump :: "string \<Rightarrow> string \<Rightarrow> int \<Rightarrow> accum \<Rightarrow> accum" where
  "bump rk ck x acc =
     (let r = coalesce (map_of acc rk) []; (a, n) = coalesce (map_of r ck) (0, 0)
      in AList.update rk (AList.update ck (a + x, Suc n) r) acc)"

record table_state =
  ts_rows :: "(string \<times> string) list"
  ts_cols :: "(string \<times> string) list"
  ts_acc :: accum

definition add_cell :: "int \<Rightarrow> string \<times> string \<Rightarrow> string \<times> string \<Rightarrow> table_state \<Rightarrow> table_state" where
  "add_cell x rb cb t =
     t\<lparr>ts_cols := AList.update (fst cb) (snd cb) (ts_cols t), ts_acc := bump (fst rb) (fst cb) x (ts_acc t)\<rparr>"

definition add_row :: "int \<Rightarrow> (string \<times> string) list \<Rightarrow> string \<times> string \<Rightarrow> table_state \<Rightarrow> table_state" where
  "add_row x cbs rb t = fold (add_cell x rb) cbs (t\<lparr>ts_rows := AList.update (fst rb) (snd rb) (ts_rows t)\<rparr>)"

record stats_in =
  st_groupBy :: string
  st_col :: "string option"
  st_metric :: "string option"
  st_status :: "string option"
  st_type :: "string option"
  st_priority :: "string option"
  st_project :: "string option"
  st_tags :: "string list"
  st_dims :: "(string \<times> string) list"

definition stats_matches :: "string \<Rightarrow> stats_in \<Rightarrow> work_row \<Rightarrow> bool" where
  "stats_matches tenant o1 r \<longleftrightarrow> wk_tenant r = tenant \<and>
     (truthy_str (st_status o1) \<longrightarrow> wk_status r = to_upper (the (st_status o1))) \<and>
     (truthy_str (st_type o1) \<longrightarrow> wk_type r = to_upper (the (st_type o1))) \<and>
     (truthy_str (st_priority o1) \<longrightarrow> wk_priority r = to_upper (the (st_priority o1))) \<and>
     (truthy_str (st_project o1) \<longrightarrow> wk_project r = st_project o1) \<and>
     set (st_tags o1) \<subseteq> set (wk_tags r) \<and> dims_match (st_dims o1) (wk_dims r)"

definition measure_of :: "env \<Rightarrow> string \<Rightarrow> work_row \<Rightarrow> int" where
  "measure_of v metric r =
     (if metric = ''progress'' then wk_progress r else if metric = ''overdue'' then of_bool (item_late v r) else 1)"

definition col_buckets :: "work_row \<Rightarrow> string option \<Rightarrow> labels \<Rightarrow> (string \<times> string) list" where
  "col_buckets r col labels = (case col of None \<Rightarrow> [(''__all__'', total_label)] | Some a \<Rightarrow> buckets r a labels)"

definition add_item :: "env \<Rightarrow> string \<Rightarrow> string \<Rightarrow> string option \<Rightarrow> labels \<Rightarrow> work_row \<Rightarrow> table_state \<Rightarrow> table_state" where
  "add_item v metric groupBy col labels r t =
     fold (add_row (measure_of v metric r) (col_buckets r col labels)) (buckets r groupBy labels) t"

definition finalize :: "string \<Rightarrow> cell option \<Rightarrow> int" where
  "finalize metric c =
     (case c of None \<Rightarrow> 0
      | Some (a, n) \<Rightarrow> if metric = ''progress'' then (if n = 0 then 0 else js_round (of_int a / of_nat n)) else a)"

record stats_row =
  sr_key :: string
  sr_label :: string
  sr_cells :: "(string \<times> int) list"
  sr_total :: int

record stats_out =
  so_columns :: "(string \<times> string) list"
  so_rows :: "stats_row list"
  so_grand :: int
  so_count :: nat

definition row_total :: "string \<Rightarrow> (string \<times> cell) list \<Rightarrow> int" where
  "row_total metric rmap =
     finalize metric (Some (sum_list (map (fst \<circ> snd) rmap), sum_list (map (snd \<circ> snd) rmap)))"

definition stats_row_of :: "string \<Rightarrow> string list \<Rightarrow> table_state \<Rightarrow> string \<Rightarrow> stats_row" where
  "stats_row_of metric cols t rk =
     (let rmap = coalesce (map_of (ts_acc t) rk) []
      in \<lparr>sr_key = rk, sr_label = the (map_of (ts_rows t) rk), sr_cells = map (\<lambda>ck. (ck, finalize metric (map_of rmap ck))) cols,
          sr_total = row_total metric rmap\<rparr>)"

definition stats :: "env \<Rightarrow> string \<Rightarrow> stats_in \<Rightarrow> wdb \<Rightarrow> stats_out res" where
  "stats v tenant o1 s =
     (let col = (if truthy_str (st_col o1) then st_col o1 else None); metric = coalesce (st_metric o1) ''count'' in
      rbind (ensure (st_groupBy o1 \<noteq> []) (BadRequest ''groupBy is required'')) (\<lambda>_.
      rbind (ensure (axis_ok (st_groupBy o1)) (BadRequest ''invalid groupBy/col axis'')) (\<lambda>_.
      rbind (ensure (col = None \<or> axis_ok (the col)) (BadRequest ''invalid groupBy/col axis'')) (\<lambda>_.
      rbind (ensure (metric \<in> {''count'', ''progress'', ''overdue''}) (BadRequest ''invalid metric'')) (\<lambda>_.
        let rows = filter (stats_matches tenant o1) (w_items s);
            labels = dim_labels (filter (\<lambda>d. dm_tenant d = tenant) (w_dimensions s));
            t = fold (add_item v metric (st_groupBy o1) col labels) rows \<lparr>ts_rows = [], ts_cols = [], ts_acc = []\<rparr>;
            cols = sort (map fst (ts_cols t))
        in Inr \<lparr>so_columns = map (\<lambda>k. (k, the (map_of (ts_cols t) k))) cols,
                so_rows = map (stats_row_of metric cols t) (sort (map fst (ts_rows t))),
                so_grand = (if metric = ''progress''
                            then (if rows = [] then 0 else js_round (of_int (sum_list (map wk_progress rows)) / of_nat (length rows)))
                            else sum_list (map (measure_of v metric) rows)),
                so_count = length rows\<rparr>)))))"

subsection \<open>Sums over association lists\<close>

definition over :: "('v \<Rightarrow> int) \<Rightarrow> ('k \<times> 'v) list \<Rightarrow> int" where
  "over f al = sum_list (map (f \<circ> snd) al)"

lemma over_update:
  "distinct (map fst al) \<Longrightarrow> over f (AList.update k x al) = over f al + f x - (case map_of al k of None \<Rightarrow> 0 | Some y \<Rightarrow> f y)"
proof (induction al)
  case (Cons a al)
  show ?case
  proof (cases "fst a = k")
    case True
    with Cons.prems show ?thesis by (cases a) (simp add: over_def)
  next
    case False
    with Cons show ?thesis by (cases a) (simp add: over_def)
  qed
qed (simp add: over_def)

lemma keys_update: "set (map fst (AList.update k x al)) = insert k (set (map fst al))"
  by (simp add: dom_update [symmetric] dom_map_of_conv_image_fst [symmetric] update_conv')

lemma fst_update: "fst ` set (AList.update k x al) = insert k (fst ` set al)"
  using keys_update [of k x al] by simp

text \<open>Reading the values in the order of any permutation of the keys.\<close>

lemma over_keys:
  assumes "distinct ks" "distinct (map fst al)" "set (map fst al) \<subseteq> set ks"
  shows "sum_list (map (\<lambda>k. case map_of al k of None \<Rightarrow> 0 | Some x \<Rightarrow> f x) ks) = over f al"
proof -
  let ?g = "\<lambda>k. case map_of al k of None \<Rightarrow> 0 | Some x \<Rightarrow> f x"
  have "sum_list (map ?g ks) = sum ?g (set ks)" using assms(1) by (simp add: sum_list_distinct_conv_sum_set)
  also have "\<dots> = sum ?g (set (map fst al))"
  proof (rule sum.mono_neutral_right)
    show "\<forall>k \<in> set ks - set (map fst al). ?g k = 0"
      by (simp add: map_of_eq_None_iff [THEN iffD2])
  qed (use assms(3) in simp_all)
  also have "\<dots> = sum_list (map ?g (map fst al))" using assms(2) by (simp only: sum_list_distinct_conv_sum_set)
  also have "\<dots> = over f al"
  proof -
    have "?g (fst a) = f (snd a)" if "a \<in> set al" for a
      using map_of_is_SomeI [OF assms(2), of "fst a" "snd a"] that by simp
    then show ?thesis by (simp add: over_def comp_def cong: map_cong)
  qed
  finally show ?thesis .
qed

definition grand :: "accum \<Rightarrow> int" where
  "grand acc = over (over fst) acc"

definition row_fits :: "(string \<times> string) list \<Rightarrow> (string \<times> cell) list \<Rightarrow> bool" where
  "row_fits cols r \<longleftrightarrow> distinct (map fst r) \<and> fst ` set r \<subseteq> fst ` set cols"

definition acc_ok :: "table_state \<Rightarrow> bool" where
  "acc_ok t \<longleftrightarrow> distinct (map fst (ts_acc t)) \<and> distinct (map fst (ts_rows t)) \<and> distinct (map fst (ts_cols t)) \<and>
     fst ` set (ts_acc t) \<subseteq> fst ` set (ts_rows t) \<and> (\<forall>k r. map_of (ts_acc t) k = Some r \<longrightarrow> row_fits (ts_cols t) r)"

lemma row_fits_mono: "row_fits cols r \<Longrightarrow> row_fits (AList.update k x cols) r"
  by (auto simp: row_fits_def fst_update)

lemma row_ok:
  assumes "acc_ok t"
  shows "row_fits (ts_cols t) (coalesce (map_of (ts_acc t) k) [])"
  using assms by (cases "map_of (ts_acc t) k") (simp_all add: acc_ok_def row_fits_def [of _ "[]"])

lemma bump_grand:
  assumes "distinct (map fst acc)" "distinct (map fst (coalesce (map_of acc rk) []))"
  shows "grand (bump rk ck x acc) = grand acc + x"
proof -
  define r where "r = coalesce (map_of acc rk) []"
  obtain a n where c: "coalesce (map_of r ck) (0, 0) = (a, n)" by force
  have "over fst (AList.update ck (a + x, Suc n) r) = over fst r + x"
    using over_update [of r fst ck "(a + x, Suc n)"] assms(2) c by (cases "map_of r ck") (simp_all add: r_def)
  moreover have "(case map_of acc rk of None \<Rightarrow> 0 | Some y \<Rightarrow> over fst y) = over fst r"
    by (cases "map_of acc rk") (simp_all add: r_def over_def)
  ultimately show ?thesis
    using over_update [OF assms(1), of "over fst" rk "AList.update ck (a + x, Suc n) r"] c
    by (simp add: grand_def bump_def r_def Let_def)
qed

lemma add_cell_ok:
  assumes "acc_ok t" "fst rb \<in> fst ` set (ts_rows t)"
  shows "acc_ok (add_cell x rb cb t)" "grand (ts_acc (add_cell x rb cb t)) = grand (ts_acc t) + x"
    "ts_rows (add_cell x rb cb t) = ts_rows t"
proof -
  define r where "r = coalesce (map_of (ts_acc t) (fst rb)) []"
  obtain a n where c: "coalesce (map_of r (fst cb)) (0, 0) = (a, n)" by force
  have acc: "ts_acc (add_cell x rb cb t) = AList.update (fst rb) (AList.update (fst cb) (a + x, Suc n) r) (ts_acc t)"
    using c by (simp add: add_cell_def bump_def r_def Let_def)
  have cols: "ts_cols (add_cell x rb cb t) = AList.update (fst cb) (snd cb) (ts_cols t)" by (simp add: add_cell_def)
  have r: "row_fits (ts_cols t) r" unfolding r_def by (rule row_ok [OF assms(1)])
  then have new: "row_fits (ts_cols (add_cell x rb cb t)) (AList.update (fst cb) (a + x, Suc n) r)"
    by (auto simp: row_fits_def cols fst_update distinct_update)
  have "row_fits (ts_cols (add_cell x rb cb t)) q" if "map_of (ts_acc (add_cell x rb cb t)) k = Some q" for k q
  proof (cases "k = fst rb")
    case True
    with that new show ?thesis by (simp add: acc update_conv')
  next
    case False
    with that have "map_of (ts_acc t) k = Some q" by (simp add: acc update_conv')
    with assms(1) have "row_fits (ts_cols t) q" by (simp add: acc_ok_def)
    then show ?thesis unfolding cols by (rule row_fits_mono)
  qed
  moreover have "distinct (map fst (ts_acc (add_cell x rb cb t)))"
    using assms(1) by (simp add: acc acc_ok_def distinct_update)
  moreover have "distinct (map fst (ts_cols (add_cell x rb cb t)))"
    using assms(1) by (simp add: cols acc_ok_def distinct_update)
  moreover have "fst ` set (ts_acc (add_cell x rb cb t)) \<subseteq> fst ` set (ts_rows t)"
    using assms by (simp add: acc acc_ok_def fst_update)
  ultimately show "acc_ok (add_cell x rb cb t)"
    using assms(1) unfolding acc_ok_def by (simp add: add_cell_def)
  show "grand (ts_acc (add_cell x rb cb t)) = grand (ts_acc t) + x"
    using bump_grand [of "ts_acc t" "fst rb" "fst cb" x] assms(1) r
    by (simp add: add_cell_def acc_ok_def row_fits_def r_def)
qed (simp add: add_cell_def)


lemma add_cells_ok:
  "acc_ok t \<Longrightarrow> fst rb \<in> fst ` set (ts_rows t) \<Longrightarrow>
   acc_ok (fold (add_cell x rb) cbs t) \<and> grand (ts_acc (fold (add_cell x rb) cbs t)) = grand (ts_acc t) + x * int (length cbs)"
proof (induction cbs arbitrary: t)
  case (Cons cb cbs)
  then show ?case using add_cell_ok [OF Cons.prems, of x cb] by (simp add: algebra_simps)
qed simp

lemma add_row_ok:
  assumes "acc_ok t"
  shows "acc_ok (add_row x cbs rb t) \<and> grand (ts_acc (add_row x cbs rb t)) = grand (ts_acc t) + x * int (length cbs)"
proof -
  let ?t = "t\<lparr>ts_rows := AList.update (fst rb) (snd rb) (ts_rows t)\<rparr>"
  have "acc_ok ?t" using assms by (auto simp: acc_ok_def fst_update distinct_update)
  then show ?thesis using add_cells_ok [of ?t rb x cbs] by (simp add: add_row_def fst_update)
qed

lemma add_rows_ok:
  "acc_ok t \<Longrightarrow> acc_ok (fold (add_row x cbs) rbs t) \<and>
   grand (ts_acc (fold (add_row x cbs) rbs t)) = grand (ts_acc t) + x * (int (length rbs) * int (length cbs))"
proof (induction rbs arbitrary: t)
  case (Cons rb rbs)
  then show ?case using add_row_ok [OF Cons.prems, of x cbs rb] by (simp add: algebra_simps)
qed simp

definition weight_in :: "env \<Rightarrow> string \<Rightarrow> string \<Rightarrow> string option \<Rightarrow> labels \<Rightarrow> work_row \<Rightarrow> int" where
  "weight_in v metric groupBy col labels r =
     measure_of v metric r * (int (length (buckets r groupBy labels)) * int (length (col_buckets r col labels)))"

lemma add_items_ok:
  "acc_ok t \<Longrightarrow> acc_ok (fold (add_item v metric groupBy col labels) rows t) \<and>
   grand (ts_acc (fold (add_item v metric groupBy col labels) rows t)) =
     grand (ts_acc t) + sum_list (map (weight_in v metric groupBy col labels) rows)"
proof (induction rows arbitrary: t)
  case (Cons r rows)
  from add_rows_ok [OF Cons.prems, of "measure_of v metric r" "col_buckets r col labels" "buckets r groupBy labels"]
  have "acc_ok (add_item v metric groupBy col labels r t)"
    "grand (ts_acc (add_item v metric groupBy col labels r t)) = grand (ts_acc t) + weight_in v metric groupBy col labels r"
    by (simp_all add: add_item_def weight_in_def)
  with Cons.IH [of "add_item v metric groupBy col labels r t"] show ?case by simp
qed simp

lemma one_bucket: "a \<noteq> ''tag'' \<Longrightarrow> length (buckets r a labels) = 1"
  by (simp add: buckets_def Let_def)

lemma one_col: "col \<noteq> Some ''tag'' \<Longrightarrow> length (col_buckets r col labels) = 1"
  by (cases col) (auto simp: col_buckets_def one_bucket)

text \<open>The total of a row is what its cells add up to, and the totals add up to the accumulator.\<close>

lemma row_total_cells:
  assumes "metric \<noteq> ''progress''" "acc_ok t" "distinct cols" "set cols = fst ` set (ts_cols t)"
  shows "sr_total (stats_row_of metric cols t k) = sum_list (map snd (sr_cells (stats_row_of metric cols t k)))"
    "sr_total (stats_row_of metric cols t k) = over fst (coalesce (map_of (ts_acc t) k) [])"
proof -
  define rmap where "rmap = coalesce (map_of (ts_acc t) k) []"
  have fits: "row_fits (ts_cols t) rmap" unfolding rmap_def by (rule row_ok [OF assms(2)])
  have fin: "finalize metric c = (case c of None \<Rightarrow> 0 | Some x \<Rightarrow> fst x)" for c
    using assms(1) by (cases c) (auto simp: finalize_def)
  have "sum_list (map (\<lambda>k. finalize metric (map_of rmap k)) cols) = over fst rmap"
    unfolding fin by (rule over_keys) (use assms(3,4) fits in \<open>simp_all add: row_fits_def\<close>)
  moreover have "row_total metric rmap = over fst rmap" using assms(1) by (simp add: row_total_def fin over_def)
  ultimately show "sr_total (stats_row_of metric cols t k) = sum_list (map snd (sr_cells (stats_row_of metric cols t k)))"
    "sr_total (stats_row_of metric cols t k) = over fst (coalesce (map_of (ts_acc t) k) [])"
    by (simp_all add: stats_row_of_def Let_def rmap_def comp_def)
qed

lemma totals_grand:
  assumes "metric \<noteq> ''progress''" "acc_ok t" "distinct cols" "set cols = fst ` set (ts_cols t)"
    "distinct ks" "set ks = fst ` set (ts_rows t)"
  shows "sum_list (map (sr_total \<circ> stats_row_of metric cols t) ks) = grand (ts_acc t)"
proof -
  have "sr_total (stats_row_of metric cols t k) = (case map_of (ts_acc t) k of None \<Rightarrow> 0 | Some r \<Rightarrow> over fst r)" for k
    using row_total_cells(2) [OF assms(1-4), of k] by (cases "map_of (ts_acc t) k") (simp_all add: over_def)
  then have "sr_total \<circ> stats_row_of metric cols t = (\<lambda>k. case map_of (ts_acc t) k of None \<Rightarrow> 0 | Some r \<Rightarrow> over fst r)"
    by (simp add: comp_def)
  moreover have "sum_list (map (\<lambda>k. case map_of (ts_acc t) k of None \<Rightarrow> 0 | Some r \<Rightarrow> over fst r) ks) = over (over fst) (ts_acc t)"
    by (rule over_keys) (use assms(2,5,6) in \<open>simp_all add: acc_ok_def\<close>)
  ultimately show ?thesis by (simp only: grand_def)
qed

subsection \<open>The totals of the report\<close>

lemma weights_plain:
  assumes "groupBy \<noteq> ''tag''" "col \<noteq> Some ''tag''"
  shows "sum_list (map (weight_in v metric groupBy col labels) rows) = sum_list (map (measure_of v metric) rows)"
  using one_bucket [OF assms(1)] one_col [OF assms(2)] by (simp add: weight_in_def [abs_def])

lemma empty_table_ok: "acc_ok \<lparr>ts_rows = [], ts_cols = [], ts_acc = []\<rparr>"
  by (simp add: acc_ok_def)

text \<open>
  C20. In a report that counts items (or overdue items), the total of every row is the sum of its
  cells. When neither axis is the tag axis, the row totals add up to the grand total: no item is
  dropped and none is counted twice.
\<close>

theorem stats_totals:
  assumes "stats v tenant o1 s = Inr p" "st_metric o1 \<noteq> Some ''progress''"
  shows "(\<forall>r \<in> set (so_rows p). sr_total r = sum_list (map snd (sr_cells r))) \<and>
    (st_groupBy o1 \<noteq> ''tag'' \<and> st_col o1 \<noteq> Some ''tag'' \<longrightarrow> sum_list (map sr_total (so_rows p)) = so_grand p)"
proof -
  define col where "col = (if truthy_str (st_col o1) then st_col o1 else None)"
  define metric where "metric = coalesce (st_metric o1) ''count''"
  define rows where "rows = filter (stats_matches tenant o1) (w_items s)"
  define labels where "labels = dim_labels (filter (\<lambda>d. dm_tenant d = tenant) (w_dimensions s))"
  define t where "t = fold (add_item v metric (st_groupBy o1) col labels) rows \<lparr>ts_rows = [], ts_cols = [], ts_acc = []\<rparr>"
  define cols where "cols = sort (map fst (ts_cols t))"
  define ks where "ks = sort (map fst (ts_rows t))"
  have m: "metric \<noteq> ''progress''" using assms(2) by (cases "st_metric o1") (simp_all add: metric_def)
  have rows: "so_rows p = map (stats_row_of metric cols t) ks" and grand: "so_grand p = sum_list (map (measure_of v metric) rows)"
    using assms(1) m unfolding stats_def Let_def ks_def cols_def t_def labels_def rows_def col_def metric_def
    by (simp_all add: rbind_Inr_iff, auto)
  have t: "acc_ok t" "grand (ts_acc t) = sum_list (map (weight_in v metric (st_groupBy o1) col labels) rows)"
    using add_items_ok [OF empty_table_ok, of v metric "st_groupBy o1" col labels rows]
    by (simp_all add: t_def grand_def over_def)
  have cols: "distinct cols" "set cols = fst ` set (ts_cols t)" and ks: "distinct ks" "set ks = fst ` set (ts_rows t)"
    using t(1) by (simp_all add: cols_def ks_def acc_ok_def)
  have "sum_list (map sr_total (so_rows p)) = so_grand p" if "st_groupBy o1 \<noteq> ''tag''" "st_col o1 \<noteq> Some ''tag''"
  proof -
    have "col \<noteq> Some ''tag''" using that(2) by (simp add: col_def)
    with totals_grand [OF m t(1) cols ks] t(2) that(1) show ?thesis by (simp add: rows grand weights_plain)
  qed
  then show ?thesis using row_total_cells(1) [OF m t(1) cols] by (auto simp: rows)
qed

definition by_status :: stats_in where
  "by_status = \<lparr>st_groupBy = ''status'', st_col = Some ''type'', st_metric = None, st_status = None, st_type = None,
     st_priority = None, st_project = None, st_tags = [], st_dims = []\<rparr>"

definition report :: "stats_out res" where
  "report = stats demo_env ''t1'' by_status work_db"

lemma report_eq: "report = Inr (projr report)"
  by code_simp

lemma stats_totals_witness: "sum_list (map sr_total (so_rows (projr report))) = so_grand (projr report) \<and> so_grand (projr report) = 2"
proof -
  have "so_grand (projr report) = 2" by code_simp
  with stats_totals [OF report_eq [unfolded report_def]] show ?thesis by (simp add: by_status_def report_def)
qed

text \<open>
  With the tags as columns, an item with two tags is counted twice in the total of its row and once
  in the grand total.
\<close>

lemma tag_columns_count_twice:
  "map sr_total (so_rows (projr (stats demo_env ''t1'' (by_status\<lparr>st_col := Some ''tag''\<rparr>)
       (work_db\<lparr>w_items := [(demo_item ''a'' None ''TASK'' None None)\<lparr>wk_tags := [''x'', ''y'']\<rparr>]\<rparr>)))) = [2]"
  "so_grand (projr (stats demo_env ''t1'' (by_status\<lparr>st_col := Some ''tag''\<rparr>)
       (work_db\<lparr>w_items := [(demo_item ''a'' None ''TASK'' None None)\<lparr>wk_tags := [''x'', ''y'']\<rparr>]\<rparr>))) = 1"
  by code_simp+

end
