(* ===== verification/Customers.thy ===== *)
theory Customers
  imports Lifecycle
begin

section \<open>Customers and their contacts\<close>

text \<open>
  xhub-api/src/customers/customers.service.ts: accounts with their idempotency key and the
  informational search for duplicates, the status, contacts with one primary, the list and the
  360 view. The tables extend \<open>odb\<close>; the commercial and support modules extend them again.
\<close>

subsection \<open>State\<close>

record customer =
  cu_id :: string
  cu_tenant :: string
  cu_code :: string
  cu_name :: string
  cu_status :: string
  cu_owner :: "string option"
  cu_tax :: "string option"
  cu_key :: "string option"
  cu_by :: string

record contact =
  cn_id :: string
  cn_tenant :: string
  cn_customer :: string
  cn_name :: string
  cn_preference :: "string list"
  cn_primary :: bool
  cn_by :: string

text \<open>An entry of the timeline of a customer, opportunity, proposal, contract or case.\<close>

record crm_log =
  cl_tenant :: string
  cl_subject :: string
  cl_type :: string
  cl_actor :: string

record cudb = odb +
  cu_customers :: "customer list"
  cu_contacts :: "contact list"
  cu_events :: "crm_log list"

definition CUSTOMER_STATUSES :: "string list" where
  "CUSTOMER_STATUSES = [''PROSPECT'', ''ACTIVE'', ''INACTIVE'', ''BLOCKED'']"
definition CONTACT_CHANNELS :: "string list" where
  "CONTACT_CHANNELS = [''EMAIL'', ''SMS'', ''CALL'', ''ZALO'', ''NONE'']"

definition customer_event :: "string \<Rightarrow> string \<Rightarrow> string \<Rightarrow> string \<Rightarrow> 'a cudb_scheme \<Rightarrow> 'a cudb_scheme" where
  "customer_event tenant i ty actor s =
     log_audit tenant actor i (''customer.'' @ ty)
       (s\<lparr>cu_events := cu_events s @ [\<lparr>cl_tenant = tenant, cl_subject = i, cl_type = ty, cl_actor = actor\<rparr>]\<rparr>)"

definition customer_by_id :: "'a cudb_scheme \<Rightarrow> string \<Rightarrow> string \<Rightarrow> customer option" where
  "customer_by_id s tenant i = tfind (\<lambda>c. cu_id c = i \<and> cu_tenant c = tenant) (cu_customers s)"

definition load_customer :: "'a cudb_scheme \<Rightarrow> string \<Rightarrow> string \<Rightarrow> customer res" where
  "load_customer s tenant i =
     (case customer_by_id s tenant i of None \<Rightarrow> Inl (NotFound ''customer not found'') | Some c \<Rightarrow> Inr c)"

subsection \<open>Duplicate candidates\<close>

text \<open>
  The words of a name: \<open>split(/[^\p{L}\p{N}]+/u)\<close>. Every byte outside ASCII counts as part of a letter;
  the length of a word is the number of its characters, not of its bytes.
\<close>

definition word_char :: "char \<Rightarrow> bool" where
  "word_char c = (let n = of_char c :: nat in
     (48 \<le> n \<and> n \<le> 57) \<or> (65 \<le> n \<and> n \<le> 90) \<or> (97 \<le> n \<and> n \<le> 122) \<or> 128 \<le> n)"

definition char_count :: "string \<Rightarrow> nat" where
  "char_count w = length (filter (\<lambda>c. let n = of_char c :: nat in n < 128 \<or> 192 \<le> n) w)"

definition STOPWORDS :: "string list" where
  "STOPWORDS =
     [''c'' @ [CHR 0xC3, CHR 0xB4] @ ''ng'', ''ty'', ''c'' @ [CHR 0xE1, CHR 0xBB, CHR 0x95], ''ph'' @ [CHR 0xE1, CHR 0xBA, CHR 0xA7] @ ''n'',
      ''tr'' @ [CHR 0xC3, CHR 0xA1] @ ''ch'', ''nhi'' @ [CHR 0xE1, CHR 0xBB, CHR 0x87] @ ''m'', ''h'' @ [CHR 0xE1, CHR 0xBB, CHR 0xAF] @ ''u'',
      ''h'' @ [CHR 0xE1, CHR 0xBA, CHR 0xA1] @ ''n'', [CHR 0xC4, CHR 0x91, CHR 0xE1, CHR 0xBA, CHR 0xA7] @ ''u'', ''t'' @ [CHR 0xC6, CHR 0xB0],
      ''t'' @ [CHR 0xE1, CHR 0xBA, CHR 0xAD] @ ''p'', [CHR 0xC4, CHR 0x91] @ ''o'' @ [CHR 0xC3, CHR 0xA0] @ ''n'', ''doanh'',
      ''nghi'' @ [CHR 0xE1, CHR 0xBB, CHR 0x87] @ ''p'', ''the'', ''and'', ''of'', ''co'', ''ltd'', ''jsc'']"

definition name_tokens :: "string \<Rightarrow> string list" where
  "name_tokens name =
     filter (\<lambda>t. 4 \<le> char_count t \<and> t \<notin> set STOPWORDS)
       (split_on (CHR '' '') (map (\<lambda>c. if word_char c then c else CHR '' '') (to_lower name)))"

definition duplicateCandidates :: "string \<Rightarrow> string \<Rightarrow> string option \<Rightarrow> 'a cudb_scheme \<Rightarrow> customer list" where
  "duplicateCandidates tenant name exclude s =
     (let tokens = name_tokens name
      in if tokens = [] then []
         else take 5 (filter (\<lambda>c. cu_tenant c = tenant \<and> (\<exists>t \<in> set tokens. includes_str t (to_lower (cu_name c))) \<and>
                (truthy_str exclude \<longrightarrow> Some (cu_id c) \<noteq> exclude)) (cu_customers s)))"

subsection \<open>Accounts\<close>

record customer_in =
  ci_code :: "string option"
  ci_name :: "string option"
  ci_status :: "string option"
  ci_owner :: "string option"
  ci_tax :: "string option"
  ci_key :: "string option"

definition customer_by_key :: "'a cudb_scheme \<Rightarrow> string \<Rightarrow> string option \<Rightarrow> customer option" where
  "customer_by_key s tenant key =
     (if truthy_str key then tfind (\<lambda>c. cu_tenant c = tenant \<and> cu_key c = key) (cu_customers s) else None)"

definition customer_clash :: "'a cudb_scheme \<Rightarrow> customer \<Rightarrow> bool" where
  "customer_clash s c = (\<exists>u \<in> set (cu_customers s). cu_tenant u = cu_tenant c \<and>
     (cu_code u = cu_code c \<or> (cu_key c \<noteq> None \<and> cu_key u = cu_key c)))"

definition new_customer :: "env \<Rightarrow> string \<Rightarrow> string \<Rightarrow> customer_in \<Rightarrow> 'a cudb_scheme \<Rightarrow> customer" where
  "new_customer v tenant actor b s =
     \<lparr>cu_id = oid v s, cu_tenant = tenant,
      cu_code = (if trim_in (ci_code b) = [] then gen_code v ''CUS'' (o_seq s) else trim_in (ci_code b)),
      cu_name = trim_in (ci_name b), cu_status = to_upper (coalesce (ci_status b) ''PROSPECT''), cu_owner = ci_owner b,
      cu_tax = ci_tax b, cu_key = (if truthy_str (ci_key b) then ci_key b else None), cu_by = actor\<rparr>"

record created_customer =
  cc_customer :: customer
  cc_duplicates :: "customer list"
  cc_replayed :: bool

definition createCustomer :: "env \<Rightarrow> string \<Rightarrow> string \<Rightarrow> customer_in \<Rightarrow> 'a cudb_scheme \<Rightarrow> (created_customer \<times> 'a cudb_scheme) res" where
  "createCustomer v tenant actor b s =
     rbind (ensure (trim_in (ci_name b) \<noteq> []) (BadRequest ''name is required'')) (\<lambda>_.
     rbind (ensure (to_upper (coalesce (ci_status b) ''PROSPECT'') \<in> set CUSTOMER_STATUSES) (BadRequest ''status must be one of'')) (\<lambda>_.
       let c = new_customer v tenant actor b s;
           replay = (\<lambda>u. Inr (\<lparr>cc_customer = u, cc_duplicates = [], cc_replayed = True\<rparr>, s))
       in case customer_by_key s tenant (ci_key b) of
            Some u \<Rightarrow> replay u
          | None \<Rightarrow>
              if customer_clash s c then
                (case customer_by_key s tenant (ci_key b) of
                   Some u \<Rightarrow> replay u | None \<Rightarrow> Inl (BadRequest ''Customer code already exists''))
              else let s1 = s\<lparr>cu_customers := cu_customers s @ [c], o_seq := Suc (o_seq s)\<rparr>
                   in Inr (\<lparr>cc_customer = c, cc_duplicates = duplicateCandidates tenant (coalesce (ci_name b) '''') (Some (cu_id c)) s1,
                            cc_replayed = False\<rparr>,
                           customer_event tenant (cu_id c) ''created'' actor s1)))"

definition setCustomerStatus :: "string \<Rightarrow> string \<Rightarrow> string \<Rightarrow> string \<Rightarrow> 'a cudb_scheme \<Rightarrow> (customer \<times> 'a cudb_scheme) res" where
  "setCustomerStatus tenant actor i status s =
     rbind (ensure (to_upper status \<in> set CUSTOMER_STATUSES) (BadRequest ''status must be one of'')) (\<lambda>_.
     rbind (load_customer s tenant i) (\<lambda>c.
       let f = (\<lambda>r. r\<lparr>cu_status := to_upper status\<rparr>)
       in Inr (f c, customer_event tenant i ''status_changed'' actor
            (s\<lparr>cu_customers := tupd (\<lambda>r. cu_id r = i) f (cu_customers s)\<rparr>))))"

subsection \<open>Contacts\<close>

record contact_in =
  ki_name :: "string option"
  ki_preference :: "string list option"
  ki_primary :: bool

text \<open>At most one primary contact per customer: the existing one is unset first.\<close>

definition unset_primary :: "string \<Rightarrow> string \<Rightarrow> contact list \<Rightarrow> contact list" where
  "unset_primary tenant cid =
     map (\<lambda>k. if cn_tenant k = tenant \<and> cn_customer k = cid \<and> cn_primary k then k\<lparr>cn_primary := False\<rparr> else k)"

definition addContact :: "env \<Rightarrow> string \<Rightarrow> string \<Rightarrow> string \<Rightarrow> contact_in \<Rightarrow> 'a cudb_scheme \<Rightarrow> (contact \<times> 'a cudb_scheme) res" where
  "addContact v tenant actor cid b s =
     rbind (load_customer s tenant cid) (\<lambda>_.
     rbind (ensure (trim_in (ki_name b) \<noteq> []) (BadRequest ''displayName is required'')) (\<lambda>_.
       let pref = map to_upper (coalesce (ki_preference b) []) in
       rbind (ensure (set pref \<subseteq> set CONTACT_CHANNELS) (BadRequest ''contactPreference must be one of'')) (\<lambda>_.
         let others = (if ki_primary b then unset_primary tenant cid (cu_contacts s) else cu_contacts s);
             k = \<lparr>cn_id = oid v s, cn_tenant = tenant, cn_customer = cid, cn_name = trim_in (ki_name b), cn_preference = pref,
                  cn_primary = ki_primary b, cn_by = actor\<rparr>
         in Inr (k, customer_event tenant cid ''contact_added'' actor
              (s\<lparr>cu_contacts := others @ [k], o_seq := Suc (o_seq s)\<rparr>)))))"

subsection \<open>Reads\<close>

definition contacts_of :: "'a cudb_scheme \<Rightarrow> string \<Rightarrow> string \<Rightarrow> contact list" where
  "contacts_of s tenant cid = filter (\<lambda>k. cn_tenant k = tenant \<and> cn_customer k = cid) (cu_contacts s)"

text \<open>Newest first; each row with its primary contact (\<open>take: 1\<close>; the relation is by customer id).\<close>

definition listCustomers :: "string \<Rightarrow> string option \<Rightarrow> string option \<Rightarrow> 'a cudb_scheme \<Rightarrow> (customer \<times> contact list) list" where
  "listCustomers tenant status q s =
     map (\<lambda>c. (c, take 1 (filter (\<lambda>k. cn_customer k = cu_id c \<and> cn_primary k) (cu_contacts s))))
       (rev (filter (\<lambda>c. cu_tenant c = tenant \<and> (truthy_str status \<longrightarrow> cu_status c = to_upper (the status)) \<and>
          (truthy_str q \<longrightarrow> includes_str (to_lower (the q)) (to_lower (cu_name c)))) (cu_customers s)))"

record customer_page =
  cp_customer :: customer
  cp_contacts :: "contact list"
  cp_events :: "crm_log list"

definition getCustomer :: "string \<Rightarrow> string \<Rightarrow> 'a cudb_scheme \<Rightarrow> customer_page res" where
  "getCustomer tenant i s =
     rbind (load_customer s tenant i) (\<lambda>c.
       let ks = contacts_of s tenant i
       in Inr \<lparr>cp_customer = c, cp_contacts = filter cn_primary ks @ filter (Not \<circ> cn_primary) ks,
               cp_events = rev (filter (\<lambda>e. cl_tenant e = tenant \<and> cl_subject e = i) (cu_events s))\<rparr>)"

subsection \<open>One primary contact\<close>

definition one_primary :: "contact list \<Rightarrow> bool" where
  "one_primary ks \<longleftrightarrow> (\<forall>t c. length (filter (\<lambda>k. cn_tenant k = t \<and> cn_customer k = c \<and> cn_primary k) ks) \<le> 1)"

lemma unset_primary_none:
  "filter (\<lambda>k. cn_tenant k = t \<and> cn_customer k = c \<and> cn_primary k) (unset_primary t c ks) = []"
  by (induction ks) (simp_all add: unset_primary_def)

lemma unset_primary_other:
  "(t', c') \<noteq> (t, c) \<Longrightarrow>
   filter (\<lambda>k. cn_tenant k = t' \<and> cn_customer k = c' \<and> cn_primary k) (unset_primary t c ks) =
   filter (\<lambda>k. cn_tenant k = t' \<and> cn_customer k = c' \<and> cn_primary k) ks"
  by (induction ks) (auto simp: unset_primary_def)

lemma one_primary_snoc:
  assumes "one_primary ks"
  shows "one_primary ((if cn_primary k then unset_primary (cn_tenant k) (cn_customer k) ks else ks) @ [k])"
  unfolding one_primary_def
proof (intro allI)
  fix t c
  show "length (filter (\<lambda>k. cn_tenant k = t \<and> cn_customer k = c \<and> cn_primary k)
      ((if cn_primary k then unset_primary (cn_tenant k) (cn_customer k) ks else ks) @ [k])) \<le> 1"
  proof (cases "(t, c) = (cn_tenant k, cn_customer k)")
    case True
    then show ?thesis using assms by (simp add: one_primary_def unset_primary_none)
  next
    case False
    then show ?thesis using assms unset_primary_other [OF False] by (auto simp: one_primary_def)
  qed
qed

lemma customer_event_simps [simp]:
  "cu_customers (customer_event t i ty a s) = cu_customers s" "cu_contacts (customer_event t i ty a s) = cu_contacts s"
  "o_seq (customer_event t i ty a s) = o_seq s"
  by (simp_all add: customer_event_def log_audit_def)

inductive customer_step :: "cudb \<Rightarrow> cudb \<Rightarrow> bool" where
  cs_create: "createCustomer v tenant actor b s = Inr (w, s') \<Longrightarrow> customer_step s s'"
| cs_status: "setCustomerStatus tenant actor i st s = Inr (c, s') \<Longrightarrow> customer_step s s'"
| cs_contact: "addContact v tenant actor i k s = Inr (n, s') \<Longrightarrow> customer_step s s'"

lemma createCustomer_contacts: "createCustomer v tenant actor b s = Inr (w, s') \<Longrightarrow> cu_contacts s' = cu_contacts s"
  by (auto simp: createCustomer_def rbind_Inr_iff Let_def split: option.splits if_splits)

lemma addContactE:
  assumes "addContact v tenant actor cid b s = Inr (k, s')"
  shows "cu_contacts s' = (if cn_primary k then unset_primary (cn_tenant k) (cn_customer k) (cu_contacts s) else cu_contacts s) @ [k]"
    "cn_tenant k = tenant" "cn_customer k = cid" "cn_primary k = ki_primary b"
  using assms by (auto simp: addContact_def rbind_Inr_iff Let_def)

lemma customer_step_primary: "customer_step s s' \<Longrightarrow> one_primary (cu_contacts s) \<Longrightarrow> one_primary (cu_contacts s')"
proof (induction rule: customer_step.induct)
  case (cs_create v tenant actor b s w s')
  then show ?case by (simp add: createCustomer_contacts)
next
  case (cs_status tenant actor i st s c s')
  then show ?case by (auto simp: setCustomerStatus_def rbind_Inr_iff Let_def)
next
  case (cs_contact v tenant actor i k s n s')
  then show ?case using one_primary_snoc by (simp add: addContactE(1))
qed

text \<open>
  A customer has at most one primary contact: no sequence of creations, status changes and new
  contacts ever gives a customer two of them, and a contact added as the primary one is what the
  360 view shows first and the list shows beside the customer.
\<close>
theorem one_primary_contact:
  assumes "customer_step\<^sup>*\<^sup>* s s'" "one_primary (cu_contacts s)" "addContact v tenant actor cid b s' = Inr (k, s'')" "ki_primary b"
  shows "(\<forall>c. length (filter cn_primary (contacts_of s' tenant c)) \<le> 1) \<and> filter cn_primary (contacts_of s'' tenant cid) = [k] \<and>
    (\<forall>p. getCustomer tenant cid s'' = Inr p \<longrightarrow> hd (cp_contacts p) = k)"
proof -
  have "one_primary (cu_contacts s')"
    using assms(1,2) by (induction rule: rtranclp_induct) (auto dest: customer_step_primary)
  then have "length (filter cn_primary (contacts_of s' tenant c)) \<le> 1" for c
    by (simp add: one_primary_def contacts_of_def conj_ac)
  moreover have new: "filter cn_primary (contacts_of s'' tenant cid) = [k]"
    using addContactE [OF assms(3)] assms(4) unset_primary_none [of tenant cid "cu_contacts s'"]
    by (simp add: contacts_of_def conj_ac)
  moreover have "hd (cp_contacts p) = k" if "getCustomer tenant cid s'' = Inr p" for p
    using that new by (auto simp: getCustomer_def rbind_Inr_iff Let_def)
  ultimately show ?thesis by blast
qed

subsection \<open>An example\<close>

definition crm_db :: cudb where
  "crm_db = \<lparr>o_docs = [], o_versions = [], o_files = [], o_res = [], o_audit = [], o_org = empty_idb, o_seq = 0,
     cu_customers = [], cu_contacts = [], cu_events = []\<rparr>"

definition acme :: customer_in where
  "acme = \<lparr>ci_code = Some '' A1 '', ci_name = Some ''Acme Riverside'', ci_status = None, ci_owner = None, ci_tax = None, ci_key = Some ''k''\<rparr>"

definition signed_up :: "(created_customer \<times> cudb) res" where
  "signed_up = createCustomer demo_env ''t1'' ''an'' acme crm_db"
definition crm1 :: cudb where "crm1 = snd (projr signed_up)"

definition person :: "string \<Rightarrow> contact_in" where
  "person n = \<lparr>ki_name = Some n, ki_preference = Some [''email''], ki_primary = True\<rparr>"
definition met :: "(contact \<times> cudb) res" where "met = addContact demo_env ''t1'' ''an'' ''id0'' (person ''Binh'') crm1"
definition crm2 :: cudb where "crm2 = snd (projr met)"
definition met_again :: "(contact \<times> cudb) res" where "met_again = addContact demo_env ''t1'' ''an'' ''id0'' (person ''Chi'') crm2"

text \<open>The last run: a company that shares a telling word of its name with an existing account is pointed out.\<close>

lemma crm_runs: "is_ok signed_up" "is_ok met" "is_ok met_again"
  "map cu_code (cc_duplicates (fst (projr (createCustomer demo_env ''t1'' ''an''
     (acme\<lparr>ci_code := None, ci_name := Some ''JSC Riverside'', ci_key := None\<rparr>) crm1)))) = [''A1'']"
  by code_simp+

lemma signed_up_eq: "createCustomer demo_env ''t1'' ''an'' acme crm_db = Inr (fst (projr signed_up), crm1)"
  unfolding crm1_def signed_up_def [symmetric] by (rule ok_pair) (rule crm_runs)

lemma met_eq: "addContact demo_env ''t1'' ''an'' ''id0'' (person ''Binh'') crm1 = Inr (fst (projr met), crm2)"
  unfolding crm2_def met_def [symmetric] by (rule ok_pair) (rule crm_runs)

lemma met_again_eq: "addContact demo_env ''t1'' ''an'' ''id0'' (person ''Chi'') crm2 = Inr (fst (projr met_again), snd (projr met_again))"
  unfolding met_again_def [symmetric] by (rule ok_pair) (rule crm_runs)

lemma one_primary_contact_witness:
  "filter cn_primary (contacts_of (snd (projr met_again)) ''t1'' ''id0'') = [fst (projr met_again)]"
proof -
  have "customer_step crm_db crm1" by (rule cs_create [OF signed_up_eq])
  moreover have "customer_step crm1 crm2" by (rule cs_contact [OF met_eq])
  ultimately have "customer_step\<^sup>*\<^sup>* crm_db crm2" by auto
  moreover have "one_primary (cu_contacts crm_db)" by (simp add: one_primary_def crm_db_def)
  moreover have "ki_primary (person ''Chi'')" by (simp add: person_def)
  ultimately show ?thesis using one_primary_contact [OF _ _ met_again_eq] by blast
qed

end
