(* ===== verification/Sales.thy ===== *)
theory Sales
  imports Customers Stages Json
begin

section \<open>Catalog, opportunities and proposals\<close>

text \<open>
  xhub-api/src/commercial-catalog, opportunities and proposals (*.service.ts): catalog items with
  their version, the stages of a deal, versioned proposals with priced lines and the discount
  threshold. Amounts are decimal strings; a total the code computes and stores as \<open>String(total)\<close> is
  kept as the number it reads back as, exact where JavaScript rounds to a double.
\<close>

subsection \<open>Amounts\<close>

fun num_add :: "num_val \<Rightarrow> num_val \<Rightarrow> num_val" where
  "num_add (Fin a) (Fin b) = Fin (a + b)"
| "num_add NaN _ = NaN"
| "num_add _ NaN = NaN"
| "num_add PosInf NegInf = NaN"
| "num_add NegInf PosInf = NaN"
| "num_add PosInf _ = PosInf"
| "num_add NegInf _ = NegInf"
| "num_add _ PosInf = PosInf"
| "num_add _ NegInf = NegInf"

text \<open>A number times a finite one.\<close>

definition num_scale :: "num_val \<Rightarrow> rat \<Rightarrow> num_val" where
  "num_scale x r =
     (case x of Fin a \<Rightarrow> Fin (a * r) | NaN \<Rightarrow> NaN
      | PosInf \<Rightarrow> (if r = 0 then NaN else if 0 < r then PosInf else NegInf)
      | NegInf \<Rightarrow> (if r = 0 then NaN else if 0 < r then NegInf else PosInf))"

text \<open>\<open>reduce((sum, l) => sum + Number(x), 0)\<close>\<close>

definition num_sum :: "num_val list \<Rightarrow> num_val" where
  "num_sum xs = foldl num_add (Fin 0) xs"

lemma num_sum_snoc: "num_sum (xs @ [x]) = num_add (num_sum xs) x"
  by (simp add: num_sum_def)

lemma num_sum_finite: "num_sum (map Fin xs) = Fin (sum_list xs)"
proof -
  have "foldl num_add (Fin a) (map Fin xs) = Fin (a + sum_list xs)" for a
    by (induction xs arbitrary: a) (simp_all add: add.assoc)
  then show ?thesis by (simp add: num_sum_def)
qed

subsection \<open>State\<close>

record opportunity =
  op_id :: string
  op_tenant :: string
  op_customer :: string
  op_title :: string
  op_stage :: string
  op_amount :: string
  op_currency :: string
  op_probability :: "rat option"
  op_close :: "int option"
  op_owner :: "string option"
  op_lost :: "string option"
  op_key :: "string option"
  op_by :: string

record catalog_item =
  ca_id :: string
  ca_tenant :: string
  ca_code :: string
  ca_name :: string
  ca_type :: string
  ca_ref :: "string option"
  ca_price :: "string option"
  ca_version :: nat
  ca_active :: bool

record proposal =
  pr_id :: string
  pr_tenant :: string
  pr_opp :: string
  pr_version :: nat
  pr_status :: string
  pr_total :: num_val
  pr_currency :: string
  pr_valid :: "int option"
  pr_approval :: bool
  pr_by :: string

record proposal_line =
  pl_id :: string
  pl_tenant :: string
  pl_proposal :: string
  pl_item :: string
  pl_quantity :: int
  pl_price :: string
  pl_discount :: rat
  pl_total :: num_val

record proposal_log = crm_log +
  pe_to :: string
  pe_note :: "string option"

record sadb = cudb +
  sa_opps :: "opportunity list"
  sa_oevents :: "crm_log list"
  sa_items :: "catalog_item list"
  sa_props :: "proposal list"
  sa_lines :: "proposal_line list"
  sa_pevents :: "proposal_log list"

subsection \<open>Catalog\<close>

definition COMMERCIAL_TYPES :: "string list" where
  "COMMERCIAL_TYPES = [''PRODUCT'', ''SERVICE'', ''SUBSCRIPTION'', ''IMPLEMENTATION'', ''SUPPORT'', ''TRAINING'']"
definition PRICE_MODELS :: "string list" where
  "PRICE_MODELS = [''ONE_TIME'', ''RECURRING'', ''USAGE'', ''TIME_MATERIAL'', ''MILESTONE'']"

definition item_of :: "'a sadb_scheme \<Rightarrow> string \<Rightarrow> string \<Rightarrow> catalog_item option" where
  "item_of s tenant i = tfind (\<lambda>c. ca_id c = i \<and> ca_tenant c = tenant) (sa_items s)"

definition price_ok :: "string option \<Rightarrow> bool" where
  "price_ok p \<longleftrightarrow> (truthy_str p \<longrightarrow> to_upper (the p) \<in> set PRICE_MODELS)"

record catalog_in =
  gi_code :: "string option"
  gi_name :: "string option"
  gi_type :: "string option"
  gi_ref :: "string option"
  gi_price :: "string option"

text \<open>The lookup is by the code as given, the row gets the trimmed code: the unique index has the last word.\<close>

definition createCommercialItem :: "env \<Rightarrow> string \<Rightarrow> catalog_in \<Rightarrow> 'a sadb_scheme \<Rightarrow> (catalog_item \<times> 'a sadb_scheme) res" where
  "createCommercialItem v tenant b s =
     rbind (ensure (trim_in (gi_code b) \<noteq> []) (BadRequest ''code is required'')) (\<lambda>_.
     rbind (ensure (trim_in (gi_name b) \<noteq> []) (BadRequest ''name is required'')) (\<lambda>_.
     rbind (ensure (map_option to_upper (gi_type b) \<in> Some ` set COMMERCIAL_TYPES) (BadRequest ''commercialType must be one of'')) (\<lambda>_.
     rbind (ensure (price_ok (gi_price b)) (BadRequest ''priceModel must be one of'')) (\<lambda>_.
     rbind (ensure (\<forall>c \<in> set (sa_items s). \<not> (ca_tenant c = tenant \<and> Some (ca_code c) = gi_code b))
              (BadRequest ''Catalog item code already exists'')) (\<lambda>_.
       let c = \<lparr>ca_id = oid v s, ca_tenant = tenant, ca_code = trim_in (gi_code b), ca_name = trim_in (gi_name b),
                ca_type = to_upper (coalesce (gi_type b) ''''), ca_ref = gi_ref b, ca_price = map_option to_upper (gi_price b),
                ca_version = 1, ca_active = True\<rparr>
       in if \<exists>u \<in> set (sa_items s). ca_tenant u = tenant \<and> ca_code u = ca_code c then Inl UniqueViolation
          else Inr (c, s\<lparr>sa_items := sa_items s @ [c], o_seq := Suc (o_seq s)\<rparr>))))))"

definition updateCatalogItem ::
  "string \<Rightarrow> string \<Rightarrow> string option \<Rightarrow> string option \<Rightarrow> bool option \<Rightarrow> 'a sadb_scheme \<Rightarrow> (catalog_item \<times> 'a sadb_scheme) res" where
  "updateCatalogItem tenant i name price active s =
     (case item_of s tenant i of
        None \<Rightarrow> Inl (NotFound ''catalog item not found'')
      | Some c \<Rightarrow>
          rbind (ensure (price_ok price) (BadRequest ''priceModel must be one of'')) (\<lambda>_.
            let f = (\<lambda>c. c\<lparr>ca_name := coalesce (map_option trim name) (ca_name c),
                          ca_price := coalesce_opt (map_option to_upper price) (ca_price c),
                          ca_active := coalesce active (ca_active c), ca_version := Suc (ca_version c)\<rparr>)
            in Inr (f c, s\<lparr>sa_items := tupd (\<lambda>c. ca_id c = i) f (sa_items s)\<rparr>)))"

definition getCatalogItem :: "string \<Rightarrow> string \<Rightarrow> 'a sadb_scheme \<Rightarrow> catalog_item res" where
  "getCatalogItem tenant x s =
     (case tfind (\<lambda>c. ca_tenant c = tenant \<and> (ca_id c = x \<or> ca_code c = x)) (sa_items s) of
        None \<Rightarrow> Inl (NotFound ''catalog item not found'') | Some c \<Rightarrow> Inr c)"

subsection \<open>Opportunities\<close>

definition OPP_STAGES :: "string list" where
  "OPP_STAGES = [''LEAD'', ''QUALIFIED'', ''DISCOVERY'', ''PROPOSAL'', ''NEGOTIATION'', ''WON'', ''LOST'']"

definition opp_allowed :: "string \<Rightarrow> string list" where
  "opp_allowed x =
     (if x = ''LEAD'' then [''QUALIFIED'', ''LOST''] else if x = ''QUALIFIED'' then [''DISCOVERY'', ''LOST'']
      else if x = ''DISCOVERY'' then [''PROPOSAL'', ''LOST''] else if x = ''PROPOSAL'' then [''NEGOTIATION'', ''LOST'']
      else if x = ''NEGOTIATION'' then [''WON'', ''LOST''] else [])"

definition opp_event :: "string \<Rightarrow> string \<Rightarrow> string \<Rightarrow> string \<Rightarrow> 'a sadb_scheme \<Rightarrow> 'a sadb_scheme" where
  "opp_event tenant i ty actor s =
     log_audit tenant actor i (''opportunity.'' @ ty)
       (s\<lparr>sa_oevents := sa_oevents s @ [\<lparr>cl_tenant = tenant, cl_subject = i, cl_type = ty, cl_actor = actor\<rparr>]\<rparr>)"

definition opp_of :: "'a sadb_scheme \<Rightarrow> string \<Rightarrow> string \<Rightarrow> opportunity option" where
  "opp_of s tenant i = tfind (\<lambda>r. op_id r = i \<and> op_tenant r = tenant) (sa_opps s)"

definition load_opp :: "'a sadb_scheme \<Rightarrow> string \<Rightarrow> string \<Rightarrow> opportunity res" where
  "load_opp s tenant i = (case opp_of s tenant i of None \<Rightarrow> Inl (NotFound ''opportunity not found'') | Some r \<Rightarrow> Inr r)"

record opp_in =
  oi_customer :: string
  oi_title :: "string option"
  oi_amount :: string
  oi_currency :: "string option"
  oi_probability :: "rat option"
  oi_close :: date_in
  oi_owner :: "string option"
  oi_key :: "string option"

definition opp_by_key :: "'a sadb_scheme \<Rightarrow> string \<Rightarrow> string option \<Rightarrow> opportunity option" where
  "opp_by_key s tenant key =
     (if truthy_str key then tfind (\<lambda>r. op_tenant r = tenant \<and> op_key r = key) (sa_opps s) else None)"

definition new_opp :: "env \<Rightarrow> string \<Rightarrow> string \<Rightarrow> opp_in \<Rightarrow> 'a sadb_scheme \<Rightarrow> opportunity" where
  "new_opp v tenant actor b s =
     \<lparr>op_id = oid v s, op_tenant = tenant, op_customer = oi_customer b, op_title = trim_in (oi_title b), op_stage = ''LEAD'',
      op_amount = oi_amount b, op_currency = coalesce (oi_currency b) ''VND'', op_probability = oi_probability b,
      op_close = date_opt (oi_close b), op_owner = oi_owner b, op_lost = None,
      op_key = (if truthy_str (oi_key b) then oi_key b else None), op_by = actor\<rparr>"

text \<open>The flag says whether the row is a replay. An invalid date is refused by the database client.\<close>

definition createOpportunity :: "env \<Rightarrow> string \<Rightarrow> string \<Rightarrow> opp_in \<Rightarrow> 'a sadb_scheme \<Rightarrow> ((opportunity \<times> bool) \<times> 'a sadb_scheme) res" where
  "createOpportunity v tenant actor b s =
     rbind (ensure (trim_in (oi_title b) \<noteq> []) (BadRequest ''title is required'')) (\<lambda>_.
     rbind (ensure (oi_customer b \<noteq> []) (BadRequest ''customerId is required'')) (\<lambda>_.
     rbind (ensure (oi_amount b \<noteq> []) (BadRequest ''expectedAmount is required'')) (\<lambda>_.
     rbind (load_customer s tenant (oi_customer b)) (\<lambda>_.
       case opp_by_key s tenant (oi_key b) of
         Some r \<Rightarrow> Inr ((r, True), s)
       | None \<Rightarrow>
           rbind (ensure (oi_close b \<noteq> Invalid) TypeErr) (\<lambda>_.
             let r = new_opp v tenant actor b s
             in Inr ((r, False), opp_event tenant (op_id r) ''created'' actor (s\<lparr>sa_opps := sa_opps s @ [r], o_seq := Suc (o_seq s)\<rparr>)))))))"

definition transitionOpportunity ::
  "string \<Rightarrow> string \<Rightarrow> string \<Rightarrow> string \<Rightarrow> string option \<Rightarrow> 'a sadb_scheme \<Rightarrow> (opportunity \<times> 'a sadb_scheme) res" where
  "transitionOpportunity tenant actor i toStage reason s =
     (let stage = to_upper toStage in
      rbind (ensure (stage \<in> set OPP_STAGES) (BadRequest ''stage must be one of'')) (\<lambda>_.
      rbind (load_opp s tenant i) (\<lambda>r.
      rbind (ensure (stage \<in> set (opp_allowed (op_stage r))) (BadRequest ''Cannot transition'')) (\<lambda>_.
      rbind (ensure (stage = ''LOST'' \<longrightarrow> trim_in reason \<noteq> []) (BadRequest ''lostReason is required when marking an opportunity LOST'')) (\<lambda>_.
        let f = (\<lambda>r. r\<lparr>op_stage := stage, op_lost := (if stage = ''LOST'' then Some (trim_in reason) else op_lost r)\<rparr>)
        in Inr (f r, opp_event tenant i ''stage_changed'' actor (s\<lparr>sa_opps := tupd (\<lambda>r. op_id r = i) f (sa_opps s)\<rparr>)))))))"

definition listOpportunities :: "string \<Rightarrow> string option \<Rightarrow> string option \<Rightarrow> 'a sadb_scheme \<Rightarrow> opportunity list" where
  "listOpportunities tenant stage customer s =
     rev (filter (\<lambda>r. op_tenant r = tenant \<and> (truthy_str stage \<longrightarrow> op_stage r = to_upper (the stage)) \<and>
            (truthy_str customer \<longrightarrow> Some (op_customer r) = customer)) (sa_opps s))"

subsection \<open>Proposals\<close>

definition PROPOSAL_STATUSES :: "string list" where
  "PROPOSAL_STATUSES = [''DRAFT'', ''IN_REVIEW'', ''APPROVED'', ''SENT'', ''ACCEPTED'', ''REJECTED'', ''EXPIRED'']"

definition proposal_allowed :: "string \<Rightarrow> string list" where
  "proposal_allowed x =
     (if x = ''DRAFT'' then [''IN_REVIEW''] else if x = ''IN_REVIEW'' then [''APPROVED'', ''REJECTED'']
      else if x = ''APPROVED'' then [''SENT''] else if x = ''SENT'' then [''ACCEPTED'', ''REJECTED'', ''EXPIRED''] else [])"

definition DISCOUNT_THRESHOLD :: rat where
  "DISCOUNT_THRESHOLD = 15"

definition proposal_event ::
  "string \<Rightarrow> string \<Rightarrow> string \<Rightarrow> string \<Rightarrow> string \<Rightarrow> string option \<Rightarrow> 'a sadb_scheme \<Rightarrow> 'a sadb_scheme" where
  "proposal_event tenant i ty actor to note s =
     log_audit tenant actor i (''proposal.'' @ ty)
       (s\<lparr>sa_pevents := sa_pevents s @
            [\<lparr>cl_tenant = tenant, cl_subject = i, cl_type = ty, cl_actor = actor, pe_to = to, pe_note = note\<rparr>]\<rparr>)"

definition load_proposal :: "'a sadb_scheme \<Rightarrow> string \<Rightarrow> string \<Rightarrow> proposal res" where
  "load_proposal s tenant i =
     (case tfind (\<lambda>r. pr_id r = i \<and> pr_tenant r = tenant) (sa_props s) of
        None \<Rightarrow> Inl (NotFound ''proposal not found'') | Some r \<Rightarrow> Inr r)"

definition set_proposal :: "string \<Rightarrow> (proposal \<Rightarrow> proposal) \<Rightarrow> 'a sadb_scheme \<Rightarrow> 'a sadb_scheme" where
  "set_proposal i f s = s\<lparr>sa_props := tupd (\<lambda>r. pr_id r = i) f (sa_props s)\<rparr>"

definition versions_of_opp :: "'a sadb_scheme \<Rightarrow> string \<Rightarrow> string \<Rightarrow> nat list" where
  "versions_of_opp s tenant i = map pr_version (filter (\<lambda>p. pr_tenant p = tenant \<and> pr_opp p = i) (sa_props s))"

definition createProposal :: "env \<Rightarrow> string \<Rightarrow> string \<Rightarrow> string \<Rightarrow> date_in \<Rightarrow> 'a sadb_scheme \<Rightarrow> (proposal \<times> 'a sadb_scheme) res" where
  "createProposal v tenant actor i valid s =
     rbind (load_opp s tenant i) (\<lambda>r.
     rbind (ensure (valid \<noteq> Invalid) TypeErr) (\<lambda>_.
       let p = \<lparr>pr_id = oid v s, pr_tenant = tenant, pr_opp = i, pr_version = foldr max (versions_of_opp s tenant i) 0 + 1,
                pr_status = ''DRAFT'', pr_total = Fin 0, pr_currency = op_currency r, pr_valid = date_opt valid,
                pr_approval = False, pr_by = actor\<rparr>
       in Inr (p, proposal_event tenant (pr_id p) ''created'' actor '''' None
            (s\<lparr>sa_props := sa_props s @ [p], o_seq := Suc (o_seq s)\<rparr>))))"

definition lines_of :: "'a sadb_scheme \<Rightarrow> string \<Rightarrow> string \<Rightarrow> proposal_line list" where
  "lines_of s tenant i = filter (\<lambda>l. pl_tenant l = tenant \<and> pl_proposal l = i) (sa_lines s)"

definition recompute_proposal :: "string \<Rightarrow> string \<Rightarrow> 'a sadb_scheme \<Rightarrow> 'a sadb_scheme" where
  "recompute_proposal tenant i s =
     (let ls = lines_of s tenant i
      in set_proposal i (\<lambda>p. p\<lparr>pr_total := num_sum (map pl_total ls),
           pr_approval := (\<exists>l \<in> set ls. DISCOUNT_THRESHOLD < pl_discount l)\<rparr>) s)"

record line_in =
  li_item :: string
  li_quantity :: "int option"
  li_price :: string
  li_discount :: "rat option"

definition addProposalLine :: "env \<Rightarrow> string \<Rightarrow> string \<Rightarrow> string \<Rightarrow> line_in \<Rightarrow> 'a sadb_scheme \<Rightarrow> (proposal_line \<times> 'a sadb_scheme) res" where
  "addProposalLine v tenant actor i b s =
     rbind (load_proposal s tenant i) (\<lambda>p.
     rbind (ensure (pr_status p = ''DRAFT'') (BadRequest ''Cannot add lines to a proposal (must be DRAFT)'')) (\<lambda>_.
     rbind (ensure (item_of s tenant (li_item b) \<noteq> None) (NotFound ''catalog item not found'')) (\<lambda>_.
     rbind (ensure (li_price b \<noteq> []) (BadRequest ''unitPrice is required'')) (\<lambda>_.
       let q = coalesce (li_quantity b) 1; d = coalesce (li_discount b) 0 in
       rbind (ensure (0 \<le> d \<and> d \<le> 100) (BadRequest ''discountPercent must be between 0 and 100'')) (\<lambda>_.
         let l = \<lparr>pl_id = oid v s, pl_tenant = tenant, pl_proposal = i, pl_item = li_item b, pl_quantity = q, pl_price = li_price b,
                  pl_discount = d, pl_total = num_scale (num_scale (str_to_num (li_price b)) (of_int q)) (1 - d / 100)\<rparr>
         in Inr (l, proposal_event tenant i ''line_added'' actor '''' None
              (recompute_proposal tenant i (s\<lparr>sa_lines := sa_lines s @ [l], o_seq := Suc (o_seq s)\<rparr>))))))))"

definition transitionProposal ::
  "string \<Rightarrow> string \<Rightarrow> string \<Rightarrow> string \<Rightarrow> string option \<Rightarrow> 'a sadb_scheme \<Rightarrow> (proposal \<times> 'a sadb_scheme) res" where
  "transitionProposal tenant actor i toStatus note s =
     (let st = to_upper toStatus in
      rbind (ensure (st \<in> set PROPOSAL_STATUSES) (BadRequest ''status must be one of'')) (\<lambda>_.
      rbind (load_proposal s tenant i) (\<lambda>p.
      rbind (ensure (st \<in> set (proposal_allowed (pr_status p))) (BadRequest ''Cannot transition'')) (\<lambda>_.
      rbind (ensure (st = ''APPROVED'' \<and> pr_approval p \<longrightarrow> trim_in note \<noteq> [])
               (BadRequest ''approverNote is required to approve a proposal above the discount threshold'')) (\<lambda>_.
        let f = (\<lambda>p. p\<lparr>pr_status := st\<rparr>)
        in Inr (f p, proposal_event tenant i ''status_changed'' actor st note (set_proposal i f s)))))))"

record proposal_page =
  pp_proposal :: proposal
  pp_lines :: "proposal_line list"
  pp_events :: "proposal_log list"

definition getProposal :: "string \<Rightarrow> string \<Rightarrow> 'a sadb_scheme \<Rightarrow> proposal_page res" where
  "getProposal tenant i s =
     rbind (load_proposal s tenant i) (\<lambda>p.
       Inr \<lparr>pp_proposal = p, pp_lines = lines_of s tenant i,
            pp_events = rev (filter (\<lambda>e. cl_tenant e = tenant \<and> cl_subject e = i) (sa_pevents s))\<rparr>)"

subsection \<open>Steps\<close>

inductive sales_step :: "sadb \<Rightarrow> sadb \<Rightarrow> bool" where
  sa_customer: "createCustomer v tenant actor cb s = Inr (cw, s') \<Longrightarrow> sales_step s s'"
| sa_status: "setCustomerStatus tenant actor i st s = Inr (c, s') \<Longrightarrow> sales_step s s'"
| sa_contact: "addContact v tenant actor i k s = Inr (n, s') \<Longrightarrow> sales_step s s'"
| sa_item: "createCommercialItem v tenant gb s = Inr (g, s') \<Longrightarrow> sales_step s s'"
| sa_update_item: "updateCatalogItem tenant i name price active s = Inr (g, s') \<Longrightarrow> sales_step s s'"
| sa_opp: "createOpportunity v tenant actor ob s = Inr (ow, s') \<Longrightarrow> oid v s \<notin> op_id ` set (sa_opps s) \<Longrightarrow> sales_step s s'"
| sa_move: "transitionOpportunity tenant actor i st reason s = Inr (r, s') \<Longrightarrow> sales_step s s'"
| sa_proposal: "createProposal v tenant actor i d s = Inr (p, s') \<Longrightarrow> oid v s \<notin> pr_id ` set (sa_props s) \<Longrightarrow> sales_step s s'"
| sa_line: "addProposalLine v tenant actor i lb s = Inr (l, s') \<Longrightarrow> sales_step s s'"
| sa_decide: "transitionProposal tenant actor i st nt s = Inr (p, s') \<Longrightarrow> sales_step s s'"

definition opp_view :: "'a sadb_scheme \<Rightarrow> (string \<times> string) list" where
  "opp_view s = map (\<lambda>r. (op_id r, op_stage r)) (sa_opps s)"

definition proposal_view :: "'a sadb_scheme \<Rightarrow> (string \<times> string) list" where
  "proposal_view s = map (\<lambda>r. (pr_id r, pr_status r)) (sa_props s)"

lemma sales_frames [simp]:
  "sa_opps (opp_event t i ty a s) = sa_opps s" "sa_props (opp_event t i ty a s) = sa_props s"
  "sa_lines (opp_event t i ty a s) = sa_lines s" "sa_pevents (opp_event t i ty a s) = sa_pevents s"
  "sa_opps (proposal_event t i ty a to n s) = sa_opps s" "sa_props (proposal_event t i ty a to n s) = sa_props s"
  "sa_lines (proposal_event t i ty a to n s) = sa_lines s"
  "sa_pevents (proposal_event t i ty a to n s) =
     sa_pevents s @ [\<lparr>cl_tenant = t, cl_subject = i, cl_type = ty, cl_actor = a, pe_to = to, pe_note = n\<rparr>]"
  "sa_opps (customer_event t i ty a s) = sa_opps s" "sa_props (customer_event t i ty a s) = sa_props s"
  "sa_lines (customer_event t i ty a s) = sa_lines s" "sa_pevents (customer_event t i ty a s) = sa_pevents s"
  "sa_opps (set_proposal i f s) = sa_opps s" "sa_lines (set_proposal i f s) = sa_lines s"
  "sa_pevents (set_proposal i f s) = sa_pevents s"
  "sa_props (set_proposal i f s) = tupd (\<lambda>r. pr_id r = i) f (sa_props s)"
  by (simp_all add: opp_event_def proposal_event_def customer_event_def log_audit_def set_proposal_def)

lemma load_opp_InrD: "load_opp s tenant i = Inr r \<Longrightarrow> r \<in> set (sa_opps s) \<and> op_id r = i \<and> op_tenant r = tenant"
  by (auto simp: load_opp_def opp_of_def split: option.splits dest: tfind_SomeD)

lemma load_proposal_InrD: "load_proposal s tenant i = Inr r \<Longrightarrow> r \<in> set (sa_props s) \<and> pr_id r = i \<and> pr_tenant r = tenant"
  by (auto simp: load_proposal_def split: option.splits dest: tfind_SomeD)

text \<open>What the handlers outside the pipeline leave alone.\<close>

lemma quiet_sales:
  "createCustomer v tenant actor cb s = Inr (cw, s') \<Longrightarrow>
     sa_opps s' = sa_opps s \<and> sa_props s' = sa_props s \<and> sa_lines s' = sa_lines s \<and> sa_pevents s' = sa_pevents s"
  "setCustomerStatus tenant actor i st s = Inr (c, s') \<Longrightarrow>
     sa_opps s' = sa_opps s \<and> sa_props s' = sa_props s \<and> sa_lines s' = sa_lines s \<and> sa_pevents s' = sa_pevents s"
  "addContact v tenant actor i k s = Inr (n, s') \<Longrightarrow>
     sa_opps s' = sa_opps s \<and> sa_props s' = sa_props s \<and> sa_lines s' = sa_lines s \<and> sa_pevents s' = sa_pevents s"
  "createCommercialItem v tenant gb s = Inr (g, s') \<Longrightarrow>
     sa_opps s' = sa_opps s \<and> sa_props s' = sa_props s \<and> sa_lines s' = sa_lines s \<and> sa_pevents s' = sa_pevents s"
  "updateCatalogItem tenant i name price active s = Inr (g, s') \<Longrightarrow>
     sa_opps s' = sa_opps s \<and> sa_props s' = sa_props s \<and> sa_lines s' = sa_lines s \<and> sa_pevents s' = sa_pevents s"
      apply (auto simp: createCustomer_def rbind_Inr_iff Let_def split: option.splits if_splits) [1]
     apply (auto simp: setCustomerStatus_def rbind_Inr_iff Let_def) [1]
    apply (auto simp: addContact_def rbind_Inr_iff Let_def) [1]
   apply (auto simp: createCommercialItem_def rbind_Inr_iff Let_def split: if_splits) [1]
  apply (auto simp: updateCatalogItem_def rbind_Inr_iff Let_def split: option.splits) [1]
  done

lemma createOpportunityE:
  assumes "createOpportunity v tenant actor b s = Inr ((r, replayed), s')"
  shows "(replayed \<and> s' = s) \<or> (\<not> replayed \<and> r = new_opp v tenant actor b s \<and> sa_opps s' = sa_opps s @ [r] \<and> sa_props s' = sa_props s \<and>
     sa_lines s' = sa_lines s \<and> sa_pevents s' = sa_pevents s)"
  using assms by (auto simp: createOpportunity_def rbind_Inr_iff Let_def split: option.splits)

lemma transitionOpportunityE:
  assumes "transitionOpportunity tenant actor i st reason s = Inr (r', s')"
  obtains r where "r \<in> set (sa_opps s)" "op_id r = i" "to_upper st \<in> set (opp_allowed (op_stage r))"
    "to_upper st = ''LOST'' \<longrightarrow> trim_in reason \<noteq> []"
    "sa_opps s' = tupd (\<lambda>r. op_id r = i) (\<lambda>r. r\<lparr>op_stage := to_upper st,
       op_lost := (if to_upper st = ''LOST'' then Some (trim_in reason) else op_lost r)\<rparr>) (sa_opps s)"
    "sa_props s' = sa_props s" "sa_lines s' = sa_lines s" "sa_pevents s' = sa_pevents s"
  using assms by (fastforce simp: transitionOpportunity_def rbind_Inr_iff Let_def dest: load_opp_InrD)

lemma proposal_opps:
  "createProposal v tenant actor i d s = Inr (p, s') \<Longrightarrow> sa_opps s' = sa_opps s"
  "addProposalLine v tenant actor i lb s = Inr (l, s') \<Longrightarrow> sa_opps s' = sa_opps s"
  "transitionProposal tenant actor i st nt s = Inr (p, s') \<Longrightarrow> sa_opps s' = sa_opps s"
    apply (auto simp: createProposal_def rbind_Inr_iff Let_def) [1]
   apply (auto simp: addProposalLine_def recompute_proposal_def rbind_Inr_iff Let_def) [1]
  apply (auto simp: transitionProposal_def rbind_Inr_iff Let_def) [1]
  done

lemma sales_step_opps: "sales_step s s' \<Longrightarrow> st_step opp_allowed ''LEAD'' (opp_view s) (opp_view s')"
proof (induction rule: sales_step.induct)
  case (sa_opp v tenant actor ob s ow s')
  obtain r b where "ow = (r, b)" by force
  with createOpportunityE sa_opp(1) consider "s' = s" | "r = new_opp v tenant actor ob s" "sa_opps s' = sa_opps s @ [r]" by metis
  then show ?case
  proof cases
    case 2
    then have "op_id r \<notin> op_id ` set (sa_opps s)" "op_stage r = ''LEAD''" using sa_opp(2) by (simp_all add: new_opp_def)
    from st_create_table [of op_id r "sa_opps s" op_stage "''LEAD''" opp_allowed, OF this] 2(2) show ?thesis by (simp add: opp_view_def)
  qed (simp add: st_idle)
next
  case (sa_move tenant actor i st reason s r s')
  then show ?case
  proof (cases rule: transitionOpportunityE)
    case (1 r0)
    show ?thesis unfolding opp_view_def 1(5) by (rule st_move_table [of r0 _ op_id i _ opp_allowed op_stage, OF 1(1,2,3)]) simp
  qed
qed (simp_all add: opp_view_def quiet_sales proposal_opps st_idle)

interpretation deals: staged opp_allowed "''LEAD''" opp_view sales_step
  by unfold_locales (rule sales_step_opps)

subsection \<open>Deals\<close>

definition lost_ok :: "opportunity list \<Rightarrow> bool" where
  "lost_ok rs \<longleftrightarrow> (\<forall>r \<in> set rs. op_stage r = ''LOST'' \<longrightarrow> truthy_str (op_lost r))"

lemma lost_ok_step: "sales_step s s' \<Longrightarrow> lost_ok (sa_opps s) \<Longrightarrow> lost_ok (sa_opps s')"
proof (induction rule: sales_step.induct)
  case (sa_opp v tenant actor ob s ow s')
  obtain r b where "ow = (r, b)" by force
  with createOpportunityE sa_opp(1) consider "s' = s" | "r = new_opp v tenant actor ob s" "sa_opps s' = sa_opps s @ [r]" by metis
  then show ?case using sa_opp(3) by cases (auto simp: lost_ok_def new_opp_def)
next
  case (sa_move tenant actor i st reason s r s')
  from sa_move(1) show ?case
  proof (cases rule: transitionOpportunityE)
    case (1 r0)
    show ?thesis unfolding 1(5) lost_ok_def
    proof
      fix u assume "u \<in> set (tupd (\<lambda>r. op_id r = i) (\<lambda>r. r\<lparr>op_stage := to_upper st,
          op_lost := (if to_upper st = ''LOST'' then Some (trim_in reason) else op_lost r)\<rparr>) (sa_opps s))"
      then show "op_stage u = ''LOST'' \<longrightarrow> truthy_str (op_lost u)"
        by (cases rule: in_set_tupdE) (use 1(4) sa_move(2) in \<open>auto simp: lost_ok_def\<close>)
    qed
  qed
qed (simp_all add: quiet_sales proposal_opps)

text \<open>
  A closed deal stays closed: whatever handlers run, an opportunity that is WON or LOST keeps that
  stage, every LOST one carries a non-empty reason, and every stage an opportunity is in can be
  reached from LEAD through the table of the pipeline.
\<close>
theorem deals_final:
  assumes "sales_step\<^sup>*\<^sup>* s s'" "distinct (map op_id (sa_opps s))" "lost_ok (sa_opps s)"
    and "\<forall>r \<in> set (sa_opps s). (''LEAD'', op_stage r) \<in> (moves opp_allowed)\<^sup>*"
  shows "(\<forall>r \<in> set (sa_opps s). op_stage r \<in> {''WON'', ''LOST''} \<longrightarrow>
      (\<exists>r' \<in> set (sa_opps s'). op_id r' = op_id r \<and> op_stage r' = op_stage r)) \<and>
    (\<forall>r \<in> set (sa_opps s'). op_stage r = ''LOST'' \<longrightarrow> truthy_str (op_lost r)) \<and>
    (\<forall>r \<in> set (sa_opps s'). (''LEAD'', op_stage r) \<in> (moves opp_allowed)\<^sup>*)"
proof -
  have keys: "distinct (map fst (opp_view s))" using assms(2) by (simp add: opp_view_def comp_def)
  have "\<exists>r' \<in> set (sa_opps s'). op_id r' = op_id r \<and> op_stage r' = op_stage r"
    if "r \<in> set (sa_opps s)" "op_stage r \<in> {''WON'', ''LOST''}" for r
  proof -
    have "(op_id r, op_stage r) \<in> set (opp_view s)" using that(1) by (simp add: opp_view_def)
    moreover have "opp_allowed (op_stage r) = []" using that(2) by (auto simp: opp_allowed_def)
    ultimately have "(op_id r, op_stage r) \<in> set (opp_view s')" using deals.final_stays [OF assms(1) keys] by blast
    then show ?thesis by (auto simp: opp_view_def)
  qed
  moreover have "lost_ok (sa_opps s')"
    using assms(1,3) by (induction rule: rtranclp_induct) (auto dest: lost_ok_step)
  moreover have "\<forall>r \<in> set (opp_view s'). (''LEAD'', snd r) \<in> (moves opp_allowed)\<^sup>*"
    by (rule deals.reached [OF assms(1)]) (use assms(4) in \<open>auto simp: opp_view_def\<close>)
  ultimately show ?thesis by (auto simp: lost_ok_def opp_view_def)
qed

subsection \<open>Proposals and their lines\<close>

definition approved_late :: "string list" where
  "approved_late = [''APPROVED'', ''SENT'', ''ACCEPTED'', ''EXPIRED'']"

definition approved_with_note :: "'a sadb_scheme \<Rightarrow> string \<Rightarrow> bool" where
  "approved_with_note s i = (\<exists>e \<in> set (sa_pevents s). cl_subject e = i \<and> pe_to e = ''APPROVED'' \<and> trim_in (pe_note e) \<noteq> [])"

definition proposal_ok :: "'a sadb_scheme \<Rightarrow> proposal \<Rightarrow> bool" where
  "proposal_ok s p \<longleftrightarrow>
     pr_total p = num_sum (map pl_total (lines_of s (pr_tenant p) (pr_id p))) \<and>
     pr_approval p = (\<exists>l \<in> set (lines_of s (pr_tenant p) (pr_id p)). DISCOUNT_THRESHOLD < pl_discount l) \<and>
     (pr_status p \<in> set approved_late \<and> pr_approval p \<longrightarrow> approved_with_note s (pr_id p))"

definition proposals_ok :: "'a sadb_scheme \<Rightarrow> bool" where
  "proposals_ok s \<longleftrightarrow> distinct (map pr_id (sa_props s)) \<and> (\<forall>t o1. counted (versions_of_opp s t o1)) \<and>
     (\<forall>l \<in> set (sa_lines s). pl_proposal l \<in> pr_id ` set (sa_props s)) \<and> (\<forall>p \<in> set (sa_props s). proposal_ok s p)"

lemma proposals_cong:
  "sa_props s' = sa_props s \<Longrightarrow> sa_lines s' = sa_lines s \<Longrightarrow> sa_pevents s' = sa_pevents s \<Longrightarrow> proposals_ok s' = proposals_ok s"
  by (simp add: proposals_ok_def proposal_ok_def versions_of_opp_def lines_of_def approved_with_note_def)

lemma versions_tupd:
  assumes "\<And>r. pr_tenant (f r) = pr_tenant r \<and> pr_opp (f r) = pr_opp r \<and> pr_version (f r) = pr_version r" "sa_props s' = tupd P f (sa_props s)"
  shows "versions_of_opp s' t i = versions_of_opp s t i"
proof -
  have "map pr_version (filter (\<lambda>p. pr_tenant p = t \<and> pr_opp p = i) (tupd P f rs)) =
      map pr_version (filter (\<lambda>p. pr_tenant p = t \<and> pr_opp p = i) rs)" for rs
    using assms(1) by (induction rs) (auto simp: table_simps)
  then show ?thesis by (simp add: versions_of_opp_def assms(2))
qed

lemma createProposal_ok:
  assumes "createProposal v tenant actor i d s = Inr (p, s')" "oid v s \<notin> pr_id ` set (sa_props s)" "proposals_ok s"
  shows "proposals_ok s'"
proof -
  from assms(1) have p: "pr_id p = oid v s" "pr_tenant p = tenant" "pr_opp p = i" "pr_status p = ''DRAFT''" "pr_total p = Fin 0"
      "\<not> pr_approval p" "pr_version p = foldr max (versions_of_opp s tenant i) 0 + 1"
    and rows: "sa_props s' = sa_props s @ [p]" "sa_lines s' = sa_lines s" and ev: "set (sa_pevents s) \<subseteq> set (sa_pevents s')"
    by (auto simp: createProposal_def rbind_Inr_iff Let_def)
  have "counted (versions_of_opp s' t k)" for t k
  proof -
    have c: "counted (versions_of_opp s t k)" using assms(3) by (simp add: proposals_ok_def)
    show ?thesis
    proof (cases "t = tenant \<and> k = i")
      case True
      then have "versions_of_opp s' t k = versions_of_opp s t k @ [Suc (length (versions_of_opp s t k))]"
        using p rows counted_max [OF c] by (simp add: versions_of_opp_def)
      with counted_snoc [OF c] show ?thesis by simp
    next
      case False
      then have "versions_of_opp s' t k = versions_of_opp s t k" using p rows by (auto simp: versions_of_opp_def)
      with c show ?thesis by simp
    qed
  qed
  moreover have "lines_of s tenant (oid v s) = []"
    using assms(2,3) unfolding lines_of_def proposals_ok_def filter_empty_conv by metis
  then have "proposal_ok s' p" using p rows by (simp add: proposal_ok_def lines_of_def num_sum_def approved_late_def)
  moreover have "proposal_ok s' q" if "proposal_ok s q" for q
    using that rows ev by (auto simp: proposal_ok_def lines_of_def approved_with_note_def)
  ultimately show ?thesis using assms(2,3) p rows by (auto simp: proposals_ok_def)
qed

lemma addProposalLineE:
  assumes "addProposalLine v tenant actor i b s = Inr (l, s')"
  obtains p where "p \<in> set (sa_props s)" "pr_id p = i" "pr_tenant p = tenant" "pr_status p = ''DRAFT''"
    "pl_tenant l = tenant" "pl_proposal l = i" "sa_lines s' = sa_lines s @ [l]" "set (sa_pevents s) \<subseteq> set (sa_pevents s')"
    "sa_props s' = tupd (\<lambda>r. pr_id r = i) (\<lambda>p. p\<lparr>pr_total := num_sum (map pl_total (lines_of s' tenant i)),
       pr_approval := (\<exists>l \<in> set (lines_of s' tenant i). DISCOUNT_THRESHOLD < pl_discount l)\<rparr>) (sa_props s)"
proof -
  from assms obtain p where p: "load_proposal s tenant i = Inr p" "pr_status p = ''DRAFT''"
    by (auto simp: addProposalLine_def rbind_Inr_iff)
  with assms have "pl_tenant l = tenant" "pl_proposal l = i"
    and s': "s' = proposal_event tenant i ''line_added'' actor '''' None (recompute_proposal tenant i (s\<lparr>sa_lines := sa_lines s @ [l], o_seq := Suc (o_seq s)\<rparr>))"
    by (auto simp: addProposalLine_def rbind_Inr_iff Let_def)
  moreover have lines: "lines_of s' t k = lines_of (s\<lparr>sa_lines := sa_lines s @ [l], o_seq := Suc (o_seq s)\<rparr>) t k" for t k
    by (simp add: s' lines_of_def recompute_proposal_def Let_def)
  ultimately show ?thesis using load_proposal_InrD [OF p(1)] p(2)
    by (intro that [of p]) (auto simp: s' recompute_proposal_def Let_def lines_of_def)
qed

text \<open>Only the proposal of the new line changes; it is a draft, so nobody has approved it.\<close>

lemma addProposalLine_ok:
  assumes "addProposalLine v tenant actor i b s = Inr (l, s')" "proposals_ok s"
  shows "proposals_ok s'"
  using assms(1)
proof (cases rule: addProposalLineE)
  case (1 p)
  have dist: "distinct (map pr_id (sa_props s))" using assms(2) by (simp add: proposals_ok_def)
  have ids: "map pr_id (sa_props s') = map pr_id (sa_props s)" unfolding 1(9) by (rule map_tupd_frame) simp
  then have set_ids: "pr_id ` set (sa_props s') = pr_id ` set (sa_props s)" by (metis set_map)
  have "proposal_ok s' q" if q: "q \<in> set (sa_props s')" for q
    using q [unfolded 1(9)]
  proof (cases rule: in_set_tupdE)
    case (new r)
    then have "r = p" using distinct_column_unique [OF dist _ 1(1)] 1(2) by simp
    with new 1(2-4) show ?thesis by (simp add: proposal_ok_def approved_late_def)
  next
    case old
    then have "proposal_ok s q" "pr_id q \<noteq> i" using assms(2) by (auto simp: proposals_ok_def)
    moreover from this(2) have "lines_of s' (pr_tenant q) (pr_id q) = lines_of s (pr_tenant q) (pr_id q)"
      using 1(6,7) by (simp add: lines_of_def)
    ultimately show ?thesis using 1(8) by (auto simp: proposal_ok_def approved_with_note_def)
  qed
  moreover have "versions_of_opp s' t k = versions_of_opp s t k" for t k by (rule versions_tupd [OF _ 1(9)]) simp
  moreover have "\<forall>m \<in> set (sa_lines s'). pl_proposal m \<in> pr_id ` set (sa_props s')"
    using assms(2) 1(1,2,6,7) unfolding set_ids by (auto simp: proposals_ok_def)
  ultimately show ?thesis using dist ids assms(2) by (simp add: proposals_ok_def)
qed

lemma transitionProposalE:
  assumes "transitionProposal tenant actor i st nt s = Inr (q, s')"
  obtains p where "p \<in> set (sa_props s)" "pr_id p = i" "pr_tenant p = tenant" "to_upper st \<in> set (proposal_allowed (pr_status p))"
    "to_upper st = ''APPROVED'' \<and> pr_approval p \<longrightarrow> trim_in nt \<noteq> []"
    "sa_lines s' = sa_lines s" "sa_props s' = tupd (\<lambda>r. pr_id r = i) (\<lambda>p. p\<lparr>pr_status := to_upper st\<rparr>) (sa_props s)"
    "sa_pevents s' = sa_pevents s @ [\<lparr>cl_tenant = tenant, cl_subject = i, cl_type = ''status_changed'', cl_actor = actor,
       pe_to = to_upper st, pe_note = nt\<rparr>]"
  using assms by (fastforce simp: transitionProposal_def rbind_Inr_iff Let_def dest: load_proposal_InrD)

lemma proposal_path: "y \<in> set (proposal_allowed x) \<Longrightarrow> y \<in> set approved_late \<Longrightarrow> y = ''APPROVED'' \<or> x \<in> set approved_late"
  by (cases "x = ''DRAFT''"; cases "x = ''IN_REVIEW''"; cases "x = ''APPROVED''"; cases "x = ''SENT''")
    (auto simp: proposal_allowed_def approved_late_def)

lemma transitionProposal_ok:
  assumes "transitionProposal tenant actor i st nt s = Inr (q, s')" "proposals_ok s"
  shows "proposals_ok s'"
  using assms(1)
proof (cases rule: transitionProposalE)
  case (1 p)
  have dist: "distinct (map pr_id (sa_props s))" using assms(2) by (simp add: proposals_ok_def)
  have ids: "map pr_id (sa_props s') = map pr_id (sa_props s)" unfolding 1(7) by (rule map_tupd_frame) simp
  then have set_ids: "pr_id ` set (sa_props s') = pr_id ` set (sa_props s)" by (metis set_map)
  have lines: "lines_of s' t k = lines_of s t k" for t k using 1(6) by (simp add: lines_of_def)
  have noted: "approved_with_note s k \<Longrightarrow> approved_with_note s' k" for k using 1(8) by (auto simp: approved_with_note_def)
  have "proposal_ok s' r" if r: "r \<in> set (sa_props s')" for r
    using r [unfolded 1(7)]
  proof (cases rule: in_set_tupdE)
    case (new r0)
    then have r0: "r0 = p" using distinct_column_unique [OF dist _ 1(1)] 1(2) by simp
    have p: "proposal_ok s p" using assms(2) 1(1) by (simp add: proposals_ok_def)
    have "approved_with_note s' i" if "to_upper st \<in> set approved_late" "pr_approval p"
      using proposal_path [OF 1(4) that(1)]
    proof
      assume "to_upper st = ''APPROVED''"
      with 1(5,8) that(2) show ?thesis by (auto simp: approved_with_note_def)
    next
      assume "pr_status p \<in> set approved_late"
      with p that(2) 1(2) noted show ?thesis by (auto simp: proposal_ok_def)
    qed
    with p new r0 1(2) lines show ?thesis by (simp add: proposal_ok_def)
  next
    case old
    then have "proposal_ok s r" using assms(2) by (auto simp: proposals_ok_def)
    then show ?thesis using lines noted by (auto simp: proposal_ok_def)
  qed
  moreover have "versions_of_opp s' t k = versions_of_opp s t k" for t k by (rule versions_tupd [OF _ 1(7)]) simp
  moreover have "\<forall>m \<in> set (sa_lines s'). pl_proposal m \<in> pr_id ` set (sa_props s')"
    using assms(2) 1(6) unfolding set_ids by (simp add: proposals_ok_def)
  ultimately show ?thesis using dist ids assms(2) by (simp add: proposals_ok_def)
qed

lemma proposals_step: "sales_step s s' \<Longrightarrow> proposals_ok s \<Longrightarrow> proposals_ok s'"
proof (induction rule: sales_step.induct)
  case (sa_opp v tenant actor ob s ow s')
  then show ?case using createOpportunityE [of v tenant actor ob s "fst ow" "snd ow" s'] proposals_cong by auto
next
  case (sa_move tenant actor i st reason s r s')
  from sa_move(1) show ?case
    by (cases rule: transitionOpportunityE) (use sa_move(2) proposals_cong [of s' s] in simp)
next
  case (sa_proposal v tenant actor i d s p s')
  then show ?case using createProposal_ok by blast
next
  case (sa_line v tenant actor i lb s l s')
  then show ?case using addProposalLine_ok by blast
next
  case (sa_decide tenant actor i st nt s p s')
  then show ?case using transitionProposal_ok by blast
next
  case (sa_customer v tenant actor cb s cw s')
  then show ?case using quiet_sales(1) proposals_cong by blast
next
  case (sa_status tenant actor i st s c s')
  then show ?case using quiet_sales(2) proposals_cong by blast
next
  case (sa_contact v tenant actor i k s n s')
  then show ?case using quiet_sales(3) proposals_cong by blast
next
  case (sa_item v tenant gb s g s')
  then show ?case using quiet_sales(4) proposals_cong by blast
next
  case (sa_update_item tenant i name price active s g s')
  then show ?case using quiet_sales(5) proposals_cong by blast
qed

text \<open>
  C29. Proposals are sound: whatever handlers run, the proposals of an opportunity are numbered 1 to n,
  the total of a proposal is the sum of its lines, it asks for approval exactly when one of its
  lines has a discount above the threshold, and one that asks for approval is APPROVED, SENT,
  ACCEPTED or EXPIRED only when somebody approved it with a note.
\<close>
theorem proposals_sound:
  assumes "sales_step\<^sup>*\<^sup>* s s'" "proposals_ok s"
  shows "(\<forall>t o1. versions_of_opp s' t o1 = [1..<Suc (length (versions_of_opp s' t o1))]) \<and>
    (\<forall>p \<in> set (sa_props s').
       pr_total p = num_sum (map pl_total (lines_of s' (pr_tenant p) (pr_id p))) \<and>
       (pr_approval p \<longleftrightarrow> (\<exists>l \<in> set (lines_of s' (pr_tenant p) (pr_id p)). DISCOUNT_THRESHOLD < pl_discount l)) \<and>
       (pr_approval p \<and> pr_status p \<in> {''APPROVED'', ''SENT'', ''ACCEPTED'', ''EXPIRED''} \<longrightarrow>
          (\<exists>e \<in> set (sa_pevents s'). cl_subject e = pr_id p \<and> pe_to e = ''APPROVED'' \<and> trim_in (pe_note e) \<noteq> [])))"
proof -
  have ok: "proposals_ok s'" using assms by (induction rule: rtranclp_induct) (auto dest: proposals_step)
  then have "\<forall>t o1. versions_of_opp s' t o1 = [1..<Suc (length (versions_of_opp s' t o1))]"
    unfolding proposals_ok_def counted_def by blast
  moreover have "\<forall>p \<in> set (sa_props s'). proposal_ok s' p" using ok by (simp add: proposals_ok_def)
  ultimately show ?thesis by (simp add: proposal_ok_def approved_late_def approved_with_note_def)
qed

subsection \<open>An example\<close>

definition sales_db :: sadb where
  "sales_db = \<lparr>o_docs = [], o_versions = [], o_files = [], o_res = [], o_audit = [], o_org = empty_idb, o_seq = 0,
     cu_customers = [\<lparr>cu_id = ''c1'', cu_tenant = ''t1'', cu_code = ''A1'', cu_name = ''Acme'', cu_status = ''ACTIVE'', cu_owner = None,
       cu_tax = None, cu_key = None, cu_by = ''an''\<rparr>], cu_contacts = [], cu_events = [], sa_opps = [], sa_oevents = [],
     sa_items = [\<lparr>ca_id = ''g1'', ca_tenant = ''t1'', ca_code = ''SUP'', ca_name = ''Support'', ca_type = ''SUPPORT'', ca_ref = None,
       ca_price = None, ca_version = 1, ca_active = True\<rparr>],
     sa_props = [], sa_lines = [], sa_pevents = []\<rparr>"

definition new_deal :: opp_in where
  "new_deal = \<lparr>oi_customer = ''c1'', oi_title = Some ''Deal'', oi_amount = ''500'', oi_currency = None, oi_probability = None,
     oi_close = Absent, oi_owner = None, oi_key = None\<rparr>"

definition dealt :: "((opportunity \<times> bool) \<times> sadb) res" where "dealt = createOpportunity demo_env ''t1'' ''an'' new_deal sales_db"
definition sales1 :: sadb where "sales1 = snd (projr dealt)"
definition offered :: "(proposal \<times> sadb) res" where "offered = createProposal demo_env ''t1'' ''an'' ''id0'' Absent sales1"
definition sales2 :: sadb where "sales2 = snd (projr offered)"
definition cheap_line :: line_in where
  "cheap_line = \<lparr>li_item = ''g1'', li_quantity = Some 2, li_price = ''100'', li_discount = Some 20\<rparr>"
definition priced :: "(proposal_line \<times> sadb) res" where "priced = addProposalLine demo_env ''t1'' ''an'' ''id1'' cheap_line sales2"
definition sales3 :: sadb where "sales3 = snd (projr priced)"
definition dropped_deal :: "(opportunity \<times> sadb) res" where
  "dropped_deal = transitionOpportunity ''t1'' ''an'' ''id0'' ''lost'' (Some '' price '') sales3"
definition sales4 :: sadb where "sales4 = snd (projr dropped_deal)"

lemma deal_runs:
  "is_ok dealt" "is_ok offered" "is_ok priced" "is_ok dropped_deal" "sa_opps sales_db = []" "sa_props sales1 = []"
  "length (versions_of_opp sales3 ''t1'' ''id0'') = 1" "map pr_total (sa_props sales3) = [Fin 160]" "map pr_approval (sa_props sales3) = [True]"
  "op_stage (hd (sa_opps sales4)) = ''LOST''" "hd (sa_opps sales4) \<in> set (sa_opps sales4)"
  by code_simp+

lemma dealt_eq: "createOpportunity demo_env ''t1'' ''an'' new_deal sales_db = Inr (fst (projr dealt), sales1)"
  unfolding sales1_def dealt_def [symmetric] by (rule ok_pair) (rule deal_runs)
lemma offered_eq: "createProposal demo_env ''t1'' ''an'' ''id0'' Absent sales1 = Inr (fst (projr offered), sales2)"
  unfolding sales2_def offered_def [symmetric] by (rule ok_pair) (rule deal_runs)
lemma priced_eq: "addProposalLine demo_env ''t1'' ''an'' ''id1'' cheap_line sales2 = Inr (fst (projr priced), sales3)"
  unfolding sales3_def priced_def [symmetric] by (rule ok_pair) (rule deal_runs)
lemma dropped_eq:
  "transitionOpportunity ''t1'' ''an'' ''id0'' ''lost'' (Some '' price '') sales3 = Inr (fst (projr dropped_deal), sales4)"
  unfolding sales4_def dropped_deal_def [symmetric] by (rule ok_pair) (rule deal_runs)

lemma sales_run: "sales_step\<^sup>*\<^sup>* sales_db sales3" "sales_step sales3 sales4"
proof -
  have "sales_step sales_db sales1" "sales_step sales1 sales2" "sales_step sales2 sales3"
    using deal_runs(5,6) by (auto intro: sa_opp [OF dealt_eq] sa_proposal [OF offered_eq] sa_line [OF priced_eq])
  then show "sales_step\<^sup>*\<^sup>* sales_db sales3" by (meson converse_rtranclp_into_rtranclp rtranclp.rtrancl_refl)
  show "sales_step sales3 sales4" by (rule sa_move [OF dropped_eq])
qed

lemma proposals_sound_witness:
  "map pr_total (sa_props sales3) = [Fin 160] \<and> map pr_approval (sa_props sales3) = [True] \<and>
   versions_of_opp sales3 ''t1'' ''id0'' = [1]"
proof -
  have "proposals_ok sales_db" by (simp add: proposals_ok_def sales_db_def versions_of_opp_def counted_def)
  from proposals_sound [OF sales_run(1) this]
  have "versions_of_opp sales3 ''t1'' ''id0'' = [1..<Suc (length (versions_of_opp sales3 ''t1'' ''id0''))]" by blast
  then show ?thesis by (simp add: deal_runs)
qed

lemma deals_final_witness: "truthy_str (op_lost (hd (sa_opps sales4)))"
proof -
  have d: "distinct (map op_id (sa_opps sales_db))" "lost_ok (sa_opps sales_db)"
    "\<forall>r \<in> set (sa_opps sales_db). (''LEAD'', op_stage r) \<in> (moves opp_allowed)\<^sup>*"
    by (simp_all add: sales_db_def lost_ok_def)
  have "sales_step\<^sup>*\<^sup>* sales_db sales4" using sales_run by (rule rtranclp.rtrancl_into_rtrancl)
  from deals_final [OF this d] have "\<forall>r \<in> set (sa_opps sales4). op_stage r = ''LOST'' \<longrightarrow> truthy_str (op_lost r)" by blast
  with deal_runs(10,11) show ?thesis by blast
qed

end
