(* ===== verification/Contracts.thy ===== *)
theory Contracts
  imports Sales
begin

section \<open>Contracts\<close>

text \<open>
  xhub-api/src/contracts/contracts.service.ts and revenue-kpi.service.ts: contracts with their
  lines, signatures, milestone obligations and billing requests, and the indicators computed from
  them. Amounts are treated as in \<open>Sales\<close>.
\<close>

subsection \<open>State\<close>

record contract =
  ct_id :: string
  ct_tenant :: string
  ct_no :: string
  ct_opp :: "string option"
  ct_customer :: string
  ct_status :: string
  ct_from :: "int option"
  ct_total :: num_val
  ct_currency :: string
  ct_by :: string

record contract_line =
  ln_id :: string
  ln_tenant :: string
  ln_contract :: string
  ln_item :: string
  ln_delivery :: string
  ln_billing :: string
  ln_value :: string
  ln_currency :: string
  ln_acceptance :: bool

record signature =
  sg_tenant :: string
  sg_contract :: string
  sg_provider :: string
  sg_envelope :: string

record obligation =
  ob_id :: string
  ob_tenant :: string
  ob_contract :: string
  ob_line :: "string option"
  ob_due :: int
  ob_percent :: "int option"
  ob_status :: string
  ob_evidence :: "string option"
  ob_escalated :: "int option"
  ob_completed :: "int option"

record billing =
  bq_id :: string
  bq_tenant :: string
  bq_contract :: string
  bq_line :: "string option"
  bq_status :: string
  bq_amount :: num_val
  bq_currency :: string
  bq_key :: string
  bq_blockers :: "string list"

record ctdb = sadb +
  ct_rows :: "contract list"
  ct_lines :: "contract_line list"
  ct_signatures :: "signature list"
  ct_obligations :: "obligation list"
  ct_billings :: "billing list"
  ct_events :: "crm_log list"

subsection \<open>Tables\<close>

definition CONTRACT_STATUSES :: "string list" where
  "CONTRACT_STATUSES = [''DRAFT'', ''REVIEW'', ''NEGOTIATION'', ''APPROVED'', ''SIGNING'', ''EFFECTIVE'', ''SUSPENDED'', ''EXPIRED'',
     ''TERMINATED'', ''COMPLETED'']"
definition DELIVERY_METHODS :: "string list" where
  "DELIVERY_METHODS = [''PROJECT'', ''SUBSCRIPTION'', ''WORK_ORDER'', ''DELIVERY_ONLY'']"
definition BILLING_METHODS :: "string list" where
  "BILLING_METHODS = [''ADVANCE'', ''MILESTONE'', ''TIME_MATERIAL'', ''RECURRING'', ''FIXED_COMPLETION'']"
definition PRE_SIGNING_STATUSES :: "string list" where
  "PRE_SIGNING_STATUSES = [''DRAFT'', ''REVIEW'', ''NEGOTIATION'', ''APPROVED'']"

definition contract_allowed :: "string \<Rightarrow> string list" where
  "contract_allowed x =
     (if x = ''DRAFT'' then [''REVIEW''] else if x = ''REVIEW'' then [''NEGOTIATION'', ''APPROVED'']
      else if x = ''NEGOTIATION'' then [''REVIEW'', ''APPROVED''] else if x = ''APPROVED'' then [''SIGNING'']
      else if x = ''SIGNING'' then [''EFFECTIVE'']
      else if x = ''EFFECTIVE'' then [''SUSPENDED'', ''TERMINATED'', ''COMPLETED'', ''EXPIRED'']
      else if x = ''SUSPENDED'' then [''EFFECTIVE'', ''TERMINATED''] else [])"

definition contract_event :: "string \<Rightarrow> string \<Rightarrow> string \<Rightarrow> string \<Rightarrow> 'a ctdb_scheme \<Rightarrow> 'a ctdb_scheme" where
  "contract_event tenant i ty actor s =
     log_audit tenant actor i (''contract.'' @ ty)
       (s\<lparr>ct_events := ct_events s @ [\<lparr>cl_tenant = tenant, cl_subject = i, cl_type = ty, cl_actor = actor\<rparr>]\<rparr>)"

definition load_contract :: "'a ctdb_scheme \<Rightarrow> string \<Rightarrow> string \<Rightarrow> contract res" where
  "load_contract s tenant i =
     (case tfind (\<lambda>r. ct_id r = i \<and> ct_tenant r = tenant) (ct_rows s) of
        None \<Rightarrow> Inl (NotFound ''contract not found'') | Some r \<Rightarrow> Inr r)"

definition set_contract :: "string \<Rightarrow> (contract \<Rightarrow> contract) \<Rightarrow> 'a ctdb_scheme \<Rightarrow> 'a ctdb_scheme" where
  "set_contract i f s = s\<lparr>ct_rows := tupd (\<lambda>r. ct_id r = i) f (ct_rows s)\<rparr>"

definition contract_lines :: "'a ctdb_scheme \<Rightarrow> string \<Rightarrow> string \<Rightarrow> contract_line list" where
  "contract_lines s tenant i = filter (\<lambda>l. ln_tenant l = tenant \<and> ln_contract l = i) (ct_lines s)"

definition line_total :: "contract_line list \<Rightarrow> num_val" where
  "line_total ls = num_sum (map (str_to_num \<circ> ln_value) ls)"

subsection \<open>Contracts and lines\<close>

record contract_in =
  xi_customer :: string
  xi_opp :: "string option"
  xi_no :: "string option"
  xi_from :: date_in

definition createContract :: "env \<Rightarrow> string \<Rightarrow> string \<Rightarrow> contract_in \<Rightarrow> 'a ctdb_scheme \<Rightarrow> (contract \<times> 'a ctdb_scheme) res" where
  "createContract v tenant actor b s =
     rbind (ensure (xi_customer b \<noteq> []) (BadRequest ''customerId is required'')) (\<lambda>_.
     rbind (load_customer s tenant (xi_customer b)) (\<lambda>_.
     rbind (ensure (truthy_str (xi_opp b) \<longrightarrow> opp_of s tenant (the (xi_opp b)) \<noteq> None) (NotFound ''opportunity not found'')) (\<lambda>_.
       let no = (if trim_in (xi_no b) = [] then ''CTR-'' @ stamp v else trim_in (xi_no b)) in
       rbind (ensure (\<forall>r \<in> set (ct_rows s). \<not> (ct_tenant r = tenant \<and> ct_no r = no)) (BadRequest ''Contract number already exists'')) (\<lambda>_.
       rbind (ensure (xi_from b \<noteq> Invalid) TypeErr) (\<lambda>_.
         let r = \<lparr>ct_id = oid v s, ct_tenant = tenant, ct_no = no, ct_opp = xi_opp b, ct_customer = xi_customer b, ct_status = ''DRAFT'',
                  ct_from = date_opt (xi_from b), ct_total = Fin 0, ct_currency = ''VND'', ct_by = actor\<rparr>
         in Inr (r, contract_event tenant (ct_id r) ''created'' actor (s\<lparr>ct_rows := ct_rows s @ [r], o_seq := Suc (o_seq s)\<rparr>)))))))"

record cline_in =
  ni_item :: string
  ni_delivery :: "string option"
  ni_billing :: "string option"
  ni_value :: string
  ni_acceptance :: bool

definition addContractLine :: "env \<Rightarrow> string \<Rightarrow> string \<Rightarrow> string \<Rightarrow> cline_in \<Rightarrow> 'a ctdb_scheme \<Rightarrow> (contract_line \<times> 'a ctdb_scheme) res" where
  "addContractLine v tenant actor i b s =
     rbind (load_contract s tenant i) (\<lambda>r.
     rbind (ensure (ct_status r \<in> set PRE_SIGNING_STATUSES) (BadRequest ''Contract is immutable after signature'')) (\<lambda>_.
     rbind (ensure (map_option to_upper (ni_delivery b) \<in> Some ` set DELIVERY_METHODS) (BadRequest ''deliveryMethod must be one of'')) (\<lambda>_.
     rbind (ensure (map_option to_upper (ni_billing b) \<in> Some ` set BILLING_METHODS) (BadRequest ''billingMethod must be one of'')) (\<lambda>_.
     rbind (ensure (item_of s tenant (ni_item b) \<noteq> None) (NotFound ''catalog item not found'')) (\<lambda>_.
     rbind (ensure (ni_value b \<noteq> []) (BadRequest ''lineValue is required'')) (\<lambda>_.
       let l = \<lparr>ln_id = oid v s, ln_tenant = tenant, ln_contract = i, ln_item = ni_item b,
                ln_delivery = to_upper (coalesce (ni_delivery b) ''''), ln_billing = to_upper (coalesce (ni_billing b) ''''),
                ln_value = ni_value b, ln_currency = ''VND'', ln_acceptance = ni_acceptance b\<rparr>;
           s1 = s\<lparr>ct_lines := ct_lines s @ [l], o_seq := Suc (o_seq s)\<rparr>;
           tot = line_total (contract_lines s1 tenant i)
       in Inr (l, contract_event tenant i ''line_added'' actor (set_contract i (\<lambda>r. r\<lparr>ct_total := tot\<rparr>) s1))))))))"

subsection \<open>Status and obligations\<close>

definition MONTH_MS :: int where
  "MONTH_MS = 30 * 24 * 60 * 60 * 1000"

text \<open>One obligation of the loop over the milestone lines of a contract that goes live.\<close>

definition add_obligation :: "env \<Rightarrow> string \<Rightarrow> contract \<Rightarrow> contract_line \<Rightarrow> 'a ctdb_scheme \<Rightarrow> 'a ctdb_scheme" where
  "add_obligation v tenant r l s =
     s\<lparr>ct_obligations := ct_obligations s @
         [\<lparr>ob_id = oid v s, ob_tenant = tenant, ob_contract = ct_id r, ob_line = Some (ln_id l),
           ob_due = coalesce (ct_from r) (now v) + MONTH_MS, ob_percent = None, ob_status = ''PENDING'', ob_evidence = None,
           ob_escalated = None, ob_completed = None\<rparr>], o_seq := Suc (o_seq s)\<rparr>"

definition milestone_lines :: "'a ctdb_scheme \<Rightarrow> string \<Rightarrow> string \<Rightarrow> contract_line list" where
  "milestone_lines s tenant i = filter (\<lambda>l. ln_billing l = ''MILESTONE'') (contract_lines s tenant i)"

definition obligations_of :: "'a ctdb_scheme \<Rightarrow> string \<Rightarrow> string \<Rightarrow> obligation list" where
  "obligations_of s tenant i = filter (\<lambda>b. ob_tenant b = tenant \<and> ob_contract b = i) (ct_obligations s)"

definition generate_obligations :: "env \<Rightarrow> string \<Rightarrow> contract \<Rightarrow> 'a ctdb_scheme \<Rightarrow> 'a ctdb_scheme" where
  "generate_obligations v tenant r s =
     (if obligations_of s tenant (ct_id r) = [] then fold (add_obligation v tenant r) (milestone_lines s tenant (ct_id r)) s else s)"

definition is_signed :: "'a ctdb_scheme \<Rightarrow> string \<Rightarrow> string \<Rightarrow> bool" where
  "is_signed s tenant i \<longleftrightarrow> (\<exists>g \<in> set (ct_signatures s). sg_tenant g = tenant \<and> sg_contract g = i)"

definition transitionContract :: "env \<Rightarrow> string \<Rightarrow> string \<Rightarrow> string \<Rightarrow> string \<Rightarrow> 'a ctdb_scheme \<Rightarrow> (contract \<times> 'a ctdb_scheme) res" where
  "transitionContract v tenant actor i toStatus s =
     (let st = to_upper toStatus in
      rbind (ensure (st \<in> set CONTRACT_STATUSES) (BadRequest ''status must be one of'')) (\<lambda>_.
      rbind (load_contract s tenant i) (\<lambda>r.
      rbind (ensure (st \<in> set (contract_allowed (ct_status r))) (BadRequest ''Cannot transition'')) (\<lambda>_.
      rbind (ensure (st = ''EFFECTIVE'' \<longrightarrow> is_signed s tenant i) (BadRequest ''Cannot activate a contract with no recorded signature'')) (\<lambda>_.
        let f = (\<lambda>r. r\<lparr>ct_status := st\<rparr>); s1 = contract_event tenant i ''status_changed'' actor (set_contract i f s)
        in Inr (f r, if st = ''EFFECTIVE'' then generate_obligations v tenant (f r) s1 else s1))))))"

definition signContract :: "env \<Rightarrow> string \<Rightarrow> string \<Rightarrow> string \<Rightarrow> string option \<Rightarrow> string option \<Rightarrow> 'a ctdb_scheme \<Rightarrow> (signature \<times> 'a ctdb_scheme) res" where
  "signContract v tenant actor i provider envelope s =
     rbind (load_contract s tenant i) (\<lambda>r.
     rbind (ensure (ct_status r \<in> {''APPROVED'', ''SIGNING''}) (BadRequest ''Cannot sign a contract (must be APPROVED or SIGNING)'')) (\<lambda>_.
       let g = \<lparr>sg_tenant = tenant, sg_contract = i, sg_provider = coalesce provider ''MOCK'',
                sg_envelope = (if trim_in envelope = [] then ''MOCK-ENV-'' @ stamp v else trim_in envelope)\<rparr>;
           s1 = s\<lparr>ct_signatures := ct_signatures s @ [g], o_seq := Suc (o_seq s)\<rparr>;
           s2 = (if ct_status r = ''APPROVED''
                 then contract_event tenant i ''status_changed'' actor (set_contract i (\<lambda>r. r\<lparr>ct_status := ''SIGNING''\<rparr>) s1) else s1)
       in Inr (g, contract_event tenant i ''signed'' actor s2)))"

definition load_obligation :: "'a ctdb_scheme \<Rightarrow> string \<Rightarrow> string \<Rightarrow> obligation res" where
  "load_obligation s tenant i =
     (case tfind (\<lambda>b. ob_id b = i \<and> ob_tenant b = tenant) (ct_obligations s) of
        None \<Rightarrow> Inl (NotFound ''obligation not found'') | Some b \<Rightarrow> Inr b)"

definition set_obligation :: "string \<Rightarrow> (obligation \<Rightarrow> obligation) \<Rightarrow> 'a ctdb_scheme \<Rightarrow> 'a ctdb_scheme" where
  "set_obligation i f s = s\<lparr>ct_obligations := tupd (\<lambda>b. ob_id b = i) f (ct_obligations s)\<rparr>"

definition completeObligation :: "env \<Rightarrow> string \<Rightarrow> string \<Rightarrow> string \<Rightarrow> string option \<Rightarrow> 'a ctdb_scheme \<Rightarrow> (obligation \<times> 'a ctdb_scheme) res" where
  "completeObligation v tenant actor i evidence s =
     rbind (load_obligation s tenant i) (\<lambda>b.
     rbind (ensure (trim_in evidence \<noteq> []) (BadRequest ''evidenceRef is required to complete an obligation'')) (\<lambda>_.
       let f = (\<lambda>b. b\<lparr>ob_status := ''COMPLETED'', ob_evidence := evidence, ob_completed := Some (now v)\<rparr>)
       in Inr (f b, contract_event tenant (ob_contract b) ''obligation_completed'' actor (set_obligation i f s))))"

definition escalateObligation :: "env \<Rightarrow> string \<Rightarrow> string \<Rightarrow> string \<Rightarrow> 'a ctdb_scheme \<Rightarrow> (obligation \<times> 'a ctdb_scheme) res" where
  "escalateObligation v tenant actor i s =
     rbind (load_obligation s tenant i) (\<lambda>b.
       let f = (\<lambda>b. b\<lparr>ob_escalated := Some (now v)\<rparr>)
       in Inr (f b, contract_event tenant (ob_contract b) ''obligation_escalated'' actor (set_obligation i f s)))"

text \<open>\<open>daysLeft\<close> is a quotient; the comparisons with 0 and 7 days are made on milliseconds.\<close>

definition computeAlertStatus :: "env \<Rightarrow> obligation \<Rightarrow> string" where
  "computeAlertStatus v b =
     (if ob_status b \<noteq> ''PENDING'' then ob_status b
      else if ob_due b < now v then ''OVERDUE''
      else if ob_due b - now v \<le> 7 * (24 * 60 * 60 * 1000) then ''DUE_SOON'' else ''PENDING'')"

definition listObligations :: "env \<Rightarrow> string \<Rightarrow> string \<Rightarrow> 'a ctdb_scheme \<Rightarrow> (obligation \<times> string) list" where
  "listObligations v tenant i s = map (\<lambda>b. (b, computeAlertStatus v b)) (sort_key ob_due (obligations_of s tenant i))"

subsection \<open>Billing\<close>

definition percent_amount :: "num_val \<Rightarrow> int option \<Rightarrow> num_val" where
  "percent_amount x p = (case p of None \<Rightarrow> x | Some k \<Rightarrow> if k = 0 then x else num_scale x (of_int k / 100))"

definition billing_by_key :: "'a ctdb_scheme \<Rightarrow> string \<Rightarrow> string \<Rightarrow> billing option" where
  "billing_by_key s tenant key = tfind (\<lambda>q. bq_tenant q = tenant \<and> bq_key q = key) (ct_billings s)"

definition generateBillingRequest ::
  "env \<Rightarrow> string \<Rightarrow> string \<Rightarrow> string \<Rightarrow> string option \<Rightarrow> 'a ctdb_scheme \<Rightarrow> ((billing \<times> bool) \<times> 'a ctdb_scheme) res" where
  "generateBillingRequest v tenant actor i key s =
     rbind (ensure (trim_in key \<noteq> []) (BadRequest ''idempotencyKey is required'')) (\<lambda>_.
     rbind (load_obligation s tenant i) (\<lambda>b.
       let k = coalesce key '''' in
       case billing_by_key s tenant k of
         Some q \<Rightarrow> Inr ((q, True), s)
       | None \<Rightarrow>
           rbind (load_contract s tenant (ob_contract b)) (\<lambda>r.
             let ready = truthy_str (ob_evidence b);
                 q = \<lparr>bq_id = oid v s, bq_tenant = tenant, bq_contract = ob_contract b, bq_line = ob_line b,
                      bq_status = (if ready then ''READY'' else ''BLOCKED''), bq_amount = percent_amount (ct_total r) (ob_percent b),
                      bq_currency = ct_currency r, bq_key = k, bq_blockers = (if ready then [] else [''missing evidence on obligation''])\<rparr>
             in Inr ((q, False), contract_event tenant (ob_contract b) ''billing_request_generated'' actor
                  (s\<lparr>ct_billings := ct_billings s @ [q], o_seq := Suc (o_seq s)\<rparr>)))))"

definition listBillingRequests :: "string \<Rightarrow> string option \<Rightarrow> 'a ctdb_scheme \<Rightarrow> billing list" where
  "listBillingRequests tenant i s =
     rev (filter (\<lambda>q. bq_tenant q = tenant \<and> (truthy_str i \<longrightarrow> Some (bq_contract q) = i)) (ct_billings s))"

definition listContracts :: "string \<Rightarrow> string option \<Rightarrow> string option \<Rightarrow> 'a ctdb_scheme \<Rightarrow> contract list" where
  "listContracts tenant status customer s =
     rev (filter (\<lambda>r. ct_tenant r = tenant \<and> (truthy_str status \<longrightarrow> ct_status r = to_upper (the status)) \<and>
            (truthy_str customer \<longrightarrow> Some (ct_customer r) = customer)) (ct_rows s))"

record contract_page =
  xp_contract :: contract
  xp_lines :: "contract_line list"
  xp_signatures :: "signature list"
  xp_obligations :: "(obligation \<times> string) list"
  xp_billings :: "billing list"
  xp_events :: "crm_log list"

definition getContract :: "env \<Rightarrow> string \<Rightarrow> string \<Rightarrow> 'a ctdb_scheme \<Rightarrow> contract_page res" where
  "getContract v tenant i s =
     rbind (load_contract s tenant i) (\<lambda>r.
       Inr \<lparr>xp_contract = r, xp_lines = contract_lines s tenant i,
            xp_signatures = filter (\<lambda>g. sg_tenant g = tenant \<and> sg_contract g = i) (ct_signatures s),
            xp_obligations = listObligations v tenant i s,
            xp_billings = filter (\<lambda>q. bq_tenant q = tenant \<and> bq_contract q = i) (ct_billings s),
            xp_events = rev (filter (\<lambda>e. cl_tenant e = tenant \<and> cl_subject e = i) (ct_events s))\<rparr>)"

subsection \<open>Indicators\<close>

record kpi_values =
  kv_currency :: string
  kv_pipeline :: num_val
  kv_weighted :: num_val
  kv_contracted :: num_val
  kv_ready :: num_val

definition first_currency :: "string list \<Rightarrow> string option" where
  "first_currency xs = (case xs of [] \<Rightarrow> None | x # _ \<Rightarrow> Some x)"

definition revenueKpi :: "string \<Rightarrow> 'a ctdb_scheme \<Rightarrow> kpi_values" where
  "revenueKpi tenant s =
     (let opps = filter (\<lambda>r. op_tenant r = tenant \<and> op_stage r \<notin> {''WON'', ''LOST''}) (sa_opps s);
          ls = filter (\<lambda>l. ln_tenant l = tenant \<and> (\<exists>r \<in> set (ct_rows s). ct_id r = ln_contract l \<and> ct_status r = ''EFFECTIVE'')) (ct_lines s);
          qs = filter (\<lambda>q. bq_tenant q = tenant \<and> bq_status q = ''READY'') (ct_billings s)
      in \<lparr>kv_currency = coalesce (coalesce_opt (first_currency (map op_currency opps))
              (coalesce_opt (first_currency (map ln_currency ls)) (first_currency (map bq_currency qs)))) ''VND'',
          kv_pipeline = num_sum (map (str_to_num \<circ> op_amount) opps),
          kv_weighted = num_sum (map (\<lambda>r. num_scale (str_to_num (op_amount r)) (coalesce (op_probability r) 0)) opps),
          kv_contracted = line_total ls,
          kv_ready = num_sum (map bq_amount qs)\<rparr>)"

subsection \<open>Steps and their effect\<close>

inductive contract_step :: "ctdb \<Rightarrow> ctdb \<Rightarrow> bool" where
  ks_create: "createContract v tenant actor b s = Inr (r, s') \<Longrightarrow> oid v s \<notin> ct_id ` set (ct_rows s) \<Longrightarrow> contract_step s s'"
| ks_line: "addContractLine v tenant actor i lb s = Inr (l, s') \<Longrightarrow> contract_step s s'"
| ks_move: "transitionContract v tenant actor i st s = Inr (r, s') \<Longrightarrow> contract_step s s'"
| ks_sign: "signContract v tenant actor i pv ev s = Inr (g, s') \<Longrightarrow> contract_step s s'"
| ks_complete: "completeObligation v tenant actor i ev s = Inr (b, s') \<Longrightarrow> contract_step s s'"
| ks_escalate: "escalateObligation v tenant actor i s = Inr (b, s') \<Longrightarrow> contract_step s s'"
| ks_bill: "generateBillingRequest v tenant actor i k s = Inr (q, s') \<Longrightarrow> contract_step s s'"

lemma contract_frames [simp]:
  "ct_rows (contract_event t i ty a s) = ct_rows s" "ct_lines (contract_event t i ty a s) = ct_lines s"
  "ct_signatures (contract_event t i ty a s) = ct_signatures s" "ct_obligations (contract_event t i ty a s) = ct_obligations s"
  "ct_billings (contract_event t i ty a s) = ct_billings s" "o_seq (contract_event t i ty a s) = o_seq s"
  "ct_rows (set_contract i f s) = tupd (\<lambda>r. ct_id r = i) f (ct_rows s)" "ct_lines (set_contract i f s) = ct_lines s"
  "ct_signatures (set_contract i f s) = ct_signatures s" "ct_obligations (set_contract i f s) = ct_obligations s"
  "ct_billings (set_contract i f s) = ct_billings s" "o_seq (set_contract i f s) = o_seq s"
  "ct_rows (set_obligation i h s) = ct_rows s" "ct_lines (set_obligation i h s) = ct_lines s"
  "ct_signatures (set_obligation i h s) = ct_signatures s" "ct_billings (set_obligation i h s) = ct_billings s"
  "ct_obligations (set_obligation i h s) = tupd (\<lambda>b. ob_id b = i) h (ct_obligations s)"
  by (simp_all add: contract_event_def set_contract_def set_obligation_def log_audit_def)

lemma load_contract_InrD: "load_contract s tenant i = Inr r \<Longrightarrow> r \<in> set (ct_rows s) \<and> ct_id r = i \<and> ct_tenant r = tenant"
  by (auto simp: load_contract_def split: option.splits dest: tfind_SomeD)

lemma load_obligation_InrD: "load_obligation s tenant i = Inr b \<Longrightarrow> b \<in> set (ct_obligations s) \<and> ob_id b = i \<and> ob_tenant b = tenant"
  by (auto simp: load_obligation_def split: option.splits dest: tfind_SomeD)

text \<open>What completing or escalating leaves alone in an obligation.\<close>

type_synonym ob_core = "string \<times> string \<times> string option \<times> int option"

definition ob_core :: "obligation \<Rightarrow> ob_core" where
  "ob_core b = (ob_tenant b, ob_contract b, ob_line b, ob_percent b)"

definition cores :: "'a ctdb_scheme \<Rightarrow> ob_core list" where
  "cores s = map ob_core (ct_obligations s)"

definition core_lines :: "ob_core list \<Rightarrow> string \<Rightarrow> string \<Rightarrow> string option list" where
  "core_lines cs t i = map (\<lambda>c. fst (snd (snd c))) (filter (\<lambda>c. fst c = t \<and> fst (snd c) = i) cs)"

lemma core_lines_of: "core_lines (cores s) t i = map ob_line (obligations_of s t i)"
  by (simp add: core_lines_def cores_def obligations_of_def filter_map comp_def ob_core_def)

lemma core_lines_append [simp]: "core_lines [] t i = []" "core_lines (xs @ ys) t i = core_lines xs t i @ core_lines ys t i"
  by (simp_all add: core_lines_def)

definition new_cores :: "'a ctdb_scheme \<Rightarrow> string \<Rightarrow> string \<Rightarrow> ob_core list" where
  "new_cores s t i = map (\<lambda>l. (t, i, Some (ln_id l), None)) (milestone_lines s t i)"

lemma core_lines_new: "core_lines (new_cores s t i) t' i' = (if t' = t \<and> i' = i then map (Some \<circ> ln_id) (milestone_lines s t i) else [])"
  by (auto simp: core_lines_def new_cores_def filter_map comp_def filter_empty_conv)

inductive contract_effect :: "ctdb \<Rightarrow> ctdb \<Rightarrow> bool" where
  ke_idle: "ct_rows s' = ct_rows s \<Longrightarrow> ct_lines s' = ct_lines s \<Longrightarrow> ct_signatures s' = ct_signatures s \<Longrightarrow> cores s' = cores s \<Longrightarrow>
     contract_effect s s'"
| ke_new: "ct_id r \<notin> ct_id ` set (ct_rows s) \<Longrightarrow> ct_status r = ''DRAFT'' \<Longrightarrow> ct_total r = Fin 0 \<Longrightarrow>
     ct_rows s' = ct_rows s @ [r] \<Longrightarrow> ct_lines s' = ct_lines s \<Longrightarrow> ct_signatures s' = ct_signatures s \<Longrightarrow> cores s' = cores s \<Longrightarrow>
     contract_effect s s'"
| ke_line: "r \<in> set (ct_rows s) \<Longrightarrow> ct_status r \<in> set PRE_SIGNING_STATUSES \<Longrightarrow> ln_tenant l = ct_tenant r \<Longrightarrow> ln_contract l = ct_id r \<Longrightarrow>
     ct_lines s' = ct_lines s @ [l] \<Longrightarrow>
     ct_rows s' = tupd (\<lambda>x. ct_id x = ct_id r) (\<lambda>x. x\<lparr>ct_total := line_total (contract_lines s' (ct_tenant r) (ct_id r))\<rparr>) (ct_rows s) \<Longrightarrow>
     ct_signatures s' = ct_signatures s \<Longrightarrow> cores s' = cores s \<Longrightarrow> contract_effect s s'"
| ke_move: "r \<in> set (ct_rows s) \<Longrightarrow> y \<in> set (contract_allowed (ct_status r)) \<Longrightarrow>
     (y = ''EFFECTIVE'' \<longrightarrow> is_signed s (ct_tenant r) (ct_id r)) \<Longrightarrow>
     ct_rows s' = tupd (\<lambda>x. ct_id x = ct_id r) (\<lambda>x. x\<lparr>ct_status := y\<rparr>) (ct_rows s) \<Longrightarrow> ct_lines s' = ct_lines s \<Longrightarrow>
     ct_signatures s' = ct_signatures s \<Longrightarrow>
     cores s' = cores s @ (if y = ''EFFECTIVE'' \<and> core_lines (cores s) (ct_tenant r) (ct_id r) = []
                           then new_cores s (ct_tenant r) (ct_id r) else []) \<Longrightarrow> contract_effect s s'"
| ke_sign: "r \<in> set (ct_rows s) \<Longrightarrow> ct_status r \<in> {''APPROVED'', ''SIGNING''} \<Longrightarrow> sg_tenant g = ct_tenant r \<Longrightarrow> sg_contract g = ct_id r \<Longrightarrow>
     ct_rows s' = (if ct_status r = ''APPROVED'' then tupd (\<lambda>x. ct_id x = ct_id r) (\<lambda>x. x\<lparr>ct_status := ''SIGNING''\<rparr>) (ct_rows s)
                   else ct_rows s) \<Longrightarrow>
     ct_lines s' = ct_lines s \<Longrightarrow> ct_signatures s' = ct_signatures s @ [g] \<Longrightarrow> cores s' = cores s \<Longrightarrow> contract_effect s s'"

lemma cores_tupd:
  assumes "\<And>b. ob_core (f b) = ob_core b" "ct_obligations s' = tupd P f (ct_obligations s)"
  shows "cores s' = cores s"
  unfolding cores_def assms(2) by (rule map_tupd_frame) (simp add: assms(1))

lemma add_obligations:
  "ct_rows (fold (add_obligation v t r) ls s) = ct_rows s \<and> ct_lines (fold (add_obligation v t r) ls s) = ct_lines s \<and>
   ct_signatures (fold (add_obligation v t r) ls s) = ct_signatures s \<and> ct_billings (fold (add_obligation v t r) ls s) = ct_billings s \<and>
   cores (fold (add_obligation v t r) ls s) = cores s @ map (\<lambda>l. (t, ct_id r, Some (ln_id l), None)) ls"
  by (induction ls arbitrary: s) (simp_all add: add_obligation_def cores_def ob_core_def)

lemma obligations_empty: "obligations_of s t i = [] \<longleftrightarrow> core_lines (cores s) t i = []"
  by (simp add: core_lines_of)

lemma signContractE:
  assumes "signContract v tenant actor i pv ev s = Inr (g, s')"
  obtains r where "load_contract s tenant i = Inr r" "ct_status r \<in> {''APPROVED'', ''SIGNING''}" "sg_tenant g = tenant" "sg_contract g = i"
    "ct_rows s' = (if ct_status r = ''APPROVED'' then tupd (\<lambda>x. ct_id x = i) (\<lambda>x. x\<lparr>ct_status := ''SIGNING''\<rparr>) (ct_rows s) else ct_rows s)"
    "ct_lines s' = ct_lines s" "ct_signatures s' = ct_signatures s @ [g]" "ct_obligations s' = ct_obligations s" "ct_billings s' = ct_billings s"
  using assms by (auto simp: signContract_def rbind_Inr_iff Let_def)

lemma transitionContractE:
  assumes "transitionContract v tenant actor i st s = Inr (q, s')"
  obtains r where "load_contract s tenant i = Inr r" "to_upper st \<in> set (contract_allowed (ct_status r))"
    "to_upper st = ''EFFECTIVE'' \<longrightarrow> is_signed s tenant i"
    "s' = (let s1 = contract_event tenant i ''status_changed'' actor (set_contract i (\<lambda>x. x\<lparr>ct_status := to_upper st\<rparr>) s)
           in if to_upper st = ''EFFECTIVE'' then generate_obligations v tenant (r\<lparr>ct_status := to_upper st\<rparr>) s1 else s1)"
  using assms by (auto simp: transitionContract_def rbind_Inr_iff Let_def)

lemma generate_rows:
  "ct_rows (generate_obligations v t r s) = ct_rows s \<and> ct_lines (generate_obligations v t r s) = ct_lines s \<and>
   ct_signatures (generate_obligations v t r s) = ct_signatures s \<and> ct_billings (generate_obligations v t r s) = ct_billings s \<and>
   cores (generate_obligations v t r s) = cores s @ (if core_lines (cores s) t (ct_id r) = [] then new_cores s t (ct_id r) else [])"
  using add_obligations [of v t r "milestone_lines s t (ct_id r)" s]
  by (simp add: generate_obligations_def obligations_empty new_cores_def)

lemma contract_step_effect: "contract_step s s' \<Longrightarrow> contract_effect s s'"
proof (induction rule: contract_step.induct)
  case (ks_create v tenant actor b s r s')
  then show ?case by (intro ke_new [of r]) (auto simp: createContract_def rbind_Inr_iff Let_def cores_def)
next
  case (ks_line v tenant actor i lb s l s')
  then obtain r where r: "load_contract s tenant i = Inr r" "ct_status r \<in> set PRE_SIGNING_STATUSES"
    by (auto simp: addContractLine_def rbind_Inr_iff)
  from load_contract_InrD [OF r(1)] ks_line r show ?case
    by (intro ke_line [of r _ l]) (auto simp: addContractLine_def rbind_Inr_iff Let_def cores_def contract_lines_def)
next
  case (ks_move v tenant actor i st s q s')
  then show ?case
  proof (cases rule: transitionContractE)
    case (1 r)
    note r = load_contract_InrD [OF 1(1)]
    let ?s1 = "contract_event tenant i ''status_changed'' actor (set_contract i (\<lambda>x. x\<lparr>ct_status := to_upper st\<rparr>) s)"
    have c: "cores ?s1 = cores s" "new_cores ?s1 t k = new_cores s t k" for t k
      by (simp_all add: cores_def new_cores_def milestone_lines_def contract_lines_def)
    have gen: "cores (generate_obligations v tenant (r\<lparr>ct_status := to_upper st\<rparr>) ?s1) =
        cores s @ (if core_lines (cores s) tenant i = [] then new_cores s tenant i else [])"
      using generate_rows [of v tenant "r\<lparr>ct_status := to_upper st\<rparr>" ?s1] r by (simp add: c)
    show ?thesis
      using 1(2,3) r generate_rows [of v tenant "r\<lparr>ct_status := to_upper st\<rparr>" ?s1] gen unfolding 1(4) Let_def
      by (intro ke_move [of r s "to_upper st"]) (auto simp: c)
  qed
next
  case (ks_sign v tenant actor i pv ev s g s')
  then show ?case
  proof (cases rule: signContractE)
    case (1 r)
    with load_contract_InrD [OF 1(1)] show ?thesis by (intro ke_sign [of r s g]) (auto simp: cores_def)
  qed
next
  case (ks_complete v tenant actor i ev s b s')
  then obtain b0 where "ct_obligations s' = tupd (\<lambda>b. ob_id b = i) (\<lambda>b. b\<lparr>ob_status := ''COMPLETED'', ob_evidence := ev, ob_completed := Some (now v)\<rparr>) (ct_obligations s)"
    "ct_rows s' = ct_rows s" "ct_lines s' = ct_lines s" "ct_signatures s' = ct_signatures s"
    by (auto simp: completeObligation_def rbind_Inr_iff Let_def)
  then show ?case by (intro ke_idle cores_tupd) (simp_all add: ob_core_def)
next
  case (ks_escalate v tenant actor i s b s')
  then have "ct_obligations s' = tupd (\<lambda>b. ob_id b = i) (\<lambda>b. b\<lparr>ob_escalated := Some (now v)\<rparr>) (ct_obligations s)"
    "ct_rows s' = ct_rows s" "ct_lines s' = ct_lines s" "ct_signatures s' = ct_signatures s"
    by (auto simp: escalateObligation_def rbind_Inr_iff Let_def)
  then show ?case by (intro ke_idle cores_tupd) (simp_all add: ob_core_def)
next
  case (ks_bill v tenant actor i k s q s')
  then show ?case by (intro ke_idle) (auto simp: generateBillingRequest_def rbind_Inr_iff Let_def cores_def split: option.splits)
qed

definition contract_view :: "ctdb \<Rightarrow> (string \<times> string) list" where
  "contract_view s = map (\<lambda>r. (ct_id r, ct_status r)) (ct_rows s)"

lemma contract_effect_view: "contract_effect s s' \<Longrightarrow> st_step contract_allowed ''DRAFT'' (contract_view s) (contract_view s')"
proof (induction rule: contract_effect.induct)
  case (ke_idle s' s)
  then show ?case by (simp add: contract_view_def st_idle)
next
  case (ke_new r s s')
  from st_create_table [of ct_id r _ ct_status "''DRAFT''" contract_allowed, OF ke_new(1,2)] ke_new(4) show ?case
    by (simp add: contract_view_def)
next
  case (ke_line r s l s')
  have "map (\<lambda>r. (ct_id r, ct_status r)) (ct_rows s') = map (\<lambda>r. (ct_id r, ct_status r)) (ct_rows s)"
    unfolding ke_line(6) by (rule view_frame) simp
  then show ?case by (simp add: contract_view_def st_idle)
next
  case (ke_move r s y s')
  show ?case unfolding contract_view_def ke_move(4)
    by (rule st_move_table [of r _ ct_id "ct_id r" _ contract_allowed ct_status, OF ke_move(1) refl ke_move(2)]) simp
next
  case (ke_sign r s g s')
  show ?case
  proof (cases "ct_status r = ''APPROVED''")
    case True
    then have "''SIGNING'' \<in> set (contract_allowed (ct_status r))" by (simp add: contract_allowed_def)
    from st_move_table [of r _ ct_id "ct_id r" _ contract_allowed ct_status, OF ke_sign(1) refl this, of "\<lambda>x. x\<lparr>ct_status := ''SIGNING''\<rparr>"]
    show ?thesis using True ke_sign(5) by (simp add: contract_view_def)
  next
    case False
    then show ?thesis using ke_sign(5) by (simp add: contract_view_def st_idle)
  qed
qed

interpretation pacts: staged contract_allowed "''DRAFT''" contract_view contract_step
  by unfold_locales (rule contract_effect_view [OF contract_step_effect])

subsection \<open>Signed contracts\<close>

definition live_states :: "string list" where
  "live_states = [''EFFECTIVE'', ''SUSPENDED'', ''EXPIRED'', ''TERMINATED'', ''COMPLETED'']"

definition contract_fine :: "ctdb \<Rightarrow> contract \<Rightarrow> bool" where
  "contract_fine s r \<longleftrightarrow>
     ct_total r = line_total (contract_lines s (ct_tenant r) (ct_id r)) \<and>
     (ct_status r \<in> set PRE_SIGNING_STATUSES \<longrightarrow> \<not> is_signed s (ct_tenant r) (ct_id r)) \<and>
     (ct_status r \<in> set live_states \<longrightarrow> is_signed s (ct_tenant r) (ct_id r)) \<and>
     core_lines (cores s) (ct_tenant r) (ct_id r) =
       (if ct_status r \<in> set live_states then map (Some \<circ> ln_id) (milestone_lines s (ct_tenant r) (ct_id r)) else [])"

definition contracts_ok :: "ctdb \<Rightarrow> bool" where
  "contracts_ok s \<longleftrightarrow> distinct (map ct_id (ct_rows s)) \<and> (\<forall>l \<in> set (ct_lines s). ln_contract l \<in> ct_id ` set (ct_rows s)) \<and>
     (\<forall>g \<in> set (ct_signatures s). sg_contract g \<in> ct_id ` set (ct_rows s)) \<and>
     (\<forall>c \<in> set (cores s). fst (snd c) \<in> ct_id ` set (ct_rows s) \<and> snd (snd (snd c)) = None) \<and>
     (\<forall>r \<in> set (ct_rows s). contract_fine s r)"

lemma contract_lines_snoc:
  "ct_lines s' = ct_lines s @ [l] \<Longrightarrow>
   contract_lines s' t i = contract_lines s t i @ (if ln_tenant l = t \<and> ln_contract l = i then [l] else [])"
  by (simp add: contract_lines_def)

lemma contract_fine_cong:
  assumes "ct_lines s' = ct_lines s" "ct_signatures s' = ct_signatures s" "core_lines (cores s') (ct_tenant r) (ct_id r) = core_lines (cores s) (ct_tenant r) (ct_id r)"
  shows "contract_fine s' r = contract_fine s r"
  using assms by (simp add: contract_fine_def contract_lines_def milestone_lines_def is_signed_def)

text \<open>The table as pairs, so that what holds of every move is checked move by move.\<close>

definition contract_moves :: "(string \<times> string) list" where
  "contract_moves =
     [(''DRAFT'', ''REVIEW''), (''REVIEW'', ''NEGOTIATION''), (''REVIEW'', ''APPROVED''), (''NEGOTIATION'', ''REVIEW''),
      (''NEGOTIATION'', ''APPROVED''), (''APPROVED'', ''SIGNING''), (''SIGNING'', ''EFFECTIVE''), (''EFFECTIVE'', ''SUSPENDED''),
      (''EFFECTIVE'', ''TERMINATED''), (''EFFECTIVE'', ''COMPLETED''), (''EFFECTIVE'', ''EXPIRED''), (''SUSPENDED'', ''EFFECTIVE''),
      (''SUSPENDED'', ''TERMINATED'')]"

lemma in_if_cases:
  assumes "y \<in> set (if b then xs else ys)"
  obtains b "y \<in> set xs" | "y \<in> set ys"
  using assms by (cases b) auto

lemma allowed_moves: "y \<in> set (contract_allowed x) \<Longrightarrow> (x, y) \<in> set contract_moves"
  unfolding contract_allowed_def by (elim in_if_cases) (auto simp: contract_moves_def)

lemma moves_checked:
  "\<forall>m \<in> set contract_moves.
     (snd m \<in> set PRE_SIGNING_STATUSES \<longrightarrow> fst m \<in> set PRE_SIGNING_STATUSES) \<and>
     (snd m \<in> set live_states \<longrightarrow> snd m = ''EFFECTIVE'' \<or> fst m \<in> set live_states) \<and>
     (fst m \<in> set live_states \<longrightarrow> snd m \<in> set live_states)"
  by code_simp

lemma allowed_live:
  assumes "y \<in> set (contract_allowed x)"
  shows "y \<in> set PRE_SIGNING_STATUSES \<Longrightarrow> x \<in> set PRE_SIGNING_STATUSES"
    "y \<in> set live_states \<Longrightarrow> y = ''EFFECTIVE'' \<or> x \<in> set live_states" "x \<in> set live_states \<Longrightarrow> y \<in> set live_states"
  using bspec [OF moves_checked allowed_moves [OF assms]] by simp_all

lemma tupd_ids: "(\<And>r. ct_id (f r) = ct_id r) \<Longrightarrow> map ct_id (tupd P f rs) = map ct_id rs"
  by (rule map_tupd_frame) simp

lemma set_tupd_ids: "(\<And>r. ct_id (f r) = ct_id r) \<Longrightarrow> ct_id ` set (tupd P f rs) = ct_id ` set rs"
  using tupd_ids [of f P rs] by (metis set_map)

text \<open>Only the row that moved has to be looked at again.\<close>

lemma rows_fine_tupd:
  assumes ok: "contracts_ok s" and r: "r \<in> set (ct_rows s)"
    and rows: "ct_rows s' = tupd (\<lambda>x. ct_id x = ct_id r) f (ct_rows s)" and new: "contract_fine s' (f r)"
    and other: "\<And>q. q \<in> set (ct_rows s) \<Longrightarrow> ct_id q \<noteq> ct_id r \<Longrightarrow> contract_fine s q \<Longrightarrow> contract_fine s' q"
  shows "\<forall>q \<in> set (ct_rows s'). contract_fine s' q"
proof
  have dist: "distinct (map ct_id (ct_rows s))" using ok by (simp add: contracts_ok_def)
  fix q assume "q \<in> set (ct_rows s')"
  then show "contract_fine s' q" unfolding rows
  proof (cases rule: in_set_tupdE)
    case (new q0)
    then have "q0 = r" using distinct_column_unique [OF dist _ r] by simp
    with new assms(4) show ?thesis by simp
  next
    case old
    then show ?thesis using other ok by (simp add: contracts_ok_def)
  qed
qed

lemma fine_new:
  assumes "contracts_ok s" "ct_id r \<notin> ct_id ` set (ct_rows s)" "ct_status r = ''DRAFT''" "ct_total r = Fin 0"
  shows "contract_fine s r"
proof -
  have "contract_lines s t (ct_id r) = []" for t
    using assms(1,2) unfolding contracts_ok_def contract_lines_def filter_empty_conv by metis
  moreover have "\<not> is_signed s t (ct_id r)" for t using assms(1,2) unfolding contracts_ok_def is_signed_def by metis
  moreover have "core_lines (cores s) t (ct_id r) = []" for t
    using assms(1,2) unfolding contracts_ok_def core_lines_def map_is_Nil_conv filter_empty_conv by metis
  ultimately show ?thesis using assms(3,4) by (simp add: contract_fine_def line_total_def num_sum_def live_states_def)
qed

lemma effect_contracts_ok:
  assumes "contract_effect s s'" and ok: "contracts_ok s"
  shows "contracts_ok s'"
  using assms(1)
proof cases
  case ke_idle
  have "contract_fine s' q = contract_fine s q" for q by (rule contract_fine_cong) (use ke_idle in simp_all)
  with ok ke_idle show ?thesis by (simp add: contracts_ok_def)
next
  case (ke_new r)
  have "contract_fine s' q = contract_fine s q" for q by (rule contract_fine_cong) (use ke_new in simp_all)
  then show ?thesis using ok fine_new [OF ok ke_new(1-3)] ke_new by (auto simp: contracts_ok_def)
next
  case (ke_line r l)
  let ?f = "\<lambda>x. x\<lparr>ct_total := line_total (contract_lines s' (ct_tenant r) (ct_id r))\<rparr>"
  have fine: "contract_fine s r" using ok ke_line(1) by (simp add: contracts_ok_def)
  have off: "ct_status r \<notin> set live_states" using ke_line(2) by (auto simp: PRE_SIGNING_STATUSES_def live_states_def)
  have new: "contract_fine s' (?f r)" using fine off ke_line(7,8) by (simp add: contract_fine_def is_signed_def)
  have "contract_fine s' q" if "ct_id q \<noteq> ct_id r" "contract_fine s q" for q
  proof -
    have "contract_lines s' t (ct_id q) = contract_lines s t (ct_id q)" for t
      using contract_lines_snoc [OF ke_line(5)] that(1) ke_line(4) by simp
    then show ?thesis using that(2) ke_line(7,8) by (simp add: contract_fine_def milestone_lines_def is_signed_def)
  qed
  with rows_fine_tupd [OF ok ke_line(1,6) new] have "\<forall>q \<in> set (ct_rows s'). contract_fine s' q" by blast
  moreover have "ct_id ` set (ct_rows s') = ct_id ` set (ct_rows s)" "map ct_id (ct_rows s') = map ct_id (ct_rows s)"
    unfolding ke_line(6) by (rule set_tupd_ids tupd_ids, simp)+
  moreover have "ln_contract x \<in> ct_id ` set (ct_rows s)" if "x \<in> set (ct_lines s')" for x
    using that ok ke_line(1,4) unfolding ke_line(5) contracts_ok_def by auto
  ultimately show ?thesis using ok unfolding contracts_ok_def ke_line(7,8) by simp
next
  case (ke_move r y)
  let ?f = "\<lambda>x. x\<lparr>ct_status := y\<rparr>"
  have fine: "contract_fine s r" using ok ke_move(1) by (simp add: contracts_ok_def)
  have same: "contract_lines s' t i = contract_lines s t i" "milestone_lines s' t i = milestone_lines s t i" "is_signed s' t i = is_signed s t i" for t i
    using ke_move(5,6) by (simp_all add: contract_lines_def milestone_lines_def is_signed_def)
  have new: "contract_fine s' (?f r)"
  proof (cases "y = ''EFFECTIVE''")
    case True
    then have "core_lines (cores s') (ct_tenant r) (ct_id r) = map (Some \<circ> ln_id) (milestone_lines s (ct_tenant r) (ct_id r))"
      using ke_move(7) fine by (auto simp: contract_fine_def core_lines_new split: if_splits)
    then show ?thesis using True fine ke_move(3) by (simp add: contract_fine_def same live_states_def PRE_SIGNING_STATUSES_def)
  next
    case False
    then have "core_lines (cores s') t i = core_lines (cores s) t i" for t i using ke_move(7) by simp
    moreover have "y \<in> set live_states \<longleftrightarrow> ct_status r \<in> set live_states" using allowed_live [OF ke_move(2)] False by blast
    moreover have "y \<in> set PRE_SIGNING_STATUSES \<Longrightarrow> ct_status r \<in> set PRE_SIGNING_STATUSES" using allowed_live [OF ke_move(2)] by blast
    ultimately show ?thesis using fine by (simp add: contract_fine_def same)
  qed
  have "contract_fine s' q" if "ct_id q \<noteq> ct_id r" "contract_fine s q" for q
  proof -
    have "core_lines (cores s') (ct_tenant q) (ct_id q) = core_lines (cores s) (ct_tenant q) (ct_id q)"
      using ke_move(7) that(1) by (simp add: core_lines_new)
    from contract_fine_cong [OF ke_move(5,6) this] that(2) show ?thesis by simp
  qed
  with rows_fine_tupd [OF ok ke_move(1,4) new] have "\<forall>q \<in> set (ct_rows s'). contract_fine s' q" by blast
  moreover have "fst (snd c) \<in> ct_id ` set (ct_rows s) \<and> snd (snd (snd c)) = None" if "c \<in> set (cores s')" for c
  proof (cases "c \<in> set (cores s)")
    case True
    with ok show ?thesis by (simp add: contracts_ok_def)
  next
    case False
    with that have "c \<in> set (new_cores s (ct_tenant r) (ct_id r))" unfolding ke_move(7) by (simp split: if_split_asm)
    then have "fst (snd c) = ct_id r \<and> snd (snd (snd c)) = None" by (auto simp: new_cores_def)
    with ke_move(1) show ?thesis by (simp only: image_eqI simp_thms)
  qed
  moreover have "ct_id ` set (ct_rows s') = ct_id ` set (ct_rows s)" "map ct_id (ct_rows s') = map ct_id (ct_rows s)"
    unfolding ke_move(4) by (rule set_tupd_ids tupd_ids, simp)+
  ultimately show ?thesis using ok unfolding contracts_ok_def ke_move(5,6) by simp
next
  case (ke_sign r g)
  let ?f = "\<lambda>x. x\<lparr>ct_status := ''SIGNING''\<rparr>"
  have dist: "distinct (map ct_id (ct_rows s))" using ok by (simp add: contracts_ok_def)
  have fine: "contract_fine s r" using ok ke_sign(1) by (simp add: contracts_ok_def)
  have same: "contract_lines s' t i = contract_lines s t i" "milestone_lines s' t i = milestone_lines s t i" for t i
    using ke_sign(6) by (simp_all add: contract_lines_def milestone_lines_def)
  have rows: "ct_rows s' = tupd (\<lambda>x. ct_id x = ct_id r) ?f (ct_rows s)"
  proof (cases "ct_status r = ''APPROVED''")
    case False
    then have "?f x = x" if "x \<in> set (ct_rows s)" "ct_id x = ct_id r" for x
      using distinct_column_unique [OF dist that(1) ke_sign(1) that(2)] ke_sign(2) by simp
    then have "tupd (\<lambda>x. ct_id x = ct_id r) ?f (ct_rows s) = ct_rows s" by (simp add: tupd_def map_idI)
    with False ke_sign(5) show ?thesis by simp
  qed (use ke_sign(5) in simp)
  have off: "ct_status r \<notin> set live_states" using ke_sign(2) by (auto simp: live_states_def)
  have new: "contract_fine s' (?f r)"
    using fine off ke_sign(8) by (simp add: contract_fine_def same live_states_def PRE_SIGNING_STATUSES_def)
  have "contract_fine s' q" if "ct_id q \<noteq> ct_id r" "contract_fine s q" for q
  proof -
    have "is_signed s' t (ct_id q) = is_signed s t (ct_id q)" for t using ke_sign(4,7) that(1) by (auto simp: is_signed_def)
    then show ?thesis using that(2) ke_sign(8) by (simp add: contract_fine_def same)
  qed
  with rows_fine_tupd [OF ok ke_sign(1) rows new] have "\<forall>q \<in> set (ct_rows s'). contract_fine s' q" by blast
  moreover have "ct_id ` set (ct_rows s') = ct_id ` set (ct_rows s)" "map ct_id (ct_rows s') = map ct_id (ct_rows s)"
    unfolding rows by (rule set_tupd_ids tupd_ids, simp)+
  moreover have "sg_contract x \<in> ct_id ` set (ct_rows s)" if "x \<in> set (ct_signatures s')" for x
    using that ok ke_sign(1,4) unfolding ke_sign(7) contracts_ok_def by auto
  ultimately show ?thesis using ok unfolding contracts_ok_def ke_sign(6,8) by simp
qed

lemma contract_steps_ok: "contract_step\<^sup>*\<^sup>* s s' \<Longrightarrow> contracts_ok s \<Longrightarrow> contracts_ok s'"
  by (induction rule: rtranclp_induct) (auto dest: contract_step_effect effect_contracts_ok)

lemma contract_rows_unique: "contracts_ok s \<Longrightarrow> r \<in> set (ct_rows s) \<Longrightarrow> q \<in> set (ct_rows s) \<Longrightarrow> ct_id r = ct_id q \<Longrightarrow> r = q"
  using distinct_column_unique [of ct_id "ct_rows s" r q] by (simp add: contracts_ok_def)

lemma load_contract_row:
  assumes "contracts_ok s" "r \<in> set (ct_rows s)"
  shows "load_contract s (ct_tenant r) (ct_id r) = Inr r"
proof -
  obtain q where q: "tfind (\<lambda>c. ct_id c = ct_id r \<and> ct_tenant c = ct_tenant r) (ct_rows s) = Some q"
    using assms(2) by (cases "tfind (\<lambda>c. ct_id c = ct_id r \<and> ct_tenant c = ct_tenant r) (ct_rows s)") (auto simp: tfind_None_iff)
  with tfind_SomeD [OF q] contract_rows_unique [OF assms(1) _ assms(2)] show ?thesis by (auto simp: load_contract_def)
qed

text \<open>A contract past signing keeps its tenant, lines and total in every step.\<close>

lemma frozen_step:
  assumes "contract_effect s s'" and ok: "contracts_ok s" and r: "r \<in> set (ct_rows s)" "ct_status r \<notin> set PRE_SIGNING_STATUSES"
  shows "\<exists>r' \<in> set (ct_rows s'). ct_id r' = ct_id r \<and> ct_tenant r' = ct_tenant r \<and> ct_total r' = ct_total r \<and>
    ct_status r' \<notin> set PRE_SIGNING_STATUSES"
    and "contract_lines s' (ct_tenant r) (ct_id r) = contract_lines s (ct_tenant r) (ct_id r)"
proof -
  let ?R = "\<exists>r' \<in> set (ct_rows s'). ct_id r' = ct_id r \<and> ct_tenant r' = ct_tenant r \<and> ct_total r' = ct_total r \<and>
    ct_status r' \<notin> set PRE_SIGNING_STATUSES"
  have "?R \<and> contract_lines s' (ct_tenant r) (ct_id r) = contract_lines s (ct_tenant r) (ct_id r)"
    using assms(1)
  proof cases
    case ke_idle
    then show ?thesis using r by (auto simp: contract_lines_def)
  next
    case (ke_new q)
    then show ?thesis using r by (auto simp: contract_lines_def)
  next
    case (ke_line q l)
    then have other: "ct_id q \<noteq> ct_id r" using contract_rows_unique [OF ok ke_line(1) r(1)] r(2) by blast
    then have "r \<in> set (ct_rows s')" unfolding ke_line(6) using r(1) by (force simp: set_tupd)
    moreover have "contract_lines s' (ct_tenant r) (ct_id r) = contract_lines s (ct_tenant r) (ct_id r)"
      using contract_lines_snoc [OF ke_line(5)] ke_line(4) other by simp
    ultimately show ?thesis using r(2) by blast
  next
    case (ke_move q y)
    have "contract_lines s' (ct_tenant r) (ct_id r) = contract_lines s (ct_tenant r) (ct_id r)" using ke_move(5) by (simp add: contract_lines_def)
    moreover have ?R
    proof (cases "ct_id q = ct_id r")
      case True
      then have q: "q = r" using contract_rows_unique [OF ok ke_move(1) r(1)] by blast
      then have "y \<notin> set PRE_SIGNING_STATUSES" using allowed_live(1) [OF ke_move(2)] r(2) by blast
      moreover have "r\<lparr>ct_status := y\<rparr> \<in> set (ct_rows s')" unfolding ke_move(4) q using r(1) by (force simp: set_tupd)
      ultimately show ?thesis by (intro bexI [of _ "r\<lparr>ct_status := y\<rparr>"]) simp_all
    next
      case False
      then have "r \<in> set (ct_rows s')" unfolding ke_move(4) using r(1) by (force simp: set_tupd)
      with r(2) show ?thesis by blast
    qed
    ultimately show ?thesis by blast
  next
    case (ke_sign q g)
    have "contract_lines s' (ct_tenant r) (ct_id r) = contract_lines s (ct_tenant r) (ct_id r)" using ke_sign(6) by (simp add: contract_lines_def)
    moreover have "r \<in> set (ct_rows s')"
    proof (cases "ct_status q = ''APPROVED''")
      case True
      then have "ct_id q \<noteq> ct_id r" using contract_rows_unique [OF ok ke_sign(1) r(1)] r(2) by (auto simp: PRE_SIGNING_STATUSES_def)
      with True ke_sign(5) r(1) show ?thesis by (force simp: set_tupd)
    qed (use ke_sign(5) r(1) in simp)
    ultimately show ?thesis using r(2) by blast
  qed
  then show ?R "contract_lines s' (ct_tenant r) (ct_id r) = contract_lines s (ct_tenant r) (ct_id r)" by blast+
qed

lemma frozen_steps:
  assumes "contract_step\<^sup>*\<^sup>* s s'" "contracts_ok s" "r \<in> set (ct_rows s)" "ct_status r \<notin> set PRE_SIGNING_STATUSES"
  shows "contract_lines s' (ct_tenant r) (ct_id r) = contract_lines s (ct_tenant r) (ct_id r) \<and>
      (\<exists>r' \<in> set (ct_rows s'). ct_id r' = ct_id r \<and> ct_tenant r' = ct_tenant r \<and> ct_total r' = ct_total r \<and>
         ct_status r' \<notin> set PRE_SIGNING_STATUSES)"
  using assms(1)
  proof (induction rule: rtranclp_induct)
    case base
    then show ?case using assms(3,4) by blast
  next
    case (step u w)
    then obtain q where q: "q \<in> set (ct_rows u)" "ct_id q = ct_id r" "ct_tenant q = ct_tenant r" "ct_total q = ct_total r"
      "ct_status q \<notin> set PRE_SIGNING_STATUSES" by blast
    from frozen_step [OF contract_step_effect [OF step(2)] contract_steps_ok [OF step(1) assms(2)] q(1,5)] q(2-4) step(3)
    show ?case by simp
  qed

lemma contract_frozen_lines:
  assumes "contract_step\<^sup>*\<^sup>* s s'" "contracts_ok s" "r \<in> set (ct_rows s)" "ct_status r \<notin> set PRE_SIGNING_STATUSES"
  shows "contract_lines s' (ct_tenant r) (ct_id r) = contract_lines s (ct_tenant r) (ct_id r)"
  using frozen_steps [OF assms] by blast

text \<open>
  C27. Signed contracts are frozen: from the moment a contract is past APPROVED, whatever handlers run,
  it keeps its lines and its total and never returns to a state in which lines can be added.
\<close>
theorem contract_frozen:
  assumes "contract_step\<^sup>*\<^sup>* s s'" "contracts_ok s" "r \<in> set (ct_rows s)" "ct_status r \<notin> set PRE_SIGNING_STATUSES"
  shows "contract_lines s' (ct_tenant r) (ct_id r) = contract_lines s (ct_tenant r) (ct_id r) \<and>
    (\<exists>r' \<in> set (ct_rows s'). ct_id r' = ct_id r \<and> ct_total r' = ct_total r \<and> ct_status r' \<notin> set PRE_SIGNING_STATUSES \<and>
       (ct_status r, ct_status r') \<in> (moves contract_allowed)\<^sup>*)"
proof -
  note frozen_steps [OF assms]
  then obtain r' where r': "r' \<in> set (ct_rows s')" "ct_id r' = ct_id r" "ct_total r' = ct_total r" "ct_status r' \<notin> set PRE_SIGNING_STATUSES"
    and lines: "contract_lines s' (ct_tenant r) (ct_id r) = contract_lines s (ct_tenant r) (ct_id r)" by blast
  have keys: "distinct (map fst (contract_view s))" using assms(2) by (simp add: contract_view_def comp_def contracts_ok_def)
  from assms(3) have "(ct_id r, ct_status r) \<in> set (contract_view s)" by (simp add: contract_view_def)
  from pacts.walks [OF assms(1) keys this] obtain y where y: "(ct_id r, y) \<in> set (contract_view s')" "(ct_status r, y) \<in> (moves contract_allowed)\<^sup>*"
    by blast
  from y(1) obtain q where "q \<in> set (ct_rows s')" "ct_id q = ct_id r" "ct_status q = y" by (auto simp: contract_view_def)
  with contract_rows_unique [OF contract_steps_ok [OF assms(1,2)] _ r'(1)] r'(2) have "ct_status r' = y" by metis
  with r' y(2) lines show ?thesis by blast
qed

text \<open>
  C28. Whatever handlers run, the total of a contract is the sum of its lines; a contract that went
  live (EFFECTIVE and after) has a signature and exactly one obligation for each of its milestone
  lines, also after it was suspended and resumed; before that it has no obligation, and while lines
  can still be added it has no signature.
\<close>
theorem contract_live:
  assumes "contract_step\<^sup>*\<^sup>* s s'" "contracts_ok s" "r \<in> set (ct_rows s')"
  shows "ct_total r = line_total (contract_lines s' (ct_tenant r) (ct_id r)) \<and>
    (ct_status r \<in> set PRE_SIGNING_STATUSES \<longrightarrow> \<not> is_signed s' (ct_tenant r) (ct_id r)) \<and>
    (if ct_status r \<in> {''EFFECTIVE'', ''SUSPENDED'', ''EXPIRED'', ''TERMINATED'', ''COMPLETED''}
     then is_signed s' (ct_tenant r) (ct_id r) \<and>
       map ob_line (obligations_of s' (ct_tenant r) (ct_id r)) = map (Some \<circ> ln_id) (milestone_lines s' (ct_tenant r) (ct_id r))
     else obligations_of s' (ct_tenant r) (ct_id r) = [])"
proof -
  from contract_steps_ok [OF assms(1,2)] assms(3) have fine: "contract_fine s' r" by (simp add: contracts_ok_def)
  have live: "ct_status r \<in> {''EFFECTIVE'', ''SUSPENDED'', ''EXPIRED'', ''TERMINATED'', ''COMPLETED''} \<longleftrightarrow> ct_status r \<in> set live_states"
    by (simp add: live_states_def)
  show ?thesis
  proof (cases "ct_status r \<in> set live_states")
    case True
    with fine show ?thesis unfolding live by (auto simp: contract_fine_def core_lines_of)
  next
    case False
    with fine show ?thesis unfolding live by (simp add: contract_fine_def obligations_empty)
  qed
qed

subsection \<open>Billing\<close>

lemma generateBillingRequestE:
  assumes "generateBillingRequest v tenant actor i key s = Inr ((q, replayed), s')"
  shows "bq_tenant q = tenant" "bq_key q = coalesce key ''''"
    "replayed \<Longrightarrow> s' = s \<and> billing_by_key s tenant (coalesce key '''') = Some q"
    "\<not> replayed \<Longrightarrow> ct_rows s' = ct_rows s \<and> ct_lines s' = ct_lines s \<and> ct_billings s' = ct_billings s @ [q] \<and>
       (\<exists>b \<in> set (ct_obligations s). \<exists>r \<in> set (ct_rows s). ct_id r = ob_contract b \<and> ct_tenant r = tenant \<and>
          bq_contract q = ob_contract b \<and> bq_amount q = percent_amount (ct_total r) (ob_percent b))"
  using assms
  by (auto simp: generateBillingRequest_def rbind_Inr_iff Let_def billing_by_key_def split: option.splits
      dest: tfind_SomeD load_contract_InrD load_obligation_InrD) (fastforce dest: load_contract_InrD load_obligation_InrD)+

lemma billing_amount:
  assumes "contracts_ok s" "generateBillingRequest v tenant actor i key s = Inr ((q, False), s')"
  shows "bq_amount q = line_total (contract_lines s tenant (bq_contract q))"
proof -
  from generateBillingRequestE(4) [OF assms(2)] obtain b r where b: "b \<in> set (ct_obligations s)" and r: "r \<in> set (ct_rows s)"
    "ct_id r = ob_contract b" "ct_tenant r = tenant" "bq_contract q = ob_contract b" "bq_amount q = percent_amount (ct_total r) (ob_percent b)"
    by blast
  have "ob_core b \<in> set (cores s)" using b by (simp add: cores_def)
  then have "ob_percent b = None" using assms(1) by (auto simp: contracts_ok_def ob_core_def)
  moreover have "contract_fine s r" using assms(1) r(1) by (simp add: contracts_ok_def)
  ultimately show ?thesis using r by (simp add: percent_amount_def contract_fine_def)
qed

text \<open>A step adds to the billing requests, and what it adds asks for the sum of the lines.\<close>

definition total_bills :: "ctdb \<Rightarrow> billing list \<Rightarrow> bool" where
  "total_bills s qs \<longleftrightarrow> (\<forall>q \<in> set qs. bq_amount q = line_total (contract_lines s (bq_tenant q) (bq_contract q)))"

lemma total_bills_Nil [simp]: "total_bills s []"
  by (simp add: total_bills_def)

lemma contract_step_billings:
  "contract_step s s' \<Longrightarrow> \<exists>new. ct_billings s' = ct_billings s @ new \<and> (contracts_ok s \<longrightarrow> total_bills s new)"
proof (induction rule: contract_step.induct)
  case (ks_move v tenant actor i st s r s')
  then have "ct_billings s' = ct_billings s"
    by (cases rule: transitionContractE) (auto simp: Let_def generate_rows [THEN conjunct2, THEN conjunct2, THEN conjunct2, THEN conjunct1])
  then show ?case by simp
next
  case (ks_bill v tenant actor i k s q s')
  obtain q0 b where q: "q = (q0, b)" by force
  show ?case
  proof (cases b)
    case True
    with generateBillingRequestE(3) [of v tenant actor i k s q0 b s'] ks_bill q show ?thesis by simp
  next
    case False
    with ks_bill q have g: "generateBillingRequest v tenant actor i k s = Inr ((q0, False), s')" by simp
    from generateBillingRequestE(1,4) [OF g] billing_amount [OF _ g] show ?thesis by (auto simp: total_bills_def)
  qed
next
  case (ks_sign v tenant actor i pv ev s g s')
  then show ?case by (cases rule: signContractE) simp
next
  case (ks_line v tenant actor i lb s l s')
  then have "ct_billings s' = ct_billings s" by (auto simp: addContractLine_def rbind_Inr_iff Let_def)
  then show ?case by simp
next
  case (ks_create v tenant actor b s r s')
  then have "ct_billings s' = ct_billings s" by (auto simp: createContract_def rbind_Inr_iff Let_def)
  then show ?case by simp
next
  case (ks_complete v tenant actor i ev s b s')
  then have "ct_billings s' = ct_billings s" by (auto simp: completeObligation_def rbind_Inr_iff Let_def)
  then show ?case by simp
next
  case (ks_escalate v tenant actor i s b s')
  then have "ct_billings s' = ct_billings s" by (auto simp: escalateObligation_def rbind_Inr_iff Let_def)
  then show ?case by simp
qed

lemma contract_steps_billings: "contract_step\<^sup>*\<^sup>* s s' \<Longrightarrow> \<exists>new. ct_billings s' = ct_billings s @ new"
proof (induction rule: rtranclp_induct)
  case (step u w)
  with contract_step_billings [OF step(2)] show ?case by auto
qed simp

lemma bills_after_signing:
  assumes "contract_step\<^sup>*\<^sup>* s s'" "contracts_ok s" "r \<in> set (ct_rows s)" "ct_status r \<notin> set PRE_SIGNING_STATUSES"
  shows "\<exists>new. ct_billings s' = ct_billings s @ new \<and> (\<forall>q \<in> set new. bq_tenant q = ct_tenant r \<and> bq_contract q = ct_id r \<longrightarrow>
    bq_amount q = line_total (contract_lines s (ct_tenant r) (ct_id r)))"
  using assms(1)
proof (induction rule: rtranclp_induct)
  case (step u w)
  then obtain old where old: "ct_billings u = ct_billings s @ old" "\<forall>q \<in> set old. bq_tenant q = ct_tenant r \<and> bq_contract q = ct_id r \<longrightarrow>
    bq_amount q = line_total (contract_lines s (ct_tenant r) (ct_id r))" by blast
  obtain new where new: "ct_billings w = ct_billings u @ new" "total_bills u new"
    using contract_step_billings [OF step(2)] contract_steps_ok [OF step(1) assms(2)] by blast
  have "contract_lines u (ct_tenant r) (ct_id r) = contract_lines s (ct_tenant r) (ct_id r)" using contract_frozen_lines [OF step(1) assms(2-4)] .
  with old new show ?case by (auto simp: total_bills_def)
qed simp

text \<open>
  A billing request is filed once per key: after a request was generated or replayed under a key,
  whatever happens in between, every later request of the tenant under that key returns the same
  row and changes nothing.
\<close>
theorem billing_once:
  assumes "generateBillingRequest v tenant actor i key s = Inr ((q, b), s1)" "contract_step\<^sup>*\<^sup>* s1 s2"
    and "generateBillingRequest v' tenant actor' i' key s2 = Inr ((q', b'), s3)"
  shows "q' = q \<and> b' \<and> s3 = s2"
proof -
  have found: "billing_by_key s1 tenant (coalesce key '''') = Some q"
  proof (cases b)
    case True
    with generateBillingRequestE(3) [OF assms(1)] show ?thesis by simp
  next
    case False
    with assms(1) have "billing_by_key s tenant (coalesce key '''') = None"
      by (auto simp: generateBillingRequest_def rbind_Inr_iff Let_def split: option.splits)
    with generateBillingRequestE [OF assms(1)] False show ?thesis by (simp add: billing_by_key_def tfind_append tfind_Cons)
  qed
  from contract_steps_billings [OF assms(2)] obtain new where "ct_billings s2 = ct_billings s1 @ new" by blast
  with found have "billing_by_key s2 tenant (coalesce key '''') = Some q" by (simp add: billing_by_key_def tfind_append)
  with assms(3) show ?thesis by (auto simp: generateBillingRequest_def rbind_Inr_iff Let_def)
qed

text \<open>
  C38. Every milestone of a live contract bills the whole contract: the contract has one obligation for
  each milestone line; whichever of them is billed under a key not used before, however much was
  billed already, the new request names its milestone and asks for the sum of all lines of the
  contract; and so do all its requests filed from that moment on, so that n milestones bill n times
  the total.
\<close>
theorem milestones_overbill:
  assumes "contract_step\<^sup>*\<^sup>* s0 s" "contracts_ok s0" "r \<in> set (ct_rows s)"
    and "ct_status r \<in> {''EFFECTIVE'', ''SUSPENDED'', ''EXPIRED'', ''TERMINATED'', ''COMPLETED''}"
  shows "map ob_line (obligations_of s (ct_tenant r) (ct_id r)) = map (Some \<circ> ln_id) (milestone_lines s (ct_tenant r) (ct_id r)) \<and>
    (\<forall>v actor o1 b key. load_obligation s (ct_tenant r) o1 = Inr b \<and> ob_contract b = ct_id r \<and> trim_in key \<noteq> [] \<and>
        (\<forall>q \<in> set (ct_billings s). bq_tenant q = ct_tenant r \<longrightarrow> Some (bq_key q) \<noteq> key) \<longrightarrow>
      (\<exists>q s'. generateBillingRequest v (ct_tenant r) actor o1 key s = Inr ((q, False), s') \<and> ct_billings s' = ct_billings s @ [q] \<and>
        bq_contract q = ct_id r \<and> bq_line q = ob_line b \<and>
        bq_amount q = line_total (contract_lines s (ct_tenant r) (ct_id r)))) \<and>
    (\<forall>s'. contract_step\<^sup>*\<^sup>* s s' \<longrightarrow> (\<exists>new. ct_billings s' = ct_billings s @ new \<and>
      (\<forall>q \<in> set new. bq_tenant q = ct_tenant r \<and> bq_contract q = ct_id r \<longrightarrow>
        bq_amount q = line_total (contract_lines s (ct_tenant r) (ct_id r)))))"
proof (intro conjI allI impI)
  have ok: "contracts_ok s" by (rule contract_steps_ok [OF assms(1,2)])
  then have fine: "contract_fine s r" using assms(3) by (simp add: contracts_ok_def)
  have live: "ct_status r \<in> set live_states" using assms(4) by (auto simp: live_states_def)
  show "map ob_line (obligations_of s (ct_tenant r) (ct_id r)) = map (Some \<circ> ln_id) (milestone_lines s (ct_tenant r) (ct_id r))"
    using fine live by (auto simp: contract_fine_def core_lines_of)
  fix s' assume "contract_step\<^sup>*\<^sup>* s s'"
  then show "\<exists>new. ct_billings s' = ct_billings s @ new \<and> (\<forall>q \<in> set new. bq_tenant q = ct_tenant r \<and> bq_contract q = ct_id r \<longrightarrow>
      bq_amount q = line_total (contract_lines s (ct_tenant r) (ct_id r)))"
    by (rule bills_after_signing [OF _ ok assms(3)]) (use assms(4) in \<open>auto simp: PRE_SIGNING_STATUSES_def\<close>)
next
  fix v actor o1 b key
  assume b: "load_obligation s (ct_tenant r) o1 = Inr b \<and> ob_contract b = ct_id r \<and> trim_in key \<noteq> [] \<and>
    (\<forall>q \<in> set (ct_billings s). bq_tenant q = ct_tenant r \<longrightarrow> Some (bq_key q) \<noteq> key)"
  have ok: "contracts_ok s" by (rule contract_steps_ok [OF assms(1,2)])
  obtain k where k: "key = Some k" using b by (cases key) (auto simp: trim_in_def trim_def)
  have fresh: "billing_by_key s (ct_tenant r) k = None" using b by (auto simp: billing_by_key_def tfind_None_iff k)
  have r: "load_contract s (ct_tenant r) (ct_id r) = Inr r" by (rule load_contract_row [OF ok assms(3)])
  obtain q s' where g: "generateBillingRequest v (ct_tenant r) actor o1 key s = Inr ((q, False), s')" "bq_contract q = ct_id r" "bq_line q = ob_line b"
    using b r fresh by (simp add: generateBillingRequest_def k Let_def ensure_def)
  from billing_amount [OF ok g(1)] generateBillingRequestE(4) [OF g(1)] g
  show "\<exists>q s'. generateBillingRequest v (ct_tenant r) actor o1 key s = Inr ((q, False), s') \<and> ct_billings s' = ct_billings s @ [q] \<and>
      bq_contract q = ct_id r \<and> bq_line q = ob_line b \<and> bq_amount q = line_total (contract_lines s (ct_tenant r) (ct_id r))"
    by (intro exI [of _ q] exI [of _ s']) simp
qed

subsection \<open>Every contract can be completed\<close>

lemma load_contract_tupd:
  assumes "load_contract s t i = Inr r" "ct_rows s' = tupd (\<lambda>x. ct_id x = i) f (ct_rows s)"
    and f: "\<And>x. ct_id (f x) = ct_id x \<and> ct_tenant (f x) = ct_tenant x"
  shows "load_contract s' t i = Inr (f r)"
proof -
  have "tfind (\<lambda>c. ct_id c = i \<and> ct_tenant c = t) rows = Some r \<Longrightarrow>
      tfind (\<lambda>c. ct_id c = i \<and> ct_tenant c = t) (tupd (\<lambda>x. ct_id x = i) f rows) = Some (f r)" for rows
    by (induction rows) (auto simp: table_simps f split: if_splits)
  then show ?thesis using assms(1,2) by (auto simp: load_contract_def split: option.splits)
qed

lemma contract_moves_on:
  assumes "load_contract s t i = Inr r" "st \<in> set (contract_allowed (ct_status r))" "st = ''EFFECTIVE'' \<longrightarrow> is_signed s t i"
    and st: "to_upper st = st" "st \<in> set CONTRACT_STATUSES"
  obtains s' r' where "contract_step s s'" "load_contract s' t i = Inr r'" "ct_status r' = st"
proof -
  obtain v :: env where True by simp
  have "\<exists>q s'. transitionContract v t [] i st s = Inr (q, s')" using assms by (simp add: transitionContract_def Let_def)
  then obtain q s' where m: "transitionContract v t [] i st s = Inr (q, s')" by blast
  then have rows: "ct_rows s' = tupd (\<lambda>x. ct_id x = i) (\<lambda>x. x\<lparr>ct_status := st\<rparr>) (ct_rows s)"
    by (elim transitionContractE) (simp add: Let_def st(1) generate_rows [THEN conjunct1])
  show thesis by (rule that [OF ks_move [OF m] load_contract_tupd [OF assms(1) rows]]) simp_all
qed

lemma contract_signs:
  assumes "load_contract s t i = Inr r" "ct_status r \<in> {''APPROVED'', ''SIGNING''}"
  obtains s' r' where "contract_step s s'" "load_contract s' t i = Inr r'" "ct_status r' = ''SIGNING''" "is_signed s' t i"
proof -
  obtain v :: env where True by simp
  obtain g s' where m: "signContract v t [] i None None s = Inr (g, s')" using assms by (auto simp: signContract_def Let_def)
  then have rows: "ct_rows s' = (if ct_status r = ''APPROVED'' then tupd (\<lambda>x. ct_id x = i) (\<lambda>x. x\<lparr>ct_status := ''SIGNING''\<rparr>) (ct_rows s) else ct_rows s)"
    and signed: "is_signed s' t i"
    using assms(1) by (elim signContractE; simp add: is_signed_def)+
  show thesis
  proof (cases "ct_status r = ''APPROVED''")
    case True
    with rows have rows: "ct_rows s' = tupd (\<lambda>x. ct_id x = i) (\<lambda>x. x\<lparr>ct_status := ''SIGNING''\<rparr>) (ct_rows s)" by simp
    show thesis by (rule that [OF ks_sign [OF m] load_contract_tupd [OF assms(1) rows]]) (simp_all add: signed)
  next
    case False
    with rows assms have "load_contract s' t i = Inr r" "ct_status r = ''SIGNING''" by (simp_all add: load_contract_def)
    then show thesis by (rule that [OF ks_sign [OF m]]) (rule signed)
  qed
qed

definition completable :: "ctdb \<Rightarrow> string \<Rightarrow> string \<Rightarrow> bool" where
  "completable s t i \<longleftrightarrow> (\<exists>s' r'. contract_step\<^sup>*\<^sup>* s s' \<and> load_contract s' t i = Inr r' \<and> ct_status r' = ''COMPLETED'')"

lemma completable_step: "contract_step s s' \<Longrightarrow> completable s' t i \<Longrightarrow> completable s t i"
  unfolding completable_def by (meson converse_rtranclp_into_rtranclp)

lemma completable_done: "load_contract s t i = Inr r \<Longrightarrow> ct_status r = ''COMPLETED'' \<Longrightarrow> completable s t i"
  unfolding completable_def by blast

lemma completable_effective:
  assumes "load_contract s t i = Inr r" "ct_status r = ''EFFECTIVE''"
  shows "completable s t i"
proof (rule contract_moves_on [OF assms(1), of "''COMPLETED''"])
  fix s' r' assume "contract_step s s'" "load_contract s' t i = Inr r'" "ct_status r' = ''COMPLETED''"
  then show ?thesis using completable_step completable_done by blast
next
  show "to_upper ''COMPLETED'' = ''COMPLETED''" by code_simp
qed (use assms(2) in \<open>simp_all add: contract_allowed_def CONTRACT_STATUSES_def\<close>)

lemma completable_signed:
  assumes "load_contract s t i = Inr r" "ct_status r \<in> {''SIGNING'', ''SUSPENDED''}" "is_signed s t i"
  shows "completable s t i"
proof (rule contract_moves_on [OF assms(1), of "''EFFECTIVE''"])
  fix s' r' assume "contract_step s s'" "load_contract s' t i = Inr r'" "ct_status r' = ''EFFECTIVE''"
  then show ?thesis using completable_step completable_effective by blast
next
  show "to_upper ''EFFECTIVE'' = ''EFFECTIVE''" by code_simp
qed (use assms(2,3) in \<open>auto simp: contract_allowed_def CONTRACT_STATUSES_def\<close>)

lemma completable_approved:
  assumes "load_contract s t i = Inr r" "ct_status r \<in> {''APPROVED'', ''SIGNING''}"
  shows "completable s t i"
proof (rule contract_signs [OF assms])
  fix s' r' assume "contract_step s s'" "load_contract s' t i = Inr r'" "ct_status r' = ''SIGNING''" "is_signed s' t i"
  then show ?thesis using completable_step completable_signed by blast
qed

lemma completable_review:
  assumes "load_contract s t i = Inr r" "ct_status r \<in> {''REVIEW'', ''NEGOTIATION''}"
  shows "completable s t i"
proof (rule contract_moves_on [OF assms(1), of "''APPROVED''"])
  fix s' r' assume "contract_step s s'" "load_contract s' t i = Inr r'" "ct_status r' = ''APPROVED''"
  then show ?thesis using completable_step completable_approved by blast
next
  show "to_upper ''APPROVED'' = ''APPROVED''" by code_simp
qed (use assms(2) in \<open>auto simp: contract_allowed_def CONTRACT_STATUSES_def\<close>)

lemma completable_draft:
  assumes "load_contract s t i = Inr r" "ct_status r = ''DRAFT''"
  shows "completable s t i"
proof (rule contract_moves_on [OF assms(1), of "''REVIEW''"])
  fix s' r' assume "contract_step s s'" "load_contract s' t i = Inr r'" "ct_status r' = ''REVIEW''"
  then show ?thesis using completable_step completable_review by blast
next
  show "to_upper ''REVIEW'' = ''REVIEW''" by code_simp
qed (use assms(2) in \<open>simp_all add: contract_allowed_def CONTRACT_STATUSES_def\<close>)

text \<open>
  C26. No contract gets stuck: whatever happened so far, a contract that is not expired or terminated can
  still be brought to COMPLETED by handlers that accept (signing it and putting it in force on the
  way where that is missing).
\<close>
theorem contract_can_complete:
  assumes "contract_step\<^sup>*\<^sup>* s0 s" "contracts_ok s0" "r \<in> set (ct_rows s)"
    and "ct_status r \<in> set CONTRACT_STATUSES" "ct_status r \<notin> {''EXPIRED'', ''TERMINATED''}"
  shows "\<exists>s'. contract_step\<^sup>*\<^sup>* s s' \<and> (\<exists>r' \<in> set (ct_rows s'). ct_id r' = ct_id r \<and> ct_status r' = ''COMPLETED'')"
proof -
  have ok: "contracts_ok s" by (rule contract_steps_ok [OF assms(1,2)])
  have l: "load_contract s (ct_tenant r) (ct_id r) = Inr r" by (rule load_contract_row [OF ok assms(3)])
  have signed: "ct_status r = ''SUSPENDED'' \<Longrightarrow> is_signed s (ct_tenant r) (ct_id r)"
    using ok assms(3) by (auto simp: contracts_ok_def contract_fine_def live_states_def)
  have "ct_status r \<in> {''DRAFT'', ''REVIEW'', ''NEGOTIATION'', ''APPROVED'', ''SIGNING'', ''EFFECTIVE'', ''SUSPENDED'', ''COMPLETED''}"
    using assms(4,5) by (auto simp: CONTRACT_STATUSES_def)
  then have "completable s (ct_tenant r) (ct_id r)"
    using completable_draft [OF l] completable_review [OF l] completable_approved [OF l] completable_effective [OF l]
      completable_signed [OF l] completable_done [OF l] signed by blast
  then show ?thesis unfolding completable_def using load_contract_InrD by blast
qed

subsection \<open>An example\<close>

text \<open>A signed contract with two milestones of 100, about to go live.\<close>

definition milestone :: "string \<Rightarrow> contract_line" where
  "milestone i = \<lparr>ln_id = i, ln_tenant = ''t1'', ln_contract = ''x'', ln_item = ''g1'', ln_delivery = ''PROJECT'', ln_billing = ''MILESTONE'',
     ln_value = ''100'', ln_currency = ''VND'', ln_acceptance = False\<rparr>"

definition the_pact :: contract where
  "the_pact = \<lparr>ct_id = ''x'', ct_tenant = ''t1'', ct_no = ''C-1'', ct_opp = None, ct_customer = ''c1'', ct_status = ''SIGNING'', ct_from = None,
     ct_total = Fin 200, ct_currency = ''VND'', ct_by = ''an''\<rparr>"

definition pact_db :: ctdb where
  "pact_db = \<lparr>o_docs = [], o_versions = [], o_files = [], o_res = [], o_audit = [], o_org = empty_idb, o_seq = 0,
     cu_customers = [], cu_contacts = [], cu_events = [], sa_opps = [], sa_oevents = [], sa_items = [], sa_props = [], sa_lines = [],
     sa_pevents = [], ct_rows = [the_pact], ct_lines = [milestone ''l1'', milestone ''l2''],
     ct_signatures = [\<lparr>sg_tenant = ''t1'', sg_contract = ''x'', sg_provider = ''MOCK'', sg_envelope = ''E''\<rparr>],
     ct_obligations = [], ct_billings = [], ct_events = []\<rparr>"

definition activated :: "(contract \<times> ctdb) res" where "activated = transitionContract demo_env ''t1'' ''an'' ''x'' ''effective'' pact_db"
definition pact1 :: ctdb where "pact1 = snd (projr activated)"
definition billed :: "((billing \<times> bool) \<times> ctdb) res" where
  "billed = generateBillingRequest demo_env ''t1'' ''an'' ''id0'' (Some ''k1'') pact1"
definition pact2 :: ctdb where "pact2 = snd (projr billed)"
definition billed_again :: "((billing \<times> bool) \<times> ctdb) res" where
  "billed_again = generateBillingRequest demo_env ''t1'' ''an'' ''id1'' (Some ''k2'') pact2"

lemma pair_flag: "is_ok r \<Longrightarrow> \<not> snd (fst (projr r)) \<Longrightarrow> r = Inr ((fst (fst (projr r)), False), snd (projr r))"
  by (cases r) (auto simp: prod_eq_iff)

lemma pact_runs:
  "is_ok activated" "is_ok billed" "\<not> snd (fst (projr billed))" "is_ok billed_again" "\<not> snd (fst (projr billed_again))"
  "is_ok (generateBillingRequest demo_env ''t1'' ''bo'' ''id1'' (Some ''k1'') pact2)"
  "line_total (contract_lines pact_db ''t1'' ''x'') = Fin 200" "ct_rows pact1 = [the_pact\<lparr>ct_status := ''EFFECTIVE''\<rparr>]"
  "bq_contract (fst (fst (projr billed))) = ''x''" "bq_contract (fst (fst (projr billed_again))) = ''x''" "ct_billings pact1 = []"
  "contract_lines pact1 ''t1'' ''x'' = contract_lines pact_db ''t1'' ''x''"
  by code_simp+

lemma activated_eq: "transitionContract demo_env ''t1'' ''an'' ''x'' ''effective'' pact_db = Inr (fst (projr activated), pact1)"
  unfolding pact1_def activated_def [symmetric] by (rule ok_pair pact_runs)+

lemma billed_eq: "generateBillingRequest demo_env ''t1'' ''an'' ''id0'' (Some ''k1'') pact1 = Inr ((fst (fst (projr billed)), False), pact2)"
  unfolding pact2_def billed_def [symmetric] by (rule pair_flag) (rule pact_runs)+

lemma billed_again_eq:
  "generateBillingRequest demo_env ''t1'' ''an'' ''id1'' (Some ''k2'') pact2 = Inr ((fst (fst (projr billed_again)), False), snd (projr billed_again))"
  unfolding billed_again_def [symmetric] by (rule pair_flag) (rule pact_runs)+

lemma pact_run: "contract_step\<^sup>*\<^sup>* pact_db pact1"
  using ks_move [OF activated_eq] by (rule r_into_rtranclp)

lemma pact_db_ok: "contracts_ok pact_db"
proof -
  have "contract_fine pact_db the_pact"
    using pact_runs(7)
    by (simp add: contract_fine_def the_pact_def PRE_SIGNING_STATUSES_def live_states_def is_signed_def cores_def pact_db_def)
  then show ?thesis by (simp add: contracts_ok_def pact_db_def cores_def the_pact_def milestone_def)
qed

lemma contract_live_witness: "map ob_line (obligations_of pact1 ''t1'' ''x'') = map (Some \<circ> ln_id) (milestone_lines pact1 ''t1'' ''x'')"
proof -
  let ?r = "the_pact\<lparr>ct_status := ''EFFECTIVE''\<rparr>"
  have "?r \<in> set (ct_rows pact1)" by (simp add: pact_runs)
  from contract_live [OF pact_run pact_db_ok this] show ?thesis by (simp add: the_pact_def)
qed

lemma contract_frozen_witness: "contract_lines pact1 ''t1'' ''x'' = contract_lines pact_db ''t1'' ''x''"
proof -
  have "the_pact \<in> set (ct_rows pact_db)" by (simp add: pact_db_def)
  from contract_frozen [OF pact_run pact_db_ok this] show ?thesis by (simp add: the_pact_def PRE_SIGNING_STATUSES_def)
qed

lemma billing_once_witness:
  "snd (projr (generateBillingRequest demo_env ''t1'' ''bo'' ''id1'' (Some ''k1'') pact2)) = pact2"
proof -
  have "is_ok (generateBillingRequest demo_env ''t1'' ''bo'' ''id1'' (Some ''k1'') pact2)" by (rule pact_runs)
  then obtain q b s where g: "generateBillingRequest demo_env ''t1'' ''bo'' ''id1'' (Some ''k1'') pact2 = Inr ((q, b), s)"
    by (cases "generateBillingRequest demo_env ''t1'' ''bo'' ''id1'' (Some ''k1'') pact2") auto
  from billing_once [OF billed_eq rtranclp.rtrancl_refl g] g show ?thesis by simp
qed

text \<open>Both milestones of 100 are billed 200.\<close>

lemma milestones_overbill_witness:
  "map bq_amount (filter (\<lambda>q. bq_tenant q = ''t1'' \<and> bq_contract q = ''x'') (ct_billings (snd (projr billed_again)))) = [Fin 200, Fin 200]"
proof -
  let ?r = "the_pact\<lparr>ct_status := ''EFFECTIVE''\<rparr>" and ?s = "snd (projr billed_again)"
  have "?r \<in> set (ct_rows pact1)" by (simp add: pact_runs)
  note over = milestones_overbill [OF pact_run pact_db_ok this]
  have "contract_step\<^sup>*\<^sup>* pact1 ?s" by (rule converse_rtranclp_into_rtranclp, rule ks_bill, rule billed_eq, rule r_into_rtranclp, rule ks_bill, rule billed_again_eq)
  then obtain new where new: "ct_billings ?s = new" "\<forall>q \<in> set new. bq_tenant q = ''t1'' \<and> bq_contract q = ''x'' \<longrightarrow> bq_amount q = Fin 200"
    using over by (auto simp: the_pact_def pact_runs)
  then have "map bq_amount (filter (\<lambda>q. bq_tenant q = ''t1'' \<and> bq_contract q = ''x'') new) =
      replicate (length (filter (\<lambda>q. bq_tenant q = ''t1'' \<and> bq_contract q = ''x'') new)) (Fin 200)"
    by (intro replicate_eqI) auto
  moreover have "length (filter (\<lambda>q. bq_tenant q = ''t1'' \<and> bq_contract q = ''x'') new) = 2"
    using generateBillingRequestE(1,4) [OF billed_eq] generateBillingRequestE(1,4) [OF billed_again_eq] new(1) by (auto simp: pact_runs)
  ultimately show ?thesis using new(1) by (simp add: numeral_2_eq_2)
qed

lemma contract_can_complete_witness:
  "\<exists>s'. contract_step\<^sup>*\<^sup>* pact_db s' \<and> (\<exists>r' \<in> set (ct_rows s'). ct_id r' = ''x'' \<and> ct_status r' = ''COMPLETED'')"
proof -
  have "the_pact \<in> set (ct_rows pact_db)" by (simp add: pact_db_def)
  from contract_can_complete [OF rtranclp.rtrancl_refl pact_db_ok this] show ?thesis
    by (simp add: the_pact_def CONTRACT_STATUSES_def)
qed

end
