(* ===== verification/Support_Cases.thy ===== *)
theory Support_Cases
  imports Customers Json Assignment_Resolver
begin

section \<open>Support cases\<close>

text \<open>
  xhub-api/src/support-cases/support-cases.service.ts: cases of external customers with generated
  yearly codes, the transitions, comments and the escalation to the Engineering Hub, another process.
  What that process answers is the parameter \<open>hub\<close>; the requests it accepted are kept in the state, beside
  the tables, since no local transaction takes them back. An escalation is three steps, the check, the
  call and the local write, and other requests run between them.
  The calendar year of an instant is the parameter \<open>yr\<close>. Codes sort by their bytes.
\<close>

subsection \<open>State\<close>

record support_case =
  sc_id :: string
  sc_tenant :: string
  sc_code :: string
  sc_title :: string
  sc_description :: "string option"
  sc_product :: string
  sc_customer :: "string option"
  sc_channel :: string
  sc_category :: string
  sc_priority :: string
  sc_status :: string
  sc_assignee :: "string option"
  sc_escType :: "string option"
  sc_escItem :: "string option"
  sc_escCode :: "string option"
  sc_key :: "string option"
  sc_resolved :: "int option"

text \<open>A request to file a backlog item or a defect.\<close>

record filing =
  fg_kind :: string
  fg_product :: string
  fg_title :: string
  fg_description :: string
  fg_type :: "string option"
  fg_priority :: string
  fg_ref :: string
  fg_correlation :: string

text \<open>
  The product id of a code, and the answer to a filing after earlier ones: nothing filed, filed with an
  answer that never arrives, or the id and code of the item. In the first two the call throws.
\<close>

datatype hub_answer = HA_refused | HA_lost | HA_item string string

record hub =
  hub_product :: "string \<Rightarrow> string option"
  hub_file :: "filing list \<Rightarrow> filing \<Rightarrow> hub_answer"

record spdb = cudb +
  sp_cases :: "support_case list"
  sp_events :: "crm_log list"
  sp_filed :: "filing list"

subsection \<open>Events, rows and legality\<close>

fun support_action_name :: "support_action \<Rightarrow> string" where
  "support_action_name S_triage = ''triage''"
| "support_action_name S_start = ''start''"
| "support_action_name S_wait = ''wait''"
| "support_action_name S_resume = ''resume''"
| "support_action_name S_resolve = ''resolve''"
| "support_action_name S_close = ''close''"
| "support_action_name S_cancel = ''cancel''"

definition case_event :: "string \<Rightarrow> string \<Rightarrow> string \<Rightarrow> string \<Rightarrow> spdb \<Rightarrow> spdb" where
  "case_event tenant i ty actor s =
     log_audit tenant actor i (''support_case.'' @ ty)
       (s\<lparr>sp_events := sp_events s @ [\<lparr>cl_tenant = tenant, cl_subject = i, cl_type = ty, cl_actor = actor\<rparr>]\<rparr>)"

definition assertLegalCase :: "support_action \<Rightarrow> string \<Rightarrow> string res" where
  "assertLegalCase a st =
     (case supportCaseNext a st of None \<Rightarrow> Inl (BadRequest ''Illegal support case transition'') | Some t \<Rightarrow> Inr t)"

definition load_case :: "spdb \<Rightarrow> string \<Rightarrow> string \<Rightarrow> support_case res" where
  "load_case s tenant i =
     (case tfind (\<lambda>c. sc_id c = i \<and> sc_tenant c = tenant) (sp_cases s) of
        None \<Rightarrow> Inl (NotFound ''support case not found'') | Some c \<Rightarrow> Inr c)"

definition set_case :: "string \<Rightarrow> (support_case \<Rightarrow> support_case) \<Rightarrow> spdb \<Rightarrow> spdb" where
  "set_case i f s = s\<lparr>sp_cases := tupd (\<lambda>c. sc_id c = i) f (sp_cases s)\<rparr>"

record case_view =
  sv_case :: support_case
  sv_legal :: "support_action list"

definition decorate_case :: "support_case \<Rightarrow> case_view" where
  "decorate_case c = \<lparr>sv_case = c, sv_legal = supportCaseLegalActions (sc_status c)\<rparr>"

subsection \<open>Codes\<close>

definition code_prefix :: "(int \<Rightarrow> string) \<Rightarrow> env \<Rightarrow> string" where
  "code_prefix yr v = ''SUP-'' @ yr (now v) @ ''-''"

text \<open>\<open>findFirst\<close> with \<open>startsWith\<close> in descending order of the code.\<close>

definition last_code :: "string \<Rightarrow> string list \<Rightarrow> string option" where
  "last_code p cs =
     (case filter (starts_with p) cs of [] \<Rightarrow> None | c # ds \<Rightarrow> Some (fold (\<lambda>d m. if lex_le m d then d else m) ds c))"

text \<open>\<open>String((Number(suffix) || 0) + 1)\<close>\<close>

definition next_number :: "num_val \<Rightarrow> string" where
  "next_number n =
     (case n of NaN \<Rightarrow> ''1'' | Fin r \<Rightarrow> num_to_string (r + 1) | PosInf \<Rightarrow> ''Infinity'' | NegInf \<Rightarrow> ''-Infinity'')"

definition codes_of :: "spdb \<Rightarrow> string \<Rightarrow> string list" where
  "codes_of s tenant = map sc_code (filter (\<lambda>c. sc_tenant c = tenant) (sp_cases s))"

definition nextCode :: "(int \<Rightarrow> string) \<Rightarrow> env \<Rightarrow> string \<Rightarrow> spdb \<Rightarrow> string" where
  "nextCode yr v tenant s =
     (let p = code_prefix yr v;
          n = (case last_code p (codes_of s tenant) of None \<Rightarrow> Fin 0 | Some c \<Rightarrow> str_to_num (drop (length p) c))
      in p @ pad_start 4 (CHR ''0'') (next_number n))"

subsection \<open>Creation\<close>

record case_in =
  zi_title :: "string option"
  zi_description :: "string option"
  zi_product :: "string option"
  zi_customer :: "string option"
  zi_channel :: "string option"
  zi_category :: "string option"
  zi_priority :: "string option"
  zi_code :: "string option"
  zi_key :: "string option"

definition case_by_key :: "spdb \<Rightarrow> string \<Rightarrow> string option \<Rightarrow> support_case option" where
  "case_by_key s tenant key =
     (if truthy_str key then tfind (\<lambda>c. sc_tenant c = tenant \<and> sc_key c = key) (sp_cases s) else None)"

definition case_clash :: "spdb \<Rightarrow> support_case \<Rightarrow> bool" where
  "case_clash s c = (\<exists>u \<in> set (sp_cases s). sc_tenant u = sc_tenant c \<and>
     (sc_code u = sc_code c \<or> (sc_key c \<noteq> None \<and> sc_key u = sc_key c)))"

definition new_case :: "env \<Rightarrow> string \<Rightarrow> case_in \<Rightarrow> string \<Rightarrow> spdb \<Rightarrow> support_case" where
  "new_case v tenant b code s =
     \<lparr>sc_id = oid v s, sc_tenant = tenant, sc_code = code, sc_title = coalesce (zi_title b) '''', sc_description = zi_description b,
      sc_product = coalesce (zi_product b) '''', sc_customer = zi_customer b, sc_channel = to_upper (coalesce (zi_channel b) ''OTHER''),
      sc_category = to_upper (coalesce (zi_category b) ''OTHER''), sc_priority = to_upper (coalesce (zi_priority b) ''MEDIUM''),
      sc_status = ''NEW'', sc_assignee = None, sc_escType = None, sc_escItem = None, sc_escCode = None,
      sc_key = (if truthy_str (zi_key b) then zi_key b else None), sc_resolved = None\<rparr>"

text \<open>The bounded loop: \<open>k\<close> attempts are left. A generated code that clashes is generated again.\<close>

fun try_create :: "nat \<Rightarrow> (int \<Rightarrow> string) \<Rightarrow> env \<Rightarrow> string \<Rightarrow> string \<Rightarrow> case_in \<Rightarrow> spdb \<Rightarrow> ((case_view \<times> bool) \<times> spdb) res" where
  "try_create 0 yr v tenant actor b s = Inl TypeErr"
| "try_create (Suc k) yr v tenant actor b s =
     (let explicit = trim_in (zi_code b);
          c = new_case v tenant b (if explicit = [] then nextCode yr v tenant s else explicit) s
      in if case_clash s c then
           (case case_by_key s tenant (zi_key b) of
              Some u \<Rightarrow> Inr ((decorate_case u, True), s)
            | None \<Rightarrow>
                if explicit = [] \<and> 0 < k then try_create k yr v tenant actor b s
                else if explicit \<noteq> [] then Inl (BadRequest ''Support case code already exists'') else Inl UniqueViolation)
         else Inr ((decorate_case c, False),
                case_event tenant (sc_id c) ''created'' actor (s\<lparr>sp_cases := sp_cases s @ [c], o_seq := Suc (o_seq s)\<rparr>)))"

definition createCase :: "(int \<Rightarrow> string) \<Rightarrow> env \<Rightarrow> string \<Rightarrow> string \<Rightarrow> case_in \<Rightarrow> spdb \<Rightarrow> ((case_view \<times> bool) \<times> spdb) res" where
  "createCase yr v tenant actor b s =
     rbind (ensure (trim_in (zi_title b) \<noteq> []) (BadRequest ''title is required'')) (\<lambda>_.
     rbind (ensure (trim_in (zi_product b) \<noteq> []) (BadRequest ''productCode is required'')) (\<lambda>_.
       case case_by_key s tenant (zi_key b) of
         Some u \<Rightarrow> Inr ((decorate_case u, True), s)
       | None \<Rightarrow>
           rbind (ensure (to_upper (coalesce (zi_channel b) ''OTHER'') \<in> set SUPPORT_CASE_CHANNELS) (BadRequest ''channel must be one of'')) (\<lambda>_.
           rbind (ensure (to_upper (coalesce (zi_category b) ''OTHER'') \<in> set SUPPORT_CASE_CATEGORIES) (BadRequest ''category must be one of'')) (\<lambda>_.
           rbind (ensure (to_upper (coalesce (zi_priority b) ''MEDIUM'') \<in> set SUPPORT_CASE_PRIORITIES) (BadRequest ''priority must be one of'')) (\<lambda>_.
           rbind (ensure (truthy_str (zi_customer b) \<longrightarrow> customer_by_id s tenant (the (zi_customer b)) \<noteq> None) (BadRequest ''customer not found'')) (\<lambda>_.
             try_create 3 yr v tenant actor b s))))))"

subsection \<open>Reads\<close>

record case_filter =
  zf_status :: "string option"
  zf_category :: "string option"
  zf_priority :: "string option"
  zf_product :: "string option"
  zf_assignee :: "string option"
  zf_q :: "string option"

definition case_matches :: "string \<Rightarrow> case_filter \<Rightarrow> support_case \<Rightarrow> bool" where
  "case_matches tenant f c \<longleftrightarrow> sc_tenant c = tenant \<and>
     (truthy_str (zf_status f) \<longrightarrow> Some (sc_status c) = zf_status f) \<and>
     (truthy_str (zf_category f) \<longrightarrow> Some (sc_category c) = zf_category f) \<and>
     (truthy_str (zf_priority f) \<longrightarrow> Some (sc_priority c) = zf_priority f) \<and>
     (truthy_str (zf_product f) \<longrightarrow> Some (sc_product c) = zf_product f) \<and>
     (truthy_str (zf_assignee f) \<longrightarrow> sc_assignee c = zf_assignee f) \<and>
     (truthy_str (zf_q f) \<longrightarrow> includes_str (to_lower (the (zf_q f))) (to_lower (sc_title c)))"

definition listCases :: "string \<Rightarrow> case_filter \<Rightarrow> int option \<Rightarrow> int option \<Rightarrow> spdb \<Rightarrow> case_view list \<times> nat \<times> nat \<times> nat" where
  "listCases tenant f page pageSize s =
     (let rows = map decorate_case (rev (filter (case_matches tenant f) (sp_cases s)));
          p = page_no page; sz = page_size 100 20 pageSize
      in (page_slice p sz rows, length rows, p, sz))"

definition getCase :: "string \<Rightarrow> string \<Rightarrow> spdb \<Rightarrow> (case_view \<times> customer option \<times> crm_log list) res" where
  "getCase tenant i s =
     rbind (load_case s tenant i) (\<lambda>c.
       Inr (decorate_case c, if truthy_str (sc_customer c) then customer_by_id s tenant (the (sc_customer c)) else None,
            filter (\<lambda>e. cl_tenant e = tenant \<and> cl_subject e = i) (sp_events s)))"

subsection \<open>Transitions\<close>

definition transitionCase :: "env \<Rightarrow> string \<Rightarrow> string \<Rightarrow> string \<Rightarrow> support_action \<Rightarrow> spdb \<Rightarrow> (case_view \<times> spdb) res" where
  "transitionCase v tenant actor i a s =
     rbind (load_case s tenant i) (\<lambda>c.
     rbind (assertLegalCase a (sc_status c)) (\<lambda>to.
       let f = (\<lambda>c. c\<lparr>sc_status := to, sc_resolved := (if to = ''RESOLVED'' then Some (now v) else sc_resolved c)\<rparr>)
       in Inr (decorate_case (f c), case_event tenant i (support_action_name a) actor (set_case i f s))))"

definition assignCase :: "string \<Rightarrow> string \<Rightarrow> string \<Rightarrow> string \<Rightarrow> spdb \<Rightarrow> (case_view \<times> spdb) res" where
  "assignCase tenant actor i assignee s =
     rbind (ensure (assignee \<noteq> []) (BadRequest ''assigneeId is required'')) (\<lambda>_.
     rbind (load_case s tenant i) (\<lambda>c.
       let f = (\<lambda>c. c\<lparr>sc_assignee := Some assignee\<rparr>)
       in Inr (decorate_case (f c), case_event tenant i ''assign'' actor (set_case i f s))))"

definition commentCase :: "string \<Rightarrow> string \<Rightarrow> string \<Rightarrow> string option \<Rightarrow> string option \<Rightarrow> spdb \<Rightarrow> (string \<times> spdb) res" where
  "commentCase tenant actor i body visibility s =
     rbind (load_case s tenant i) (\<lambda>_.
     rbind (ensure (truthy_str body) (BadRequest ''comment body is required'')) (\<lambda>_.
       Inr (if to_upper (coalesce visibility ''INTERNAL'') = ''CUSTOMER_VISIBLE'' then ''CUSTOMER_VISIBLE'' else ''INTERNAL'',
            case_event tenant i ''comment'' actor s)))"

subsection \<open>Escalation\<close>

definition mapPriorityToPx :: "string \<Rightarrow> string" where
  "mapPriorityToPx p = (if p = ''URGENT'' then ''P0'' else if p = ''HIGH'' then ''P1'' else if p = ''MEDIUM'' then ''P2'' else ''P3'')"

record escalate_in =
  ei_type :: "string option"
  ei_title :: "string option"
  ei_description :: "string option"
  ei_backlog :: "string option"
  ei_severity :: "string option"
  ei_priority :: "string option"

definition or_else :: "string \<Rightarrow> string \<Rightarrow> string" where
  "or_else a b = (if a = [] then b else a)"

definition filing_of :: "escalate_in \<Rightarrow> string \<Rightarrow> string \<Rightarrow> support_case \<Rightarrow> filing" where
  "filing_of b kind product c =
     \<lparr>fg_kind = kind, fg_product = product, fg_title = or_else (trim_in (ei_title b)) (sc_title c),
      fg_description = or_else (trim_in (ei_description b)) (or_else (coalesce (sc_description c) '''') (''Escalated from support case '' @ sc_code c)),
      fg_type = (if kind = ''BACKLOG'' then Some (coalesce (ei_backlog b) ''FEATURE'') else None),
      fg_priority = coalesce (if kind = ''BACKLOG'' then ei_priority b else ei_severity b) (mapPriorityToPx (sc_priority c)),
      fg_ref = sc_code c, fg_correlation = sc_id c\<rparr>"

record escalated =
  ec_case :: case_view
  ec_type :: "string option"
  ec_item :: "string option"
  ec_code :: "string option"
  ec_replayed :: bool

text \<open>The case and the product are read first: the answer for a case escalated before, or what to file.\<close>

definition escalate_check :: "hub \<Rightarrow> string \<Rightarrow> string \<Rightarrow> escalate_in \<Rightarrow> spdb \<Rightarrow> (escalated + filing) res" where
  "escalate_check h tenant i b s =
     rbind (load_case s tenant i) (\<lambda>c.
       if truthy_str (sc_escType c) \<and> truthy_str (sc_escItem c) then
         Inr (Inl \<lparr>ec_case = decorate_case c, ec_type = sc_escType c, ec_item = sc_escItem c, ec_code = sc_escCode c, ec_replayed = True\<rparr>)
       else
         let kind = to_upper (coalesce (ei_type b) '''') in
         rbind (ensure (kind \<in> {''BACKLOG'', ''DEFECT''}) (BadRequest ''escalate type must be BACKLOG or DEFECT'')) (\<lambda>_.
         rbind (ensure (truthy_str (hub_product h (sc_product c))) (NotFound ''Unknown product in Engineering Hub'')) (\<lambda>_.
           Inr (Inr (filing_of b kind (the (hub_product h (sc_product c))) c)))))"

definition escalate_file :: "hub \<Rightarrow> filing \<Rightarrow> spdb \<Rightarrow> (string \<times> string) res \<times> spdb" where
  "escalate_file h g s =
     (case hub_file h (sp_filed s) g of
        HA_refused \<Rightarrow> (Inl TypeErr, s)
      | HA_lost \<Rightarrow> (Inl TypeErr, s\<lparr>sp_filed := sp_filed s @ [g]\<rparr>)
      | HA_item item code \<Rightarrow> (Inr (item, code), s\<lparr>sp_filed := sp_filed s @ [g]\<rparr>))"

definition link_item :: "filing \<Rightarrow> string \<times> string \<Rightarrow> support_case \<Rightarrow> support_case" where
  "link_item g p c = c\<lparr>sc_escType := Some (fg_kind g), sc_escItem := Some (fst p), sc_escCode := Some (snd p)\<rparr>"

definition escalate_record :: "string \<Rightarrow> string \<Rightarrow> filing \<Rightarrow> string \<times> string \<Rightarrow> spdb \<Rightarrow> (escalated \<times> spdb) res" where
  "escalate_record tenant actor g p s =
     (case tfind (\<lambda>c. sc_id c = fg_correlation g) (sp_cases s) of
        None \<Rightarrow> Inl TypeErr
      | Some c \<Rightarrow>
          Inr (\<lparr>ec_case = decorate_case (link_item g p c), ec_type = Some (fg_kind g), ec_item = Some (fst p), ec_code = Some (snd p), ec_replayed = False\<rparr>,
            case_event tenant (fg_correlation g) ''escalate'' actor (set_case (fg_correlation g) (link_item g p) s)))"

text \<open>A call that nothing interrupts. What the hub accepted stays also when the call fails.\<close>

definition escalateCase :: "hub \<Rightarrow> string \<Rightarrow> string \<Rightarrow> string \<Rightarrow> escalate_in \<Rightarrow> spdb \<Rightarrow> escalated res \<times> spdb" where
  "escalateCase h tenant actor i b s =
     (case escalate_check h tenant i b s of
        Inl e \<Rightarrow> (Inl e, s)
      | Inr (Inl w) \<Rightarrow> (Inr w, s)
      | Inr (Inr g) \<Rightarrow>
          (case escalate_file h g s of
             (Inl e, s1) \<Rightarrow> (Inl e, s1)
           | (Inr p, s1) \<Rightarrow>
               (case escalate_record tenant actor g p s1 of Inl e \<Rightarrow> (Inl e, s1) | Inr (w, s2) \<Rightarrow> (Inr w, s2))))"

subsection \<open>Generated codes\<close>

text \<open>The decimal digits of a small number and their order.\<close>

definition pad4 :: "nat \<Rightarrow> string" where
  "pad4 n = pad_start 4 (CHR ''0'') (show_nat n)"

lemma of_char_digit: "d < 10 \<Longrightarrow> (of_char (digit36 d) :: nat) = 48 + d"
  by (simp add: digit36_def)

lemma digit36_0: "CHR ''0'' = digit36 0"
  by (simp add: digit36_def char_of_def bit_simps)

lemma digit36_eq_iff: "d < 10 \<Longrightarrow> e < 10 \<Longrightarrow> digit36 d = digit36 e \<longleftrightarrow> d = e"
  by (metis add_left_cancel of_char_digit)

lemma show_nat_step: "show_nat n = (if n < 10 then [digit36 n] else show_nat (n div 10) @ [digit36 (n mod 10)])"
  unfolding show_nat_def by (subst show_base.simps) simp

lemma pad4_digits: "n < 10000 \<Longrightarrow> pad4 n = map digit36 [n div 1000, n div 100 mod 10, n div 10 mod 10, n mod 10]"
proof -
  assume n: "n < 10000"
  have one: "show_nat k = [digit36 k]" if "k < 10" for k using that by (subst show_nat_step) simp
  have two: "show_nat k = [digit36 (k div 10), digit36 (k mod 10)]" if "10 \<le> k" "k < 100" for k
    using that one [of "k div 10"] by (subst show_nat_step) simp
  have three: "show_nat k = [digit36 (k div 100), digit36 (k div 10 mod 10), digit36 (k mod 10)]" if "100 \<le> k" "k < 1000" for k
    using that two [of "k div 10"] by (subst show_nat_step) (simp add: div_mult2_eq [symmetric])
  have four: "show_nat k = [digit36 (k div 1000), digit36 (k div 100 mod 10), digit36 (k div 10 mod 10), digit36 (k mod 10)]"
    if "1000 \<le> k" "k < 10000" for k
    using that three [of "k div 10"] by (subst show_nat_step) (simp add: div_mult2_eq [symmetric])
  have zeros: "replicate 3 x = [x, x, x]" "replicate 2 x = [x, x]" for x :: char by (simp_all add: numeral_eq_Suc)
  have low: "k mod 10 = k" if "k < 10" for k :: nat using that by simp
  consider "n < 10" | "10 \<le> n \<and> n < 100" | "100 \<le> n \<and> n < 1000" | "1000 \<le> n" by linarith
  then show ?thesis
  proof cases
    case 1
    then show ?thesis using one [of n] by (simp add: pad4_def pad_start_def digit36_0 zeros)
  next
    case 2
    then have "n div 10 mod 10 = n div 10" using low [of "n div 10"] by linarith
    with 2 show ?thesis using two [of n] by (simp add: pad4_def pad_start_def digit36_0 zeros)
  next
    case 3
    then have "n div 100 mod 10 = n div 100" using low [of "n div 100"] by linarith
    with 3 show ?thesis using three [of n] by (simp add: pad4_def pad_start_def digit36_0 zeros)
  next
    case 4
    then show ?thesis using n four [of n] by (simp add: pad4_def pad_start_def)
  qed
qed

lemma lex_le_digits: "d < 10 \<Longrightarrow> e < 10 \<Longrightarrow> lex_le (digit36 d # xs) (digit36 e # ys) \<longleftrightarrow> d < e \<or> d = e \<and> lex_le xs ys"
  by (auto simp: of_char_digit digit36_eq_iff)

lemma lex_le_prefix [simp]: "lex_le (p @ xs) (p @ ys) = lex_le xs ys"
  by (induction p) auto

lemma big_codes: "pad4 9999 = ''9999''" "pad4 10000 = ''10000''" "lex_le ''10000'' ''9999''"
proof -
  have d: "digit36 9 = CHR ''9''" "digit36 0 = CHR ''0''" "digit36 1 = CHR ''1''" by code_simp+
  show "pad4 9999 = ''9999''" by (simp add: pad4_digits d)
  have "show_nat 1 = ''1''" by (subst show_nat_step) (simp add: d del: One_nat_def)
  then have "show_nat 10 = ''10''" by (subst show_nat_step) (simp add: d del: One_nat_def)
  then have "show_nat 100 = ''100''" by (subst show_nat_step) (simp add: d)
  then have "show_nat 1000 = ''1000''" by (subst show_nat_step) (simp add: d)
  then have "show_nat 10000 = ''10000''" by (subst show_nat_step) (simp add: d)
  then show "pad4 10000 = ''10000''" by (simp add: pad4_def pad_start_def)
  show "lex_le ''10000'' ''9999''" by code_simp
qed

lemma decimal:
  assumes "(k :: nat) = 10 * q + a" "q = 10 * r + b" "r = 10 * s + c"
  shows "k = 1000 * s + 100 * c + 10 * b + a"
  using assms by simp

lemma decimal_split: "(k :: nat) = 1000 * (k div 1000) + 100 * (k div 100 mod 10) + 10 * (k div 10 mod 10) + k mod 10"
proof (rule decimal)
  show "k = 10 * (k div 10) + k mod 10" by (rule mult_div_mod_eq [symmetric])
  have "k div 10 div 10 = k div 100" "k div 100 div 10 = k div 1000" by (simp_all add: div_mult2_eq [symmetric])
  then show "k div 10 = 10 * (k div 100) + k div 10 mod 10" "k div 100 = 10 * (k div 1000) + k div 100 mod 10"
    using mult_div_mod_eq [of 10 "k div 10"] mult_div_mod_eq [of 10 "k div 100"] by metis+
qed

lemma pad4_le:
  assumes "m < 10000" "n < 10000"
  shows "lex_le (pad4 m) (pad4 n) \<longleftrightarrow> m \<le> n"
proof -
  have small: "k div 1000 < 10" if "k < 10000" for k :: nat using that by linarith
  define a b c d where "a = m div 1000" "b = m div 100 mod 10" "c = m div 10 mod 10" "d = m mod 10"
  define e f g h where "e = n div 1000" "f = n div 100 mod 10" "g = n div 10 mod 10" "h = n mod 10"
  have m: "m = 1000 * a + 100 * b + 10 * c + d" "a < 10" "b < 10" "c < 10" "d < 10"
    using decimal_split [of m] small [OF assms(1)] unfolding a_b_c_d_def by simp_all
  have n: "n = 1000 * e + 100 * f + 10 * g + h" "e < 10" "f < 10" "g < 10" "h < 10"
    using decimal_split [of n] small [OF assms(2)] unfolding e_f_g_h_def by simp_all
  have "lex_le (pad4 m) (pad4 n) \<longleftrightarrow> a < e \<or> a = e \<and> (b < f \<or> b = f \<and> (c < g \<or> c = g \<and> (d < h \<or> d = h)))"
    using m(2-5) n(2-5) by (simp add: pad4_digits assms lex_le_digits a_b_c_d_def [symmetric] e_f_g_h_def [symmetric] del: lex_le.simps(3))
  also have "\<dots> \<longleftrightarrow> m \<le> n" using m n by linarith
  finally show ?thesis .
qed

lemma pad4_inj: "m < 10000 \<Longrightarrow> n < 10000 \<Longrightarrow> pad4 m = pad4 n \<Longrightarrow> m = n"
  using pad4_le [of m n] pad4_le [of n m] lex_le_total [of "pad4 m" "pad4 m"] by auto

text \<open>Such a code reads back as its number.\<close>

lemma digit_facts:
  assumes "d < 10"
  shows "\<not> is_space (digit36 d)" "digit36 d \<noteq> CHR ''.''" "digit36 d \<noteq> CHR ''e''" "digit36 d \<noteq> CHR ''E''"
    "digit36 d \<noteq> CHR ''-''" "digit36 d \<noteq> CHR ''+''" "digit36 d \<noteq> CHR ''I''" "digit_val 10 (digit36 d) = Some d"
    "to_lower [digit36 d] \<noteq> ''x''" "to_lower [digit36 d] \<noteq> ''o''" "to_lower [digit36 d] \<noteq> ''b''"
proof -
  have "d \<in> {0, 1, 2, 3, 4, 5, 6, 7, 8, 9}" using assms by auto
  then have *: "\<not> is_space (digit36 d) \<and> digit36 d \<noteq> CHR ''.'' \<and> digit36 d \<noteq> CHR ''e'' \<and> digit36 d \<noteq> CHR ''E'' \<and>
    digit36 d \<noteq> CHR ''-'' \<and> digit36 d \<noteq> CHR ''+'' \<and> digit36 d \<noteq> CHR ''I'' \<and> digit_val 10 (digit36 d) = Some d \<and>
    to_lower [digit36 d] \<noteq> ''x'' \<and> to_lower [digit36 d] \<noteq> ''o'' \<and> to_lower [digit36 d] \<noteq> ''b''"
    by (elim insertE) (simp_all, code_simp+)
  then show "\<not> is_space (digit36 d)" "digit36 d \<noteq> CHR ''.''" "digit36 d \<noteq> CHR ''e''" "digit36 d \<noteq> CHR ''E''"
    "digit36 d \<noteq> CHR ''-''" "digit36 d \<noteq> CHR ''+''" "digit36 d \<noteq> CHR ''I''" "digit_val 10 (digit36 d) = Some d"
    "to_lower [digit36 d] \<noteq> ''x''" "to_lower [digit36 d] \<noteq> ''o''" "to_lower [digit36 d] \<noteq> ''b''" by blast+
qed

lemma list_neq_head: "x \<noteq> y \<Longrightarrow> (x # xs = y # ys) = False"
  by simp

lemma str_to_num_pad4: "n < 10000 \<Longrightarrow> str_to_num (pad4 n) = Fin (of_nat n)"
proof -
  assume n: "n < 10000"
  define a b c d where "a = n div 1000" "b = n div 100 mod 10" "c = n div 10 mod 10" "d = n mod 10"
  have lt: "a < 10" "b < 10" "c < 10" "d < 10" using n unfolding a_b_c_d_def by linarith+
  have p: "pad4 n = [digit36 a, digit36 b, digit36 c, digit36 d]" using pad4_digits [OF n] unfolding a_b_c_d_def by simp
  note f = digit_facts [OF lt(1)] digit_facts [OF lt(2)] digit_facts [OF lt(3)] digit_facts [OF lt(4)]
  have radix: "to_lower [digit36 a, digit36 b] \<noteq> ''0x''" "to_lower [digit36 a, digit36 b] \<noteq> ''0o''" "to_lower [digit36 a, digit36 b] \<noteq> ''0b''"
    using f(20-22) by (simp_all add: to_lower_def)
  have trimmed: "trim (pad4 n) = pad4 n" using f by (simp add: p trim_def)
  have "digits_val 10 0 (pad4 n) = Some (1000 * a + 100 * b + 10 * c + d)" using f by (simp add: p)
  then have "digits_val 10 0 (pad4 n) = Some n" using decimal_split [of n] unfolding a_b_c_d_def by simp
  moreover have "split_on CHR ''.'' (pad4 n) = [pad4 n]" using f by (simp add: p)
  moreover have "pad4 n \<noteq> []" by (simp add: p)
  ultimately have "parse_mantissa (pad4 n) = Some (of_nat n)" by (simp add: parse_mantissa_def)
  moreover have "split_on CHR ''e'' (map (\<lambda>c. if c = CHR ''E'' then CHR ''e'' else c) (pad4 n)) = [pad4 n]"
    using f by (simp add: p)
  moreover have "pad4 n \<noteq> ''Infinity''" by (simp add: p)
  ultimately have "parse_unsigned (pad4 n) = Fin (of_nat n)" by (simp add: parse_unsigned_def)
  then show ?thesis using radix f trimmed by (simp add: str_to_num_def p)
qed

lemma num_to_string_nat: "num_to_string (of_nat n) = show_nat n"
  by (simp add: num_to_string_def)

lemma next_number_pad4: "n < 10000 \<Longrightarrow> pad_start 4 (CHR ''0'') (next_number (str_to_num (pad4 n))) = pad4 (Suc n)"
  unfolding str_to_num_pad4 using num_to_string_nat [of "Suc n"] by (simp add: next_number_def pad4_def add.commute)

text \<open>The greatest code of a list is one of them and not below any other.\<close>

lemma last_code_max:
  "last_code p cs = Some m \<longleftrightarrow> m \<in> set cs \<and> starts_with p m \<and> (\<forall>c \<in> set cs. starts_with p c \<longrightarrow> lex_le c m)"
proof -
  have greatest: "fold (\<lambda>d m. if lex_le m d then d else m) ds c \<in> set (c # ds) \<and>
      (\<forall>x \<in> set (c # ds). lex_le x (fold (\<lambda>d m. if lex_le m d then d else m) ds c))" for ds :: "string list" and c
  proof (induction ds arbitrary: c)
    case Nil
    then show ?case using lex_le_total [of c c] by simp
  next
    case (Cons d ds)
    from Cons [of d] Cons [of c] show ?case using lex_le_total [of c d] by (auto intro: lex_le_trans)
  qed
  show ?thesis
  proof (cases "filter (starts_with p) cs")
    case Nil
    then show ?thesis by (auto simp: last_code_def filter_empty_conv)
  next
    case (Cons c ds)
    then have "set (c # ds) = {x \<in> set cs. starts_with p x}" by (metis set_filter)
    then have mem: "x \<in> set (c # ds) \<longleftrightarrow> x \<in> set cs \<and> starts_with p x" for x by blast
    let ?g = "fold (\<lambda>d m. if lex_le m d then d else m) ds c"
    have g: "?g \<in> set cs \<and> starts_with p ?g \<and> (\<forall>x \<in> set cs. starts_with p x \<longrightarrow> lex_le x ?g)"
      using greatest [of ds c] mem by blast
    have "last_code p cs = Some ?g" using Cons by (simp add: last_code_def)
    moreover have "m = ?g" if "m \<in> set cs" "starts_with p m" "\<forall>c \<in> set cs. starts_with p c \<longrightarrow> lex_le c m" for m
      using that g lex_le_antisym by blast
    ultimately show ?thesis using g by auto
  qed
qed

lemma last_code_None: "last_code p cs = None \<longleftrightarrow> (\<forall>c \<in> set cs. \<not> starts_with p c)"
  unfolding last_code_def using filter_empty_conv [of "starts_with p" cs] by (cases "filter (starts_with p) cs") auto

subsection \<open>Codes of a year\<close>

text \<open>The codes with a prefix are its numbers up to a bound.\<close>

definition regular_codes :: "string \<Rightarrow> nat \<Rightarrow> string list \<Rightarrow> bool" where
  "regular_codes p N cs \<longleftrightarrow> (\<forall>c \<in> set cs. starts_with p c \<longrightarrow> (\<exists>n \<le> N. c = p @ pad4 n))"

lemma last_regular:
  assumes "regular_codes p 9998 cs"
  shows "(\<forall>n. p @ pad4 n \<notin> set cs) \<and> last_code p cs = None \<or>
    (\<exists>m \<le> 9998. p @ pad4 m \<in> set cs \<and> last_code p cs = Some (p @ pad4 m) \<and> (\<forall>n \<le> 9999. p @ pad4 n \<in> set cs \<longrightarrow> n \<le> m))"
proof (cases "last_code p cs")
  case None
  then show ?thesis by (auto simp: last_code_None)
next
  case (Some c)
  then have c: "c \<in> set cs" "starts_with p c" "\<forall>x \<in> set cs. starts_with p x \<longrightarrow> lex_le x c" by (simp_all add: last_code_max)
  with assms obtain m where m: "m \<le> 9998" "c = p @ pad4 m" by (auto simp: regular_codes_def)
  have "n \<le> m" if "n \<le> 9999" "p @ pad4 n \<in> set cs" for n
  proof -
    have "lex_le (p @ pad4 n) (p @ pad4 m)" using c(3) that(2) m(2) starts_with_append by blast
    then show ?thesis using that(1) m(1) by (simp add: pad4_le)
  qed
  with Some c(1) m show ?thesis by blast
qed

lemma nextCode_regular:
  assumes "regular_codes (code_prefix yr v) 9998 (codes_of s tenant)"
  obtains k where "nextCode yr v tenant s = code_prefix yr v @ pad4 k" "k \<le> 9999"
    "\<And>n. n \<le> 9999 \<Longrightarrow> code_prefix yr v @ pad4 n \<in> set (codes_of s tenant) \<Longrightarrow> n < k"
    "k = 1 \<or> code_prefix yr v @ pad4 (k - 1) \<in> set (codes_of s tenant)"
  using last_regular [OF assms]
proof (elim disjE conjE exE)
  assume none: "\<forall>n. code_prefix yr v @ pad4 n \<notin> set (codes_of s tenant)" "last_code (code_prefix yr v) (codes_of s tenant) = None"
  have "pad_start 4 (CHR ''0'') (next_number (Fin 0)) = pad4 1" by code_simp
  with none show thesis by (intro that [of 1]) (auto simp: nextCode_def Let_def)
next
  fix m
  assume m: "m \<le> 9998" "code_prefix yr v @ pad4 m \<in> set (codes_of s tenant)"
    "last_code (code_prefix yr v) (codes_of s tenant) = Some (code_prefix yr v @ pad4 m)"
    "\<forall>n \<le> 9999. code_prefix yr v @ pad4 n \<in> set (codes_of s tenant) \<longrightarrow> n \<le> m"
  have "nextCode yr v tenant s = code_prefix yr v @ pad4 (Suc m)"
    using m(1,3) next_number_pad4 [of m] by (simp add: nextCode_def Let_def)
  with m show thesis by (intro that [of "Suc m"]) (auto simp: less_Suc_eq_le)
qed

lemma case_clash_iff:
  assumes "case_by_key s tenant (zi_key b) = None"
  shows "case_clash s (new_case v tenant b code s) \<longleftrightarrow> code \<in> set (codes_of s tenant)"
  using assms by (auto simp: case_clash_def new_case_def codes_of_def case_by_key_def tfind_None_iff split: if_splits)

lemma try_create_fresh:
  assumes "trim_in (zi_code b) = []" "nextCode yr v tenant s \<notin> set (codes_of s tenant)"
  shows "case_by_key s tenant (zi_key b) = None \<Longrightarrow>
    \<exists>w s'. try_create (Suc k) yr v tenant actor b s = Inr ((w, False), s') \<and> sc_code (sv_case w) = nextCode yr v tenant s"
  using assms case_clash_iff [of s tenant b v "nextCode yr v tenant s"]
  by (simp add: Let_def decorate_case_def) (simp add: new_case_def)

lemma try_create_stuck:
  assumes "trim_in (zi_code b) = []" "nextCode yr v tenant s \<in> set (codes_of s tenant)" "case_by_key s tenant (zi_key b) = None"
  shows "\<not> is_ok (try_create k yr v tenant actor b s)"
proof (induction k)
  case (Suc k)
  show ?case using case_clash_iff [OF assms(3), of v "nextCode yr v tenant s"] assms Suc by (simp add: Let_def)
qed simp

lemma createCase_try:
  assumes "case_by_key s tenant (zi_key b) = None"
  shows "(\<exists>m. createCase yr v tenant actor b s = Inl (BadRequest m)) \<or> createCase yr v tenant actor b s = try_create 3 yr v tenant actor b s"
  using assms by (simp add: createCase_def ensure_def Let_def rbind_def)

lemma createCase_replay:
  assumes "case_by_key s tenant (zi_key b) = Some u"
  shows "(\<exists>m. createCase yr v tenant actor b s = Inl (BadRequest m)) \<or> createCase yr v tenant actor b s = Inr ((decorate_case u, True), s)"
  using assms by (simp add: createCase_def ensure_def Let_def rbind_def)

text \<open>
  Generated codes do not collide: as long as the codes of a year are its numbers up to 9998, the
  next code carries the number after the greatest one in use, and a creation without a code of its
  own never fails on its code; a new case carries exactly that code.
\<close>
theorem support_code_fresh:
  assumes "regular_codes (code_prefix yr v) 9998 (codes_of s tenant)" "trim_in (zi_code b) = []"
  shows "(\<exists>k \<le> 9999. nextCode yr v tenant s = code_prefix yr v @ pad4 k \<and>
      (\<forall>n \<le> 9999. code_prefix yr v @ pad4 n \<in> set (codes_of s tenant) \<longrightarrow> n < k) \<and>
      (k = 1 \<or> code_prefix yr v @ pad4 (k - 1) \<in> set (codes_of s tenant))) \<and>
    createCase yr v tenant actor b s \<noteq> Inl UniqueViolation \<and>
    (\<forall>w s'. createCase yr v tenant actor b s = Inr ((w, False), s') \<longrightarrow> sc_code (sv_case w) = nextCode yr v tenant s)"
proof -
  obtain k where k: "nextCode yr v tenant s = code_prefix yr v @ pad4 k" "k \<le> 9999"
    "\<And>n. n \<le> 9999 \<Longrightarrow> code_prefix yr v @ pad4 n \<in> set (codes_of s tenant) \<Longrightarrow> n < k"
    "k = 1 \<or> code_prefix yr v @ pad4 (k - 1) \<in> set (codes_of s tenant)"
    using nextCode_regular [OF assms(1)] by metis
  then have fresh: "nextCode yr v tenant s \<notin> set (codes_of s tenant)" by fastforce
  have "createCase yr v tenant actor b s \<noteq> Inl UniqueViolation \<and>
    (\<forall>w s'. createCase yr v tenant actor b s = Inr ((w, False), s') \<longrightarrow> sc_code (sv_case w) = nextCode yr v tenant s)"
  proof (cases "case_by_key s tenant (zi_key b)")
    case None
    with createCase_try [OF None, of yr v actor] try_create_fresh [OF assms(2) fresh None, of 2 actor] show ?thesis by (auto simp: numeral_3_eq_3)
  next
    case (Some u)
    with createCase_replay [OF Some, of yr v actor] show ?thesis by auto
  qed
  with k show ?thesis by blast
qed

text \<open>
  C39. The codes of a year run out: when the codes of a year are its numbers up to 10000, with 9999 and
  10000 among them (and no code that a caller made up), the greatest code in the order of strings is
  the one of 9999, so every creation of that year that neither brings a code of its own nor repeats
  an idempotency key fails.
\<close>
theorem support_codes_stuck:
  assumes "regular_codes (code_prefix yr v) 10000 (codes_of s tenant)"
    and "code_prefix yr v @ ''9999'' \<in> set (codes_of s tenant)" "code_prefix yr v @ ''10000'' \<in> set (codes_of s tenant)"
    and "trim_in (zi_code b) = []" "case_by_key s tenant (zi_key b) = None"
  shows "\<not> is_ok (createCase yr v tenant actor b s)"
proof -
  note lit = big_codes
  have "lex_le x (code_prefix yr v @ ''9999'')" if x: "x \<in> set (codes_of s tenant)" "starts_with (code_prefix yr v) x" for x
  proof -
    from x assms(1) obtain n where n: "n \<le> 10000" "x = code_prefix yr v @ pad4 n" by (auto simp: regular_codes_def)
    show ?thesis
    proof (cases "n = 10000")
      case True
      with n lit show ?thesis by simp
    next
      case False
      with n pad4_le [of n 9999] show ?thesis by (simp add: lit)
    qed
  qed
  then have "last_code (code_prefix yr v) (codes_of s tenant) = Some (code_prefix yr v @ ''9999'')"
    using assms(2) by (simp add: last_code_max)
  then have "nextCode yr v tenant s = code_prefix yr v @ ''10000''"
    using next_number_pad4 [of 9999] by (simp add: nextCode_def Let_def lit)
  with assms(3) have "nextCode yr v tenant s \<in> set (codes_of s tenant)" by simp
  with try_create_stuck [OF assms(4) this assms(5)] createCase_try [OF assms(5), of yr v actor] show ?thesis by fastforce
qed

subsection \<open>Steps of the service\<close>

inductive support_handler :: "spdb \<Rightarrow> spdb \<Rightarrow> bool" where
  sh_create: "createCase yr v tenant actor b s = Inr (w, s') \<Longrightarrow> oid v s \<notin> sc_id ` set (sp_cases s) \<Longrightarrow> support_handler s s'"
| sh_transition: "transitionCase v tenant actor i a s = Inr (w, s') \<Longrightarrow> support_handler s s'"
| sh_assign: "assignCase tenant actor i assignee s = Inr (w, s') \<Longrightarrow> support_handler s s'"
| sh_comment: "commentCase tenant actor i body vis s = Inr (x, s') \<Longrightarrow> support_handler s s'"

text \<open>An escalation past its check, and what the hub answered it.\<close>

record esc_call =
  xl_tenant :: string
  xl_actor :: string
  xl_filing :: filing
  xl_done :: "(string \<times> string) option"

inductive support_step :: "hub \<Rightarrow> spdb \<times> esc_call list \<Rightarrow> spdb \<times> esc_call list \<Rightarrow> bool" for h where
  ss_handler: "support_handler s s' \<Longrightarrow> support_step h (s, ks) (s', ks)"
| ss_check: "escalate_check h tenant i b s = Inr (Inr g) \<Longrightarrow>
    support_step h (s, ks) (s, \<lparr>xl_tenant = tenant, xl_actor = actor, xl_filing = g, xl_done = None\<rparr> # ks)"
| ss_fail: "k \<in> set ks \<Longrightarrow> xl_done k = None \<Longrightarrow> escalate_file h (xl_filing k) s = (Inl e, s') \<Longrightarrow>
    support_step h (s, ks) (s', remove1 k ks)"
| ss_file: "k \<in> set ks \<Longrightarrow> xl_done k = None \<Longrightarrow> escalate_file h (xl_filing k) s = (Inr p, s') \<Longrightarrow>
    support_step h (s, ks) (s', k\<lparr>xl_done := Some p\<rparr> # remove1 k ks)"
| ss_record: "k \<in> set ks \<Longrightarrow> xl_done k = Some p \<Longrightarrow> escalate_record (xl_tenant k) (xl_actor k) (xl_filing k) p s = Inr (w, s') \<Longrightarrow>
    support_step h (s, ks) (s', remove1 k ks)"
| ss_abort: "support_step h (s, ks) (s, remove1 k ks)"

inductive_cases support_stepE: "support_step h (s, ks) (s', ks')"

text \<open>One escalation after the other, and between the handlers.\<close>

inductive support_serial :: "hub \<Rightarrow> spdb \<Rightarrow> spdb \<Rightarrow> bool" for h where
  sr_handler: "support_handler s s' \<Longrightarrow> support_serial h s s'"
| sr_escalate: "escalateCase h tenant actor i b s = (r, s') \<Longrightarrow> support_serial h s s'"

lemma support_frames [simp]:
  "sp_cases (case_event t i ty a s) = sp_cases s" "sp_filed (case_event t i ty a s) = sp_filed s"
  "sp_filed (set_case i f s) = sp_filed s" "sp_cases (set_case i f s) = tupd (\<lambda>c. sc_id c = i) f (sp_cases s)"
  "o_seq (case_event t i ty a s) = o_seq s"
  by (simp_all add: case_event_def log_audit_def set_case_def)

lemma load_case_InrD: "load_case s tenant i = Inr c \<Longrightarrow> c \<in> set (sp_cases s) \<and> sc_id c = i \<and> sc_tenant c = tenant"
  by (auto simp: load_case_def dest: tfind_SomeD split: option.splits)

lemma try_create_effect:
  "try_create k yr v tenant actor b s = Inr (w, s') \<Longrightarrow>
    s' = s \<or> (\<exists>code. sp_cases s' = sp_cases s @ [new_case v tenant b code s] \<and> sp_filed s' = sp_filed s)"
proof (induction k)
  case (Suc k)
  then show ?case by (fastforce simp: Let_def split: if_splits option.splits)
qed simp

lemma createCase_effect:
  assumes "createCase yr v tenant actor b s = Inr (w, s')"
  shows "s' = s \<or> (\<exists>code. sp_cases s' = sp_cases s @ [new_case v tenant b code s] \<and> sp_filed s' = sp_filed s)"
proof (cases "case_by_key s tenant (zi_key b)")
  case None
  with createCase_try [OF None, of yr v actor] assms show ?thesis using try_create_effect by (metis Inl_Inr_False)
next
  case (Some u)
  with createCase_replay [OF Some, of yr v actor] assms show ?thesis by auto
qed

text \<open>An escalated case carries its item.\<close>

definition is_filed :: "support_case \<Rightarrow> bool" where
  "is_filed c \<longleftrightarrow> truthy_str (sc_escType c) \<and> truthy_str (sc_escItem c)"

definition filings_of :: "spdb \<Rightarrow> string \<Rightarrow> filing list" where
  "filings_of s i = filter (\<lambda>g. fg_correlation g = i) (sp_filed s)"

definition filed_ok :: "spdb \<Rightarrow> bool" where
  "filed_ok s \<longleftrightarrow> distinct (map sc_id (sp_cases s)) \<and> fg_correlation ` set (sp_filed s) \<subseteq> sc_id ` set (sp_cases s) \<and>
     (\<forall>c \<in> set (sp_cases s). length (filings_of s (sc_id c)) = (if is_filed c then 1 else 0))"

lemma filed_ok_move:
  assumes "filed_ok s" "sp_filed s' = sp_filed s" "sp_cases s' = tupd (\<lambda>c. sc_id c = i) f (sp_cases s)"
    and f: "\<And>c. sc_id (f c) = sc_id c" "\<And>c. is_filed (f c) = is_filed c"
  shows "filed_ok s'"
proof -
  have ids: "map sc_id (sp_cases s') = map sc_id (sp_cases s)" unfolding assms(3) by (rule map_tupd_frame) (rule f)
  then have "sc_id ` set (sp_cases s') = sc_id ` set (sp_cases s)" by (metis set_map)
  moreover have "length (filings_of s' (sc_id c)) = (if is_filed c then 1 else 0)" if "c \<in> set (sp_cases s')" for c
    using that assms(1,2) f unfolding assms(3) by (elim in_set_tupdE) (auto simp: filed_ok_def filings_of_def)
  ultimately show ?thesis using assms(1,2) ids by (simp add: filed_ok_def)
qed

lemma filed_ok_new:
  assumes "filed_ok s" "sp_filed s' = sp_filed s" "sp_cases s' = sp_cases s @ [c]" "sc_id c \<notin> sc_id ` set (sp_cases s)" "\<not> is_filed c"
  shows "filed_ok s'"
proof -
  have "fg_correlation g \<noteq> sc_id c" if "g \<in> set (sp_filed s)" for g
    using assms(1,4) that unfolding filed_ok_def by (metis image_eqI subsetD)
  then have "filings_of s (sc_id c) = []" by (simp add: filings_of_def filter_empty_conv)
  with assms show ?thesis by (auto simp: filed_ok_def filings_of_def)
qed

lemma escalate_checkE:
  assumes "escalate_check h tenant i b s = Inr (Inr g)"
  obtains c where "c \<in> set (sp_cases s)" "sc_id c = i" "\<not> is_filed c" "fg_correlation g = i" "fg_kind g \<noteq> []"
proof -
  from assms obtain c where c: "load_case s tenant i = Inr c" unfolding escalate_check_def by (auto simp: rbind_Inr_iff)
  then have row: "c \<in> set (sp_cases s)" "sc_id c = i" using load_case_InrD by auto
  with assms c show thesis
    by (intro that [of c]) (auto simp: escalate_check_def is_filed_def rbind_Inr_iff ensure_Inr_iff Let_def filing_of_def split: if_splits)
qed

lemma escalate_file_effect:
  assumes "escalate_file h g s = (r, s')"
  shows "sp_cases s' = sp_cases s" "is_ok r \<Longrightarrow> sp_filed s' = sp_filed s @ [g]" "\<exists>gs. sp_filed s' = sp_filed s @ gs"
  using assms by (auto simp: escalate_file_def split: hub_answer.splits)

lemma escalate_recordE:
  assumes "escalate_record tenant actor g p s = Inr (w, s')"
  shows "sp_filed s' = sp_filed s" "sp_cases s' = tupd (\<lambda>c. sc_id c = fg_correlation g) (link_item g p) (sp_cases s)"
  using assms by (auto simp: escalate_record_def split: option.splits)

lemma escalateCaseE:
  assumes "escalateCase h tenant actor i b s = (r, s')" "\<And>fs g. hub_file h fs g \<noteq> HA_lost"
  obtains "s' = s"
  | c g item code where "c \<in> set (sp_cases s)" "sc_id c = i" "\<not> is_filed c" "hub_file h (sp_filed s) g = HA_item item code"
      "fg_correlation g = i" "fg_kind g \<noteq> []" "sp_filed s' = sp_filed s @ [g]"
      "sp_cases s' = tupd (\<lambda>c. sc_id c = i) (link_item g (item, code)) (sp_cases s)"
proof -
  consider e where "escalate_check h tenant i b s = Inl e" | w where "escalate_check h tenant i b s = Inr (Inl w)"
    | g where "escalate_check h tenant i b s = Inr (Inr g)" by (metis sum.exhaust)
  then show thesis
  proof cases
    case 1
    with assms(1) show thesis by (intro that(1)) (simp add: escalateCase_def)
  next
    case 2
    with assms(1) show thesis by (intro that(1)) (simp add: escalateCase_def)
  next
    case 3
    then obtain c where c: "c \<in> set (sp_cases s)" "sc_id c = i" "\<not> is_filed c" "fg_correlation g = i" "fg_kind g \<noteq> []"
      by (rule escalate_checkE)
    show thesis
    proof (cases "hub_file h (sp_filed s) g")
      case HA_refused
      with assms(1) 3 show thesis by (intro that(1)) (simp add: escalateCase_def escalate_file_def)
    next
      case (HA_item item code)
      from c(1,2,4) obtain d where d: "tfind (\<lambda>c. sc_id c = fg_correlation g) (sp_cases s) = Some d"
        by (cases "tfind (\<lambda>c. sc_id c = fg_correlation g) (sp_cases s)") (auto simp: tfind_None_iff)
      let ?s1 = "s\<lparr>sp_filed := sp_filed s @ [g]\<rparr>"
      obtain w s2 where rec: "escalate_record tenant actor g (item, code) ?s1 = Inr (w, s2)" by (simp add: escalate_record_def d)
      then have "s' = s2" using assms(1) by (simp add: escalateCase_def 3 escalate_file_def HA_item)
      with escalate_recordE [OF rec] have "sp_filed s' = sp_filed s @ [g]"
        "sp_cases s' = tupd (\<lambda>c. sc_id c = i) (link_item g (item, code)) (sp_cases s)" by (simp_all add: c(4))
      then show thesis by (rule that(2) [OF c(1-3) HA_item c(4,5)])
    qed (use assms(2) in blast)
  qed
qed

lemma filed_ok_escalate:
  assumes "escalateCase h tenant actor i b s = (r, s')" "filed_ok s" "\<And>fs g. hub_file h fs g \<noteq> HA_lost"
    and truthy: "\<And>fs g item code. hub_file h fs g = HA_item item code \<Longrightarrow> item \<noteq> []"
  shows "filed_ok s'"
  using assms(1,3)
proof (cases rule: escalateCaseE)
  case 1
  with assms(2) show ?thesis by simp
next
  case (2 c g item code)
  have "item \<noteq> []" by (rule truthy [OF 2(4)])
  then have filed: "is_filed (link_item g (item, code) x)" for x using 2(6) by (simp add: is_filed_def link_item_def)
  have ids: "map sc_id (sp_cases s') = map sc_id (sp_cases s)" unfolding 2(8) by (rule map_tupd_frame) (simp add: link_item_def)
  then have idset: "sc_id ` set (sp_cases s') = sc_id ` set (sp_cases s)" by (metis set_map)
  have old: "filings_of s i = []" using assms(2) 2(1-3) by (auto simp: filed_ok_def)
  have "length (filings_of s' (sc_id x)) = (if is_filed x then 1 else 0)" if "x \<in> set (sp_cases s')" for x
    using that unfolding 2(8)
  proof (cases rule: in_set_tupdE)
    case (new x0)
    then have "sc_id x = i" "is_filed x" using filed by (simp_all add: link_item_def)
    with old 2(5,7) show ?thesis by (simp add: filings_of_def)
  next
    case old
    then show ?thesis using assms(2) 2(5,7) by (simp add: filed_ok_def filings_of_def)
  qed
  with assms(2) ids idset 2(1,2,5,7) show ?thesis by (auto simp: filed_ok_def)
qed

text \<open>A handler adds a case that is not escalated or moves one without touching its link.\<close>

lemma support_handlerE:
  assumes "support_handler s s'"
  obtains "s' = s"
  | c where "sp_cases s' = sp_cases s @ [c]" "sp_filed s' = sp_filed s" "sc_id c \<notin> sc_id ` set (sp_cases s)" "\<not> is_filed c"
  | i f where "sp_cases s' = tupd (\<lambda>c. sc_id c = i) f (sp_cases s)" "sp_filed s' = sp_filed s"
      "\<And>c. sc_id (f c) = sc_id c" "\<And>c. is_filed (f c) = is_filed c"
  using assms
proof cases
  case (sh_create yr v tenant actor b w)
  from createCase_effect [OF sh_create(1)] show thesis
  proof (elim disjE exE conjE)
    fix code assume "sp_cases s' = sp_cases s @ [new_case v tenant b code s]" "sp_filed s' = sp_filed s"
    with sh_create(2) show thesis by (intro that(2) [of "new_case v tenant b code s"]) (simp_all add: new_case_def is_filed_def)
  qed (rule that(1))
next
  case (sh_transition v tenant actor i a w)
  then obtain to where "s' = case_event tenant i (support_action_name a) actor
      (set_case i (\<lambda>c. c\<lparr>sc_status := to, sc_resolved := (if to = ''RESOLVED'' then Some (now v) else sc_resolved c)\<rparr>) s)"
    by (auto simp: transitionCase_def rbind_Inr_iff Let_def)
  then show thesis
    by (intro that(3) [of i "\<lambda>c. c\<lparr>sc_status := to, sc_resolved := (if to = ''RESOLVED'' then Some (now v) else sc_resolved c)\<rparr>"])
      (simp_all add: is_filed_def)
next
  case (sh_assign tenant actor i assignee w)
  then have "s' = case_event tenant i ''assign'' actor (set_case i (\<lambda>c. c\<lparr>sc_assignee := Some assignee\<rparr>) s)"
    by (auto simp: assignCase_def rbind_Inr_iff Let_def)
  then show thesis by (intro that(3) [of i "\<lambda>c. c\<lparr>sc_assignee := Some assignee\<rparr>"]) (simp_all add: is_filed_def)
next
  case (sh_comment tenant actor i body vis x)
  then have "s' = case_event tenant i ''comment'' actor s" by (auto simp: commentCase_def rbind_Inr_iff)
  then show thesis by (intro that(3) [of i "\<lambda>c. c"]) (simp_all add: tupd_def)
qed

lemma handler_filed: "support_handler s s' \<Longrightarrow> filed_ok s \<Longrightarrow> filed_ok s'"
proof (erule support_handlerE)
  fix c assume "filed_ok s" "sp_cases s' = sp_cases s @ [c]" "sp_filed s' = sp_filed s" "sc_id c \<notin> sc_id ` set (sp_cases s)" "\<not> is_filed c"
  then show "filed_ok s'" using filed_ok_new by blast
next
  fix i f assume "filed_ok s" "sp_cases s' = tupd (\<lambda>c. sc_id c = i) f (sp_cases s)" "sp_filed s' = sp_filed s"
    and "\<And>c. sc_id (f c) = sc_id c" "\<And>c. is_filed (f c) = is_filed c"
  then show "filed_ok s'" using filed_ok_move [of s s' i f] by blast
qed simp

text \<open>
  C25. A case is filed once, as long as escalations do not overlap, the hub answers what it accepts and
  the local write of an answered call is not lost: then, whatever handlers run and however often a
  case is escalated, the Engineering Hub accepted exactly one item for a case that carries an
  escalation, and none for any other, provided the ids it answers are not empty.
\<close>
theorem case_filed_once:
  assumes "(support_serial h)\<^sup>*\<^sup>* s s'" "filed_ok s"
    and "\<forall>fs g. hub_file h fs g \<noteq> HA_lost" "\<forall>fs g item code. hub_file h fs g = HA_item item code \<longrightarrow> item \<noteq> []"
  shows "\<forall>c \<in> set (sp_cases s'). length (filter (\<lambda>g. fg_correlation g = sc_id c) (sp_filed s')) =
    (if truthy_str (sc_escType c) \<and> truthy_str (sc_escItem c) then 1 else 0)"
proof -
  have "filed_ok s'"
    using assms(1,2)
  proof (induction rule: rtranclp_induct)
    case (step u w)
    from step(2) show ?case
    proof cases
      case sr_handler
      with handler_filed step show ?thesis by blast
    next
      case (sr_escalate tenant actor i b r)
      with filed_ok_escalate [OF sr_escalate] step assms(3,4) show ?thesis by blast
    qed
  qed
  then show ?thesis by (simp add: filed_ok_def filings_of_def is_filed_def)
qed

text \<open>With overlapping and failing calls one half remains: a case is linked only after its item was filed.\<close>

definition linked_ok :: "spdb \<times> esc_call list \<Rightarrow> bool" where
  "linked_ok z \<longleftrightarrow> (\<forall>c \<in> set (sp_cases (fst z)). is_filed c \<longrightarrow> sc_id c \<in> fg_correlation ` set (sp_filed (fst z))) \<and>
     (\<forall>k \<in> set (snd z). xl_done k \<noteq> None \<longrightarrow> fg_correlation (xl_filing k) \<in> fg_correlation ` set (sp_filed (fst z)))"

lemma linked_mono:
  assumes "linked_ok (s, ks)" "sp_cases s' = sp_cases s" "set (sp_filed s) \<subseteq> set (sp_filed s')" "set ks' \<subseteq> set ks"
  shows "linked_ok (s', ks')"
proof -
  have "fg_correlation ` set (sp_filed s) \<subseteq> fg_correlation ` set (sp_filed s')" by (rule image_mono) (rule assms(3))
  with assms(1,4) show ?thesis unfolding linked_ok_def fst_conv snd_conv assms(2) by (meson subsetD)
qed

lemma linked_step: "support_step h z z' \<Longrightarrow> linked_ok z \<Longrightarrow> linked_ok z'"
proof (induction rule: support_step.induct)
  case (ss_handler s s' ks)
  from ss_handler(1) show ?case
  proof (cases rule: support_handlerE)
    case (3 i f)
    have "sc_id c \<in> fg_correlation ` set (sp_filed s)" if "c \<in> set (sp_cases s')" "is_filed c" for c
      using that(1) unfolding 3(1) by (rule in_set_tupdE) (use that(2) 3(3,4) ss_handler(2) in \<open>auto simp: linked_ok_def\<close>)
    with 3(2) ss_handler(2) show ?thesis by (simp add: linked_ok_def)
  qed (use ss_handler(2) in \<open>auto simp: linked_ok_def\<close>)
next
  case (ss_fail k ks s e s')
  with escalate_file_effect(1,3) [OF ss_fail(3)] set_remove1_subset [of k ks] show ?case by (intro linked_mono [OF ss_fail(4)]) auto
next
  case (ss_file k ks s p s')
  note eff = escalate_file_effect(1,2) [OF ss_file(3)]
  have "linked_ok (s', remove1 k ks)" by (rule linked_mono [OF ss_file(4)]) (use eff set_remove1_subset [of k ks] in auto)
  then show ?case using eff(2) by (simp add: linked_ok_def)
next
  case (ss_record k ks p s w s')
  note eff = escalate_recordE [OF ss_record(3)]
  have here: "fg_correlation (xl_filing k) \<in> fg_correlation ` set (sp_filed s)" using ss_record(1,2,4) by (simp add: linked_ok_def)
  have "sc_id c \<in> fg_correlation ` set (sp_filed s)" if "c \<in> set (sp_cases s')" "is_filed c" for c
    using that(1) unfolding eff(2)
  proof (cases rule: in_set_tupdE)
    case (new r0)
    with here show ?thesis by (simp add: link_item_def)
  next
    case old
    with that(2) ss_record(4) show ?thesis by (simp add: linked_ok_def)
  qed
  moreover have "linked_ok (s, remove1 k ks)" by (rule linked_mono [OF ss_record(4)]) (simp_all add: set_remove1_subset)
  ultimately show ?case using eff(1) by (simp add: linked_ok_def)
next
  case (ss_abort s ks k)
  then show ?case by (rule linked_mono) (simp_all add: set_remove1_subset)
next
  case (ss_check tenant i b s g ks actor)
  then show ?case by (simp add: linked_ok_def)
qed

theorem escalated_has_item:
  assumes "(support_step h)\<^sup>*\<^sup>* (s, []) (s', ks)" "filed_ok s" "c \<in> set (sp_cases s')" "truthy_str (sc_escType c)" "truthy_str (sc_escItem c)"
  shows "\<exists>g \<in> set (sp_filed s'). fg_correlation g = sc_id c"
proof -
  have "sc_id c \<in> fg_correlation ` set (sp_filed s)" if "c \<in> set (sp_cases s)" "is_filed c" for c
  proof -
    have "filings_of s (sc_id c) \<noteq> []" using assms(2) that by (auto simp: filed_ok_def)
    then show ?thesis by (force simp: filings_of_def filter_empty_conv)
  qed
  then have start: "linked_ok (s, [])" by (simp add: linked_ok_def)
  from assms(1) have "linked_ok (s', ks)"
    by (rule rtranclp_induct) (use start linked_step in blast)+
  with assms(3-5) have "sc_id c \<in> fg_correlation ` set (sp_filed s')" by (simp add: linked_ok_def is_filed_def)
  then show ?thesis by force
qed

text \<open>
  Overlapping or interrupted calls file a case twice: two calls that both read the case before either
  wrote the link, and a call whose answer is lost and that is made again.
\<close>
theorem escalation_race:
  assumes "escalate_check h tenant i b s = Inr (Inr g)" "\<forall>fs. \<exists>item code. hub_file h fs g = HA_item item code"
  shows "\<exists>s'. (support_step h)\<^sup>*\<^sup>* (s, []) (s', []) \<and>
    length (filter (\<lambda>g. fg_correlation g = i) (sp_filed s')) = length (filter (\<lambda>g. fg_correlation g = i) (sp_filed s)) + 2"
proof -
  from assms(1) obtain c where c: "c \<in> set (sp_cases s)" "sc_id c = i" "fg_correlation g = i" by (rule escalate_checkE)
  let ?k = "\<lambda>d. \<lparr>xl_tenant = tenant, xl_actor = ''a'', xl_filing = g, xl_done = d\<rparr>"
  have call: "\<exists>p u. escalate_file h g s = (Inr p, u) \<and> sp_filed u = sp_filed s @ [g] \<and> sp_cases u = sp_cases s" for s
  proof -
    obtain item code where "hub_file h (sp_filed s) g = HA_item item code" using assms(2) by blast
    then show ?thesis by (simp add: escalate_file_def)
  qed
  obtain p u where u: "escalate_file h g s = (Inr p, u)" "sp_filed u = sp_filed s @ [g]" "sp_cases u = sp_cases s" using call by blast
  obtain q w where w: "escalate_file h g u = (Inr q, w)" "sp_filed w = sp_filed u @ [g]" "sp_cases w = sp_cases u" using call by blast
  have rec: "\<exists>x t. escalate_record tenant ''a'' g p s = Inr (x, t)" if "i \<in> sc_id ` set (sp_cases s)" for s p
    using that c(3) by (auto simp: escalate_record_def tfind_None_iff split: option.splits)
  have "map sc_id (tupd P (link_item g p) cs) = map sc_id cs" for P p cs by (rule map_tupd_frame) (simp add: link_item_def)
  then have ids: "sc_id ` set (tupd P (link_item g p) cs) = sc_id ` set cs" for P p cs by (metis set_map)
  obtain x t where t: "escalate_record tenant ''a'' g p w = Inr (x, t)" using rec [of w p] c(1,2) u(3) w(3) by auto
  then have "i \<in> sc_id ` set (sp_cases t)" using escalate_recordE [OF t] ids c(1,2) u(3) w(3) by auto
  then obtain y z where z: "escalate_record tenant ''a'' g q t = Inr (y, z)" using rec by blast
  have a1: "support_step h (s, []) (s, [?k None])" by (rule ss_check) (rule assms(1))
  have a2: "support_step h (s, [?k None]) (s, [?k None, ?k None])" by (rule ss_check) (rule assms(1))
  have a3: "support_step h (s, [?k None, ?k None]) (u, [?k (Some p), ?k None])"
    using ss_file [of "?k None" "[?k None, ?k None]" h s p u] u(1) by simp
  have a4: "support_step h (u, [?k (Some p), ?k None]) (w, [?k (Some q), ?k (Some p)])"
    using ss_file [of "?k None" "[?k (Some p), ?k None]" h u q w] w(1) by simp
  have "remove1 (?k (Some p)) [?k (Some q), ?k (Some p)] = [?k (Some q)]" by auto
  then have a5: "support_step h (w, [?k (Some q), ?k (Some p)]) (t, [?k (Some q)])"
    using ss_record [of "?k (Some p)" "[?k (Some q), ?k (Some p)]" p w x t h] t by simp
  have a6: "support_step h (t, [?k (Some q)]) (z, [])" using ss_record [of "?k (Some q)" "[?k (Some q)]" q t y z h] z by simp
  have "(support_step h)\<^sup>*\<^sup>* (s, []) (z, [])"
    by (rule converse_rtranclp_into_rtranclp, rule a1, rule converse_rtranclp_into_rtranclp, rule a2,
        rule converse_rtranclp_into_rtranclp, rule a3, rule converse_rtranclp_into_rtranclp, rule a4,
        rule converse_rtranclp_into_rtranclp, rule a5, rule r_into_rtranclp, rule a6)
  moreover have "sp_filed z = sp_filed s @ [g, g]" using escalate_recordE(1) [OF t] escalate_recordE(1) [OF z] u(2) w(2) by simp
  ultimately show ?thesis using c(3) by auto
qed

theorem escalation_lost:
  assumes "escalate_check h tenant i b s = Inr (Inr g)" "hub_file h (sp_filed s) g = HA_lost"
  shows "\<exists>s'. escalateCase h tenant actor i b s = (Inl TypeErr, s') \<and> sp_cases s' = sp_cases s \<and> sp_filed s' = sp_filed s @ [g] \<and>
    escalate_check h tenant i b s' = Inr (Inr g)"
proof -
  have "escalate_check h tenant i b (s\<lparr>sp_filed := sp_filed s @ [g]\<rparr>) = escalate_check h tenant i b s"
    by (simp add: escalate_check_def load_case_def)
  with assms show ?thesis by (simp add: escalateCase_def escalate_file_def)
qed

subsection \<open>Concrete runs\<close>

definition year_2026 :: "int \<Rightarrow> string" where "year_2026 t = ''2026''"

definition a_case :: "string \<Rightarrow> string \<Rightarrow> support_case" where
  "a_case i code = \<lparr>sc_id = i, sc_tenant = ''t1'', sc_code = code, sc_title = ''Login fails'', sc_description = None, sc_product = ''XH'',
     sc_customer = None, sc_channel = ''EMAIL'', sc_category = ''OTHER'', sc_priority = ''HIGH'', sc_status = ''NEW'', sc_assignee = None,
     sc_escType = None, sc_escItem = None, sc_escCode = None, sc_key = None, sc_resolved = None\<rparr>"

definition case_db :: "support_case list \<Rightarrow> spdb" where
  "case_db cs = \<lparr>o_docs = [], o_versions = [], o_files = [], o_res = [], o_audit = [], o_org = empty_idb, o_seq = 0,
     cu_customers = [], cu_contacts = [], cu_events = [], sp_cases = cs, sp_events = [], sp_filed = []\<rparr>"

definition a_call :: case_in where
  "a_call = \<lparr>zi_title = Some ''Export fails'', zi_description = None, zi_product = Some ''XH'', zi_customer = None, zi_channel = Some ''phone'',
     zi_category = None, zi_priority = None, zi_code = None, zi_key = None\<rparr>"

definition one_case :: spdb where "one_case = case_db [a_case ''c1'' ''SUP-2026-0007'']"
definition full_year :: spdb where "full_year = case_db [a_case ''c1'' ''SUP-2026-9999'', a_case ''c2'' ''SUP-2026-10000'']"

lemma year_prefix: "code_prefix year_2026 demo_env = ''SUP-2026-''"
  by (simp add: code_prefix_def year_2026_def)

lemma support_code_fresh_witness: "createCase year_2026 demo_env ''t1'' ''an'' a_call one_case \<noteq> Inl UniqueViolation"
proof -
  have "pad4 7 = ''0007''" by code_simp
  then have "regular_codes (code_prefix year_2026 demo_env) 9998 (codes_of one_case ''t1'')"
    by (auto simp: regular_codes_def codes_of_def one_case_def case_db_def a_case_def year_prefix intro!: exI [of _ 7])
  moreover have "trim_in (zi_code a_call) = []" by code_simp
  ultimately show ?thesis using support_code_fresh [of year_2026 demo_env one_case "''t1''" a_call "''an''"] by blast
qed

lemma support_codes_stuck_witness: "\<not> is_ok (createCase year_2026 demo_env ''t1'' ''an'' a_call full_year)"
proof (rule support_codes_stuck)
  have "codes_of full_year ''t1'' = [''SUP-2026-'' @ pad4 9999, ''SUP-2026-'' @ pad4 10000]"
    by (simp add: codes_of_def full_year_def case_db_def a_case_def big_codes)
  moreover have "\<exists>n \<le> 10000. p @ pad4 9999 = p @ pad4 n" "\<exists>n \<le> 10000. p @ pad4 10000 = p @ pad4 n" for p
    by (rule exI [of _ 9999], simp, rule exI [of _ 10000], simp)
  ultimately show "regular_codes (code_prefix year_2026 demo_env) 10000 (codes_of full_year ''t1'')"
    "code_prefix year_2026 demo_env @ ''9999'' \<in> set (codes_of full_year ''t1'')"
    "code_prefix year_2026 demo_env @ ''10000'' \<in> set (codes_of full_year ''t1'')"
    unfolding regular_codes_def year_prefix by (simp_all only: big_codes(1,2) [symmetric] list.set ball_simps insert_iff simp_thms)
  show "trim_in (zi_code a_call) = []" "case_by_key full_year ''t1'' (zi_key a_call) = None" by code_simp+
qed

definition demo_hub :: hub where
  "demo_hub = \<lparr>hub_product = (\<lambda>_. Some ''p1''), hub_file = (\<lambda>fs g. HA_item (''it'' @ show_nat (length fs)) ''BL'')\<rparr>"

definition to_backlog :: escalate_in where
  "to_backlog = \<lparr>ei_type = Some ''backlog'', ei_title = None, ei_description = None, ei_backlog = None, ei_severity = None, ei_priority = None\<rparr>"

definition filed1 :: "escalated res \<times> spdb" where "filed1 = escalateCase demo_hub ''t1'' ''an'' ''c1'' to_backlog one_case"
definition case1 :: spdb where "case1 = snd filed1"
definition filed2 :: "escalated res \<times> spdb" where "filed2 = escalateCase demo_hub ''t1'' ''an'' ''c1'' to_backlog case1"
definition case2 :: spdb where "case2 = snd filed2"

lemma filed_runs: "is_ok (fst filed1)" "is_ok (fst filed2)"
  "map (\<lambda>c. (sc_id c, truthy_str (sc_escType c) \<and> truthy_str (sc_escItem c))) (sp_cases case2) = [(''c1'', True)]"
  by code_simp+

lemma filed_steps: "support_serial demo_hub one_case case1" "support_serial demo_hub case1 case2"
proof -
  have "escalateCase demo_hub ''t1'' ''an'' ''c1'' to_backlog one_case = (fst filed1, case1)" by (simp only: case1_def filed1_def prod.collapse)
  then show "support_serial demo_hub one_case case1" by (rule sr_escalate)
  have "escalateCase demo_hub ''t1'' ''an'' ''c1'' to_backlog case1 = (fst filed2, case2)" by (simp only: case2_def filed2_def prod.collapse)
  then show "support_serial demo_hub case1 case2" by (rule sr_escalate)
qed

lemma case_filed_once_witness: "length (filter (\<lambda>g. fg_correlation g = ''c1'') (sp_filed case2)) = 1"
proof -
  have run: "(support_serial demo_hub)\<^sup>*\<^sup>* one_case case2"
    using filed_steps by (blast intro: converse_rtranclp_into_rtranclp)
  have ok: "filed_ok one_case" by (simp add: filed_ok_def one_case_def case_db_def a_case_def filings_of_def is_filed_def)
  have ids: "\<forall>fs g item code. hub_file demo_hub fs g = HA_item item code \<longrightarrow> item \<noteq> []" by (auto simp: demo_hub_def)
  have answers: "\<forall>fs g. hub_file demo_hub fs g \<noteq> HA_lost" by (simp add: demo_hub_def)
  show ?thesis using filed_runs(3) case_filed_once [OF run ok answers ids] by (auto simp: Cons_eq_map_conv)
qed

text \<open>The same case escalated by two overlapping calls.\<close>

lemma one_case_open: "is_ok (escalate_check demo_hub ''t1'' ''c1'' to_backlog one_case)"
  "\<not> isl (projr (escalate_check demo_hub ''t1'' ''c1'' to_backlog one_case))"
  by code_simp+

lemma escalation_race_witness: "\<exists>s'. (support_step demo_hub)\<^sup>*\<^sup>* (one_case, []) (s', []) \<and> length (sp_filed s') \<ge> 2"
proof -
  let ?r = "escalate_check demo_hub ''t1'' ''c1'' to_backlog one_case"
  from ok_projr [OF one_case_open(1)] one_case_open(2) have "?r = Inr (Inr (projr (projr ?r)))" by (metis sum.collapse(2))
  from escalation_race [OF this] obtain s' where "(support_step demo_hub)\<^sup>*\<^sup>* (one_case, []) (s', [])"
    "length (filter (\<lambda>g. fg_correlation g = ''c1'') (sp_filed s')) \<ge> 2" by (auto simp: demo_hub_def)
  then show ?thesis using length_filter_le le_trans by blast
qed

end
