(* ===== verification/Auth.thy ===== *)
theory Auth
  imports Identity Lifecycle
begin

section \<open>Authentication and the guards of a request\<close>

text \<open>
  xhub-api/src/auth: auth.service.ts (login, invitations, activation, password reset, suspension,
  switching tenants, the identity of a request), auth-crypto.ts, identity.types.ts and the two guards
  every request passes. The primitives behind them (argon2, SHA-256, random bytes, signed JWTs) are
  the record \<open>crypto\<close>, what the process environment and the seed files say the record \<open>conf\<close>. Each
  handler of the source runs several transactions; where they can interleave the parts are
  definitions and steps of their own: loading a one-time token and redeeming it are two steps, and a
  call between them is in flight. A database read that a handler answers also when it fails takes an
  \<open>azdb option\<close>, \<open>None\<close> when the database does not answer. The other places that set a membership active
  (platform/onboarding/onboarding.service.ts, platform/launch/tenant-launch.service.ts) are modelled
  as far as they write accounts and memberships.
\<close>

subsection \<open>Parameters\<close>

record session_jwt =
  jw_sub :: string
  jw_tenant :: string
  jw_roles :: "string list option"

record crypto =
  cx_draw :: "nat \<Rightarrow> string"
  cx_sha :: "string \<Rightarrow> string"
  cx_hash :: "nat \<Rightarrow> string \<Rightarrow> string"
  cx_verify :: "string \<Rightarrow> string \<Rightarrow> bool"
  cx_sign :: "int \<Rightarrow> int \<Rightarrow> session_jwt \<Rightarrow> string"
  cx_open :: "int \<Rightarrow> string \<Rightarrow> session_jwt option"

text \<open>
  \<open>cx_sign t ttl p\<close> is the token signed at the moment \<open>t\<close> with a lifetime of \<open>ttl\<close> seconds, \<open>cx_open t\<close> verifies at
  the moment \<open>t\<close>. The documented behaviour of the signing library: a token carries its issue and its
  expiry in whole seconds, and opens to its claims before the expiry only.
\<close>

definition tokens_open :: "crypto \<Rightarrow> bool" where
  "tokens_open x \<longleftrightarrow> (\<forall>t ttl p t'. cx_sign x t ttl p \<noteq> [] \<and>
     cx_open x t' (cx_sign x t ttl p) = (if t' div 1000 < t div 1000 + ttl then Some p else None))"

definition SESSION_TTL_S :: int where "SESSION_TTL_S = 8 * 60 * 60"

record seed_user =
  su_id :: string
  su_tenant :: "string option"
  su_name :: "string option"
  su_email :: "string option"
  su_status :: "string option"
  su_role :: "string option"

record conf =
  co_users :: "seed_user list"
  co_tenant :: "string option"
  co_user :: "string option"
  co_enforce :: "string option"
  co_allow :: "string option"

definition DEFAULT_TENANT_ID :: "conf \<Rightarrow> string" where
  "DEFAULT_TENANT_ID c = coalesce (co_tenant c) ''tenant-xtech''"

definition DEFAULT_USER_ID :: "conf \<Rightarrow> string" where
  "DEFAULT_USER_ID c = coalesce (co_user c) ''user-nam''"

subsection \<open>State\<close>

record account =
  ac_id :: string
  ac_tenant :: string
  ac_name :: string
  ac_email :: "string option"

record membership =
  mb_tenant :: string
  mb_user :: string
  mb_roles :: "string list"
  mb_status :: string

record credential =
  kr_tenant :: string
  kr_user :: string
  kr_person :: string
  kr_hash :: string

record auth_token =
  at_id :: string
  at_tenant :: string
  at_person :: string
  at_kind :: string
  at_hash :: string
  at_expires :: int
  at_used :: "int option"
  at_by :: string

record azdb =
  az_people :: "account list"
  az_members :: "membership list"
  az_creds :: "credential list"
  az_tokens :: "auth_token list"
  az_audit :: "audit_row list"
  az_seq :: nat

definition az_log :: "string \<Rightarrow> string \<Rightarrow> string \<Rightarrow> string \<Rightarrow> azdb \<Rightarrow> azdb" where
  "az_log tenant actor action subject s = s\<lparr>az_audit := az_audit s @ [mk_audit tenant actor subject action]\<rparr>"

subsection \<open>Users and memberships\<close>

record member_view =
  mv_tenant :: string
  mv_roles :: "string list"
  mv_status :: string

record public_user =
  pu_id :: string
  pu_name :: "string option"
  pu_email :: "string option"
  pu_status :: "string option"

record session_result =
  sr_token :: string
  sr_user :: public_user
  sr_tenant :: string
  sr_roles :: "string list"
  sr_members :: "member_view list"

definition toPublic :: "seed_user \<Rightarrow> public_user" where
  "toPublic u = \<lparr>pu_id = su_id u, pu_name = su_name u, pu_email = su_email u, pu_status = su_status u\<rparr>"

definition findUser :: "conf \<Rightarrow> string \<Rightarrow> seed_user option" where
  "findUser c ident =
     (let i = trim ident in
      find (\<lambda>u. su_id u = i \<or> truthy_str (su_email u) \<and> to_lower (the (su_email u)) = to_lower i) (co_users c))"

definition default_member :: "conf \<Rightarrow> string option \<Rightarrow> string option \<Rightarrow> member_view" where
  "default_member c tenant role =
     \<lparr>mv_tenant = coalesce tenant (DEFAULT_TENANT_ID c), mv_roles = (if truthy_str role then [the role] else []), mv_status = ''active''\<rparr>"

text \<open>The rows of a user, or one synthesized membership when there is none.\<close>

definition membershipsFor :: "conf \<Rightarrow> string \<Rightarrow> string option \<Rightarrow> string option \<Rightarrow> azdb \<Rightarrow> member_view list" where
  "membershipsFor c user tenant role s =
     (let rows = filter (\<lambda>m. mb_user m = user) (az_members s)
      in if rows \<noteq> [] then map (\<lambda>m. \<lparr>mv_tenant = mb_tenant m, mv_roles = mb_roles m, mv_status = mb_status m\<rparr>) rows
         else [default_member c tenant role])"

definition sign :: "crypto \<Rightarrow> env \<Rightarrow> string \<Rightarrow> string \<Rightarrow> string list \<Rightarrow> string" where
  "sign x v user tenant roles = cx_sign x (now v) SESSION_TTL_S \<lparr>jw_sub = user, jw_tenant = tenant, jw_roles = Some roles\<rparr>"

definition first_member :: "member_view list \<Rightarrow> member_view option" where
  "first_member ms = (case ms of [] \<Rightarrow> None | m # _ \<Rightarrow> Some m)"

text \<open>\<open>onModuleInit\<close>: the memberships of the seed users, when the table is empty.\<close>

definition seed_member :: "conf \<Rightarrow> seed_user \<Rightarrow> membership list \<Rightarrow> membership list" where
  "seed_member c u ms =
     (let tenant = coalesce (su_tenant u) (DEFAULT_TENANT_ID c);
          roles = (if truthy_str (su_role u) then [the (su_role u)] else [])
      in if \<exists>m \<in> set ms. mb_tenant m = tenant \<and> mb_user m = su_id u
         then tupd (\<lambda>m. mb_tenant m = tenant \<and> mb_user m = su_id u) (\<lambda>m. m\<lparr>mb_roles := roles, mb_status := ''active''\<rparr>) ms
         else ms @ [\<lparr>mb_tenant = tenant, mb_user = su_id u, mb_roles = roles, mb_status = ''active''\<rparr>])"

definition onModuleInit :: "conf \<Rightarrow> azdb \<Rightarrow> azdb" where
  "onModuleInit c s = (if az_members s \<noteq> [] then s else s\<lparr>az_members := fold (seed_member c) (co_users c) []\<rparr>)"

subsection \<open>Login\<close>

definition findPerson :: "azdb \<Rightarrow> string \<Rightarrow> account option" where
  "findPerson s ident =
     (let i = trim ident in
      case tfind (\<lambda>p. ac_id p = i) (az_people s) of
        Some p \<Rightarrow> Some p
      | None \<Rightarrow> tfind (\<lambda>p. map_option to_lower (ac_email p) = Some (to_lower i)) (az_people s))"

definition account_member :: "string \<Rightarrow> member_view list \<Rightarrow> member_view option" where
  "account_member tenant ms =
     coalesce_opt (find (\<lambda>m. mv_tenant m = tenant \<and> mv_status m = ''active'') ms)
       (coalesce_opt (find (\<lambda>m. mv_status m = ''active'') ms) (first_member ms))"

definition buildSessionFor :: "crypto \<Rightarrow> conf \<Rightarrow> env \<Rightarrow> string \<Rightarrow> string \<Rightarrow> azdb \<Rightarrow> session_result res" where
  "buildSessionFor x c v user tenant s =
     (let ms = membershipsFor c user (Some tenant) None s in
      case account_member tenant ms of
        None \<Rightarrow> Inl (Unauthorized ''User has no active membership'')
      | Some a \<Rightarrow>
          (let p = findPerson s user
           in Inr \<lparr>sr_token = sign x v user (mv_tenant a) (mv_roles a),
                   sr_user = \<lparr>pu_id = user, pu_name = map_option ac_name p, pu_email = Option.bind p ac_email, pu_status = Some (mv_status a)\<rparr>,
                   sr_tenant = mv_tenant a, sr_roles = mv_roles a, sr_members = ms\<rparr>))"

definition credential_of :: "azdb \<Rightarrow> string \<Rightarrow> string \<Rightarrow> credential option" where
  "credential_of s tenant user = tfind (\<lambda>k. kr_tenant k = tenant \<and> kr_user k = user) (az_creds s)"

definition passwordLogin :: "crypto \<Rightarrow> conf \<Rightarrow> env \<Rightarrow> string \<Rightarrow> string \<Rightarrow> azdb \<Rightarrow> session_result res" where
  "passwordLogin x c v ident password s =
     (case findPerson s ident of
        None \<Rightarrow> Inl (Unauthorized ''Wrong account or password'')
      | Some p \<Rightarrow>
          (case credential_of s (ac_tenant p) (ac_id p) of
             None \<Rightarrow> Inl (Conflict ''Account not activated (invite required)'')
           | Some k \<Rightarrow>
               rbind (ensure (cx_verify x (kr_hash k) password) (Unauthorized ''Wrong account or password'')) (\<lambda>_.
               rbind (ensure (case find (\<lambda>m. mv_tenant m = ac_tenant p) (membershipsFor c (ac_id p) (Some (ac_tenant p)) None s) of
                        None \<Rightarrow> False | Some m \<Rightarrow> mv_status m = ''active'') (Unauthorized ''Account locked'')) (\<lambda>_.
                 buildSessionFor x c v (ac_id p) (ac_tenant p) s))))"

definition login :: "crypto \<Rightarrow> conf \<Rightarrow> env \<Rightarrow> string \<Rightarrow> string option \<Rightarrow> azdb \<Rightarrow> session_result res" where
  "login x c v ident password s =
     rbind (ensure (ident \<noteq> []) (Unauthorized ''Missing email or userId'')) (\<lambda>_.
       if truthy_str password then passwordLogin x c v ident (the password) s
       else case findUser c ident of
         None \<Rightarrow> Inl (Unauthorized ''Unknown user'')
       | Some u \<Rightarrow>
           (let ms = membershipsFor c (su_id u) (su_tenant u) (su_role u) s in
            case coalesce_opt (find (\<lambda>m. mv_status m = ''active'') ms) (first_member ms) of
              None \<Rightarrow> Inl (Unauthorized ''User has no active membership'')
            | Some a \<Rightarrow> Inr \<lparr>sr_token = sign x v (su_id u) (mv_tenant a) (mv_roles a), sr_user = toPublic u,
                             sr_tenant = mv_tenant a, sr_roles = mv_roles a, sr_members = ms\<rparr>))"

subsection \<open>One-time tokens\<close>

definition INVITE_TTL_MS :: int where "INVITE_TTL_MS = 1000 * 60 * 60 * 72"

definition RESET_TTL_MS :: int where "RESET_TTL_MS = 1000 * 60 * 30"

record token_grant =
  tg_token :: string
  tg_expires :: int
  tg_person :: string

definition retire_tokens :: "string \<Rightarrow> string \<Rightarrow> string \<Rightarrow> int \<Rightarrow> auth_token list \<Rightarrow> auth_token list" where
  "retire_tokens tenant pid kind t =
     tupd (\<lambda>k. at_tenant k = tenant \<and> at_person k = pid \<and> at_kind k = kind \<and> at_used k = None) (\<lambda>k. k\<lparr>at_used := Some t\<rparr>)"

text \<open>The transaction of \<open>invite\<close> and \<open>forgot\<close>: outstanding tokens are retired, a new one is stored by its hash.\<close>

definition grant_token :: "crypto \<Rightarrow> env \<Rightarrow> string \<Rightarrow> string \<Rightarrow> string \<Rightarrow> int \<Rightarrow> string \<Rightarrow> azdb \<Rightarrow> token_grant \<times> azdb" where
  "grant_token x v tenant pid kind ttl actor s =
     (let raw = cx_draw x (az_seq s);
          k = \<lparr>at_id = cuid v (az_seq s), at_tenant = tenant, at_person = pid, at_kind = kind, at_hash = cx_sha x raw,
               at_expires = now v + ttl, at_used = None, at_by = actor\<rparr>
      in (\<lparr>tg_token = raw, tg_expires = now v + ttl, tg_person = pid\<rparr>,
          s\<lparr>az_tokens := retire_tokens tenant pid kind (now v) (az_tokens s) @ [k], az_seq := Suc (az_seq s)\<rparr>))"

definition invite :: "crypto \<Rightarrow> env \<Rightarrow> string \<Rightarrow> string \<Rightarrow> string \<Rightarrow> azdb \<Rightarrow> (token_grant \<times> azdb) res" where
  "invite x v tenant actor user s =
     (case tfind (\<lambda>p. ac_id p = user \<and> ac_tenant p = tenant) (az_people s) of
        None \<Rightarrow> Inl (NotFound ''Unknown account'')
      | Some p \<Rightarrow>
          (let (g, s1) = grant_token x v tenant (ac_id p) ''INVITE'' INVITE_TTL_MS actor s
           in Inr (g, az_log tenant actor ''auth.invite'' (ac_id p) s1)))"

record pending_invite =
  pi_person :: string
  pi_name :: "string option"
  pi_email :: "string option"
  pi_expires :: int
  pi_by :: string

definition pendingInvites :: "env \<Rightarrow> string \<Rightarrow> azdb \<Rightarrow> pending_invite list" where
  "pendingInvites v tenant s =
     map (\<lambda>k. let p = tfind (\<lambda>p. ac_id p = at_person k \<and> ac_tenant p = tenant) (az_people s)
              in \<lparr>pi_person = at_person k, pi_name = map_option ac_name p, pi_email = Option.bind p ac_email,
                  pi_expires = at_expires k, pi_by = at_by k\<rparr>)
       (rev (filter (\<lambda>k. at_tenant k = tenant \<and> at_kind k = ''INVITE'' \<and> at_used k = None \<and> now v < at_expires k) (az_tokens s)))"

definition listMemberships :: "string \<Rightarrow> azdb \<Rightarrow> membership list" where
  "listMemberships tenant s = filter (\<lambda>m. mb_tenant m = tenant) (az_members s)"

definition loadToken :: "crypto \<Rightarrow> env \<Rightarrow> string \<Rightarrow> string \<Rightarrow> azdb \<Rightarrow> auth_token res" where
  "loadToken x v raw kind s =
     (case tfind (\<lambda>k. at_hash k = cx_sha x raw \<and> at_kind k = kind) (az_tokens s) of
        None \<Rightarrow> Inl (BadRequest ''Invalid token'')
      | Some k \<Rightarrow>
          rbind (ensure (at_used k = None) (BadRequest ''Token already used'')) (\<lambda>_.
          rbind (ensure (\<not> at_expires k < now v) (BadRequest ''Token expired'')) (\<lambda>_. Inr k)))"

definition set_password :: "string \<Rightarrow> string \<Rightarrow> string \<Rightarrow> credential list \<Rightarrow> credential list" where
  "set_password tenant user hash ks =
     (if \<exists>k \<in> set ks. kr_tenant k = tenant \<and> kr_user k = user
      then tupd (\<lambda>k. kr_tenant k = tenant \<and> kr_user k = user) (\<lambda>k. k\<lparr>kr_hash := hash, kr_person := user\<rparr>) ks
      else ks @ [\<lparr>kr_tenant = tenant, kr_user = user, kr_person = user, kr_hash = hash\<rparr>])"

definition set_status :: "string \<Rightarrow> string \<Rightarrow> string \<Rightarrow> membership list \<Rightarrow> membership list" where
  "set_status tenant user st = tupd (\<lambda>m. mb_user m = user \<and> mb_tenant m = tenant) (\<lambda>m. m\<lparr>mb_status := st\<rparr>)"

definition use_token :: "string \<Rightarrow> int \<Rightarrow> auth_token list \<Rightarrow> auth_token list" where
  "use_token i t = tupd (\<lambda>k. at_id k = i) (\<lambda>k. k\<lparr>at_used := Some t\<rparr>)"

text \<open>What \<open>activate\<close> and \<open>reset\<close> do with a token they loaded before, in a transaction of its own.\<close>

definition consume_invite :: "crypto \<Rightarrow> env \<Rightarrow> auth_token \<Rightarrow> string \<Rightarrow> azdb \<Rightarrow> azdb" where
  "consume_invite x v k password s =
     az_log (at_tenant k) (at_person k) ''auth.activate'' (at_person k)
       (s\<lparr>az_creds := set_password (at_tenant k) (at_person k) (cx_hash x (az_seq s) password) (az_creds s),
         az_members := set_status (at_tenant k) (at_person k) ''active'' (az_members s),
         az_tokens := use_token (at_id k) (now v) (az_tokens s), az_seq := Suc (az_seq s)\<rparr>)"

definition activate :: "crypto \<Rightarrow> conf \<Rightarrow> env \<Rightarrow> string \<Rightarrow> string \<Rightarrow> azdb \<Rightarrow> (session_result \<times> azdb) res" where
  "activate x c v raw password s =
     rbind (ensure (raw \<noteq> [] \<and> password \<noteq> []) (BadRequest ''Missing token or password'')) (\<lambda>_.
     rbind (loadToken x v raw ''INVITE'' s) (\<lambda>k.
       let s1 = consume_invite x v k password s
       in rbind (buildSessionFor x c v (at_person k) (at_tenant k) s1) (\<lambda>w. Inr (w, s1))))"

text \<open>\<open>forgot\<close> answers \<open>ok\<close>, here \<open>None\<close>, for an unknown account.\<close>

definition forgot :: "crypto \<Rightarrow> env \<Rightarrow> string \<Rightarrow> azdb \<Rightarrow> token_grant option \<times> azdb" where
  "forgot x v ident s =
     (case findPerson s ident of
        None \<Rightarrow> (None, s)
      | Some p \<Rightarrow>
          (let (g, s1) = grant_token x v (ac_tenant p) (ac_id p) ''RESET'' RESET_TTL_MS (ac_id p) s
           in (Some g, az_log (ac_tenant p) (ac_id p) ''auth.forgot'' (ac_id p) s1)))"

definition consume_reset :: "crypto \<Rightarrow> env \<Rightarrow> auth_token \<Rightarrow> string \<Rightarrow> azdb \<Rightarrow> azdb" where
  "consume_reset x v k password s =
     az_log (at_tenant k) (at_person k) ''auth.reset'' (at_person k)
       (s\<lparr>az_creds := set_password (at_tenant k) (at_person k) (cx_hash x (az_seq s) password) (az_creds s),
         az_tokens := use_token (at_id k) (now v) (az_tokens s), az_seq := Suc (az_seq s)\<rparr>)"

definition reset :: "crypto \<Rightarrow> env \<Rightarrow> string \<Rightarrow> string \<Rightarrow> azdb \<Rightarrow> azdb res" where
  "reset x v raw password s =
     rbind (ensure (raw \<noteq> [] \<and> password \<noteq> []) (BadRequest ''Missing token or password'')) (\<lambda>_.
     rbind (loadToken x v raw ''RESET'' s) (\<lambda>k. Inr (consume_reset x v k password s)))"

definition suspend :: "string \<Rightarrow> string \<Rightarrow> string \<Rightarrow> azdb \<Rightarrow> azdb" where
  "suspend tenant actor user s =
     az_log tenant actor ''auth.suspend'' user (s\<lparr>az_members := set_status tenant user ''suspended'' (az_members s)\<rparr>)"

subsection \<open>The identity of a request\<close>

datatype header_val = HOne string | HMany "string list"

record request_in =
  ri_cookie :: "string option"
  ri_headers :: "(string \<times> header_val) list"

record req_identity =
  id_user :: string
  id_tenant :: string
  id_roles :: "string list"
  id_source :: string

definition header_text :: "(string \<times> header_val) list \<Rightarrow> string \<Rightarrow> string option" where
  "header_text hs name = map_option (\<lambda>h. case h of HOne t \<Rightarrow> t | HMany ts \<Rightarrow> join_str '','' ts) (map_of hs name)"

definition headerFlag :: "(string \<times> header_val) list \<Rightarrow> string \<Rightarrow> bool option" where
  "headerFlag hs name =
     (case map_of hs name of
        None \<Rightarrow> None
      | Some h \<Rightarrow>
          (let t = to_lower (case h of HOne t \<Rightarrow> t | HMany ts \<Rightarrow> (case ts of [] \<Rightarrow> ''undefined'' | t # _ \<Rightarrow> t))
           in if t = ''true'' then Some True else if t = ''false'' then Some False else None))"

definition isEnforcing :: "conf \<Rightarrow> (string \<times> header_val) list \<Rightarrow> bool" where
  "isEnforcing c hs = (to_lower (coalesce (co_enforce c) '''') = ''true'' \<or> headerFlag hs ''x-authz-enforce'' = Some True)"

definition allowHeaderIdentity :: "conf \<Rightarrow> (string \<times> header_val) list \<Rightarrow> bool" where
  "allowHeaderIdentity c hs =
     (if headerFlag hs ''x-authz-allow-header'' = Some False then False else to_lower (coalesce (co_allow c) ''true'') \<noteq> ''false'')"

definition resolveIdentity :: "crypto \<Rightarrow> conf \<Rightarrow> env \<Rightarrow> request_in \<Rightarrow> bool \<Rightarrow> req_identity" where
  "resolveIdentity x c v q allowHeader =
     (case (if truthy_str (ri_cookie q) then cx_open x (now v) (the (ri_cookie q)) else None) of
        Some p \<Rightarrow> \<lparr>id_user = jw_sub p, id_tenant = jw_tenant p, id_roles = coalesce (jw_roles p) [], id_source = ''session''\<rparr>
      | None \<Rightarrow>
          if \<not> allowHeader then \<lparr>id_user = [], id_tenant = [], id_roles = [], id_source = ''anonymous''\<rparr>
          else (let uid = header_text (ri_headers q) ''x-user-id''; tid = header_text (ri_headers q) ''x-tenant-id''
                in if truthy_str uid \<or> truthy_str tid
                   then \<lparr>id_user = (if truthy_str uid then the uid else DEFAULT_USER_ID c),
                         id_tenant = (if truthy_str tid then the tid else DEFAULT_TENANT_ID c), id_roles = [], id_source = ''header''\<rparr>
                   else \<lparr>id_user = DEFAULT_USER_ID c, id_tenant = DEFAULT_TENANT_ID c, id_roles = [], id_source = ''default''\<rparr>))"

text \<open>The check answers true when there is no row and when the database does not answer.\<close>

definition sessionMembershipActive :: "string \<Rightarrow> string \<Rightarrow> azdb option \<Rightarrow> bool" where
  "sessionMembershipActive user tenant r =
     (case r of None \<Rightarrow> True
      | Some s \<Rightarrow>
          (case tfind (\<lambda>m. mb_user m = user \<and> mb_tenant m = tenant) (az_members s) of
             None \<Rightarrow> True | Some m \<Rightarrow> mb_status m = ''active''))"

text \<open>IdentityGuard, PermissionGuard and both in the order a request passes them.\<close>

definition identityGuard :: "crypto \<Rightarrow> conf \<Rightarrow> env \<Rightarrow> request_in \<Rightarrow> azdb option \<Rightarrow> req_identity res" where
  "identityGuard x c v q r =
     (let i = resolveIdentity x c v q (allowHeaderIdentity c (ri_headers q)) in
      rbind (ensure (id_source i = ''session'' \<longrightarrow> sessionMembershipActive (id_user i) (id_tenant i) r)
               (Unauthorized ''Session revoked (account locked)'')) (\<lambda>_. Inr i))"

definition permissionGuard :: "conf \<Rightarrow> string option \<Rightarrow> req_identity \<Rightarrow> (string \<times> header_val) list \<Rightarrow> idb \<Rightarrow> unit res" where
  "permissionGuard c perm i hs d =
     (if \<not> truthy_str perm then Inr ()
      else rbind (ensure (id_source i \<noteq> ''anonymous'' \<and> id_user i \<noteq> []) (Unauthorized ''Authentication required'')) (\<lambda>_.
        if \<not> isEnforcing c hs then Inr ()
        else ensure (can d (id_user i) (the perm) None = Granted) (Forbidden ''Missing permission'')))"

definition guarded :: "crypto \<Rightarrow> conf \<Rightarrow> env \<Rightarrow> string option \<Rightarrow> request_in \<Rightarrow> azdb option \<Rightarrow> idb \<Rightarrow> req_identity res" where
  "guarded x c v perm q r d =
     rbind (identityGuard x c v q r) (\<lambda>i. rbind (permissionGuard c perm i (ri_headers q) d) (\<lambda>_. Inr i))"

subsection \<open>The own view and the active tenant\<close>

definition me :: "conf \<Rightarrow> req_identity \<Rightarrow> azdb \<Rightarrow> session_result \<times> string" where
  "me c i s =
     (let (u, tenant, role) = (case findUser c (id_user i) of
             Some u \<Rightarrow> (toPublic u, su_tenant u, su_role u)
           | None \<Rightarrow> (\<lparr>pu_id = id_user i, pu_name = None, pu_email = None, pu_status = None\<rparr>, Some (id_tenant i), None));
          ms = membershipsFor c (pu_id u) tenant role s;
          a = coalesce (coalesce_opt (find (\<lambda>m. mv_tenant m = id_tenant i) ms) (first_member ms))
                \<lparr>mv_tenant = id_tenant i, mv_roles = id_roles i, mv_status = ''active''\<rparr>
      in (\<lparr>sr_token = [], sr_user = u, sr_tenant = id_tenant i,
           sr_roles = (if mv_roles a \<noteq> [] then mv_roles a else id_roles i), sr_members = ms\<rparr>, id_source i))"

definition switchTenant :: "crypto \<Rightarrow> conf \<Rightarrow> env \<Rightarrow> req_identity \<Rightarrow> string \<Rightarrow> azdb \<Rightarrow> session_result res" where
  "switchTenant x c v i tenant s =
     (case findUser c (id_user i) of
        None \<Rightarrow> Inl (Unauthorized ''Unknown user'')
      | Some u \<Rightarrow>
          (let ms = membershipsFor c (su_id u) (su_tenant u) (su_role u) s in
           case find (\<lambda>m. mv_tenant m = tenant \<and> mv_status m = ''active'') ms of
             None \<Rightarrow> Inl (Unauthorized ''No active membership for that tenant'')
           | Some a \<Rightarrow> Inr \<lparr>sr_token = sign x v (su_id u) (mv_tenant a) (mv_roles a), sr_user = toPublic u,
                            sr_tenant = mv_tenant a, sr_roles = mv_roles a, sr_members = ms\<rparr>))"

subsection \<open>Accounts made by onboarding and launch\<close>

definition upsert_person :: "string \<Rightarrow> string \<Rightarrow> string option \<Rightarrow> string \<Rightarrow> string \<Rightarrow> azdb \<Rightarrow> azdb" where
  "upsert_person tenant user name fresh email s =
     s\<lparr>az_people := (if \<exists>p \<in> set (az_people s). ac_id p = user
        then (if truthy_str name then tupd (\<lambda>p. ac_id p = user) (\<lambda>p. p\<lparr>ac_name := the name\<rparr>) (az_people s) else az_people s)
        else az_people s @ [\<lparr>ac_id = user, ac_tenant = tenant, ac_name = fresh, ac_email = Some email\<rparr>])\<rparr>"

definition upsert_member :: "string \<Rightarrow> string \<Rightarrow> string list \<Rightarrow> azdb \<Rightarrow> azdb" where
  "upsert_member tenant user roles s =
     s\<lparr>az_members := (if \<exists>m \<in> set (az_members s). mb_tenant m = tenant \<and> mb_user m = user
        then tupd (\<lambda>m. mb_tenant m = tenant \<and> mb_user m = user) (\<lambda>m. m\<lparr>mb_roles := roles, mb_status := ''active''\<rparr>) (az_members s)
        else az_members s @ [\<lparr>mb_tenant = tenant, mb_user = user, mb_roles = roles, mb_status = ''active''\<rparr>])\<rparr>"

text \<open>The name given to an administrator without one, in UTF-8.\<close>

definition admin_name :: string where
  "admin_name = ''Qu'' @ [CHR 0xE1, CHR 0xBA, CHR 0xA3] @ ''n tr'' @ [CHR 0xE1, CHR 0xBB, CHR 0x8B] @ '' vi'' @ [CHR 0xC3, CHR 0xAA] @ ''n tenant''"

definition ensureAdminPerson :: "string \<Rightarrow> string \<Rightarrow> string option \<Rightarrow> azdb \<Rightarrow> azdb" where
  "ensureAdminPerson tenant user name s =
     upsert_member tenant user [''TENANT_ADMIN'']
       (upsert_person tenant user name (coalesce name admin_name) (user @ ''@'' @ tenant @ ''.local'') s)"

text \<open>Whether the plan of the tenant allows one more user is decided by another module: \<open>quota\<close>.\<close>

definition addUser :: "bool \<Rightarrow> string \<Rightarrow> string option \<Rightarrow> string option \<Rightarrow> string list option \<Rightarrow> azdb \<Rightarrow> azdb res" where
  "addUser quota tenant user name roles s =
     (let u = trim_in user in
      rbind (ensure (u \<noteq> []) (BadRequest ''userId is required'')) (\<lambda>_.
      rbind (ensure quota (Forbidden ''plan user quota exceeded'')) (\<lambda>_.
        Inr (upsert_member tenant u (coalesce roles [''EMPLOYEE''])
               (upsert_person tenant u name (coalesce name u) (u @ ''@'' @ tenant @ ''.local'') s)))))"

definition identity_baseline :: "string \<Rightarrow> azdb \<Rightarrow> azdb" where
  "identity_baseline tenant s =
     (let u = tenant @ ''-admin''
      in upsert_member tenant u [''TENANT_ADMIN''] (upsert_person tenant u (Some admin_name) admin_name (''admin@'' @ tenant @ ''.local'') s))"

subsection \<open>Steps\<close>

lemma az_log_simps [simp]:
  "az_people (az_log t a b i s) = az_people s" "az_members (az_log t a b i s) = az_members s" "az_creds (az_log t a b i s) = az_creds s"
  "az_tokens (az_log t a b i s) = az_tokens s" "az_seq (az_log t a b i s) = az_seq s"
  by (simp_all add: az_log_def)

text \<open>The token drawn next is new: neither its digest nor its row id is in use.\<close>

definition fresh_token :: "crypto \<Rightarrow> env \<Rightarrow> azdb \<Rightarrow> bool" where
  "fresh_token x v s \<longleftrightarrow> cx_sha x (cx_draw x (az_seq s)) \<notin> at_hash ` set (az_tokens s) \<and> cuid v (az_seq s) \<notin> at_id ` set (az_tokens s)"

text \<open>
  Every write to accounts, memberships and tokens except the redemptions, with the tenant and user
  whose membership it sets active, if any.
\<close>

inductive admin_write :: "crypto \<Rightarrow> conf \<Rightarrow> (string \<times> string) option \<Rightarrow> azdb \<Rightarrow> azdb \<Rightarrow> bool" for x c where
  aw_invite: "invite x v tenant actor user s = Inr (g, s') \<Longrightarrow> fresh_token x v s \<Longrightarrow> admin_write x c None s s'"
| aw_forgot: "forgot x v ident s = (g, s') \<Longrightarrow> fresh_token x v s \<Longrightarrow> admin_write x c None s s'"
| aw_suspend: "s' = suspend tenant actor user s \<Longrightarrow> admin_write x c None s s'"
| aw_seed: "s' = onModuleInit c s \<Longrightarrow> admin_write x c None s s'"
| aw_admin: "s' = ensureAdminPerson tenant user name s \<Longrightarrow> admin_write x c (Some (tenant, user)) s s'"
| aw_user: "addUser quota tenant user name roles s = Inr s' \<Longrightarrow> admin_write x c (Some (tenant, trim_in user)) s s'"
| aw_baseline: "s' = identity_baseline tenant s \<Longrightarrow> admin_write x c (Some (tenant, tenant @ ''-admin'')) s s'"

text \<open>The second transaction of \<open>activate\<close> and \<open>reset\<close>, on a token loaded before.\<close>

inductive redeem :: "crypto \<Rightarrow> auth_token \<Rightarrow> azdb \<Rightarrow> azdb \<Rightarrow> bool" for x where
  rd_invite: "at_kind k = ''INVITE'' \<Longrightarrow> s' = consume_invite x v k pw s \<Longrightarrow> redeem x k s s'"
| rd_reset: "at_kind k = ''RESET'' \<Longrightarrow> s' = consume_reset x v k pw s \<Longrightarrow> redeem x k s s'"

text \<open>The database with the tokens that calls in flight have loaded.\<close>

inductive auth_step :: "crypto \<Rightarrow> conf \<Rightarrow> azdb \<times> auth_token list \<Rightarrow> azdb \<times> auth_token list \<Rightarrow> bool" for x c where
  au_write: "admin_write x c a s s' \<Longrightarrow> auth_step x c (s, ks) (s', ks)"
| au_load: "loadToken x v raw kind s = Inr k \<Longrightarrow> auth_step x c (s, ks) (s, k # ks)"
| au_redeem: "k \<in> set ks \<Longrightarrow> redeem x k s s' \<Longrightarrow> auth_step x c (s, ks) (s', remove1 k ks)"
| au_abort: "auth_step x c (s, ks) (s, remove1 k ks)"

inductive_cases auth_stepE: "auth_step x c (s, ks) (s', ks')"

text \<open>What a step does to the tokens.\<close>

inductive token_effect :: "auth_token list \<Rightarrow> auth_token list \<Rightarrow> bool" where
  te_same: "token_effect ts ts"
| te_use: "token_effect ts (use_token i t ts)"
| te_new: "at_hash k \<notin> at_hash ` set ts \<Longrightarrow> at_id k \<notin> at_id ` set ts \<Longrightarrow> at_used k = None \<Longrightarrow>
    token_effect ts (retire_tokens (at_tenant k) (at_person k) (at_kind k) t ts @ [k])"

lemma grant_effect:
  assumes "grant_token x v tenant pid kind ttl actor s = (g, s')" "fresh_token x v s"
  shows "token_effect (az_tokens s) (az_tokens s')" "az_members s' = az_members s"
proof -
  let ?k = "\<lparr>at_id = cuid v (az_seq s), at_tenant = tenant, at_person = pid, at_kind = kind, at_hash = cx_sha x (cx_draw x (az_seq s)),
    at_expires = now v + ttl, at_used = None, at_by = actor\<rparr>"
  have "token_effect (az_tokens s) (retire_tokens (at_tenant ?k) (at_person ?k) (at_kind ?k) (now v) (az_tokens s) @ [?k])"
    by (rule te_new) (use assms(2) in \<open>simp_all add: fresh_token_def\<close>)
  then show "token_effect (az_tokens s) (az_tokens s')" using assms(1) by (auto simp: grant_token_def Let_def)
  show "az_members s' = az_members s" using assms(1) by (auto simp: grant_token_def Let_def)
qed

lemma loadToken_InrD:
  "loadToken x v raw kind s = Inr k \<Longrightarrow> k \<in> set (az_tokens s) \<and> at_hash k = cx_sha x raw \<and> at_kind k = kind \<and> at_used k = None"
  by (auto simp: loadToken_def rbind_Inr_iff dest: tfind_SomeD split: option.splits)

lemma resetE:
  assumes "reset x v raw password s = Inr s'"
  obtains k where "loadToken x v raw ''RESET'' s = Inr k" "s' = consume_reset x v k password s"
  using assms by (auto simp: reset_def rbind_Inr_iff)

lemma activateE:
  assumes "activate x c v raw password s = Inr (w, s')"
  obtains k where "loadToken x v raw ''INVITE'' s = Inr k" "s' = consume_invite x v k password s"
    "buildSessionFor x c v (at_person k) (at_tenant k) s' = Inr w"
  using assms by (auto simp: activate_def rbind_Inr_iff Let_def)

lemma consume_tokens [simp]:
  "az_tokens (consume_reset x v k pw s) = use_token (at_id k) (now v) (az_tokens s)"
  "az_tokens (consume_invite x v k pw s) = use_token (at_id k) (now v) (az_tokens s)"
  "az_members (consume_reset x v k pw s) = az_members s"
  "az_people (consume_reset x v k pw s) = az_people s" "az_people (consume_invite x v k pw s) = az_people s"
  by (simp_all add: consume_reset_def consume_invite_def)

lemma activate_redeems: "activate x c v raw password s = Inr (w, s') \<Longrightarrow> \<exists>k. loadToken x v raw ''INVITE'' s = Inr k \<and> redeem x k s s'"
  by (elim activateE) (blast dest: loadToken_InrD intro: rd_invite)

lemma reset_redeems: "reset x v raw password s = Inr s' \<Longrightarrow> \<exists>k. loadToken x v raw ''RESET'' s = Inr k \<and> redeem x k s s'"
  by (elim resetE) (blast dest: loadToken_InrD intro: rd_reset)

lemma upsert_simps [simp]:
  "az_tokens (upsert_member t u rs s) = az_tokens s" "az_tokens (upsert_person t u n m e s) = az_tokens s"
  "az_members (upsert_person t u n m e s) = az_members s" "az_creds (upsert_person t u n m e s) = az_creds s"
  by (simp_all add: upsert_member_def upsert_person_def)

lemma redeem_tokens:
  assumes "redeem x k s s'"
  obtains t where "az_tokens s' = use_token (at_id k) t (az_tokens s)"
  using assms by cases auto

lemma redeem_members:
  "redeem x k s s' \<Longrightarrow> az_members s' = (if at_kind k = ''INVITE'' then set_status (at_tenant k) (at_person k) ''active'' (az_members s) else az_members s)"
  by (cases rule: redeem.cases) (auto simp: consume_invite_def)

text \<open>The members a write leaves: one status set to suspended, one membership granted, or a seeded table.\<close>

lemma admin_write_effect:
  assumes "admin_write x c a s s'"
  shows "token_effect (az_tokens s) (az_tokens s') \<and>
    (case a of None \<Rightarrow> az_members s' = az_members s \<or> (\<exists>t u. az_members s' = set_status t u ''suspended'' (az_members s)) \<or> az_members s = []
     | Some (t, u) \<Rightarrow> \<exists>rs s0. az_members s0 = az_members s \<and> az_members s' = az_members (upsert_member t u rs s0))"
  using assms
proof cases
  case (aw_invite v tenant actor user g)
  then obtain p where p: "tfind (\<lambda>p. ac_id p = user \<and> ac_tenant p = tenant) (az_people s) = Some p"
    by (auto simp: invite_def split: option.splits)
  obtain h s1 where "grant_token x v tenant (ac_id p) ''INVITE'' INVITE_TTL_MS actor s = (h, s1)" by fastforce
  moreover from this p aw_invite(2) have "s' = az_log tenant actor ''auth.invite'' (ac_id p) s1" by (simp add: invite_def)
  ultimately show ?thesis using grant_effect aw_invite(1,3) by fastforce
next
  case (aw_forgot v ident g)
  show ?thesis
  proof (cases "findPerson s ident")
    case None
    with aw_forgot(1,2) show ?thesis by (simp add: forgot_def te_same)
  next
    case (Some p)
    with aw_forgot(2) obtain h s1 where "grant_token x v (ac_tenant p) (ac_id p) ''RESET'' RESET_TTL_MS (ac_id p) s = (h, s1)"
      "s' = az_log (ac_tenant p) (ac_id p) ''auth.forgot'' (ac_id p) s1"
      by (auto simp: forgot_def Let_def split: prod.splits)
    then show ?thesis using grant_effect aw_forgot(1,3) by fastforce
  qed
next
  case (aw_suspend tenant actor user)
  then show ?thesis by (auto simp: suspend_def te_same)
next
  case aw_seed
  then show ?thesis by (auto simp: onModuleInit_def te_same)
next
  case (aw_admin tenant user name)
  then show ?thesis by (simp add: ensureAdminPerson_def te_same) (metis upsert_simps(3))
next
  case (aw_user quota tenant user name roles)
  then show ?thesis by (simp add: addUser_def Let_def rbind_Inr_iff te_same) (metis upsert_simps(1-3) te_same)
next
  case (aw_baseline tenant)
  then show ?thesis by (simp add: identity_baseline_def Let_def te_same) (metis upsert_simps(3))
qed

lemma auth_step_tokens: "auth_step x c (s, ks) (s', ks') \<Longrightarrow> token_effect (az_tokens s) (az_tokens s')"
  by (erule auth_stepE) (auto simp: te_same dest: admin_write_effect elim!: redeem_tokens intro: te_use)

subsection \<open>One-time tokens are used once\<close>

definition live_tokens :: "string \<Rightarrow> string \<Rightarrow> string \<Rightarrow> auth_token list \<Rightarrow> auth_token list" where
  "live_tokens tenant pid kind = filter (\<lambda>k. at_tenant k = tenant \<and> at_person k = pid \<and> at_kind k = kind \<and> at_used k = None)"

definition tokens_ok :: "auth_token list \<Rightarrow> bool" where
  "tokens_ok ts \<longleftrightarrow> distinct (map at_hash ts) \<and> distinct (map at_id ts) \<and> (\<forall>t p k. length (live_tokens t p k ts) \<le> 1)"

lemma live_use: "length (live_tokens t p k (use_token i n ts)) \<le> length (live_tokens t p k ts)"
  by (induction ts) (auto simp: live_tokens_def use_token_def table_simps)

lemma live_retire: "length (live_tokens t p k (retire_tokens a b d n ts)) \<le> length (live_tokens t p k ts)"
  by (induction ts) (auto simp: live_tokens_def retire_tokens_def table_simps)

lemma live_retired: "live_tokens t p k (retire_tokens t p k n ts) = []"
  by (induction ts) (auto simp: live_tokens_def retire_tokens_def table_simps)

lemma token_columns [simp]:
  "map at_hash (use_token i n ts) = map at_hash ts" "map at_id (use_token i n ts) = map at_id ts"
  "map at_hash (retire_tokens a b d n ts) = map at_hash ts" "map at_id (retire_tokens a b d n ts) = map at_id ts"
  unfolding use_token_def retire_tokens_def by (rule map_tupd_frame, simp)+

lemma token_sets [simp]:
  "at_hash ` set (retire_tokens a b d n ts) = at_hash ` set ts" "at_id ` set (retire_tokens a b d n ts) = at_id ` set ts"
  by (metis token_columns(3) set_map, metis token_columns(4) set_map)

lemma token_effect_ok: "token_effect ts ts' \<Longrightarrow> tokens_ok ts \<Longrightarrow> tokens_ok ts'"
proof (induction rule: token_effect.induct)
  case (te_use k ts t)
  then show ?case unfolding tokens_ok_def using live_use le_trans by (metis token_columns(1,2))
next
  case (te_new k ts t)
  have "length (live_tokens a b d (retire_tokens (at_tenant k) (at_person k) (at_kind k) t ts @ [k])) \<le> 1" for a b d
  proof (cases "a = at_tenant k \<and> b = at_person k \<and> d = at_kind k")
    case True
    then show ?thesis using live_retired [of "at_tenant k" "at_person k" "at_kind k" t ts] by (simp add: live_tokens_def)
  next
    case False
    then have "length (live_tokens a b d (retire_tokens (at_tenant k) (at_person k) (at_kind k) t ts @ [k])) \<le> length (live_tokens a b d ts)"
      using live_retire [of a b d "at_tenant k" "at_person k" "at_kind k" t ts] by (auto simp: live_tokens_def)
    also have "\<dots> \<le> 1" using te_new by (simp add: tokens_ok_def)
    finally show ?thesis .
  qed
  then show ?case using te_new by (simp add: tokens_ok_def)
qed

text \<open>A spent token stays spent, and a token keeps its id and its digest.\<close>

definition spent :: "string \<Rightarrow> auth_token list \<Rightarrow> bool" where
  "spent h ts \<longleftrightarrow> (\<exists>k \<in> set ts. at_hash k = h \<and> at_used k \<noteq> None)"

lemma token_effect_spent: "token_effect ts ts' \<Longrightarrow> spent h ts \<Longrightarrow> spent h ts'"
proof (induction rule: token_effect.induct)
  case (te_use ts i t)
  then obtain k where "k \<in> set ts" "at_hash k = h" "at_used k \<noteq> None" by (auto simp: spent_def)
  then show ?case unfolding spent_def use_token_def
    by (intro bexI [of _ "if at_id k = i then k\<lparr>at_used := Some t\<rparr> else k"]) (auto simp: set_tupd)
next
  case (te_new q ts t)
  then obtain k where k: "k \<in> set ts" "at_hash k = h" "at_used k \<noteq> None" by (auto simp: spent_def)
  then have "k \<in> set (retire_tokens (at_tenant q) (at_person q) (at_kind q) t ts)"
    by (force simp: retire_tokens_def set_tupd)
  with k(2,3) show ?case by (auto simp: spent_def)
qed simp

definition token_keys :: "auth_token list \<Rightarrow> (string \<times> string) set" where
  "token_keys ts = (\<lambda>k. (at_id k, at_hash k)) ` set ts"

lemma token_keys_map: "token_keys ts = set (map (\<lambda>k. (at_id k, at_hash k)) ts)"
  by (simp add: token_keys_def)

lemma token_key_iff: "(at_id j, at_hash j) \<in> token_keys ts \<longleftrightarrow> (\<exists>q \<in> set ts. at_id q = at_id j \<and> at_hash q = at_hash j)"
  unfolding token_keys_def image_iff by (metis prod.inject)

lemma token_effect_keys: "token_effect ts ts' \<Longrightarrow> token_keys ts \<subseteq> token_keys ts'"
proof (induction rule: token_effect.induct)
  case (te_use ts i t)
  have "map (\<lambda>k. (at_id k, at_hash k)) (use_token i t ts) = map (\<lambda>k. (at_id k, at_hash k)) ts"
    unfolding use_token_def by (rule map_tupd_frame) simp
  then show ?case by (simp add: token_keys_map del: set_map)
next
  case (te_new q ts t)
  have "map (\<lambda>k. (at_id k, at_hash k)) (retire_tokens (at_tenant q) (at_person q) (at_kind q) t ts) = map (\<lambda>k. (at_id k, at_hash k)) ts"
    unfolding retire_tokens_def by (rule map_tupd_frame) simp
  then have "token_keys (retire_tokens (at_tenant q) (at_person q) (at_kind q) t ts) = token_keys ts"
    by (simp add: token_keys_map del: set_map)
  then show ?case by (auto simp: token_keys_def)
qed simp

definition auth_ok :: "azdb \<times> auth_token list \<Rightarrow> bool" where
  "auth_ok z \<longleftrightarrow> tokens_ok (az_tokens (fst z)) \<and> (\<forall>k \<in> set (snd z). (at_id k, at_hash k) \<in> token_keys (az_tokens (fst z)))"

lemma auth_step_ok: "auth_step x c z z' \<Longrightarrow> auth_ok z \<Longrightarrow> auth_ok z'"
proof -
  assume step: "auth_step x c z z'" and ok: "auth_ok z"
  obtain s ks s' ks' where z: "z = (s, ks)" "z' = (s', ks')" by (cases z, cases z')
  note eff = auth_step_tokens [OF step [unfolded z]]
  have "\<forall>k \<in> set ks'. k \<in> set ks \<or> k \<in> set (az_tokens s)"
    using step unfolding z by (elim auth_stepE) (auto dest: loadToken_InrD set_remove1_subset [THEN subsetD])
  then have "\<forall>k \<in> set ks'. (at_id k, at_hash k) \<in> token_keys (az_tokens s)"
    using ok unfolding z auth_ok_def fst_conv snd_conv token_keys_def by blast
  then show ?thesis using ok token_effect_ok [OF eff] token_effect_keys [OF eff] unfolding z auth_ok_def fst_conv snd_conv by blast
qed

lemma auth_steps_ok: "(auth_step x c)\<^sup>*\<^sup>* z z' \<Longrightarrow> auth_ok z \<Longrightarrow> auth_ok z'"
  by (induction rule: rtranclp_induct) (auto intro: auth_step_ok)

lemma spent_not_loaded:
  assumes "tokens_ok (az_tokens s)" "spent (cx_sha x raw) (az_tokens s)"
  shows "loadToken x v raw kind s \<noteq> Inr k"
proof
  assume l: "loadToken x v raw kind s = Inr k"
  obtain q where q: "q \<in> set (az_tokens s)" "at_hash q = cx_sha x raw" "at_used q \<noteq> None" using assms(2) by (auto simp: spent_def)
  with loadToken_InrD [OF l] assms(1) distinct_column_unique [of at_hash "az_tokens s" k q] show False by (auto simp: tokens_ok_def)
qed

lemma spent_refused:
  assumes "tokens_ok (az_tokens s)" "spent (cx_sha x raw) (az_tokens s)"
  shows "\<not> is_ok (activate x c v raw pw s)" "\<not> is_ok (reset x v raw pw s)"
proof -
  note no = spent_not_loaded [OF assms]
  show "\<not> is_ok (activate x c v raw pw s)"
  proof (cases "activate x c v raw pw s")
    case (Inr w)
    obtain r s' where "w = (r, s')" by force
    with Inr activate_redeems no show ?thesis by blast
  qed simp
  show "\<not> is_ok (reset x v raw pw s)"
  proof (cases "reset x v raw pw s")
    case (Inr s')
    with reset_redeems no show ?thesis by blast
  qed simp
qed

lemma redeem_spends: "redeem x k s s' \<Longrightarrow> (at_id k, at_hash k) \<in> token_keys (az_tokens s) \<Longrightarrow> spent (at_hash k) (az_tokens s')"
proof (elim redeem_tokens)
  fix t assume t: "az_tokens s' = use_token (at_id k) t (az_tokens s)" and "(at_id k, at_hash k) \<in> token_keys (az_tokens s)"
  then obtain q where "q \<in> set (az_tokens s)" "at_id q = at_id k" "at_hash q = at_hash k" by (auto simp: token_keys_def)
  then show ?thesis unfolding t spent_def use_token_def
    by (intro bexI [of _ "q\<lparr>at_used := Some t\<rparr>"]) (force simp: set_tupd)+
qed

definition holders :: "string \<Rightarrow> auth_token list \<Rightarrow> nat" where
  "holders h ks = length (filter (\<lambda>k. at_hash k = h) ks)"

lemma holders_remove: "holders h (remove1 k ks) \<le> holders h ks"
  by (induction ks) (auto simp: holders_def)

lemma spent_step:
  assumes "auth_step x c (s, ks) (s', ks')" "tokens_ok (az_tokens s)" "spent (cx_sha x raw) (az_tokens s)"
  shows "spent (cx_sha x raw) (az_tokens s') \<and> holders (cx_sha x raw) ks' \<le> holders (cx_sha x raw) ks"
proof -
  have "at_hash k \<noteq> cx_sha x raw" if "loadToken x v r kind s = Inr k" for v r kind k
    using loadToken_InrD [OF that] spent_not_loaded [OF assms(2), of x raw] assms(2,3) that
      distinct_column_unique [of at_hash "az_tokens s" k] by (auto simp: spent_def tokens_ok_def)
  then have "holders (cx_sha x raw) ks' \<le> holders (cx_sha x raw) ks"
    using assms(1) by (elim auth_stepE) (auto simp: holders_remove, simp add: holders_def)
  with token_effect_spent [OF auth_step_tokens [OF assms(1)] assms(3)] show ?thesis by blast
qed

lemma spent_steps:
  assumes "(auth_step x c)\<^sup>*\<^sup>* z z'" "auth_ok z" "spent (cx_sha x raw) (az_tokens (fst z))"
  shows "spent (cx_sha x raw) (az_tokens (fst z')) \<and> holders (cx_sha x raw) (snd z') \<le> holders (cx_sha x raw) (snd z)"
  using assms(1)
proof (induction rule: rtranclp_induct)
  case (step u w)
  have "auth_ok u" by (rule auth_steps_ok [OF step(1) assms(2)])
  then show ?case using step(2,3) spent_step [of x c "fst u" "snd u" "fst w" "snd w"] by (fastforce simp: auth_ok_def)
qed (use assms(3) in simp)

text \<open>
  C23. A one-time token is redeemed once by calls that do not overlap: as soon as one redemption is
  written, no activation and no reset that starts later accepts the token, whatever happens in
  between; the calls that had loaded it before that moment are the only ones that can still redeem
  it, and no other call joins them.
\<close>
theorem token_single_use:
  assumes "tokens_ok (az_tokens s)" "\<forall>j \<in> set ks. \<exists>q \<in> set (az_tokens s). at_id q = at_id j \<and> at_hash q = at_hash j"
    and "k \<in> set ks" "at_hash k = cx_sha x raw" "redeem x k s s1" "(auth_step x c)\<^sup>*\<^sup>* (s1, remove1 k ks) (s2, ks2)"
  shows "\<not> is_ok (activate x c v raw pw s2) \<and> \<not> is_ok (reset x v raw pw s2) \<and>
    length (filter (\<lambda>j. at_hash j = cx_sha x raw) ks2) < length (filter (\<lambda>j. at_hash j = cx_sha x raw) ks)"
proof -
  have ok: "auth_ok (s, ks)" using assms(1,2) by (simp add: auth_ok_def token_key_iff)
  then have ok1: "auth_ok (s1, remove1 k ks)" using au_redeem [OF assms(3,5)] auth_step_ok by blast
  have "spent (cx_sha x raw) (az_tokens s1)" using redeem_spends [OF assms(5)] ok assms(3,4) by (auto simp: auth_ok_def)
  from spent_steps [OF assms(6) ok1] this
  have fin: "spent (cx_sha x raw) (az_tokens s2)" "holders (cx_sha x raw) ks2 \<le> holders (cx_sha x raw) (remove1 k ks)" by auto
  have "tokens_ok (az_tokens s2)" using auth_steps_ok [OF assms(6) ok1] by (simp add: auth_ok_def)
  note spent_refused [OF this fin(1)]
  moreover have "Suc (holders (cx_sha x raw) (remove1 k ks)) = holders (cx_sha x raw) ks"
    using assms(3,4) by (induction ks) (auto simp: holders_def)
  ultimately show ?thesis using fin(2) by (simp add: holders_def)
qed

text \<open>
  Nobody holds two invitations or two reset tokens at a time: whatever handlers run, overlapping or not, a
  person has at most one unused token of each kind, and no two tokens have the same digest.
\<close>
theorem one_live_token:
  assumes "(auth_step x c)\<^sup>*\<^sup>* (s, []) (s', ks)" "tokens_ok (az_tokens s)"
  shows "distinct (map at_hash (az_tokens s')) \<and>
    (\<forall>t p kind. length (filter (\<lambda>k. at_tenant k = t \<and> at_person k = p \<and> at_kind k = kind \<and> at_used k = None) (az_tokens s')) \<le> 1)"
  using auth_steps_ok [OF assms(1)] assms(2) by (simp add: auth_ok_def tokens_ok_def live_tokens_def)

subsection \<open>Sessions\<close>

lemma cookie_identity:
  assumes "ri_cookie q = Some t" "t \<noteq> []" "cx_open x (now v) t = Some p"
  shows "resolveIdentity x c v q allow =
    \<lparr>id_user = jw_sub p, id_tenant = jw_tenant p, id_roles = coalesce (jw_roles p) [], id_source = ''session''\<rparr>"
  using assms by (simp add: resolveIdentity_def)

lemma session_guard:
  assumes "ri_cookie q = Some t" "t \<noteq> []" "cx_open x (now v) t = Some p"
  shows "is_ok (identityGuard x c v q r) \<longleftrightarrow> sessionMembershipActive (jw_sub p) (jw_tenant p) r"
  by (simp add: identityGuard_def Let_def cookie_identity [OF assms] ensure_def rbind_def)

text \<open>A view of a membership says what the guard will find.\<close>

lemma member_active:
  assumes "distinct (map (\<lambda>m. (mb_tenant m, mb_user m)) (az_members s))" "a \<in> set (membershipsFor c u t r s)"
  shows "sessionMembershipActive u (mv_tenant a) (Some s) \<longleftrightarrow> mv_status a = ''active''"
proof (cases "filter (\<lambda>m. mb_user m = u) (az_members s) = []")
  case True
  then have "tfind (\<lambda>m. mb_user m = u \<and> mb_tenant m = mv_tenant a) (az_members s) = None"
    by (auto simp: tfind_None_iff filter_empty_conv)
  with True assms(2) show ?thesis by (simp add: membershipsFor_def sessionMembershipActive_def default_member_def)
next
  case False
  with assms(2) obtain m where m: "m \<in> set (az_members s)" "mb_user m = u" "mv_tenant a = mb_tenant m" "mv_status a = mb_status m"
    by (auto simp: membershipsFor_def)
  from tfind_column [OF assms(1) m(1)] have "tfind (\<lambda>q. mb_user q = u \<and> mb_tenant q = mv_tenant a) (az_members s) = Some m"
    using m(2,3) by (simp add: conj_commute)
  with m(4) show ?thesis by (simp add: sessionMembershipActive_def)
qed

lemma active_iff:
  assumes "distinct (map (\<lambda>m. (mb_tenant m, mb_user m)) (az_members s))"
  shows "sessionMembershipActive u t (Some s) \<longleftrightarrow>
    (\<forall>m \<in> set (az_members s). mb_user m = u \<and> mb_tenant m = t \<longrightarrow> mb_status m = ''active'')"
proof (cases "tfind (\<lambda>m. mb_user m = u \<and> mb_tenant m = t) (az_members s)")
  case None
  with tfind_None_iff [THEN iffD1, OF None] show ?thesis by (auto simp: sessionMembershipActive_def)
next
  case (Some m)
  note m = tfind_SomeD [OF Some]
  have "q = m" if "q \<in> set (az_members s)" "mb_user q = u" "mb_tenant q = t" for q
    using distinct_column_unique [OF assms that(1), of m] m that(2,3) by auto
  with Some m show ?thesis by (auto simp: sessionMembershipActive_def)
qed

text \<open>What a result of login, activation or a switch of tenant says of its token.\<close>

definition issued :: "crypto \<Rightarrow> conf \<Rightarrow> env \<Rightarrow> session_result \<Rightarrow> azdb \<Rightarrow> bool" where
  "issued x c v w s \<longleftrightarrow> sr_token w = sign x v (pu_id (sr_user w)) (sr_tenant w) (sr_roles w) \<and>
     (\<exists>t r. sr_members w = membershipsFor c (pu_id (sr_user w)) t r s) \<and>
     (\<exists>a \<in> set (sr_members w). mv_tenant a = sr_tenant w)"

lemma first_member_in: "first_member ms = Some a \<Longrightarrow> a \<in> set ms"
  by (auto simp: first_member_def split: list.splits)

lemma account_member_in: "account_member t ms = Some a \<Longrightarrow> a \<in> set ms"
  by (auto simp: account_member_def coalesce_opt_def find_Some_iff first_member_in split: option.splits)

lemma buildSessionFor_issued:
  assumes "buildSessionFor x c v u t s = Inr w"
  shows "issued x c v w s" "pu_id (sr_user w) = u" "account_member t (membershipsFor c u (Some t) None s) \<noteq> None"
    "sr_tenant w = mv_tenant (the (account_member t (membershipsFor c u (Some t) None s)))"
proof -
  from assms obtain a where a: "account_member t (membershipsFor c u (Some t) None s) = Some a"
    by (auto simp: buildSessionFor_def Let_def split: option.splits)
  with assms have w: "sr_token w = sign x v u (mv_tenant a) (mv_roles a)" "pu_id (sr_user w) = u" "sr_tenant w = mv_tenant a"
    "sr_roles w = mv_roles a" "sr_members w = membershipsFor c u (Some t) None s"
    by (auto simp: buildSessionFor_def Let_def)
  then show "issued x c v w s" using account_member_in [OF a] unfolding issued_def by metis
  show "pu_id (sr_user w) = u" "account_member t (membershipsFor c u (Some t) None s) \<noteq> None"
    "sr_tenant w = mv_tenant (the (account_member t (membershipsFor c u (Some t) None s)))"
    using w a by simp_all
qed

lemma issuedI:
  assumes "a \<in> set (membershipsFor c (pu_id u) t r s)"
  shows "issued x c v \<lparr>sr_token = sign x v (pu_id u) (mv_tenant a) (mv_roles a), sr_user = u, sr_tenant = mv_tenant a, sr_roles = mv_roles a,
    sr_members = membershipsFor c (pu_id u) t r s\<rparr> s"
  using assms by (auto simp: issued_def)

lemma find_in: "find P ms = Some a \<Longrightarrow> a \<in> set ms \<and> P a"
  by (auto simp: find_Some_iff)

lemma switchTenant_issued:
  assumes "switchTenant x c v i t s = Inr w"
  shows "issued x c v w s"
proof -
  from assms obtain u where u: "findUser c (id_user i) = Some u" by (auto simp: switchTenant_def split: option.splits)
  with assms obtain a where "find (\<lambda>m. mv_tenant m = t \<and> mv_status m = ''active'') (membershipsFor c (su_id u) (su_tenant u) (su_role u) s) = Some a"
    by (auto simp: switchTenant_def Let_def split: option.splits)
  moreover from this u assms have "w = \<lparr>sr_token = sign x v (su_id u) (mv_tenant a) (mv_roles a), sr_user = toPublic u, sr_tenant = mv_tenant a,
      sr_roles = mv_roles a, sr_members = membershipsFor c (su_id u) (su_tenant u) (su_role u) s\<rparr>"
    by (simp add: switchTenant_def)
  ultimately show ?thesis using issuedI [of a c "toPublic u" "su_tenant u" "su_role u" s x] find_in by (fastforce simp: toPublic_def)
qed

lemma passwordLoginE:
  assumes "passwordLogin x c v ident pw s = Inr w"
  obtains p k m where "findPerson s ident = Some p" "credential_of s (ac_tenant p) (ac_id p) = Some k" "cx_verify x (kr_hash k) pw"
    "find (\<lambda>m. mv_tenant m = ac_tenant p) (membershipsFor c (ac_id p) (Some (ac_tenant p)) None s) = Some m" "mv_status m = ''active''"
    "buildSessionFor x c v (ac_id p) (ac_tenant p) s = Inr w"
  using assms by (auto simp: passwordLogin_def rbind_Inr_iff ensure_Inr_iff split: option.splits)

lemma login_issued: "login x c v ident pw s = Inr w \<Longrightarrow> issued x c v w s"
proof -
  assume l: "login x c v ident pw s = Inr w"
  show ?thesis
  proof (cases "truthy_str pw")
    case True
    with l have "passwordLogin x c v ident (the pw) s = Inr w" by (simp add: login_def rbind_Inr_iff)
    then show ?thesis by (elim passwordLoginE) (rule buildSessionFor_issued(1))
  next
    case False
    with l obtain u a where u: "findUser c ident = Some u"
      "coalesce_opt (find (\<lambda>m. mv_status m = ''active'') (membershipsFor c (su_id u) (su_tenant u) (su_role u) s))
         (first_member (membershipsFor c (su_id u) (su_tenant u) (su_role u) s)) = Some a"
      "w = \<lparr>sr_token = sign x v (su_id u) (mv_tenant a) (mv_roles a), sr_user = toPublic u, sr_tenant = mv_tenant a, sr_roles = mv_roles a,
         sr_members = membershipsFor c (su_id u) (su_tenant u) (su_role u) s\<rparr>"
      by (auto simp: login_def rbind_Inr_iff Let_def split: option.splits)
    from u(2) have "a \<in> set (membershipsFor c (su_id u) (su_tenant u) (su_role u) s)"
      by (auto simp: coalesce_opt_def find_Some_iff first_member_in split: option.splits)
    with u(3) show ?thesis using issuedI [of a c "toPublic u" "su_tenant u" "su_role u" s x] by (simp add: toPublic_def)
  qed
qed

text \<open>
  C22. Sessions read back: for eight hours the cookie of every login, activation and switch of tenant
  resolves to the user, the tenant and the roles it was issued for, whatever headers the request
  carries; then it resolves to no session. While it lives the guard lets it pass exactly when the
  memberships of that user and tenant are active at the moment of the request, whatever has happened
  since the session was issued (at the moment of issue: when the membership it names was active),
  and also when the database does not answer.
\<close>
theorem session_roundtrip:
  assumes "login x c v ident pw s = Inr w \<or> switchTenant x c v i t s = Inr w \<or> (\<exists>raw new s0. activate x c v raw new s0 = Inr (w, s))"
    and "tokens_open x" "ri_cookie q = Some (sr_token w)"
    and "\<forall>z \<in> {s, s'}. distinct (map (\<lambda>m. (mb_tenant m, mb_user m)) (az_members z))"
  shows "(now v' div 1000 < now v div 1000 + 8 * 60 * 60 \<longrightarrow>
      resolveIdentity x c v' q allow =
        \<lparr>id_user = pu_id (sr_user w), id_tenant = sr_tenant w, id_roles = sr_roles w, id_source = ''session''\<rparr> \<and>
      (is_ok (identityGuard x c v' q (Some s')) \<longleftrightarrow>
        (\<forall>m \<in> set (az_members s'). mb_user m = pu_id (sr_user w) \<and> mb_tenant m = sr_tenant w \<longrightarrow> mb_status m = ''active'')) \<and>
      (is_ok (identityGuard x c v' q (Some s)) \<longleftrightarrow> (\<exists>a \<in> set (sr_members w). mv_tenant a = sr_tenant w \<and> mv_status a = ''active'')) \<and>
      is_ok (identityGuard x c v' q None)) \<and>
    (\<not> now v' div 1000 < now v div 1000 + 8 * 60 * 60 \<longrightarrow> id_source (resolveIdentity x c v' q allow) \<noteq> ''session'')"
proof -
  have w: "issued x c v w s"
    using assms(1) by (auto intro: login_issued switchTenant_issued elim!: activateE dest: buildSessionFor_issued(1))
  let ?p = "\<lparr>jw_sub = pu_id (sr_user w), jw_tenant = sr_tenant w, jw_roles = Some (sr_roles w)\<rparr>"
  have tok: "sr_token w \<noteq> []"
    "cx_open x (now v') (sr_token w) = (if now v' div 1000 < now v div 1000 + SESSION_TTL_S then Some ?p else None)"
    using w assms(2) by (simp_all add: issued_def sign_def tokens_open_def)
  have here: "sessionMembershipActive (pu_id (sr_user w)) (sr_tenant w) (Some s) \<longleftrightarrow>
      (\<exists>a \<in> set (sr_members w). mv_tenant a = sr_tenant w \<and> mv_status a = ''active'')"
  proof -
    have d: "distinct (map (\<lambda>m. (mb_tenant m, mb_user m)) (az_members s))" using assms(4) by simp
    from w obtain t0 r0 where ms: "sr_members w = membershipsFor c (pu_id (sr_user w)) t0 r0 s" "\<exists>a \<in> set (sr_members w). mv_tenant a = sr_tenant w"
      unfolding issued_def by blast
    have "sessionMembershipActive (pu_id (sr_user w)) (sr_tenant w) (Some s) \<longleftrightarrow> mv_status a = ''active''"
      if "a \<in> set (sr_members w)" "mv_tenant a = sr_tenant w" for a
      using member_active [OF d that(1) [unfolded ms(1)]] that(2) by simp
    with ms(2) show ?thesis by blast
  qed
  have later: "sessionMembershipActive (pu_id (sr_user w)) (sr_tenant w) (Some s') \<longleftrightarrow>
      (\<forall>m \<in> set (az_members s'). mb_user m = pu_id (sr_user w) \<and> mb_tenant m = sr_tenant w \<longrightarrow> mb_status m = ''active'')"
    by (rule active_iff) (use assms(4) in simp)
  have none: "sessionMembershipActive (pu_id (sr_user w)) (sr_tenant w) None" by (simp add: sessionMembershipActive_def)
  show ?thesis
  proof (cases "now v' div 1000 < now v div 1000 + SESSION_TTL_S")
    case True
    with tok have op: "cx_open x (now v') (sr_token w) = Some ?p" by simp
    show ?thesis
      using True cookie_identity [OF assms(3) tok(1) op] session_guard [OF assms(3) tok(1) op] here later none
      by (simp add: SESSION_TTL_S_def)
  next
    case False
    then show ?thesis using tok assms(3) by (simp add: resolveIdentity_def Let_def SESSION_TTL_S_def)
  qed
qed

subsection \<open>Suspension\<close>

definition locked :: "string \<Rightarrow> string \<Rightarrow> membership list \<Rightarrow> bool" where
  "locked t u ms \<longleftrightarrow> (\<exists>m \<in> set ms. mb_user m = u \<and> mb_tenant m = t) \<and>
     (\<forall>m \<in> set ms. mb_user m = u \<and> mb_tenant m = t \<longrightarrow> mb_status m = ''suspended'')"

lemma status_keys:
  "(\<exists>m \<in> set (set_status t' u' st ms). mb_user m = u \<and> mb_tenant m = t) \<longleftrightarrow> (\<exists>m \<in> set ms. mb_user m = u \<and> mb_tenant m = t)"
proof -
  have ex: "(\<exists>m \<in> set xs. mb_user m = u \<and> mb_tenant m = t) \<longleftrightarrow> (u, t) \<in> set (map (\<lambda>m. (mb_user m, mb_tenant m)) xs)" for xs :: "membership list"
    by auto
  have keys: "map (\<lambda>m. (mb_user m, mb_tenant m)) (set_status t' u' st ms) = map (\<lambda>m. (mb_user m, mb_tenant m)) ms"
    unfolding set_status_def by (rule map_tupd_frame) simp
  show ?thesis unfolding ex keys ..
qed

lemma status_val: "m \<in> set (set_status t u st ms) \<Longrightarrow> mb_user m = u \<and> mb_tenant m = t \<Longrightarrow> mb_status m = st"
  unfolding set_status_def by (erule in_set_tupdE) simp_all

lemma status_other: "m \<in> set (set_status t' u' st ms) \<Longrightarrow> mb_status m = st \<or> m \<in> set ms"
  unfolding set_status_def by (erule in_set_tupdE) simp_all

lemma locked_set: "(\<exists>m \<in> set ms. mb_user m = u \<and> mb_tenant m = t) \<Longrightarrow> locked t u (set_status t u ''suspended'' ms)"
  using status_keys [of t u "''suspended''" ms u t] status_val by (simp add: locked_def)

text \<open>
  The steps that do not touch one account: everything but a grant of its membership and the
  redemption of one of its invitations.
\<close>

inductive quiet_step :: "crypto \<Rightarrow> conf \<Rightarrow> string \<Rightarrow> string \<Rightarrow> azdb \<Rightarrow> azdb \<Rightarrow> bool" for x c t u where
  qs_write: "admin_write x c a s s' \<Longrightarrow> a \<noteq> Some (t, u) \<Longrightarrow> quiet_step x c t u s s'"
| qs_redeem: "redeem x k s s' \<Longrightarrow> \<not> (at_kind k = ''INVITE'' \<and> at_tenant k = t \<and> at_person k = u) \<Longrightarrow> quiet_step x c t u s s'"

definition rows_of :: "string \<Rightarrow> string \<Rightarrow> membership list \<Rightarrow> membership list" where
  "rows_of t u = filter (\<lambda>m. mb_user m = u \<and> mb_tenant m = t)"

lemma locked_rows: "locked t u ms \<longleftrightarrow> rows_of t u ms \<noteq> [] \<and> (\<forall>m \<in> set (rows_of t u ms). mb_status m = ''suspended'')"
  by (auto simp: locked_def rows_of_def filter_empty_conv)

lemma rows_set_status: "(t', u') \<noteq> (t, u) \<Longrightarrow> rows_of t u (set_status t' u' st ms) = rows_of t u ms"
  by (induction ms) (auto simp: rows_of_def set_status_def table_simps)

lemma rows_upsert: "(t', u') \<noteq> (t, u) \<Longrightarrow> rows_of t u (az_members (upsert_member t' u' rs s)) = rows_of t u (az_members s)"
proof -
  assume ne: "(t', u') \<noteq> (t, u)"
  then have "rows_of t u (tupd (\<lambda>m. mb_tenant m = t' \<and> mb_user m = u') f ms) = rows_of t u ms"
    if "\<And>m. mb_tenant (f m) = mb_tenant m \<and> mb_user (f m) = mb_user m" for f ms
    using that by (induction ms) (auto simp: rows_of_def table_simps)
  with ne show ?thesis by (auto simp: upsert_member_def) (auto simp: rows_of_def)
qed

lemma locked_more: "locked t u ms \<Longrightarrow> locked t u (set_status t' u' ''suspended'' ms)"
  using status_keys [of t' u' "''suspended''" ms u t] status_other [of _ t' u' "''suspended''" ms] unfolding locked_def by blast

lemma quiet_locked: "quiet_step x c t u s s' \<Longrightarrow> locked t u (az_members s) \<Longrightarrow> locked t u (az_members s')"
proof (induction rule: quiet_step.induct)
  case (qs_write a s s')
  show ?case
  proof (cases a)
    case None
    with admin_write_effect [OF qs_write(1)] qs_write(3) show ?thesis by (auto simp: locked_more) (simp add: locked_def)
  next
    case (Some p)
    then obtain t' u' rs s0 where up: "a = Some (t', u')" "az_members s0 = az_members s" "az_members s' = az_members (upsert_member t' u' rs s0)"
      using admin_write_effect [OF qs_write(1)] by (cases p) auto
    with qs_write(2) have "rows_of t u (az_members s') = rows_of t u (az_members s)" using rows_upsert [of t' u' t u rs s0] by simp
    with qs_write(3) show ?thesis by (simp add: locked_rows)
  qed
next
  case (qs_redeem k s s')
  then show ?case using redeem_members [OF qs_redeem(1)] rows_set_status [of "at_tenant k" "at_person k" t u] by (auto simp: locked_rows)
qed

lemma quiet_steps_locked: "(quiet_step x c t u)\<^sup>*\<^sup>* s s' \<Longrightarrow> locked t u (az_members s) \<Longrightarrow> locked t u (az_members s')"
  by (induction rule: rtranclp_induct) (auto intro: quiet_locked)

lemma locked_inactive:
  assumes "locked t u (az_members s)"
  shows "\<not> sessionMembershipActive u t (Some s)"
    "a \<in> set (membershipsFor c u r r' s) \<Longrightarrow> mv_tenant a = t \<Longrightarrow> mv_status a \<noteq> ''active''"
proof -
  from assms obtain m where "tfind (\<lambda>m. mb_user m = u \<and> mb_tenant m = t) (az_members s) = Some m"
    by (cases "tfind (\<lambda>m. mb_user m = u \<and> mb_tenant m = t) (az_members s)") (auto simp: locked_def tfind_None_iff)
  with tfind_SomeD [OF this] assms show "\<not> sessionMembershipActive u t (Some s)" by (auto simp: sessionMembershipActive_def locked_def)
  have "filter (\<lambda>m. mb_user m = u) (az_members s) \<noteq> []" using assms by (auto simp: locked_def filter_empty_conv)
  then show "a \<in> set (membershipsFor c u r r' s) \<Longrightarrow> mv_tenant a = t \<Longrightarrow> mv_status a \<noteq> ''active''"
    using assms by (auto simp: membershipsFor_def locked_def)
qed

text \<open>
  C24. A suspension locks the account: until an invitation of the account is redeemed, or the
  onboarding or the launch of the tenant grants its membership again, and whatever other handlers and
  overlapping redemptions follow, every request with a session of that user and tenant is turned away
  as long as the database answers, and no password opens a new session.
\<close>
theorem suspended_locked:
  assumes "\<exists>m \<in> set (az_members s). mb_user m = u \<and> mb_tenant m = t" "(quiet_step x c t u)\<^sup>*\<^sup>* (suspend t actor u s) s'"
  shows "(\<forall>v q ck p. ri_cookie q = Some ck \<and> ck \<noteq> [] \<and> cx_open x (now v) ck = Some p \<and> jw_sub p = u \<and> jw_tenant p = t \<longrightarrow>
      \<not> is_ok (identityGuard x c v q (Some s'))) \<and>
    (\<forall>v ident pw p. findPerson s' ident = Some p \<and> ac_id p = u \<and> ac_tenant p = t \<longrightarrow>
      \<not> is_ok (passwordLogin x c v ident pw s'))"
proof -
  have "locked t u (az_members (suspend t actor u s))" using locked_set [OF assms(1)] by (simp add: suspend_def)
  then have l: "locked t u (az_members s')" using quiet_steps_locked [OF assms(2)] by blast
  have "\<not> is_ok (passwordLogin x c v ident pw s')" if who: "findPerson s' ident = Some p" "ac_id p = u" "ac_tenant p = t" for v ident pw p
  proof
    assume "is_ok (passwordLogin x c v ident pw s')"
    then obtain w where "passwordLogin x c v ident pw s' = Inr w" by (cases "passwordLogin x c v ident pw s'") auto
    then obtain m where "find (\<lambda>m. mv_tenant m = t) (membershipsFor c u (Some t) None s') = Some m" "mv_status m = ''active''"
      using who by (elim passwordLoginE) simp
    from find_in [OF this(1)] locked_inactive(2) [OF l] this(2) show False by blast
  qed
  then show ?thesis using session_guard locked_inactive(1) [OF l] by blast
qed

subsection \<open>Granted tokens\<close>

lemma retired_absent: "h \<notin> at_hash ` set ts \<Longrightarrow> tfind (\<lambda>k. at_hash k = h \<and> at_kind k = d) (retire_tokens a b e n ts) = None"
  by (metis (mono_tags, lifting) imageI tfind_None_iff token_sets(1))

lemma granted_loads:
  assumes "grant_token x v t p kind ttl actor s = (g, s1)" "fresh_token x v s" "az_tokens s2 = az_tokens s1" "now v' \<le> now v + ttl"
  obtains k where "loadToken x v' (tg_token g) kind s2 = Inr k" "at_tenant k = t" "at_person k = p" "tg_token g = cx_draw x (az_seq s)"
proof -
  let ?k = "\<lparr>at_id = cuid v (az_seq s), at_tenant = t, at_person = p, at_kind = kind, at_hash = cx_sha x (cx_draw x (az_seq s)),
    at_expires = now v + ttl, at_used = None, at_by = actor\<rparr>"
  have "az_tokens s2 = retire_tokens t p kind (now v) (az_tokens s) @ [?k]" "tg_token g = cx_draw x (az_seq s)"
    using assms(1,3) by (auto simp: grant_token_def Let_def)
  moreover have "tfind (\<lambda>k. at_hash k = cx_sha x (cx_draw x (az_seq s)) \<and> at_kind k = kind) (retire_tokens t p kind (now v) (az_tokens s)) = None"
    using assms(2) by (simp add: retired_absent fresh_token_def)
  ultimately have "loadToken x v' (tg_token g) kind s2 = Inr ?k"
    using assms(4) by (simp add: loadToken_def tfind_append tfind_Cons ensure_def)
  with that show thesis using \<open>tg_token g = _\<close> by fastforce
qed

lemma active_view:
  assumes "\<exists>m \<in> set (az_members s). mb_user m = u \<and> mb_tenant m = t"
    and "\<And>m. m \<in> set (az_members s) \<Longrightarrow> mb_user m = u \<Longrightarrow> mb_tenant m = t \<Longrightarrow> mb_status m = ''active''"
  shows "\<exists>a \<in> set (membershipsFor c u r r' s). mv_tenant a = t \<and> mv_status a = ''active''"
proof -
  from assms obtain m where m: "m \<in> set (az_members s)" "mb_user m = u" "mb_tenant m = t" "mb_status m = ''active''" by blast
  then have "m \<in> set (filter (\<lambda>m. mb_user m = u) (az_members s))" by simp
  moreover from this have "filter (\<lambda>m. mb_user m = u) (az_members s) \<noteq> []" by (metis empty_iff list.set(1))
  ultimately show ?thesis using m by (auto simp: membershipsFor_def)
qed

lemma account_member_active:
  assumes "m \<in> set ms" "mv_tenant m = t" "mv_status m = ''active''"
  shows "\<exists>a. account_member t ms = Some a \<and> mv_tenant a = t \<and> mv_status a = ''active''"
proof -
  from assms have "find (\<lambda>m. mv_tenant m = t \<and> mv_status m = ''active'') ms \<noteq> None" by (auto simp: find_None_iff)
  then obtain a where a: "find (\<lambda>m. mv_tenant m = t \<and> mv_status m = ''active'') ms = Some a" by blast
  from a find_in [OF a] show ?thesis by (auto simp: account_member_def)
qed

lemma buildSessionFor_active:
  assumes "m \<in> set (membershipsFor c u (Some t) None s)" "mv_tenant m = t" "mv_status m = ''active''"
  shows "\<exists>w. buildSessionFor x c v u t s = Inr w \<and> pu_id (sr_user w) = u \<and> sr_tenant w = t \<and>
    sr_members w = membershipsFor c u (Some t) None s"
  using account_member_active [OF assms] by (auto simp: buildSessionFor_def Let_def)

text \<open>
  C40. A suspension does not hold against an invitation handed out before: activating with it sets the
  membership active again, opens a session and the guard accepts that session, although nobody
  lifted the suspension.
\<close>
theorem suspended_reactivates:
  assumes "invite x v t admin u s = Inr (g, s1)" "fresh_token x v s" "s2 = suspend t admin' u s1"
    and "\<exists>m \<in> set (az_members s). mb_user m = u \<and> mb_tenant m = t" "now v' \<le> now v + INVITE_TTL_MS" "pw \<noteq> []" "tg_token g \<noteq> []"
    and "tokens_open x"
  shows "\<not> sessionMembershipActive u t (Some s2) \<and>
    (\<exists>w s3. activate x c v' (tg_token g) pw s2 = Inr (w, s3) \<and> pu_id (sr_user w) = u \<and> sr_tenant w = t \<and> sessionMembershipActive u t (Some s3) \<and>
      (\<forall>q v''. ri_cookie q = Some (sr_token w) \<and> now v'' div 1000 < now v' div 1000 + 8 * 60 * 60 \<longrightarrow>
        resolveIdentity x c v'' q False = \<lparr>id_user = u, id_tenant = t, id_roles = sr_roles w, id_source = ''session''\<rparr> \<and>
        is_ok (identityGuard x c v'' q (Some s3))))"
proof -
  from assms(1) obtain p s0 where g: "grant_token x v t u ''INVITE'' INVITE_TTL_MS admin s = (g, s0)" "s1 = az_log t admin ''auth.invite'' u s0"
    by (auto simp: invite_def Let_def split: option.splits prod.splits dest!: tfind_SomeD)
  have members: "az_members s2 = set_status t u ''suspended'' (az_members s)" "az_tokens s2 = az_tokens s0"
    using grant_effect(2) [OF g(1) assms(2)] by (simp_all add: assms(3) suspend_def g(2))
  obtain k where k: "loadToken x v' (tg_token g) ''INVITE'' s2 = Inr k" "at_tenant k = t" "at_person k = u"
    using granted_loads [OF g(1) assms(2) members(2) assms(5)] by blast
  define s3 where "s3 = consume_invite x v' k pw s2"
  have rows: "az_members s3 = set_status t u ''active'' (az_members s2)" using k(2,3) by (simp add: s3_def consume_invite_def)
  then have all: "mb_status m = ''active''" if "m \<in> set (az_members s3)" "mb_user m = u" "mb_tenant m = t" for m
    using that status_val unfolding rows by blast
  have ex: "\<exists>m \<in> set (az_members s3). mb_user m = u \<and> mb_tenant m = t"
    using assms(4) unfolding rows members(1) status_keys .
  then obtain m where m: "m \<in> set (membershipsFor c u (Some t) None s3)" "mv_tenant m = t" "mv_status m = ''active''"
    using active_view all by metis
  from buildSessionFor_active [OF m] obtain w where w: "buildSessionFor x c v' u t s3 = Inr w" "pu_id (sr_user w) = u" "sr_tenant w = t" by blast
  then have "activate x c v' (tg_token g) pw s2 = Inr (w, s3)"
    using assms(6,7) k by (simp add: activate_def ensure_def s3_def Let_def)
  moreover have active: "sessionMembershipActive u t (Some s3)"
    using all by (auto simp: sessionMembershipActive_def split: option.splits dest!: tfind_SomeD)
  moreover have "resolveIdentity x c v'' q False = \<lparr>id_user = u, id_tenant = t, id_roles = sr_roles w, id_source = ''session''\<rparr> \<and>
      is_ok (identityGuard x c v'' q (Some s3))"
    if "ri_cookie q = Some (sr_token w)" "now v'' div 1000 < now v' div 1000 + 8 * 60 * 60" for q v''
  proof -
    let ?p = "\<lparr>jw_sub = u, jw_tenant = t, jw_roles = Some (sr_roles w)\<rparr>"
    have tok: "sr_token w \<noteq> []" "cx_open x (now v'') (sr_token w) = Some ?p"
      using buildSessionFor_issued(1) [OF w(1)] w(2,3) assms(8) that(2) by (simp_all add: issued_def sign_def tokens_open_def SESSION_TTL_S_def)
    show ?thesis using session_guard [OF that(1) tok] cookie_identity [OF that(1) tok] active by simp
  qed
  moreover have "\<not> sessionMembershipActive u t (Some s2)"
    using locked_inactive(1) locked_set [OF assms(4)] members(1) by metis
  ultimately show ?thesis using w(2,3) by blast
qed

lemma credential_set: "\<exists>k. tfind (\<lambda>k. kr_tenant k = t \<and> kr_user k = u) (set_password t u h ks) = Some k \<and> kr_hash k = h"
proof (cases "\<exists>k \<in> set ks. kr_tenant k = t \<and> kr_user k = u")
  case True
  then have "\<exists>k. tfind (\<lambda>k. kr_tenant k = t \<and> kr_user k = u)
      (tupd (\<lambda>k. kr_tenant k = t \<and> kr_user k = u) (\<lambda>k. k\<lparr>kr_hash := h, kr_person := u\<rparr>) ks) = Some k \<and> kr_hash k = h"
    by (induction ks) (auto simp: table_simps)
  with True show ?thesis by (simp add: set_password_def)
next
  case False
  then have none: "tfind (\<lambda>k. kr_tenant k = t \<and> kr_user k = u) ks = None" by (auto simp: tfind_None_iff)
  from False have "set_password t u h ks = ks @ [\<lparr>kr_tenant = t, kr_user = u, kr_person = u, kr_hash = h\<rparr>]" unfolding set_password_def by (rule if_not_P)
  with none show ?thesis by (simp add: table_simps)
qed

lemma findPerson_cong: "az_people s' = az_people s \<Longrightarrow> findPerson s' i = findPerson s i"
  unfolding findPerson_def by (simp cong: option.case_cong)

lemma membershipsFor_cong: "az_members s' = az_members s \<Longrightarrow> membershipsFor c u t r s' = membershipsFor c u t r s"
  by (simp add: membershipsFor_def)

text \<open>
  The reset flow works, and asks for nothing but the identifier: for every account whose home
  membership is active, the token that a forgotten password
  answers to the caller sets a password within half an
  hour, and login with that password opens a session of the account, also when the account was
  never activated by an invitation.
\<close>
theorem reset_then_login:
  assumes "\<forall>n w. cx_verify x (cx_hash x n w) w" "fresh_token x v s" "cx_draw x (az_seq s) \<noteq> []"
    and "findPerson s ident = Some p" "ident \<noteq> []" "pw \<noteq> []" "now v' \<le> now v + RESET_TTL_MS"
    and "find (\<lambda>m. mv_tenant m = ac_tenant p) (membershipsFor c (ac_id p) (Some (ac_tenant p)) None s) = Some home" "mv_status home = ''active''"
  shows "\<exists>g s1 s2 w. forgot x v ident s = (Some g, s1) \<and> reset x v' (tg_token g) pw s1 = Inr s2 \<and>
    login x c v ident (Some pw) s2 = Inr w \<and> pu_id (sr_user w) = ac_id p \<and> sr_tenant w = ac_tenant p"
proof -
  obtain g s0 where g: "grant_token x v (ac_tenant p) (ac_id p) ''RESET'' RESET_TTL_MS (ac_id p) s = (g, s0)" by fastforce
  define s1 where "s1 = az_log (ac_tenant p) (ac_id p) ''auth.forgot'' (ac_id p) s0"
  have f: "forgot x v ident s = (Some g, s1)" using assms(4) g by (simp add: forgot_def s1_def)
  obtain k where k: "loadToken x v' (tg_token g) ''RESET'' s1 = Inr k" "at_tenant k = ac_tenant p" "at_person k = ac_id p"
    and "tg_token g \<noteq> []"
  proof -
    have "az_tokens s1 = az_tokens s0" by (simp add: s1_def)
    from granted_loads [OF g assms(2) this assms(7)] that assms(3) show thesis by metis
  qed
  define s2 where "s2 = consume_reset x v' k pw s1"
  have r: "reset x v' (tg_token g) pw s1 = Inr s2" using k(1) \<open>tg_token g \<noteq> []\<close> assms(6) by (simp add: reset_def ensure_def s2_def)
  have same: "az_people s2 = az_people s" "az_members s2 = az_members s"
    using g grant_effect(2) [OF g assms(2)] by (auto simp: s2_def s1_def grant_token_def Let_def)
  obtain d where d: "credential_of s2 (ac_tenant p) (ac_id p) = Some d" "kr_hash d = cx_hash x (az_seq s1) pw"
    using credential_set k(2,3) by (force simp: credential_of_def s2_def consume_reset_def)
  have home: "home \<in> set (membershipsFor c (ac_id p) (Some (ac_tenant p)) None s2)" "mv_tenant home = ac_tenant p"
    using assms(8) membershipsFor_cong [OF same(2)] by (auto simp: find_Some_iff)
  from buildSessionFor_active [OF this assms(9)] obtain w where
    "buildSessionFor x c v (ac_id p) (ac_tenant p) s2 = Inr w" "pu_id (sr_user w) = ac_id p" "sr_tenant w = ac_tenant p" by blast
  moreover have "findPerson s2 ident = Some p" using assms(4) findPerson_cong [OF same(1)] by simp
  ultimately have "login x c v ident (Some pw) s2 = Inr w"
    using d assms(1,5,6,8,9) membershipsFor_cong [OF same(2)] by (simp add: login_def passwordLogin_def ensure_def)
  with f r \<open>pu_id (sr_user w) = ac_id p\<close> \<open>sr_tenant w = ac_tenant p\<close> show ?thesis by blast
qed

text \<open>
  Loading a token and using it are two transactions: when two resets with one token both load it
  first, both take effect and the later one decides the password, although a second call that
  starts after the first is refused.
\<close>
theorem reset_race:
  assumes "tokens_ok (az_tokens s)" "\<forall>n w. cx_verify x (cx_hash x n w) w"
    and "loadToken x v1 raw ''RESET'' s = Inr k" "loadToken x v2 raw ''RESET'' s = Inr k"
    and "s1 = consume_reset x v1 k pw1 s" "s2 = consume_reset x v2 k pw2 s1"
  shows "\<not> is_ok (reset x v2 raw pw2 s1) \<and>
    (\<exists>d. credential_of s2 (at_tenant k) (at_person k) = Some d \<and> cx_verify x (kr_hash d) pw2)"
proof -
  have k: "at_kind k = ''RESET''" "at_hash k = cx_sha x raw" "(at_id k, at_hash k) \<in> token_keys (az_tokens s)"
    using loadToken_InrD [OF assms(3)] by (auto simp: token_keys_def)
  from redeem_spends [OF rd_reset [OF k(1) assms(5)] k(3)] have "spent (cx_sha x raw) (az_tokens s1)" by (simp add: k(2))
  moreover have "token_effect (az_tokens s) (az_tokens s1)" using te_use by (simp add: assms(5))
  ultimately have "\<not> is_ok (reset x v2 raw pw2 s1)"
    using spent_refused(2) token_effect_ok assms(1) by blast
  moreover obtain d where "credential_of s2 (at_tenant k) (at_person k) = Some d" "kr_hash d = cx_hash x (az_seq s1) pw2"
    using credential_set [of "at_tenant k" "at_person k"] by (force simp: credential_of_def assms(6) consume_reset_def)
  ultimately show ?thesis using assms(2) by auto
qed

subsection \<open>Authorized requests\<close>

text \<open>The test headers make a request only stricter.\<close>

lemma flags_stricter: "isEnforcing c [] \<Longrightarrow> isEnforcing c hs" "allowHeaderIdentity c hs \<Longrightarrow> allowHeaderIdentity c []"
  by (auto simp: isEnforcing_def allowHeaderIdentity_def headerFlag_def split: if_splits)

text \<open>
  C21. With enforcement on and header identities off, a request reaches a handler with a required
  permission only with a session cookie that verifies at that moment, of a user whose membership of
  that tenant is active (or who has none, or the database does not answer the check), and who holds, through a role bound to the person, a policy that
  grants the permission; no header of the request changes that.
\<close>
theorem request_authorised:
  assumes "guarded x c v (Some perm) q r d = Inr i" "perm \<noteq> []"
    and "to_lower (coalesce (co_enforce c) '''') = ''true''" "to_lower (coalesce (co_allow c) ''true'') = ''false''"
    and "\<forall>pol \<in> set (policies d). pp_roleCode pol \<noteq> ''__none__''"
  shows "(\<exists>ck p. ri_cookie q = Some ck \<and> cx_open x (now v) ck = Some p \<and> jw_sub p = id_user i \<and> jw_tenant p = id_tenant i) \<and>
    sessionMembershipActive (id_user i) (id_tenant i) r \<and>
    (\<exists>p b pol g. personForUserId d (id_user i) = Some p \<and> b \<in> set (bindings d) \<and> binding_applies d (p_id p) b \<and>
       pol \<in> set (policies d) \<and> pp_roleCode pol = rb_roleCode b \<and> g \<in> set (pp_permissions pol) \<and> grant_matches g perm)"
proof -
  have flags: "isEnforcing c (ri_headers q)" "\<not> allowHeaderIdentity c (ri_headers q)"
    using assms(3,4) by (auto simp: isEnforcing_def allowHeaderIdentity_def)
  from assms(1) have i: "identityGuard x c v q r = Inr i" "permissionGuard c (Some perm) i (ri_headers q) d = Inr ()"
    by (auto simp: guarded_def rbind_Inr_iff)
  then have who: "i = resolveIdentity x c v q False" "id_source i = ''session'' \<Longrightarrow> sessionMembershipActive (id_user i) (id_tenant i) r"
    using flags(2) by (auto simp: identityGuard_def Let_def rbind_Inr_iff ensure_Inr_iff)
  from i(2) have ok: "id_source i \<noteq> ''anonymous''" "can d (id_user i) perm None = Granted"
    using assms(2) flags(1) by (auto simp: permissionGuard_def rbind_Inr_iff ensure_Inr_iff split: if_splits)
  then obtain ck p where ck: "ri_cookie q = Some ck" "cx_open x (now v) ck = Some p" "id_user i = jw_sub p" "id_tenant i = jw_tenant p" "id_source i = ''session''"
    unfolding who(1) resolveIdentity_def by (cases "ri_cookie q") (auto split: option.splits if_splits)
  from can_needs_role [OF ok(2) assms(5)] ck who(2) show ?thesis by metis
qed

subsection \<open>Concrete runs\<close>

text \<open>A signed token that is its printed claims, with lengths in unary.\<close>

definition enc_str :: "string \<Rightarrow> string" where
  "enc_str s = replicate (length s) (CHR ''1'') @ CHR ''0'' # s"

definition dec_str :: "string \<Rightarrow> string \<times> string" where
  "dec_str t = (let n = length (takeWhile (\<lambda>c. c = CHR ''1'') t); r = drop (Suc n) t in (take n r, drop n r))"

primrec dec_list :: "nat \<Rightarrow> string \<Rightarrow> string list" where
  "dec_list 0 t = []"
| "dec_list (Suc n) t = fst (dec_str t) # dec_list n (snd (dec_str t))"

definition enc_list :: "string list \<Rightarrow> string" where
  "enc_list ss = replicate (length ss) (CHR ''1'') @ CHR ''0'' # concat (map enc_str ss)"

definition jwt_enc :: "session_jwt \<Rightarrow> string" where
  "jwt_enc p = enc_str (jw_sub p) @ enc_str (jw_tenant p) @ (case jw_roles p of None \<Rightarrow> ''n'' | Some rs \<Rightarrow> CHR ''y'' # enc_list rs)"

definition jwt_dec :: "string \<Rightarrow> session_jwt option" where
  "jwt_dec t =
     (let (a, u) = dec_str t; (b, w) = dec_str u;
          rs = (if take 1 w = ''y'' then (let n = length (takeWhile (\<lambda>c. c = CHR ''1'') (drop 1 w)) in Some (dec_list n (drop (n + 2) w))) else None);
          p = \<lparr>jw_sub = a, jw_tenant = b, jw_roles = rs\<rparr>
      in if jwt_enc p = t then Some p else None)"

lemma dec_str_enc [simp]: "dec_str (enc_str s @ r) = (s, r)"
proof -
  have "takeWhile (\<lambda>c. c = CHR ''1'') (replicate n (CHR ''1'') @ CHR ''0'' # s @ r) = replicate n (CHR ''1'')" for n
    by (induction n) auto
  then show ?thesis by (simp add: dec_str_def enc_str_def)
qed

lemma dec_list_enc [simp]: "dec_list (length ss) (concat (map enc_str ss)) = ss"
  by (induction ss) simp_all

lemma jwt_roundtrip: "jwt_dec (jwt_enc p) = Some p"
proof (cases "jw_roles p")
  case None
  then show ?thesis by (simp add: jwt_dec_def jwt_enc_def)
next
  case (Some rs)
  have "takeWhile (\<lambda>c. c = CHR ''1'') (replicate n (CHR ''1'') @ CHR ''0'' # t) = replicate n (CHR ''1'')" for n t
    by (induction n) auto
  with Some show ?thesis by (simp add: jwt_dec_def jwt_enc_def enc_list_def)
qed

text \<open>The expiry in binary, in front of the claims.\<close>

function bin_of :: "int \<Rightarrow> string" where
  "bin_of n = (if n \<le> 0 then [] else (if n mod 2 = 0 then CHR ''a'' else CHR ''b'') # bin_of (n div 2))"
  by auto
termination by (relation "measure nat") auto

declare bin_of.simps [simp del]

primrec of_bin :: "string \<Rightarrow> int" where
  "of_bin [] = 0"
| "of_bin (c # cs) = (if c = CHR ''b'' then 1 else 0) + 2 * of_bin cs"

lemma of_bin_of [simp]: "0 \<le> n \<Longrightarrow> of_bin (bin_of n) = n"
proof (induction n rule: bin_of.induct)
  case (1 n)
  show ?case
  proof (cases "n = 0")
    case False
    with 1 show ?thesis by (simp add: bin_of.simps [of n]) presburger
  qed (simp add: bin_of.simps [of 0])
qed

definition enc_int :: "int \<Rightarrow> string" where
  "enc_int i = enc_str ((if i < 0 then CHR ''-'' else CHR ''+'') # bin_of \<bar>i\<bar>)"

definition dec_int :: "string \<Rightarrow> int" where
  "dec_int t = (case t of [] \<Rightarrow> 0 | c # cs \<Rightarrow> if c = CHR ''-'' then - of_bin cs else of_bin cs)"

definition demo_sign :: "int \<Rightarrow> int \<Rightarrow> session_jwt \<Rightarrow> string" where
  "demo_sign t ttl p = enc_int (t div 1000 + ttl) @ jwt_enc p"

definition demo_open :: "int \<Rightarrow> string \<Rightarrow> session_jwt option" where
  "demo_open t s = (let (e, r) = dec_str s in if t div 1000 < dec_int e then jwt_dec r else None)"

definition demo_crypto :: crypto where
  "demo_crypto = \<lparr>cx_draw = (\<lambda>n. CHR ''r'' # show_nat n), cx_sha = (\<lambda>t. CHR ''h'' # t), cx_hash = (\<lambda>n w. CHR ''p'' # w),
     cx_verify = (\<lambda>h w. h = CHR ''p'' # w), cx_sign = demo_sign, cx_open = demo_open\<rparr>"

lemma demo_crypto_ok: "tokens_open demo_crypto" "\<forall>n w. cx_verify demo_crypto (cx_hash demo_crypto n w) w"
  by (simp_all add: tokens_open_def demo_crypto_def demo_sign_def demo_open_def enc_int_def dec_int_def jwt_roundtrip)
    (simp add: enc_str_def)

definition demo_conf :: conf where
  "demo_conf = \<lparr>co_users = [], co_tenant = None, co_user = None, co_enforce = Some ''true'', co_allow = Some ''FALSE''\<rparr>"

definition auth_db :: azdb where
  "auth_db = \<lparr>az_people = [\<lparr>ac_id = ''an'', ac_tenant = ''t1'', ac_name = ''An'', ac_email = Some ''An@x.vn''\<rparr>],
     az_members = [\<lparr>mb_tenant = ''t1'', mb_user = ''an'', mb_roles = [''STAFF''], mb_status = ''active''\<rparr>],
     az_creds = [], az_tokens = [], az_audit = [], az_seq = 0\<rparr>"

definition invited :: "(token_grant \<times> azdb) res" where "invited = invite demo_crypto demo_env ''t1'' ''boss'' ''an'' auth_db"
definition auth1 :: azdb where "auth1 = snd (projr invited)"
definition activated_an :: "(session_result \<times> azdb) res" where
  "activated_an = activate demo_crypto demo_conf demo_env ''r0'' ''pw'' auth1"
definition auth2 :: azdb where "auth2 = snd (projr activated_an)"

definition with_cookie :: "string \<Rightarrow> request_in" where
  "with_cookie t = \<lparr>ri_cookie = Some t, ri_headers = []\<rparr>"

definition an_session :: session_jwt where
  "an_session = \<lparr>jw_sub = ''an'', jw_tenant = ''t1'', jw_roles = Some [''STAFF'']\<rparr>"

definition an_cookie :: string where
  "an_cookie = cx_sign demo_crypto (now demo_env) SESSION_TTL_S an_session"

definition auth_reset :: azdb where "auth_reset = snd (forgot demo_crypto demo_env ''an'' auth_db)"

definition staff_idb :: idb where
  "staff_idb = empty_idb\<lparr>people := [\<lparr>p_id = ''an'', p_fullName = ''An'', p_email = None, p_ext = JNull\<rparr>],
     bindings := [\<lparr>rb_id = ''b'', rb_subjectType = ''USER'', rb_subjectId = ''an'', rb_roleCode = ''STAFF'', rb_scope = JNull, rb_from = None, rb_to = None\<rparr>],
     policies := [\<lparr>pp_roleCode = ''STAFF'', pp_permissions = [''ticket.*''], pp_condition = JNull\<rparr>]\<rparr>"

lemma auth_runs:
  "is_ok invited" "is_ok activated_an" "tg_token (fst (projr invited)) = ''r0''"
  "distinct (map (\<lambda>m. (mb_tenant m, mb_user m)) (az_members auth2))"
  "\<exists>a \<in> set (sr_members (fst (projr activated_an))). mv_tenant a = sr_tenant (fst (projr activated_an)) \<and> mv_status a = ''active''"
  "findPerson auth_db '' AN@X.VN'' = Some \<lparr>ac_id = ''an'', ac_tenant = ''t1'', ac_name = ''An'', ac_email = Some ''An@x.vn''\<rparr>"
  "find (\<lambda>m. mv_tenant m = ''t1'') (membershipsFor demo_conf ''an'' (Some ''t1'') None auth_db) =
     Some \<lparr>mv_tenant = ''t1'', mv_roles = [''STAFF''], mv_status = ''active''\<rparr>"
  "cx_draw demo_crypto (az_seq auth_db) \<noteq> []" "is_ok (loadToken demo_crypto demo_env ''r0'' ''RESET'' auth_reset)"
  "is_ok (guarded demo_crypto demo_conf demo_env (Some ''ticket.read'') (with_cookie an_cookie) (Some auth_db) staff_idb)"
  "to_lower (coalesce (co_enforce demo_conf) '''') = ''true''" "to_lower (coalesce (co_allow demo_conf) ''true'') = ''false''"
  by code_simp+

lemma invited_eq: "invite demo_crypto demo_env ''t1'' ''boss'' ''an'' auth_db = Inr (fst (projr invited), auth1)"
  unfolding auth1_def invited_def [symmetric] by (rule ok_pair) (rule auth_runs)

lemma activated_an_eq: "activate demo_crypto demo_conf demo_env ''r0'' ''pw'' auth1 = Inr (fst (projr activated_an), auth2)"
  unfolding auth2_def activated_an_def [symmetric] by (rule ok_pair) (rule auth_runs)

lemma fresh_first: "fresh_token demo_crypto demo_env auth_db"
  by (simp add: fresh_token_def auth_db_def)

lemma auth_db_tokens: "tokens_ok (az_tokens auth_db)"
  by (simp add: tokens_ok_def live_tokens_def auth_db_def)

lemma auth1_tokens: "tokens_ok (az_tokens auth1)"
  using auth_step_tokens [OF au_write [OF aw_invite [OF invited_eq fresh_first]]] token_effect_ok auth_db_tokens by blast

text \<open>The redemption behind the activation of the run.\<close>

lemma activation_redeems:
  obtains k where "k \<in> set (az_tokens auth1)" "at_hash k = cx_sha demo_crypto ''r0''" "redeem demo_crypto k auth1 auth2"
    "loadToken demo_crypto demo_env ''r0'' ''INVITE'' auth1 = Inr k"
  using activate_redeems [OF activated_an_eq] loadToken_InrD by blast

lemma token_single_use_witness: "\<not> is_ok (activate demo_crypto demo_conf demo_env ''r0'' ''other'' (suspend ''t1'' ''boss'' ''an'' auth2))"
proof -
  obtain k where k: "k \<in> set (az_tokens auth1)" "at_hash k = cx_sha demo_crypto ''r0''" "redeem demo_crypto k auth1 auth2"
    by (rule activation_redeems)
  have "(auth_step demo_crypto demo_conf)\<^sup>*\<^sup>* (auth2, remove1 k [k, k]) (suspend ''t1'' ''boss'' ''an'' auth2, remove1 k [k, k])"
    by (rule r_into_rtranclp) (rule au_write, rule aw_suspend, rule refl)
  from token_single_use [OF auth1_tokens _ _ k(2,3) this] k(1) show ?thesis by auto
qed

lemma one_live_token_witness: "distinct (map at_hash (az_tokens auth2))"
proof -
  obtain k where k: "redeem demo_crypto k auth1 auth2" "loadToken demo_crypto demo_env ''r0'' ''INVITE'' auth1 = Inr k"
    by (rule activation_redeems)
  have "auth_step demo_crypto demo_conf (auth1, []) (auth1, [k])" by (rule au_load) (rule k(2))
  moreover have "auth_step demo_crypto demo_conf (auth1, [k]) (auth2, remove1 k [k])" by (rule au_redeem) (simp_all add: k(1))
  ultimately have "(auth_step demo_crypto demo_conf)\<^sup>*\<^sup>* (auth1, []) (auth2, remove1 k [k])"
    by (rule converse_rtranclp_into_rtranclp [OF _ r_into_rtranclp])
  from one_live_token [OF this auth1_tokens] show ?thesis by simp
qed

lemma an_member: "\<exists>m \<in> set (az_members auth_db). mb_user m = ''an'' \<and> mb_tenant m = ''t1''"
  by (simp add: auth_db_def)

lemma an_opens: "cx_open demo_crypto (now demo_env) an_cookie = Some an_session" "an_cookie \<noteq> []"
  using demo_crypto_ok(1) by (simp_all add: tokens_open_def an_cookie_def SESSION_TTL_S_def)

lemma suspended_locked_witness:
  "\<not> is_ok (identityGuard demo_crypto demo_conf demo_env (with_cookie an_cookie) (Some (onModuleInit demo_conf (suspend ''t1'' ''boss'' ''an'' auth_db))))"
proof -
  have "(quiet_step demo_crypto demo_conf ''t1'' ''an'')\<^sup>*\<^sup>* (suspend ''t1'' ''boss'' ''an'' auth_db)
      (onModuleInit demo_conf (suspend ''t1'' ''boss'' ''an'' auth_db))"
    by (rule r_into_rtranclp) (rule qs_write, rule aw_seed, rule refl, simp)
  from suspended_locked [OF an_member this] an_opens show ?thesis by (auto simp: with_cookie_def an_session_def)
qed

lemma session_roundtrip_witness:
  "is_ok (identityGuard demo_crypto demo_conf demo_env (with_cookie (sr_token (fst (projr activated_an)))) (Some auth2)) \<and>
   id_source (resolveIdentity demo_crypto demo_conf (demo_env\<lparr>now := 28800 * 1000\<rparr>) (with_cookie (sr_token (fst (projr activated_an)))) False) \<noteq> ''session''"
proof -
  let ?w = "fst (projr activated_an)"
  have q: "ri_cookie (with_cookie (sr_token ?w)) = Some (sr_token ?w)" by (simp add: with_cookie_def)
  have d: "\<forall>z \<in> {auth2, auth2}. distinct (map (\<lambda>m. (mb_tenant m, mb_user m)) (az_members z))" using auth_runs(4) by simp
  have "\<exists>raw new s0. activate demo_crypto demo_conf demo_env raw new s0 = Inr (?w, auth2)" using activated_an_eq by blast
  note r = session_roundtrip [OF disjI2 [OF disjI2 [OF this]] demo_crypto_ok(1) q d]
  have n: "now demo_env = 50" by (simp add: demo_env_def)
  have "is_ok (identityGuard demo_crypto demo_conf demo_env (with_cookie (sr_token ?w)) (Some auth2))"
  proof -
    have "now demo_env div 1000 < now demo_env div 1000 + 8 * 60 * 60" by simp
    with r [of demo_env False] auth_runs(5) show ?thesis by blast
  qed
  moreover have "id_source (resolveIdentity demo_crypto demo_conf (demo_env\<lparr>now := 28800 * 1000\<rparr>) (with_cookie (sr_token ?w)) False) \<noteq> ''session''"
    using r [of "demo_env\<lparr>now := 28800 * 1000\<rparr>" False] by (simp add: n)
  ultimately show ?thesis by blast
qed

lemma suspended_reactivates_witness:
  "\<exists>w s3. activate demo_crypto demo_conf demo_env ''r0'' ''pw'' (suspend ''t1'' ''boss'' ''an'' auth1) = Inr (w, s3) \<and>
     sessionMembershipActive ''an'' ''t1'' (Some s3)"
  using suspended_reactivates [OF invited_eq fresh_first refl an_member _ _ _ demo_crypto_ok(1), of demo_env "''pw''" "''boss''" demo_conf]
    auth_runs(3) by (simp add: INVITE_TTL_MS_def) blast

lemma reset_then_login_witness:
  "\<exists>g s1 s2 w. forgot demo_crypto demo_env '' AN@X.VN'' auth_db = (Some g, s1) \<and> reset demo_crypto demo_env (tg_token g) ''new'' s1 = Inr s2 \<and>
     login demo_crypto demo_conf demo_env '' AN@X.VN'' (Some ''new'') s2 = Inr w \<and> pu_id (sr_user w) = ''an''"
proof -
  let ?p = "\<lparr>ac_id = ''an'', ac_tenant = ''t1'', ac_name = ''An'', ac_email = Some ''An@x.vn''\<rparr>"
  show ?thesis
    using auth_runs(6-8) reset_then_login [OF demo_crypto_ok(2) fresh_first, of "'' AN@X.VN''" ?p "''new''" demo_env demo_conf] by (simp add: RESET_TTL_MS_def) blast
qed

lemma reset_race_witness:
  "\<exists>k d. loadToken demo_crypto demo_env ''r0'' ''RESET'' auth_reset = Inr k \<and>
     credential_of (consume_reset demo_crypto demo_env k ''two'' (consume_reset demo_crypto demo_env k ''one'' auth_reset)) (at_tenant k) (at_person k) = Some d \<and>
     cx_verify demo_crypto (kr_hash d) ''two''"
proof -
  have "forgot demo_crypto demo_env ''an'' auth_db = (fst (forgot demo_crypto demo_env ''an'' auth_db), auth_reset)" by (simp add: auth_reset_def)
  from auth_step_tokens [OF au_write [OF aw_forgot [OF this fresh_first]]] token_effect_ok auth_db_tokens
  have "tokens_ok (az_tokens auth_reset)" by blast
  moreover have "is_ok (loadToken demo_crypto demo_env ''r0'' ''RESET'' auth_reset)" by (rule auth_runs)
  then have "loadToken demo_crypto demo_env ''r0'' ''RESET'' auth_reset = Inr (projr (loadToken demo_crypto demo_env ''r0'' ''RESET'' auth_reset))"
    by (rule ok_projr)
  ultimately show ?thesis using reset_race [OF _ demo_crypto_ok(2)] by blast
qed

lemma request_authorised_witness:
  "\<exists>i. guarded demo_crypto demo_conf demo_env (Some ''ticket.read'') (with_cookie an_cookie) (Some auth_db) staff_idb = Inr i \<and>
     sessionMembershipActive (id_user i) (id_tenant i) (Some auth_db)"
proof -
  have "is_ok (guarded demo_crypto demo_conf demo_env (Some ''ticket.read'') (with_cookie an_cookie) (Some auth_db) staff_idb)" by (rule auth_runs)
  then obtain i where i: "guarded demo_crypto demo_conf demo_env (Some ''ticket.read'') (with_cookie an_cookie) (Some auth_db) staff_idb = Inr i"
    by (blast dest: ok_projr)
  have "\<forall>pol \<in> set (policies staff_idb). pp_roleCode pol \<noteq> ''__none__''" by (simp add: staff_idb_def)
  then show ?thesis using auth_runs(11,12) request_authorised [OF i] i by blast
qed

end
