(* ===== verification/Announcements.thy ===== *)
theory Announcements
  imports Lifecycle
begin

section \<open>Announcements and their receipts\<close>

text \<open>
  xhub-api/src/announcements/announcements.service.ts: drafts, the audience a publication resolves
  into one receipt per recipient, reading and acknowledging, reminders, the report of the author,
  the list and the detail page. The tables extend \<open>odb\<close>.
\<close>

subsection \<open>State\<close>

record announcement =
  an_id :: string
  an_tenant :: string
  an_code :: string
  an_title :: string
  an_author :: string
  an_audience :: string
  an_target :: "string option"
  an_priority :: string
  an_ack :: bool
  an_publish :: "int option"
  an_expire :: "int option"
  an_state :: string
  an_key :: "string option"

record receipt =
  rc_id :: string
  rc_tenant :: string
  rc_ann :: string
  rc_user :: string
  rc_delivered :: int
  rc_read :: "int option"
  rc_acked :: "int option"
  rc_reminded :: "int option"
  rc_count :: nat

record ann_log =
  ae_tenant :: string
  ae_ann :: string
  ae_type :: string
  ae_actor :: string

record andb = odb +
  announcements :: "announcement list"
  receipts :: "receipt list"
  an_events :: "ann_log list"

subsection \<open>Events, rows and legality\<close>

fun announcement_action_name :: "announcement_action \<Rightarrow> string" where
  "announcement_action_name A_publish = ''publish''"
| "announcement_action_name A_archive = ''archive''"
| "announcement_action_name A_cancel = ''cancel''"

definition ann_event :: "string \<Rightarrow> string \<Rightarrow> string \<Rightarrow> string \<Rightarrow> andb \<Rightarrow> andb" where
  "ann_event tenant i ty actor s =
     log_audit tenant actor i (''announcement.'' @ ty)
       (s\<lparr>an_events := an_events s @ [\<lparr>ae_tenant = tenant, ae_ann = i, ae_type = ty, ae_actor = actor\<rparr>]\<rparr>)"

definition assertLegalAnn :: "announcement_action \<Rightarrow> string \<Rightarrow> string res" where
  "assertLegalAnn a st =
     (case announcementNext a st of None \<Rightarrow> Inl (BadRequest ''Illegal announcement transition'') | Some t \<Rightarrow> Inr t)"

record ann_view =
  av_ann :: announcement
  av_legal :: "announcement_action list"

definition decorate_ann :: "announcement \<Rightarrow> ann_view" where
  "decorate_ann a = \<lparr>av_ann = a, av_legal = announcementLegalActions (an_state a)\<rparr>"

definition load_ann :: "andb \<Rightarrow> string \<Rightarrow> string \<Rightarrow> announcement res" where
  "load_ann s tenant i =
     (case tfind (\<lambda>a. an_id a = i \<and> an_tenant a = tenant) (announcements s) of
        None \<Rightarrow> Inl (NotFound ''announcement not found'') | Some a \<Rightarrow> Inr a)"

definition set_ann :: "string \<Rightarrow> (announcement \<Rightarrow> announcement) \<Rightarrow> andb \<Rightarrow> andb" where
  "set_ann i f s = s\<lparr>announcements := tupd (\<lambda>a. an_id a = i) f (announcements s)\<rparr>"

definition set_receipt :: "string \<Rightarrow> (receipt \<Rightarrow> receipt) \<Rightarrow> andb \<Rightarrow> andb" where
  "set_receipt i f s = s\<lparr>receipts := tupd (\<lambda>r. rc_id r = i) f (receipts s)\<rparr>"

subsection \<open>Creation\<close>

definition AUDIENCES :: "string list" where
  "AUDIENCES = [''ALL'', ''ORG_UNIT'', ''POSITION'', ''GROUP'', ''USER'']"

record ann_in =
  ni_title :: string
  ni_audience :: "string option"
  ni_target :: "string option"
  ni_priority :: "string option"
  ni_ack :: bool
  ni_publish :: "int option"
  ni_expire :: "int option"
  ni_code :: "string option"
  ni_author :: "string option"
  ni_key :: "string option"

definition ann_by_key :: "andb \<Rightarrow> string \<Rightarrow> string option \<Rightarrow> announcement option" where
  "ann_by_key s tenant key =
     (if truthy_str key then tfind (\<lambda>a. an_tenant a = tenant \<and> an_key a = key) (announcements s) else None)"

definition ann_clash :: "andb \<Rightarrow> announcement \<Rightarrow> bool" where
  "ann_clash s a = (\<exists>u \<in> set (announcements s). an_tenant u = an_tenant a \<and>
     (an_code u = an_code a \<or> (an_key a \<noteq> None \<and> an_key u = an_key a)))"

definition new_ann :: "env \<Rightarrow> string \<Rightarrow> string \<Rightarrow> ann_in \<Rightarrow> andb \<Rightarrow> announcement" where
  "new_ann v tenant actor b s =
     (let aud = to_upper (coalesce (ni_audience b) ''ALL'')
      in \<lparr>an_id = oid v s, an_tenant = tenant, an_code = coalesce (ni_code b) (gen_code v ''ANN'' (o_seq s)), an_title = ni_title b,
          an_author = coalesce (ni_author b) actor, an_audience = aud, an_target = (if aud = ''ALL'' then None else ni_target b),
          an_priority = to_upper (coalesce (ni_priority b) ''NORMAL''), an_ack = ni_ack b, an_publish = ni_publish b, an_expire = ni_expire b,
          an_state = ''DRAFT'', an_key = (if truthy_str (ni_key b) then ni_key b else None)\<rparr>)"

definition createAnnouncement :: "env \<Rightarrow> string \<Rightarrow> string \<Rightarrow> ann_in \<Rightarrow> andb \<Rightarrow> ((ann_view \<times> bool) \<times> andb) res" where
  "createAnnouncement v tenant actor b s =
     rbind (ensure (ni_title b \<noteq> []) (BadRequest ''title is required'')) (\<lambda>_.
       let aud = to_upper (coalesce (ni_audience b) ''ALL'') in
       rbind (ensure (aud \<in> set AUDIENCES) (BadRequest ''audienceType must be one of'')) (\<lambda>_.
       rbind (ensure (aud \<noteq> ''ALL'' \<longrightarrow> truthy_str (ni_target b)) (BadRequest ''audienceId is required for audienceType'')) (\<lambda>_.
         case ann_by_key s tenant (ni_key b) of
           Some a \<Rightarrow> Inr ((decorate_ann a, True), s)
         | None \<Rightarrow>
             (let a = new_ann v tenant actor b s
              in if ann_clash s a then
                   (case ann_by_key s tenant (ni_key b) of Some u \<Rightarrow> Inr ((decorate_ann u, True), s) | None \<Rightarrow> Inl UniqueViolation)
                 else Inr ((decorate_ann a, False),
                        ann_event tenant (an_id a) ''created'' actor (s\<lparr>announcements := announcements s @ [a], o_seq := Suc (o_seq s)\<rparr>))))))"

subsection \<open>Publication\<close>

definition truthy_ids :: "string option list \<Rightarrow> string list" where
  "truthy_ids xs = List.map_filter (\<lambda>x. if truthy_str x then x else None) xs"

definition resolveAudience :: "idb \<Rightarrow> string \<Rightarrow> string option \<Rightarrow> string list" where
  "resolveAudience d aud target =
     to_set (if aud = ''ALL'' then map p_id (people d)
       else if aud = ''POSITION'' then map cd_person (resolveCandidates d ((blank_selector SPosition)\<lparr>s_position := target\<rparr>))
       else if aud = ''GROUP'' then map cd_person (resolveCandidates d ((blank_selector SGroup)\<lparr>s_group := target\<rparr>))
       else if aud = ''ORG_UNIT'' then
         truthy_ids (map po_holder (filter (\<lambda>q. case target of None \<Rightarrow> True | Some u \<Rightarrow> po_orgUnit q = u) (positions d)))
       else if aud = ''USER'' \<and> truthy_str target then
         [case personForUserId d (the target) of None \<Rightarrow> the target | Some p \<Rightarrow> p_id p]
       else [])"

text \<open>One turn of the loop over the recipients; whoever has a receipt is skipped.\<close>

definition deliver :: "env \<Rightarrow> string \<Rightarrow> string \<Rightarrow> string \<Rightarrow> andb \<Rightarrow> andb" where
  "deliver v tenant i person s =
     (if \<exists>r \<in> set (receipts s). rc_ann r = i \<and> rc_user r = person then s
      else s\<lparr>receipts := receipts s @ [\<lparr>rc_id = oid v s, rc_tenant = tenant, rc_ann = i, rc_user = person, rc_delivered = now v,
               rc_read = None, rc_acked = None, rc_reminded = None, rc_count = 0\<rparr>], o_seq := Suc (o_seq s)\<rparr>)"

definition publishAnnouncement :: "env \<Rightarrow> string \<Rightarrow> string \<Rightarrow> string \<Rightarrow> andb \<Rightarrow> ((ann_view \<times> nat \<times> nat) \<times> andb) res" where
  "publishAnnouncement v tenant actor i s =
     rbind (load_ann s tenant i) (\<lambda>a.
     rbind (assertLegalAnn A_publish (an_state a)) (\<lambda>to.
       let ids = resolveAudience (o_org s) (an_audience a) (an_target a);
           s1 = fold (deliver v tenant i) ids s;
           f = (\<lambda>a. a\<lparr>an_state := to, an_publish := Some (coalesce (an_publish a) (now v))\<rparr>)
       in Inr ((decorate_ann (f a), length ids, length (receipts s1) - length (receipts s)),
            ann_event tenant i ''publish'' actor (set_ann i f s1))))"

definition transitionAnn :: "string \<Rightarrow> string \<Rightarrow> string \<Rightarrow> announcement_action \<Rightarrow> andb \<Rightarrow> (ann_view \<times> andb) res" where
  "transitionAnn tenant actor i a s =
     rbind (load_ann s tenant i) (\<lambda>r.
     rbind (assertLegalAnn a (an_state r)) (\<lambda>to.
       let f = (\<lambda>r. r\<lparr>an_state := to\<rparr>)
       in Inr (decorate_ann (f r), ann_event tenant i (announcement_action_name a) actor (set_ann i f s))))"

definition archiveAnnouncement :: "string \<Rightarrow> string \<Rightarrow> string \<Rightarrow> andb \<Rightarrow> (ann_view \<times> andb) res" where
  "archiveAnnouncement tenant actor i s = transitionAnn tenant actor i A_archive s"

definition cancelAnnouncement :: "string \<Rightarrow> string \<Rightarrow> string \<Rightarrow> andb \<Rightarrow> (ann_view \<times> andb) res" where
  "cancelAnnouncement tenant actor i s = transitionAnn tenant actor i A_cancel s"

subsection \<open>Recipients\<close>

definition own_ids :: "idb \<Rightarrow> string \<Rightarrow> string list" where
  "own_ids d actor = filter (\<lambda>i. i \<noteq> []) (actor # (case personForUserId d actor of None \<Rightarrow> [] | Some p \<Rightarrow> [p_id p]))"

definition receiptFor :: "andb \<Rightarrow> string \<Rightarrow> string \<Rightarrow> string \<Rightarrow> receipt option" where
  "receiptFor s tenant i actor =
     tfind (\<lambda>r. rc_tenant r = tenant \<and> rc_ann r = i \<and> rc_user r \<in> set (own_ids (o_org s) actor)) (receipts s)"

definition readAnnouncement :: "env \<Rightarrow> string \<Rightarrow> string \<Rightarrow> string \<Rightarrow> andb \<Rightarrow> ((receipt \<times> bool) \<times> andb) res" where
  "readAnnouncement v tenant actor i s =
     rbind (load_ann s tenant i) (\<lambda>_.
       case receiptFor s tenant i actor of
         None \<Rightarrow> Inl (BadRequest ''no receipt for the current user on this announcement (not a recipient)'')
       | Some r \<Rightarrow>
           if rc_read r \<noteq> None then Inr ((r, True), s)
           else (let f = (\<lambda>r. r\<lparr>rc_read := Some (now v)\<rparr>)
                 in Inr ((f r, False), ann_event tenant i ''read'' actor (set_receipt (rc_id r) f s))))"

definition acknowledge :: "env \<Rightarrow> string \<Rightarrow> string \<Rightarrow> string \<Rightarrow> andb \<Rightarrow> (receipt \<times> andb) res" where
  "acknowledge v tenant actor i s =
     rbind (load_ann s tenant i) (\<lambda>a.
     rbind (ensure (an_ack a) (BadRequest ''this announcement does not require acknowledgement'')) (\<lambda>_.
       case receiptFor s tenant i actor of
         None \<Rightarrow> Inl (BadRequest ''no receipt for the current user on this announcement (not a recipient)'')
       | Some r \<Rightarrow>
           (let f = (\<lambda>x. x\<lparr>rc_acked := Some (coalesce (rc_acked r) (now v)), rc_read := Some (coalesce (rc_read r) (now v))\<rparr>)
            in Inr (f r, ann_event tenant i ''acknowledge'' actor (set_receipt (rc_id r) f s)))))"

definition pending_receipt :: "string \<Rightarrow> announcement \<Rightarrow> receipt \<Rightarrow> bool" where
  "pending_receipt tenant a r \<longleftrightarrow> rc_tenant r = tenant \<and> rc_ann r = an_id a \<and> (if an_ack a then rc_acked r = None else rc_read r = None)"

definition reminder :: "env \<Rightarrow> receipt \<Rightarrow> receipt" where
  "reminder v r = r\<lparr>rc_reminded := Some (now v), rc_count := Suc (rc_count r), rc_delivered := now v\<rparr>"

definition remind :: "env \<Rightarrow> string \<Rightarrow> string \<Rightarrow> string \<Rightarrow> andb \<Rightarrow> (nat \<times> andb) res" where
  "remind v tenant actor i s =
     rbind (load_ann s tenant i) (\<lambda>a.
       let rs = filter (pending_receipt tenant a) (receipts s)
       in Inr (length rs, ann_event tenant i ''remind'' actor (fold (\<lambda>r. set_receipt (rc_id r) (reminder v)) rs s)))"

subsection \<open>Reads\<close>

record ann_counts =
  ac_delivered :: nat
  ac_read :: nat
  ac_acknowledged :: nat
  ac_pending :: nat

definition receipts_of :: "andb \<Rightarrow> string \<Rightarrow> string \<Rightarrow> receipt list" where
  "receipts_of s tenant i = filter (\<lambda>r. rc_tenant r = tenant \<and> rc_ann r = i) (receipts s)"

definition counts_of :: "receipt list \<Rightarrow> ann_counts" where
  "counts_of rs =
     (let d = length rs; rd = length (filter (\<lambda>r. rc_read r \<noteq> None) rs); ak = length (filter (\<lambda>r. rc_acked r \<noteq> None) rs)
      in \<lparr>ac_delivered = d, ac_read = rd, ac_acknowledged = ak, ac_pending = d - (if d = 0 then 0 else max rd ak)\<rparr>)"

definition reportAnnouncement :: "string \<Rightarrow> string \<Rightarrow> andb \<Rightarrow> (ann_counts \<times> receipt list) res" where
  "reportAnnouncement tenant i s =
     rbind (load_ann s tenant i) (\<lambda>_. Inr (counts_of (receipts_of s tenant i), receipts_of s tenant i))"

record my_receipt =
  my_read :: "int option"
  my_acked :: "int option"
  my_unread :: bool
  my_needsAck :: bool

definition my_view :: "announcement \<Rightarrow> receipt \<Rightarrow> my_receipt" where
  "my_view a r = \<lparr>my_read = rc_read r, my_acked = rc_acked r, my_unread = (rc_read r = None), my_needsAck = (an_ack a \<and> rc_acked r = None)\<rparr>"

record ann_filter =
  nf_scope :: "string option"
  nf_state :: "string option"
  nf_q :: "string option"

definition ann_matches :: "andb \<Rightarrow> string \<Rightarrow> string \<Rightarrow> ann_filter \<Rightarrow> announcement \<Rightarrow> bool" where
  "ann_matches s tenant actor f a \<longleftrightarrow> an_tenant a = tenant \<and>
     (nf_scope f = Some ''mine'' \<longrightarrow> an_author a = actor) \<and>
     (truthy_str (nf_state f) \<longrightarrow> Some (an_state a) = nf_state f) \<and>
     (truthy_str (nf_q f) \<longrightarrow> includes_str (to_lower (the (nf_q f))) (to_lower (an_title a))) \<and>
     (nf_scope f = Some ''for-me'' \<longrightarrow>
        (\<exists>r \<in> set (receipts s). rc_tenant r = tenant \<and> rc_user r \<in> set (own_ids (o_org s) actor) \<and> rc_ann r = an_id a))"

text \<open>Of several own receipts of one announcement the last one is shown.\<close>

definition listAnnouncements ::
  "string \<Rightarrow> string \<Rightarrow> ann_filter \<Rightarrow> int option \<Rightarrow> int option \<Rightarrow> andb \<Rightarrow> (ann_view \<times> my_receipt option) list \<times> nat \<times> nat \<times> nat" where
  "listAnnouncements tenant actor f page pageSize s =
     (let mine = (if nf_scope f = Some ''for-me''
                  then filter (\<lambda>r. rc_tenant r = tenant \<and> rc_user r \<in> set (own_ids (o_org s) actor)) (receipts s) else []);
          rows = map (\<lambda>a. (decorate_ann a, map_option (my_view a) (tfind (\<lambda>r. rc_ann r = an_id a) (rev mine))))
                   (rev (filter (ann_matches s tenant actor f) (announcements s)));
          p = page_no page; sz = page_size 200 50 pageSize
      in (page_slice p sz rows, length rows, p, sz))"

record ann_page =
  ap_ann :: ann_view
  ap_events :: "ann_log list"
  ap_documents :: "(doc_row \<times> nat) list"
  ap_counts :: ann_counts
  ap_mine :: "my_receipt option"

definition getAnnouncement :: "string \<Rightarrow> string \<Rightarrow> string \<Rightarrow> andb \<Rightarrow> ann_page res" where
  "getAnnouncement tenant actor i s =
     rbind (load_ann s tenant i) (\<lambda>a.
       Inr \<lparr>ap_ann = decorate_ann a, ap_events = filter (\<lambda>e. ae_tenant e = tenant \<and> ae_ann e = i) (an_events s),
            ap_documents = listDocuments tenant None (Some ''Announcement'') (Some i) s,
            ap_counts = counts_of (receipts_of s tenant i), ap_mine = map_option (my_view a) (receiptFor s tenant i actor)\<rparr>)"

subsection \<open>Comments and attachments\<close>

definition commentAnnouncement :: "string \<Rightarrow> string \<Rightarrow> string \<Rightarrow> string option \<Rightarrow> string option \<Rightarrow> andb \<Rightarrow> (unit \<times> andb) res" where
  "commentAnnouncement tenant actor i body note s =
     rbind (load_ann s tenant i) (\<lambda>_.
     rbind (ensure (truthy_str (coalesce_opt body note)) (BadRequest ''comment body is required'')) (\<lambda>_.
       Inr ((), ann_event tenant i ''comment'' actor s)))"

definition attachAnnouncement ::
  "codec \<Rightarrow> env \<Rightarrow> string \<Rightarrow> string \<Rightarrow> string \<Rightarrow> attach_in \<Rightarrow> andb \<Rightarrow> (doc_version \<times> andb) res" where
  "attachAnnouncement c v tenant actor i b s =
     rbind (load_ann s tenant i) (\<lambda>a.
     rbind (createDocument c v tenant (Some actor)
              (attachment_doc ''Announcement'' i (an_code a) ''announcement attachment'' [''attachment'', ''announcement''] b) s) (\<lambda>(d, row, s1).
       Inr (row, ann_event tenant i ''attachment'' actor s1)))"


subsection \<open>The journal\<close>

definition ann_event_action :: "string \<Rightarrow> announcement_action option" where
  "ann_event_action ty = tfind (\<lambda>a. announcement_action_name a = ty) announcement_actions"

definition ann_history :: "andb \<Rightarrow> (string \<times> announcement_action) list" where
  "ann_history s = history_of ae_ann (\<lambda>e. ann_event_action (ae_type e)) (an_events s)"

definition ann_journal :: "andb \<Rightarrow> announcement_action journal" where
  "ann_journal s = (map (\<lambda>a. (an_id a, an_state a)) (announcements s), ann_history s)"

lemma ann_event_action_name: "ann_event_action (announcement_action_name a) = Some a"
  by (cases a) (simp_all add: ann_event_action_def announcement_actions_def table_simps)

lemma ann_event_other:
  "ann_event_action ''created'' = None" "ann_event_action ''read'' = None" "ann_event_action ''acknowledge'' = None"
  "ann_event_action ''remind'' = None" "ann_event_action ''comment'' = None" "ann_event_action ''attachment'' = None"
  "ann_event_action ''publish'' = Some A_publish"
  by code_simp+

lemma ann_event_frames [simp]:
  "announcements (ann_event t i ty a s) = announcements s" "receipts (ann_event t i ty a s) = receipts s"
  "ann_history (ann_event t i ty a s) = ann_history s @ (case ann_event_action ty of None \<Rightarrow> [] | Some a \<Rightarrow> [(i, a)])"
  by (simp_all add: ann_event_def ann_history_def log_audit_def split: option.split)

lemma set_frames [simp]:
  "announcements (set_ann i f s) = tupd (\<lambda>a. an_id a = i) f (announcements s)" "receipts (set_ann i f s) = receipts s"
  "ann_history (set_ann i f s) = ann_history s" "announcements (set_receipt i g s) = announcements s"
  "receipts (set_receipt i g s) = tupd (\<lambda>r. rc_id r = i) g (receipts s)" "ann_history (set_receipt i g s) = ann_history s"
  by (simp_all add: set_ann_def set_receipt_def ann_history_def)

lemma load_ann_InrD: "load_ann s tenant i = Inr a \<Longrightarrow> a \<in> set (announcements s) \<and> an_id a = i \<and> an_tenant a = tenant"
  by (auto simp: load_ann_def split: option.splits dest: tfind_SomeD)

lemma receiptFor_SomeD:
  "receiptFor s tenant i actor = Some r \<Longrightarrow> r \<in> set (receipts s) \<and> rc_tenant r = tenant \<and> rc_ann r = i"
  by (auto simp: receiptFor_def dest: tfind_SomeD)

subsection \<open>Deliveries\<close>

definition rc_key :: "receipt \<Rightarrow> string \<times> string" where
  "rc_key r = (rc_ann r, rc_user r)"

definition unseen :: "receipt \<Rightarrow> bool" where
  "unseen r \<longleftrightarrow> rc_read r = None \<and> rc_acked r = None"

text \<open>The ids the database issues for up to \<open>n\<close> receipts are new and different.\<close>

definition fresh_receipts :: "env \<Rightarrow> nat \<Rightarrow> andb \<Rightarrow> bool" where
  "fresh_receipts v n s \<longleftrightarrow> (let ids = map (cuid v) [o_seq s..<o_seq s + n] in distinct ids \<and> set ids \<inter> rc_id ` set (receipts s) = {})"

lemma deliver_cases:
  obtains "deliver v t i p s = s" "(i, p) \<in> rc_key ` set (receipts s)"
  | r where "receipts (deliver v t i p s) = receipts s @ [r]" "rc_id r = cuid v (o_seq s)" "o_seq (deliver v t i p s) = Suc (o_seq s)"
      "rc_tenant r = t" "rc_key r = (i, p)" "unseen r" "(i, p) \<notin> rc_key ` set (receipts s)"
proof (cases "\<exists>r \<in> set (receipts s). rc_ann r = i \<and> rc_user r = p")
  case True
  then show ?thesis by (intro that(1)) (auto simp: deliver_def rc_key_def)
next
  case False
  let ?r = "\<lparr>rc_id = oid v s, rc_tenant = t, rc_ann = i, rc_user = p, rc_delivered = now v, rc_read = None, rc_acked = None,
    rc_reminded = None, rc_count = 0\<rparr>"
  from False show ?thesis by (intro that(2) [of ?r]) (auto simp: deliver_def rc_key_def unseen_def oid_def)
qed

lemma deliver_frames [simp]:
  "announcements (deliver v t i p s) = announcements s" "an_events (deliver v t i p s) = an_events s" "o_org (deliver v t i p s) = o_org s"
  by (simp_all add: deliver_def)

lemma deliveries_frames [simp]:
  "announcements (fold (deliver v t i) ps s) = announcements s" "an_events (fold (deliver v t i) ps s) = an_events s"
  "o_org (fold (deliver v t i) ps s) = o_org s"
  by (induction ps arbitrary: s) simp_all

lemma deliveries:
  "\<exists>new. receipts (fold (deliver v t i) ps s) = receipts s @ new \<and>
     map rc_id new = map (cuid v) [o_seq s..<o_seq s + length new] \<and> length new \<le> length ps \<and>
     (\<forall>r \<in> set new. rc_tenant r = t \<and> rc_ann r = i \<and> unseen r) \<and>
     distinct (map rc_key new) \<and> rc_key ` set new \<inter> rc_key ` set (receipts s) = {}"
proof (induction ps arbitrary: s)
  case (Cons p ps)
  show ?case
  proof (cases rule: deliver_cases [of v t i p s])
    case 1
    with Cons [of s] show ?thesis by fastforce
  next
    case (2 r)
    from Cons [of "deliver v t i p s"] obtain new where new:
      "receipts (fold (deliver v t i) ps (deliver v t i p s)) = (receipts s @ [r]) @ new"
      "map rc_id new = map (cuid v) [Suc (o_seq s)..<Suc (o_seq s) + length new]" "length new \<le> length ps"
      "\<forall>r \<in> set new. rc_tenant r = t \<and> rc_ann r = i \<and> unseen r" "distinct (map rc_key new)"
      "rc_key ` set new \<inter> rc_key ` set (receipts s @ [r]) = {}"
      using 2 by auto
    have "[o_seq s..<o_seq s + length (r # new)] = o_seq s # [Suc (o_seq s)..<Suc (o_seq s) + length new]"
      by (simp add: upt_conv_Cons del: upt_Suc)
    with new(2) 2 have "map rc_id (r # new) = map (cuid v) [o_seq s..<o_seq s + length (r # new)]" by simp
    moreover have "rc_ann r = i" using 2 by (simp add: rc_key_def)
    moreover have "rc_key r \<notin> rc_key ` set (receipts s)" "rc_key r \<notin> rc_key ` set new"
      using 2 new(6) by auto
    ultimately show ?thesis using new 2 by (intro exI [of _ "r # new"]) auto
  qed
qed simp

text \<open>With nothing delivered before, the loop delivers to the recipients in order.\<close>

lemma deliveries_all:
  assumes "distinct ps" "\<forall>r \<in> set (receipts s). rc_ann r = i \<longrightarrow> rc_user r \<notin> set ps"
  shows "\<exists>new. receipts (fold (deliver v t i) ps s) = receipts s @ new \<and> map rc_user new = ps \<and>
    (\<forall>r \<in> set new. rc_tenant r = t \<and> rc_ann r = i \<and> unseen r \<and> rc_delivered r = now v)"
  using assms
proof (induction ps arbitrary: s)
  case (Cons p ps)
  let ?r = "\<lparr>rc_id = oid v s, rc_tenant = t, rc_ann = i, rc_user = p, rc_delivered = now v, rc_read = None, rc_acked = None,
    rc_reminded = None, rc_count = 0\<rparr>"
  have r: "receipts (deliver v t i p s) = receipts s @ [?r]" using Cons.prems by (auto simp: deliver_def)
  then have "\<forall>r \<in> set (receipts (deliver v t i p s)). rc_ann r = i \<longrightarrow> rc_user r \<notin> set ps" using Cons.prems by auto
  from Cons.IH [OF _ this] Cons.prems obtain new where
    "receipts (fold (deliver v t i) ps (deliver v t i p s)) = (receipts s @ [?r]) @ new" "map rc_user new = ps"
    "\<forall>r \<in> set new. rc_tenant r = t \<and> rc_ann r = i \<and> unseen r \<and> rc_delivered r = now v"
    using r by auto
  then show ?case by (intro exI [of _ "?r # new"]) (auto simp: unseen_def)
qed simp


subsection \<open>Steps of the module\<close>

inductive ann_step :: "codec \<Rightarrow> andb \<Rightarrow> andb \<Rightarrow> bool" for c where
  an_create: "createAnnouncement v tenant actor b s = Inr (w, s') \<Longrightarrow> oid v s \<notin> an_id ` set (announcements s) \<Longrightarrow> ann_step c s s'"
| an_publication: "publishAnnouncement v tenant actor i s = Inr (w, s') \<Longrightarrow>
     (\<And>a. load_ann s tenant i = Inr a \<Longrightarrow> fresh_receipts v (length (resolveAudience (o_org s) (an_audience a) (an_target a))) s) \<Longrightarrow>
     ann_step c s s'"
| an_archive: "archiveAnnouncement tenant actor i s = Inr (w, s') \<Longrightarrow> ann_step c s s'"
| an_cancel: "cancelAnnouncement tenant actor i s = Inr (w, s') \<Longrightarrow> ann_step c s s'"
| an_reading: "readAnnouncement v tenant actor i s = Inr (w, s') \<Longrightarrow> ann_step c s s'"
| an_acknowledge: "acknowledge v tenant actor i s = Inr (r, s') \<Longrightarrow> ann_step c s s'"
| an_remind: "remind v tenant actor i s = Inr (n, s') \<Longrightarrow> ann_step c s s'"
| an_comment: "commentAnnouncement tenant actor i body note s = Inr (w, s') \<Longrightarrow> ann_step c s s'"
| an_attach: "attachAnnouncement c v tenant actor i d s = Inr (w, s') \<Longrightarrow> ann_step c s s'"

text \<open>
  What a step does to the rows: nothing, a new draft, a move along the table, a move to \<open>PUBLISHED\<close>
  with new receipts, or new stamps on receipts.
\<close>

definition stamps :: "(receipt \<Rightarrow> receipt) \<Rightarrow> receipt \<Rightarrow> bool" where
  "stamps f r \<longleftrightarrow> rc_id (f r) = rc_id r \<and> rc_tenant (f r) = rc_tenant r \<and> rc_key (f r) = rc_key r \<and>
     (rc_read r \<noteq> None \<longrightarrow> rc_read (f r) = rc_read r) \<and> (rc_acked r \<noteq> None \<longrightarrow> rc_acked (f r) = rc_acked r) \<and>
     rc_count r \<le> rc_count (f r)"

inductive ann_effect :: "andb \<Rightarrow> andb \<Rightarrow> bool" where
  ne_idle: "announcements s' = announcements s \<Longrightarrow> receipts s' = receipts s \<Longrightarrow> ann_history s' = ann_history s \<Longrightarrow> ann_effect s s'"
| ne_new: "an_id a \<notin> an_id ` set (announcements s) \<Longrightarrow> an_state a = ''DRAFT'' \<Longrightarrow> announcements s' = announcements s @ [a] \<Longrightarrow>
    receipts s' = receipts s \<Longrightarrow> ann_history s' = ann_history s \<Longrightarrow> ann_effect s s'"
| ne_move: "a \<in> set (announcements s) \<Longrightarrow> announcementNext x (an_state a) = Some to \<Longrightarrow>
    (\<And>r. an_id (f r) = an_id r \<and> an_tenant (f r) = an_tenant r \<and> an_ack (f r) = an_ack r \<and> an_state (f r) = to) \<Longrightarrow>
    announcements s' = tupd (\<lambda>r. an_id r = an_id a) f (announcements s) \<Longrightarrow>
    ann_history s' = ann_history s @ [(an_id a, x)] \<Longrightarrow> receipts s' = receipts s @ new \<Longrightarrow>
    distinct (map rc_id new) \<Longrightarrow> rc_id ` set new \<inter> rc_id ` set (receipts s) = {} \<Longrightarrow>
    distinct (map rc_key new) \<Longrightarrow> rc_key ` set new \<inter> rc_key ` set (receipts s) = {} \<Longrightarrow>
    (\<And>r. r \<in> set new \<Longrightarrow> rc_tenant r = an_tenant a \<and> rc_ann r = an_id a \<and> unseen r) \<Longrightarrow> ann_effect s s'"
| ne_stamp: "announcements s' = announcements s \<Longrightarrow> ann_history s' = ann_history s \<Longrightarrow> receipts s' = map f (receipts s) \<Longrightarrow>
    (\<And>r. r \<in> set (receipts s) \<Longrightarrow> stamps f r) \<Longrightarrow>
    (\<And>r a. r \<in> set (receipts s) \<Longrightarrow> a \<in> set (announcements s) \<Longrightarrow> an_id a = rc_ann r \<Longrightarrow> an_tenant a = rc_tenant r \<Longrightarrow>
       (rc_acked r \<noteq> None \<longrightarrow> an_ack a \<and> rc_read r \<noteq> None) \<Longrightarrow> rc_acked (f r) \<noteq> None \<Longrightarrow>
       an_ack a \<and> rc_read (f r) \<noteq> None) \<Longrightarrow> ann_effect s s'"

text \<open>What holds of the tables.\<close>

definition ann_ok :: "andb \<Rightarrow> bool" where
  "ann_ok s \<longleftrightarrow> distinct (map an_id (announcements s)) \<and> distinct (map rc_id (receipts s)) \<and> distinct (map rc_key (receipts s)) \<and>
     (\<forall>r \<in> set (receipts s). \<exists>a \<in> set (announcements s). an_id a = rc_ann r \<and> an_tenant a = rc_tenant r \<and> an_state a \<noteq> ''DRAFT'' \<and>
        (rc_acked r \<noteq> None \<longrightarrow> an_ack a \<and> rc_read r \<noteq> None))"

lemma stamps_id: "stamps id r" "stamps (\<lambda>r. r) r"
  by (simp_all add: stamps_def)

lemma stamps_if: "stamps f r \<Longrightarrow> stamps (\<lambda>r. if P r then f r else r) r"
  by (simp add: stamps_def)

lemma no_draft_target: "announcementNext x st = Some to \<Longrightarrow> to \<noteq> ''DRAFT''"
  by (cases x) (auto simp: announcementNext_def table_next_def split: if_splits)

lemma effect_ok:
  assumes "ann_effect s s'" "ann_ok s"
  shows "ann_ok s'"
  using assms(1)
proof cases
  case ne_idle
  with assms(2) show ?thesis by (simp add: ann_ok_def)
next
  case (ne_new a)
  with assms(2) show ?thesis by (auto simp: ann_ok_def)
next
  case (ne_move a x to f new)
  have ids: "map an_id (announcements s') = map an_id (announcements s)"
    unfolding ne_move(4) by (rule map_tupd_frame) (use ne_move(3) in simp)
  have kept: "\<exists>b \<in> set (announcements s'). an_id b = an_id a' \<and> an_tenant b = an_tenant a' \<and> an_ack b = an_ack a' \<and> an_state b \<noteq> ''DRAFT''"
    if "a' \<in> set (announcements s)" "an_state a' \<noteq> ''DRAFT'' \<or> an_id a' = an_id a" for a'
  proof (cases "an_id a' = an_id a")
    case True
    then have "f a' \<in> set (announcements s')" using that(1) by (force simp: ne_move(4) set_tupd)
    then show ?thesis using ne_move(3) [of a'] no_draft_target [OF ne_move(2)] by auto
  next
    case False
    then have "a' \<in> set (announcements s')" using that(1) by (force simp: ne_move(4) set_tupd)
    then show ?thesis using that(2) False by blast
  qed
  have "\<exists>b \<in> set (announcements s'). an_id b = rc_ann r \<and> an_tenant b = rc_tenant r \<and> an_state b \<noteq> ''DRAFT'' \<and>
      (rc_acked r \<noteq> None \<longrightarrow> an_ack b \<and> rc_read r \<noteq> None)" if "r \<in> set (receipts s')" for r
  proof (cases "r \<in> set new")
    case True
    with ne_move(11) kept [OF ne_move(1)] show ?thesis by (fastforce simp: unseen_def)
  next
    case False
    with that ne_move(6) assms(2) obtain a' where "a' \<in> set (announcements s)" "an_id a' = rc_ann r" "an_tenant a' = rc_tenant r"
      "an_state a' \<noteq> ''DRAFT''" "rc_acked r \<noteq> None \<longrightarrow> an_ack a' \<and> rc_read r \<noteq> None"
      by (auto simp: ann_ok_def)
    with kept [of a'] show ?thesis by metis
  qed
  with assms(2) ids ne_move(6-10) show ?thesis by (auto simp: ann_ok_def)
next
  case (ne_stamp f)
  then have cols: "map rc_id (receipts s') = map rc_id (receipts s)" "map rc_key (receipts s') = map rc_key (receipts s)"
    by (simp_all add: stamps_def)
  have "\<exists>a \<in> set (announcements s'). an_id a = rc_ann (f r) \<and> an_tenant a = rc_tenant (f r) \<and> an_state a \<noteq> ''DRAFT'' \<and>
      (rc_acked (f r) \<noteq> None \<longrightarrow> an_ack a \<and> rc_read (f r) \<noteq> None)" if r: "r \<in> set (receipts s)" for r
  proof -
    from assms(2) r obtain a where a: "a \<in> set (announcements s)" "an_id a = rc_ann r" "an_tenant a = rc_tenant r" "an_state a \<noteq> ''DRAFT''"
      "rc_acked r \<noteq> None \<longrightarrow> an_ack a \<and> rc_read r \<noteq> None" by (auto simp: ann_ok_def)
    from ne_stamp(5) [OF r a(1-3,5)] a ne_stamp(1) ne_stamp(4) [OF r] show ?thesis by (auto simp: stamps_def rc_key_def intro!: bexI [of _ a])
  qed
  then have "\<forall>r \<in> set (receipts s'). \<exists>a \<in> set (announcements s'). an_id a = rc_ann r \<and> an_tenant a = rc_tenant r \<and>
      an_state a \<noteq> ''DRAFT'' \<and> (rc_acked r \<noteq> None \<longrightarrow> an_ack a \<and> rc_read r \<noteq> None)" by (simp add: ne_stamp(3))
  with assms(2) cols ne_stamp(1) show ?thesis unfolding ann_ok_def by (simp only: simp_thms)
qed


text \<open>Several stampings of rows picked by id are one map over the table.\<close>

lemma stamps_trans: "stamps f r \<Longrightarrow> stamps g (f r) \<Longrightarrow> stamps (\<lambda>r. g (f r)) r"
  by (auto simp: stamps_def)

lemma reminders:
  "\<exists>g. receipts (fold (\<lambda>r. set_receipt (rc_id r) (reminder v)) rs s) = map g (receipts s) \<and>
     (\<forall>r. stamps g r \<and> rc_read (g r) = rc_read r \<and> rc_acked (g r) = rc_acked r)"
proof (induction rs arbitrary: s)
  case Nil
  show ?case by (intro exI [of _ "\<lambda>r. r"]) (simp add: stamps_id)
next
  case (Cons x rs)
  from Cons [of "set_receipt (rc_id x) (reminder v) s"] obtain g where g:
    "receipts (fold (\<lambda>r. set_receipt (rc_id r) (reminder v)) rs (set_receipt (rc_id x) (reminder v) s)) =
      map g (tupd (\<lambda>r. rc_id r = rc_id x) (reminder v) (receipts s))"
    "\<forall>r. stamps g r \<and> rc_read (g r) = rc_read r \<and> rc_acked (g r) = rc_acked r" by auto
  let ?h = "\<lambda>r. if rc_id r = rc_id x then reminder v r else r"
  have "stamps ?h r" for r by (simp add: stamps_def reminder_def rc_key_def)
  then have "stamps (\<lambda>r. g (?h r)) r" for r using stamps_trans [of ?h r g] g(2) by blast
  moreover have "rc_read (g (?h r)) = rc_read r \<and> rc_acked (g (?h r)) = rc_acked r" for r using g(2) by (simp add: reminder_def)
  ultimately show ?case using g(1) by (intro exI [of _ "\<lambda>r. g (?h r)"]) (simp add: tupd_def)
qed

lemma reminder_frames [simp]:
  "announcements (fold (\<lambda>r. set_receipt (rc_id r) f) rs s) = announcements s"
  "ann_history (fold (\<lambda>r. set_receipt (rc_id r) f) rs s) = ann_history s"
  by (induction rs arbitrary: s) simp_all

lemma createAnnouncementE:
  assumes "createAnnouncement v tenant actor b s = Inr (w, s')"
  obtains "s' = s"
  | "s' = ann_event tenant (oid v s) ''created'' actor
       (s\<lparr>announcements := announcements s @ [new_ann v tenant actor b s], o_seq := Suc (o_seq s)\<rparr>)"
  using assms by (auto simp: createAnnouncement_def rbind_Inr_iff Let_def new_ann_def split: option.splits if_splits)

lemma publishE:
  assumes "publishAnnouncement v tenant actor i s = Inr (w, s')"
  obtains a to where "load_ann s tenant i = Inr a" "announcementNext A_publish (an_state a) = Some to"
    "s' = ann_event tenant i ''publish'' actor (set_ann i (\<lambda>a'. a'\<lparr>an_state := to, an_publish := Some (coalesce (an_publish a') (now v))\<rparr>)
       (fold (deliver v tenant i) (resolveAudience (o_org s) (an_audience a) (an_target a)) s))"
    "snd w = (length (resolveAudience (o_org s) (an_audience a) (an_target a)),
       length (receipts (fold (deliver v tenant i) (resolveAudience (o_org s) (an_audience a) (an_target a)) s)) - length (receipts s))"
  using assms by (auto simp: publishAnnouncement_def assertLegalAnn_def rbind_Inr_iff Let_def split: option.splits)

lemma transitionAnnE:
  assumes "transitionAnn tenant actor i x s = Inr (w, s')"
  obtains a to where "load_ann s tenant i = Inr a" "announcementNext x (an_state a) = Some to"
    "s' = ann_event tenant i (announcement_action_name x) actor (set_ann i (\<lambda>a. a\<lparr>an_state := to\<rparr>) s)"
  using assms by (auto simp: transitionAnn_def assertLegalAnn_def rbind_Inr_iff Let_def split: option.splits)

lemma attachAnnouncement_effect:
  assumes "attachAnnouncement c v tenant actor i d s = Inr (w, s')"
  shows "ann_effect s s'"
proof -
  let ?doc = "\<lambda>a :: announcement. attachment_doc ''Announcement'' i (an_code a) ''announcement attachment'' [''attachment'', ''announcement''] d"
  from assms obtain a where "rbind (createDocument c v tenant (Some actor) (?doc a) s)
       (\<lambda>(d, row, s1). Inr (row, ann_event tenant i ''attachment'' actor s1)) = Inr (w, s')"
    unfolding attachAnnouncement_def by (rule rbind_InrE) blast
  then obtain x row s1 where "createDocument c v tenant (Some actor) (?doc a) s = Inr (x, row, s1)"
    "s' = ann_event tenant i ''attachment'' actor s1"
    by (cases "createDocument c v tenant (Some actor) (?doc a) s") auto
  moreover from this(1) have "announcements s1 = announcements s \<and> receipts s1 = receipts s \<and> an_events s1 = an_events s"
    by (auto simp: createDocument_def appendVersion_def Let_def split: if_splits sum.splits)
  ultimately show ?thesis by (intro ne_idle) (simp_all add: ann_event_other, simp add: ann_history_def)
qed

lemma transition_effect:
  assumes "transitionAnn tenant actor i x s = Inr (w, s')"
  shows "ann_effect s s'"
  using assms
proof (rule transitionAnnE)
  fix a :: announcement and to
  assume a: "load_ann s tenant i = Inr a" "announcementNext x (an_state a) = Some to"
    "s' = ann_event tenant i (announcement_action_name x) actor (set_ann i (\<lambda>a. a\<lparr>an_state := to\<rparr>) s)"
  from load_ann_InrD [OF a(1)] show ?thesis
    by (intro ne_move [OF _ a(2), of s "\<lambda>a. a\<lparr>an_state := to\<rparr>" s' "[]"]) (simp_all add: a(3) ann_event_action_name)
qed

lemma publish_effect:
  assumes "publishAnnouncement v tenant actor i s = Inr (w, s')"
    and fresh: "\<And>a. load_ann s tenant i = Inr a \<Longrightarrow> fresh_receipts v (length (resolveAudience (o_org s) (an_audience a) (an_target a))) s"
  shows "ann_effect s s'"
  using assms(1)
proof (rule publishE)
  fix a :: announcement and to
  let ?ids = "resolveAudience (o_org s) (an_audience a) (an_target a)"
  let ?f = "\<lambda>a'. a'\<lparr>an_state := to, an_publish := Some (coalesce (an_publish a') (now v))\<rparr>"
  assume a: "load_ann s tenant i = Inr a" "announcementNext A_publish (an_state a) = Some to"
    "s' = ann_event tenant i ''publish'' actor (set_ann i ?f (fold (deliver v tenant i) ?ids s))"
  obtain new where new: "receipts (fold (deliver v tenant i) ?ids s) = receipts s @ new"
    "map rc_id new = map (cuid v) [o_seq s..<o_seq s + length new]" "length new \<le> length ?ids"
    "\<forall>r \<in> set new. rc_tenant r = tenant \<and> rc_ann r = i \<and> unseen r" "distinct (map rc_key new)"
    "rc_key ` set new \<inter> rc_key ` set (receipts s) = {}"
    using deliveries [of v tenant i ?ids s] by blast
  have sub: "[o_seq s..<o_seq s + length ?ids] = [o_seq s..<o_seq s + length new] @ [o_seq s + length new..<o_seq s + length ?ids]"
    using new(3) by (metis le_Suc_ex upt_add_eq_append add.assoc le_add1)
  have "distinct (map rc_id new) \<and> set (map rc_id new) \<inter> rc_id ` set (receipts s) = {}"
    using fresh [OF a(1)] unfolding fresh_receipts_def Let_def sub new(2) by auto
  then have "distinct (map rc_id new)" "rc_id ` set new \<inter> rc_id ` set (receipts s) = {}" by simp_all
  with load_ann_InrD [OF a(1)] new show ?thesis
    by (intro ne_move [OF _ a(2), of s ?f s' new])
      (simp_all add: a(3) ann_event_other, simp add: ann_history_def)
qed


lemma create_ann_effect:
  assumes "createAnnouncement v tenant actor b s = Inr (w, s')" "oid v s \<notin> an_id ` set (announcements s)"
  shows "ann_effect s s'"
  using assms(1)
proof (cases rule: createAnnouncementE)
  case 1
  then show ?thesis by (simp add: ne_idle)
next
  case 2
  with assms(2) show ?thesis
    by (intro ne_new [of "new_ann v tenant actor b s"]) (simp_all add: ann_event_other new_ann_def Let_def, simp add: ann_history_def)
qed


lemma receipt_at: "ann_ok s \<Longrightarrow> r \<in> set (receipts s) \<Longrightarrow> x \<in> set (receipts s) \<Longrightarrow> rc_id x = rc_id r \<Longrightarrow> x = r"
  using distinct_column_unique by (auto simp: ann_ok_def)

lemma ann_at: "ann_ok s \<Longrightarrow> a \<in> set (announcements s) \<Longrightarrow> b \<in> set (announcements s) \<Longrightarrow> an_id b = an_id a \<Longrightarrow> b = a"
  using distinct_column_unique by (auto simp: ann_ok_def)

text \<open>One receipt stamped, with what the stamp may claim of its announcement.\<close>

lemma stamp_effect:
  assumes ok: "ann_ok s" "r \<in> set (receipts s)" and f: "stamps f r"
    and acked: "rc_acked (f r) \<noteq> rc_acked r \<Longrightarrow>
      (\<exists>a \<in> set (announcements s). an_id a = rc_ann r \<and> an_ack a) \<and> rc_read (f r) \<noteq> None"
    and ty: "ann_event_action ty = None"
  shows "ann_effect s (ann_event t i ty actor (set_receipt (rc_id r) f s))"
proof (rule ne_stamp [of _ _ "\<lambda>x. if rc_id x = rc_id r then f x else x"])
  fix x assume x: "x \<in> set (receipts s)"
  show "stamps (\<lambda>x. if rc_id x = rc_id r then f x else x) x"
    using receipt_at [OF ok x] f by (cases "rc_id x = rc_id r") (simp_all add: stamps_def)
  fix a
  assume a: "a \<in> set (announcements s)" "an_id a = rc_ann x"
    and old: "rc_acked x \<noteq> None \<longrightarrow> an_ack a \<and> rc_read x \<noteq> None"
    and now: "rc_acked (if rc_id x = rc_id r then f x else x) \<noteq> None"
  show "an_ack a \<and> rc_read (if rc_id x = rc_id r then f x else x) \<noteq> None"
  proof (cases "rc_id x = rc_id r")
    case True
    then have xr: "x = r" using receipt_at [OF ok x] by simp
    show ?thesis
    proof (cases "rc_acked (f r) = rc_acked r")
      case True
      with now old xr f show ?thesis by (auto simp: stamps_def)
    next
      case False
      with acked ann_at [OF ok(1) a(1)] a(2) xr show ?thesis by auto
    qed
  qed (use old now in simp)
qed (simp_all add: tupd_def ty)

lemma readE:
  assumes "readAnnouncement v tenant actor i s = Inr (w, s')"
  obtains "s' = s"
  | r where "receiptFor s tenant i actor = Some r" "rc_read r = None"
      "s' = ann_event tenant i ''read'' actor (set_receipt (rc_id r) (\<lambda>r. r\<lparr>rc_read := Some (now v)\<rparr>) s)"
  using assms by (auto simp: readAnnouncement_def rbind_Inr_iff Let_def split: option.splits if_splits)

lemma acknowledgeE:
  assumes "acknowledge v tenant actor i s = Inr (w, s')"
  obtains a r where "load_ann s tenant i = Inr a" "an_ack a" "receiptFor s tenant i actor = Some r"
    "s' = ann_event tenant i ''acknowledge'' actor (set_receipt (rc_id r)
       (\<lambda>x. x\<lparr>rc_acked := Some (coalesce (rc_acked r) (now v)), rc_read := Some (coalesce (rc_read r) (now v))\<rparr>) s)"
  using assms by (auto simp: acknowledge_def rbind_Inr_iff Let_def split: option.splits)

lemma ann_step_effect:
  assumes "ann_step c s s'" "ann_ok s"
  shows "ann_effect s s'"
  using assms(1)
proof cases
  case (an_create v tenant actor b w)
  then show ?thesis by (rule create_ann_effect)
next
  case (an_publication v tenant actor i w)
  then show ?thesis by (rule publish_effect)
next
  case (an_archive tenant actor i w)
  then show ?thesis unfolding archiveAnnouncement_def by (rule transition_effect)
next
  case (an_cancel tenant actor i w)
  then show ?thesis unfolding cancelAnnouncement_def by (rule transition_effect)
next
  case (an_reading v tenant actor i w)
  from an_reading show ?thesis
  proof (cases rule: readE)
    case 1
    then show ?thesis by (simp add: ne_idle)
  next
    case (2 r)
    from receiptFor_SomeD [OF 2(1)] show ?thesis
      unfolding 2(3) by (intro stamp_effect assms(2)) (simp_all add: stamps_def rc_key_def 2(2) ann_event_other)
  qed
next
  case (an_acknowledge v tenant actor i r')
  then show ?thesis
  proof (rule acknowledgeE)
    fix a :: announcement and r :: receipt
    let ?f = "\<lambda>x. x\<lparr>rc_acked := Some (coalesce (rc_acked r) (now v)), rc_read := Some (coalesce (rc_read r) (now v))\<rparr>"
    assume e: "load_ann s tenant i = Inr a" "an_ack a" "receiptFor s tenant i actor = Some r"
      "s' = ann_event tenant i ''acknowledge'' actor (set_receipt (rc_id r) ?f s)"
    have "\<exists>a \<in> set (announcements s). an_id a = rc_ann r \<and> an_ack a"
      using load_ann_InrD [OF e(1)] receiptFor_SomeD [OF e(3)] e(2) by (intro bexI [of _ a]) auto
    with receiptFor_SomeD [OF e(3)] show ?thesis
      unfolding e(4) by (intro stamp_effect assms(2)) (auto simp: stamps_def rc_key_def ann_event_other coalesce_def)
  qed
next
  case (an_remind v tenant actor i n)
  then obtain a where s': "s' = ann_event tenant i ''remind'' actor
      (fold (\<lambda>r. set_receipt (rc_id r) (reminder v)) (filter (pending_receipt tenant a) (receipts s)) s)"
    by (auto simp: remind_def rbind_Inr_iff Let_def)
  obtain g where "receipts s' = map g (receipts s)" "\<forall>r. stamps g r \<and> rc_read (g r) = rc_read r \<and> rc_acked (g r) = rc_acked r"
    using reminders [of v "filter (pending_receipt tenant a) (receipts s)" s] by (auto simp: s')
  then show ?thesis by (intro ne_stamp [of s' s g]) (simp_all add: s' ann_event_other)
next
  case (an_comment tenant actor i body nt w)
  then have "s' = ann_event tenant i ''comment'' actor s" by (auto simp: commentAnnouncement_def rbind_Inr_iff)
  then show ?thesis by (simp add: ne_idle ann_event_other)
next
  case (an_attach v tenant actor i d w)
  then show ?thesis by (rule attachAnnouncement_effect)
qed

text \<open>Announcements are the common lifecycle, from states whose tables are consistent.\<close>

lemma effect_journal: "ann_effect s s' \<Longrightarrow> lc_step ANNOUNCEMENT_TRANSITIONS ''DRAFT'' (ann_journal s) (ann_journal s')"
proof (induction rule: ann_effect.induct)
  case (ne_new a s s')
  then show ?case by (simp add: ann_journal_def lc_create_table del: map_append)
next
  case (ne_move a s x to f s' new)
  then show ?case
    using lc_act_table [of a "announcements s" an_id "an_id a" ANNOUNCEMENT_TRANSITIONS x an_state to f "''DRAFT''" "ann_history s"]
    by (simp add: ann_journal_def announcementNext_def)
qed (simp_all add: ann_journal_def lc_idle)

definition ann_move :: "codec \<Rightarrow> andb \<Rightarrow> andb \<Rightarrow> bool" where
  "ann_move c s s' \<longleftrightarrow> ann_step c s s' \<and> ann_ok s"

interpretation news: event_sourced ANNOUNCEMENT_TRANSITIONS "''DRAFT''" ANNOUNCEMENT_TERMINAL ann_journal "ann_move c" for c
  by unfold_locales (auto simp: ann_move_def ann_step_effect effect_journal announcement.no_exit)

lemma ann_steps_ok: "(ann_step c)\<^sup>*\<^sup>* s s' \<Longrightarrow> ann_ok s \<Longrightarrow> ann_ok s'"
  by (induction rule: rtranclp_induct) (use ann_step_effect effect_ok in blast)+

lemma ann_steps_moves: "(ann_step c)\<^sup>*\<^sup>* s s' \<Longrightarrow> ann_ok s \<Longrightarrow> (ann_move c)\<^sup>*\<^sup>* s s'"
proof (induction rule: rtranclp_induct)
  case (step u w)
  then have "ann_ok u" using ann_steps_ok by blast
  with step show ?case by (auto simp: ann_move_def intro: rtranclp.rtrancl_into_rtrancl)
qed simp


subsection \<open>Receipts\<close>

lemma one_match: "distinct (map k xs) \<Longrightarrow> length (filter (\<lambda>x. k x = y) xs) \<le> 1"
proof (induction xs)
  case (Cons x xs)
  have "filter (\<lambda>z. k z = y) xs = []" if "k x = y" using Cons.prems that by (auto simp: filter_empty_conv) (metis imageI)
  with Cons show ?case by auto
qed simp

text \<open>
  C10. Receipts stay consistent whatever the handlers do: nobody holds two receipts of one announcement, a
  draft has none, what is acknowledged is also read, and only announcements that ask for an
  acknowledgement have any.
\<close>
theorem receipts_sound:
  assumes "(ann_step c)\<^sup>*\<^sup>* s s'" "ann_ok s"
  shows "(\<forall>i p. length (filter (\<lambda>r. rc_ann r = i \<and> rc_user r = p) (receipts s')) \<le> 1) \<and>
    (\<forall>r \<in> set (receipts s'). \<exists>a \<in> set (announcements s'). an_id a = rc_ann r \<and> an_tenant a = rc_tenant r \<and> an_state a \<noteq> ''DRAFT'' \<and>
       (rc_acked r \<noteq> None \<longrightarrow> an_ack a \<and> rc_read r \<noteq> None))"
proof -
  have ok: "ann_ok s'" by (rule ann_steps_ok [OF assms])
  then have "length (filter (\<lambda>r. rc_key r = (i, p)) (receipts s')) \<le> 1" for i p by (intro one_match) (simp add: ann_ok_def)
  then show ?thesis using ok unfolding ann_ok_def rc_key_def prod.inject by blast
qed

definition keeps_receipts :: "andb \<Rightarrow> andb \<Rightarrow> bool" where
  "keeps_receipts s s' \<longleftrightarrow> (\<forall>r \<in> set (receipts s). \<exists>q \<in> set (receipts s'). rc_id q = rc_id r \<and> rc_key q = rc_key r \<and>
     (rc_read r \<noteq> None \<longrightarrow> rc_read q = rc_read r) \<and> (rc_acked r \<noteq> None \<longrightarrow> rc_acked q = rc_acked r) \<and> rc_count r \<le> rc_count q)"

lemma effect_keeps: "ann_effect s s' \<Longrightarrow> keeps_receipts s s'"
proof (induction rule: ann_effect.induct)
  case (ne_stamp s' s f)
  then show ?case by (auto simp: keeps_receipts_def stamps_def)
qed (auto simp: keeps_receipts_def)

lemma receipts_kept_trans: "keeps_receipts s t \<Longrightarrow> keeps_receipts t u \<Longrightarrow> keeps_receipts s u"
  unfolding keeps_receipts_def by (smt (verit) le_trans)

text \<open>
  A receipt is never lost and its stamps are written once: the moments of the first reading and of the
  acknowledgement never change, and the number of reminders only grows.
\<close>
theorem receipt_stamps_kept:
  assumes "(ann_step c)\<^sup>*\<^sup>* s s'" "ann_ok s" "r \<in> set (receipts s)"
  shows "\<exists>q \<in> set (receipts s'). rc_id q = rc_id r \<and> rc_ann q = rc_ann r \<and> rc_user q = rc_user r \<and>
    (rc_read r \<noteq> None \<longrightarrow> rc_read q = rc_read r) \<and> (rc_acked r \<noteq> None \<longrightarrow> rc_acked q = rc_acked r) \<and> rc_count r \<le> rc_count q"
proof -
  have "keeps_receipts s s'"
    using assms(1)
  proof (induction rule: rtranclp_induct)
    case base
    show ?case by (auto simp: keeps_receipts_def)
  next
    case (step u w)
    with effect_keeps [OF ann_step_effect [OF step(2)]] ann_steps_ok assms(2) receipts_kept_trans show ?case by blast
  qed
  with assms(3) show ?thesis by (auto simp: keeps_receipts_def rc_key_def)
qed

subsection \<open>Publication\<close>

lemma draft_empty: "ann_ok s \<Longrightarrow> a \<in> set (announcements s) \<Longrightarrow> an_state a = ''DRAFT'' \<Longrightarrow> r \<in> set (receipts s) \<Longrightarrow> rc_ann r \<noteq> an_id a"
  using ann_at by (fastforce simp: ann_ok_def)

text \<open>
  C11. A publication reaches its audience: it delivers exactly one unread receipt to every person the
  audience resolves to, in that order, and answers their number twice.
\<close>
theorem publish_reaches_audience:
  assumes "ann_ok s" "load_ann s tenant i = Inr a" "publishAnnouncement v tenant actor i s = Inr (w, s')"
  shows "map rc_user (receipts_of s' tenant i) = resolveAudience (o_org s) (an_audience a) (an_target a) \<and>
    (\<forall>r \<in> set (receipts_of s' tenant i). rc_delivered r = now v \<and> rc_read r = None \<and> rc_acked r = None) \<and>
    snd w = (length (receipts_of s' tenant i), length (receipts_of s' tenant i))"
proof -
  let ?ids = "resolveAudience (o_org s) (an_audience a) (an_target a)"
  from assms(3) assms(2) obtain to where p: "announcementNext A_publish (an_state a) = Some to"
    "receipts s' = receipts (fold (deliver v tenant i) ?ids s)"
    "snd w = (length ?ids, length (receipts (fold (deliver v tenant i) ?ids s)) - length (receipts s))"
    by (auto elim!: publishE)
  have "an_state a = ''DRAFT''" using p(1) by (auto simp: announcementNext_def table_next_def split: if_splits)
  with draft_empty [OF assms(1)] load_ann_InrD [OF assms(2)] have none: "\<forall>r \<in> set (receipts s). rc_ann r \<noteq> i" by auto
  have "distinct ?ids" by (simp add: resolveAudience_def)
  with deliveries_all [of ?ids s i v tenant] none obtain new where new:
    "receipts (fold (deliver v tenant i) ?ids s) = receipts s @ new" "map rc_user new = ?ids"
    "\<forall>r \<in> set new. rc_tenant r = tenant \<and> rc_ann r = i \<and> unseen r \<and> rc_delivered r = now v" by auto
  have "filter (\<lambda>r. rc_tenant r = tenant \<and> rc_ann r = i) (receipts s) = []"
    "filter (\<lambda>r. rc_tenant r = tenant \<and> rc_ann r = i) new = new"
    using none new(3) by (auto simp: filter_empty_conv filter_id_conv)
  then have "receipts_of s' tenant i = new" by (simp add: receipts_of_def p(2) new(1))
  moreover have "length new = length ?ids" using new(2) by (metis length_map)
  ultimately show ?thesis using new p(3) by (simp add: unseen_def)
qed

subsection \<open>The report of the author\<close>

lemma split_count: "(\<And>r. r \<in> set rs \<Longrightarrow> Q r \<Longrightarrow> P r) \<Longrightarrow>
  length (filter (\<lambda>r. \<not> Q r) rs) = length rs - length (filter P rs) + length (filter (\<lambda>r. P r \<and> \<not> Q r) rs)"
proof (induction rs)
  case (Cons r rs)
  have "length (filter P rs) \<le> length rs" by (rule length_filter_le)
  with Cons show ?case by (auto simp: Suc_diff_le)
qed simp

lemma fewer_acked: "(\<And>r. r \<in> set rs \<Longrightarrow> Q r \<Longrightarrow> P r) \<Longrightarrow> length (filter Q rs) \<le> length (filter P rs)"
  by (induction rs) auto

text \<open>
  The report of an announcement that asks for acknowledgements counts as pending who has not read it.
  A reminder of the same announcement also goes to everyone who read it and did not
  acknowledge: those are pending for the reminder and not for the report.
\<close>
theorem report_pending_unread:
  assumes "ann_ok s" "load_ann s tenant i = Inr a" "an_ack a"
    and "reportAnnouncement tenant i s = Inr (k, rs)" "remind v tenant actor i s = Inr (n, s')"
  shows "ac_pending k = length (filter (\<lambda>r. rc_read r = None) rs) \<and>
    n = ac_pending k + length (filter (\<lambda>r. rc_read r \<noteq> None \<and> rc_acked r = None) rs)"
proof -
  have rs: "rs = receipts_of s tenant i" "k = counts_of rs" using assms(2,4) by (auto simp: reportAnnouncement_def)
  have ar: "rc_read r \<noteq> None" if "r \<in> set rs" "rc_acked r \<noteq> None" for r
    using assms(1) that by (auto simp: rs receipts_of_def ann_ok_def)
  have "length (filter (\<lambda>r. rc_acked r \<noteq> None) rs) \<le> length (filter (\<lambda>r. rc_read r \<noteq> None) rs)"
    by (rule fewer_acked) (use ar in blast)
  then have pending: "ac_pending k = length rs - length (filter (\<lambda>r. rc_read r \<noteq> None) rs)"
    by (auto simp: rs(2) counts_of_def Let_def max_def)
  have "filter (pending_receipt tenant a) (receipts s) = filter (\<lambda>r. \<not> rc_acked r \<noteq> None) rs"
    using load_ann_InrD [OF assms(2)] assms(3) by (auto simp: rs receipts_of_def pending_receipt_def intro!: filter_cong)
  then have "n = length (filter (\<lambda>r. \<not> rc_acked r \<noteq> None) rs)" using assms(2,5) by (auto simp: remind_def Let_def)
  also have "\<dots> = length rs - length (filter (\<lambda>r. rc_read r \<noteq> None) rs) +
      length (filter (\<lambda>r. rc_read r \<noteq> None \<and> \<not> rc_acked r \<noteq> None) rs)"
    by (rule split_count) (use ar in blast)
  moreover have "length (filter (\<lambda>r. rc_read r = None) rs) = length rs - length (filter (\<lambda>r. rc_read r \<noteq> None) rs)"
    using sum_length_filter_compl [of "\<lambda>r. rc_read r \<noteq> None" rs] by simp
  ultimately show ?thesis using pending by simp
qed


subsection \<open>An example\<close>

text \<open>A notice to everybody that asks for an acknowledgement: two people receive it, one reads it.\<close>

definition two_people :: idb where
  "two_people = demo_idb\<lparr>people := people demo_idb @ [\<lparr>p_id = ''p2'', p_fullName = ''Bo'', p_email = None, p_ext = JNull\<rparr>]\<rparr>"

definition notice :: announcement where
  "notice = \<lparr>an_id = ''n1'', an_tenant = ''t1'', an_code = ''ANN-1'', an_title = ''Fire drill'', an_author = ''an'', an_audience = ''ALL'',
     an_target = None, an_priority = ''HIGH'', an_ack = True, an_publish = None, an_expire = None, an_state = ''DRAFT'', an_key = None\<rparr>"

definition notice_db :: andb where
  "notice_db = \<lparr>o_docs = [], o_versions = [], o_files = [], o_res = [], o_audit = [], o_org = two_people, o_seq = 0,
     announcements = [notice], receipts = [], an_events = []\<rparr>"

definition published :: "((ann_view \<times> nat \<times> nat) \<times> andb) res" where "published = publishAnnouncement demo_env ''t1'' ''an'' ''n1'' notice_db"
definition notice1 :: andb where "notice1 = snd (projr published)"
definition was_read :: "((receipt \<times> bool) \<times> andb) res" where "was_read = readAnnouncement demo_env ''t1'' ''an'' ''n1'' notice1"
definition notice2 :: andb where "notice2 = snd (projr was_read)"
definition reminded :: "(nat \<times> andb) res" where "reminded = remind demo_env ''t1'' ''an'' ''n1'' notice2"
definition notice3 :: andb where "notice3 = snd (projr reminded)"

definition notice2_report :: "(ann_counts \<times> receipt list) res" where "notice2_report = reportAnnouncement ''t1'' ''n1'' notice2"

lemma notice_runs:
  "is_ok published" "is_ok was_read" "is_ok reminded" "load_ann notice_db ''t1'' ''n1'' = Inr notice"
  "resolveAudience (o_org notice_db) (an_audience notice) (an_target notice) = [''p1'', ''p2'']" "fresh_receipts demo_env 2 notice_db"
  "map (\<lambda>r. (rc_id r, rc_read r)) (receipts notice2) = [(''id0'', Some 50), (''id1'', None)]"
  "is_ok (load_ann notice2 ''t1'' ''n1'')" "an_ack (projr (load_ann notice2 ''t1'' ''n1''))" "is_ok notice2_report"
  "map rc_read (snd (projr notice2_report)) = [Some 50, None]" "map rc_acked (snd (projr notice2_report)) = [None, None]"
  by code_simp+

lemma published_eq: "publishAnnouncement demo_env ''t1'' ''an'' ''n1'' notice_db = Inr (fst (projr published), notice1)"
  unfolding notice1_def published_def [symmetric] by (rule ok_pair) (rule notice_runs)

lemma was_read_eq: "readAnnouncement demo_env ''t1'' ''an'' ''n1'' notice1 = Inr (fst (projr was_read), notice2)"
  unfolding notice2_def was_read_def [symmetric] by (rule ok_pair) (rule notice_runs)

lemma reminded_eq: "remind demo_env ''t1'' ''an'' ''n1'' notice2 = Inr (fst (projr reminded), notice3)"
  unfolding notice3_def reminded_def [symmetric] by (rule ok_pair) (rule notice_runs)

lemma notice_db_ok: "ann_ok notice_db"
  by (simp add: ann_ok_def notice_db_def)

lemma first_publication: "ann_step c notice_db notice1"
proof (rule an_publication [OF published_eq])
  show "fresh_receipts demo_env (length (resolveAudience (o_org notice_db) (an_audience a) (an_target a))) notice_db"
    if "load_ann notice_db ''t1'' ''n1'' = Inr a" for a
    using that notice_runs(4-6) by (simp add: numeral_2_eq_2)
qed

lemma notice_run: "(ann_step c)\<^sup>*\<^sup>* notice_db notice2" "(ann_step c)\<^sup>*\<^sup>* notice2 notice3"
  by (rule rtranclp.rtrancl_into_rtrancl [OF r_into_rtranclp [of "ann_step c", OF first_publication] an_reading [OF was_read_eq]])
    (rule r_into_rtranclp [of "ann_step c", OF an_remind [OF reminded_eq]])

lemma notice2_ok: "ann_ok notice2"
  by (rule ann_steps_ok [OF notice_run(1) [of demo_codec] notice_db_ok])

lemma receipts_sound_witness: "length (filter (\<lambda>r. rc_ann r = ''n1'' \<and> rc_user r = ''p1'') (receipts notice2)) \<le> 1"
  using receipts_sound [OF notice_run(1) [of demo_codec] notice_db_ok] by blast

lemma receipt_stamps_kept_witness: "\<exists>q \<in> set (receipts notice3). rc_id q = ''id0'' \<and> rc_read q = Some 50"
proof -
  have "map (\<lambda>r. (rc_id r, rc_read r)) (receipts notice2) = [(''id0'', Some 50), (''id1'', None)]" by (rule notice_runs)
  then have "\<exists>r \<in> set (receipts notice2). rc_id r = ''id0'' \<and> rc_read r = Some 50" by (auto simp: Cons_eq_map_conv)
  then obtain r where "r \<in> set (receipts notice2)" "rc_id r = ''id0''" "rc_read r = Some 50" by blast
  with receipt_stamps_kept [OF notice_run(2) [of demo_codec] notice2_ok, of r] show ?thesis by fastforce
qed

lemma publish_reaches_audience_witness: "map rc_user (receipts_of notice1 ''t1'' ''n1'') = [''p1'', ''p2'']"
  using publish_reaches_audience [OF notice_db_ok notice_runs(4) published_eq] notice_runs(5) by simp

text \<open>One person has not read it, both are reminded.\<close>

lemma report_pending_unread_witness: "fst (projr reminded) = 2 \<and> ac_pending (fst (projr notice2_report)) = 1"
proof -
  have rep: "reportAnnouncement ''t1'' ''n1'' notice2 = Inr (fst (projr notice2_report), snd (projr notice2_report))"
    unfolding notice2_report_def [symmetric] by (rule ok_pair) (rule notice_runs)
  have l: "load_ann notice2 ''t1'' ''n1'' = Inr (projr (load_ann notice2 ''t1'' ''n1''))" by (rule ok_projr) (rule notice_runs)
  from report_pending_unread [OF notice2_ok l notice_runs(9) rep reminded_eq] notice_runs(11,12) show ?thesis
    by (auto simp: Cons_eq_map_conv)
qed

end
