(* ===== verification/Directives.thy ===== *)
theory Directives
  imports Lifecycle
begin

section \<open>Directives and the commitments against them\<close>

text \<open>
  xhub-api/src/directives/directives.service.ts: drafts, the issue that resolves an audience into one
  commitment per assignee, the actions on the directive, the actions of assignees and reviewers on a
  commitment, evidence, the list and the detail page. The tables extend \<open>odb\<close>. A progress is a whole
  number, as the column is.
\<close>

subsection \<open>State\<close>

record directive_row =
  dv_id :: string
  dv_tenant :: string
  dv_code :: string
  dv_title :: string
  dv_issuer :: string
  dv_audience :: string
  dv_target :: "string option"
  dv_priority :: string
  dv_due :: "int option"
  dv_state :: string
  dv_key :: "string option"

record commitment_row =
  da_id :: string
  da_tenant :: string
  da_directive :: string
  da_assignee :: string
  da_state :: string
  da_committed :: "int option"
  da_due :: "int option"
  da_progress :: "int option"
  da_note :: "string option"

record directive_log =
  dl_tenant :: string
  dl_directive :: string
  dl_type :: string
  dl_actor :: string

record dirdb = odb +
  dir_rows :: "directive_row list"
  dir_assign :: "commitment_row list"
  dir_events :: "directive_log list"

subsection \<open>Events, rows and legality\<close>

fun commitment_action_name :: "commitment_action \<Rightarrow> string" where
  "commitment_action_name C_acknowledge = ''acknowledge''"
| "commitment_action_name C_start = ''start''"
| "commitment_action_name C_submit = ''submit''"
| "commitment_action_name C_accept = ''accept''"
| "commitment_action_name C_return = ''return''"

definition directive_event :: "string \<Rightarrow> string \<Rightarrow> string \<Rightarrow> string \<Rightarrow> dirdb \<Rightarrow> dirdb" where
  "directive_event tenant i ty actor s =
     log_audit tenant actor i (''directive.'' @ ty)
       (s\<lparr>dir_events := dir_events s @ [\<lparr>dl_tenant = tenant, dl_directive = i, dl_type = ty, dl_actor = actor\<rparr>]\<rparr>)"

definition load_directive :: "dirdb \<Rightarrow> string \<Rightarrow> string \<Rightarrow> directive_row res" where
  "load_directive s tenant i =
     (case tfind (\<lambda>d. dv_id d = i \<and> dv_tenant d = tenant) (dir_rows s) of
        None \<Rightarrow> Inl (NotFound ''directive not found'') | Some d \<Rightarrow> Inr d)"

definition loadAssignment :: "dirdb \<Rightarrow> string \<Rightarrow> string \<Rightarrow> string \<Rightarrow> commitment_row res" where
  "loadAssignment s tenant i aid =
     (case tfind (\<lambda>a. da_id a = aid \<and> da_tenant a = tenant \<and> da_directive a = i) (dir_assign s) of
        None \<Rightarrow> Inl (NotFound ''directive assignment not found'') | Some a \<Rightarrow> Inr a)"

definition assertDirectiveLegal :: "directive_action \<Rightarrow> string \<Rightarrow> string res" where
  "assertDirectiveLegal a st =
     (case directiveNext a st of None \<Rightarrow> Inl (BadRequest ''Illegal directive transition'') | Some t \<Rightarrow> Inr t)"

definition assertCommitmentLegal :: "commitment_action \<Rightarrow> string \<Rightarrow> string res" where
  "assertCommitmentLegal a st =
     (case commitmentNext a st of None \<Rightarrow> Inl (BadRequest ''Illegal commitment transition'') | Some t \<Rightarrow> Inr t)"

definition set_directive :: "string \<Rightarrow> (directive_row \<Rightarrow> directive_row) \<Rightarrow> dirdb \<Rightarrow> dirdb" where
  "set_directive i f s = s\<lparr>dir_rows := tupd (\<lambda>d. dv_id d = i) f (dir_rows s)\<rparr>"

definition set_commitment :: "string \<Rightarrow> (commitment_row \<Rightarrow> commitment_row) \<Rightarrow> dirdb \<Rightarrow> dirdb" where
  "set_commitment i f s = s\<lparr>dir_assign := tupd (\<lambda>a. da_id a = i) f (dir_assign s)\<rparr>"

definition may_issue :: "dirdb \<Rightarrow> string \<Rightarrow> bool" where
  "may_issue s actor = (can (o_org s) actor ''directive.issue'' None = Granted)"

subsection \<open>Creation\<close>

record directive_in =
  vi_title :: string
  vi_audience :: "string option"
  vi_target :: "string option"
  vi_priority :: "string option"
  vi_due :: "int option"
  vi_code :: "string option"
  vi_key :: "string option"

definition directive_by_key :: "dirdb \<Rightarrow> string \<Rightarrow> string option \<Rightarrow> directive_row option" where
  "directive_by_key s tenant key =
     (if truthy_str key then tfind (\<lambda>d. dv_tenant d = tenant \<and> dv_key d = key) (dir_rows s) else None)"

definition directive_clash :: "dirdb \<Rightarrow> directive_row \<Rightarrow> bool" where
  "directive_clash s d = (\<exists>u \<in> set (dir_rows s). dv_tenant u = dv_tenant d \<and>
     (dv_code u = dv_code d \<or> (dv_key d \<noteq> None \<and> dv_key u = dv_key d)))"

definition new_directive :: "env \<Rightarrow> string \<Rightarrow> string \<Rightarrow> directive_in \<Rightarrow> dirdb \<Rightarrow> directive_row" where
  "new_directive v tenant actor b s =
     \<lparr>dv_id = oid v s, dv_tenant = tenant, dv_code = coalesce (vi_code b) (gen_code v ''DIR'' (o_seq s)), dv_title = vi_title b,
      dv_issuer = actor, dv_audience = to_upper (coalesce (vi_audience b) ''ORG_UNIT''), dv_target = vi_target b,
      dv_priority = to_upper (coalesce (vi_priority b) ''NORMAL''), dv_due = vi_due b, dv_state = ''DRAFT'',
      dv_key = (if truthy_str (vi_key b) then vi_key b else None)\<rparr>"

definition createDirective :: "env \<Rightarrow> string \<Rightarrow> string \<Rightarrow> directive_in \<Rightarrow> dirdb \<Rightarrow> ((directive_row \<times> bool) \<times> dirdb) res" where
  "createDirective v tenant actor b s =
     rbind (ensure (vi_title b \<noteq> []) (BadRequest ''title is required'')) (\<lambda>_.
     rbind (ensure (to_upper (coalesce (vi_audience b) ''ORG_UNIT'') \<in> {''ORG_UNIT'', ''POSITION'', ''USER'', ''GROUP''})
              (BadRequest ''audienceType must be one of ORG_UNIT/POSITION/USER/GROUP'')) (\<lambda>_.
       case directive_by_key s tenant (vi_key b) of
         Some d \<Rightarrow> Inr ((d, True), s)
       | None \<Rightarrow>
           (let d = new_directive v tenant actor b s
            in if directive_clash s d then
                 (case directive_by_key s tenant (vi_key b) of Some u \<Rightarrow> Inr ((u, True), s) | None \<Rightarrow> Inl UniqueViolation)
               else Inr ((d, False),
                      directive_event tenant (dv_id d) ''created'' actor (s\<lparr>dir_rows := dir_rows s @ [d], o_seq := Suc (o_seq s)\<rparr>)))))"

subsection \<open>Issue\<close>

text \<open>The selector of an audience; \<open>USER\<close> never gets here.\<close>

definition selectorForAudience :: "string \<Rightarrow> string option \<Rightarrow> selector" where
  "selectorForAudience aud target =
     (if aud = ''POSITION'' then (blank_selector SPosition)\<lparr>s_position := target, s_choice := Some ''MULTIPLE''\<rparr>
      else if aud = ''GROUP'' then (blank_selector SGroup)\<lparr>s_group := target, s_choice := Some ''MULTIPLE''\<rparr>
      else if aud = ''ORG_UNIT'' then (blank_selector SOrgUnitHead)\<lparr>s_orgUnit := target, s_choice := Some ''MULTIPLE''\<rparr>
      else blank_selector SRole)"

definition resolveOrgUnitMembers :: "idb \<Rightarrow> string \<Rightarrow> string list" where
  "resolveOrgUnitMembers d u =
     to_set (List.map_filter (\<lambda>h. if truthy_str h then h else None) (map po_holder (filter (\<lambda>q. po_orgUnit q = u) (positions d))))"

text \<open>The persons a directive addresses, and the database with the snapshot of the resolver.\<close>

definition directive_audience ::
  "(string \<Rightarrow> string \<Rightarrow> bool) \<Rightarrow> string \<Rightarrow> string \<Rightarrow> directive_row \<Rightarrow> dirdb \<Rightarrow> string list \<times> dirdb" where
  "directive_audience le tenant actor d s =
     (if dv_audience d = ''USER'' then
        ((if truthy_str (dv_target d)
          then [case personForUserId (o_org s) (the (dv_target d)) of None \<Rightarrow> the (dv_target d) | Some p \<Rightarrow> p_id p] else []), s)
      else
        (let (r, s1) = snapshot le tenant actor (dv_code d) ''directive-audience'' (selectorForAudience (dv_audience d) (dv_target d)) s
         in (if dv_audience d = ''ORG_UNIT'' \<and> truthy_str (dv_target d) then resolveOrgUnitMembers (o_org s) (the (dv_target d))
             else map cd_person (re_candidates r), s1)))"

definition new_commitment :: "env \<Rightarrow> string \<Rightarrow> directive_row \<Rightarrow> string \<Rightarrow> dirdb \<Rightarrow> commitment_row" where
  "new_commitment v tenant d person s =
     \<lparr>da_id = oid v s, da_tenant = tenant, da_directive = dv_id d, da_assignee = coalesce (userIdForPerson (o_org s) person) person,
      da_state = ''ASSIGNED'', da_committed = None, da_due = dv_due d, da_progress = None, da_note = None\<rparr>"

definition commit_one :: "env \<Rightarrow> string \<Rightarrow> directive_row \<Rightarrow> string \<Rightarrow> dirdb \<Rightarrow> dirdb" where
  "commit_one v tenant d person s = s\<lparr>dir_assign := dir_assign s @ [new_commitment v tenant d person s], o_seq := Suc (o_seq s)\<rparr>"

definition issueDirective ::
  "(string \<Rightarrow> string \<Rightarrow> bool) \<Rightarrow> env \<Rightarrow> string \<Rightarrow> string \<Rightarrow> string \<Rightarrow> dirdb \<Rightarrow> ((directive_row \<times> commitment_row list) \<times> dirdb) res" where
  "issueDirective le v tenant actor i s =
     rbind (load_directive s tenant i) (\<lambda>d.
     rbind (assertDirectiveLegal D_issue (dv_state d)) (\<lambda>to.
       let (ids, s1) = directive_audience le tenant actor d s
       in rbind (ensure (ids \<noteq> []) (BadRequest ''Cannot issue directive: audience resolved to 0 assignees'')) (\<lambda>_.
            let s2 = fold (commit_one v tenant d) ids s1;
                f = (\<lambda>d. d\<lparr>dv_state := to\<rparr>)
            in Inr ((f d, drop (length (dir_assign s)) (dir_assign s2)), directive_event tenant i ''issued'' actor (set_directive i f s2)))))"

subsection \<open>Actions\<close>

fun directive_action_name :: "directive_action \<Rightarrow> string" where
  "directive_action_name D_issue = ''issue''"
| "directive_action_name D_progress = ''progress''"
| "directive_action_name D_complete = ''complete''"
| "directive_action_name D_cancel = ''cancel''"

text \<open>The controller calls it with \<open>complete\<close> and \<open>cancel\<close> only.\<close>

definition directiveAct :: "string \<Rightarrow> string \<Rightarrow> string \<Rightarrow> directive_action \<Rightarrow> dirdb \<Rightarrow> (directive_row \<times> dirdb) res" where
  "directiveAct tenant actor i a s =
     rbind (load_directive s tenant i) (\<lambda>d.
     rbind (ensure (dv_issuer d = actor \<or> may_issue s actor) (Forbidden ''Only the issuer (or an EXECUTIVE) may act on this directive.'')) (\<lambda>_.
     rbind (assertDirectiveLegal a (dv_state d)) (\<lambda>to.
       let f = (\<lambda>d. d\<lparr>dv_state := to\<rparr>)
       in Inr (f d, directive_event tenant i (directive_action_name a) actor (set_directive i f s)))))"

definition assertCommitmentActor :: "dirdb \<Rightarrow> commitment_row \<Rightarrow> string \<Rightarrow> commitment_action \<Rightarrow> unit res" where
  "assertCommitmentActor s a actor x =
     (if x = C_accept \<or> x = C_return then Inr ()
      else if actor = da_assignee a then Inr ()
      else ensure (may_issue s actor) (Forbidden ''Only the assigned member or directive.issue may act on this commitment.''))"

text \<open>The columns an action writes, from the row that was loaded.\<close>

definition commitment_data ::
  "env \<Rightarrow> commitment_action \<Rightarrow> string \<Rightarrow> int option \<Rightarrow> string option \<Rightarrow> commitment_row \<Rightarrow> commitment_row \<Rightarrow> commitment_row" where
  "commitment_data v x to progress note a r =
     (let given = map_option (\<lambda>p. max 0 (min 100 p)) progress;
          p1 = (if x = C_accept then Some 100
                else if x = C_submit \<and> given = None \<and> da_progress a = None then Some 100 else given)
      in r\<lparr>da_state := to,
           da_progress := (if p1 = None then da_progress r else p1),
           da_note := (if note = None then da_note r else note),
           da_committed := (if x = C_submit then Some (coalesce (da_committed a) (now v)) else da_committed r)\<rparr>)"

definition commitmentAct ::
  "env \<Rightarrow> string \<Rightarrow> string \<Rightarrow> string \<Rightarrow> string \<Rightarrow> commitment_action \<Rightarrow> int option \<Rightarrow> string option \<Rightarrow> dirdb \<Rightarrow> (commitment_row \<times> dirdb) res" where
  "commitmentAct v tenant actor i aid x progress note s =
     rbind (load_directive s tenant i) (\<lambda>d.
     rbind (loadAssignment s tenant i aid) (\<lambda>a.
     rbind (assertCommitmentActor s a actor x) (\<lambda>_.
     rbind (assertCommitmentLegal x (da_state a)) (\<lambda>to.
       let f = commitment_data v x to progress note a;
           s1 = set_commitment aid f s;
           s2 = (if (x = C_acknowledge \<or> x = C_start) \<and> dv_state d = ''ISSUED''
                 then directive_event tenant i ''progress'' actor (set_directive i (\<lambda>d. d\<lparr>dv_state := ''IN_PROGRESS''\<rparr>) s1) else s1)
       in Inr (f a, directive_event tenant i (''commitment.'' @ commitment_action_name x) actor s2)))))"

definition evidenceDirective ::
  "codec \<Rightarrow> env \<Rightarrow> string \<Rightarrow> string \<Rightarrow> string \<Rightarrow> attach_in \<Rightarrow> dirdb \<Rightarrow> (doc_version \<times> dirdb) res" where
  "evidenceDirective c v tenant actor i b s =
     rbind (load_directive s tenant i) (\<lambda>d.
     rbind (createDocument c v tenant (Some actor)
              \<lparr>di_kind = Some ''EVIDENCE'', di_title = coalesce (at_title b) (''Evidence '' @ em_dash @ '' '' @ dv_code d),
               di_subjectType = Some ''Directive'', di_subjectId = Some i, di_tags = [''evidence'', ''directive''],
               di_content = \<lparr>ci_text = (if truthy_str (at_base64 b) then None
                   else Some (coalesce (at_content b) (''Evidence for '' @ dv_code d @ '': '' @ coalesce (at_note b) ''commitment evidence''))),
                 ci_base64 = (if truthy_str (at_base64 b) then at_base64 b else None),
                 ci_mime = Some (coalesce (at_mime b) ''text/plain'')\<rparr>\<rparr> s) (\<lambda>(d, row, s1).
       Inr (row, directive_event tenant i ''evidence_attached'' actor s1)))"

subsection \<open>Reads\<close>

record directive_filter =
  vf_scope :: "string option"
  vf_state :: "string option"
  vf_q :: "string option"

definition directive_matches :: "dirdb \<Rightarrow> string \<Rightarrow> string \<Rightarrow> directive_filter \<Rightarrow> directive_row \<Rightarrow> bool" where
  "directive_matches s tenant actor f d \<longleftrightarrow> dv_tenant d = tenant \<and>
     (vf_scope f = Some ''issued'' \<longrightarrow> dv_issuer d = actor) \<and>
     (truthy_str (vf_state f) \<longrightarrow> Some (dv_state d) = vf_state f) \<and>
     (truthy_str (vf_q f) \<longrightarrow> includes_str (to_lower (the (vf_q f))) (to_lower (dv_title d))) \<and>
     (vf_scope f = Some ''assigned'' \<longrightarrow>
        (\<exists>a \<in> set (dir_assign s). da_tenant a = tenant \<and> da_assignee a = actor \<and> da_directive a = dv_id d))"

definition commitments_of :: "dirdb \<Rightarrow> string \<Rightarrow> string \<Rightarrow> commitment_row list" where
  "commitments_of s tenant i = filter (\<lambda>a. da_tenant a = tenant \<and> da_directive a = i) (dir_assign s)"

record directive_view =
  vv_row :: directive_row
  vv_count :: nat
  vv_overdue :: bool
  vv_legal :: "directive_action list"

definition listDirectives ::
  "env \<Rightarrow> string \<Rightarrow> string \<Rightarrow> directive_filter \<Rightarrow> int option \<Rightarrow> int option \<Rightarrow> dirdb \<Rightarrow> directive_view list \<times> nat \<times> nat \<times> nat" where
  "listDirectives v tenant actor f page pageSize s =
     (let rows = map (\<lambda>d. \<lparr>vv_row = d, vv_count = length (commitments_of s tenant (dv_id d)),
                         vv_overdue = directive_isOverdue (now v) (dv_due d) (dv_state d) DIRECTIVE_TERMINAL,
                         vv_legal = directiveLegalActions (dv_state d)\<rparr>)
                   (rev (filter (directive_matches s tenant actor f) (dir_rows s)));
          p = page_no page; sz = page_size 100 20 pageSize
      in (page_slice p sz rows, length rows, p, sz))"

record commitment_view =
  wv_row :: commitment_row
  wv_overdue :: bool
  wv_legal :: "commitment_action list"

record directive_page =
  vp_row :: directive_row
  vp_overdue :: bool
  vp_legal :: "directive_action list"
  vp_assign :: "commitment_view list"
  vp_events :: "directive_log list"
  vp_evidence :: "(doc_row \<times> nat) list"

definition getDirective :: "env \<Rightarrow> string \<Rightarrow> string \<Rightarrow> dirdb \<Rightarrow> directive_page res" where
  "getDirective v tenant i s =
     rbind (load_directive s tenant i) (\<lambda>d.
       Inr \<lparr>vp_row = d, vp_overdue = directive_isOverdue (now v) (dv_due d) (dv_state d) DIRECTIVE_TERMINAL,
            vp_legal = directiveLegalActions (dv_state d),
            vp_assign = map (\<lambda>a. \<lparr>wv_row = a, wv_overdue = directive_isOverdue (now v) (da_due a) (da_state a) COMMITMENT_TERMINAL,
                            wv_legal = commitmentLegalActions (da_state a)\<rparr>) (commitments_of s tenant i),
            vp_events = filter (\<lambda>e. dl_tenant e = tenant \<and> dl_directive e = i) (dir_events s),
            vp_evidence = listDocuments tenant None (Some ''Directive'') (Some i) s\<rparr>)"


subsection \<open>The journal\<close>

definition directive_event_action :: "string \<Rightarrow> directive_action option" where
  "directive_event_action ty =
     (if ty = ''issued'' then Some D_issue else if ty = ''progress'' then Some D_progress
      else if ty = ''complete'' then Some D_complete else if ty = ''cancel'' then Some D_cancel else None)"

definition directive_history :: "dirdb \<Rightarrow> (string \<times> directive_action) list" where
  "directive_history s = history_of dl_directive (\<lambda>e. directive_event_action (dl_type e)) (dir_events s)"

definition directive_journal :: "dirdb \<Rightarrow> directive_action journal" where
  "directive_journal s = (map (\<lambda>d. (dv_id d, dv_state d)) (dir_rows s), directive_history s)"

lemma directive_event_actions [simp]:
  "directive_event_action ''created'' = None" "directive_event_action ''evidence_attached'' = None"
  "directive_event_action ''issued'' = Some D_issue" "directive_event_action ''progress'' = Some D_progress"
  "directive_event_action ''complete'' = Some D_complete" "directive_event_action ''cancel'' = Some D_cancel"
  "directive_event_action (CHR ''c'' # CHR ''o'' # CHR ''m'' # CHR ''m'' # ty) = None"
  by (simp_all add: directive_event_action_def)

lemma directive_frames [simp]:
  "dir_rows (directive_event t i ty a s) = dir_rows s" "dir_assign (directive_event t i ty a s) = dir_assign s"
  "directive_history (directive_event t i ty a s) =
     directive_history s @ (case directive_event_action ty of None \<Rightarrow> [] | Some x \<Rightarrow> [(i, x)])"
  "dir_rows (set_directive i f s) = tupd (\<lambda>d. dv_id d = i) f (dir_rows s)" "dir_assign (set_directive i f s) = dir_assign s"
  "directive_history (set_directive i f s) = directive_history s"
  "dir_rows (set_commitment i g s) = dir_rows s" "dir_assign (set_commitment i g s) = tupd (\<lambda>a. da_id a = i) g (dir_assign s)"
  "directive_history (set_commitment i g s) = directive_history s"
  by (simp_all add: directive_event_def set_directive_def set_commitment_def directive_history_def log_audit_def split: option.split)

lemma load_directive_InrD: "load_directive s tenant i = Inr d \<Longrightarrow> d \<in> set (dir_rows s) \<and> dv_id d = i \<and> dv_tenant d = tenant"
  by (auto simp: load_directive_def split: option.splits dest: tfind_SomeD)

lemma loadAssignment_InrD:
  "loadAssignment s tenant i aid = Inr a \<Longrightarrow> a \<in> set (dir_assign s) \<and> da_id a = aid \<and> da_tenant a = tenant \<and> da_directive a = i"
  by (auto simp: loadAssignment_def split: option.splits dest: tfind_SomeD)

lemma audience_frames:
  "directive_audience le tenant actor d s = (ids, s1) \<Longrightarrow>
     dir_rows s1 = dir_rows s \<and> dir_assign s1 = dir_assign s \<and> dir_events s1 = dir_events s \<and> o_seq s1 = o_seq s \<and> o_org s1 = o_org s"
  by (auto simp: directive_audience_def snapshot_def log_audit_def Let_def split: if_splits)

subsection \<open>Commitments of an issue\<close>

text \<open>The \<open>k\<close>-th person of the audience gets the row with the \<open>k\<close>-th id.\<close>

definition commitment_rows :: "env \<Rightarrow> string \<Rightarrow> directive_row \<Rightarrow> idb \<Rightarrow> nat \<Rightarrow> string list \<Rightarrow> commitment_row list" where
  "commitment_rows v tenant d org n ids =
     map (\<lambda>(k, p). \<lparr>da_id = cuid v k, da_tenant = tenant, da_directive = dv_id d, da_assignee = coalesce (userIdForPerson org p) p,
        da_state = ''ASSIGNED'', da_committed = None, da_due = dv_due d, da_progress = None, da_note = None\<rparr>)
       (zip [n..<n + length ids] ids)"

lemma commitment_rows_simps [simp]:
  "commitment_rows v t d org n [] = []"
  "commitment_rows v t d org n (p # ids) =
     \<lparr>da_id = cuid v n, da_tenant = t, da_directive = dv_id d, da_assignee = coalesce (userIdForPerson org p) p,
      da_state = ''ASSIGNED'', da_committed = None, da_due = dv_due d, da_progress = None, da_note = None\<rparr> #
     commitment_rows v t d org (Suc n) ids"
proof -
  have "[n..<n + length (p # ids)] = n # [Suc n..<Suc n + length ids]" by (simp add: upt_conv_Cons del: upt_Suc)
  then show "commitment_rows v t d org n (p # ids) =
     \<lparr>da_id = cuid v n, da_tenant = t, da_directive = dv_id d, da_assignee = coalesce (userIdForPerson org p) p,
      da_state = ''ASSIGNED'', da_committed = None, da_due = dv_due d, da_progress = None, da_note = None\<rparr> #
     commitment_rows v t d org (Suc n) ids" by (simp add: commitment_rows_def del: upt_Suc)
qed (simp add: commitment_rows_def)

lemma commit_all:
  "dir_assign (fold (commit_one v t d) ids s) = dir_assign s @ commitment_rows v t d (o_org s) (o_seq s) ids"
  "dir_rows (fold (commit_one v t d) ids s) = dir_rows s" "dir_events (fold (commit_one v t d) ids s) = dir_events s"
  by (induction ids arbitrary: s) (simp_all add: commit_one_def new_commitment_def oid_def)

lemma commitment_rows_cols:
  "map da_id (commitment_rows v t d org n ids) = map (cuid v) [n..<n + length ids]"
  "map da_assignee (commitment_rows v t d org n ids) = map (\<lambda>p. coalesce (userIdForPerson org p) p) ids"
  "a \<in> set (commitment_rows v t d org n ids) \<Longrightarrow> da_tenant a = t \<and> da_directive a = dv_id d \<and> da_state a = ''ASSIGNED'' \<and>
     da_committed a = None \<and> da_due a = dv_due d \<and> da_progress a = None"
  "commitment_rows v t d org n ids = [] \<longleftrightarrow> ids = []"
proof -
  show "map da_id (commitment_rows v t d org n ids) = map (cuid v) [n..<n + length ids]"
    by (induction ids arbitrary: n) (simp_all add: upt_conv_Cons del: upt_Suc)
  show "map da_assignee (commitment_rows v t d org n ids) = map (\<lambda>p. coalesce (userIdForPerson org p) p) ids"
    by (induction ids arbitrary: n) simp_all
  show "a \<in> set (commitment_rows v t d org n ids) \<Longrightarrow> da_tenant a = t \<and> da_directive a = dv_id d \<and> da_state a = ''ASSIGNED'' \<and>
     da_committed a = None \<and> da_due a = dv_due d \<and> da_progress a = None"
    by (induction ids arbitrary: n) auto
  show "commitment_rows v t d org n ids = [] \<longleftrightarrow> ids = []" by (cases ids) simp_all
qed

definition fresh_commitments :: "env \<Rightarrow> nat \<Rightarrow> dirdb \<Rightarrow> bool" where
  "fresh_commitments v n s \<longleftrightarrow> (let ids = map (cuid v) [o_seq s..<o_seq s + n] in distinct ids \<and> set ids \<inter> da_id ` set (dir_assign s) = {})"

subsection \<open>Effects\<close>

text \<open>A commitment's columns fit its state.\<close>

definition commitment_fine :: "commitment_row \<Rightarrow> bool" where
  "commitment_fine a \<longleftrightarrow> (\<forall>p. da_progress a = Some p \<longrightarrow> 0 \<le> p \<and> p \<le> 100) \<and>
     (da_state a \<in> {''SUBMITTED'', ''ACCEPTED'', ''RETURNED''} \<longrightarrow> da_committed a \<noteq> None \<and> da_progress a \<noteq> None) \<and>
     (da_state a = ''ACCEPTED'' \<longrightarrow> da_progress a = Some 100)"

lemma commitment_data_cols [simp]:
  "da_id (commitment_data v x to p n a r) = da_id r" "da_tenant (commitment_data v x to p n a r) = da_tenant r"
  "da_directive (commitment_data v x to p n a r) = da_directive r" "da_due (commitment_data v x to p n a r) = da_due r"
  "da_state (commitment_data v x to p n a r) = to" "da_assignee (commitment_data v x to p n a r) = da_assignee r"
  by (simp_all add: commitment_data_def Let_def)

lemma commitment_data_fine:
  assumes "commitment_fine a" "commitmentNext x (da_state a) = Some to"
  shows "commitment_fine (commitment_data v x to p n a a)"
  using assms by (cases x; cases p) (auto simp: commitment_fine_def commitment_data_def commitmentNext_def table_next_def split: if_splits)

lemma commitment_leaves: "commitmentNext x st = Some to \<Longrightarrow> to \<noteq> ''ASSIGNED''"
  by (cases x) (auto simp: commitmentNext_def table_next_def split: if_splits)

lemma from_assigned: "commitmentNext x ''ASSIGNED'' = Some to \<Longrightarrow> x = C_acknowledge"
  by (cases x) (auto simp: commitmentNext_def table_next_def split: if_splits)

inductive dir_effect :: "dirdb \<Rightarrow> dirdb \<Rightarrow> bool" where
  de_idle: "dir_rows s' = dir_rows s \<Longrightarrow> dir_assign s' = dir_assign s \<Longrightarrow> directive_history s' = directive_history s \<Longrightarrow> dir_effect s s'"
| de_new: "dv_id d \<notin> dv_id ` set (dir_rows s) \<Longrightarrow> dv_state d = ''DRAFT'' \<Longrightarrow> dir_rows s' = dir_rows s @ [d] \<Longrightarrow>
    dir_assign s' = dir_assign s \<Longrightarrow> directive_history s' = directive_history s \<Longrightarrow> dir_effect s s'"
| de_issue: "d \<in> set (dir_rows s) \<Longrightarrow> dv_state d = ''DRAFT'' \<Longrightarrow> new \<noteq> [] \<Longrightarrow>
    dir_rows s' = tupd (\<lambda>r. dv_id r = dv_id d) (\<lambda>r. r\<lparr>dv_state := ''ISSUED''\<rparr>) (dir_rows s) \<Longrightarrow>
    dir_assign s' = dir_assign s @ new \<Longrightarrow> distinct (map da_id new) \<Longrightarrow> da_id ` set new \<inter> da_id ` set (dir_assign s) = {} \<Longrightarrow>
    (\<And>a. a \<in> set new \<Longrightarrow> da_tenant a = dv_tenant d \<and> da_directive a = dv_id d \<and> da_state a = ''ASSIGNED'' \<and>
       da_committed a = None \<and> da_due a = dv_due d \<and> da_progress a = None) \<Longrightarrow>
    directive_history s' = directive_history s @ [(dv_id d, D_issue)] \<Longrightarrow> dir_effect s s'"
| de_act: "d \<in> set (dir_rows s) \<Longrightarrow> x = D_complete \<or> x = D_cancel \<Longrightarrow> directiveNext x (dv_state d) = Some to \<Longrightarrow>
    dir_rows s' = tupd (\<lambda>r. dv_id r = dv_id d) (\<lambda>r. r\<lparr>dv_state := to\<rparr>) (dir_rows s) \<Longrightarrow> dir_assign s' = dir_assign s \<Longrightarrow>
    directive_history s' = directive_history s @ [(dv_id d, x)] \<Longrightarrow> dir_effect s s'"
| de_commit: "d \<in> set (dir_rows s) \<Longrightarrow> a \<in> set (dir_assign s) \<Longrightarrow> da_directive a = dv_id d \<Longrightarrow> da_tenant a = dv_tenant d \<Longrightarrow>
    commitmentNext x (da_state a) = Some to \<Longrightarrow>
    dir_assign s' = tupd (\<lambda>r. da_id r = da_id a) (commitment_data v x to p n a) (dir_assign s) \<Longrightarrow>
    (if (x = C_acknowledge \<or> x = C_start) \<and> dv_state d = ''ISSUED''
     then dir_rows s' = tupd (\<lambda>r. dv_id r = dv_id d) (\<lambda>r. r\<lparr>dv_state := ''IN_PROGRESS''\<rparr>) (dir_rows s) \<and>
       directive_history s' = directive_history s @ [(dv_id d, D_progress)]
     else dir_rows s' = dir_rows s \<and> directive_history s' = directive_history s) \<Longrightarrow> dir_effect s s'"


definition dirs_ok :: "dirdb \<Rightarrow> bool" where
  "dirs_ok s \<longleftrightarrow> distinct (map dv_id (dir_rows s)) \<and> distinct (map da_id (dir_assign s)) \<and>
     (\<forall>a \<in> set (dir_assign s). commitment_fine a \<and>
        (\<exists>d \<in> set (dir_rows s). dv_id d = da_directive a \<and> dv_tenant d = da_tenant a \<and> dv_due d = da_due a \<and>
           dv_state d \<noteq> ''DRAFT'' \<and> (dv_state d = ''ISSUED'' \<longrightarrow> da_state a = ''ASSIGNED''))) \<and>
     (\<forall>d \<in> set (dir_rows s). dv_state d \<in> {''ISSUED'', ''IN_PROGRESS'', ''COMPLETED''} \<longrightarrow>
        (\<exists>a \<in> set (dir_assign s). da_directive a = dv_id d \<and> da_tenant a = dv_tenant d \<and>
           (dv_state d = ''IN_PROGRESS'' \<longrightarrow> da_state a \<noteq> ''ASSIGNED'')))"

lemma dirs_okD:
  assumes "dirs_ok s"
  shows "distinct (map dv_id (dir_rows s))" "distinct (map da_id (dir_assign s))"
    "a \<in> set (dir_assign s) \<Longrightarrow> commitment_fine a"
    "a \<in> set (dir_assign s) \<Longrightarrow> \<exists>d \<in> set (dir_rows s). dv_id d = da_directive a \<and> dv_tenant d = da_tenant a \<and> dv_due d = da_due a \<and>
       dv_state d \<noteq> ''DRAFT'' \<and> (dv_state d = ''ISSUED'' \<longrightarrow> da_state a = ''ASSIGNED'')"
    "d \<in> set (dir_rows s) \<Longrightarrow> dv_state d \<in> {''ISSUED'', ''IN_PROGRESS'', ''COMPLETED''} \<Longrightarrow>
       \<exists>a \<in> set (dir_assign s). da_directive a = dv_id d \<and> da_tenant a = dv_tenant d \<and> (dv_state d = ''IN_PROGRESS'' \<longrightarrow> da_state a \<noteq> ''ASSIGNED'')"
  using assms unfolding dirs_ok_def by blast+

lemma row_at: "dirs_ok s \<Longrightarrow> d \<in> set (dir_rows s) \<Longrightarrow> e \<in> set (dir_rows s) \<Longrightarrow> dv_id e = dv_id d \<Longrightarrow> e = d"
  using distinct_column_unique [of dv_id "dir_rows s" e d] dirs_okD(1) [of s] by simp

lemma commitment_at: "dirs_ok s \<Longrightarrow> a \<in> set (dir_assign s) \<Longrightarrow> b \<in> set (dir_assign s) \<Longrightarrow> da_id b = da_id a \<Longrightarrow> b = a"
  using distinct_column_unique [of da_id "dir_assign s" b a] dirs_okD(2) [of s] by simp

text \<open>Moving the state of one directive, with its commitments as they are or with new ones.\<close>

lemma move_ids: "map dv_id (tupd (\<lambda>r. dv_id r = i) (\<lambda>r. r\<lparr>dv_state := to\<rparr>) rs) = map dv_id rs"
  by (rule map_tupd_frame) simp

lemma in_move: "r \<in> set rs \<Longrightarrow> (if dv_id r = i then r\<lparr>dv_state := to\<rparr> else r) \<in> set (tupd (\<lambda>r. dv_id r = i) (\<lambda>r. r\<lparr>dv_state := to\<rparr>) rs)"
  by (auto simp: set_tupd)

lemma act_ok:
  assumes ok: "dirs_ok s" and d: "d \<in> set (dir_rows s)" and to: "to = ''COMPLETED'' \<or> to = ''CANCELLED''"
    and comp: "to = ''COMPLETED'' \<Longrightarrow> dv_state d \<in> {''ISSUED'', ''IN_PROGRESS'', ''COMPLETED''}"
    and rows: "dir_rows s' = tupd (\<lambda>r. dv_id r = dv_id d) (\<lambda>r. r\<lparr>dv_state := to\<rparr>) (dir_rows s)" and same: "dir_assign s' = dir_assign s"
  shows "dirs_ok s'"
proof -
  have "\<exists>e \<in> set (dir_rows s'). dv_id e = da_directive a \<and> dv_tenant e = da_tenant a \<and> dv_due e = da_due a \<and>
      dv_state e \<noteq> ''DRAFT'' \<and> (dv_state e = ''ISSUED'' \<longrightarrow> da_state a = ''ASSIGNED'')" if "a \<in> set (dir_assign s)" for a
  proof -
    from dirs_okD(4) [OF ok that] obtain e where e: "e \<in> set (dir_rows s)" "dv_id e = da_directive a" "dv_tenant e = da_tenant a"
      "dv_due e = da_due a" "dv_state e \<noteq> ''DRAFT''" "dv_state e = ''ISSUED'' \<longrightarrow> da_state a = ''ASSIGNED''" by blast
    show ?thesis
      unfolding rows by (rule bexI [OF _ in_move [OF e(1)]]) (use e(2-6) to in auto)
  qed
  moreover have "\<exists>a \<in> set (dir_assign s). da_directive a = dv_id e \<and> da_tenant a = dv_tenant e \<and> (dv_state e = ''IN_PROGRESS'' \<longrightarrow> da_state a \<noteq> ''ASSIGNED'')"
    if "e \<in> set (dir_rows s')" "dv_state e \<in> {''ISSUED'', ''IN_PROGRESS'', ''COMPLETED''}" for e
    using that(1) unfolding rows
  proof (cases rule: in_set_tupdE)
    case (new e0)
    then have e0: "e0 = d" using row_at [OF ok d] by blast
    then have "to = ''COMPLETED''" using new that(2) to by auto
    with comp dirs_okD(5) [OF ok d] new e0 show ?thesis by fastforce
  next
    case old
    with dirs_okD(5) [OF ok] that(2) show ?thesis by blast
  qed
  moreover have "distinct (map dv_id (dir_rows s'))" using dirs_okD(1) [OF ok] by (simp add: rows move_ids)
  ultimately show ?thesis using dirs_okD(2,3) [OF ok] unfolding dirs_ok_def same by blast
qed

lemma issue_ok:
  assumes ok: "dirs_ok s" and d: "d \<in> set (dir_rows s)" "dv_state d = ''DRAFT''" and new: "new \<noteq> []"
    and rows: "dir_rows s' = tupd (\<lambda>r. dv_id r = dv_id d) (\<lambda>r. r\<lparr>dv_state := ''ISSUED''\<rparr>) (dir_rows s)"
    and assign: "dir_assign s' = dir_assign s @ new" "distinct (map da_id new)" "da_id ` set new \<inter> da_id ` set (dir_assign s) = {}"
    and each: "\<And>a. a \<in> set new \<Longrightarrow> da_tenant a = dv_tenant d \<and> da_directive a = dv_id d \<and> da_state a = ''ASSIGNED'' \<and>
       da_committed a = None \<and> da_due a = dv_due d \<and> da_progress a = None"
  shows "dirs_ok s'"
proof -
  have moved: "d\<lparr>dv_state := ''ISSUED''\<rparr> \<in> set (dir_rows s')" using in_move [OF d(1), of "dv_id d" "''ISSUED''"] by (simp add: rows)
  have "commitment_fine a \<and> (\<exists>e \<in> set (dir_rows s'). dv_id e = da_directive a \<and> dv_tenant e = da_tenant a \<and> dv_due e = da_due a \<and>
      dv_state e \<noteq> ''DRAFT'' \<and> (dv_state e = ''ISSUED'' \<longrightarrow> da_state a = ''ASSIGNED''))" if "a \<in> set (dir_assign s')" for a
  proof (cases "a \<in> set new")
    case True
    with each have "commitment_fine a" by (simp add: commitment_fine_def)
    moreover have "\<exists>e \<in> set (dir_rows s'). dv_id e = da_directive a \<and> dv_tenant e = da_tenant a \<and> dv_due e = da_due a \<and>
      dv_state e \<noteq> ''DRAFT'' \<and> (dv_state e = ''ISSUED'' \<longrightarrow> da_state a = ''ASSIGNED'')"
      by (rule bexI [OF _ moved]) (use each [OF True] in simp)
    ultimately show ?thesis by blast
  next
    case False
    with that assign(1) have a: "a \<in> set (dir_assign s)" by simp
    from dirs_okD(4) [OF ok a] obtain e where e: "e \<in> set (dir_rows s)" "dv_id e = da_directive a" "dv_tenant e = da_tenant a"
      "dv_due e = da_due a" "dv_state e \<noteq> ''DRAFT''" "dv_state e = ''ISSUED'' \<longrightarrow> da_state a = ''ASSIGNED''" by blast
    then have "dv_id e \<noteq> dv_id d" using row_at [OF ok d(1) e(1)] d(2) by auto
    with in_move [OF e(1), of "dv_id d" "''ISSUED''"] have "e \<in> set (dir_rows s')" by (simp add: rows)
    with e dirs_okD(3) [OF ok a] show ?thesis by blast
  qed
  moreover have "\<exists>a \<in> set (dir_assign s'). da_directive a = dv_id e \<and> da_tenant a = dv_tenant e \<and> (dv_state e = ''IN_PROGRESS'' \<longrightarrow> da_state a \<noteq> ''ASSIGNED'')"
    if "e \<in> set (dir_rows s')" "dv_state e \<in> {''ISSUED'', ''IN_PROGRESS'', ''COMPLETED''}" for e
    using that(1) unfolding rows
  proof (cases rule: in_set_tupdE)
    case (new e0)
    then have e0: "e0 = d" using row_at [OF ok d(1)] by blast
    obtain a where "a \<in> set new" using \<open>new \<noteq> []\<close> by (cases new) auto
    with each e0 new assign(1) show ?thesis by fastforce
  next
    case old
    with dirs_okD(5) [OF ok] that(2) assign(1) show ?thesis by fastforce
  qed
  moreover have "distinct (map dv_id (dir_rows s'))" using dirs_okD(1) [OF ok] by (simp add: rows move_ids)
  moreover have "distinct (map da_id (dir_assign s'))" using dirs_okD(2) [OF ok] assign by auto
  ultimately show ?thesis unfolding dirs_ok_def by blast
qed


lemma commit_ok:
  assumes ok: "dirs_ok s" and d: "d \<in> set (dir_rows s)" and a: "a \<in> set (dir_assign s)" "da_directive a = dv_id d" "da_tenant a = dv_tenant d"
    and legal: "commitmentNext x (da_state a) = Some to"
    and assign: "dir_assign s' = tupd (\<lambda>r. da_id r = da_id a) (commitment_data v x to p n a) (dir_assign s)"
    and rows: "if (x = C_acknowledge \<or> x = C_start) \<and> dv_state d = ''ISSUED''
      then dir_rows s' = tupd (\<lambda>r. dv_id r = dv_id d) (\<lambda>r. r\<lparr>dv_state := ''IN_PROGRESS''\<rparr>) (dir_rows s) else dir_rows s' = dir_rows s"
  shows "dirs_ok s'"
proof -
  let ?f = "commitment_data v x to p n a"
  have ids: "map da_id (dir_assign s') = map da_id (dir_assign s)" unfolding assign by (rule map_tupd_frame) simp
  have ids': "map dv_id (dir_rows s') = map dv_id (dir_rows s)" using rows by (auto simp: move_ids split: if_splits)
  have leaves: "to \<noteq> ''ASSIGNED''" by (rule commitment_leaves [OF legal])
  text \<open>Work on an issued directive is its first: it moves the directive on.\<close>
  have first: "x = C_acknowledge" if "dv_state d = ''ISSUED''"
    using dirs_okD(4) [OF ok a(1)] row_at [OF ok d] a(2) that from_assigned legal by metis
  have same: "\<exists>y \<in> set (dir_rows s'). dv_id y = dv_id e \<and> dv_tenant y = dv_tenant e \<and> dv_due y = dv_due e \<and>
      (dv_state y = dv_state e \<or> dv_state e = ''ISSUED'' \<and> dv_state y = ''IN_PROGRESS'' \<and> e = d) \<and> (e = d \<longrightarrow> dv_state y \<noteq> ''ISSUED'')"
    if "e \<in> set (dir_rows s)" for e
  proof (cases "dv_state d = ''ISSUED''")
    case True
    with rows first have r: "dir_rows s' = tupd (\<lambda>r. dv_id r = dv_id d) (\<lambda>r. r\<lparr>dv_state := ''IN_PROGRESS''\<rparr>) (dir_rows s)" by simp
    show ?thesis unfolding r
      by (rule bexI [OF _ in_move [OF that]]) (use True row_at [OF ok d that] in auto)
  next
    case False
    with rows that show ?thesis by auto
  qed
  have "commitment_fine b \<and> (\<exists>e \<in> set (dir_rows s'). dv_id e = da_directive b \<and> dv_tenant e = da_tenant b \<and> dv_due e = da_due b \<and>
      dv_state e \<noteq> ''DRAFT'' \<and> (dv_state e = ''ISSUED'' \<longrightarrow> da_state b = ''ASSIGNED''))" if "b \<in> set (dir_assign s')" for b
    using that unfolding assign
  proof (cases rule: in_set_tupdE)
    case (new b0)
    then have b0: "b0 = a" using commitment_at [OF ok a(1)] by blast
    obtain e where e: "e \<in> set (dir_rows s)" "dv_id e = da_directive a" "dv_tenant e = da_tenant a" "dv_due e = da_due a" "dv_state e \<noteq> ''DRAFT''"
      using dirs_okD(4) [OF ok a(1)] by blast
    then have "e = d" using row_at [OF ok d e(1)] a(2) by simp
    with same [OF e(1)] e obtain y where "y \<in> set (dir_rows s')" "dv_id y = da_directive b" "dv_tenant y = da_tenant b" "dv_due y = da_due b"
      "dv_state y \<noteq> ''DRAFT''" "dv_state y \<noteq> ''ISSUED''" unfolding new(3) b0 by (auto simp: new(3) b0)
    with commitment_data_fine [OF dirs_okD(3) [OF ok a(1)] legal] new(3) b0 show ?thesis by blast
  next
    case old
    obtain e where e: "e \<in> set (dir_rows s)" "dv_id e = da_directive b" "dv_tenant e = da_tenant b" "dv_due e = da_due b"
      "dv_state e \<noteq> ''DRAFT''" "dv_state e = ''ISSUED'' \<longrightarrow> da_state b = ''ASSIGNED''" using dirs_okD(4) [OF ok old(1)] by blast
    with same [OF e(1)] dirs_okD(3) [OF ok old(1)] show ?thesis by fastforce
  qed
  moreover have "\<exists>b \<in> set (dir_assign s'). da_directive b = dv_id e \<and> da_tenant b = dv_tenant e \<and> (dv_state e = ''IN_PROGRESS'' \<longrightarrow> da_state b \<noteq> ''ASSIGNED'')"
    if e: "e \<in> set (dir_rows s')" "dv_state e \<in> {''ISSUED'', ''IN_PROGRESS'', ''COMPLETED''}" for e
  proof (cases "dv_id e = dv_id d \<and> dv_tenant e = dv_tenant d")
    case True
    have "?f a \<in> set (dir_assign s')" unfolding assign using a(1) by (force simp: set_tupd)
    then show ?thesis using a(2,3) True leaves by (intro bexI [of _ "?f a"]) simp_all
  next
    case False
    have "e \<in> set (dir_rows s)"
    proof (cases "dir_rows s' = dir_rows s")
      case False
      then have r: "dir_rows s' = tupd (\<lambda>r. dv_id r = dv_id d) (\<lambda>r. r\<lparr>dv_state := ''IN_PROGRESS''\<rparr>) (dir_rows s)"
        using rows unfolding if_bool_eq_conj by blast
      from e(1) show ?thesis unfolding r
        using \<open>\<not> (dv_id e = dv_id d \<and> dv_tenant e = dv_tenant d)\<close> row_at [OF ok d] by (cases rule: in_set_tupdE) auto
    qed (use e(1) in simp)
    from dirs_okD(5) [OF ok this e(2)] obtain b where b: "b \<in> set (dir_assign s)" "da_directive b = dv_id e" "da_tenant b = dv_tenant e"
      "dv_state e = ''IN_PROGRESS'' \<longrightarrow> da_state b \<noteq> ''ASSIGNED''" by blast
    then have "b \<in> set (dir_assign s')" unfolding assign using False a commitment_at [OF ok a(1) b(1)] by (force simp: set_tupd)
    with b show ?thesis by blast
  qed
  moreover have "distinct (map dv_id (dir_rows s'))" "distinct (map da_id (dir_assign s'))"
    unfolding ids ids' by (rule dirs_okD(1,2) [OF ok])+
  ultimately show ?thesis unfolding dirs_ok_def by blast
qed

lemma dir_effect_ok:
  assumes "dir_effect s s'" "dirs_ok s"
  shows "dirs_ok s'"
  using assms(1)
proof cases
  case de_idle
  with assms(2) show ?thesis by (simp add: dirs_ok_def)
next
  case (de_new d)
  with assms(2) show ?thesis by (auto simp: dirs_ok_def)
next
  case (de_issue d new)
  then show ?thesis by (intro issue_ok [OF assms(2), of d new s']) auto
next
  case (de_act d x to)
  then have "to = ''COMPLETED'' \<or> to = ''CANCELLED''" "to = ''COMPLETED'' \<Longrightarrow> dv_state d \<in> {''ISSUED'', ''IN_PROGRESS'', ''COMPLETED''}"
    by (auto simp: directiveNext_def table_next_def split: if_splits)
  with act_ok [OF assms(2) de_act(1)] de_act show ?thesis by blast
next
  case (de_commit d a x to v p n)
  from de_commit(7) have "if (x = C_acknowledge \<or> x = C_start) \<and> dv_state d = ''ISSUED''
      then dir_rows s' = tupd (\<lambda>r. dv_id r = dv_id d) (\<lambda>r. r\<lparr>dv_state := ''IN_PROGRESS''\<rparr>) (dir_rows s) else dir_rows s' = dir_rows s"
    by (auto split: if_splits)
  from commit_ok [OF assms(2) de_commit(1-6) this] show ?thesis .
qed


subsection \<open>Steps of the module\<close>

inductive dir_step :: "(string \<Rightarrow> string \<Rightarrow> bool) \<Rightarrow> codec \<Rightarrow> dirdb \<Rightarrow> dirdb \<Rightarrow> bool" for le c where
  ds_create: "createDirective v tenant actor b s = Inr (w, s') \<Longrightarrow> oid v s \<notin> dv_id ` set (dir_rows s) \<Longrightarrow> dir_step le c s s'"
| ds_issue: "issueDirective le v tenant actor i s = Inr (w, s') \<Longrightarrow>
     (\<And>d. load_directive s tenant i = Inr d \<Longrightarrow> fresh_commitments v (length (fst (directive_audience le tenant actor d s))) s) \<Longrightarrow>
     dir_step le c s s'"
| ds_act: "directiveAct tenant actor i x s = Inr (d, s') \<Longrightarrow> x = D_complete \<or> x = D_cancel \<Longrightarrow> dir_step le c s s'"
| ds_commit: "commitmentAct v tenant actor i aid y progress note s = Inr (a, s') \<Longrightarrow> dir_step le c s s'"
| ds_evidence: "evidenceDirective c v tenant actor i f s = Inr (w, s') \<Longrightarrow> dir_step le c s s'"

lemma createDirectiveE:
  assumes "createDirective v tenant actor b s = Inr (w, s')"
  obtains "s' = s"
  | "s' = directive_event tenant (oid v s) ''created'' actor
       (s\<lparr>dir_rows := dir_rows s @ [new_directive v tenant actor b s], o_seq := Suc (o_seq s)\<rparr>)"
  using assms by (auto simp: createDirective_def rbind_Inr_iff Let_def new_directive_def split: option.splits if_splits)

lemma issueDirectiveE:
  assumes "issueDirective le v tenant actor i s = Inr (w, s')"
  obtains d ids s1 where "load_directive s tenant i = Inr d" "dv_state d = ''DRAFT''" "directive_audience le tenant actor d s = (ids, s1)"
    "ids \<noteq> []" "dir_rows s' = tupd (\<lambda>r. dv_id r = i) (\<lambda>r. r\<lparr>dv_state := ''ISSUED''\<rparr>) (dir_rows s)"
    "dir_assign s' = dir_assign s @ commitment_rows v tenant d (o_org s) (o_seq s) ids"
    "directive_history s' = directive_history s @ [(i, D_issue)]"
    "w = (d\<lparr>dv_state := ''ISSUED''\<rparr>, commitment_rows v tenant d (o_org s) (o_seq s) ids)"
proof -
  from assms obtain d to where d: "load_directive s tenant i = Inr d" "directiveNext D_issue (dv_state d) = Some to"
    by (auto simp: issueDirective_def assertDirectiveLegal_def rbind_Inr_iff split: option.splits)
  then have st: "dv_state d = ''DRAFT''" "to = ''ISSUED''" by (auto simp: directiveNext_def table_next_def split: if_splits)
  obtain ids s1 where aud: "directive_audience le tenant actor d s = (ids, s1)" by fastforce
  from audience_frames [OF aud] have fr: "dir_rows s1 = dir_rows s" "dir_assign s1 = dir_assign s" "dir_events s1 = dir_events s"
    "o_seq s1 = o_seq s" "o_org s1 = o_org s" by simp_all
  let ?s2 = "fold (commit_one v tenant d) ids s1" and ?f = "\<lambda>d. d\<lparr>dv_state := ''ISSUED''\<rparr>"
  from assms d aud st have ne: "ids \<noteq> []" and s': "s' = directive_event tenant i ''issued'' actor (set_directive i ?f ?s2)"
    and w: "w = (?f d, drop (length (dir_assign s)) (dir_assign ?s2))"
    by (auto simp: issueDirective_def assertDirectiveLegal_def rbind_Inr_iff Let_def)
  have "directive_history ?s2 = directive_history s" by (simp add: directive_history_def commit_all fr)
  then show thesis using ne by (intro that [OF d(1) st(1) aud]) (simp_all add: s' w commit_all fr)
qed

lemma directiveActE:
  assumes "directiveAct tenant actor i x s = Inr (w, s')"
  obtains d to where "load_directive s tenant i = Inr d" "directiveNext x (dv_state d) = Some to"
    "s' = directive_event tenant i (directive_action_name x) actor (set_directive i (\<lambda>d. d\<lparr>dv_state := to\<rparr>) s)"
  using assms by (auto simp: directiveAct_def assertDirectiveLegal_def rbind_Inr_iff Let_def split: option.splits)

lemma commitmentActE:
  assumes "commitmentAct v tenant actor i aid x progress note s = Inr (w, s')"
  obtains d a to where "load_directive s tenant i = Inr d" "loadAssignment s tenant i aid = Inr a" "commitmentNext x (da_state a) = Some to"
    "assertCommitmentActor s a actor x = Inr ()" "w = commitment_data v x to progress note a a"
    "s' = directive_event tenant i (''commitment.'' @ commitment_action_name x) actor
       (if (x = C_acknowledge \<or> x = C_start) \<and> dv_state d = ''ISSUED''
        then directive_event tenant i ''progress'' actor (set_directive i (\<lambda>d. d\<lparr>dv_state := ''IN_PROGRESS''\<rparr>)
          (set_commitment aid (commitment_data v x to progress note a) s))
        else set_commitment aid (commitment_data v x to progress note a) s)"
  using assms by (fastforce simp: commitmentAct_def assertCommitmentLegal_def rbind_Inr_iff Let_def split: option.splits)

lemma evidence_frames:
  assumes "evidenceDirective c v tenant actor i b s = Inr (w, s')"
  shows "dir_rows s' = dir_rows s \<and> dir_assign s' = dir_assign s \<and> directive_history s' = directive_history s"
proof -
  from assms obtain x row s1 doc where "createDocument c v tenant (Some actor) doc s = Inr (x, row, s1)"
    "s' = directive_event tenant i ''evidence_attached'' actor s1"
    by (auto simp: evidenceDirective_def rbind_Inr_iff)
  moreover from this(1) have "dir_rows s1 = dir_rows s \<and> dir_assign s1 = dir_assign s \<and> dir_events s1 = dir_events s"
    by (auto simp: createDocument_def appendVersion_def Let_def split: if_splits sum.splits)
  ultimately show ?thesis by simp (simp add: directive_history_def)
qed

lemma dir_step_effect: "dir_step le c s s' \<Longrightarrow> dir_effect s s'"
proof (induction rule: dir_step.induct)
  case (ds_create v tenant actor b s w s')
  from ds_create(1) show ?case
  proof (cases rule: createDirectiveE)
    case 1
    then show ?thesis by (simp add: de_idle)
  next
    case 2
    with ds_create(2) show ?thesis
      by (intro de_new [of "new_directive v tenant actor b s"]) (simp_all add: new_directive_def, simp add: directive_history_def)
  qed
next
  case (ds_issue v tenant actor i s w s')
  from ds_issue(1) show ?case
  proof (rule issueDirectiveE)
    fix d :: directive_row and ids s1
    let ?new = "commitment_rows v tenant d (o_org s) (o_seq s) ids"
    assume d: "load_directive s tenant i = Inr d" "dv_state d = ''DRAFT''" "directive_audience le tenant actor d s = (ids, s1)" "ids \<noteq> []"
      and s': "dir_rows s' = tupd (\<lambda>r. dv_id r = i) (\<lambda>r. r\<lparr>dv_state := ''ISSUED''\<rparr>) (dir_rows s)" "dir_assign s' = dir_assign s @ ?new"
        "directive_history s' = directive_history s @ [(i, D_issue)]"
    from ds_issue(2) [OF d(1)] d(3) have "distinct (map da_id ?new)" "set (map da_id ?new) \<inter> da_id ` set (dir_assign s) = {}"
      unfolding fresh_commitments_def Let_def commitment_rows_cols(1) by simp_all
    with load_directive_InrD [OF d(1)] d(2,4) s' show ?thesis
      by (intro de_issue [of d s ?new]) (auto simp: commitment_rows_cols(3,4))
  qed
next
  case (ds_act tenant actor i x s w s')
  from ds_act(1) show ?case
  proof (rule directiveActE)
    fix d :: directive_row and to
    assume d: "load_directive s tenant i = Inr d" "directiveNext x (dv_state d) = Some to"
      "s' = directive_event tenant i (directive_action_name x) actor (set_directive i (\<lambda>d. d\<lparr>dv_state := to\<rparr>) s)"
    from load_directive_InrD [OF d(1)] ds_act(2) show ?thesis by (intro de_act [OF _ ds_act(2) d(2)]) (auto simp: d(3))
  qed
next
  case (ds_commit v tenant actor i aid y progress nt s w s')
  then show ?case
  proof (rule commitmentActE)
    fix d :: directive_row and a to
    assume e: "load_directive s tenant i = Inr d" "loadAssignment s tenant i aid = Inr a" "commitmentNext y (da_state a) = Some to"
      "s' = directive_event tenant i (''commitment.'' @ commitment_action_name y) actor
       (if (y = C_acknowledge \<or> y = C_start) \<and> dv_state d = ''ISSUED''
        then directive_event tenant i ''progress'' actor (set_directive i (\<lambda>d. d\<lparr>dv_state := ''IN_PROGRESS''\<rparr>)
          (set_commitment aid (commitment_data v y to progress nt a) s))
        else set_commitment aid (commitment_data v y to progress nt a) s)"
    from load_directive_InrD [OF e(1)] loadAssignment_InrD [OF e(2)] show ?thesis
      by (intro de_commit [OF _ _ _ _ e(3), of d s s' v progress nt]) (simp_all add: e(4))
  qed
next
  case (ds_evidence v tenant actor i f s w s')
  from evidence_frames [OF this] show ?case by (simp add: de_idle)
qed

lemma dir_steps_ok: "(dir_step le c)\<^sup>*\<^sup>* s s' \<Longrightarrow> dirs_ok s \<Longrightarrow> dirs_ok s'"
  by (induction rule: rtranclp_induct) (use dir_step_effect dir_effect_ok in blast)+

text \<open>The log speaks for the directives: the common lifecycle again.\<close>

lemma dir_effect_journal: "dir_effect s s' \<Longrightarrow> lc_step DIRECTIVE_TRANSITIONS ''DRAFT'' (directive_journal s) (directive_journal s')"
proof (induction rule: dir_effect.induct)
  case (de_new d s s')
  then show ?case by (simp add: directive_journal_def lc_create_table del: map_append)
next
  case (de_issue d s new s')
  then show ?case
    using lc_act_table [of d "dir_rows s" dv_id "dv_id d" DIRECTIVE_TRANSITIONS D_issue dv_state "''ISSUED''" "\<lambda>r. r\<lparr>dv_state := ''ISSUED''\<rparr>"
        "''DRAFT''" "directive_history s"]
    by (simp add: directive_journal_def table_next_def)
next
  case (de_act d s x to s')
  then show ?case
    using lc_act_table [of d "dir_rows s" dv_id "dv_id d" DIRECTIVE_TRANSITIONS x dv_state to "\<lambda>r. r\<lparr>dv_state := to\<rparr>"
        "''DRAFT''" "directive_history s"]
    by (simp add: directive_journal_def directiveNext_def)
next
  case (de_commit d s a x to s' v p n)
  then show ?case
    using lc_act_table [of d "dir_rows s" dv_id "dv_id d" DIRECTIVE_TRANSITIONS D_progress dv_state "''IN_PROGRESS''"
        "\<lambda>r. r\<lparr>dv_state := ''IN_PROGRESS''\<rparr>" "''DRAFT''" "directive_history s"]
    by (auto simp: directive_journal_def table_next_def lc_idle split: if_splits)
qed (simp add: directive_journal_def lc_idle)

interpretation dirs: event_sourced DIRECTIVE_TRANSITIONS "''DRAFT''" DIRECTIVE_TERMINAL directive_journal "dir_step le c" for le c
  by unfold_locales (auto simp: dir_step_effect dir_effect_journal directive.no_exit)


subsection \<open>What a directive says of its commitments\<close>

text \<open>
  C12. The state of a directive and its commitments agree, whatever the handlers do: a draft has no
  commitment, every commitment of an issued directive is untouched, work in progress has a commitment
  somebody took up, and issued, running and completed directives have at least one. A progress is 0 to
  100; what was submitted has its moment, and what was accepted is at 100.
\<close>
theorem directives_sound:
  assumes "(dir_step le c)\<^sup>*\<^sup>* s s'" "dirs_ok s"
  shows "(\<forall>d \<in> set (dir_rows s'). let cs = commitments_of s' (dv_tenant d) (dv_id d) in
      (dv_state d = ''DRAFT'' \<longrightarrow> cs = []) \<and>
      (dv_state d = ''ISSUED'' \<longrightarrow> cs \<noteq> [] \<and> (\<forall>a \<in> set cs. da_state a = ''ASSIGNED'')) \<and>
      (dv_state d = ''IN_PROGRESS'' \<longrightarrow> (\<exists>a \<in> set cs. da_state a \<noteq> ''ASSIGNED'')) \<and>
      (dv_state d = ''COMPLETED'' \<longrightarrow> cs \<noteq> [])) \<and>
    (\<forall>a \<in> set (dir_assign s'). (\<forall>p. da_progress a = Some p \<longrightarrow> 0 \<le> p \<and> p \<le> 100) \<and>
      (da_state a \<in> {''SUBMITTED'', ''ACCEPTED'', ''RETURNED''} \<longrightarrow> da_committed a \<noteq> None) \<and>
      (da_state a = ''ACCEPTED'' \<longrightarrow> da_progress a = Some 100))"
proof -
  have ok: "dirs_ok s'" by (rule dir_steps_ok [OF assms])
  have own: "dv_state d \<noteq> ''DRAFT'' \<and> (dv_state d = ''ISSUED'' \<longrightarrow> da_state a = ''ASSIGNED'')"
    if "d \<in> set (dir_rows s')" "a \<in> set (commitments_of s' (dv_tenant d) (dv_id d))" for d a
  proof -
    from that(2) have a: "a \<in> set (dir_assign s')" "da_directive a = dv_id d" by (auto simp: commitments_of_def)
    from dirs_okD(4) [OF ok a(1)] obtain e where "e \<in> set (dir_rows s')" "dv_id e = da_directive a" "dv_state e \<noteq> ''DRAFT''"
      "dv_state e = ''ISSUED'' \<longrightarrow> da_state a = ''ASSIGNED''" by blast
    with row_at [OF ok that(1)] a(2) show ?thesis by metis
  qed
  have has: "\<exists>a \<in> set (commitments_of s' (dv_tenant d) (dv_id d)). dv_state d = ''IN_PROGRESS'' \<longrightarrow> da_state a \<noteq> ''ASSIGNED''"
    if "d \<in> set (dir_rows s')" "dv_state d \<in> {''ISSUED'', ''IN_PROGRESS'', ''COMPLETED''}" for d
    using dirs_okD(5) [OF ok that] by (auto simp: commitments_of_def)
  have nonempty: "commitments_of s' (dv_tenant d) (dv_id d) \<noteq> []"
    if "d \<in> set (dir_rows s')" "dv_state d = ''ISSUED'' \<or> dv_state d = ''COMPLETED''" for d
    using has [OF that(1)] that(2) by auto
  have empty: "commitments_of s' (dv_tenant d) (dv_id d) = []" if "d \<in> set (dir_rows s')" "dv_state d = ''DRAFT''" for d
    using own [OF that(1)] that(2) by (cases "commitments_of s' (dv_tenant d) (dv_id d)") auto
  have "\<exists>a \<in> set (commitments_of s' (dv_tenant d) (dv_id d)). da_state a \<noteq> ''ASSIGNED''"
    if "d \<in> set (dir_rows s')" "dv_state d = ''IN_PROGRESS''" for d
    using has [OF that(1)] that(2) by auto
  with own nonempty empty dirs_okD(3) [OF ok] show ?thesis unfolding Let_def commitment_fine_def by (intro conjI ballI impI) blast+
qed

text \<open>
  An issue addresses its audience: it gives exactly one untouched commitment, due when the directive is, to
  every person the audience resolves to, under the user id of the person where there is one,
  and it is refused when there is nobody.
\<close>
theorem issue_assigns_audience:
  assumes "dirs_ok s" "load_directive s tenant i = Inr d" "issueDirective le v tenant actor i s = Inr (w, s')"
  shows "map da_assignee (commitments_of s' tenant i) =
      map (\<lambda>p. coalesce (userIdForPerson (o_org s) p) p) (fst (directive_audience le tenant actor d s)) \<and>
    (\<forall>a \<in> set (commitments_of s' tenant i). da_state a = ''ASSIGNED'' \<and> da_due a = dv_due d) \<and>
    commitments_of s' tenant i \<noteq> [] \<and> d\<lparr>dv_state := ''ISSUED''\<rparr> \<in> set (dir_rows s')"
  using assms(3)
proof (rule issueDirectiveE)
  fix e :: directive_row and ids s1
  let ?new = "commitment_rows v tenant e (o_org s) (o_seq s) ids"
  assume e: "load_directive s tenant i = Inr e" "dv_state e = ''DRAFT''" "directive_audience le tenant actor e s = (ids, s1)" "ids \<noteq> []"
    "dir_rows s' = tupd (\<lambda>r. dv_id r = i) (\<lambda>r. r\<lparr>dv_state := ''ISSUED''\<rparr>) (dir_rows s)" "dir_assign s' = dir_assign s @ ?new"
  have [simp]: "e = d" using e(1) assms(2) by simp
  note d = load_directive_InrD [OF assms(2)]
  have "da_directive a \<noteq> i" if "a \<in> set (dir_assign s)" for a
    using dirs_okD(4) [OF assms(1) that] row_at [OF assms(1), of d] d e(2) by fastforce
  then have "filter (\<lambda>a. da_tenant a = tenant \<and> da_directive a = i) (dir_assign s) = []" by (simp add: filter_empty_conv)
  moreover have "filter (\<lambda>a. da_tenant a = tenant \<and> da_directive a = i) ?new = ?new"
    using commitment_rows_cols(3) [of _ v tenant e "o_org s" "o_seq s" ids] d by (simp add: filter_id_conv)
  ultimately have c: "commitments_of s' tenant i = ?new" by (simp add: commitments_of_def e(6))
  have "d\<lparr>dv_state := ''ISSUED''\<rparr> \<in> set (dir_rows s')" using in_move [of d "dir_rows s" i "''ISSUED''"] d by (simp add: e(5))
  moreover have "a \<in> set ?new \<Longrightarrow> da_state a = ''ASSIGNED'' \<and> da_due a = dv_due d" for a
    using commitment_rows_cols(3) [of a v tenant e "o_org s" "o_seq s" ids] by simp
  ultimately show ?thesis using e(3,4) unfolding c by (simp add: commitment_rows_cols(2,4))
qed

text \<open>
  Closing a directive does not stop the work: on a cancelled or completed directive an assignee still
  performs every action the commitment's own state allows, and the directive stays as it is.
\<close>
theorem closed_directive_still_worked:
  assumes "load_directive s tenant i = Inr d" "dv_state d \<in> {''CANCELLED'', ''COMPLETED''}"
    and "loadAssignment s tenant i aid = Inr a" "da_assignee a = actor" "commitmentNext x (da_state a) = Some to"
  shows "\<exists>w s'. commitmentAct v tenant actor i aid x progress note s = Inr (w, s') \<and> da_state w = to \<and> dir_rows s' = dir_rows s"
  using assms by (auto simp: commitmentAct_def assertCommitmentActor_def assertCommitmentLegal_def Let_def)

subsection \<open>An example\<close>

definition order_7 :: directive_row where
  "order_7 = \<lparr>dv_id = ''v7'', dv_tenant = ''t1'', dv_code = ''DIR-7'', dv_title = ''Close the books'', dv_issuer = ''boss'', dv_audience = ''POSITION'',
     dv_target = Some ''pos1'', dv_priority = ''HIGH'', dv_due = Some 90, dv_state = ''DRAFT'', dv_key = None\<rparr>"

definition order_db :: dirdb where
  "order_db = \<lparr>o_docs = [], o_versions = [], o_files = [], o_res = [], o_audit = [], o_org = demo_idb, o_seq = 0,
     dir_rows = [order_7], dir_assign = [], dir_events = []\<rparr>"

definition by_length :: "string \<Rightarrow> string \<Rightarrow> bool" where "by_length a b = (length a \<le> length b)"

definition issued_7 :: "((directive_row \<times> commitment_row list) \<times> dirdb) res" where
  "issued_7 = issueDirective by_length demo_env ''t1'' ''boss'' ''v7'' order_db"
definition order1 :: dirdb where "order1 = snd (projr issued_7)"
definition taken_7 :: "(commitment_row \<times> dirdb) res" where
  "taken_7 = commitmentAct demo_env ''t1'' ''an'' ''v7'' ''id0'' C_acknowledge (Some 250) None order1"
definition order2 :: dirdb where "order2 = snd (projr taken_7)"
definition cancelled_7 :: "(directive_row \<times> dirdb) res" where "cancelled_7 = directiveAct ''t1'' ''boss'' ''v7'' D_cancel order2"
definition order3 :: dirdb where "order3 = snd (projr cancelled_7)"

lemma order_runs:
  "is_ok issued_7" "is_ok taken_7" "is_ok cancelled_7" "load_directive order_db ''t1'' ''v7'' = Inr order_7"
  "fresh_commitments demo_env (length (fst (directive_audience by_length ''t1'' ''boss'' order_7 order_db))) order_db"
  "map (\<lambda>a. (da_progress a, da_state a)) (dir_assign order2) = [(Some 100, ''ACKNOWLEDGED'')]"
  "map (\<lambda>p. coalesce (userIdForPerson (o_org order_db) p) p) (fst (directive_audience by_length ''t1'' ''boss'' order_7 order_db)) = [''an'']"
  "is_ok (load_directive order3 ''t1'' ''v7'')" "dv_state (projr (load_directive order3 ''t1'' ''v7'')) \<in> {''CANCELLED'', ''COMPLETED''}"
  "is_ok (loadAssignment order3 ''t1'' ''v7'' ''id0'')" "da_assignee (projr (loadAssignment order3 ''t1'' ''v7'' ''id0'')) = ''an''"
  "commitmentNext C_start (da_state (projr (loadAssignment order3 ''t1'' ''v7'' ''id0''))) = Some ''IN_PROGRESS''"
  by code_simp+

lemma issued_7_eq: "issueDirective by_length demo_env ''t1'' ''boss'' ''v7'' order_db = Inr (fst (projr issued_7), order1)"
  unfolding order1_def issued_7_def [symmetric] by (rule ok_pair) (rule order_runs)

lemma taken_7_eq:
  "commitmentAct demo_env ''t1'' ''an'' ''v7'' ''id0'' C_acknowledge (Some 250) None order1 = Inr (fst (projr taken_7), order2)"
  unfolding order2_def taken_7_def [symmetric] by (rule ok_pair) (rule order_runs)

lemma cancelled_7_eq: "directiveAct ''t1'' ''boss'' ''v7'' D_cancel order2 = Inr (fst (projr cancelled_7), order3)"
  unfolding order3_def cancelled_7_def [symmetric] by (rule ok_pair) (rule order_runs)

lemma order_db_ok: "dirs_ok order_db"
  by (simp add: dirs_ok_def order_db_def order_7_def)

lemma order_run: "(dir_step by_length c)\<^sup>*\<^sup>* order_db order2"
proof -
  have "dir_step by_length c order_db order1" using order_runs(5) by (intro ds_issue [OF issued_7_eq]) (simp add: order_runs(4))
  moreover have "dir_step by_length c order1 order2" by (rule ds_commit [OF taken_7_eq])
  ultimately show ?thesis by (rule rtranclp.rtrancl_into_rtrancl [OF r_into_rtranclp])
qed

lemma directives_sound_witness: "\<exists>a \<in> set (dir_assign order2). da_progress a = Some 100 \<and> da_state a = ''ACKNOWLEDGED''"
proof -
  have "\<forall>a \<in> set (dir_assign order2). \<forall>p. da_progress a = Some p \<longrightarrow> 0 \<le> p \<and> p \<le> 100"
    using directives_sound [OF order_run [of demo_codec] order_db_ok] by blast
  with order_runs(6) show ?thesis by (auto simp: Cons_eq_map_conv)
qed

lemma issue_assigns_audience_witness: "map da_assignee (commitments_of order1 ''t1'' ''v7'') = [''an'']"
  using issue_assigns_audience [OF order_db_ok order_runs(4) issued_7_eq] order_runs(7) by simp

lemma closed_directive_still_worked_witness:
  "\<exists>w s'. commitmentAct demo_env ''t1'' ''an'' ''v7'' ''id0'' C_start None None order3 = Inr (w, s') \<and> da_state w = ''IN_PROGRESS'' \<and>
     dir_rows s' = dir_rows order3"
proof (rule closed_directive_still_worked)
  show "load_directive order3 ''t1'' ''v7'' = Inr (projr (load_directive order3 ''t1'' ''v7''))" by (rule ok_projr) (rule order_runs)
  show "loadAssignment order3 ''t1'' ''v7'' ''id0'' = Inr (projr (loadAssignment order3 ''t1'' ''v7'' ''id0''))" by (rule ok_projr) (rule order_runs)
qed (rule order_runs)+

end
