(* ===== verification/Engagements.thy ===== *)
theory Engagements
  imports Lifecycle
begin

section \<open>Delivery engagements and their launch\<close>

text \<open>
  xhub-api/src/delivery/engagements.service.ts: the delivery project of a customer from lead to
  success, holding and resuming it, comments and attachments, the pipeline figures, and the launch of
  the customer's tenant through the Launch Factory, another process. What that process answers is the
  parameter \<open>factory\<close>; the launches it created are kept in the state. The launch handler is the only one
  that does not run in one transaction: its check, its calls and its write are separate steps, and
  a call that fails has left what it created. Deal values are exact rationals.
\<close>

subsection \<open>State\<close>

record engagement =
  eg_id :: string
  eg_tenant :: string
  eg_code :: string
  eg_customer :: string
  eg_industry :: "string option"
  eg_prospect :: "int option"
  eg_target :: "string option"
  eg_blueprint :: "string option"
  eg_seed :: "string option"
  eg_stage :: string
  eg_status :: string
  eg_owner :: string
  eg_value :: "rat option"
  eg_launch :: "string option"

record engagement_log =
  el_tenant :: string
  el_engagement :: string
  el_type :: string
  el_actor :: string

text \<open>What a launch asks for; \<open>lr_for\<close> is the engagement the call was made for.\<close>

record launch_request =
  lr_for :: string
  lr_target :: string
  lr_no :: "int option"
  lr_blueprint :: "string option"
  lr_seed :: "string option"
  lr_name :: string
  lr_class :: string

record launch_row =
  lw_id :: string
  lw_request :: launch_request

text \<open>The id of a launch created after earlier ones, and the id a run answers; \<open>None\<close> is a failure.\<close>

record factory =
  fc_create :: "launch_row list \<Rightarrow> launch_request \<Rightarrow> string option"
  fc_run :: "launch_row list \<Rightarrow> string \<Rightarrow> string option"

record egdb = odb +
  eg_rows :: "engagement list"
  eg_events :: "engagement_log list"
  eg_launches :: "launch_row list"

subsection \<open>Events, rows and legality\<close>

fun engagement_action_name :: "engagement_action \<Rightarrow> string" where
  "engagement_action_name E_qualify = ''qualify''"
| "engagement_action_name E_survey = ''survey''"
| "engagement_action_name E_design = ''design''"
| "engagement_action_name E_propose = ''propose''"
| "engagement_action_name E_win = ''win''"
| "engagement_action_name E_implement = ''implement''"
| "engagement_action_name E_migrate = ''migrate''"
| "engagement_action_name E_uat = ''uat''"
| "engagement_action_name E_golive = ''golive''"
| "engagement_action_name E_hypercare = ''hypercare''"
| "engagement_action_name E_success = ''success''"
| "engagement_action_name E_lose = ''lose''"

definition engagement_event :: "string \<Rightarrow> string \<Rightarrow> string \<Rightarrow> string \<Rightarrow> egdb \<Rightarrow> egdb" where
  "engagement_event tenant i ty actor s =
     log_audit tenant actor i (''engagement.'' @ ty)
       (s\<lparr>eg_events := eg_events s @ [\<lparr>el_tenant = tenant, el_engagement = i, el_type = ty, el_actor = actor\<rparr>]\<rparr>)"

definition assertLegalEngagement :: "engagement_action \<Rightarrow> string \<Rightarrow> string res" where
  "assertLegalEngagement a st =
     (case engagementNext a st of None \<Rightarrow> Inl (BadRequest ''Illegal engagement transition'') | Some t \<Rightarrow> Inr t)"

record engagement_view =
  gv_row :: engagement
  gv_legal :: "engagement_action list"
  gv_ready :: bool
  gv_hold :: bool

definition decorate_engagement :: "engagement \<Rightarrow> engagement_view" where
  "decorate_engagement e =
     \<lparr>gv_row = e, gv_legal = (if eg_status e = ''ON_HOLD'' then [] else engagementLegalActions (eg_stage e)),
      gv_ready = (isLaunchReady (eg_stage e) \<and> \<not> truthy_str (eg_launch e)), gv_hold = (eg_status e = ''ON_HOLD'')\<rparr>"

definition load_engagement :: "egdb \<Rightarrow> string \<Rightarrow> string \<Rightarrow> engagement res" where
  "load_engagement s tenant i =
     (case tfind (\<lambda>e. eg_id e = i \<and> eg_tenant e = tenant) (eg_rows s) of
        None \<Rightarrow> Inl (NotFound ''engagement not found'') | Some e \<Rightarrow> Inr e)"

definition set_engagement :: "string \<Rightarrow> (engagement \<Rightarrow> engagement) \<Rightarrow> egdb \<Rightarrow> egdb" where
  "set_engagement i f s = s\<lparr>eg_rows := tupd (\<lambda>e. eg_id e = i) f (eg_rows s)\<rparr>"

subsection \<open>Creation\<close>

record engagement_in =
  gi_customer :: string
  gi_code :: "string option"
  gi_industry :: "string option"
  gi_prospect :: "int option"
  gi_target :: "string option"
  gi_blueprint :: "string option"
  gi_seed :: "string option"
  gi_owner :: "string option"
  gi_value :: "rat option"

definition new_engagement :: "env \<Rightarrow> string \<Rightarrow> string \<Rightarrow> engagement_in \<Rightarrow> egdb \<Rightarrow> engagement" where
  "new_engagement v tenant actor b s =
     \<lparr>eg_id = oid v s, eg_tenant = tenant, eg_code = coalesce (gi_code b) (gen_code v ''ENG'' (o_seq s)), eg_customer = gi_customer b,
      eg_industry = gi_industry b, eg_prospect = gi_prospect b, eg_target = gi_target b, eg_blueprint = gi_blueprint b, eg_seed = gi_seed b,
      eg_stage = ''LEAD'', eg_status = ''OPEN'', eg_owner = coalesce (gi_owner b) actor, eg_value = gi_value b, eg_launch = None\<rparr>"

definition createEngagement :: "env \<Rightarrow> string \<Rightarrow> string \<Rightarrow> engagement_in \<Rightarrow> egdb \<Rightarrow> (engagement_view \<times> egdb) res" where
  "createEngagement v tenant actor b s =
     rbind (ensure (gi_customer b \<noteq> []) (BadRequest ''customerName is required'')) (\<lambda>_.
       let e = new_engagement v tenant actor b s in
       rbind (ensure (\<forall>u \<in> set (eg_rows s). \<not> (eg_tenant u = tenant \<and> eg_code u = eg_code e)) UniqueViolation) (\<lambda>_.
         Inr (decorate_engagement e,
              engagement_event tenant (eg_id e) ''created'' actor (s\<lparr>eg_rows := eg_rows s @ [e], o_seq := Suc (o_seq s)\<rparr>))))"

subsection \<open>Transitions\<close>

definition transitionEngagement :: "string \<Rightarrow> string \<Rightarrow> string \<Rightarrow> engagement_action \<Rightarrow> egdb \<Rightarrow> (engagement_view \<times> egdb) res" where
  "transitionEngagement tenant actor i a s =
     rbind (load_engagement s tenant i) (\<lambda>e.
     rbind (ensure (eg_status e \<noteq> ''ON_HOLD'') (BadRequest ''engagement is ON_HOLD'')) (\<lambda>_.
     rbind (assertLegalEngagement a (eg_stage e)) (\<lambda>to.
       let f = (\<lambda>e. e\<lparr>eg_stage := to, eg_status := statusForStage to\<rparr>)
       in Inr (decorate_engagement (f e), engagement_event tenant i (engagement_action_name a) actor (set_engagement i f s)))))"

definition holdEngagement :: "string \<Rightarrow> string \<Rightarrow> string \<Rightarrow> egdb \<Rightarrow> (engagement_view \<times> egdb) res" where
  "holdEngagement tenant actor i s =
     rbind (load_engagement s tenant i) (\<lambda>e.
     rbind (ensure (eg_status e \<noteq> ''ON_HOLD'') (BadRequest ''already ON_HOLD'')) (\<lambda>_.
     rbind (ensure (eg_stage e \<notin> {''LOST'', ''CUSTOMER_SUCCESS''}) (BadRequest ''cannot hold a terminal engagement'')) (\<lambda>_.
       let f = (\<lambda>e. e\<lparr>eg_status := ''ON_HOLD''\<rparr>)
       in Inr (decorate_engagement (f e), engagement_event tenant i ''hold'' actor (set_engagement i f s)))))"

definition resumeEngagement :: "string \<Rightarrow> string \<Rightarrow> string \<Rightarrow> egdb \<Rightarrow> (engagement_view \<times> egdb) res" where
  "resumeEngagement tenant actor i s =
     rbind (load_engagement s tenant i) (\<lambda>e.
     rbind (ensure (eg_status e = ''ON_HOLD'') (BadRequest ''not ON_HOLD'')) (\<lambda>_.
       let f = (\<lambda>x. x\<lparr>eg_status := statusForStage (eg_stage e)\<rparr>)
       in Inr (decorate_engagement (f e), engagement_event tenant i ''resume'' actor (set_engagement i f s))))"

definition commentEngagement :: "string \<Rightarrow> string \<Rightarrow> string \<Rightarrow> string option \<Rightarrow> string option \<Rightarrow> egdb \<Rightarrow> (unit \<times> egdb) res" where
  "commentEngagement tenant actor i body note s =
     rbind (load_engagement s tenant i) (\<lambda>_.
     rbind (ensure (truthy_str (coalesce_opt body note)) (BadRequest ''comment body is required'')) (\<lambda>_.
       Inr ((), engagement_event tenant i ''comment'' actor s)))"

definition attachEngagement ::
  "codec \<Rightarrow> env \<Rightarrow> string \<Rightarrow> string \<Rightarrow> string \<Rightarrow> attach_in \<Rightarrow> egdb \<Rightarrow> (doc_version \<times> egdb) res" where
  "attachEngagement c v tenant actor i b s =
     rbind (load_engagement s tenant i) (\<lambda>e.
     rbind (createDocument c v tenant (Some actor)
              (attachment_doc ''Engagement'' i (eg_code e) ''engagement attachment'' [''attachment'', ''engagement''] b) s) (\<lambda>(d, row, s1).
       Inr (row, engagement_event tenant i ''attachment'' actor s1)))"

subsection \<open>The launch\<close>

record launch_in =
  hi_target :: "string option"
  hi_no :: "int option"
  hi_blueprint :: "string option"
  hi_seed :: "string option"
  hi_name :: "string option"
  hi_class :: "string option"

text \<open>The first transaction: the checks, and the request they lead to.\<close>

definition launch_check :: "string \<Rightarrow> string \<Rightarrow> launch_in \<Rightarrow> egdb \<Rightarrow> launch_request res" where
  "launch_check tenant i b s =
     rbind (load_engagement s tenant i) (\<lambda>e.
     rbind (ensure (isLaunchReady (eg_stage e)) (BadRequest ''launch allowed only at/after GO_LIVE'')) (\<lambda>_.
     rbind (ensure (\<not> truthy_str (eg_launch e)) (BadRequest ''engagement already launched'')) (\<lambda>_.
       let target = coalesce_opt (hi_target b) (eg_target e) in
       rbind (ensure (truthy_str target) (BadRequest ''targetTenantId is required'')) (\<lambda>_.
         Inr \<lparr>lr_for = i, lr_target = the target, lr_no = coalesce_opt (hi_no b) (eg_prospect e),
              lr_blueprint = coalesce_opt (hi_blueprint b) (eg_blueprint e), lr_seed = coalesce_opt (hi_seed b) (eg_seed e),
              lr_name = coalesce (hi_name b) (eg_customer e), lr_class = coalesce (hi_class b) ''CUSTOMER''\<rparr>))))"

text \<open>The calls to the factory: a launch is created, then run. What was created stays when the run fails.\<close>

definition launch_calls :: "factory \<Rightarrow> launch_request \<Rightarrow> egdb \<Rightarrow> string res \<times> egdb" where
  "launch_calls f q s =
     (case fc_create f (eg_launches s) q of
        None \<Rightarrow> (Inl TypeErr, s)
      | Some l \<Rightarrow>
          (let s1 = s\<lparr>eg_launches := eg_launches s @ [\<lparr>lw_id = l, lw_request = q\<rparr>]\<rparr>
           in (case fc_run f (eg_launches s1) l of None \<Rightarrow> (Inl TypeErr, s1) | Some r \<Rightarrow> (Inr r, s1))))"

text \<open>The second transaction.\<close>

definition launch_record :: "string \<Rightarrow> string \<Rightarrow> launch_request \<Rightarrow> string \<Rightarrow> egdb \<Rightarrow> egdb" where
  "launch_record tenant actor q l s =
     engagement_event tenant (lr_for q) ''launch-triggered'' actor
       (set_engagement (lr_for q) (\<lambda>e. e\<lparr>eg_launch := Some l, eg_target := Some (lr_target q)\<rparr>) s)"

definition launchTenant :: "factory \<Rightarrow> string \<Rightarrow> string \<Rightarrow> string \<Rightarrow> launch_in \<Rightarrow> egdb \<Rightarrow> string res \<times> egdb" where
  "launchTenant f tenant actor i b s =
     (case launch_check tenant i b s of
        Inl e \<Rightarrow> (Inl e, s)
      | Inr q \<Rightarrow>
          (case launch_calls f q s of
             (Inl e, s1) \<Rightarrow> (Inl e, s1)
           | (Inr l, s1) \<Rightarrow> (Inr l, launch_record tenant actor q l s1)))"

subsection \<open>Reads\<close>

record engagement_filter =
  gf_stage :: "string option"
  gf_status :: "string option"
  gf_owner :: "string option"
  gf_q :: "string option"

definition engagement_matches :: "string \<Rightarrow> engagement_filter \<Rightarrow> engagement \<Rightarrow> bool" where
  "engagement_matches tenant f e \<longleftrightarrow> eg_tenant e = tenant \<and>
     (truthy_str (gf_stage f) \<longrightarrow> Some (eg_stage e) = gf_stage f) \<and>
     (truthy_str (gf_status f) \<longrightarrow> Some (eg_status e) = gf_status f) \<and>
     (truthy_str (gf_owner f) \<longrightarrow> Some (eg_owner e) = gf_owner f) \<and>
     (truthy_str (gf_q f) \<longrightarrow> includes_str (to_lower (the (gf_q f))) (to_lower (eg_customer e)))"

definition listEngagements ::
  "string \<Rightarrow> engagement_filter \<Rightarrow> int option \<Rightarrow> int option \<Rightarrow> egdb \<Rightarrow> engagement_view list \<times> nat \<times> nat \<times> nat" where
  "listEngagements tenant f page pageSize s =
     (let rows = map decorate_engagement (rev (filter (engagement_matches tenant f) (eg_rows s)));
          p = page_no page; sz = page_size 100 20 pageSize
      in (page_slice p sz rows, length rows, p, sz))"

text \<open>The detail page; the state of the linked launch is asked of the factory, and left out when it does not answer.\<close>

record engagement_page =
  gp_row :: engagement_view
  gp_events :: "engagement_log list"
  gp_documents :: "(doc_row \<times> nat) list"
  gp_launch :: "string option"

definition getEngagement :: "(string \<Rightarrow> string option) \<Rightarrow> string \<Rightarrow> string \<Rightarrow> egdb \<Rightarrow> engagement_page res" where
  "getEngagement detail tenant i s =
     rbind (load_engagement s tenant i) (\<lambda>e.
       Inr \<lparr>gp_row = decorate_engagement e, gp_events = filter (\<lambda>l. el_tenant l = tenant \<and> el_engagement l = i) (eg_events s),
            gp_documents = listDocuments tenant None (Some ''Engagement'') (Some i) s,
            gp_launch = (if truthy_str (eg_launch e) then detail (the (eg_launch e)) else None)\<rparr>)"

text \<open>A JavaScript object used as a counter keeps its keys in the order of their first use.\<close>

definition bump :: "string \<Rightarrow> (string \<times> nat) list \<Rightarrow> (string \<times> nat) list" where
  "bump k xs = (if k \<in> fst ` set xs then map (\<lambda>(j, n). (j, if j = k then Suc n else n)) xs else xs @ [(k, 1)])"

record pipeline =
  pl_total :: nat
  pl_byStage :: "(string \<times> nat) list"
  pl_byStatus :: "(string \<times> nat) list"
  pl_open :: rat
  pl_won :: rat
  pl_ready :: nat
  pl_launched :: nat

definition pipelineEngagements :: "string \<Rightarrow> egdb \<Rightarrow> pipeline" where
  "pipelineEngagements tenant s =
     (let rows = filter (\<lambda>e. eg_tenant e = tenant) (eg_rows s);
          worth = (\<lambda>e t. case eg_value e of None \<Rightarrow> t | Some x \<Rightarrow> t + x)
      in \<lparr>pl_total = length rows,
          pl_byStage = fold (\<lambda>e. bump (eg_stage e)) rows [], pl_byStatus = fold (\<lambda>e. bump (eg_status e)) rows [],
          pl_open = fold (\<lambda>e t. if eg_status e = ''OPEN'' then worth e t else t) rows 0,
          pl_won = fold (\<lambda>e t. if eg_status e \<in> {''WON'', ''LIVE''} then worth e t else t) rows 0,
          pl_ready = length (filter (\<lambda>e. isLaunchReady (eg_stage e) \<and> \<not> truthy_str (eg_launch e)) rows),
          pl_launched = length (filter (\<lambda>e. truthy_str (eg_launch e)) rows)\<rparr>)"


subsection \<open>The journal\<close>

definition engagement_event_action :: "string \<Rightarrow> engagement_action option" where
  "engagement_event_action ty = tfind (\<lambda>a. engagement_action_name a = ty) engagement_actions"

definition engagement_history :: "egdb \<Rightarrow> (string \<times> engagement_action) list" where
  "engagement_history s = history_of el_engagement (\<lambda>e. engagement_event_action (el_type e)) (eg_events s)"

definition engagement_journal :: "egdb \<Rightarrow> engagement_action journal" where
  "engagement_journal s = (map (\<lambda>e. (eg_id e, eg_stage e)) (eg_rows s), engagement_history s)"

lemma engagement_event_action_name: "engagement_event_action (engagement_action_name a) = Some a"
  by (cases a) (simp_all add: engagement_event_action_def engagement_actions_def table_simps)

lemma engagement_event_other [simp]:
  "engagement_event_action ''created'' = None" "engagement_event_action ''hold'' = None" "engagement_event_action ''resume'' = None"
  "engagement_event_action ''comment'' = None" "engagement_event_action ''attachment'' = None"
  "engagement_event_action ''launch-triggered'' = None"
  by code_simp+

lemma engagement_frames [simp]:
  "eg_rows (engagement_event t i ty a s) = eg_rows s" "eg_launches (engagement_event t i ty a s) = eg_launches s"
  "engagement_history (engagement_event t i ty a s) =
     engagement_history s @ (case engagement_event_action ty of None \<Rightarrow> [] | Some x \<Rightarrow> [(i, x)])"
  "eg_rows (set_engagement i f s) = tupd (\<lambda>e. eg_id e = i) f (eg_rows s)" "eg_launches (set_engagement i f s) = eg_launches s"
  "engagement_history (set_engagement i f s) = engagement_history s"
  by (simp_all add: engagement_event_def set_engagement_def engagement_history_def log_audit_def split: option.split)

lemma load_engagement_InrD: "load_engagement s tenant i = Inr e \<Longrightarrow> e \<in> set (eg_rows s) \<and> eg_id e = i \<and> eg_tenant e = tenant"
  by (auto simp: load_engagement_def split: option.splits dest: tfind_SomeD)

subsection \<open>Steps of the handlers that run in one transaction\<close>

inductive eg_handler :: "codec \<Rightarrow> egdb \<Rightarrow> egdb \<Rightarrow> bool" for c where
  gh_create: "createEngagement v tenant actor b s = Inr (w, s') \<Longrightarrow> oid v s \<notin> eg_id ` set (eg_rows s) \<Longrightarrow> eg_handler c s s'"
| gh_transition: "transitionEngagement tenant actor i a s = Inr (w, s') \<Longrightarrow> eg_handler c s s'"
| gh_hold: "holdEngagement tenant actor i s = Inr (w, s') \<Longrightarrow> eg_handler c s s'"
| gh_resume: "resumeEngagement tenant actor i s = Inr (w, s') \<Longrightarrow> eg_handler c s s'"
| gh_comment: "commentEngagement tenant actor i body note s = Inr (u, s') \<Longrightarrow> eg_handler c s s'"
| gh_attach: "attachEngagement c v tenant actor i d s = Inr (x, s') \<Longrightarrow> eg_handler c s s'"

inductive eg_effect :: "egdb \<Rightarrow> egdb \<Rightarrow> bool" where
  ge_idle: "eg_rows s' = eg_rows s \<Longrightarrow> engagement_history s' = engagement_history s \<Longrightarrow> eg_launches s' = eg_launches s \<Longrightarrow> eg_effect s s'"
| ge_new: "eg_id e \<notin> eg_id ` set (eg_rows s) \<Longrightarrow> eg_stage e = ''LEAD'' \<Longrightarrow> eg_status e = ''OPEN'' \<Longrightarrow> eg_launch e = None \<Longrightarrow>
    eg_rows s' = eg_rows s @ [e] \<Longrightarrow> engagement_history s' = engagement_history s \<Longrightarrow> eg_launches s' = eg_launches s \<Longrightarrow> eg_effect s s'"
| ge_move: "e \<in> set (eg_rows s) \<Longrightarrow> eg_status e \<noteq> ''ON_HOLD'' \<Longrightarrow> engagementNext a (eg_stage e) = Some to \<Longrightarrow>
    eg_rows s' = tupd (\<lambda>x. eg_id x = eg_id e) (\<lambda>x. x\<lparr>eg_stage := to, eg_status := statusForStage to\<rparr>) (eg_rows s) \<Longrightarrow>
    engagement_history s' = engagement_history s @ [(eg_id e, a)] \<Longrightarrow> eg_launches s' = eg_launches s \<Longrightarrow> eg_effect s s'"
| ge_hold: "e \<in> set (eg_rows s) \<Longrightarrow> eg_stage e \<notin> {''LOST'', ''CUSTOMER_SUCCESS''} \<Longrightarrow>
    eg_rows s' = tupd (\<lambda>x. eg_id x = eg_id e) (\<lambda>x. x\<lparr>eg_status := ''ON_HOLD''\<rparr>) (eg_rows s) \<Longrightarrow>
    engagement_history s' = engagement_history s \<Longrightarrow> eg_launches s' = eg_launches s \<Longrightarrow> eg_effect s s'"
| ge_resume: "e \<in> set (eg_rows s) \<Longrightarrow> eg_status e = ''ON_HOLD'' \<Longrightarrow>
    eg_rows s' = tupd (\<lambda>x. eg_id x = eg_id e) (\<lambda>x. x\<lparr>eg_status := statusForStage (eg_stage e)\<rparr>) (eg_rows s) \<Longrightarrow>
    engagement_history s' = engagement_history s \<Longrightarrow> eg_launches s' = eg_launches s \<Longrightarrow> eg_effect s s'"

lemma attachEngagement_frames:
  assumes "attachEngagement c v tenant actor i d s = Inr (w, s')"
  shows "eg_rows s' = eg_rows s \<and> engagement_history s' = engagement_history s \<and> eg_launches s' = eg_launches s"
proof -
  from assms obtain x row s1 doc where "createDocument c v tenant (Some actor) doc s = Inr (x, row, s1)"
    "s' = engagement_event tenant i ''attachment'' actor s1"
    by (auto simp: attachEngagement_def rbind_Inr_iff)
  moreover from this(1) have "eg_rows s1 = eg_rows s \<and> eg_events s1 = eg_events s \<and> eg_launches s1 = eg_launches s"
    by (auto simp: createDocument_def appendVersion_def Let_def split: if_splits sum.splits)
  ultimately show ?thesis by simp (simp add: engagement_history_def)
qed

lemma eg_handler_effect: "eg_handler c s s' \<Longrightarrow> eg_effect s s'"
proof (induction rule: eg_handler.induct)
  case (gh_create v tenant actor b s w s')
  then have "s' = engagement_event tenant (oid v s) ''created'' actor
      (s\<lparr>eg_rows := eg_rows s @ [new_engagement v tenant actor b s], o_seq := Suc (o_seq s)\<rparr>)"
    by (auto simp: createEngagement_def rbind_Inr_iff Let_def new_engagement_def)
  with gh_create(2) show ?case
    by (intro ge_new [of "new_engagement v tenant actor b s"]) (simp_all add: new_engagement_def, simp add: engagement_history_def)
next
  case (gh_transition tenant actor i a s w s')
  then obtain e to where e: "load_engagement s tenant i = Inr e" "eg_status e \<noteq> ''ON_HOLD''" "engagementNext a (eg_stage e) = Some to"
    "s' = engagement_event tenant i (engagement_action_name a) actor (set_engagement i (\<lambda>x. x\<lparr>eg_stage := to, eg_status := statusForStage to\<rparr>) s)"
    by (auto simp: transitionEngagement_def assertLegalEngagement_def rbind_Inr_iff Let_def split: option.splits)
  from load_engagement_InrD [OF e(1)] show ?case
    by (intro ge_move [OF _ e(2,3)]) (auto simp: e(4) engagement_event_action_name)
next
  case (gh_hold tenant actor i s w s')
  then obtain e where e: "load_engagement s tenant i = Inr e" "eg_stage e \<notin> {''LOST'', ''CUSTOMER_SUCCESS''}"
    "s' = engagement_event tenant i ''hold'' actor (set_engagement i (\<lambda>x. x\<lparr>eg_status := ''ON_HOLD''\<rparr>) s)"
    by (auto simp: holdEngagement_def rbind_Inr_iff Let_def)
  from load_engagement_InrD [OF e(1)] show ?case by (intro ge_hold [OF _ e(2)]) (auto simp: e(3))
next
  case (gh_resume tenant actor i s w s')
  then obtain e where e: "load_engagement s tenant i = Inr e" "eg_status e = ''ON_HOLD''"
    "s' = engagement_event tenant i ''resume'' actor (set_engagement i (\<lambda>x. x\<lparr>eg_status := statusForStage (eg_stage e)\<rparr>) s)"
    by (auto simp: resumeEngagement_def rbind_Inr_iff Let_def)
  from load_engagement_InrD [OF e(1)] show ?case by (intro ge_resume [OF _ e(2)]) (auto simp: e(3))
next
  case (gh_comment tenant actor i body nt s u s')
  then have "s' = engagement_event tenant i ''comment'' actor s" by (auto simp: commentEngagement_def rbind_Inr_iff)
  then show ?case by (simp add: ge_idle)
next
  case (gh_attach v tenant actor i d s x s')
  from attachEngagement_frames [OF this] show ?case by (simp add: ge_idle)
qed

lemma eg_effect_journal: "eg_effect s s' \<Longrightarrow> lc_step ENGAGEMENT_TRANSITIONS ''LEAD'' (engagement_journal s) (engagement_journal s')"
proof (induction rule: eg_effect.induct)
  case (ge_new e s s')
  then show ?case by (simp add: engagement_journal_def lc_create_table del: map_append)
next
  case (ge_move e s a to s')
  then show ?case
    using lc_act_table [of e "eg_rows s" eg_id "eg_id e" ENGAGEMENT_TRANSITIONS a eg_stage to
        "\<lambda>x. x\<lparr>eg_stage := to, eg_status := statusForStage to\<rparr>" "''LEAD''" "engagement_history s"]
    by (simp add: engagement_journal_def engagementNext_def)
next
  case (ge_hold e s s')
  then show ?case using view_frame [of eg_id "eg_id e" "\<lambda>x. x\<lparr>eg_status := ''ON_HOLD''\<rparr>" eg_stage "eg_rows s"]
    by (simp add: engagement_journal_def lc_idle)
next
  case (ge_resume e s s')
  then show ?case using view_frame [of eg_id "eg_id e" "\<lambda>x. x\<lparr>eg_status := statusForStage (eg_stage e)\<rparr>" eg_stage "eg_rows s"]
    by (simp add: engagement_journal_def lc_idle)
qed (simp add: engagement_journal_def lc_idle)

text \<open>Launches do not move the pipeline; the other handlers are the common lifecycle.\<close>

interpretation delivery: event_sourced ENGAGEMENT_TRANSITIONS "''LEAD''" ENGAGEMENT_TERMINAL engagement_journal "eg_handler c" for c
  by unfold_locales (auto simp: eg_handler_effect eg_effect_journal engagement.no_exit)

subsection \<open>Launch calls in flight\<close>

record launch_call =
  lc_tenant :: string
  lc_actor :: string
  lc_request :: launch_request
  lc_done :: "string option"

text \<open>
  Handlers interleave with launch calls, whose check, calls to the factory and write are separate steps.
\<close>

inductive eg_step :: "factory \<Rightarrow> codec \<Rightarrow> egdb \<times> launch_call list \<Rightarrow> egdb \<times> launch_call list \<Rightarrow> bool" for f c where
  gs_handler: "eg_handler c s s' \<Longrightarrow> eg_step f c (s, calls) (s', calls)"
| gs_check: "launch_check tenant i b s = Inr q \<Longrightarrow>
    eg_step f c (s, calls) (s, calls @ [\<lparr>lc_tenant = tenant, lc_actor = actor, lc_request = q, lc_done = None\<rparr>])"
| gs_fail: "k < length calls \<Longrightarrow> lc_done (calls ! k) = None \<Longrightarrow> launch_calls f (lc_request (calls ! k)) s = (Inl e, s') \<Longrightarrow>
    eg_step f c (s, calls) (s', take k calls @ drop (Suc k) calls)"
| gs_calls: "k < length calls \<Longrightarrow> lc_done (calls ! k) = None \<Longrightarrow> launch_calls f (lc_request (calls ! k)) s = (Inr l, s') \<Longrightarrow>
    eg_step f c (s, calls) (s', calls[k := (calls ! k)\<lparr>lc_done := Some l\<rparr>])"
| gs_record: "k < length calls \<Longrightarrow> lc_done (calls ! k) = Some l \<Longrightarrow>
    eg_step f c (s, calls)
      (launch_record (lc_tenant (calls ! k)) (lc_actor (calls ! k)) (lc_request (calls ! k)) l s, take k calls @ drop (Suc k) calls)"

text \<open>One launch after the other, and between the handlers.\<close>

inductive eg_serial :: "factory \<Rightarrow> codec \<Rightarrow> egdb \<Rightarrow> egdb \<Rightarrow> bool" for f c where
  gr_handler: "eg_handler c s s' \<Longrightarrow> eg_serial f c s s'"
| gr_launch: "launchTenant f tenant actor i b s = (r, s') \<Longrightarrow> eg_serial f c s s'"


subsection \<open>Engagements are consistent\<close>

definition engagement_ok :: "engagement \<Rightarrow> bool" where
  "engagement_ok e \<longleftrightarrow> eg_stage e \<in> set STAGE_ORDER \<union> {''LOST''} \<and>
     (eg_status e = statusForStage (eg_stage e) \<or> eg_status e = ''ON_HOLD'' \<and> eg_stage e \<notin> {''LOST'', ''CUSTOMER_SUCCESS''}) \<and>
     (eg_launch e \<noteq> None \<longrightarrow> isLaunchReady (eg_stage e))"

definition egs_ok :: "egdb \<Rightarrow> bool" where
  "egs_ok s \<longleftrightarrow> distinct (map eg_id (eg_rows s)) \<and> (\<forall>e \<in> set (eg_rows s). engagement_ok e)"

definition ready_row :: "egdb \<Rightarrow> string \<Rightarrow> bool" where
  "ready_row s i \<longleftrightarrow> (\<exists>e \<in> set (eg_rows s). eg_id e = i \<and> isLaunchReady (eg_stage e))"

lemma egs_row: "egs_ok s \<Longrightarrow> e \<in> set (eg_rows s) \<Longrightarrow> x \<in> set (eg_rows s) \<Longrightarrow> eg_id x = eg_id e \<Longrightarrow> x = e"
  using distinct_column_unique [of eg_id "eg_rows s" x e] by (simp add: egs_ok_def)

lemma stage_stays_ready: "engagementNext a x = Some y \<Longrightarrow> isLaunchReady x \<Longrightarrow> isLaunchReady y"
  by (cases a) (auto simp: engagementNext_def table_next_def isLaunchReady_def PRESALES_def split: if_splits)

lemma stage_known: "engagementNext a x = Some y \<Longrightarrow> y \<in> set STAGE_ORDER \<union> {''LOST''}"
  by (cases a) (auto simp: engagementNext_def table_next_def STAGE_ORDER_def split: if_splits)

text \<open>An update of one row by its id.\<close>

lemma egs_update:
  assumes ok: "egs_ok s" and e: "e \<in> set (eg_rows s)" and f: "\<And>x. eg_id (f x) = eg_id x" "engagement_ok (f e)"
    and rows: "eg_rows s' = tupd (\<lambda>x. eg_id x = eg_id e) f (eg_rows s)"
  shows "egs_ok s'"
proof -
  have ids: "map eg_id (eg_rows s') = map eg_id (eg_rows s)" unfolding rows by (rule map_tupd_frame) (rule f)
  have "engagement_ok x" if "x \<in> set (eg_rows s')" for x
    using that unfolding rows
  proof (cases rule: in_set_tupdE)
    case (new x0)
    with egs_row [OF ok e] f(2) show ?thesis by blast
  qed (use ok in \<open>auto simp: egs_ok_def\<close>)
  then show ?thesis using ok ids by (simp add: egs_ok_def)
qed

lemma ready_update:
  assumes ok: "egs_ok s" and e: "e \<in> set (eg_rows s)" and f: "\<And>x. eg_id (f x) = eg_id x"
    "isLaunchReady (eg_stage e) \<Longrightarrow> isLaunchReady (eg_stage (f e))"
    and rows: "eg_rows s' = tupd (\<lambda>x. eg_id x = eg_id e) f (eg_rows s)" and r: "ready_row s i"
  shows "ready_row s' i"
proof -
  from r obtain x where x: "x \<in> set (eg_rows s)" "eg_id x = i" "isLaunchReady (eg_stage x)" by (auto simp: ready_row_def)
  let ?y = "if eg_id x = eg_id e then f x else x"
  have "?y \<in> set (eg_rows s')" unfolding rows using x(1) by (auto simp: set_tupd)
  moreover have "eg_id ?y = i \<and> isLaunchReady (eg_stage ?y)" using x f egs_row [OF ok e x(1)] by auto
  ultimately show ?thesis by (auto simp: ready_row_def)
qed

lemma eg_effect_ok:
  assumes "eg_effect s s'" "egs_ok s"
  shows "egs_ok s' \<and> (\<forall>i. ready_row s i \<longrightarrow> ready_row s' i)"
  using assms(1)
proof cases
  case ge_idle
  with assms(2) show ?thesis by (simp add: egs_ok_def ready_row_def)
next
  case (ge_new e)
  then have "engagement_ok e" by (simp add: engagement_ok_def STAGE_ORDER_def statusForStage_def)
  with ge_new assms(2) show ?thesis by (auto simp: egs_ok_def ready_row_def)
next
  case (ge_move e a to)
  have "engagement_ok e" using ge_move(1) assms(2) by (simp add: egs_ok_def)
  then have "engagement_ok (e\<lparr>eg_stage := to, eg_status := statusForStage to\<rparr>)"
    using stage_known [OF ge_move(3)] stage_stays_ready [OF ge_move(3)] by (auto simp: engagement_ok_def)
  then show ?thesis
    using egs_update [OF assms(2) ge_move(1) _ _ ge_move(4)] ready_update [OF assms(2) ge_move(1) _ _ ge_move(4)] stage_stays_ready [OF ge_move(3)]
    by simp
next
  case (ge_hold e)
  have "engagement_ok e" using ge_hold(1) assms(2) by (simp add: egs_ok_def)
  then have "engagement_ok (e\<lparr>eg_status := ''ON_HOLD''\<rparr>)" using ge_hold(2) by (auto simp: engagement_ok_def)
  then show ?thesis
    using egs_update [OF assms(2) ge_hold(1) _ _ ge_hold(3)] ready_update [OF assms(2) ge_hold(1) _ _ ge_hold(3)] by simp
next
  case (ge_resume e)
  have "engagement_ok e" using ge_resume(1) assms(2) by (simp add: egs_ok_def)
  then have "engagement_ok (e\<lparr>eg_status := statusForStage (eg_stage e)\<rparr>)" by (auto simp: engagement_ok_def)
  then show ?thesis
    using egs_update [OF assms(2) ge_resume(1) _ _ ge_resume(3)] ready_update [OF assms(2) ge_resume(1) _ _ ge_resume(3)] by simp
qed

subsection \<open>Launches\<close>

lemma launch_checkE:
  assumes "launch_check tenant i b s = Inr q"
  obtains e where "load_engagement s tenant i = Inr e" "isLaunchReady (eg_stage e)" "\<not> truthy_str (eg_launch e)" "lr_for q = i" "lr_target q \<noteq> []"
proof -
  from assms obtain e where e: "load_engagement s tenant i = Inr e" "isLaunchReady (eg_stage e)" "\<not> truthy_str (eg_launch e)"
    "truthy_str (coalesce_opt (hi_target b) (eg_target e))" "lr_for q = i" "lr_target q = the (coalesce_opt (hi_target b) (eg_target e))"
    by (auto simp: launch_check_def rbind_Inr_iff Let_def)
  from that [OF e(1-3,5)] e(4,6) show thesis by (auto elim!: truthy_strE)
qed

lemma launch_calls_frames:
  "eg_rows (snd (launch_calls f q s)) = eg_rows s" "eg_events (snd (launch_calls f q s)) = eg_events s"
  "launch_calls f q s = (r, s') \<Longrightarrow> eg_rows s' = eg_rows s \<and> eg_events s' = eg_events s"
  by (auto simp: launch_calls_def Let_def split: option.splits)

lemma launch_record_frames [simp]:
  "eg_rows (launch_record t a q l s) =
     tupd (\<lambda>e. eg_id e = lr_for q) (\<lambda>e. e\<lparr>eg_launch := Some l, eg_target := Some (lr_target q)\<rparr>) (eg_rows s)"
  "eg_launches (launch_record t a q l s) = eg_launches s"
  by (simp_all add: launch_record_def)

lemma record_ok:
  assumes "egs_ok s" "ready_row s (lr_for q)"
  shows "egs_ok (launch_record t a q l s) \<and> (\<forall>i. ready_row s i \<longrightarrow> ready_row (launch_record t a q l s) i)"
proof -
  let ?f = "\<lambda>e. e\<lparr>eg_launch := Some l, eg_target := Some (lr_target q)\<rparr>"
  from assms(2) obtain e where e: "e \<in> set (eg_rows s)" "eg_id e = lr_for q" "isLaunchReady (eg_stage e)" by (auto simp: ready_row_def)
  have rows: "eg_rows (launch_record t a q l s) = tupd (\<lambda>x. eg_id x = eg_id e) ?f (eg_rows s)" by (simp add: e(2))
  have "engagement_ok e" using e(1) assms(1) by (simp add: egs_ok_def)
  then have "engagement_ok (?f e)" using e(3) by (auto simp: engagement_ok_def)
  with egs_update [OF assms(1) e(1) _ _ rows] ready_update [OF assms(1) e(1) _ _ rows] show ?thesis by simp
qed

definition flight_ok :: "egdb \<times> launch_call list \<Rightarrow> bool" where
  "flight_ok x \<longleftrightarrow> egs_ok (fst x) \<and> (\<forall>k \<in> set (snd x). ready_row (fst x) (lr_for (lc_request k)))"

lemma in_dropped: "x \<in> set (take k xs @ drop (Suc k) xs) \<Longrightarrow> x \<in> set xs"
  by (auto dest: in_set_takeD in_set_dropD)

lemma eg_step_ok: "eg_step f c x y \<Longrightarrow> flight_ok x \<Longrightarrow> flight_ok y"
proof (induction rule: eg_step.induct)
  case (gs_handler s s' calls)
  with eg_effect_ok [OF eg_handler_effect [OF gs_handler(1)]] show ?case by (auto simp: flight_ok_def)
next
  case (gs_check tenant i b s q calls actor)
  from gs_check(1) obtain e where "load_engagement s tenant i = Inr e" "isLaunchReady (eg_stage e)" "lr_for q = i" by (rule launch_checkE)
  then have "ready_row s (lr_for q)" using load_engagement_InrD by (fastforce simp: ready_row_def)
  with gs_check(2) show ?case by (auto simp: flight_ok_def)
next
  case (gs_fail k calls s e s')
  have "eg_rows s' = eg_rows s" using launch_calls_frames(3) [OF gs_fail(3)] by simp
  moreover have "set (take k calls @ drop (Suc k) calls) \<subseteq> set calls" by (rule subsetI) (rule in_dropped)
  ultimately show ?case using gs_fail(4) unfolding flight_ok_def egs_ok_def ready_row_def fst_conv snd_conv by auto
next
  case (gs_calls k calls s l s')
  have rows: "eg_rows s' = eg_rows s" using launch_calls_frames(3) [OF gs_calls(3)] by simp
  have "ready_row s (lr_for (lc_request z))" if "z \<in> set (calls[k := (calls ! k)\<lparr>lc_done := Some l\<rparr>])" for z
  proof (cases "z \<in> set calls")
    case True
    with gs_calls(4) show ?thesis by (simp add: flight_ok_def)
  next
    case False
    with that set_update_subset_insert [of calls k] have "z = (calls ! k)\<lparr>lc_done := Some l\<rparr>" by blast
    with gs_calls(1,4) show ?thesis by (simp add: flight_ok_def)
  qed
  with gs_calls(4) show ?case by (simp add: flight_ok_def egs_ok_def ready_row_def rows)
next
  case (gs_record k calls l s)
  then have "ready_row s (lr_for (lc_request (calls ! k)))" "egs_ok s" by (auto simp: flight_ok_def)
  with record_ok gs_record(3) in_dropped show ?case unfolding flight_ok_def fst_conv snd_conv by metis
qed

text \<open>
  Engagements stay consistent, launches in flight included: the stage is one of the pipeline's, the
  status is the one of the stage unless the engagement is on hold, and then it is not at its end, and
  only an engagement at or after go-live carries a launch.
\<close>
theorem engagements_sound:
  assumes "(eg_step f c)\<^sup>*\<^sup>* (s, calls) (s', calls')" "flight_ok (s, calls)" "e \<in> set (eg_rows s')"
  shows "eg_stage e \<in> set STAGE_ORDER \<union> {''LOST''} \<and>
    (eg_status e = statusForStage (eg_stage e) \<or> eg_status e = ''ON_HOLD'' \<and> eg_stage e \<notin> {''LOST'', ''CUSTOMER_SUCCESS''}) \<and>
    (eg_launch e \<noteq> None \<longrightarrow> isLaunchReady (eg_stage e))"
proof -
  have "flight_ok (s', calls')" using assms(1,2) by (induction rule: rtranclp_induct) (use eg_step_ok in blast)+
  with assms(3) show ?thesis by (auto simp: flight_ok_def egs_ok_def engagement_ok_def)
qed


subsection \<open>How often a tenant is launched\<close>

definition launches_for :: "egdb \<Rightarrow> string \<Rightarrow> launch_row list" where
  "launches_for s i = filter (\<lambda>w. lr_for (lw_request w) = i) (eg_launches s)"

text \<open>Every engagement refers to its one launch, and there is no other.\<close>

definition launched_ok :: "egdb \<Rightarrow> bool" where
  "launched_ok s \<longleftrightarrow> distinct (map eg_id (eg_rows s)) \<and> (\<forall>w \<in> set (eg_launches s). lr_for (lw_request w) \<in> eg_id ` set (eg_rows s)) \<and>
     (\<forall>e \<in> set (eg_rows s). length (launches_for s (eg_id e)) = (if truthy_str (eg_launch e) then 1 else 0))"

lemma launched_update:
  assumes ok: "launched_ok s" and f: "\<And>x. eg_id (f x) = eg_id x" "\<And>x. eg_launch (f x) = eg_launch x"
    and rows: "eg_rows s' = tupd (\<lambda>x. eg_id x = i) f (eg_rows s)" and same: "eg_launches s' = eg_launches s"
  shows "launched_ok s'"
proof -
  have ids: "map eg_id (eg_rows s') = map eg_id (eg_rows s)" unfolding rows by (rule map_tupd_frame) (rule f)
  then have "eg_id ` set (eg_rows s') = eg_id ` set (eg_rows s)" by (metis set_map)
  moreover have "length (launches_for s' (eg_id e)) = (if truthy_str (eg_launch e) then 1 else 0)" if "e \<in> set (eg_rows s')" for e
    using that ok f unfolding rows by (elim in_set_tupdE) (auto simp: launched_ok_def launches_for_def same)
  ultimately show ?thesis using ok ids same by (simp add: launched_ok_def)
qed

lemma launched_effect: "eg_effect s s' \<Longrightarrow> launched_ok s \<Longrightarrow> launched_ok s'"
proof (induction rule: eg_effect.induct)
  case (ge_new e s s')
  have "lr_for (lw_request w) \<noteq> eg_id e" if "w \<in> set (eg_launches s)" for w
    using ge_new(1,8) that unfolding launched_ok_def by metis
  then have "launches_for s (eg_id e) = []" by (simp add: launches_for_def filter_empty_conv)
  with ge_new show ?case by (auto simp: launched_ok_def launches_for_def)
next
  case (ge_move e s a to s')
  from launched_update [OF ge_move(7) _ _ ge_move(4,6)] show ?case by simp
next
  case (ge_hold e s s')
  from launched_update [OF ge_hold(6) _ _ ge_hold(3,5)] show ?case by simp
next
  case (ge_resume e s s')
  from launched_update [OF ge_resume(6) _ _ ge_resume(3,5)] show ?case by simp
qed (simp add: launched_ok_def launches_for_def)

text \<open>What a launch does when every launch that was created also runs.\<close>

lemma launchTenant_cases:
  assumes "launchTenant f tenant actor i b s = (r, s')" "\<And>ls l. fc_run f ls l = Some l"
  obtains "s' = s"
  | q l where "launch_check tenant i b s = Inr q" "fc_create f (eg_launches s) q = Some l" "r = Inr l"
      "eg_launches s' = eg_launches s @ [\<lparr>lw_id = l, lw_request = q\<rparr>]"
      "eg_rows s' = tupd (\<lambda>e. eg_id e = lr_for q) (\<lambda>e. e\<lparr>eg_launch := Some l, eg_target := Some (lr_target q)\<rparr>) (eg_rows s)"
proof (cases "launch_check tenant i b s")
  case (Inl e)
  with assms(1) that(1) show thesis by (simp add: launchTenant_def)
next
  case (Inr q)
  show thesis
  proof (cases "fc_create f (eg_launches s) q")
    case None
    with Inr assms(1) that(1) show thesis by (simp add: launchTenant_def launch_calls_def)
  next
    case (Some l)
    with Inr assms show thesis by (intro that(2) [OF Inr Some]) (auto simp: launchTenant_def launch_calls_def Let_def)
  qed
qed

lemma launched_launch:
  assumes "launchTenant f tenant actor i b s = (r, s')" "launched_ok s" "\<And>ls l. fc_run f ls l = Some l"
    and truthy: "\<And>ls q l. fc_create f ls q = Some l \<Longrightarrow> l \<noteq> []"
  shows "launched_ok s'"
  using assms(1,3)
proof (cases rule: launchTenant_cases)
  case 1
  with assms(2) show ?thesis by simp
next
  case (2 q l)
  let ?f = "\<lambda>e. e\<lparr>eg_launch := Some l, eg_target := Some (lr_target q)\<rparr>"
  obtain e where e: "e \<in> set (eg_rows s)" "eg_id e = lr_for q" "\<not> truthy_str (eg_launch e)"
    using 2(1) by (rule launch_checkE) (use load_engagement_InrD in blast)
  have ids: "map eg_id (eg_rows s') = map eg_id (eg_rows s)" unfolding 2(5) by (rule map_tupd_frame) simp
  then have idset: "eg_id ` set (eg_rows s') = eg_id ` set (eg_rows s)" by (metis set_map)
  have none: "launches_for s (lr_for q) = []" using assms(2) e by (auto simp: launched_ok_def)
  have "length (launches_for s' (eg_id x)) = (if truthy_str (eg_launch x) then 1 else 0)" if "x \<in> set (eg_rows s')" for x
    using that unfolding 2(5)
  proof (cases rule: in_set_tupdE)
    case (new x0)
    with none truthy [OF 2(2)] show ?thesis by (simp add: launches_for_def 2(4))
  next
    case old
    with assms(2) show ?thesis by (simp add: launched_ok_def launches_for_def 2(4))
  qed
  moreover have "lr_for q \<in> eg_id ` set (eg_rows s)" using e(1,2) by force
  ultimately show ?thesis using assms(2) ids idset 2(4) by (auto simp: launched_ok_def)
qed

text \<open>
  C13. When launch calls do not overlap and every created launch runs, a customer tenant is launched once: the
  Launch Factory has exactly one launch for an engagement that carries one, and none for any other.
\<close>
theorem launched_once:
  assumes "(eg_serial f c)\<^sup>*\<^sup>* s s'" "launched_ok s" "\<forall>ls l. fc_run f ls l = Some l" "\<forall>ls q l. fc_create f ls q = Some l \<longrightarrow> l \<noteq> []"
  shows "\<forall>e \<in> set (eg_rows s'). length (filter (\<lambda>w. lr_for (lw_request w) = eg_id e) (eg_launches s')) = (if truthy_str (eg_launch e) then 1 else 0)"
proof -
  have "launched_ok s'"
    using assms(1,2)
  proof (induction rule: rtranclp_induct)
    case (step u w)
    then have "launched_ok u" by blast
    from step(2) show ?case
    proof cases
      case gr_handler
      with launched_effect [OF eg_handler_effect] \<open>launched_ok u\<close> show ?thesis by blast
    next
      case (gr_launch tenant actor i b r)
      with launched_launch [OF gr_launch(1) \<open>launched_ok u\<close>] assms(3,4) show ?thesis by blast
    qed
  qed
  then show ?thesis by (simp add: launched_ok_def launches_for_def)
qed

text \<open>
  C37. Two launch calls that overlap both pass the check: from every state in which an engagement may
  be launched, its tenant can be launched twice.
\<close>
theorem launch_race:
  assumes "launch_check tenant i b s = Inr q" "\<forall>ls q. fc_create f ls q \<noteq> None" "\<forall>ls l. fc_run f ls l \<noteq> None"
  shows "\<exists>s'. (eg_step f c)\<^sup>*\<^sup>* (s, []) (s', []) \<and>
    length (filter (\<lambda>w. lr_for (lw_request w) = i) (eg_launches s')) = length (filter (\<lambda>w. lr_for (lw_request w) = i) (eg_launches s)) + 2"
proof -
  have q: "lr_for q = i" using assms(1) by (rule launch_checkE)
  have call: "\<exists>l u. launch_calls f q s = (Inr l, u) \<and> eg_launches u = eg_launches s @ [\<lparr>lw_id = the (fc_create f (eg_launches s) q), lw_request = q\<rparr>]" for s
  proof -
    obtain l where l: "fc_create f (eg_launches s) q = Some l" using assms(2) by blast
    obtain r where "fc_run f (eg_launches s @ [\<lparr>lw_id = l, lw_request = q\<rparr>]) l = Some r" using assms(3) by blast
    with l show ?thesis by (simp add: launch_calls_def Let_def)
  qed
  let ?k = "\<lambda>d. \<lparr>lc_tenant = tenant, lc_actor = ''a'', lc_request = q, lc_done = d\<rparr>"
  obtain l u where u: "launch_calls f q s = (Inr l, u)" "eg_launches u = eg_launches s @ [\<lparr>lw_id = the (fc_create f (eg_launches s) q), lw_request = q\<rparr>]"
    using call by blast
  obtain m w where w: "launch_calls f q u = (Inr m, w)" "eg_launches w = eg_launches u @ [\<lparr>lw_id = the (fc_create f (eg_launches u) q), lw_request = q\<rparr>]"
    using call by blast
  let ?s1 = "launch_record tenant ''a'' q l w" let ?s2 = "launch_record tenant ''a'' q m ?s1"
  have "eg_step f c (s, []) (s, [?k None])" using gs_check [OF assms(1), of f c "[]"] by simp
  moreover have "eg_step f c (s, [?k None]) (s, [?k None, ?k None])" using gs_check [OF assms(1), of f c "[?k None]"] by simp
  moreover have "eg_step f c (s, [?k None, ?k None]) (u, [?k (Some l), ?k None])"
    using gs_calls [of 0 "[?k None, ?k None]" f s l u c] u(1) by simp
  moreover have "eg_step f c (u, [?k (Some l), ?k None]) (w, [?k (Some l), ?k (Some m)])"
    using gs_calls [of 1 "[?k (Some l), ?k None]" f u m w c] w(1) by simp
  moreover have "eg_step f c (w, [?k (Some l), ?k (Some m)]) (?s1, [?k (Some m)])"
    using gs_record [of 0 "[?k (Some l), ?k (Some m)]" l f c w] by simp
  moreover have "eg_step f c (?s1, [?k (Some m)]) (?s2, [])" using gs_record [of 0 "[?k (Some m)]" m f c ?s1] by simp
  ultimately have "(eg_step f c)\<^sup>*\<^sup>* (s, []) (?s2, [])" by (meson converse_rtranclp_into_rtranclp rtranclp.rtrancl_refl)
  moreover have "length (filter (\<lambda>w. lr_for (lw_request w) = i) (eg_launches ?s2)) = length (filter (\<lambda>w. lr_for (lw_request w) = i) (eg_launches s)) + 2"
    by (simp add: u(2) w(2) q)
  ultimately show ?thesis by blast
qed

text \<open>
  A launch whose run fails is an error for the caller, but it stays in the factory with no engagement
  referring to it, and the same call is accepted again and creates another one.
\<close>
theorem launch_failure_orphans:
  assumes "launch_check tenant i b s = Inr q" "fc_create f (eg_launches s) q = Some l" "\<forall>ls. fc_run f ls l = None"
  shows "\<exists>s'. launchTenant f tenant actor i b s = (Inl TypeErr, s') \<and> eg_rows s' = eg_rows s \<and>
    length (eg_launches s') = Suc (length (eg_launches s)) \<and> launch_check tenant i b s' = Inr q"
proof -
  let ?s = "s\<lparr>eg_launches := eg_launches s @ [\<lparr>lw_id = l, lw_request = q\<rparr>]\<rparr>"
  have "launch_check tenant i b ?s = launch_check tenant i b s" by (simp add: launch_check_def load_engagement_def)
  with assms show ?thesis by (intro exI [of _ ?s]) (simp add: launchTenant_def launch_calls_def Let_def)
qed

subsection \<open>The pipeline figures\<close>

definition counts :: "(string \<times> nat) list \<Rightarrow> nat" where
  "counts xs = sum_list (map snd xs)"

lemma bump_keys: "distinct (map fst xs) \<Longrightarrow> distinct (map fst (bump k xs))"
  by (force simp: bump_def case_prod_unfold comp_def)

lemma bump_counts: "distinct (map fst xs) \<Longrightarrow> counts (bump k xs) = Suc (counts xs)"
proof (induction xs)
  case (Cons x xs)
  have same: "map (\<lambda>(j, n). (j, if j = k then Suc n else n)) xs = xs" if "k \<notin> fst ` set xs"
    using that by (induction xs) (auto simp: image_iff)
  show ?case
  proof (cases "fst x = k")
    case True
    with Cons.prems have "k \<notin> fst ` set xs" by auto
    with True same show ?thesis by (cases x) (simp add: bump_def counts_def)
  next
    case False
    with Cons show ?thesis by (cases x) (auto simp: bump_def counts_def split: if_splits)
  qed
qed (simp add: bump_def counts_def)

lemma fold_bump: "distinct (map fst xs) \<Longrightarrow> counts (fold (\<lambda>e. bump (g e)) rows xs) = counts xs + length rows"
  by (induction rows arbitrary: xs) (simp_all add: bump_keys bump_counts)

text \<open>The two breakdowns of the pipeline add up to its total.\<close>

theorem pipeline_adds_up:
  "sum_list (map snd (pl_byStage (pipelineEngagements tenant s))) = pl_total (pipelineEngagements tenant s) \<and>
   sum_list (map snd (pl_byStatus (pipelineEngagements tenant s))) = pl_total (pipelineEngagements tenant s)"
  using fold_bump [of "[]" _ "filter (\<lambda>e. eg_tenant e = tenant) (eg_rows s)"] by (simp add: pipelineEngagements_def Let_def counts_def)

subsection \<open>An example\<close>

definition delivery_db :: egdb where
  "delivery_db = \<lparr>o_docs = [], o_versions = [], o_files = [], o_res = [], o_audit = [], o_org = empty_idb, o_seq = 0,
     eg_rows = [\<lparr>eg_id = ''g1'', eg_tenant = ''t1'', eg_code = ''ENG-1'', eg_customer = ''Acme'', eg_industry = None, eg_prospect = Some 12,
       eg_target = Some ''acme'', eg_blueprint = None, eg_seed = None, eg_stage = ''GO_LIVE'', eg_status = ''LIVE'', eg_owner = ''an'',
       eg_value = Some 100, eg_launch = None\<rparr>], eg_events = [], eg_launches = []\<rparr>"

definition no_choice :: launch_in where
  "no_choice = \<lparr>hi_target = None, hi_no = None, hi_blueprint = None, hi_seed = None, hi_name = None, hi_class = None\<rparr>"

definition good_factory :: factory where
  "good_factory = \<lparr>fc_create = (\<lambda>ls q. Some (''L'' @ show_nat (length ls))), fc_run = (\<lambda>ls l. Some l)\<rparr>"

definition bad_factory :: factory where
  "bad_factory = good_factory\<lparr>fc_run := (\<lambda>ls l. None)\<rparr>"

lemma launch_allowed: "launch_check ''t1'' ''g1'' no_choice delivery_db = Inr (projr (launch_check ''t1'' ''g1'' no_choice delivery_db))"
  by (rule ok_projr) code_simp

definition gone_live :: egdb where "gone_live = snd (launchTenant good_factory ''t1'' ''an'' ''g1'' no_choice delivery_db)"

lemma gone_live_run: "(eg_serial good_factory c)\<^sup>*\<^sup>* delivery_db gone_live"
proof -
  have "launchTenant good_factory ''t1'' ''an'' ''g1'' no_choice delivery_db = (fst (launchTenant good_factory ''t1'' ''an'' ''g1'' no_choice delivery_db), gone_live)"
    by (simp add: gone_live_def)
  then have "eg_serial good_factory c delivery_db gone_live" by (rule gr_launch)
  then show ?thesis by (rule r_into_rtranclp)
qed

lemma launched_once_witness: "length (filter (\<lambda>w. lr_for (lw_request w) = ''g1'') (eg_launches gone_live)) = 1"
proof -
  have "map (\<lambda>e. (eg_id e, truthy_str (eg_launch e))) (eg_rows gone_live) = [(''g1'', True)]" by code_simp
  moreover have "launched_ok delivery_db" by (simp add: launched_ok_def launches_for_def delivery_db_def)
  ultimately show ?thesis
    using launched_once [OF gone_live_run [of demo_codec]] by (auto simp: good_factory_def Cons_eq_map_conv)
qed

lemma launch_race_witness:
  "\<exists>s'. (eg_step good_factory demo_codec)\<^sup>*\<^sup>* (delivery_db, []) (s', []) \<and> length (filter (\<lambda>w. lr_for (lw_request w) = ''g1'') (eg_launches s')) = 2"
proof -
  have "\<forall>ls q. fc_create good_factory ls q \<noteq> None" "\<forall>ls l. fc_run good_factory ls l \<noteq> None" "eg_launches delivery_db = []"
    by (simp_all add: good_factory_def delivery_db_def)
  with launch_race [OF launch_allowed this(1,2), of demo_codec] show ?thesis by (simp add: numeral_2_eq_2)
qed

lemma launch_failure_orphans_witness: "\<exists>s'. launchTenant bad_factory ''t1'' ''an'' ''g1'' no_choice delivery_db = (Inl TypeErr, s') \<and> length (eg_launches s') = 1"
proof -
  have "fc_create bad_factory (eg_launches delivery_db) q = Some (''L'' @ show_nat 0)" "\<forall>ls. fc_run bad_factory ls l = None"
    "eg_launches delivery_db = []" for q l
    by (simp_all add: bad_factory_def good_factory_def delivery_db_def)
  with launch_failure_orphans [OF launch_allowed this(1,2), of "''an''"] show ?thesis by auto
qed

lemma engagements_sound_witness:
  "\<exists>e \<in> set (eg_rows delivery_db). eg_stage e = ''GO_LIVE'' \<and> (eg_status e = statusForStage (eg_stage e) \<or> eg_status e = ''ON_HOLD'')"
proof -
  have ok: "flight_ok (delivery_db, [])"
    by (simp add: flight_ok_def egs_ok_def engagement_ok_def delivery_db_def STAGE_ORDER_def statusForStage_def)
  obtain e where e: "e \<in> set (eg_rows delivery_db)" "eg_stage e = ''GO_LIVE''" by (simp add: delivery_db_def)
  have "(eg_step good_factory demo_codec)\<^sup>*\<^sup>* (delivery_db, []) (delivery_db, [])" by (rule rtranclp.rtrancl_refl)
  from engagements_sound [OF this ok e(1)] e show ?thesis by blast
qed

end
