(* ===== verification/Spec2Isabelle.thy ===== *)
theory Spec2Isabelle
  imports
    Fsm Connector Condition_Ast Org_Chart Delegations Scheduler Workflow_Examples
    Tickets Bookings Requests Leave Work_Stats Contracts Support_Cases Auth
    Announcements Directives Engagements
begin

text \<open>
  XHub is a multi-tenant back office. Its API (xhub-api/src, NestJS over PostgreSQL with Prisma)
  runs approval workflows, a service desk, bookings, requests and their documents over one
  organisation and permission model; the web client (xhub-web) only displays it. This development
  models the core of the API: what the handlers read, check and write.

  How the code is read.
  \<^item> A handler runs in one database transaction (\<open>withTenant\<close>); a thrown exception rolls it back.
    It is a function from the database to \<open>error + (result \<times> database)\<close>, so an \<open>Inl\<close> carries no
    database. Where the source runs pieces that other requests can interleave (the conflict check of
    bookings, the calls of a launch or an escalation to another process, loading and redeeming a one-time
    token), the pieces are definitions and steps of their own, and a property about calls that do not
    overlap says so. What another process accepted is not rolled back. The file that \<open>appendVersion\<close>
    writes is part of its step here; in the source it stays when the transaction fails.
  \<^item> A table is a list of rows in insertion order; \<open>findFirst\<close>, \<open>findMany\<close>, \<open>update where\<close> are
    \<open>tfind\<close>, \<open>filter\<close>, \<open>tupd\<close>. Times are integers in milliseconds, JSON numbers rationals
    (no rounding), strings lists of bytes. The clock, the random suffix of a code and generated ids
    come from an \<open>env\<close> and a counter of the state; where ids must be fresh the theorem says so.
  \<^item> Columns the code only displays (descriptions, notes, audit details, notification texts) are
    not stored. Row level security is the rows a handler sees, with the tenant filters the source
    writes out.

  The theories, in the order of their dependencies.
  \<^item> \<open>XHub_Prelude\<close>: errors, tables, JavaScript string functions, shared rewrite collections.
    \<open>Json\<close>: the JSON values and coercions of the language.
  \<^item> \<open>Fsm\<close>: every transition table of the modules (*.fsm.ts, people.constants.ts, work.fsm.ts) as
    one function per table, under the locale \<open>action_table\<close> (terminal states have no exit, the
    legal actions are the defined ones), interpreted for each table.
  \<^item> \<open>Identity\<close>, \<open>Org_Chart\<close>, \<open>Delegations\<close>: identity/identity.service.ts and permission-match.ts:
    roles, permissions and \<open>can\<close>; the tree of units, positions and role bindings; effective-dated
    delegations and position assignments with the holder cache. \<open>Assignment_Resolver\<close>:
    identity/assignment-resolver.service.ts; \<open>localeCompare\<close> is a parameter that the locale
    \<open>collation\<close> asks to be a total order.
  \<^item> \<open>Condition_Ast\<close> (xoffice/condition-ast.ts), \<open>Workflow_Graph\<close> (validation, cycle search),
    \<open>Connector\<close> (catalog, payloads, references) and \<open>Workflow_Engine\<close> (\<open>simulate\<close>, \<open>advance\<close>,
    \<open>advanceMulti\<close>): the pure part of xoffice/xoffice.service.ts.
  \<^item> \<open>Workflow_Store\<close>, \<open>Workflow_Runtime\<close>, \<open>Scheduler\<close>: its database \<open>xdb\<close> and the handlers on
    it: requests, decisions, subflows, service calls, external references, the command log,
    versions, the work item read model, lightweight approval tasks, the SLA and timer sweep.
    \<open>Workflow_Frames\<close> says which tables each of them touches and defines the step relation,
    \<open>Workflow_Props\<close> and \<open>Workflow_Safety\<close> hold its properties, \<open>Workflow_Examples\<close> concrete runs.
  \<^item> \<open>Records\<close>: records/records.service.ts and storage.service.ts over the record \<open>odb\<close>, which the
    databases of the office modules extend. SHA-256 and base64 are the parameter \<open>codec\<close>.
  \<^item> \<open>Lifecycle\<close>: what the office modules share: the locale \<open>event_sourced\<close> (a table of states, an
    event log, steps that append an action and move the state by the table) with replay of the log,
    permanence of terminal states and persistence of rows proved once.
    \<open>Tickets\<close>, \<open>Bookings\<close>, \<open>Requests\<close>: one theory per service, each with its handlers, a step
    relation of all of them and an interpretation of \<open>event_sourced\<close> (\<open>desk\<close>, \<open>book\<close>, \<open>admin\<close>).
  \<^item> \<open>Announcements\<close> (announcements/), \<open>Directives\<close> (directives/) and \<open>Engagements\<close> (delivery/), in
    the same style (interpretations \<open>news\<close>, \<open>dirs\<close>, \<open>delivery\<close>): a publication resolves its audience into
    receipts that recipients read and acknowledge, an issued directive into commitments that assignees
    work and reviewers accept, and an engagement walks the delivery pipeline to the launch of the customer's
    tenant. The Launch Factory is another process and the parameter \<open>factory\<close>; the launch handler does not
    run in one transaction, so \<open>eg_step\<close> interleaves its check, its calls and its write with everything else.
  \<^item> \<open>Leave_Ledger\<close>, \<open>Leave\<close>: the leave services of people/. The first holds configuration, policies,
    the append-only balance ledger (locale \<open>ledger\<close>) and the impact read, the second the requests
    over it. The year of an instant and the answer of the platform's outbox are the parameter \<open>host\<close>.
  \<^item> \<open>Work_Progress\<close> (work/projects/progress.ts), \<open>Work_Items\<close> (work/work.service.ts) and
    \<open>Work_Projects\<close> (work/projects/work-projects.service.ts): work items, projects, roll-up, dependencies,
    baselines, roles and shares over the record \<open>wdb\<close>; the guard against dependency cycles is an
    interpretation \<open>deps\<close> of the locale \<open>guarded_graph\<close>. \<open>Work_Safety\<close> has the step relation of both
    services and their invariants, \<open>Work_Stats\<close> the cross tables of work/stats/work-stats.service.ts.
  \<^item> \<open>Customers\<close> (customers/), \<open>Sales\<close> (commercial-catalog/, opportunities/, proposals/) and \<open>Contracts\<close>
    (contracts/, revenue-kpi/): the commercial chain over the records \<open>cudb\<close>, \<open>sadb\<close> and \<open>ctdb\<close>,
    each extending the one before. \<open>Stages\<close> has what modules with a plain table of allowed stages
    share, the locale \<open>staged\<close> (every row walks the table, final stages stay), interpreted for
    opportunities (\<open>deals\<close>) and contracts (\<open>pacts\<close>). \<open>Support_Cases\<close> (support-cases/): cases with
    generated codes and their escalation, whose check, call and local write are the steps of \<open>support_step\<close>;
    what the Engineering Hub, another process, answers is the parameter \<open>hub\<close>.
  \<^item> \<open>Auth\<close> (auth/): login, one-time tokens, suspension, the identity of a request and the two guards
    every request passes, and the writes of platform/onboarding and platform/launch to accounts and
    memberships. argon2, SHA-256, random bytes and signed JWTs are the parameter \<open>crypto\<close>; theorems that
    need it assume that a signed token opens to its claims until it expires (\<open>tokens_open\<close>; sessions
    live eight hours) and that a password verifies against its own hash. \<open>auth_step\<close> runs over the
    database and the tokens that calls in flight have loaded. The guard lets a session pass when the
    database does not answer, the case \<open>None\<close> of what \<open>sessionMembershipActive\<close> reads. The process that owns the
    memberships is modelled; the copy that X.Office synchronizes for its own guard is not.

  What the lemmas show. The workflow runtime: who decides a task (C1), commands run once (C2),
  resting tokens and open tasks agree (C3), the token walk accounts for every token, refines
  the single-token walk and finishes (C4 to C6). Then the office modules: no double booking,
  finished requests have their approval and evidence, tickets are their history, the leave ledger
  and the requests move together and never overlap, dependencies stay acyclic and baselines
  immutable, audiences get their receipts and directives their commitments, tenants are launched once, reports add up, signed contracts frozen and live ones signed and scheduled, discounts
  approved, cases filed once, documents read back what was stored. Requests: who passes the guards, sessions
  that read back while they live, tokens spent by their first redemption, suspended accounts locked out until somebody
  readmits them. The organisation: exclusive tenure and a tree of units. The rest are validation, references, the sweep, read models and conditions, and
  last the behaviours that differ from what comments of the source say, each as a theorem about
  the same definitions.

  Bounds. The walks carry the guards of the source as fuel: \<open>MAX_WALK = 60\<close> steps for a single
  token and four times as many for the token loop; at fuel 0 the model does what the source does
  when its guard runs out, and \<open>forward_walk_finishes\<close> and \<open>guard_drops_token\<close> say when that
  matters. The depth-first search of \<open>findCycles\<close> runs with fuel \<open>dfs_fuel\<close>, the number of nodes
  and edges, which \<open>findCycles_total\<close> shows to be enough and \<open>findCycles_meets\<close> to meet every cycle; the climb up the unit tree and the
  mention scan terminate by a measure.

  Not modelled: the web client; the OIDC seam; Prisma and tenancy plumbing; backup; the control plane; seeding and start-up; the registers and dashboards
  (mdm, ioc, engineering, manage) beyond their transition tables; attendance; the plain reads by id of
  tickets, bookings and requests; of the workflow service the AI drafts and catalog listings.
\<close>

end
